(* ===== verification/Autocoin_Prelude.thy ===== *)
theory Autocoin_Prelude
  imports Complex_Main "HOL-Library.AList"
begin

text \<open>
  Shared vocabulary of the development.  Python floats are modelled as \<open>real\<close>,
  Python ints as \<open>int\<close>, instants (datetime, millisecond stamps) as \<open>int\<close>, dicts
  whose insertion order is observable as association lists updated with
  \<open>AList.update\<close> (an existing key keeps its place, a new key goes to the end).
  The theory holds Python's \<open>round\<close>, the two functions of the \<open>bisect\<close> module as
  the binary searches they are, and the list facts that the components share.
\<close>

named_theorems step_defs \<open>definitions of the operations of a component\<close>
named_theorems inv_intros \<open>one operation keeps an invariant\<close>

subsection \<open>Rounding\<close>

definition py_round :: "real \<Rightarrow> int" where
  "py_round x = (let f = \<lfloor>x\<rfloor>; d = x - of_int f
                 in if d < 1 / 2 then f else if 1 / 2 < d then f + 1
                    else if even f then f else f + 1)"

definition round_dec :: "nat \<Rightarrow> real \<Rightarrow> real" where
  "round_dec n x = of_int (py_round (x * 10 ^ n)) / 10 ^ n"

abbreviation round8 :: "real \<Rightarrow> real" where
  "round8 \<equiv> round_dec 8"

lemma py_round_of_int [simp]: "py_round (of_int k) = k"
  by (simp add: py_round_def)

lemma py_round_zero [simp]: "py_round 0 = 0"
  by (simp add: py_round_def)

lemma round_dec_zero [simp]: "round_dec n 0 = 0"
  by (simp add: round_dec_def)

lemma py_round_err: "\<bar>of_int (py_round x) - x\<bar> \<le> 1 / 2"
proof -
  define d where "d = x - of_int \<lfloor>x\<rfloor>"
  have d: "0 \<le> d" "d < 1" by (simp_all add: d_def) linarith+
  have "of_int (py_round x) - x = (if d < 1 / 2 then - d else if 1 / 2 < d then 1 - d
      else if even \<lfloor>x\<rfloor> then - d else 1 - d)"
    by (simp add: py_round_def Let_def d_def)
  with d show ?thesis by (simp add: abs_if)
qed

lemma round_dec_err: "\<bar>round_dec n x - x\<bar> \<le> 1 / (2 * 10 ^ n)"
proof -
  have p: "(0::real) < 10 ^ n" by simp
  have "round_dec n x - x = (of_int (py_round (x * 10 ^ n)) - x * 10 ^ n) / 10 ^ n"
    using p by (simp add: round_dec_def diff_divide_distrib)
  then have "\<bar>round_dec n x - x\<bar> = \<bar>of_int (py_round (x * 10 ^ n)) - x * 10 ^ n\<bar> / 10 ^ n"
    using p by (simp add: abs_divide)
  also have "\<dots> \<le> (1 / 2) / 10 ^ n"
    by (rule divide_right_mono [OF py_round_err]) simp
  finally show ?thesis by simp
qed

lemma py_round_residue [simp]: "py_round (y - of_int (py_round y)) = 0"
proof -
  define f d where "f = \<lfloor>y\<rfloor>" and "d = y - of_int f"
  have d: "0 \<le> d" "d < 1" unfolding f_def d_def by linarith+
  have y: "y = of_int f + d" by (simp add: d_def)
  have fl: "\<lfloor>d\<rfloor> = 0" "\<lfloor>d - 1\<rfloor> = -1" using d by linarith+
  have "(py_round y = f \<and> d \<le> 1 / 2) \<or> (py_round y = f + 1 \<and> 1 / 2 \<le> d)"
    by (auto simp: py_round_def Let_def f_def [symmetric] d_def)
  then show ?thesis
  proof
    assume "py_round y = f \<and> d \<le> 1 / 2"
    then have "py_round (y - of_int (py_round y)) = py_round d" "d \<le> 1 / 2" by (simp_all add: y)
    with d fl show ?thesis by (auto simp: py_round_def Let_def)
  next
    assume "py_round y = f + 1 \<and> 1 / 2 \<le> d"
    then have "py_round (y - of_int (py_round y)) = py_round (d - 1)" "1 / 2 \<le> d"
      by (simp_all add: y)
    with d fl show ?thesis by (auto simp: py_round_def Let_def)
  qed
qed

lemma round_dec_residue [simp]: "round_dec n (x - round_dec n x) = 0"
  by (simp add: round_dec_def left_diff_distrib)

lemma py_round_nonneg: "0 \<le> x \<Longrightarrow> 0 \<le> py_round x"
  by (simp add: py_round_def Let_def)

lemma round_dec_nonneg [simp]: "0 \<le> x \<Longrightarrow> 0 \<le> round_dec n x"
  by (simp add: round_dec_def py_round_nonneg)

lemma round_dec_nonpos: "x \<le> 0 \<Longrightarrow> round_dec n x \<le> 0"
proof -
  assume "x \<le> 0"
  then have "x * 10 ^ n \<le> 0" by (simp add: mult_nonpos_nonneg)
  then have "py_round (x * 10 ^ n) \<le> 0"
    using py_round_err [of "x * 10 ^ n"] by linarith
  then show ?thesis by (simp add: round_dec_def divide_nonpos_pos)
qed

text \<open>The values a rounding keeps: the multiples of \<open>10^-n\<close>.\<close>

definition on_grid :: "nat \<Rightarrow> real \<Rightarrow> bool" where
  "on_grid n x \<longleftrightarrow> round_dec n x = x"

lemma on_grid_iff: "on_grid n x \<longleftrightarrow> (\<exists>k. x = of_int k / 10 ^ n)"
proof
  assume "on_grid n x"
  then show "\<exists>k. x = of_int k / 10 ^ n" by (metis on_grid_def round_dec_def)
next
  assume "\<exists>k. x = of_int k / 10 ^ n"
  then show "on_grid n x" by (auto simp: on_grid_def round_dec_def)
qed

lemma on_grid_round [simp]: "on_grid n (round_dec n x)"
  by (auto simp: on_grid_iff round_dec_def)

lemma on_grid_0 [simp]: "on_grid n 0"
  by (simp add: on_grid_def)

lemma on_grid_add: "on_grid n x \<Longrightarrow> on_grid n y \<Longrightarrow> on_grid n (x + y)"
  unfolding on_grid_iff by (metis add_divide_distrib of_int_add)

lemma on_grid_minus: "on_grid n x \<Longrightarrow> on_grid n (- x)"
  unfolding on_grid_iff by (metis minus_divide_left of_int_minus)

lemma on_grid_diff: "on_grid n x \<Longrightarrow> on_grid n y \<Longrightarrow> on_grid n (x - y)"
  using on_grid_add [of n x "- y"] on_grid_minus [of n y] by simp

lemma round_dec_on_grid: "on_grid n x \<Longrightarrow> round_dec n x = x"
  by (simp add: on_grid_def)

lemma on_grid_ge:
  assumes "on_grid n x" and "0 < x" shows "1 / 10 ^ n \<le> x"
proof -
  obtain k where k: "x = of_int k / 10 ^ n" using assms(1) by (auto simp: on_grid_iff)
  with assms(2) have "1 \<le> k" by (simp add: zero_less_divide_iff)
  then show ?thesis unfolding k by (simp add: divide_right_mono)
qed

subsection \<open>The bisect module\<close>

function bisect_right_loop :: "'a::linorder list \<Rightarrow> 'a \<Rightarrow> nat \<Rightarrow> nat \<Rightarrow> nat" where
  "bisect_right_loop a x lo hi =
     (if lo < hi
      then let mid = (lo + hi) div 2
           in if x < a ! mid then bisect_right_loop a x lo mid
              else bisect_right_loop a x (mid + 1) hi
      else lo)"
  by pat_completeness auto
termination
  by (relation "measure (\<lambda>(a, x, lo, hi). hi - lo)") auto

function bisect_left_loop :: "'a::linorder list \<Rightarrow> 'a \<Rightarrow> nat \<Rightarrow> nat \<Rightarrow> nat" where
  "bisect_left_loop a x lo hi =
     (if lo < hi
      then let mid = (lo + hi) div 2
           in if a ! mid < x then bisect_left_loop a x (mid + 1) hi
              else bisect_left_loop a x lo mid
      else lo)"
  by pat_completeness auto
termination
  by (relation "measure (\<lambda>(a, x, lo, hi). hi - lo)") auto

declare bisect_right_loop.simps [simp del] bisect_left_loop.simps [simp del]

definition bisect_right :: "'a::linorder list \<Rightarrow> 'a \<Rightarrow> nat" where
  "bisect_right a x = bisect_right_loop a x 0 (length a)"

definition bisect_left :: "'a::linorder list \<Rightarrow> 'a \<Rightarrow> nat" where
  "bisect_left a x = bisect_left_loop a x 0 (length a)"

lemma bisect_right_loop_spec:
  assumes "sorted a" "lo \<le> hi" "hi \<le> length a"
    and "\<And>j. j < lo \<Longrightarrow> a ! j \<le> x" and "\<And>j. hi \<le> j \<Longrightarrow> j < length a \<Longrightarrow> x < a ! j"
  shows "lo \<le> bisect_right_loop a x lo hi \<and> bisect_right_loop a x lo hi \<le> hi
    \<and> (\<forall>j < length a. j < bisect_right_loop a x lo hi \<longleftrightarrow> a ! j \<le> x)"
  using assms
proof (induction a x lo hi rule: bisect_right_loop.induct)
  case (1 a x lo hi)
  show ?case
  proof (cases "lo < hi")
    case False
    then have eq: "bisect_right_loop a x lo hi = lo"
      by (simp add: bisect_right_loop.simps [of a x lo hi])
    from False "1.prems"(2) have "lo = hi" by simp
    with "1.prems"(4,5) show ?thesis unfolding eq by (auto simp: not_less [symmetric])
  next
    case lt: True
    define m where "m = (lo + hi) div 2"
    have m: "lo \<le> m" "m < hi" using lt by (auto simp: m_def)
    show ?thesis
    proof (cases "x < a ! m")
      case True
      have "\<And>j. m \<le> j \<Longrightarrow> j < length a \<Longrightarrow> x < a ! j"
      proof -
        fix j assume "m \<le> j" "j < length a"
        then have "a ! m \<le> a ! j" using "1.prems"(1) by (intro sorted_nth_mono) auto
        with True show "x < a ! j" by simp
      qed
      with "1.IH"(1) [OF lt m_def True] "1.prems" m
      have "lo \<le> bisect_right_loop a x lo m \<and> bisect_right_loop a x lo m \<le> m
        \<and> (\<forall>j < length a. j < bisect_right_loop a x lo m \<longleftrightarrow> a ! j \<le> x)" by simp
      with lt True m show ?thesis
        by (auto simp: bisect_right_loop.simps [of a x lo hi] m_def [symmetric] Let_def)
    next
      case False
      have "\<And>j. j < m + 1 \<Longrightarrow> a ! j \<le> x"
      proof -
        fix j assume "j < m + 1"
        then have "a ! j \<le> a ! m" using "1.prems"(1,3) m by (intro sorted_nth_mono) auto
        with False show "a ! j \<le> x" by simp
      qed
      with "1.IH"(2) [OF lt m_def False] "1.prems" m
      have "m + 1 \<le> bisect_right_loop a x (m + 1) hi \<and> bisect_right_loop a x (m + 1) hi \<le> hi
        \<and> (\<forall>j < length a. j < bisect_right_loop a x (m + 1) hi \<longleftrightarrow> a ! j \<le> x)" by simp
      with lt False m show ?thesis
        by (auto simp: bisect_right_loop.simps [of a x lo hi] m_def [symmetric] Let_def)
    qed
  qed
qed

lemma bisect_left_loop_spec:
  assumes "sorted a" "lo \<le> hi" "hi \<le> length a"
    and "\<And>j. j < lo \<Longrightarrow> a ! j < x" and "\<And>j. hi \<le> j \<Longrightarrow> j < length a \<Longrightarrow> x \<le> a ! j"
  shows "lo \<le> bisect_left_loop a x lo hi \<and> bisect_left_loop a x lo hi \<le> hi
    \<and> (\<forall>j < length a. j < bisect_left_loop a x lo hi \<longleftrightarrow> a ! j < x)"
  using assms
proof (induction a x lo hi rule: bisect_left_loop.induct)
  case (1 a x lo hi)
  show ?case
  proof (cases "lo < hi")
    case False
    then have eq: "bisect_left_loop a x lo hi = lo"
      by (simp add: bisect_left_loop.simps [of a x lo hi])
    from False "1.prems"(2) have "lo = hi" by simp
    with "1.prems"(4,5) show ?thesis unfolding eq by (auto simp: not_less [symmetric])
  next
    case lt: True
    define m where "m = (lo + hi) div 2"
    have m: "lo \<le> m" "m < hi" using lt by (auto simp: m_def)
    show ?thesis
    proof (cases "a ! m < x")
      case False
      have "\<And>j. m \<le> j \<Longrightarrow> j < length a \<Longrightarrow> x \<le> a ! j"
      proof -
        fix j assume "m \<le> j" "j < length a"
        then have "a ! m \<le> a ! j" using "1.prems"(1) by (intro sorted_nth_mono) auto
        with False show "x \<le> a ! j" by simp
      qed
      with "1.IH"(2) [OF lt m_def False] "1.prems" m
      have "lo \<le> bisect_left_loop a x lo m \<and> bisect_left_loop a x lo m \<le> m
        \<and> (\<forall>j < length a. j < bisect_left_loop a x lo m \<longleftrightarrow> a ! j < x)" by simp
      with lt False m show ?thesis
        by (auto simp: bisect_left_loop.simps [of a x lo hi] m_def [symmetric] Let_def)
    next
      case True
      have "\<And>j. j < m + 1 \<Longrightarrow> a ! j < x"
      proof -
        fix j assume "j < m + 1"
        then have "a ! j \<le> a ! m" using "1.prems"(1,3) m by (intro sorted_nth_mono) auto
        with True show "a ! j < x" by simp
      qed
      with "1.IH"(1) [OF lt m_def True] "1.prems" m
      have "m + 1 \<le> bisect_left_loop a x (m + 1) hi \<and> bisect_left_loop a x (m + 1) hi \<le> hi
        \<and> (\<forall>j < length a. j < bisect_left_loop a x (m + 1) hi \<longleftrightarrow> a ! j < x)" by simp
      with lt True m show ?thesis
        by (auto simp: bisect_left_loop.simps [of a x lo hi] m_def [symmetric] Let_def)
    qed
  qed
qed

lemma bisect_right_iff:
  "sorted a \<Longrightarrow> j < length a \<Longrightarrow> j < bisect_right a x \<longleftrightarrow> a ! j \<le> x"
  using bisect_right_loop_spec [of a 0 "length a" x] by (simp add: bisect_right_def)

lemma bisect_right_le: "sorted a \<Longrightarrow> bisect_right a x \<le> length a"
  using bisect_right_loop_spec [of a 0 "length a" x] by (simp add: bisect_right_def)

lemma bisect_left_iff:
  "sorted a \<Longrightarrow> j < length a \<Longrightarrow> j < bisect_left a x \<longleftrightarrow> a ! j < x"
  using bisect_left_loop_spec [of a 0 "length a" x] by (simp add: bisect_left_def)

lemma bisect_left_le: "sorted a \<Longrightarrow> bisect_left a x \<le> length a"
  using bisect_left_loop_spec [of a 0 "length a" x] by (simp add: bisect_left_def)

text \<open>On a sorted list the searches count the elements up to (below) the key.\<close>

lemma bisect_right_count:
  assumes "sorted a" shows "bisect_right a x = length (filter (\<lambda>y. y \<le> x) a)"
proof -
  have le: "bisect_right a x \<le> length a" by (rule bisect_right_le [OF assms])
  have "{i. i < length a \<and> a ! i \<le> x} = {..< bisect_right a x}"
    using bisect_right_iff [OF assms, of _ x] le by (auto intro: less_le_trans)
  then show ?thesis by (simp add: length_filter_conv_card)
qed

lemma bisect_left_count:
  assumes "sorted a" shows "bisect_left a x = length (filter (\<lambda>y. y < x) a)"
proof -
  have le: "bisect_left a x \<le> length a" by (rule bisect_left_le [OF assms])
  have "{i. i < length a \<and> a ! i < x} = {..< bisect_left a x}"
    using bisect_left_iff [OF assms, of _ x] le by (auto intro: less_le_trans)
  then show ?thesis by (simp add: length_filter_conv_card)
qed

lemma length_filter_mono':
  "(\<And>y. y \<in> set a \<Longrightarrow> P y \<Longrightarrow> Q y) \<Longrightarrow> length (filter P a) \<le> length (filter Q a)"
  by (induction a) auto

text \<open>Appending a later key, or dropping keys the search is past, does not move the result.\<close>

lemma bisect_right_append:
  assumes "sorted (xs @ [t])" "x < t" shows "bisect_right (xs @ [t]) x = bisect_right xs x"
proof -
  have "sorted xs" using assms(1) by (simp add: sorted_append)
  then show ?thesis using assms by (simp add: bisect_right_count)
qed

lemma bisect_left_append:
  assumes "sorted (xs @ [t])" "x < t" shows "bisect_left (xs @ [t]) x = bisect_left xs x"
proof -
  have "sorted xs" using assms(1) by (simp add: sorted_append)
  then show ?thesis using assms by (simp add: bisect_left_count)
qed

lemma bisect_right_mono: "sorted a \<Longrightarrow> x \<le> y \<Longrightarrow> bisect_right a x \<le> bisect_right a y"
  by (simp add: bisect_right_count) (rule length_filter_mono', auto)

lemma bisect_right_drop:
  assumes "sorted a" "k \<le> bisect_right a x"
  shows "bisect_right (drop k a) x = bisect_right a x - k"
proof -
  have k: "k \<le> length a" using assms bisect_right_le [OF assms(1), of x] by simp
  have "\<forall>y\<in>set (take k a). y \<le> x"
  proof
    fix y assume "y \<in> set (take k a)"
    then obtain j where j: "j < k" "y = a ! j" using k by (auto simp: in_set_conv_nth)
    then show "y \<le> x" using bisect_right_iff [OF assms(1), of j x] assms(2) k by simp
  qed
  then have "filter (\<lambda>y. y \<le> x) (take k a) = take k a" by (simp add: filter_id_conv)
  then have "length (filter (\<lambda>y. y \<le> x) a) = k + length (filter (\<lambda>y. y \<le> x) (drop k a))"
    using k filter_append [of "\<lambda>y. y \<le> x" "take k a" "drop k a"] by simp
  then show ?thesis
    using assms(1) by (simp add: bisect_right_count)
qed

subsection \<open>Results with a state\<close>

lemma map_prod_idD: "map_prod f id x = (a, b) \<Longrightarrow> f (fst x) = a \<and> snd x = b"
  by (cases x) simp

subsection \<open>Lists and dicts\<close>

lemma map_of_update [simp]: "map_of (AList.update k v al) = (map_of al)(k \<mapsto> v)"
  by (simp add: update_conv')

lemma distinct_keys_update [simp]:
  "distinct (map fst al) \<Longrightarrow> distinct (map fst (AList.update k v al))"
  by (rule distinct_update)

definition adel :: "'k \<Rightarrow> ('k \<times> 'v) list \<Rightarrow> ('k \<times> 'v) list" where
  "adel k al = filter (\<lambda>e. fst e \<noteq> k) al"

lemma map_of_adel [simp]: "map_of (adel k al) = (map_of al)(k := None)"
  by (induction al) (auto simp: adel_def fun_eq_iff)

lemma distinct_adel [simp]: "distinct (map fst al) \<Longrightarrow> distinct (map fst (adel k al))"
  by (simp add: adel_def distinct_map_filter)

subsection \<open>Decimal text\<close>

fun show_nat :: "nat \<Rightarrow> string" where
  "show_nat n = (if n < 10 then [char_of (48 + n)] else show_nat (n div 10) @ [char_of (48 + n mod 10)])"

declare show_nat.simps [simp del]

fun digits :: "nat \<Rightarrow> nat \<Rightarrow> string" where
  "digits 0 n = ''''"
| "digits (Suc w) n = digits w (n div 10) @ [char_of (48 + n mod 10)]"

text \<open>Year, month and day of a day number (proleptic Gregorian).\<close>

definition civil :: "int \<Rightarrow> int \<times> int \<times> int" where
  "civil d =
     (let z = d + 719468; era = z div 146097; doe = z mod 146097;
          yoe = (doe - doe div 1460 + doe div 36524 - doe div 146096) div 365;
          doy = doe - (365 * yoe + yoe div 4 - yoe div 100);
          mp = (5 * doy + 2) div 153; dd = doy - (153 * mp + 2) div 5 + 1;
          m = (if mp < 10 then mp + 3 else mp - 9);
          y = yoe + era * 400 + (if m \<le> 2 then 1 else 0)
      in (y, m, dd))"

text \<open>\<open>date.isoformat()\<close>.\<close>

definition iso_date :: "int \<Rightarrow> string" where
  "iso_date d =
     (case civil d of (y, m, dd) \<Rightarrow> digits 4 (nat y) @ ''-'' @ digits 2 (nat m) @ ''-'' @ digits 2 (nat dd))"

end
