(* ===== verification/Order_Book.thy ===== *)
theory Order_Book
  imports Autocoin_Prelude
begin

text \<open>
  The local order book of \<open>src/exchange/orderbook.py\<close>: two dicts price to quantity, the id
  of the last update and whether a diff has confirmed the snapshot.  The sequence rules of
  the diff stream are the branches of \<open>apply_diff\<close>.  Against them stands the exchange:
  \<open>exch n p\<close> is the quantity the exchange holds at price \<open>p\<close> after its update \<open>n\<close> (0 for
  none); a book that follows the rules is the exchange's book at its own update id.
\<close>

record diff_event =
  d_U :: int
  d_u :: int
  d_pu :: int
  d_E :: "int option"
  d_b :: "(real \<times> real) list"
  d_a :: "(real \<times> real) list"

record snapshot =
  sn_id :: int
  sn_E :: "int option"
  sn_bids :: "(real \<times> real) list"
  sn_asks :: "(real \<times> real) list"

record order_book =
  ob_bids :: "(real \<times> real) list"
  ob_asks :: "(real \<times> real) list"
  ob_last :: "int option"
  ob_event_time :: "int option"
  ob_first :: bool

datatype book_error = SequenceGapError | NoSnapshot

definition empty_book :: order_book where
  "empty_book = \<lparr>ob_bids = [], ob_asks = [], ob_last = None, ob_event_time = None, ob_first = False\<rparr>"

definition book_reset :: "order_book \<Rightarrow> order_book" where
  "book_reset b = empty_book"

definition book_ready :: "order_book \<Rightarrow> bool" where
  "book_ready b \<longleftrightarrow> ob_last b \<noteq> None \<and> ob_first b"

fun load_levels :: "(real \<times> real) list \<Rightarrow> (real \<times> real) list \<Rightarrow> (real \<times> real) list" where
  "load_levels sd [] = sd"
| "load_levels sd ((p, q) # ls) = load_levels (if 0 < q then AList.update p q sd else sd) ls"

definition apply_snapshot :: "snapshot \<Rightarrow> order_book \<Rightarrow> order_book" where
  "apply_snapshot sn b =
     (book_reset b)\<lparr>ob_bids := load_levels [] (sn_bids sn), ob_asks := load_levels [] (sn_asks sn),
                    ob_last := Some (sn_id sn), ob_event_time := sn_E sn\<rparr>"

fun apply_levels :: "(real \<times> real) list \<Rightarrow> (real \<times> real) list \<Rightarrow> (real \<times> real) list" where
  "apply_levels sd [] = sd"
| "apply_levels sd ((p, q) # ls) =
     apply_levels (if q = 0 then adel p sd else AList.update p q sd) ls"

definition apply_diff :: "diff_event \<Rightarrow> order_book \<Rightarrow> (book_error + bool) \<times> order_book" where
  "apply_diff e b =
     (case ob_last b of
        None \<Rightarrow> (Inl NoSnapshot, b)
      | Some n \<Rightarrow>
          if \<not> ob_first b \<and> d_u e < n then (Inr False, b)
          else if \<not> ob_first b \<and> n < d_U e then (Inl SequenceGapError, b)
          else if ob_first b \<and> d_pu e \<noteq> n then (Inl SequenceGapError, b)
          else (Inr True, b\<lparr>ob_bids := apply_levels (ob_bids b) (d_b e),
                            ob_asks := apply_levels (ob_asks b) (d_a e),
                            ob_last := Some (d_u e), ob_event_time := d_E e, ob_first := True\<rparr>))"

subsection \<open>Queries\<close>

definition book_best_bid :: "order_book \<Rightarrow> (real \<times> real) option" where
  "book_best_bid b =
     (if ob_bids b = [] then None
      else let p = Max (set (map fst (ob_bids b)))
           in map_option (\<lambda>q. (p, q)) (map_of (ob_bids b) p))"

definition book_best_ask :: "order_book \<Rightarrow> (real \<times> real) option" where
  "book_best_ask b =
     (if ob_asks b = [] then None
      else let p = Min (set (map fst (ob_asks b)))
           in map_option (\<lambda>q. (p, q)) (map_of (ob_asks b) p))"

definition top_n :: "nat \<Rightarrow> order_book \<Rightarrow> (real \<times> real) list \<times> (real \<times> real) list" where
  "top_n n b = (take n (sort_key (\<lambda>x. - fst x) (ob_bids b)), take n (sort_key fst (ob_asks b)))"

definition is_crossed :: "order_book \<Rightarrow> bool" where
  "is_crossed b =
     (case (book_best_bid b, book_best_ask b) of
        (Some (bp, _), Some (ap, _)) \<Rightarrow> ap \<le> bp | _ \<Rightarrow> False)"

subsection \<open>Levels\<close>

definition qty_at :: "(real \<times> real) list \<Rightarrow> real \<Rightarrow> real" where
  "qty_at sd p = (case map_of sd p of Some q \<Rightarrow> q | None \<Rightarrow> 0)"

definition listed :: "(real \<times> real) list \<Rightarrow> real \<Rightarrow> real option" where
  "listed ls p = map_of (rev ls) p"

lemma listed_Cons: "listed ((p', q) # ls) p = (case listed ls p of
    Some x \<Rightarrow> Some x | None \<Rightarrow> if p = p' then Some q else None)"
  by (auto simp: listed_def map_add_def split: option.split)

lemma qty_at_apply:
  "qty_at (apply_levels sd ls) p = (case listed ls p of Some q \<Rightarrow> q | None \<Rightarrow> qty_at sd p)"
  by (induction sd ls rule: apply_levels.induct)
    (auto simp: listed_Cons qty_at_def listed_def [of "[]"] split: option.split)

lemma apply_levels_distinct:
  "distinct (map fst sd) \<Longrightarrow> distinct (map fst (apply_levels sd ls))"
  by (induction sd ls rule: apply_levels.induct) simp_all

lemma load_levels_distinct:
  "distinct (map fst sd) \<Longrightarrow> distinct (map fst (load_levels sd ls))"
  by (induction sd ls rule: load_levels.induct) simp_all

subsection \<open>Following the exchange\<close>

text \<open>
  What the exchange documents.  A diff covers the updates after \<open>pu\<close> up to \<open>u\<close> and lists
  every price that changed in them with its quantity after \<open>u\<close>; a snapshot is exact at the
  prices it covers (\<open>P\<close>; it is cut at a number of levels).
\<close>

type_synonym exchange = "int \<Rightarrow> real \<Rightarrow> real"

definition side_diff_ok :: "exchange \<Rightarrow> diff_event \<Rightarrow> (real \<times> real) list \<Rightarrow> bool" where
  "side_diff_ok x e ls \<longleftrightarrow> (\<forall>p. case listed ls p of
       Some q \<Rightarrow> q = x (d_u e) p
     | None \<Rightarrow> (\<forall>k. d_pu e \<le> k \<and> k \<le> d_u e \<longrightarrow> x k p = x (d_u e) p))"

definition diff_ok :: "exchange \<Rightarrow> exchange \<Rightarrow> diff_event \<Rightarrow> bool" where
  "diff_ok xb xa e \<longleftrightarrow> d_pu e < d_U e \<and> d_U e \<le> d_u e
     \<and> side_diff_ok xb e (d_b e) \<and> side_diff_ok xa e (d_a e)"

definition snapshot_ok :: "exchange \<Rightarrow> exchange \<Rightarrow> real set \<Rightarrow> snapshot \<Rightarrow> bool" where
  "snapshot_ok xb xa P sn \<longleftrightarrow>
     (\<forall>p\<in>P. qty_at (load_levels [] (sn_bids sn)) p = xb (sn_id sn) p
          \<and> qty_at (load_levels [] (sn_asks sn)) p = xa (sn_id sn) p)"

definition follows :: "exchange \<Rightarrow> exchange \<Rightarrow> real set \<Rightarrow> order_book \<Rightarrow> bool" where
  "follows xb xa P b \<longleftrightarrow> distinct (map fst (ob_bids b)) \<and> distinct (map fst (ob_asks b))
     \<and> (case ob_last b of
          None \<Rightarrow> ob_bids b = [] \<and> ob_asks b = []
        | Some n \<Rightarrow> (\<forall>p\<in>P. qty_at (ob_bids b) p = xb n p \<and> qty_at (ob_asks b) p = xa n p))"

lemma follows_reset [simp]: "follows xb xa P (book_reset b)"
  by (simp add: follows_def book_reset_def empty_book_def)

lemma follows_empty [simp]: "follows xb xa P empty_book"
  by (simp add: follows_def empty_book_def)

lemma follows_snapshot:
  "snapshot_ok xb xa P sn \<Longrightarrow> follows xb xa P (apply_snapshot sn b)"
  by (simp add: follows_def apply_snapshot_def snapshot_ok_def book_reset_def empty_book_def
      load_levels_distinct)

lemma side_follows:
  assumes "side_diff_ok x e ls" "\<forall>p\<in>P. qty_at sd p = x k p" "d_pu e \<le> k" "k \<le> d_u e"
  shows "\<forall>p\<in>P. qty_at (apply_levels sd ls) p = x (d_u e) p"
proof
  fix p assume p: "p \<in> P"
  have s: "case listed ls p of Some q \<Rightarrow> q = x (d_u e) p
      | None \<Rightarrow> (\<forall>k. d_pu e \<le> k \<and> k \<le> d_u e \<longrightarrow> x k p = x (d_u e) p)"
    using assms(1) unfolding side_diff_ok_def by (rule spec)
  show "qty_at (apply_levels sd ls) p = x (d_u e) p"
  proof (cases "listed ls p")
    case None
    have "\<forall>k. d_pu e \<le> k \<and> k \<le> d_u e \<longrightarrow> x k p = x (d_u e) p"
      using s unfolding None option.case .
    then have "x k p = x (d_u e) p" using assms(3,4) by blast
    moreover have "qty_at sd p = x k p" using assms(2) p by blast
    ultimately show ?thesis unfolding qty_at_apply None option.case by (rule trans [rotated])
  next
    case (Some q)
    have "q = x (d_u e) p" using s unfolding Some option.case .
    then show ?thesis unfolding qty_at_apply Some option.case .
  qed
qed

lemma follows_diff:
  assumes f: "follows xb xa P b" and e: "diff_ok xb xa e" and r: "apply_diff e b = (res, b')"
  shows "follows xb xa P b'"
proof (cases "ob_last b")
  case None
  with r f show ?thesis by (auto simp: apply_diff_def)
next
  case (Some n)
  show ?thesis
  proof (cases "res = Inr True")
    case False
    then have "b' = b" using r Some by (auto simp: apply_diff_def split: if_splits)
    with f show ?thesis by simp
  next
    case True
    then have b': "b' = b\<lparr>ob_bids := apply_levels (ob_bids b) (d_b e),
        ob_asks := apply_levels (ob_asks b) (d_a e), ob_last := Some (d_u e),
        ob_event_time := d_E e, ob_first := True\<rparr>"
      and n: "d_pu e \<le> n" "n \<le> d_u e"
      using r Some e by (auto simp: apply_diff_def diff_ok_def split: if_splits)
    have s: "side_diff_ok xb e (d_b e)" "side_diff_ok xa e (d_a e)" using e by (simp_all add: diff_ok_def)
    have q: "\<forall>p\<in>P. qty_at (ob_bids b) p = xb n p" "\<forall>p\<in>P. qty_at (ob_asks b) p = xa n p"
      using f Some by (simp_all add: follows_def)
    show ?thesis
      using side_follows [OF s(1) q(1) n] side_follows [OF s(2) q(2) n] f
      by (simp add: follows_def b' apply_levels_distinct)
  qed
qed

text \<open>A diff that does not continue the book is never applied: the sequence rules.\<close>

lemma apply_diff_applied:
  "apply_diff e b = (Inr True, b') \<Longrightarrow>
     (\<exists>n. ob_last b = Some n \<and> (if ob_first b then d_pu e = n else d_U e \<le> n \<and> n \<le> d_u e))
     \<and> ob_last b' = Some (d_u e) \<and> ob_first b'"
  by (auto simp: apply_diff_def split: option.splits if_splits)

subsection \<open>Best quotes\<close>

lemma best_bid_spec:
  assumes "distinct (map fst (ob_bids b))"
  shows "book_best_bid b = Some (p, q) \<longleftrightarrow>
     (p, q) \<in> set (ob_bids b) \<and> (\<forall>x\<in>set (ob_bids b). fst x \<le> p)"
proof (cases "ob_bids b = []")
  case True
  then show ?thesis by (simp add: book_best_bid_def)
next
  case False
  let ?S = "set (map fst (ob_bids b))" and ?m = "Max (set (map fst (ob_bids b)))"
  have m: "?m \<in> ?S" "\<forall>x\<in>?S. x \<le> ?m" using False by (simp_all del: set_map)
  obtain q0 where q0: "map_of (ob_bids b) ?m = Some q0"
    using m(1) map_of_eq_None_iff [of "ob_bids b" ?m] by (cases "map_of (ob_bids b) ?m") auto
  have best: "book_best_bid b = Some (?m, q0)" using False q0 by (simp add: book_best_bid_def Let_def)
  have q0in: "(?m, q0) \<in> set (ob_bids b)" by (rule map_of_SomeD [OF q0])
  show ?thesis
  proof
    assume "book_best_bid b = Some (p, q)"
    then have pq: "p = ?m" "q = q0" unfolding best by simp_all
    have "\<forall>x\<in>set (ob_bids b). fst x \<le> ?m" using m(2) by simp
    then show "(p, q) \<in> set (ob_bids b) \<and> (\<forall>x\<in>set (ob_bids b). fst x \<le> p)"
      unfolding pq using q0in by blast
  next
    assume r: "(p, q) \<in> set (ob_bids b) \<and> (\<forall>x\<in>set (ob_bids b). fst x \<le> p)"
    then have "?m \<le> p" using q0in by force
    moreover have "p \<in> ?S" using r by force
    then have "p \<le> ?m" using m(2) by blast
    ultimately have "p = ?m" by simp
    moreover have "map_of (ob_bids b) p = Some q" using r assms by (intro map_of_is_SomeI) auto
    ultimately show "book_best_bid b = Some (p, q)" using best q0 by simp
  qed
qed

lemma top_bids_sorted: "sorted (map (\<lambda>x. - fst x) (fst (top_n n b)))"
  unfolding top_n_def fst_conv take_map [symmetric] by (intro sorted_wrt_take) simp

lemma top_asks_sorted: "sorted (map fst (snd (top_n n b)))"
  unfolding top_n_def snd_conv take_map [symmetric] by (intro sorted_wrt_take) simp

end
