(* ===== verification/Book_Sync.thy ===== *)
theory Book_Sync
  imports Order_Book
begin

text \<open>
  The collector of \<open>src/exchange/ws.py\<close>: the book synchroniser of one symbol as a state
  machine (buffer diffs, fetch a snapshot, replay, follow live), the message handler that
  checks the trade ids and publishes the top of the book, one session's timeouts, and the
  reconnect loop with its back-off.  The asyncio task of a resync is the field \<open>sy_task\<close>:
  waiting for the snapshot, or sleeping before the next try; what it awaits arrives as an
  input.  Records written to the sink are returned.
\<close>

record trade_msg =
  tm_a :: "int option"
  tm_T :: int
  tm_p :: real
  tm_q :: real
  tm_m :: bool

datatype ws_rec =
    RGapDepth string int diff_event
  | RSnapshot string int snapshot
  | RDepth string int diff_event
  | RTrade string int trade_msg
  | RBookTop string int "int option" "int option" "(real \<times> real) list" "(real \<times> real) list"
  | RGapTrade string int bool int int
  | RConn string string int

subsection \<open>The synchroniser\<close>

datatype resync_task = Fetching real | Sleeping real

record sync =
  sy_symbol :: string
  sy_book :: order_book
  sy_buffer :: "diff_event list"
  sy_task :: "resync_task option"
  sy_gaps :: nat
  sy_resyncs :: nat
  sy_retry_delay :: real
  sy_max_retry_delay :: real
  sy_max_buffer :: nat

definition sync_init :: "string \<Rightarrow> real \<Rightarrow> real \<Rightarrow> nat \<Rightarrow> sync" where
  "sync_init sm rd mrd mb =
     \<lparr>sy_symbol = sm, sy_book = empty_book, sy_buffer = [], sy_task = None, sy_gaps = 0,
      sy_resyncs = 0, sy_retry_delay = rd, sy_max_retry_delay = mrd, sy_max_buffer = mb\<rparr>"

definition synced :: "sync \<Rightarrow> bool" where
  "synced s \<longleftrightarrow> sy_task s = None \<and> ob_last (sy_book s) \<noteq> None"

definition sync_ensure_resync :: "sync \<Rightarrow> sync" where
  "sync_ensure_resync s =
     (if sy_task s = None then s\<lparr>sy_task := Some (Fetching (sy_retry_delay s))\<rparr> else s)"

definition sync_reset :: "sync \<Rightarrow> sync" where
  "sync_reset s = s\<lparr>sy_task := None, sy_buffer := [], sy_book := book_reset (sy_book s)\<rparr>"

definition sync_on_gap :: "int \<Rightarrow> diff_event \<Rightarrow> sync \<Rightarrow> sync \<times> ws_rec list" where
  "sync_on_gap recv e s =
     (sync_ensure_resync (s\<lparr>sy_gaps := sy_gaps s + 1, sy_book := book_reset (sy_book s),
                            sy_buffer := [e]\<rparr>),
      [RGapDepth (sy_symbol s) recv e])"

definition keep_newest :: "nat \<Rightarrow> 'a list \<Rightarrow> 'a list" where
  "keep_newest n xs = drop (length xs - n) xs"

definition sync_on_diff :: "int \<Rightarrow> diff_event \<Rightarrow> sync \<Rightarrow> sync \<times> ws_rec list" where
  "sync_on_diff recv e s =
     (if \<not> synced s
      then (sync_ensure_resync (s\<lparr>sy_buffer := keep_newest (sy_max_buffer s) (sy_buffer s @ [e])\<rparr>), [])
      else case apply_diff e (sy_book s) of
             (Inl _, b) \<Rightarrow> sync_on_gap recv e (s\<lparr>sy_book := b\<rparr>)
           | (Inr _, b) \<Rightarrow> (s\<lparr>sy_book := b\<rparr>, []))"

text \<open>Replay of the buffered diffs: the events not consumed when one does not fit.\<close>

fun replay :: "diff_event list \<Rightarrow> order_book \<Rightarrow> diff_event list \<times> order_book" where
  "replay [] b = ([], b)"
| "replay (e # es) b =
     (case apply_diff e b of
        (Inl _, b') \<Rightarrow> (e # es, book_reset b')
      | (Inr _, b') \<Rightarrow> replay es b')"

definition sync_fetched :: "int \<Rightarrow> snapshot \<Rightarrow> sync \<Rightarrow> sync \<times> ws_rec list" where
  "sync_fetched recv sn s =
     (case sy_task s of
        Some (Fetching delay) \<Rightarrow>
          (let (left, b) = replay (sy_buffer s) (apply_snapshot sn (sy_book s));
               s1 = s\<lparr>sy_resyncs := sy_resyncs s + 1, sy_book := b, sy_buffer := left,
                      sy_task := (if left = [] then None else Some (Sleeping delay))\<rparr>
           in (s1, [RSnapshot (sy_symbol s) recv sn]))
      | _ \<Rightarrow> (s, []))"

definition sync_fetch_failed :: "sync \<Rightarrow> sync" where
  "sync_fetch_failed s =
     (case sy_task s of Some (Fetching delay) \<Rightarrow> s\<lparr>sy_task := Some (Sleeping delay)\<rparr> | _ \<Rightarrow> s)"

definition sync_wake :: "sync \<Rightarrow> sync" where
  "sync_wake s =
     (case sy_task s of
        Some (Sleeping delay) \<Rightarrow> s\<lparr>sy_task := Some (Fetching (min (delay * 2) (sy_max_retry_delay s)))\<rparr>
      | _ \<Rightarrow> s)"

datatype sync_input =
    InDiff int diff_event
  | InFetched int snapshot
  | InFetchFailed
  | InWake
  | InReset

fun sync_step :: "sync_input \<Rightarrow> sync \<Rightarrow> sync" where
  "sync_step (InDiff recv e) s = fst (sync_on_diff recv e s)"
| "sync_step (InFetched recv sn) s = fst (sync_fetched recv sn s)"
| "sync_step InFetchFailed s = sync_fetch_failed s"
| "sync_step InWake s = sync_wake s"
| "sync_step InReset s = sync_reset s"

subsection \<open>The message handler\<close>

record collector =
  co_top_levels :: nat
  co_outage_record_s :: real
  co_syncs :: "(string \<times> sync) list"
  co_last_agg :: "(string \<times> int) list"
  co_last_top :: "(string \<times> (real \<times> real) list \<times> (real \<times> real) list) list"
  co_stats :: "(string \<times> nat) list"
  co_last_depth_at :: "real option"
  co_outages :: "(real \<times> real) list"
  co_sink :: "ws_rec list"

definition collector_init :: "nat \<Rightarrow> real \<Rightarrow> string list \<Rightarrow> collector" where
  "collector_init levels outage syms =
     \<lparr>co_top_levels = levels, co_outage_record_s = outage,
      co_syncs = map (\<lambda>sm. (sm, sync_init sm 1 30 10000)) syms,
      co_last_agg = [], co_last_top = [], co_stats = [], co_last_depth_at = None, co_outages = [],
      co_sink = []\<rparr>"

datatype ws_msg =
    MDepth string diff_event "int option"
  | MTrade string trade_msg
  | MOther

definition co_count :: "string \<Rightarrow> string \<Rightarrow> collector \<Rightarrow> collector" where
  "co_count sm what c =
     (let k = sm @ what; n = (case map_of (co_stats c) k of Some n \<Rightarrow> n | None \<Rightarrow> 0)
      in c\<lparr>co_stats := AList.update k (n + 1) (co_stats c)\<rparr>)"

definition co_write :: "ws_rec list \<Rightarrow> collector \<Rightarrow> collector" where
  "co_write rs c = c\<lparr>co_sink := co_sink c @ rs\<rparr>"

definition co_emit_top :: "string \<Rightarrow> order_book \<Rightarrow> int option \<Rightarrow> int option \<Rightarrow> int \<Rightarrow> collector \<Rightarrow> collector" where
  "co_emit_top sm b ev_E ev_T recv c =
     (let key = top_n (co_top_levels c) b
      in if map_of (co_last_top c) sm = Some key then c
         else co_write [RBookTop sm recv ev_E ev_T (fst key) (snd key)]
                (co_count sm ''.book_top'' (c\<lparr>co_last_top := AList.update sm key (co_last_top c)\<rparr>)))"

definition co_check_trade_seq :: "string \<Rightarrow> trade_msg \<Rightarrow> int \<Rightarrow> collector \<Rightarrow> collector" where
  "co_check_trade_seq sm t recv c =
     (case tm_a t of
        None \<Rightarrow> c
      | Some a \<Rightarrow>
          (let prev = map_of (co_last_agg c) sm;
               c1 = (case prev of
                       Some p \<Rightarrow> (if a \<noteq> p + 1
                          then co_write [RGapTrade sm recv (a \<le> p) (p + 1) (a - 1)]
                                 (co_count sm ''.trade_gap'' c)
                          else c)
                     | None \<Rightarrow> c)
           in if (case prev of None \<Rightarrow> True | Some p \<Rightarrow> p < a)
              then c1\<lparr>co_last_agg := AList.update sm a (co_last_agg c1)\<rparr> else c1))"

definition co_note_outage :: "real \<Rightarrow> collector \<Rightarrow> collector" where
  "co_note_outage now c =
     (case co_last_depth_at c of
        Some t \<Rightarrow> (if co_outage_record_s c \<le> now - t
                   then c\<lparr>co_outages := co_outages c @ [(t, now)], co_last_depth_at := Some now\<rparr>
                   else c\<lparr>co_last_depth_at := Some now\<rparr>)
      | None \<Rightarrow> c\<lparr>co_last_depth_at := Some now\<rparr>)"

definition co_handle_message :: "int \<Rightarrow> ws_msg \<Rightarrow> collector \<Rightarrow> collector" where
  "co_handle_message recv m c =
     (case m of
        MDepth sm e ev_T \<Rightarrow>
          (case map_of (co_syncs c) sm of
             None \<Rightarrow> c
           | Some sy \<Rightarrow>
               (let c1 = co_write [RDepth sm recv e]
                           (co_count sm ''.depth'' (co_note_outage (of_int recv / 1000) c));
                    (sy', rs) = sync_on_diff recv e sy;
                    c2 = co_write rs (c1\<lparr>co_syncs := AList.update sm sy' (co_syncs c1)\<rparr>)
                in if 0 < co_top_levels c2 \<and> synced sy' \<and> book_ready (sy_book sy')
                   then co_emit_top sm (sy_book sy') (d_E e) ev_T recv c2 else c2))
      | MTrade sm t \<Rightarrow>
          (case map_of (co_syncs c) sm of
             None \<Rightarrow> c
           | Some _ \<Rightarrow> co_check_trade_seq sm t recv
                          (co_write [RTrade sm recv t] (co_count sm ''.trade'' c)))
      | MOther \<Rightarrow> c)"

text \<open>What the end of a depth session does to the books.\<close>

definition co_invalidate :: "collector \<Rightarrow> collector" where
  "co_invalidate c =
     c\<lparr>co_syncs := map (\<lambda>(sm, sy). (sm, sync_reset sy)) (co_syncs c), co_last_top := []\<rparr>"

definition co_conn_event :: "string \<Rightarrow> string \<Rightarrow> int \<Rightarrow> collector \<Rightarrow> collector" where
  "co_conn_event stream event recv c = co_write [RConn stream event recv] c"

definition co_summary :: "collector \<Rightarrow> (string \<times> nat) list" where
  "co_summary c =
     fold (\<lambda>(sm, sy) out. AList.update (sm @ ''.resyncs'') (sy_resyncs sy)
                            (AList.update (sm @ ''.depth_gaps'') (sy_gaps sy) out))
       (co_syncs c) (co_stats c)"

subsection \<open>Sessions and reconnection\<close>

text \<open>One turn of the receive loop at monotonic time \<open>t\<close>: a message, or the poll timed out.\<close>

datatype session_end = SessionExpired | StaleStream | Dropped | ConnectFailed

record ws_session =
  se_started :: real
  se_last_msg :: real

definition session_turn ::
    "real \<Rightarrow> real \<Rightarrow> real \<Rightarrow> bool \<Rightarrow> ws_session \<Rightarrow> session_end + ws_session" where
  "session_turn max_session stale_timeout t got s =
     (if max_session \<le> t - se_started s then Inl SessionExpired
      else if got then Inr (s\<lparr>se_last_msg := t\<rparr>)
      else if stale_timeout \<le> t - se_last_msg s then Inl StaleStream
      else Inr s)"

text \<open>
  The reconnect loop over the successive attempts: how each ended (a failed connect, or a
  session that ended) and the jitter drawn, uniform in [0.5, 1].  It returns the delays
  slept.
\<close>

fun reconnect_delays :: "real \<Rightarrow> real \<Rightarrow> nat \<Rightarrow> (session_end \<times> real) list \<Rightarrow> real list" where
  "reconnect_delays base bmax attempt [] = []"
| "reconnect_delays base bmax attempt ((why, jitter) # rest) =
     (let attempt0 = (if why = ConnectFailed then attempt else 0);
          delay = (if why = SessionExpired then 0 else min bmax (base * 2 ^ attempt0) * jitter)
      in delay # reconnect_delays base bmax (attempt0 + 1) rest)"

end
