(* ===== verification/Sync_Correct.thy ===== *)
theory Sync_Correct
  imports Book_Sync
begin

text \<open>
  Correctness of the collector: the synchronised book is the exchange's book whatever the
  stream loses, repeats or reorders; a replay succeeds exactly when the buffered diffs line
  up with the snapshot; trade ids between the first and the last seen are all accounted
  for; reconnects back off within bounds.
\<close>

subsection \<open>The book follows the exchange\<close>

fun input_ok :: "exchange \<Rightarrow> exchange \<Rightarrow> real set \<Rightarrow> sync_input \<Rightarrow> bool" where
  "input_ok xb xa P (InDiff recv e) = diff_ok xb xa e"
| "input_ok xb xa P (InFetched recv sn) = snapshot_ok xb xa P sn"
| "input_ok xb xa P _ = True"

definition sync_ok :: "exchange \<Rightarrow> exchange \<Rightarrow> real set \<Rightarrow> sync \<Rightarrow> bool" where
  "sync_ok xb xa P s \<longleftrightarrow> follows xb xa P (sy_book s) \<and> list_all (diff_ok xb xa) (sy_buffer s)"

lemma replay_follows:
  assumes "replay es b = (left, b')" "follows xb xa P b" "list_all (diff_ok xb xa) es"
  shows "follows xb xa P b' \<and> list_all (diff_ok xb xa) left"
  using assms
proof (induction es b rule: replay.induct)
  case (1 b)
  then show ?case by simp
next
  case (2 e es b)
  obtain r b1 where ap: "apply_diff e b = (r, b1)" by fastforce
  have f1: "follows xb xa P b1" using follows_diff [OF "2.prems"(2) _ ap] "2.prems"(3) by simp
  show ?case
  proof (cases r)
    case (Inl x)
    then show ?thesis using "2.prems" ap by auto
  next
    case (Inr x)
    then show ?thesis using "2.prems" "2.IH" [OF ap [symmetric] Inr] ap f1 by simp
  qed
qed

lemma ensure_resync_fields [simp]:
  "sy_book (sync_ensure_resync s) = sy_book s" "sy_buffer (sync_ensure_resync s) = sy_buffer s"
  by (simp_all add: sync_ensure_resync_def)

lemma list_all_drop: "list_all Q xs \<Longrightarrow> list_all Q (drop n xs)"
  by (auto simp: list_all_iff dest: in_set_dropD)

lemma sync_step_ok:
  assumes i: "input_ok xb xa P i" and s: "sync_ok xb xa P s"
  shows "sync_ok xb xa P (sync_step i s)"
proof (cases i)
  case (InDiff recv e)
  then have e: "diff_ok xb xa e" using i by simp
  show ?thesis
  proof (cases "synced s")
    case False
    then show ?thesis
      using s e InDiff by (simp add: sync_ok_def sync_on_diff_def keep_newest_def list_all_drop)
  next
    case True
    obtain r b where ap: "apply_diff e (sy_book s) = (r, b)" by fastforce
    have "follows xb xa P b" using follows_diff [OF _ e ap] s by (simp add: sync_ok_def)
    then show ?thesis
      using True ap InDiff s e
      by (cases r) (auto simp: sync_ok_def sync_on_diff_def sync_on_gap_def)
  qed
next
  case (InFetched recv sn)
  obtain left b where rp: "replay (sy_buffer s) (apply_snapshot sn (sy_book s)) = (left, b)" by fastforce
  have "follows xb xa P b \<and> list_all (diff_ok xb xa) left"
    using replay_follows [OF rp follows_snapshot] i s InFetched by (simp add: sync_ok_def)
  then show ?thesis
    using InFetched s rp by (auto simp: sync_ok_def sync_fetched_def split: option.split resync_task.split)
next
  case InReset
  then show ?thesis by (simp add: sync_ok_def sync_reset_def)
qed (use s in \<open>auto simp: sync_ok_def sync_fetch_failed_def sync_wake_def
       split: option.split resync_task.split\<close>)

lemma sync_run_ok:
  "list_all (input_ok xb xa P) is \<Longrightarrow> sync_ok xb xa P s \<Longrightarrow> sync_ok xb xa P (fold sync_step is s)"
  by (induction "is" arbitrary: s) (simp_all add: sync_step_ok)


text \<open>An exchange with one bid: 7 at price 100 up to update 10, then 9.\<close>

definition example_exchange :: exchange where
  "example_exchange k p = (if p = 100 then (if k \<le> 10 then 7 else 9) else 0)"


subsection \<open>When a replay succeeds\<close>

fun chained :: "int \<Rightarrow> diff_event list \<Rightarrow> bool" where
  "chained n [] = True"
| "chained n (e # es) = (d_pu e = n \<and> chained (d_u e) es)"

definition lines_up :: "int \<Rightarrow> diff_event list \<Rightarrow> bool" where
  "lines_up n es =
     (case dropWhile (\<lambda>e. d_u e < n) es of
        [] \<Rightarrow> True
      | e # rest \<Rightarrow> d_U e \<le> n \<and> chained (d_u e) rest)"

lemma replay_chained:
  "ob_first b \<Longrightarrow> ob_last b = Some n \<Longrightarrow> fst (replay es b) = [] \<longleftrightarrow> chained n es"
proof (induction es b arbitrary: n rule: replay.induct)
  case (2 e es b)
  then show ?case
    by (cases "d_pu e = n") (auto simp: apply_diff_def)
qed simp

lemma replay_lines_up:
  "\<not> ob_first b \<Longrightarrow> ob_last b = Some n \<Longrightarrow> fst (replay es b) = [] \<longleftrightarrow> lines_up n es"
proof (induction es b rule: replay.induct)
  case (1 b)
  then show ?case by (simp add: lines_up_def)
next
  case (2 e es b)
  show ?case
  proof (cases "d_u e < n")
    case True
    then show ?thesis using 2 by (simp add: apply_diff_def lines_up_def)
  next
    case False
    then show ?thesis
      using "2.prems" replay_chained [of "b\<lparr>ob_bids := apply_levels (ob_bids b) (d_b e),
          ob_asks := apply_levels (ob_asks b) (d_a e), ob_last := Some (d_u e),
          ob_event_time := d_E e, ob_first := True\<rparr>" "d_u e" es]
      by (auto simp: apply_diff_def lines_up_def)
  qed
qed

lemma replay_fails_reset:
  "fst (replay es b) \<noteq> [] \<Longrightarrow> ob_last (snd (replay es b)) = None"
proof (induction es b rule: replay.induct)
  case (2 e es b)
  then show ?case
    by (cases "apply_diff e b"; cases "fst (apply_diff e b)") (auto simp: book_reset_def empty_book_def)
qed simp

lemma apply_diff_last: "apply_diff e b = (Inr x, b') \<Longrightarrow> ob_last b \<noteq> None \<and> ob_last b' \<noteq> None"
  by (auto simp: apply_diff_def split: option.splits if_splits)

lemma replay_keeps_last:
  "ob_last b \<noteq> None \<Longrightarrow> fst (replay es b) = [] \<Longrightarrow> ob_last (snd (replay es b)) \<noteq> None"
proof (induction es b rule: replay.induct)
  case (2 e es b)
  obtain r b1 where ap: "apply_diff e b = (r, b1)" by fastforce
  show ?case
  proof (cases r)
    case (Inl x)
    then show ?thesis using 2 ap by simp
  next
    case (Inr x)
    then show ?thesis using 2 ap apply_diff_last [of e b x b1] by simp
  qed
qed simp

text \<open>A snapshot brings the book in sync exactly when the buffered diffs line up with it:
  skipping those that end before the snapshot, the first covers its id and each next one
  continues the one before.  Otherwise the book is dropped, the unusable diffs stay
  buffered and another snapshot will be fetched after a pause.\<close>

theorem snapshot_sync_iff:
  assumes "sy_task s = Some (Fetching delay)"
  shows "let s' = fst (sync_fetched recv sn s)
         in (synced s' \<longleftrightarrow> lines_up (sn_id sn) (sy_buffer s))
          \<and> (if synced s' then sy_buffer s' = []
             else sy_task s' = Some (Sleeping delay) \<and> ob_last (sy_book s') = None \<and> sy_buffer s' \<noteq> [])"
proof -
  let ?b = "apply_snapshot sn (sy_book s)"
  have b: "\<not> ob_first ?b" "ob_last ?b = Some (sn_id sn)"
    by (simp_all add: apply_snapshot_def book_reset_def empty_book_def)
  obtain left b' where rp: "replay (sy_buffer s) ?b = (left, b')" by fastforce
  have l: "left = [] \<longleftrightarrow> lines_up (sn_id sn) (sy_buffer s)"
    using replay_lines_up [OF b, of "sy_buffer s"] rp by simp
  have k: "left = [] \<Longrightarrow> ob_last b' \<noteq> None" "left \<noteq> [] \<Longrightarrow> ob_last b' = None"
    using replay_keeps_last [of ?b "sy_buffer s"] replay_fails_reset [of "sy_buffer s" ?b] b rp by auto
  show ?thesis
    using assms rp l k by (auto simp: sync_fetched_def synced_def Let_def)
qed

theorem snapshot_sync_iff_witness:
  "synced (fst (sync_fetched 2 \<lparr>sn_id = 10, sn_E = None, sn_bids = [], sn_asks = []\<rparr>
     ((sync_init ''X'' 1 30 10)\<lparr>sy_task := Some (Fetching 1),
        sy_buffer := [\<lparr>d_U = 3, d_u = 8, d_pu = 2, d_E = None, d_b = [], d_a = []\<rparr>,
                      \<lparr>d_U = 9, d_u = 11, d_pu = 8, d_E = None, d_b = [], d_a = []\<rparr>]\<rparr>)))"
proof -
  let ?s = "(sync_init ''X'' 1 30 10)\<lparr>sy_task := Some (Fetching 1),
        sy_buffer := [\<lparr>d_U = 3, d_u = 8, d_pu = 2, d_E = None, d_b = [], d_a = []\<rparr>,
                      \<lparr>d_U = 9, d_u = 11, d_pu = 8, d_E = None, d_b = [], d_a = []\<rparr>]\<rparr>"
  have t: "sy_task ?s = Some (Fetching 1)" by simp
  show ?thesis
    using snapshot_sync_iff [OF t, of 2 "\<lparr>sn_id = 10, sn_E = None, sn_bids = [], sn_asks = []\<rparr>"]
    by (simp add: lines_up_def Let_def)
qed

subsection \<open>Trade ids\<close>

fun trade_id :: "string \<Rightarrow> ws_rec \<Rightarrow> int option" where
  "trade_id sm (RTrade sm' recv t) = (if sm' = sm then tm_a t else None)"
| "trade_id sm _ = None"

fun gap_covers :: "string \<Rightarrow> int \<Rightarrow> ws_rec \<Rightarrow> bool" where
  "gap_covers sm k (RGapTrade sm' recv late lo hi) = (sm' = sm \<and> lo \<le> k \<and> k \<le> hi)"
| "gap_covers sm k _ = False"

definition ids_of :: "string \<Rightarrow> collector \<Rightarrow> int list" where
  "ids_of sm c = List.map_filter (trade_id sm) (co_sink c)"

definition gap_id :: "string \<Rightarrow> collector \<Rightarrow> int \<Rightarrow> bool" where
  "gap_id sm c k \<longleftrightarrow> list_ex (gap_covers sm k) (co_sink c)"

definition ids_ok :: "string \<Rightarrow> collector \<Rightarrow> bool" where
  "ids_ok sm c \<longleftrightarrow>
     (case map_of (co_last_agg c) sm of
        None \<Rightarrow> ids_of sm c = []
      | Some m \<Rightarrow> ids_of sm c \<noteq> [] \<and> (\<forall>j\<in>set (ids_of sm c). j \<le> m)
          \<and> (\<forall>k. hd (ids_of sm c) \<le> k \<and> k \<le> m \<longrightarrow> k \<in> set (ids_of sm c) \<or> gap_id sm c k))"

lemma co_simps [simp]:
  "co_sink (co_count sm w c) = co_sink c" "co_last_agg (co_count sm w c) = co_last_agg c"
  "co_sink (co_write rs c) = co_sink c @ rs" "co_last_agg (co_write rs c) = co_last_agg c"
  "co_sink (co_note_outage now c) = co_sink c" "co_last_agg (co_note_outage now c) = co_last_agg c"
  "co_syncs (co_count sm w c) = co_syncs c" "co_syncs (co_write rs c) = co_syncs c"
  by (simp_all add: co_count_def co_write_def co_note_outage_def Let_def split: option.split)

lemma ids_of_write: "co_sink c' = co_sink c @ rs \<Longrightarrow>
    ids_of sm c' = ids_of sm c @ List.map_filter (trade_id sm) rs"
  by (simp add: ids_of_def List.map_filter_def)

lemma gap_id_write: "co_sink c' = co_sink c @ rs \<Longrightarrow>
    gap_id sm c' k \<longleftrightarrow> gap_id sm c k \<or> list_ex (gap_covers sm k) rs"
  by (simp add: gap_id_def)

text \<open>Records without trade ids of the symbol change nothing.\<close>

lemma ids_ok_other:
  assumes "ids_ok sm c" "map_of (co_last_agg c') sm = map_of (co_last_agg c) sm"
    and "co_sink c' = co_sink c @ rs" "List.map_filter (trade_id sm) rs = []"
  shows "ids_ok sm c'"
  using assms by (auto simp: ids_ok_def ids_of_write [OF assms(3)] gap_id_write [OF assms(3)]
      split: option.splits)

lemma check_seq_ids:
  assumes ok: "ids_ok sm c"
  shows "ids_ok sm (co_check_trade_seq sm t recv (co_write [RTrade sm recv t] (co_count sm w c)))"
    (is "ids_ok sm ?c")
proof (cases "tm_a t")
  case None
  then show ?thesis
    by (intro ids_ok_other [OF ok, of _ "[RTrade sm recv t]"])
      (simp_all add: co_check_trade_seq_def List.map_filter_def)
next
  case (Some a)
  show ?thesis
  proof (cases "map_of (co_last_agg c) sm")
    case prev: None
    then have i: "ids_of sm c = []" using ok by (simp add: ids_ok_def)
    have sink: "co_sink ?c = co_sink c @ [RTrade sm recv t]" and l: "map_of (co_last_agg ?c) sm = Some a"
      using Some prev by (simp_all add: co_check_trade_seq_def)
    show ?thesis
      using ids_of_write [OF sink, of sm] i Some l by (simp add: ids_ok_def List.map_filter_def)
  next
    case prev: (Some p)
    have ids: "ids_of sm c \<noteq> []" "\<forall>j\<in>set (ids_of sm c). j \<le> p"
      "\<And>k. hd (ids_of sm c) \<le> k \<Longrightarrow> k \<le> p \<Longrightarrow> k \<in> set (ids_of sm c) \<or> gap_id sm c k"
      using ok prev by (auto simp: ids_ok_def)
    define rs where "rs = RTrade sm recv t #
        (if a \<noteq> p + 1 then [RGapTrade sm recv (a \<le> p) (p + 1) (a - 1)] else [])"
    have sink: "co_sink ?c = co_sink c @ rs"
      and l: "map_of (co_last_agg ?c) sm = Some (if p < a then a else p)"
      using Some prev by (simp_all add: co_check_trade_seq_def rs_def Let_def)
    have i': "ids_of sm ?c = ids_of sm c @ [a]"
      using ids_of_write [OF sink, of sm] Some by (simp add: rs_def List.map_filter_def)
    have g': "gap_id sm ?c k \<longleftrightarrow> gap_id sm c k \<or> a \<noteq> p + 1 \<and> p + 1 \<le> k \<and> k \<le> a - 1" for k
      using gap_id_write [OF sink, of sm k] by (auto simp: rs_def)
    have hd': "hd (ids_of sm ?c) = hd (ids_of sm c)" using ids(1) by (simp add: i')
    have "k \<in> set (ids_of sm ?c) \<or> gap_id sm ?c k"
      if k: "hd (ids_of sm c) \<le> k" "k \<le> (if p < a then a else p)" for k
    proof (cases "k \<le> p")
      case True
      then show ?thesis using ids(3) k(1) by (auto simp: i' g')
    next
      case False
      then show ?thesis using k(2) by (cases "k = a") (auto simp: i' g' split: if_splits)
    qed
    then show ?thesis using ids(1,2) by (auto simp: ids_ok_def l i' hd')
  qed
qed

lemma emit_top_ids:
  assumes "ids_ok sm c" shows "ids_ok sm (co_emit_top s b x y r c)"
proof -
  have "\<exists>rs. co_sink (co_emit_top s b x y r c) = co_sink c @ rs
      \<and> List.map_filter (trade_id sm) rs = []"
    by (cases "map_of (co_last_top c) s = Some (top_n (co_top_levels c) b)")
      (simp_all add: co_emit_top_def Let_def List.map_filter_def)
  moreover have "co_last_agg (co_emit_top s b x y r c) = co_last_agg c"
    by (simp add: co_emit_top_def Let_def)
  ultimately show ?thesis using ids_ok_other [OF assms] by auto
qed

lemma on_diff_recs: "List.map_filter (trade_id sm) (snd (sync_on_diff recv e s)) = []"
  by (auto simp: sync_on_diff_def sync_on_gap_def List.map_filter_def split: prod.splits sum.splits)

lemma handle_message_ids:
  assumes ok: "ids_ok sm c" shows "ids_ok sm (co_handle_message recv m c)"
proof (cases m)
  case (MDepth s e ev_T)
  show ?thesis
  proof (cases "map_of (co_syncs c) s")
    case None
    then show ?thesis using ok MDepth by (simp add: co_handle_message_def)
  next
    case (Some sy)
    obtain sy' rs where od: "sync_on_diff recv e sy = (sy', rs)" by fastforce
    let ?c1 = "co_write [RDepth s recv e] (co_count s ''.depth'' (co_note_outage (of_int recv / 1000) c))"
    let ?c2 = "co_write rs (?c1\<lparr>co_syncs := AList.update s sy' (co_syncs ?c1)\<rparr>)"
    have rs: "List.map_filter (trade_id sm) rs = []" using on_diff_recs [of sm recv e sy] od by simp
    have c2: "ids_ok sm ?c2"
      by (rule ids_ok_other [OF ok, of _ "RDepth s recv e # rs"])
        (use rs in \<open>simp_all add: List.map_filter_def\<close>)
    show ?thesis
      using c2 emit_top_ids [OF c2] MDepth Some od by (simp add: co_handle_message_def Let_def)
  qed
next
  case (MTrade s t)
  show ?thesis
  proof (cases "map_of (co_syncs c) s = None")
    case True
    then show ?thesis using ok MTrade by (simp add: co_handle_message_def)
  next
    case False
    then have e: "co_handle_message recv m c =
        co_check_trade_seq s t recv (co_write [RTrade s recv t] (co_count s ''.trade'' c))"
      using MTrade by (auto simp: co_handle_message_def)
    show ?thesis
    proof (cases "s = sm")
      case True
      then show ?thesis unfolding e using check_seq_ids [OF ok] by simp
    next
      case False
      let ?c0 = "co_write [RTrade s recv t] (co_count s ''.trade'' c)"
      have "\<exists>rs. co_sink (co_check_trade_seq s t recv ?c0) = co_sink c @ rs
          \<and> List.map_filter (trade_id sm) rs = []"
        using False by (auto simp: co_check_trade_seq_def Let_def List.map_filter_def split: option.split)
      moreover have "map_of (co_last_agg (co_check_trade_seq s t recv ?c0)) sm = map_of (co_last_agg c) sm"
        using False by (simp add: co_check_trade_seq_def Let_def split: option.split)
      ultimately show ?thesis unfolding e using ids_ok_other [OF ok] by blast
    qed
  qed
next
  case MOther
  then show ?thesis using ok by (simp add: co_handle_message_def)
qed

datatype co_event = Msg int ws_msg | DepthDown

fun co_step :: "co_event \<Rightarrow> collector \<Rightarrow> collector" where
  "co_step (Msg recv m) c = co_handle_message recv m c"
| "co_step DepthDown c = co_invalidate c"

lemma co_step_ids: "ids_ok sm c \<Longrightarrow> ids_ok sm (co_step ev c)"
  by (cases ev) (auto simp: handle_message_ids co_invalidate_def
      intro: ids_ok_other [where rs = "[]"] simp: List.map_filter_def)

lemma co_run_ids: "ids_ok sm c \<Longrightarrow> ids_ok sm (fold co_step evs c)"
  by (induction evs arbitrary: c) (simp_all add: co_step_ids)

text \<open>C13: No trade goes missing unnoticed: over any messages and reconnects, every aggregate
  trade id of a symbol between the first one received and any one received was itself
  received or lies in the range of a recorded gap.\<close>

theorem trade_ids_accounted:
  assumes "ids_of sm (fold co_step evs (collector_init n outage syms)) = k0 # ks"
    and "k0 \<le> k" and "j \<in> set (k0 # ks)" and "k \<le> j"
  shows "k \<in> set (k0 # ks) \<or> gap_id sm (fold co_step evs (collector_init n outage syms)) k"
proof -
  let ?c = "fold co_step evs (collector_init n outage syms)"
  have "ids_ok sm (collector_init n outage syms)"
    by (simp add: ids_ok_def collector_init_def ids_of_def List.map_filter_def)
  from co_run_ids [OF this] have ok: "ids_ok sm ?c" .
  then obtain m where "map_of (co_last_agg ?c) sm = Some m"
    using assms(1) by (cases "map_of (co_last_agg ?c) sm") (auto simp: ids_ok_def)
  then have "\<forall>j\<in>set (ids_of sm ?c). j \<le> m"
    "\<forall>k. hd (ids_of sm ?c) \<le> k \<and> k \<le> m \<longrightarrow> k \<in> set (ids_of sm ?c) \<or> gap_id sm ?c k"
    using ok by (simp_all add: ids_ok_def)
  then show ?thesis using assms(2-4) unfolding assms(1) by force
qed

theorem trade_ids_accounted_witness:
  "let c = fold co_step [Msg 1 (MTrade ''X'' \<lparr>tm_a = Some 5, tm_T = 0, tm_p = 1, tm_q = 1, tm_m = True\<rparr>),
       Msg 2 (MTrade ''X'' \<lparr>tm_a = Some 9, tm_T = 0, tm_p = 1, tm_q = 1, tm_m = True\<rparr>)]
       (collector_init 5 180 [''X''])
   in ids_of ''X'' c = [5, 9] \<and> gap_id ''X'' c 7"
proof -
  let ?evs = "[Msg 1 (MTrade ''X'' \<lparr>tm_a = Some 5, tm_T = 0, tm_p = 1, tm_q = 1, tm_m = True\<rparr>),
       Msg 2 (MTrade ''X'' \<lparr>tm_a = Some 9, tm_T = 0, tm_p = 1, tm_q = 1, tm_m = True\<rparr>)]"
  have i: "ids_of ''X'' (fold co_step ?evs (collector_init 5 180 [''X''])) = [5, 9]"
    by (simp add: ids_of_def List.map_filter_def co_handle_message_def collector_init_def
        co_check_trade_seq_def co_write_def co_count_def Let_def)
  have "7 \<in> set [5, 9::int] \<or> gap_id ''X'' (fold co_step ?evs (collector_init 5 180 [''X''])) 7"
    by (rule trade_ids_accounted [OF i, of 7 9]) simp_all
  with i show ?thesis by (simp add: Let_def)
qed

subsection \<open>Reconnecting\<close>

text \<open>Reconnection backs off within bounds: a planned renewal waits 0, any other delay is
  positive and at most the cap, and the first wait after a session that had connected starts
  over at the base delay.\<close>

theorem reconnect_bounds:
  assumes "0 < base" "0 < bmax" and "list_all (\<lambda>(why, j). 1 / 2 \<le> j \<and> j \<le> 1) tries"
  shows "list_all2 (\<lambda>(why, j) d. (why = SessionExpired \<longrightarrow> d = 0)
      \<and> (why \<noteq> SessionExpired \<longrightarrow> 0 < d \<and> d \<le> bmax)
      \<and> (why = Dropped \<or> why = StaleStream \<longrightarrow> d \<le> base)) tries (reconnect_delays base bmax attempt tries)"
  using assms
proof (induction base bmax attempt tries rule: reconnect_delays.induct)
  case (2 base bmax attempt why jitter rest)
  let ?a = "if why = ConnectFailed then attempt else 0"
  let ?w = "min bmax (base * 2 ^ ?a)"
  have j: "0 < jitter" "jitter \<le> 1" using "2.prems"(3) by auto
  have w: "0 < ?w" "?w \<le> bmax" "why = Dropped \<or> why = StaleStream \<Longrightarrow> ?w \<le> base"
    using "2.prems"(1,2) by auto
  have "0 < ?w * jitter" using j w by simp
  moreover have "?w * jitter \<le> ?w" using mult_left_mono [OF j(2), of ?w] w(1) by simp
  ultimately have d: "0 < ?w * jitter" "?w * jitter \<le> bmax"
    "why = Dropped \<or> why = StaleStream \<Longrightarrow> ?w * jitter \<le> base"
    using w(2,3) by (auto intro: order_trans)
  show ?case
    using d "2.IH" [OF refl refl "2.prems"(1,2)] "2.prems"(3)
    unfolding reconnect_delays.simps Let_def by (cases why) simp_all
qed simp

theorem reconnect_bounds_witness:
  "list_all2 (\<lambda>(why, j) d. (why = SessionExpired \<longrightarrow> d = 0)
      \<and> (why \<noteq> SessionExpired \<longrightarrow> 0 < d \<and> d \<le> 60)
      \<and> (why = Dropped \<or> why = StaleStream \<longrightarrow> d \<le> 1))
     [(ConnectFailed, 1::real), (Dropped, 3 / 4)] (reconnect_delays 1 60 7 [(ConnectFailed, 1), (Dropped, 3 / 4)])"
  by (rule reconnect_bounds) simp_all

end
