(* ===== verification/Exec_Types.thy ===== *)
theory Exec_Types
  imports Autocoin_Prelude
begin

text \<open>
  The data types of \<open>src/execution/types.py\<close>: sides, order types and statuses, fills,
  orders with their JSON form, positions with the update a fill makes, book tops, trade
  prints, the fee schedule and the events a broker emits; and the exceptions of
  \<open>src/execution/base.py\<close> and \<open>market.py\<close>.  Instants are microseconds since the epoch.
  The texts the code attaches to rejections and expiries are the constructors of
  \<open>reason\<close>.
\<close>

type_synonym datetime = int

datatype side = BUY | SELL

fun side_sign :: "side \<Rightarrow> real" where
  "side_sign BUY = 1"
| "side_sign SELL = -1"

datatype order_type = MARKET | LIMIT | STOP_MARKET

datatype status = NEW | PARTIALLY_FILLED | FILLED | CANCELED | EXPIRED | REJECTED

definition is_open :: "status \<Rightarrow> bool" where
  "is_open s \<longleftrightarrow> s \<in> {NEW, PARTIALLY_FILLED}"

lemma is_open_simps [simp]:
  "is_open NEW" "is_open PARTIALLY_FILLED" "\<not> is_open FILLED" "\<not> is_open CANCELED"
  "\<not> is_open EXPIRED" "\<not> is_open REJECTED"
  by (simp_all add: is_open_def)

datatype liquidity = MAKER | TAKER

datatype reason =
    NoReason
  | ReduceOnlyNotReducing
  | ReduceOnlyNoPositionAtFill
  | ReduceOnlyNoPositionAtTrigger
  | GtxWouldCross
  | StopAlreadyPassed
  | BadQty real
  | AlreadyClosed status
  | RiskStateNotActive
  | PositionLimit real
  | StopNotReducing
  | KillFilePresent
  | ExchangeCode "int option"
  | AccountHint int
  | ExpireCode int
  | NothingToCancel int
  | NotAtExchange
  | BelowMinQty real
  | LedgerMismatch real
  | LiveNotConfirmed

datatype exn =
    OrderRejected reason
  | RiskHalt reason
  | StaleMarketData
  | KeyError string
  | ZeroDivisionError
  | IndexError
  | TypeError
  | ValueError
  | AttributeError
  | NightSpecError
  | BinanceRestError "int option" "int option"

record fill =
  f_client_id :: string
  f_ts :: datetime
  f_side :: side
  f_qty :: real
  f_price :: real
  f_fee :: real
  f_liquidity :: liquidity

record order =
  o_client_id :: string
  o_symbol :: string
  o_side :: side
  o_type :: order_type
  o_qty :: real
  o_price :: "real option"
  o_stop_price :: "real option"
  o_reduce_only :: bool
  o_status :: status
  o_filled_qty :: real
  o_avg_price :: real
  o_placed_ts :: "datetime option"
  o_updated_ts :: "datetime option"
  o_reason :: reason
  o_exchange_id :: "int option"

definition remaining :: "order \<Rightarrow> real" where
  "remaining ord = round8 (o_qty ord - o_filled_qty ord)"

text \<open>The defaults of the dataclass: what \<open>Order(cid, symbol, side, type, qty)\<close> builds.\<close>

definition new_order :: "string \<Rightarrow> string \<Rightarrow> side \<Rightarrow> order_type \<Rightarrow> real \<Rightarrow> order" where
  "new_order cid sm sd ty q =
     \<lparr>o_client_id = cid, o_symbol = sm, o_side = sd, o_type = ty, o_qty = q,
      o_price = None, o_stop_price = None, o_reduce_only = False, o_status = NEW,
      o_filled_qty = 0, o_avg_price = 0, o_placed_ts = None, o_updated_ts = None,
      o_reason = NoReason, o_exchange_id = None\<rparr>"

subsection \<open>The JSON form of an order\<close>

text \<open>
  \<open>JTime t\<close> is the isoformat text of the instant \<open>t\<close> (\<open>fromisoformat\<close> reads
  it back), \<open>JReason r\<close> the reason text.
\<close>

datatype json =
    JNull
  | JBool bool
  | JInt int
  | JNum real
  | JStr string
  | JTime datetime
  | JReason reason
  | JList "json list"
  | JObj "(string \<times> json) list"

fun side_value :: "side \<Rightarrow> string" where
  "side_value BUY = ''BUY''"
| "side_value SELL = ''SELL''"

fun type_value :: "order_type \<Rightarrow> string" where
  "type_value MARKET = ''MARKET''"
| "type_value LIMIT = ''LIMIT''"
| "type_value STOP_MARKET = ''STOP_MARKET''"

fun status_value :: "status \<Rightarrow> string" where
  "status_value NEW = ''NEW''"
| "status_value PARTIALLY_FILLED = ''PARTIALLY_FILLED''"
| "status_value FILLED = ''FILLED''"
| "status_value CANCELED = ''CANCELED''"
| "status_value EXPIRED = ''EXPIRED''"
| "status_value REJECTED = ''REJECTED''"

fun liquidity_value :: "liquidity \<Rightarrow> string" where
  "liquidity_value MAKER = ''MAKER''"
| "liquidity_value TAKER = ''TAKER''"

text \<open>\<open>Side(x)\<close>, \<open>OrderType(x)\<close>, ...: the member with that value, or ValueError.\<close>

definition of_value :: "('e \<Rightarrow> string) \<Rightarrow> 'e list \<Rightarrow> json \<Rightarrow> 'e option" where
  "of_value val members j =
     (case j of JStr s \<Rightarrow> find (\<lambda>e. val e = s) members | _ \<Rightarrow> None)"

definition side_of_value :: "json \<Rightarrow> side option" where
  "side_of_value = of_value side_value [BUY, SELL]"

definition type_of_value :: "json \<Rightarrow> order_type option" where
  "type_of_value = of_value type_value [MARKET, LIMIT, STOP_MARKET]"

definition status_of_value :: "json \<Rightarrow> status option" where
  "status_of_value =
     of_value status_value [NEW, PARTIALLY_FILLED, FILLED, CANCELED, EXPIRED, REJECTED]"

definition liquidity_of_value :: "json \<Rightarrow> liquidity option" where
  "liquidity_of_value = of_value liquidity_value [MAKER, TAKER]"

lemma side_roundtrip [simp]: "side_of_value (JStr (side_value sd)) = Some sd"
  by (cases sd) (simp_all add: side_of_value_def of_value_def)

lemma type_roundtrip [simp]: "type_of_value (JStr (type_value ty)) = Some ty"
  by (cases ty) (simp_all add: type_of_value_def of_value_def)

lemma status_roundtrip [simp]: "status_of_value (JStr (status_value st)) = Some st"
  by (cases st) (simp_all add: status_of_value_def of_value_def)

lemma liquidity_roundtrip [simp]: "liquidity_of_value (JStr (liquidity_value lq)) = Some lq"
  by (cases lq) (simp_all add: liquidity_of_value_def of_value_def)

definition jopt :: "('a \<Rightarrow> json) \<Rightarrow> 'a option \<Rightarrow> json" where
  "jopt f x = (case x of None \<Rightarrow> JNull | Some v \<Rightarrow> f v)"

definition order_to_dict :: "order \<Rightarrow> (string \<times> json) list" where
  "order_to_dict ord =
     [(''client_id'', JStr (o_client_id ord)), (''symbol'', JStr (o_symbol ord)),
      (''side'', JStr (side_value (o_side ord))), (''type'', JStr (type_value (o_type ord))),
      (''qty'', JNum (o_qty ord)), (''price'', jopt JNum (o_price ord)),
      (''stop_price'', jopt JNum (o_stop_price ord)),
      (''reduce_only'', JBool (o_reduce_only ord)),
      (''status'', JStr (status_value (o_status ord))),
      (''filled_qty'', JNum (o_filled_qty ord)), (''avg_price'', JNum (o_avg_price ord)),
      (''placed_ts'', jopt JTime (o_placed_ts ord)),
      (''updated_ts'', jopt JTime (o_updated_ts ord)),
      (''reason'', JReason (o_reason ord)), (''exchange_id'', jopt JInt (o_exchange_id ord))]"

text \<open>Typed reads of a JSON object; a wrong shape is None, as the constructor call fails.\<close>

definition j_str :: "(string \<times> json) list \<Rightarrow> string \<Rightarrow> string option" where
  "j_str d k = (case map_of d k of Some (JStr s) \<Rightarrow> Some s | _ \<Rightarrow> None)"

definition j_num :: "(string \<times> json) list \<Rightarrow> string \<Rightarrow> real option" where
  "j_num d k = (case map_of d k of Some (JNum x) \<Rightarrow> Some x | _ \<Rightarrow> None)"

definition j_bool :: "(string \<times> json) list \<Rightarrow> string \<Rightarrow> bool option" where
  "j_bool d k = (case map_of d k of Some (JBool b) \<Rightarrow> Some b | _ \<Rightarrow> None)"

definition j_num_opt :: "(string \<times> json) list \<Rightarrow> string \<Rightarrow> real option option" where
  "j_num_opt d k = (case map_of d k of Some (JNum x) \<Rightarrow> Some (Some x)
                                     | Some JNull \<Rightarrow> Some None | _ \<Rightarrow> None)"

definition j_time_opt :: "(string \<times> json) list \<Rightarrow> string \<Rightarrow> datetime option option" where
  "j_time_opt d k = (case map_of d k of Some (JTime t) \<Rightarrow> Some (Some t)
                                      | Some JNull \<Rightarrow> Some None | _ \<Rightarrow> None)"

definition j_int_opt :: "(string \<times> json) list \<Rightarrow> string \<Rightarrow> int option option" where
  "j_int_opt d k = (case map_of d k of Some (JInt i) \<Rightarrow> Some (Some i)
                                     | Some JNull \<Rightarrow> Some None | _ \<Rightarrow> None)"

definition j_time :: "(string \<times> json) list \<Rightarrow> string \<Rightarrow> datetime option" where
  "j_time d k = (case map_of d k of Some (JTime t) \<Rightarrow> Some t | _ \<Rightarrow> None)"

definition j_reason :: "(string \<times> json) list \<Rightarrow> string \<Rightarrow> reason option" where
  "j_reason d k = (case map_of d k of Some (JReason r) \<Rightarrow> Some r | _ \<Rightarrow> None)"

lemmas json_reads =
  j_str_def j_num_def j_bool_def j_num_opt_def j_time_opt_def j_int_opt_def j_time_def
  j_reason_def jopt_def

definition order_from_dict :: "(string \<times> json) list \<Rightarrow> order option" where
  "order_from_dict d =
     Option.bind (j_str d ''client_id'') (\<lambda>cid.
     Option.bind (j_str d ''symbol'') (\<lambda>sm.
     Option.bind (Option.bind (map_of d ''side'') side_of_value) (\<lambda>sd.
     Option.bind (Option.bind (map_of d ''type'') type_of_value) (\<lambda>ty.
     Option.bind (j_num d ''qty'') (\<lambda>q.
     Option.bind (j_num_opt d ''price'') (\<lambda>px.
     Option.bind (j_num_opt d ''stop_price'') (\<lambda>spx.
     Option.bind (j_bool d ''reduce_only'') (\<lambda>ro.
     Option.bind (Option.bind (map_of d ''status'') status_of_value) (\<lambda>st.
     Option.bind (j_num d ''filled_qty'') (\<lambda>fq.
     Option.bind (j_num d ''avg_price'') (\<lambda>ap.
     Option.bind (j_time_opt d ''placed_ts'') (\<lambda>pt.
     Option.bind (j_time_opt d ''updated_ts'') (\<lambda>ut.
     Option.bind (j_reason d ''reason'') (\<lambda>rs.
     Option.bind (j_int_opt d ''exchange_id'') (\<lambda>xid.
     Some \<lparr>o_client_id = cid, o_symbol = sm, o_side = sd, o_type = ty, o_qty = q,
       o_price = px, o_stop_price = spx, o_reduce_only = ro, o_status = st,
       o_filled_qty = fq, o_avg_price = ap, o_placed_ts = pt, o_updated_ts = ut,
       o_reason = rs, o_exchange_id = xid\<rparr>)))))))))))))))"

lemma order_dict_roundtrip [simp]: "order_from_dict (order_to_dict ord) = Some ord"
  by (simp add: order_from_dict_def order_to_dict_def json_reads split: option.splits)

subsection \<open>Positions\<close>

record position =
  p_symbol :: string
  p_qty :: real
  p_entry_price :: real
  p_realized_pnl :: real
  p_fees :: real

definition flat_position :: "string \<Rightarrow> position" where
  "flat_position sm = \<lparr>p_symbol = sm, p_qty = 0, p_entry_price = 0, p_realized_pnl = 0, p_fees = 0\<rparr>"

definition position_apply ::
    "position \<Rightarrow> side \<Rightarrow> real \<Rightarrow> real \<Rightarrow> real \<Rightarrow> exn + real \<times> position" where
  "position_apply p sd q px fee =
     (let signed = side_sign sd * q
      in if p_qty p = 0 \<or> (0 < p_qty p) = (0 < signed) then
           (let new = p_qty p + signed
            in if \<bar>new\<bar> = 0 then Inl ZeroDivisionError
               else Inr (0, p\<lparr>p_entry_price := (p_entry_price p * \<bar>p_qty p\<bar> + px * q) / \<bar>new\<bar>,
                              p_qty := new, p_fees := p_fees p + fee\<rparr>))
         else
           (let closing = min q \<bar>p_qty p\<bar>;
                realized = closing * (px - p_entry_price p) * (if 0 < p_qty p then 1 else -1);
                qty' = round8 (p_qty p + signed);
                entry' = (if qty' = 0 then 0 else if (0 < qty') = (0 < signed) then px
                          else p_entry_price p)
            in Inr (realized, p\<lparr>p_qty := qty', p_entry_price := entry',
                               p_realized_pnl := p_realized_pnl p + realized,
                               p_fees := p_fees p + fee\<rparr>)))"

text \<open>
  The accounting of a fill: whatever the mark price \<open>m\<close>, realised plus unrealised profit
  moves by exactly what the traded quantity earns between its price and the mark.
\<close>

lemma position_apply_mtm:
  assumes q: "0 < q" and grid: "on_grid 8 (p_qty p)" "on_grid 8 q"
    and ok: "position_apply p sd q px fee = Inr (r, p')"
  shows "p_realized_pnl p' + p_qty p' * (m - p_entry_price p')
    = p_realized_pnl p + p_qty p * (m - p_entry_price p) + side_sign sd * q * (m - px)"
proof -
  let ?s = "side_sign sd * q"
  have g: "on_grid 8 (p_qty p + ?s)"
    by (cases sd) (simp_all add: grid on_grid_add on_grid_diff)
  note r8 = round_dec_on_grid [OF g]
  show ?thesis
  proof (cases "p_qty p = 0 \<or> (0 < p_qty p) = (0 < ?s)")
    case True
    then have nz: "p_qty p + ?s \<noteq> 0" and
      ab: "\<bar>p_qty p + ?s\<bar> = \<bar>p_qty p\<bar> + q" "(p_qty p + ?s) / \<bar>p_qty p + ?s\<bar> = sgn ?s"
      using q by (cases sd; auto simp: abs_if sgn_if divide_simps; linarith)+
    have p': "p' = p\<lparr>p_entry_price := (p_entry_price p * \<bar>p_qty p\<bar> + px * q) / \<bar>p_qty p + ?s\<bar>,
        p_qty := p_qty p + ?s, p_fees := p_fees p + fee\<rparr>"
      using ok True nz by (simp add: position_apply_def Let_def)
    have "(p_qty p + ?s) * p_entry_price p' = sgn ?s * (p_entry_price p * \<bar>p_qty p\<bar> + px * q)"
      unfolding ab(2) [symmetric] using p' by (simp add: field_simps)
    moreover have "sgn ?s * \<bar>p_qty p\<bar> = p_qty p" "sgn ?s * q = ?s"
      using True q by (cases sd; auto simp: sgn_if abs_if)+
    ultimately have "(p_qty p + ?s) * p_entry_price p' = p_entry_price p * p_qty p + px * ?s"
      by (simp add: distrib_left mult.assoc [symmetric] mult.commute [of "sgn ?s"])
         (simp add: algebra_simps)
    then show ?thesis using p' by (simp add: algebra_simps)
  next
    case False
    then have p': "r = min q \<bar>p_qty p\<bar> * (px - p_entry_price p) * (if 0 < p_qty p then 1 else -1)"
        "p_realized_pnl p' = p_realized_pnl p + r" "p_qty p' = p_qty p + ?s"
        "p_entry_price p' = (if p_qty p + ?s = 0 then 0
           else if (0 < p_qty p + ?s) = (0 < ?s) then px else p_entry_price p)"
      using ok r8 by (auto simp: position_apply_def Let_def)
    show ?thesis
    proof (cases "p_qty p + ?s = 0")
      case True
      then have "p_qty p = - ?s" by simp
      with False q True show ?thesis
        unfolding p' by (cases sd) (auto simp: min_def abs_if algebra_simps)
    next
      case nz: False
      with False q show ?thesis
        unfolding p' by (cases sd) (auto simp: min_def abs_if algebra_simps)
    qed
  qed
qed

lemma position_apply_zero:
  assumes grid: "on_grid 8 (p_qty p)" and ok: "position_apply p sd 0 px fee = Inr (r, p')"
  shows "p_realized_pnl p' = p_realized_pnl p \<and> p_qty p' = p_qty p
    \<and> p_entry_price p' = p_entry_price p"
  using ok round_dec_on_grid [OF grid] by (auto simp: position_apply_def Let_def split: if_splits)

lemma position_apply_qty:
  assumes grid: "on_grid 8 (p_qty p)" "on_grid 8 q"
    and ok: "position_apply p sd q px fee = Inr (r, p')"
  shows "p_qty p' = p_qty p + side_sign sd * q \<and> on_grid 8 (p_qty p')
    \<and> p_fees p' = p_fees p + fee"
proof -
  have g: "on_grid 8 (p_qty p + side_sign sd * q)"
    by (cases sd) (simp_all add: grid on_grid_add on_grid_diff)
  show ?thesis
    using ok round_dec_on_grid [OF g] g
    by (auto simp: position_apply_def Let_def split: if_splits)
qed

lemma position_apply_total:
  "0 < q \<Longrightarrow> \<exists>r p'. position_apply p sd q px fee = Inr (r, p')"
  by (cases sd) (auto simp: position_apply_def Let_def)

subsection \<open>Market data and fees\<close>

record book_top =
  bt_ts :: datetime
  bids :: "(real \<times> real) list"
  asks :: "(real \<times> real) list"

text \<open>\<open>best_bid\<close> reads index 0; the views never hand out a book with an empty side.\<close>

definition best_bid :: "book_top \<Rightarrow> real" where
  "best_bid b = fst (hd (bids b))"

definition best_ask :: "book_top \<Rightarrow> real" where
  "best_ask b = fst (hd (asks b))"

definition mid :: "book_top \<Rightarrow> real" where
  "mid b = (best_bid b + best_ask b) / 2"

record trade_print =
  t_ts :: datetime
  t_agg_id :: int
  t_price :: real
  t_qty :: real
  t_buyer_maker :: bool

record fee_schedule =
  maker_bps :: real
  taker_bps :: real

definition fee_of :: "fee_schedule \<Rightarrow> real \<Rightarrow> liquidity \<Rightarrow> real" where
  "fee_of fs notional lq =
     notional * (if lq = MAKER then maker_bps fs else taker_bps fs) / 10000"

datatype event_kind = Placed | Filled | Canceled | Expired | Rejected | Triggered

fun close_kind :: "status \<Rightarrow> event_kind" where
  "close_kind CANCELED = Canceled"
| "close_kind EXPIRED = Expired"
| "close_kind REJECTED = Rejected"
| "close_kind FILLED = Filled"
| "close_kind _ = Placed"

record order_event =
  e_ts :: datetime
  e_client_id :: string
  e_kind :: event_kind

end
