(* ===== verification/Rest_Client.thy ===== *)
theory Rest_Client
  imports Exec_Types
begin

text \<open>
  The REST client of \<open>src/exchange/rest.py\<close>.  The server is outside the program: its answer
  to the \<open>n\<close>-th transmission of a call and the clock reading before it are the parameter
  \<open>net\<close>.  The client's state is the used weight; \<open>rc_slept\<close> logs the pauses, \<open>rc_sent\<close>
  counts transmissions.
\<close>

record http_response =
  hr_status :: int
  hr_retry_after :: "real option"
  hr_weight :: "int option"
  hr_json :: json
  hr_code :: "int option"

datatype net_answer = NetError | Answer http_response

record rest_client =
  rc_max_retries :: nat
  rc_weight_limit :: real
  rc_soft_ratio :: real
  rc_has_keys :: bool
  rc_used_weight :: real
  rc_slept :: "real list"
  rc_sent :: nat

datatype rest_error =
    MissingCredentials
  | RestError "int option" "int option"

definition rest_backoff :: "nat \<Rightarrow> real" where
  "rest_backoff attempt = min (3 / 2 * 2 ^ attempt) 30"

definition rest_retry_after :: "http_response \<Rightarrow> nat \<Rightarrow> real" where
  "rest_retry_after r attempt =
     (case hr_retry_after r of Some w \<Rightarrow> w | None \<Rightarrow> rest_backoff attempt)"

definition rest_sleep :: "real \<Rightarrow> rest_client \<Rightarrow> rest_client" where
  "rest_sleep w c = c\<lparr>rc_slept := rc_slept c @ [w]\<rparr>"

definition fmod :: "real \<Rightarrow> real \<Rightarrow> real" where
  "fmod x m = x - m * of_int \<lfloor>x / m\<rfloor>"

definition rest_throttle :: "real \<Rightarrow> rest_client \<Rightarrow> rest_client" where
  "rest_throttle clock c =
     (if rc_weight_limit c * rc_soft_ratio c \<le> rc_used_weight c
      then (rest_sleep (60 - fmod clock 60 + 1 / 2) c)\<lparr>rc_used_weight := 0\<rparr> else c)"

definition rest_update_weight :: "http_response \<Rightarrow> rest_client \<Rightarrow> rest_client" where
  "rest_update_weight r c =
     (case hr_weight r of Some w \<Rightarrow> c\<lparr>rc_used_weight := of_int w\<rparr> | None \<Rightarrow> c)"

text \<open>The attempts of one call: \<open>left\<close> tries remain, \<open>attempt\<close> are behind.\<close>

fun rest_attempts ::
    "(nat \<Rightarrow> real \<times> net_answer) \<Rightarrow> nat \<Rightarrow> nat \<Rightarrow> rest_client \<Rightarrow> (rest_error + json) \<times> rest_client"
where
  "rest_attempts net 0 attempt c = (Inl (RestError None None), c)"
| "rest_attempts net (Suc left) attempt c =
     (case net attempt of
        (clock, ans) \<Rightarrow>
          (let c1 = (rest_throttle clock c)\<lparr>rc_sent := rc_sent c + 1\<rparr>
           in case ans of
                NetError \<Rightarrow> rest_attempts net left (attempt + 1) (rest_sleep (rest_backoff attempt) c1)
              | Answer r \<Rightarrow>
                  (let c2 = rest_update_weight r c1
                   in if hr_status r = 418 then (Inl (RestError (Some (hr_status r)) (hr_code r)), c2)
                      else if hr_status r = 429
                      then rest_attempts net left (attempt + 1)
                             (rest_sleep (rest_retry_after r attempt) c2)
                      else if 500 \<le> hr_status r
                      then rest_attempts net left (attempt + 1)
                             (rest_sleep (rest_backoff attempt) c2)
                      else if 400 \<le> hr_status r
                      then (Inl (RestError (Some (hr_status r)) (hr_code r)), c2)
                      else (Inr (hr_json r), c2))))"

definition rest_send ::
    "(nat \<Rightarrow> real \<times> net_answer) \<Rightarrow> bool \<Rightarrow> nat option \<Rightarrow> rest_client
     \<Rightarrow> (rest_error + json) \<times> rest_client" where
  "rest_send net signed max_retries c =
     (if signed \<and> \<not> rc_has_keys c then (Inl MissingCredentials, c)
      else rest_attempts net (case max_retries of None \<Rightarrow> rc_max_retries c | Some n \<Rightarrow> n) 0 c)"

definition rest_get where
  "rest_get net signed c = rest_send net signed None c"

definition rest_post where
  "rest_post net signed c = rest_send net signed (Some 1) c"

definition rest_delete where
  "rest_delete net signed c = rest_send net signed None c"

text \<open>\<open>measure_clock_offset\<close> from its samples (send time, server stamp, receive time, in ms).\<close>

definition median_upper :: "real list \<Rightarrow> real" where
  "median_upper xs = sort xs ! (length xs div 2)"

definition clock_offset :: "(real \<times> real \<times> real) list \<Rightarrow> real \<times> real" where
  "clock_offset samples =
     (round_dec 1 (median_upper (map (\<lambda>(t0, server, t1). (t0 + t1) / 2 - server) samples)),
      round_dec 1 (Min (set (map (\<lambda>(t0, server, t1). t1 - t0) samples))))"

subsection \<open>What a call does\<close>

lemma sent_simps [simp]:
  "rc_sent (rest_sleep w c) = rc_sent c" "rc_sent (rest_throttle clock c) = rc_sent c"
  "rc_sent (rest_update_weight r c) = rc_sent c"
  by (simp_all add: rest_sleep_def rest_throttle_def rest_update_weight_def split: option.split)

text \<open>An answer that ends the call, and what it ends it with.\<close>

fun final_answer :: "net_answer \<Rightarrow> bool" where
  "final_answer NetError = False"
| "final_answer (Answer r) = (hr_status r < 500 \<and> hr_status r \<noteq> 429)"

fun outcome_of :: "net_answer \<Rightarrow> rest_error + json" where
  "outcome_of NetError = Inl (RestError None None)"
| "outcome_of (Answer r) =
     (if 400 \<le> hr_status r then Inl (RestError (Some (hr_status r)) (hr_code r)) else Inr (hr_json r))"

definition answers :: "(nat \<Rightarrow> real \<times> net_answer) \<Rightarrow> nat \<Rightarrow> nat \<Rightarrow> net_answer list" where
  "answers net attempt left = map (\<lambda>i. snd (net i)) [attempt..<attempt + left]"

lemma answers_Suc: "answers net attempt (Suc left) = snd (net attempt) # answers net (Suc attempt) left"
  by (simp add: answers_def upt_conv_Cons del: upt_Suc)

lemma answers_0 [simp]: "answers net attempt 0 = []"
  by (simp add: answers_def)

lemma length_answers [simp]: "length (answers net attempt left) = left"
  by (simp add: answers_def)

definition retried :: "net_answer list \<Rightarrow> nat" where
  "retried as = length (takeWhile (\<lambda>a. \<not> final_answer a) as)"

lemma retried_Cons: "retried (a # as) = (if final_answer a then 0 else Suc (retried as))"
  by (simp add: retried_def)

lemma attempts_spec:
  assumes "rest_attempts net left attempt c = (res, c')"
  shows "rc_sent c' = rc_sent c + min left (retried (answers net attempt left) + 1)
    \<and> res = (if retried (answers net attempt left) = left then Inl (RestError None None)
             else outcome_of (answers net attempt left ! retried (answers net attempt left)))"
  using assms
proof (induction left arbitrary: attempt c)
  case 0
  then show ?case by (auto simp: retried_def)
next
  case (Suc left)
  obtain clock ans where n: "net attempt = (clock, ans)" by fastforce
  let ?c1 = "(rest_throttle clock c)\<lparr>rc_sent := rc_sent c + 1\<rparr>"
  show ?case
  proof (cases "final_answer ans")
    case True
    then obtain r where r: "ans = Answer r" "hr_status r < 500" "hr_status r \<noteq> 429"
      by (cases ans) auto
    then have "c' = rest_update_weight r ?c1 \<and> res = outcome_of ans"
      using Suc.prems n by (auto simp: Let_def split: if_splits)
    then show ?thesis using True n by (simp add: answers_Suc retried_Cons)
  next
    case False
    obtain c2 where c2: "rest_attempts net left (Suc attempt) c2 = (res, c')" "rc_sent c2 = rc_sent c + 1"
    proof (cases ans)
      case NetError
      then show ?thesis using Suc.prems n that by (auto simp: Let_def)
    next
      case (Answer r)
      then show ?thesis using Suc.prems n that False by (auto simp: Let_def split: if_splits)
    qed
    show ?thesis using Suc.IH [OF c2(1)] False n c2(2) by (simp add: answers_Suc retried_Cons)
  qed
qed

text \<open>C14: What a call does to the network: it transmits until the first conclusive answer (a
  success, a client error, or the 418 ban), at most as often as its retries allow, and
  returns that answer or the exhaustion error.  A POST is transmitted once, whatever
  happens to it, so an order can never be sent twice by the client itself.\<close>

theorem rest_send_outcome:
  assumes "rc_has_keys c" and "rest_send net signed tries c = (res, c')"
    and "n = (case tries of None \<Rightarrow> rc_max_retries c | Some k \<Rightarrow> k)"
  shows "rc_sent c' = rc_sent c + min n (retried (answers net 0 n) + 1)
    \<and> res = (if retried (answers net 0 n) = n then Inl (RestError None None)
             else outcome_of (answers net 0 n ! retried (answers net 0 n)))
    \<and> rc_sent (snd (rest_post net signed c)) = rc_sent c + 1"
proof -
  obtain r2 c2 where p: "rest_attempts net 1 0 c = (r2, c2)" by fastforce
  have "rc_sent (snd (rest_post net signed c)) = rc_sent c + 1"
    using attempts_spec [OF p] p assms(1) by (simp add: rest_post_def rest_send_def)
  then show ?thesis
    using attempts_spec [of net n 0 c res c'] assms by (simp add: rest_send_def)
qed

definition example_client :: rest_client where
  "example_client = \<lparr>rc_max_retries = 5, rc_weight_limit = 2400, rc_soft_ratio = 4 / 5,
     rc_has_keys = True, rc_used_weight = 0, rc_slept = [], rc_sent = 0\<rparr>"

definition example_net :: "nat \<Rightarrow> real \<times> net_answer" where
  "example_net n = (0, if n < 2 then NetError
     else Answer \<lparr>hr_status = 200, hr_retry_after = None, hr_weight = None, hr_json = JInt 7,
                  hr_code = None\<rparr>)"

theorem rest_send_outcome_witness:
  "fst (rest_get example_net True example_client) = Inr (JInt 7)
   \<and> rc_sent (snd (rest_get example_net True example_client)) = 3"
proof -
  have k: "rc_has_keys example_client" by (simp add: example_client_def)
  have a: "answers example_net 0 5 = map (\<lambda>i. snd (example_net i)) [0, 1, 2, 3, 4]"
    by (simp add: answers_def upt_rec eval_nat_numeral)
  show ?thesis
    using rest_send_outcome [OF k surjective_pairing refl, of example_net True None]
    by (simp add: rest_get_def example_client_def a retried_def example_net_def)
qed

end
