(* ===== verification/Engine.thy ===== *)
theory Engine
  imports Autocoin_Prelude
begin

text \<open>
  The signal engine of \<open>strategies/pastofi_crypto/engine.py\<close>, its parameters
  (\<open>params.py\<close>) and the tick table (\<open>tick.py\<close>).  The state is the record \<open>eng\<close>, its
  parallel arrays those of the code: accepted quotes, two-sided futures quotes, all
  futures quotes (missing side 0), auction frames, cumulative trade volume.  Times are
  seconds since midnight.  \<open>e_err\<close> is set where Python raises (a logarithm or tick size of a
  price that is not positive) and ends the call.
\<close>

subsection \<open>Ticks\<close>

datatype market = KOSPI | KOSDAQ

definition tick_table :: "(real \<times> int \<times> int) list" where
  "tick_table = [(0, 1, 1), (2000, 5, 5), (5000, 10, 10), (20000, 50, 50), (50000, 100, 100),
     (200000, 500, 100), (500000, 1000, 100)]"

definition tick_col :: "market \<Rightarrow> int \<times> int \<Rightarrow> int" where
  "tick_col mk r = (case mk of KOSPI \<Rightarrow> fst r | KOSDAQ \<Rightarrow> snd r)"

fun tick_scan :: "(real \<times> int \<times> int) list \<Rightarrow> market \<Rightarrow> real \<Rightarrow> int \<Rightarrow> int" where
  "tick_scan [] mk px t = t"
| "tick_scan ((lo, cols) # rows) mk px t =
     (if lo \<le> px then tick_scan rows mk px (tick_col mk cols) else t)"

text \<open>ValueError for a price that is not positive.\<close>

definition tick_size :: "real \<Rightarrow> market \<Rightarrow> int option" where
  "tick_size px mk =
     (if \<not> 0 < px then None else Some (tick_scan tick_table mk px (tick_col mk (snd (hd tick_table)))))"

subsection \<open>Parameters and records\<close>

definition hms :: "int \<Rightarrow> int \<Rightarrow> int \<Rightarrow> int" where
  "hms h m s = h * 3600 + m * 60 + s"

record params =
  pm_version :: string
  pm_move_win :: int
  pm_move_bp :: real
  pm_ofi_win :: int
  pm_vol_win :: int
  pm_ofi_th :: real
  pm_guard :: int
  pm_fut_limit_bp :: real
  pm_fut_min_rem :: real
  pm_fut_gap_ticks :: real
  pm_skip_chain :: int
  pm_vi_pad :: int
  pm_tp_bp :: real
  pm_sl_bp :: real
  pm_hold :: int
  pm_cost_bp :: real
  pm_session_open :: int
  pm_session_close :: int
  pm_entry_start :: int
  pm_entry_end :: int

definition default_params :: params where
  "default_params =
     \<lparr>pm_version = ''pastofi-1.5'', pm_move_win = 300, pm_move_bp = 200, pm_ofi_win = 60,
      pm_vol_win = 600, pm_ofi_th = 1 / 2, pm_guard = 1, pm_fut_limit_bp = 950,
      pm_fut_min_rem = 0, pm_fut_gap_ticks = 2, pm_skip_chain = 60, pm_vi_pad = 60,
      pm_tp_bp = 200, pm_sl_bp = 200, pm_hold = 300, pm_cost_bp = 1,
      pm_session_open = hms 9 0 0, pm_session_close = hms 15 20 0,
      pm_entry_start = hms 9 10 0, pm_entry_end = hms 15 15 0\<rparr>"

datatype logic = Logic1 | Logic2

fun logic_side :: "logic \<Rightarrow> int" where
  "logic_side Logic1 = - 1"
| "logic_side Logic2 = 1"

record feat =
  past_bp :: real
  ofi1m :: real
  vol_per_min :: real
  ofi_ratio :: real
  mid_start :: real
  mid_cut :: real

datatype exit_reason = TakeProfit | StopLoss | FiveMin | FiveMinAfterLimit | FiveMinDayEnd

record eng_trade =
  tr_logic :: logic
  tr_side :: int
  tr_t_sig :: int
  tr_t_in :: real
  tr_p_in :: real
  tr_t_out :: real
  tr_p_out :: real
  tr_reason :: exit_reason
  tr_feat :: feat
  tr_pnl_bp :: real
  tr_net_bp :: real
  tr_version :: string

record eng_pos =
  ps_logic :: logic
  ps_side :: int
  ps_t_sig :: int
  ps_t_in :: real
  ps_p_in :: real
  ps_deadline :: int
  ps_feat :: feat
  ps_wait :: bool

record skip =
  sk_logic :: logic
  sk_t_sig :: int
  sk_end :: int
  sk_n_sec :: nat
  sk_fut_rem :: real
  sk_fut_bid :: real
  sk_fut_ask :: real
  sk_stk_bid :: real
  sk_stk_ask :: real
  sk_tick :: int
  sk_gap_ticks :: real
  sk_why_rem :: bool
  sk_why_gap :: bool
  sk_feat :: feat
  sk_version :: string

type_synonym l1 = "real \<times> real \<times> real \<times> real"

record eng =
  e_p :: params
  e_fut_base :: "real option"
  e_market :: market
  e_ts :: "real list"
  e_bid :: "real list"
  e_ask :: "real list"
  e_mid :: "real list"
  e_cum :: "real list"
  e_last_raw :: "l1 option"
  e_last_q :: "l1 option"
  e_brk :: bool
  e_cum_e :: real
  e_auct :: "real list"
  e_fts :: "real list"
  e_fbid :: "real list"
  e_fask :: "real list"
  e_fbq :: "real list"
  e_faq :: "real list"
  e_xts :: "real list"
  e_xbid :: "real list"
  e_xask :: "real list"
  e_vsec :: "int list"
  e_vcum :: "int list"
  e_pos :: "logic \<Rightarrow> eng_pos option"
  e_free :: "logic \<Rightarrow> real"
  e_last_T :: int
  e_trades :: "eng_trade list"
  e_n_quotes :: nat
  e_n_dup :: nat
  e_n_no_fut :: nat
  e_n_fut_limit :: nat
  e_last_skip :: "logic \<Rightarrow> real"
  e_skipped :: "skip list"
  e_n_chain :: nat
  e_err :: bool

definition eng_init :: "params \<Rightarrow> real option \<Rightarrow> market \<Rightarrow> eng" where
  "eng_init p base mk =
     \<lparr>e_p = p, e_fut_base = (if base = Some 0 then None else base), e_market = mk,
      e_ts = [], e_bid = [], e_ask = [], e_mid = [], e_cum = [],
      e_last_raw = None, e_last_q = None, e_brk = True, e_cum_e = 0, e_auct = [],
      e_fts = [], e_fbid = [], e_fask = [], e_fbq = [], e_faq = [],
      e_xts = [], e_xbid = [], e_xask = [], e_vsec = [], e_vcum = [],
      e_pos = (\<lambda>_. None), e_free = (\<lambda>_. - (10 ^ 18)), e_last_T = pm_entry_start p - 1,
      e_trades = [], e_n_quotes = 0, e_n_dup = 0, e_n_no_fut = 0, e_n_fut_limit = 0,
      e_last_skip = (\<lambda>_. - (10 ^ 18)), e_skipped = [], e_n_chain = 0, e_err = False\<rparr>"

subsection \<open>Trades in\<close>

fun add_from :: "nat \<Rightarrow> int \<Rightarrow> int list \<Rightarrow> int list" where
  "add_from i q [] = []"
| "add_from 0 q (v # vs) = (v + q) # add_from 0 q vs"
| "add_from (Suc i) q (v # vs) = v # add_from i q vs"

definition insert_at :: "nat \<Rightarrow> 'a \<Rightarrow> 'a list \<Rightarrow> 'a list" where
  "insert_at i x xs = take i xs @ x # drop i xs"

definition eng_on_trade :: "int \<Rightarrow> int \<Rightarrow> int \<Rightarrow> eng \<Rightarrow> eng" where
  "eng_on_trade sec qty sd e =
     (if sd = 0 \<or> qty \<le> 0 then e
      else if e_vsec e \<noteq> [] \<and> sec = last (e_vsec e)
      then e\<lparr>e_vcum := add_from (length (e_vcum e) - 1) qty (e_vcum e)\<rparr>
      else if e_vsec e = [] \<or> last (e_vsec e) < sec
      then e\<lparr>e_vsec := e_vsec e @ [sec],
             e_vcum := e_vcum e @ [(if e_vcum e = [] then 0 else last (e_vcum e)) + qty]\<rparr>
      else
        (let i = bisect_left (e_vsec e) sec;
             fresh = e_vsec e ! i \<noteq> sec;
             vs = (if fresh then insert_at i sec (e_vsec e) else e_vsec e);
             vc = (if fresh
                   then insert_at i (if i = 0 then 0 else e_vcum e ! (i - 1)) (e_vcum e) else e_vcum e)
         in e\<lparr>e_vsec := vs, e_vcum := add_from i qty vc\<rparr>))"

definition eng_vol_upto :: "eng \<Rightarrow> int \<Rightarrow> int" where
  "eng_vol_upto e x =
     (let k = bisect_right (e_vsec e) x in if k = 0 then 0 else e_vcum e ! (k - 1))"

subsection \<open>Quotes in\<close>

definition ofi_of :: "l1 \<Rightarrow> l1 \<Rightarrow> real" where
  "ofi_of old new =
     (case (old, new) of ((b0, bq0, a0, aq0), (b1, bq, a1, aq)) \<Rightarrow>
        (let ofb = (if b0 < b1 then bq else if b1 = b0 then bq - bq0 else - bq0);
             ofa = (if a0 < a1 then - aq0 else if a1 = a0 then aq - aq0 else aq)
         in ofb - ofa))"

definition eng_on_quote :: "real \<Rightarrow> real \<Rightarrow> real \<Rightarrow> real \<Rightarrow> real \<Rightarrow> bool \<Rightarrow> bool \<Rightarrow> eng \<Rightarrow> eng" where
  "eng_on_quote ts b1 bq1 a1 aq1 cont in_session e =
     (if \<not> cont
      then (let e1 = e\<lparr>e_brk := True\<rparr>
            in if in_session then e1\<lparr>e_auct := e_auct e1 @ [ts]\<rparr> else e1)
      else if \<not> in_session then e
      else if e_last_raw e = Some (b1, bq1, a1, aq1) then e\<lparr>e_n_dup := e_n_dup e + 1\<rparr>
      else
        (let bq = (if 0 < b1 then bq1 else 0); aq = (if 0 < a1 then aq1 else 0);
             d = (case e_last_q e of
                    None \<Rightarrow> 0
                  | Some old \<Rightarrow> if e_brk e then 0 else ofi_of old (b1, bq, a1, aq));
             cum = e_cum_e e + d
         in e\<lparr>e_last_raw := Some (b1, bq1, a1, aq1), e_last_q := Some (b1, bq, a1, aq),
              e_brk := False, e_cum_e := cum, e_ts := e_ts e @ [ts], e_bid := e_bid e @ [b1],
              e_ask := e_ask e @ [a1], e_mid := e_mid e @ [(b1 + a1) / 2],
              e_cum := e_cum e @ [cum], e_n_quotes := e_n_quotes e + 1\<rparr>))"

subsection \<open>Exits\<close>

definition exit_px :: "eng \<Rightarrow> eng_pos \<Rightarrow> nat \<Rightarrow> real" where
  "exit_px e pos i = (if ps_side pos < 0 then e_xask e ! i else e_xbid e ! i)"

definition eng_close :: "eng_pos \<Rightarrow> nat \<Rightarrow> exit_reason \<Rightarrow> eng \<Rightarrow> eng" where
  "eng_close pos i why e =
     (let px = exit_px e pos i
      in if px \<le> 0 then e\<lparr>e_err := True\<rparr>
         else
           (let pnl = of_int (ps_side pos) * ln (px / ps_p_in pos) * 10000
            in e\<lparr>e_trades := e_trades e @
                   [\<lparr>tr_logic = ps_logic pos, tr_side = ps_side pos, tr_t_sig = ps_t_sig pos,
                     tr_t_in = ps_t_in pos, tr_p_in = ps_p_in pos, tr_t_out = e_xts e ! i,
                     tr_p_out = px, tr_reason = why, tr_feat = ps_feat pos, tr_pnl_bp = pnl,
                     tr_net_bp = pnl - pm_cost_bp (e_p e), tr_version = pm_version (e_p e)\<rparr>],
                 e_pos := (e_pos e)(ps_logic pos := None),
                 e_free := (e_free e)(ps_logic pos := e_xts e ! i)\<rparr>))"

definition takes_profit :: "params \<Rightarrow> eng_pos \<Rightarrow> real \<Rightarrow> bool" where
  "takes_profit p pos px \<longleftrightarrow>
     (let tp = pm_tp_bp p / 10000
      in (ps_side pos < 0 \<and> px \<le> ps_p_in pos * (1 - tp))
         \<or> (0 < ps_side pos \<and> ps_p_in pos * (1 + tp) \<le> px))"

definition stops_loss :: "params \<Rightarrow> eng_pos \<Rightarrow> real \<Rightarrow> bool" where
  "stops_loss p pos px \<longleftrightarrow>
     (let sl = pm_sl_bp p / 10000
      in (ps_side pos < 0 \<and> ps_p_in pos * (1 + sl) \<le> px)
         \<or> (0 < ps_side pos \<and> px \<le> ps_p_in pos * (1 - sl)))"

definition eng_check_exit :: "eng_pos \<Rightarrow> nat \<Rightarrow> eng \<Rightarrow> eng" where
  "eng_check_exit pos i e =
     (let t = e_xts e ! i; px = exit_px e pos i
      in if t \<le> ps_t_in pos \<or> px \<le> 0 then e
         else if ps_wait pos then eng_close pos i FiveMinAfterLimit e
         else if of_int (ps_deadline pos) < t then e
         else if takes_profit (e_p e) pos px then eng_close pos i TakeProfit e
         else if stops_loss (e_p e) pos px then eng_close pos i StopLoss e
         else e)"

definition check_newest :: "logic \<Rightarrow> eng \<Rightarrow> eng" where
  "check_newest lg e =
     (case e_pos e lg of None \<Rightarrow> e | Some pos \<Rightarrow> eng_check_exit pos (length (e_xts e) - 1) e)"

definition eng_on_fut_quote :: "real \<Rightarrow> real \<Rightarrow> real \<Rightarrow> real \<Rightarrow> real \<Rightarrow> eng \<Rightarrow> eng" where
  "eng_on_fut_quote ts b1 bq1 a1 aq1 e =
     (let two = 0 < b1 \<and> b1 < a1
      in if \<not> two \<and> (0 < b1) = (0 < a1) then e
         else
           (let e1 = (if two
                      then e\<lparr>e_fts := e_fts e @ [ts], e_fbid := e_fbid e @ [b1], e_fask := e_fask e @ [a1],
                             e_fbq := e_fbq e @ [bq1], e_faq := e_faq e @ [aq1]\<rparr>
                      else e);
                e2 = e1\<lparr>e_xts := e_xts e1 @ [ts], e_xbid := e_xbid e1 @ [max b1 0],
                        e_xask := e_xask e1 @ [max a1 0]\<rparr>
            in check_newest Logic2 (check_newest Logic1 e2)))"

subsection \<open>Looking back\<close>

text \<open>\<open>bisect_right(xs, x) - 1\<close>, None for -1.\<close>

definition idx_upto :: "real list \<Rightarrow> real \<Rightarrow> nat option" where
  "idx_upto xs x = (let k = bisect_right xs x in if k = 0 then None else Some (k - 1))"

definition eng_near_limit :: "eng \<Rightarrow> nat \<Rightarrow> bool" where
  "eng_near_limit e i =
     (case e_fut_base e of
        None \<Rightarrow> True
      | Some base \<Rightarrow>
          (let m = (e_fbid e ! i + e_fask e ! i) / 2; lmt = pm_fut_limit_bp (e_p e) / 10000
           in base * (1 + lmt) \<le> m \<or> m \<le> base * (1 - lmt)))"

definition eng_auct_in :: "eng \<Rightarrow> real \<Rightarrow> real \<Rightarrow> bool \<Rightarrow> bool" where
  "eng_auct_in e lo hi lo_closed =
     (let a = (if lo_closed then bisect_left (e_auct e) lo else bisect_right (e_auct e) lo)
      in a < bisect_right (e_auct e) hi)"

text \<open>The features at second \<open>T\<close>: None when no decision is made, ValueError as \<open>Inl\<close>.\<close>

definition eng_features :: "int \<Rightarrow> eng \<Rightarrow> unit + feat option" where
  "eng_features T e =
     (let p = e_p e; c = T - pm_guard p; lo_vol = c - pm_ofi_win p - pm_vol_win p
      in if lo_vol < pm_session_open p \<or> c - pm_move_win p < pm_session_open p then Inr None
         else if eng_auct_in e (of_int (lo_vol - pm_vi_pad p)) (of_int c) True then Inr None
         else case (idx_upto (e_ts e) (of_int (c - pm_move_win p)), idx_upto (e_ts e) (of_int c)) of
                (Some ia, Some ib) \<Rightarrow>
                  (if e_mid e ! ib \<le> 0 \<or> e_mid e ! ia \<le> 0 then Inl ()
                   else
                     (let past = (ln (e_mid e ! ib) - ln (e_mid e ! ia)) * 10000
                      in if \<bar>past\<bar> < pm_move_bp p then Inr None
                         else
                           (let ofi = e_cum e ! ib -
                                  (case idx_upto (e_ts e) (of_int (c - pm_ofi_win p)) of
                                     Some io \<Rightarrow> e_cum e ! io | None \<Rightarrow> 0);
                                vol = eng_vol_upto e (c - pm_ofi_win p) - eng_vol_upto e lo_vol;
                                per_min = of_int vol / (of_int (pm_vol_win p) / 60)
                            in if \<not> 0 < per_min then Inr None
                               else Inr (Some \<lparr>past_bp = past, ofi1m = ofi, vol_per_min = per_min,
                                      ofi_ratio = ofi / per_min, mid_start = e_mid e ! ia,
                                      mid_cut = e_mid e ! ib\<rparr>))))
              | _ \<Rightarrow> Inr None)"

subsection \<open>Entries and the clock\<close>

definition eng_time_exit :: "eng_pos \<Rightarrow> int \<Rightarrow> eng \<Rightarrow> eng" where
  "eng_time_exit pos s e =
     (case idx_upto (e_xts e) (of_int s) of
        Some i \<Rightarrow> (if 0 < exit_px e pos i then eng_close pos i FiveMin e
                   else e\<lparr>e_pos := (e_pos e)(ps_logic pos := Some (pos\<lparr>ps_wait := True\<rparr>))\<rparr>)
      | None \<Rightarrow> e\<lparr>e_pos := (e_pos e)(ps_logic pos := Some (pos\<lparr>ps_wait := True\<rparr>))\<rparr>)"

definition eng_deadline :: "int \<Rightarrow> logic \<Rightarrow> eng \<Rightarrow> eng" where
  "eng_deadline s lg e =
     (case e_pos e lg of
        None \<Rightarrow> e
      | Some pos \<Rightarrow> if ps_deadline pos \<noteq> s \<or> ps_wait pos then e else eng_time_exit pos s e)"

fun check_later :: "logic \<Rightarrow> nat list \<Rightarrow> eng \<Rightarrow> eng" where
  "check_later lg [] e = e"
| "check_later lg (i # is) e =
     (case e_pos e lg of
        None \<Rightarrow> e
      | Some pos \<Rightarrow> if of_int (ps_deadline pos) < e_xts e ! i then e
                    else check_later lg is (eng_check_exit pos i e))"

definition extend_skip :: "int \<Rightarrow> skip list \<Rightarrow> skip list" where
  "extend_skip s sks =
     (case rev sks of [] \<Rightarrow> []
      | sk # rest \<Rightarrow> rev (sk\<lparr>sk_end := s, sk_n_sec := sk_n_sec sk + 1\<rparr> # rest))"

definition logic_hit :: "params \<Rightarrow> logic \<Rightarrow> feat \<Rightarrow> bool" where
  "logic_hit p lg f =
     (case lg of
        Logic1 \<Rightarrow> pm_move_bp p \<le> past_bp f \<and> ofi_ratio f < - pm_ofi_th p
      | Logic2 \<Rightarrow> past_bp f \<le> - pm_move_bp p \<and> pm_ofi_th p < ofi_ratio f)"

definition eng_enter :: "int \<Rightarrow> logic \<Rightarrow> feat \<Rightarrow> nat \<Rightarrow> eng \<Rightarrow> eng" where
  "eng_enter s lg f f0 e =
     (let sd = logic_side lg;
          pos = \<lparr>ps_logic = lg, ps_side = sd, ps_t_sig = s, ps_t_in = e_fts e ! f0,
                 ps_p_in = (if sd < 0 then e_fbid e ! f0 else e_fask e ! f0),
                 ps_deadline = s + pm_hold (e_p e), ps_feat = f, ps_wait = False\<rparr>
      in check_later lg [bisect_right (e_xts e) (ps_t_in pos) ..< length (e_xts e)]
           (e\<lparr>e_pos := (e_pos e)(lg := Some pos)\<rparr>))"

definition eng_try_entry :: "int \<Rightarrow> logic \<Rightarrow> feat \<Rightarrow> eng \<Rightarrow> eng" where
  "eng_try_entry s lg f e =
     (let p = e_p e
      in if \<not> logic_hit p lg f then e
         else if of_int s - e_last_skip e lg \<le> of_int (pm_skip_chain p)
         then e\<lparr>e_last_skip := (e_last_skip e)(lg := of_int s), e_n_chain := e_n_chain e + 1,
                e_skipped := extend_skip s (e_skipped e)\<rparr>
         else
           (case idx_upto (e_ts e) (of_int s) of
              None \<Rightarrow> e
            | Some i0 \<Rightarrow>
                if eng_auct_in e (e_ts e ! i0) (of_int s) False then e
                else
                  (case idx_upto (e_fts e) (of_int s) of
                     None \<Rightarrow> e\<lparr>e_n_no_fut := e_n_no_fut e + 1\<rparr>
                   | Some f0 \<Rightarrow>
                       if eng_near_limit e f0 then e\<lparr>e_n_fut_limit := e_n_fut_limit e + 1\<rparr>
                       else
                         (case tick_size (e_mid e ! i0) (e_market e) of
                            None \<Rightarrow> e\<lparr>e_err := True\<rparr>
                          | Some tsz \<Rightarrow>
                              (let sd = logic_side lg;
                                   rm = (if sd < 0 then e_fbq e ! f0 else e_faq e ! f0);
                                   gap = ((e_fask e ! f0 - e_fbid e ! f0) - (e_ask e ! i0 - e_bid e ! i0))
                                         / of_int tsz
                               in if rm < pm_fut_min_rem p \<or> pm_fut_gap_ticks p \<le> gap
                                  then e\<lparr>e_last_skip := (e_last_skip e)(lg := of_int s),
                                         e_skipped := e_skipped e @
                                           [\<lparr>sk_logic = lg, sk_t_sig = s, sk_end = s, sk_n_sec = 1,
                                             sk_fut_rem = rm, sk_fut_bid = e_fbid e ! f0,
                                             sk_fut_ask = e_fask e ! f0, sk_stk_bid = e_bid e ! i0,
                                             sk_stk_ask = e_ask e ! i0, sk_tick = tsz,
                                             sk_gap_ticks = gap, sk_why_rem = (rm < pm_fut_min_rem p),
                                             sk_why_gap = (pm_fut_gap_ticks p \<le> gap), sk_feat = f,
                                             sk_version = pm_version p\<rparr>]\<rparr>
                                  else eng_enter s lg f f0 e)))))"

fun eng_entries :: "int \<Rightarrow> logic list \<Rightarrow> feat option \<Rightarrow> eng \<Rightarrow> eng" where
  "eng_entries s [] f e = e"
| "eng_entries s (lg # lgs) f e =
     (if e_err e then e
      else if e_pos e lg \<noteq> None \<or> of_int s < e_free e lg then eng_entries s lgs f e
      else case (case f of None \<Rightarrow> eng_features s e | Some x \<Rightarrow> Inr (Some x)) of
             Inl _ \<Rightarrow> e\<lparr>e_err := True\<rparr>
           | Inr None \<Rightarrow> e
           | Inr (Some x) \<Rightarrow> eng_entries s lgs (Some x) (eng_try_entry s lg x e))"

definition keep_sec :: int where
  "keep_sec = 900"

definition flat_all :: "eng \<Rightarrow> bool" where
  "flat_all e \<longleftrightarrow> e_pos e Logic1 = None \<and> e_pos e Logic2 = None"

text \<open>Each array group keeps its last entry up to the cut; quotes only while no position is open.\<close>

definition prune_quotes :: "int \<Rightarrow> eng \<Rightarrow> eng" where
  "prune_quotes old e =
     (let k = bisect_right (e_ts e) (of_int old) - 1
      in if 0 < k \<and> flat_all e
         then e\<lparr>e_ts := drop k (e_ts e), e_bid := drop k (e_bid e), e_ask := drop k (e_ask e),
                e_mid := drop k (e_mid e), e_cum := drop k (e_cum e)\<rparr> else e)"

definition prune_fut :: "int \<Rightarrow> eng \<Rightarrow> eng" where
  "prune_fut old e =
     (let k = bisect_right (e_fts e) (of_int old) - 1
      in if 0 < k \<and> flat_all e
         then e\<lparr>e_fts := drop k (e_fts e), e_fbid := drop k (e_fbid e), e_fask := drop k (e_fask e),
                e_fbq := drop k (e_fbq e), e_faq := drop k (e_faq e)\<rparr> else e)"

definition prune_exit_quotes :: "int \<Rightarrow> eng \<Rightarrow> eng" where
  "prune_exit_quotes old e =
     (let k = bisect_right (e_xts e) (of_int old) - 1
      in if 0 < k \<and> flat_all e
         then e\<lparr>e_xts := drop k (e_xts e), e_xbid := drop k (e_xbid e), e_xask := drop k (e_xask e)\<rparr>
         else e)"

definition prune_auct :: "int \<Rightarrow> eng \<Rightarrow> eng" where
  "prune_auct old e =
     (let k = bisect_right (e_auct e) (of_int (old - 100))
      in if 0 < k then e\<lparr>e_auct := drop k (e_auct e)\<rparr> else e)"

definition prune_vol :: "int \<Rightarrow> eng \<Rightarrow> eng" where
  "prune_vol old e =
     (let k = bisect_right (e_vsec e) (old - 100) - 1
      in if 0 < k then e\<lparr>e_vsec := drop k (e_vsec e), e_vcum := drop k (e_vcum e)\<rparr> else e)"

definition eng_prune :: "int \<Rightarrow> eng \<Rightarrow> eng" where
  "eng_prune s e =
     (if s mod 60 \<noteq> 0 then e
      else (let old = s - keep_sec
            in prune_vol old (prune_auct old (prune_exit_quotes old (prune_fut old (prune_quotes old e))))))"

definition eng_second :: "int \<Rightarrow> eng \<Rightarrow> eng" where
  "eng_second s e =
     (if e_err e then e
      else
        (let p = e_p e; e1 = eng_deadline s Logic2 (eng_deadline s Logic1 e)
         in if e_err e1 then e1
            else if \<not> (pm_entry_start p \<le> s \<and> s < pm_entry_end p) \<or> pm_session_close p < s + pm_hold p
            then eng_prune s e1
            else
              (let e2 = eng_entries s [Logic1, Logic2] None e1
               in if e_err e2 then e2 else eng_prune s e2)))"

definition eng_advance :: "int \<Rightarrow> eng \<Rightarrow> eng" where
  "eng_advance T e =
     (let e1 = fold eng_second [e_last_T e + 1 .. T] e
      in e1\<lparr>e_last_T := max (e_last_T e1) T\<rparr>)"

definition eng_finish_pos :: "logic \<Rightarrow> eng \<Rightarrow> eng" where
  "eng_finish_pos lg e =
     (if e_err e then e
      else case e_pos e lg of
             None \<Rightarrow> e
           | Some pos \<Rightarrow>
               if ps_wait pos
               then (let ks = filter (\<lambda>k. 0 < exit_px e pos k) [0..<length (e_xts e)]
                     in if ks = [] then e\<lparr>e_err := True\<rparr> else eng_close pos (last ks) FiveMinDayEnd e)
               else eng_time_exit pos (ps_deadline pos) e)"

definition eng_finish :: "eng \<Rightarrow> eng" where
  "eng_finish e =
     eng_finish_pos Logic2 (eng_finish_pos Logic1 (eng_advance (pm_session_close (e_p e)) e))"

end
