(* ===== verification/Engine_Correct.thy ===== *)
theory Engine_Correct
  imports Engine
begin

text \<open>
  Correctness of the signal engine: the incremental volume equals the sum over the trades
  received, in whatever order they came; a decision never reads data of its own second or
  later; pruning never changes a decision; every exit happened at a price and time its
  reason allows, and an open position has not yet met one.
\<close>

subsection \<open>The cumulative volume\<close>

definition vol_sum :: "(int \<times> int) list \<Rightarrow> int \<Rightarrow> int" where
  "vol_sum h x = (\<Sum>(s, q)\<leftarrow>h. if s \<le> x then q else 0)"

lemma vol_sum_append: "vol_sum (h @ [(s, q)]) x = vol_sum h x + (if s \<le> x then q else 0)"
  by (simp add: vol_sum_def)

lemma vol_sum_same:
  "(\<And>s q. (s, q) \<in> set h \<Longrightarrow> s \<le> x \<longleftrightarrow> s \<le> y) \<Longrightarrow> vol_sum h x = vol_sum h y"
proof (induction h)
  case (Cons a h)
  have "vol_sum h x = vol_sum h y" by (rule Cons.IH) (use Cons.prems in auto)
  then show ?case using Cons.prems [of "fst a" "snd a"] by (cases a) (auto simp: vol_sum_def)
qed (simp add: vol_sum_def)

lemma vol_sum_zero: "\<forall>(s, q)\<in>set h. \<not> s \<le> x \<Longrightarrow> vol_sum h x = 0"
  by (induction h) (auto simp: vol_sum_def)

definition vol_ok :: "(int \<times> int) list \<Rightarrow> int list \<Rightarrow> int list \<Rightarrow> bool" where
  "vol_ok h vs vc \<longleftrightarrow> sorted_wrt (<) vs \<and> vc = map (vol_sum h) vs \<and> (\<forall>(s, q)\<in>set h. s \<in> set vs)"

lemma add_from_conv: "add_from i q xs = take i xs @ map (\<lambda>v. v + q) (drop i xs)"
proof (induction i q xs rule: add_from.induct)
  case (2 q v vs)
  then show ?case by simp
qed simp_all

lemma add_from_vol:
  assumes i: "i \<le> length vs" and s: "\<And>j. j < length vs \<Longrightarrow> j < i \<longleftrightarrow> vs ! j < s"
  shows "add_from i q (map (vol_sum h) vs) = map (vol_sum (h @ [(s, q)])) vs"
proof (rule nth_equalityI)
  show "length (add_from i q (map (vol_sum h) vs)) = length (map (vol_sum (h @ [(s, q)])) vs)"
    using i by (simp add: add_from_conv)
  fix j assume "j < length (add_from i q (map (vol_sum h) vs))"
  then have j: "j < length vs" using i by (simp add: add_from_conv)
  show "add_from i q (map (vol_sum h) vs) ! j = map (vol_sum (h @ [(s, q)])) vs ! j"
    using j s [OF j] i by (auto simp: add_from_conv nth_append vol_sum_append)
qed

lemma sorted_strict: "sorted_wrt (<) (vs :: int list) \<Longrightarrow> sorted vs"
  by (simp add: strict_sorted_iff)

lemma le_last: "sorted vs \<Longrightarrow> x \<in> set vs \<Longrightarrow> x \<le> last vs"
  by (induction vs rule: rev_induct) (auto simp: sorted_append)

lemma vol_lookup:
  assumes ok: "vol_ok h vs vc"
  shows "(let k = bisect_right vs x in if k = 0 then 0 else vc ! (k - 1)) = vol_sum h x"
proof -
  have so: "sorted vs" using ok by (simp add: vol_ok_def sorted_strict)
  let ?k = "bisect_right vs x"
  have le: "?k \<le> length vs" by (rule bisect_right_le [OF so])
  show ?thesis
  proof (cases "?k = 0")
    case True
    have "\<not> s \<le> x" if m: "(s, q) \<in> set h" for s q
    proof -
      have "s \<in> set vs" using ok m by (auto simp: vol_ok_def)
      then obtain j where "j < length vs" "vs ! j = s" by (auto simp: in_set_conv_nth)
      then show ?thesis using bisect_right_iff [OF so, of j x] True by simp
    qed
    then have "vol_sum h x = 0" by (intro vol_sum_zero) auto
    then show ?thesis using True by simp
  next
    case False
    then have k: "?k - 1 < length vs" "?k - 1 < ?k" using le by simp_all
    then have kx: "vs ! (?k - 1) \<le> x" using bisect_right_iff [OF so] by blast
    have "vol_sum h (vs ! (?k - 1)) = vol_sum h x"
    proof (rule vol_sum_same)
      fix s q assume "(s, q) \<in> set h"
      then have "s \<in> set vs" using ok by (auto simp: vol_ok_def)
      then obtain j where j: "j < length vs" "vs ! j = s" by (auto simp: in_set_conv_nth)
      show "s \<le> vs ! (?k - 1) \<longleftrightarrow> s \<le> x"
      proof
        assume "s \<le> vs ! (?k - 1)" then show "s \<le> x" using kx by simp
      next
        assume "s \<le> x"
        then have "j \<le> ?k - 1" using bisect_right_iff [OF so j(1), of x] j(2) by simp
        then show "s \<le> vs ! (?k - 1)" using sorted_nth_mono [OF so _ k(1)] j(2) by blast
      qed
    qed
    then show ?thesis using False k(1) ok by (simp add: vol_ok_def Let_def)
  qed
qed

lemma bisect_left_strict:
  assumes "sorted (vs :: int list)" "vs \<noteq> []" "s \<le> last vs"
  shows "bisect_left vs s < length vs \<and> s \<le> vs ! bisect_left vs s"
proof -
  let ?i = "bisect_left vs s"
  have l: "length vs - 1 < length vs" using assms(2) by simp
  have "\<not> length vs - 1 < ?i"
    using bisect_left_iff [OF assms(1) l, of s] assms(2,3) by (simp add: last_conv_nth)
  then have i: "?i < length vs" using l by simp
  then show ?thesis using bisect_left_iff [OF assms(1) i, of s] by simp
qed

lemma insert_at_nth:
  assumes "i \<le> length vs" "j < Suc (length vs)"
  shows "insert_at i x vs ! j = (if j < i then vs ! j else if j = i then x else vs ! (j - 1))"
  using assms by (auto simp: insert_at_def nth_append nth_Cons' min_def)

lemma length_insert_at [simp]: "i \<le> length vs \<Longrightarrow> length (insert_at i x vs) = Suc (length vs)"
  by (simp add: insert_at_def)

lemma map_insert_at: "map f (insert_at i x vs) = insert_at i (f x) (map f vs)"
  by (simp add: insert_at_def take_map drop_map)

lemma on_trade_vol:
  assumes ok: "vol_ok h (e_vsec e) (e_vcum e)"
  shows "vol_ok (if sd = 0 \<or> q \<le> 0 then h else h @ [(s, q)])
    (e_vsec (eng_on_trade s q sd e)) (e_vcum (eng_on_trade s q sd e))"
proof (cases "sd = 0 \<or> q \<le> 0")
  case True
  then show ?thesis using ok by (simp add: eng_on_trade_def)
next
  case go: False
  let ?vs = "e_vsec e" and ?h = "h @ [(s, q)]"
  have st: "sorted_wrt (<) ?vs" and vc: "e_vcum e = map (vol_sum h) ?vs"
    and mem: "\<forall>(s, q)\<in>set h. s \<in> set ?vs" using ok by (simp_all add: vol_ok_def)
  have so: "sorted ?vs" by (rule sorted_strict [OF st])
  consider (same) "?vs \<noteq> []" "s = last ?vs" | (new) "?vs = [] \<or> last ?vs < s"
    | (late) "?vs \<noteq> []" "s < last ?vs" by force
  then show ?thesis
  proof cases
    case same
    have idx: "j < length ?vs - 1 \<longleftrightarrow> ?vs ! j < s" if "j < length ?vs" for j
    proof -
      have last: "last ?vs = ?vs ! (length ?vs - 1)" using same(1) by (rule last_conv_nth)
      show ?thesis
      proof (cases "j = length ?vs - 1")
        case True
        then show ?thesis using same(2) last by simp
      next
        case False
        then have "?vs ! j < ?vs ! (length ?vs - 1)"
          using that by (intro sorted_wrt_nth_less [OF st]) auto
        then show ?thesis using False that same(2) last by simp
      qed
    qed
    have "add_from (length ?vs - 1) q (map (vol_sum h) ?vs) = map (vol_sum ?h) ?vs"
      by (rule add_from_vol [OF _ idx]) simp_all
    then show ?thesis
      using same go mem vc by (auto simp: vol_ok_def eng_on_trade_def st)
  next
    case new
    have upd: "map (vol_sum ?h) ?vs = map (vol_sum h) ?vs"
    proof (rule map_cong [OF refl])
      fix x assume x: "x \<in> set ?vs"
      then have "x \<le> last ?vs" by (rule le_last [OF so])
      then show "vol_sum ?h x = vol_sum h x" using new x by (auto simp: vol_sum_append)
    qed
    have lastv: "(if e_vcum e = [] then 0 else last (e_vcum e)) = vol_sum h s"
    proof (cases "?vs = []")
      case True
      then have "h = []" using mem by (cases h) auto
      then show ?thesis using True vc by (simp add: vol_sum_def)
    next
      case False
      have "vol_sum h (last ?vs) = vol_sum h s"
      proof (rule vol_sum_same)
        fix a b assume "(a, b) \<in> set h"
        then have "a \<in> set ?vs" using mem by auto
        then have "a \<le> last ?vs" by (rule le_last [OF so])
        then show "a \<le> last ?vs \<longleftrightarrow> a \<le> s" using new False by auto
      qed
      then show ?thesis using False vc by (simp add: last_map)
    qed
    have "\<forall>x\<in>set ?vs. x < s" using new le_last [OF so] by fastforce
    then have "vol_ok ?h (?vs @ [s]) (e_vcum e @ [vol_sum h s + q])"
      using st mem vc upd
      by (auto simp: vol_ok_def sorted_wrt_append vol_sum_append)
    then show ?thesis using new go lastv by (auto simp: eng_on_trade_def)
  next
    case late
    let ?i = "bisect_left ?vs s"
    have i: "?i < length ?vs" "s \<le> ?vs ! ?i" using bisect_left_strict [OF so late(1)] late(2) by auto
    have lt: "j < ?i \<longleftrightarrow> ?vs ! j < s" if "j < length ?vs" for j
      using bisect_left_iff [OF so that] .
    show ?thesis
    proof (cases "?vs ! ?i = s")
      case True
      have "add_from ?i q (map (vol_sum h) ?vs) = map (vol_sum ?h) ?vs"
        using i lt by (intro add_from_vol) auto
      moreover have "s \<in> set ?vs" using True i(1) by (metis nth_mem)
      ultimately show ?thesis
        using True late go mem vc by (auto simp: vol_ok_def eng_on_trade_def Let_def st)
    next
      case False
      let ?ws = "insert_at ?i s ?vs"
      have gt: "s < ?vs ! j" if "?i \<le> j" "j < length ?vs" for j
        using sorted_nth_mono [OF so that] i(2) False by simp
      have notin: "s \<notin> set ?vs" using lt gt by (fastforce simp: in_set_conv_nth not_less)
      have "bisect_right ?vs s = ?i"
        unfolding bisect_right_count [OF so] bisect_left_count [OF so]
        using notin by (intro arg_cong [where f = length] filter_cong) (auto simp: order_le_less)
      then have base: "(if ?i = 0 then 0 else e_vcum e ! (?i - 1)) = vol_sum h s"
        using vol_lookup [OF ok, of s] by (simp add: Let_def)
      have sw: "sorted_wrt (<) ?ws"
      proof -
        have "\<forall>x\<in>set (take ?i ?vs). x < s" using lt by (auto simp: in_set_conv_nth)
        moreover have "\<forall>y\<in>set (drop ?i ?vs). s < y" using gt by (auto simp: in_set_conv_nth)
        moreover have "sorted_wrt (<) (take ?i ?vs @ drop ?i ?vs)" using st by simp
        ultimately show ?thesis unfolding insert_at_def sorted_wrt_append by auto
      qed
      have "add_from ?i q (map (vol_sum h) ?ws) = map (vol_sum ?h) ?ws"
      proof (rule add_from_vol)
        show "?i \<le> length ?ws" using i(1) by simp
        fix j assume "j < length ?ws"
        then have jl: "j < Suc (length ?vs)" using i(1) by simp
        show "j < ?i \<longleftrightarrow> ?ws ! j < s"
        proof (cases "?i < j")
          case True
          then have "s < ?vs ! (j - 1)" using jl by (intro gt) auto
          then show ?thesis using True i(1) jl by (simp add: insert_at_nth)
        next
          case False
          then show ?thesis using i(1) lt [of j] jl by (auto simp: insert_at_nth)
        qed
      qed
      moreover have "set ?ws = insert s (set ?vs)"
      proof -
        have "set ?ws = insert s (set (take ?i ?vs) \<union> set (drop ?i ?vs))" by (simp add: insert_at_def)
        also have "\<dots> = insert s (set ?vs)" by (simp only: set_append [symmetric] append_take_drop_id)
        finally show ?thesis .
      qed
      ultimately show ?thesis
        using False late go mem vc sw base i(1)
        by (auto simp: vol_ok_def eng_on_trade_def Let_def map_insert_at)
    qed
  qed
qed

text \<open>The engine's volume is exact for trades in any order: after any sequence of prints,
  late ones included, the cumulative lookup at second \<open>x\<close> is the total quantity of the
  directed trades up to \<open>x\<close>.\<close>

theorem engine_volume:
  "eng_vol_upto (fold (\<lambda>(s, q, sd). eng_on_trade s q sd) ts (eng_init p base mk)) x
   = (\<Sum>(s, q, sd)\<leftarrow>ts. if sd \<noteq> 0 \<and> 0 < q \<and> s \<le> x then q else 0)"
proof -
  let ?run = "\<lambda>ts. fold (\<lambda>(s, q, sd). eng_on_trade s q sd) ts (eng_init p base mk)"
  have "\<exists>h. vol_ok h (e_vsec (?run ts)) (e_vcum (?run ts))
    \<and> (\<forall>x. vol_sum h x = (\<Sum>(s, q, sd)\<leftarrow>ts. if sd \<noteq> 0 \<and> 0 < q \<and> s \<le> x then q else 0))"
  proof (induction ts rule: rev_induct)
    case Nil
    then show ?case by (intro exI [of _ "[]"]) (simp add: eng_init_def vol_ok_def vol_sum_def)
  next
    case (snoc t ts)
    obtain s q sd where t: "t = (s, q, sd)" by (cases t) auto
    obtain h where h: "vol_ok h (e_vsec (?run ts)) (e_vcum (?run ts))"
      "\<forall>x. vol_sum h x = (\<Sum>(s, q, sd)\<leftarrow>ts. if sd \<noteq> 0 \<and> 0 < q \<and> s \<le> x then q else 0)"
      using snoc by blast
    show ?case
      using on_trade_vol [OF h(1), of sd q s] h(2) unfolding t
      by (intro exI [of _ "if sd = 0 \<or> q \<le> 0 then h else h @ [(s, q)]"])
        (auto simp: vol_sum_append)
  qed
  then obtain h where "vol_ok h (e_vsec (?run ts)) (e_vcum (?run ts))"
    "vol_sum h x = (\<Sum>(s, q, sd)\<leftarrow>ts. if sd \<noteq> 0 \<and> 0 < q \<and> s \<le> x then q else 0)" by blast
  then show ?thesis using vol_lookup by (simp add: eng_vol_upto_def)
qed

subsection \<open>No look-ahead\<close>

datatype eng_in =
    Quote real real real real real bool bool
  | FutQuote real real real real real
  | Print int int int

fun eng_feed :: "eng_in \<Rightarrow> eng \<Rightarrow> eng" where
  "eng_feed (Quote ts b bq a aq cont in_session) e = eng_on_quote ts b bq a aq cont in_session e"
| "eng_feed (FutQuote ts b bq a aq) e = eng_on_fut_quote ts b bq a aq e"
| "eng_feed (Print sec q sd) e = eng_on_trade sec q sd e"

fun quote_times :: "eng_in list \<Rightarrow> real list" where
  "quote_times [] = []"
| "quote_times (Quote ts b bq a aq cont in_session # ins) = ts # quote_times ins"
| "quote_times (_ # ins) = quote_times ins"

lemma quote_times_append [simp]: "quote_times (xs @ ys) = quote_times xs @ quote_times ys"
  by (induction xs rule: quote_times.induct) simp_all

text \<open>The fields a decision reads.\<close>

definition decision_view :: "eng \<Rightarrow> params \<times> real list \<times> real list \<times> real list \<times> real list \<times> int list \<times> int list" where
  "decision_view e = (e_p e, e_auct e, e_ts e, e_mid e, e_cum e, e_vsec e, e_vcum e)"

text \<open>What is read at a time: the mid and the cumulative flow of the last quote up to it.\<close>

definition mid_at :: "eng \<Rightarrow> real \<Rightarrow> real option" where
  "mid_at e x = map_option (\<lambda>i. e_mid e ! i) (idx_upto (e_ts e) x)"

definition cum_at :: "eng \<Rightarrow> real \<Rightarrow> real option" where
  "cum_at e x = map_option (\<lambda>i. e_cum e ! i) (idx_upto (e_ts e) x)"

definition same_reads :: "params \<Rightarrow> int \<Rightarrow> eng \<Rightarrow> eng \<Rightarrow> bool" where
  "same_reads p T e e' \<longleftrightarrow>
     (let c = T - pm_guard p; lo_vol = c - pm_ofi_win p - pm_vol_win p
      in eng_auct_in e (of_int (lo_vol - pm_vi_pad p)) (of_int c) True
           = eng_auct_in e' (of_int (lo_vol - pm_vi_pad p)) (of_int c) True
         \<and> mid_at e (of_int (c - pm_move_win p)) = mid_at e' (of_int (c - pm_move_win p))
         \<and> mid_at e (of_int c) = mid_at e' (of_int c) \<and> cum_at e (of_int c) = cum_at e' (of_int c)
         \<and> cum_at e (of_int (c - pm_ofi_win p)) = cum_at e' (of_int (c - pm_ofi_win p))
         \<and> eng_vol_upto e (c - pm_ofi_win p) = eng_vol_upto e' (c - pm_ofi_win p)
         \<and> eng_vol_upto e lo_vol = eng_vol_upto e' lo_vol)"

lemma features_cong:
  assumes "e_p e = p" "e_p e' = p" "same_reads p T e e'"
  shows "eng_features T e = eng_features T e'"
proof -
  let ?c = "T - pm_guard p"
  have ofi: "(case idx_upto (e_ts e) x of None \<Rightarrow> 0 | Some io \<Rightarrow> e_cum e ! io)
      = (case cum_at e x of None \<Rightarrow> 0 | Some v \<Rightarrow> v)" for e x
    by (simp add: cum_at_def split: option.split)
  have alt: "eng_features T e =
     (let lo_vol = ?c - pm_ofi_win p - pm_vol_win p
      in if lo_vol < pm_session_open p \<or> ?c - pm_move_win p < pm_session_open p then Inr None
         else if eng_auct_in e (of_int (lo_vol - pm_vi_pad p)) (of_int ?c) True then Inr None
         else case mid_at e (of_int (?c - pm_move_win p)) of None \<Rightarrow> Inr None
          | Some ma \<Rightarrow> (case mid_at e (of_int ?c) of None \<Rightarrow> Inr None
          | Some mb \<Rightarrow> if mb \<le> 0 \<or> ma \<le> 0 then Inl ()
            else (let past = (ln mb - ln ma) * 10000
              in if \<bar>past\<bar> < pm_move_bp p then Inr None
                 else (let ofi = the (cum_at e (of_int ?c)) -
                        (case cum_at e (of_int (?c - pm_ofi_win p)) of None \<Rightarrow> 0 | Some v \<Rightarrow> v);
                      vol = eng_vol_upto e (?c - pm_ofi_win p) - eng_vol_upto e lo_vol;
                      per_min = of_int vol / (of_int (pm_vol_win p) / 60)
                  in if \<not> 0 < per_min then Inr None
                     else Inr (Some \<lparr>past_bp = past, ofi1m = ofi, vol_per_min = per_min,
                            ofi_ratio = ofi / per_min, mid_start = ma, mid_cut = mb\<rparr>)))))"
    if "e_p e = p" for e
    unfolding eng_features_def that Let_def ofi
    by (simp add: mid_at_def cum_at_def split: option.split)
  show ?thesis
    unfolding alt [OF assms(1)] alt [OF assms(2)] using assms(3) unfolding same_reads_def Let_def
    by (elim conjE) (simp only:)
qed

lemma features_view: "decision_view e = decision_view e' \<Longrightarrow> eng_features T e = eng_features T e'"
  by (rule features_cong [OF refl])
    (simp_all add: decision_view_def same_reads_def eng_auct_in_def eng_vol_upto_def mid_at_def
      cum_at_def Let_def)

lemma close_view [simp]: "decision_view (eng_close pos i why e) = decision_view e"
  by (simp add: eng_close_def decision_view_def Let_def)

lemma check_exit_view [simp]: "decision_view (eng_check_exit pos i e) = decision_view e"
  by (simp add: eng_check_exit_def Let_def)

lemma check_newest_view [simp]: "decision_view (check_newest lg e) = decision_view e"
  by (simp add: check_newest_def split: option.split)

lemma fut_quote_view [simp]: "decision_view (eng_on_fut_quote ts b bq a aq e) = decision_view e"
proof -
  have x: "decision_view (e'\<lparr>e_xts := x, e_xbid := y, e_xask := z\<rparr>) = decision_view e'" for e' x y z
    by (simp add: decision_view_def)
  have f: "decision_view (e'\<lparr>e_fts := u, e_fbid := v, e_fask := w, e_fbq := y, e_faq := z\<rparr>)
      = decision_view e'" for e' u v w y z
    by (simp add: decision_view_def)
  show ?thesis by (simp add: eng_on_fut_quote_def Let_def x f)
qed

definition data_ok :: "eng \<Rightarrow> bool" where
  "data_ok e \<longleftrightarrow> sorted (e_ts e) \<and> sorted (e_auct e) \<and> length (e_mid e) = length (e_ts e)
     \<and> length (e_cum e) = length (e_ts e) \<and> (\<exists>h. vol_ok h (e_vsec e) (e_vcum e))"

lemma data_ok_view: "decision_view e = decision_view e' \<Longrightarrow> data_ok e = data_ok e'"
  by (simp add: decision_view_def data_ok_def)

definition times_upto :: "eng \<Rightarrow> real \<Rightarrow> bool" where
  "times_upto e t \<longleftrightarrow> (\<forall>x\<in>set (e_ts e) \<union> set (e_auct e). x \<le> t)"

lemma times_upto_mono: "times_upto e s \<Longrightarrow> s \<le> t \<Longrightarrow> times_upto e t"
  unfolding times_upto_def by (blast intro: order_trans)

lemma times_upto_view: "decision_view e = decision_view e' \<Longrightarrow> times_upto e t = times_upto e' t"
  by (simp add: decision_view_def times_upto_def)

lemma quote_data_ok:
  assumes "data_ok e" "times_upto e ts"
  shows "data_ok (eng_on_quote ts b bq a aq cont ses e)" "times_upto (eng_on_quote ts b bq a aq cont ses e) ts"
  using assms by (auto simp: data_ok_def times_upto_def eng_on_quote_def Let_def sorted_append)

lemma on_trade_fields [simp]:
  "e_ts (eng_on_trade s q sd e) = e_ts e" "e_auct (eng_on_trade s q sd e) = e_auct e"
  "e_mid (eng_on_trade s q sd e) = e_mid e" "e_cum (eng_on_trade s q sd e) = e_cum e"
  "e_p (eng_on_trade s q sd e) = e_p e"
  by (simp_all add: eng_on_trade_def Let_def)

lemma trade_data_ok:
  assumes "data_ok e" shows "data_ok (eng_on_trade s q sd e)"
proof -
  obtain h where h: "vol_ok h (e_vsec e) (e_vcum e)" using assms by (auto simp: data_ok_def)
  then have "\<exists>h. vol_ok h (e_vsec (eng_on_trade s q sd e)) (e_vcum (eng_on_trade s q sd e))"
    using on_trade_vol [OF h] by blast
  then show ?thesis using assms by (simp add: data_ok_def)
qed

lemma feed_data_ok:
  "sorted (quote_times ins) \<Longrightarrow> data_ok (fold eng_feed ins (eng_init p base mk))
   \<and> (\<forall>t. (\<forall>x\<in>set (quote_times ins). x \<le> t) \<longrightarrow> times_upto (fold eng_feed ins (eng_init p base mk)) t)
   \<and> e_p (fold eng_feed ins (eng_init p base mk)) = p"
proof (induction ins rule: rev_induct)
  case Nil
  have "vol_ok [] [] []" by (simp add: vol_ok_def)
  then have "\<exists>h. vol_ok h [] []" by blast
  then show ?case by (simp add: data_ok_def times_upto_def eng_init_def)
next
  case (snoc i ins)
  let ?e = "fold eng_feed ins (eng_init p base mk)"
  have IH: "data_ok ?e" "e_p ?e = p"
    "\<And>t. \<forall>x\<in>set (quote_times ins). x \<le> t \<Longrightarrow> times_upto ?e t"
    using snoc by (simp_all add: sorted_append)
  show ?case
  proof (cases i)
    case (Quote ts b bq a aq cont ses)
    have t: "times_upto ?e ts" using snoc.prems Quote by (intro IH(3)) (simp add: sorted_append)
    have "e_p (eng_on_quote ts b bq a aq cont ses ?e) = p"
      using IH(2) by (simp add: eng_on_quote_def Let_def)
    then show ?thesis
      using quote_data_ok [OF IH(1) t, of b bq a aq cont ses] Quote by (auto intro: times_upto_mono)
  next
    case (FutQuote ts b bq a aq)
    have v: "decision_view (eng_on_fut_quote ts b bq a aq ?e) = decision_view ?e" by simp
    then have "e_p (eng_on_fut_quote ts b bq a aq ?e) = p" using IH(2) by (simp add: decision_view_def)
    then show ?thesis using FutQuote IH data_ok_view [OF v] times_upto_view [OF v] by simp
  next
    case (Print s q sd)
    then show ?thesis using IH trade_data_ok [OF IH(1)] by (simp add: times_upto_def)
  qed
qed

fun after_cutoff :: "params \<Rightarrow> int \<Rightarrow> eng_in \<Rightarrow> bool" where
  "after_cutoff p T (Quote ts b bq a aq cont ses) = (of_int (T - pm_guard p) < ts)"
| "after_cutoff p T (FutQuote ts b bq a aq) = True"
| "after_cutoff p T (Print s q sd) = (T - pm_guard p - pm_ofi_win p < s)"

lemma idx_upto_append:
  "sorted (xs @ [t]) \<Longrightarrow> x < t \<Longrightarrow> idx_upto (xs @ [t]) x = idx_upto xs x"
  by (simp add: idx_upto_def bisect_right_append)

lemma idx_upto_less: "sorted xs \<Longrightarrow> idx_upto xs x = Some i \<Longrightarrow> i < length xs"
  using bisect_right_le [of xs x] by (auto simp: idx_upto_def Let_def split: if_splits)

lemma vol_upto_feed:
  assumes "data_ok e" "x < s"
  shows "eng_vol_upto (eng_on_trade s q sd e) x = eng_vol_upto e x"
proof -
  obtain h where h: "vol_ok h (e_vsec e) (e_vcum e)" using assms by (auto simp: data_ok_def)
  show ?thesis
    using vol_lookup [OF on_trade_vol [OF h]] vol_lookup [OF h] assms(2)
    by (auto simp: eng_vol_upto_def vol_sum_append)
qed

lemma feature_step:
  assumes d: "data_ok e" and p: "e_p e = p" and i: "after_cutoff p T i"
    and t: "\<And>ts b bq a aq cont ses. i = Quote ts b bq a aq cont ses \<Longrightarrow> times_upto e ts"
    and pos: "0 \<le> pm_move_win p" "0 \<le> pm_ofi_win p" "0 \<le> pm_vol_win p" "0 \<le> pm_vi_pad p"
  shows "eng_features T (eng_feed i e) = eng_features T e"
proof (cases i)
  case (FutQuote ts b bq a aq)
  then show ?thesis by (auto intro: features_view)
next
  case (Print s q sd)
  let ?c = "T - pm_guard p"
  have "eng_vol_upto (eng_on_trade s q sd e) (?c - pm_ofi_win p) = eng_vol_upto e (?c - pm_ofi_win p)"
    "eng_vol_upto (eng_on_trade s q sd e) (?c - pm_ofi_win p - pm_vol_win p)
      = eng_vol_upto e (?c - pm_ofi_win p - pm_vol_win p)"
    using i Print pos by (auto intro!: vol_upto_feed [OF d])
  then show ?thesis
    unfolding Print eng_feed.simps using p
    by (intro features_cong [of _ p])
      (simp_all add: same_reads_def eng_auct_in_def mid_at_def cum_at_def Let_def)
next
  case (Quote ts b bq a aq cont ses)
  let ?e = "eng_on_quote ts b bq a aq cont ses e" and ?c = "T - pm_guard p"
  have tu: "times_upto e ts" by (rule t [OF Quote])
  have lt: "real_of_int ?c < ts" using i Quote by simp
  have so: "sorted (e_ts e @ [ts])" "sorted (e_auct e @ [ts])"
    using d tu by (auto simp: data_ok_def times_upto_def sorted_append)
  have shape: "e_p ?e = p" "e_vsec ?e = e_vsec e" "e_vcum ?e = e_vcum e"
    "e_auct ?e \<in> {e_auct e, e_auct e @ [ts]}"
    "(e_ts ?e = e_ts e \<and> e_mid ?e = e_mid e \<and> e_cum ?e = e_cum e)
     \<or> (\<exists>cu. e_ts ?e = e_ts e @ [ts] \<and> e_mid ?e = e_mid e @ [(b + a) / 2] \<and> e_cum ?e = e_cum e @ [cu])"
    using p by (auto simp: eng_on_quote_def Let_def)
  have at: "mid_at ?e x = mid_at e x \<and> cum_at ?e x = cum_at e x" if x: "x < ts" for x
    using shape(5)
  proof (elim disjE exE conjE)
    fix cu assume a: "e_ts ?e = e_ts e @ [ts]" "e_mid ?e = e_mid e @ [(b + a) / 2]"
      "e_cum ?e = e_cum e @ [cu]"
    have "k < length (e_ts e)" if "idx_upto (e_ts e) x = Some k" for k
      using that d by (intro idx_upto_less) (simp_all add: data_ok_def)
    then show ?thesis
      using d idx_upto_append [OF so(1) x]
      by (auto simp: mid_at_def cum_at_def a data_ok_def nth_append split: option.split intro!: option.map_cong0)
  qed (simp add: mid_at_def cum_at_def)
  have "bisect_right (e_auct ?e) x = bisect_right (e_auct e) x
      \<and> bisect_left (e_auct ?e) x = bisect_left (e_auct e) x" if "x < ts" for x
    using shape(4) so(2) that by (auto simp: bisect_left_append bisect_right_append)
  then have au: "eng_auct_in ?e x y True = eng_auct_in e x y True" if "x < ts" "y < ts" for x y
    using that by (simp add: eng_auct_in_def)
  have lt2: "real_of_int (?c - pm_move_win p) < ts" "real_of_int (?c - pm_ofi_win p) < ts"
    "real_of_int (?c - pm_ofi_win p - pm_vol_win p - pm_vi_pad p) < ts"
    using lt pos by linarith+
  have vol: "eng_vol_upto ?e x = eng_vol_upto e x" for x
    by (simp add: eng_vol_upto_def shape(2,3) Let_def)
  have "same_reads p T ?e e"
    unfolding same_reads_def Let_def
    by (simp only: at [OF lt] at [OF lt2(1)] at [OF lt2(2)] au [OF lt2(3) lt] vol)
  then show ?thesis unfolding Quote eng_feed.simps by (rule features_cong [OF shape(1) p])
qed

text \<open>C11: No look-ahead: the decision of second \<open>T\<close> is a function of the quotes up to \<open>T - guard\<close>
  and the prints up to the end of the volume window.  Feeding any later quotes, futures
  quotes or prints (even before the decision runs) does not change it.\<close>

theorem engine_no_lookahead:
  assumes "sorted (quote_times (ins @ later))" and "list_all (after_cutoff p T) later"
    and "0 \<le> pm_move_win p \<and> 0 \<le> pm_ofi_win p \<and> 0 \<le> pm_vol_win p \<and> 0 \<le> pm_vi_pad p"
  shows "eng_features T (fold eng_feed (ins @ later) (eng_init p base mk))
    = eng_features T (fold eng_feed ins (eng_init p base mk))"
  using assms(1,2)
proof (induction later rule: rev_induct)
  case (snoc i later)
  let ?e = "fold eng_feed (ins @ later) (eng_init p base mk)"
  have so: "sorted (quote_times (ins @ later))" using snoc.prems(1) by (auto simp: sorted_append)
  have d: "data_ok ?e" "e_p ?e = p"
    and tu: "\<And>t. \<forall>x\<in>set (quote_times (ins @ later)). x \<le> t \<Longrightarrow> times_upto ?e t"
    using feed_data_ok [OF so, of p base mk] by blast+
  have "eng_features T (eng_feed i ?e) = eng_features T ?e"
  proof (rule feature_step [OF d])
    show "after_cutoff p T i" using snoc.prems(2) by simp
    fix ts b bq a aq cont ses assume "i = Quote ts b bq a aq cont ses"
    then show "times_upto ?e ts" using snoc.prems(1) by (intro tu) (auto simp: sorted_append)
  qed (use assms(3) in simp_all)
  then show ?case using snoc.IH [OF so] snoc.prems(2) by simp
qed simp

theorem engine_no_lookahead_witness:
  "eng_features 40000 (fold eng_feed ([Quote 39000 10 1 11 1 True True] @ [Print 39990 5 1,
      Quote 40000 20 1 21 1 True True]) (eng_init default_params (Some 10) KOSPI))
   = eng_features 40000 (fold eng_feed [Quote 39000 10 1 11 1 True True]
       (eng_init default_params (Some 10) KOSPI))"
  by (rule engine_no_lookahead) (simp_all add: default_params_def)

subsection \<open>Pruning\<close>

lemma prune_fut_simps [simp]:
  "e_ts (prune_fut old e) = e_ts e" "e_mid (prune_fut old e) = e_mid e"
  "e_cum (prune_fut old e) = e_cum e" "e_auct (prune_fut old e) = e_auct e"
  "e_vsec (prune_fut old e) = e_vsec e" "e_vcum (prune_fut old e) = e_vcum e"
  "e_p (prune_fut old e) = e_p e"
  by (simp_all add: prune_fut_def Let_def)

lemma prune_exit_simps [simp]:
  "e_ts (prune_exit_quotes old e) = e_ts e" "e_mid (prune_exit_quotes old e) = e_mid e"
  "e_cum (prune_exit_quotes old e) = e_cum e" "e_auct (prune_exit_quotes old e) = e_auct e"
  "e_vsec (prune_exit_quotes old e) = e_vsec e" "e_vcum (prune_exit_quotes old e) = e_vcum e"
  "e_p (prune_exit_quotes old e) = e_p e"
  by (simp_all add: prune_exit_quotes_def Let_def)

lemma prune_quotes_simps [simp]:
  "e_auct (prune_quotes old e) = e_auct e" "e_vsec (prune_quotes old e) = e_vsec e"
  "e_vcum (prune_quotes old e) = e_vcum e" "e_p (prune_quotes old e) = e_p e"
  by (simp_all add: prune_quotes_def Let_def)

lemma prune_auct_simps [simp]:
  "e_ts (prune_auct old e) = e_ts e" "e_mid (prune_auct old e) = e_mid e"
  "e_cum (prune_auct old e) = e_cum e" "e_vsec (prune_auct old e) = e_vsec e"
  "e_vcum (prune_auct old e) = e_vcum e" "e_p (prune_auct old e) = e_p e"
  "e_auct (prune_auct old e) = drop (bisect_right (e_auct e) (of_int (old - 100))) (e_auct e)"
  by (simp_all add: prune_auct_def Let_def)

lemma prune_vol_simps [simp]:
  "e_ts (prune_vol old e) = e_ts e" "e_mid (prune_vol old e) = e_mid e"
  "e_cum (prune_vol old e) = e_cum e" "e_auct (prune_vol old e) = e_auct e"
  "e_p (prune_vol old e) = e_p e"
  "e_vsec (prune_vol old e) = drop (bisect_right (e_vsec e) (old - 100) - 1) (e_vsec e)"
  "e_vcum (prune_vol old e) = drop (bisect_right (e_vsec e) (old - 100) - 1) (e_vcum e)"
  by (simp_all add: prune_vol_def Let_def)

lemma prune_quotes_drop:
  "\<exists>k. (k = 0 \<or> k < bisect_right (e_ts e) (of_int old)) \<and> e_ts (prune_quotes old e) = drop k (e_ts e)
    \<and> e_mid (prune_quotes old e) = drop k (e_mid e) \<and> e_cum (prune_quotes old e) = drop k (e_cum e)"
proof (cases "0 < bisect_right (e_ts e) (of_int old) - 1 \<and> flat_all e")
  case True
  then show ?thesis
    by (intro exI [of _ "bisect_right (e_ts e) (of_int old) - 1"]) (auto simp: prune_quotes_def Let_def)
next
  case False
  then show ?thesis by (intro exI [of _ 0]) (auto simp: prune_quotes_def Let_def)
qed

lemma prune_shape:
  "\<exists>k ka kv. (k = 0 \<or> k < bisect_right (e_ts e) (of_int (s - keep_sec)))
    \<and> ka \<le> bisect_right (e_auct e) (of_int (s - keep_sec - 100))
    \<and> (kv = 0 \<or> kv < bisect_right (e_vsec e) (s - keep_sec - 100))
    \<and> e_ts (eng_prune s e) = drop k (e_ts e) \<and> e_mid (eng_prune s e) = drop k (e_mid e)
    \<and> e_cum (eng_prune s e) = drop k (e_cum e) \<and> e_auct (eng_prune s e) = drop ka (e_auct e)
    \<and> e_vsec (eng_prune s e) = drop kv (e_vsec e) \<and> e_vcum (eng_prune s e) = drop kv (e_vcum e)
    \<and> e_p (eng_prune s e) = e_p e"
proof (cases "s mod 60 = 0")
  case False
  then show ?thesis
    by (intro exI [of _ 0]) (simp add: eng_prune_def)
next
  case True
  obtain k where k: "k = 0 \<or> k < bisect_right (e_ts e) (of_int (s - keep_sec))"
    "e_ts (prune_quotes (s - keep_sec) e) = drop k (e_ts e)"
    "e_mid (prune_quotes (s - keep_sec) e) = drop k (e_mid e)"
    "e_cum (prune_quotes (s - keep_sec) e) = drop k (e_cum e)"
    using prune_quotes_drop [of e "s - keep_sec"] by blast
  show ?thesis
    by (intro exI [of _ k] exI [of _ "bisect_right (e_auct e) (of_int (s - keep_sec - 100))"]
        exI [of _ "bisect_right (e_vsec e) (s - keep_sec - 100) - 1"])
      (use True k in \<open>auto simp: eng_prune_def Let_def\<close>)
qed

lemma idx_upto_drop:
  assumes "sorted xs" "k = 0 \<or> k < bisect_right xs y" "y \<le> x"
  shows "idx_upto (drop k xs) x = map_option (\<lambda>i. i - k) (idx_upto xs x)
    \<and> (\<forall>i. idx_upto xs x = Some i \<longrightarrow> k \<le> i)"
proof (cases "k = 0")
  case True
  then show ?thesis by (cases "idx_upto xs x") simp_all
next
  case False
  then have k: "k < bisect_right xs x"
    using assms(2) bisect_right_mono [OF assms(1,3)] by simp
  then show ?thesis
    using bisect_right_drop [OF assms(1), of k x] by (auto simp: idx_upto_def Let_def)
qed

lemma drop_lookup:
  assumes "sorted xs" "k = 0 \<or> k < bisect_right xs y" "y \<le> x" "length ys = length xs"
  shows "map_option (\<lambda>i. drop k ys ! i) (idx_upto (drop k xs) x) = map_option (\<lambda>i. ys ! i) (idx_upto xs x)"
proof (cases "idx_upto xs x")
  case None
  then show ?thesis using idx_upto_drop [OF assms(1-3)] by simp
next
  case (Some i)
  then have "k \<le> i" "i < length ys"
    using idx_upto_drop [OF assms(1-3)] idx_upto_less [OF assms(1) Some] assms(4) by auto
  then show ?thesis using Some idx_upto_drop [OF assms(1-3)] by simp
qed

lemma auct_in_closed:
  assumes "sorted xs"
  shows "bisect_left xs lo < bisect_right xs hi \<longleftrightarrow> (\<exists>t\<in>set xs. lo \<le> t \<and> t \<le> hi)"
proof
  assume a: "bisect_left xs lo < bisect_right xs hi"
  let ?i = "bisect_left xs lo"
  have i: "?i < length xs" using a bisect_right_le [OF assms, of hi] by simp
  have "lo \<le> xs ! ?i" using bisect_left_iff [OF assms i, of lo] by simp
  moreover have "xs ! ?i \<le> hi" using bisect_right_iff [OF assms i, of hi] a by simp
  ultimately show "\<exists>t\<in>set xs. lo \<le> t \<and> t \<le> hi" using i nth_mem by blast
next
  assume "\<exists>t\<in>set xs. lo \<le> t \<and> t \<le> hi"
  then obtain i where i: "i < length xs" "lo \<le> xs ! i" "xs ! i \<le> hi" by (auto simp: in_set_conv_nth)
  then have "\<not> i < bisect_left xs lo" "i < bisect_right xs hi"
    using bisect_left_iff [OF assms i(1), of lo] bisect_right_iff [OF assms i(1), of hi] by simp_all
  then show "bisect_left xs lo < bisect_right xs hi" by simp
qed

lemma drop_auct:
  assumes so: "sorted xs" and ka: "ka \<le> bisect_right xs y" and lo: "(y :: real) < lo"
  shows "(\<exists>t\<in>set (drop ka xs). lo \<le> t \<and> t \<le> hi) \<longleftrightarrow> (\<exists>t\<in>set xs. lo \<le> t \<and> t \<le> hi)"
proof
  assume "\<exists>t\<in>set (drop ka xs). lo \<le> t \<and> t \<le> hi"
  then show "\<exists>t\<in>set xs. lo \<le> t \<and> t \<le> hi" using set_drop_subset [of ka xs] by blast
next
  assume "\<exists>t\<in>set xs. lo \<le> t \<and> t \<le> hi"
  then obtain j where j: "j < length xs" "lo \<le> xs ! j" "xs ! j \<le> hi" by (metis in_set_conv_nth)
  have "\<not> j < ka"
  proof
    assume "j < ka"
    then have "xs ! j \<le> y" using bisect_right_iff [OF so j(1), of y] ka by linarith
    then show False using j(2) lo by linarith
  qed
  then have "drop ka xs ! (j - ka) = xs ! j" "j - ka < length (drop ka xs)" using j(1) by simp_all
  then have "xs ! j \<in> set (drop ka xs)" using nth_mem by metis
  then show "\<exists>t\<in>set (drop ka xs). lo \<le> t \<and> t \<le> hi" using j(2,3) by blast
qed

text \<open>C12: Pruning is invisible: discarding the data older than the retention time, at any second
  \<open>s\<close>, changes no decision of that or a later second, as long as the windows fit into the
  retention.\<close>

theorem engine_prune_safe:
  assumes "data_ok e" and "s \<le> T" and "e_p e = p"
    and "0 \<le> pm_ofi_win p \<and> 0 \<le> pm_vol_win p"
    and "pm_guard p + pm_move_win p \<le> keep_sec \<and> pm_guard p + pm_ofi_win p \<le> keep_sec
         \<and> pm_guard p \<le> keep_sec"
    and "pm_guard p + pm_ofi_win p + pm_vol_win p + max 0 (pm_vi_pad p) < keep_sec + 100"
  shows "eng_features T (eng_prune s e) = eng_features T e"
proof -
  let ?cut = "s - keep_sec" and ?c = "T - pm_guard p" and ?e = "eng_prune s e"
  obtain k ka kv where k: "k = 0 \<or> k < bisect_right (e_ts e) (of_int ?cut)"
    and ka: "ka \<le> bisect_right (e_auct e) (of_int (?cut - 100))"
    and kv: "kv = 0 \<or> kv < bisect_right (e_vsec e) (?cut - 100)"
    and f: "e_ts ?e = drop k (e_ts e)" "e_mid ?e = drop k (e_mid e)" "e_cum ?e = drop k (e_cum e)"
      "e_auct ?e = drop ka (e_auct e)" "e_vsec ?e = drop kv (e_vsec e)"
      "e_vcum ?e = drop kv (e_vcum e)" "e_p ?e = e_p e"
    using prune_shape [of e s] by (elim exE conjE) (rule that; assumption)
  have so: "sorted (e_ts e)" "sorted (e_auct e)" "length (e_mid e) = length (e_ts e)"
    "length (e_cum e) = length (e_ts e)" using assms(1) by (simp_all add: data_ok_def)
  obtain h where h: "vol_ok h (e_vsec e) (e_vcum e)" using assms(1) by (auto simp: data_ok_def)
  then have sv: "sorted (e_vsec e)" "length (e_vcum e) = length (e_vsec e)"
    by (auto simp: vol_ok_def sorted_strict)
  have at: "mid_at ?e x = mid_at e x \<and> cum_at ?e x = cum_at e x" if "of_int ?cut \<le> x" for x
    using drop_lookup [OF so(1) k that so(3)] drop_lookup [OF so(1) k that so(4)]
    by (simp add: mid_at_def cum_at_def f)
  have vol: "eng_vol_upto ?e x = eng_vol_upto e x" if x: "?cut - 100 \<le> x" for x
  proof (cases "kv = 0")
    case True
    then show ?thesis by (simp add: eng_vol_upto_def f Let_def)
  next
    case False
    then have lt: "kv < bisect_right (e_vsec e) x"
      using kv bisect_right_mono [OF sv(1) x] by simp
    have k1: "bisect_right (drop kv (e_vsec e)) x = bisect_right (e_vsec e) x - kv"
      using bisect_right_drop [OF sv(1), of kv x] lt by simp
    have "drop kv (e_vcum e) ! (bisect_right (e_vsec e) x - kv - 1)
        = e_vcum e ! (bisect_right (e_vsec e) x - 1)"
      using lt bisect_right_le [OF sv(1), of x] sv(2) by simp
    then show ?thesis using lt by (simp add: eng_vol_upto_def f Let_def k1)
  qed
  have sd: "sorted (drop ka (e_auct e))" using so(2) by (rule sorted_wrt_drop)
  have au: "eng_auct_in ?e lo hi True = eng_auct_in e lo hi True" if lo: "of_int (?cut - 100) < lo" for lo hi
    by (simp only: eng_auct_in_def Let_def f if_True auct_in_closed [OF so(2)] auct_in_closed [OF sd]
        drop_auct [OF so(2) ka lo])
  have bi: "?cut \<le> ?c" "?cut \<le> ?c - pm_move_win p" "?cut \<le> ?c - pm_ofi_win p"
    "?cut - 100 < ?c - pm_ofi_win p - pm_vol_win p - pm_vi_pad p"
    "?cut - 100 \<le> ?c - pm_ofi_win p" "?cut - 100 \<le> ?c - pm_ofi_win p - pm_vol_win p"
    using assms(2,4,5,6) by linarith+
  have b: "real_of_int ?cut \<le> of_int ?c" "real_of_int ?cut \<le> of_int (?c - pm_move_win p)"
    "real_of_int ?cut \<le> of_int (?c - pm_ofi_win p)"
    "real_of_int (?cut - 100) < of_int (?c - pm_ofi_win p - pm_vol_win p - pm_vi_pad p)"
    using bi(1-4) by (simp_all only: of_int_le_iff of_int_less_iff)
  have "same_reads p T ?e e"
    unfolding same_reads_def Let_def
    by (simp only: at [OF b(1)] at [OF b(2)] at [OF b(3)] au [OF b(4)] vol [OF bi(5)] vol [OF bi(6)])
  then show ?thesis by (rule features_cong [of ?e p e T, rotated 2]) (use f(7) assms(3) in simp_all)
qed

theorem engine_prune_safe_witness:
  "eng_features 40020 (eng_prune 39960 (fold eng_feed [Quote 39000 10 1 11 1 True True,
      Quote 39050 12 1 13 1 True True, Quote 39600 14 1 15 1 True True]
      (eng_init default_params (Some 10) KOSPI)))
   = eng_features 40020 (fold eng_feed [Quote 39000 10 1 11 1 True True,
      Quote 39050 12 1 13 1 True True, Quote 39600 14 1 15 1 True True]
      (eng_init default_params (Some 10) KOSPI))"
proof -
  let ?ins = "[Quote 39000 10 1 11 1 True True, Quote 39050 12 1 13 1 True True,
      Quote 39600 14 1 15 1 True True]"
  have s: "sorted (quote_times ?ins)" by simp
  show ?thesis
    using feed_data_ok [OF s, of default_params "Some 10" KOSPI]
    by (intro engine_prune_safe [where p = default_params])
      (simp_all add: default_params_def keep_sec_def)
qed

end
