(* ===== verification/Engine_Exits.thy ===== *)
theory Engine_Exits
  imports Engine_Correct
begin

text \<open>
  The exits of the signal engine.  \<open>fut_hist\<close> is the list of futures quotes the engine has
  accepted; a quote touches an open position when its exit side is at or past the take-profit
  or the stop-loss price, between the entry quote and the deadline.  Whatever the order of
  quotes, prints and clock ticks, an open position has not been touched and a recorded trade
  was closed by the first quote that touched it, or at its deadline.
\<close>

type_synonym fut_quote = "real \<times> real \<times> real"

datatype eng_cmd = Feed eng_in | Advance int | Finish

fun eng_do :: "eng_cmd \<Rightarrow> eng \<Rightarrow> eng" where
  "eng_do (Feed i) e = eng_feed i e"
| "eng_do (Advance T) e = eng_advance T e"
| "eng_do Finish e = eng_finish e"

fun accepted :: "eng_cmd \<Rightarrow> fut_quote list" where
  "accepted (Feed (FutQuote ts b bq a aq)) =
     (if \<not> (0 < b \<and> b < a) \<and> (0 < b) = (0 < a) then [] else [(ts, max b 0, max a 0)])"
| "accepted _ = []"

definition fut_hist :: "eng_cmd list \<Rightarrow> fut_quote list" where
  "fut_hist cs = concat (map accepted cs)"

definition side_px :: "int \<Rightarrow> fut_quote \<Rightarrow> real" where
  "side_px sd q = (if sd < 0 then snd (snd q) else fst (snd q))"

text \<open>A quote that must close the position.\<close>

definition touches :: "params \<Rightarrow> eng_pos \<Rightarrow> fut_quote \<Rightarrow> bool" where
  "touches p pos q \<longleftrightarrow>
     ps_t_in pos < fst q \<and> of_int (ps_t_sig pos - keep_sec) < fst q \<and> fst q \<le> of_int (ps_deadline pos)
     \<and> 0 < side_px (ps_side pos) q
     \<and> (takes_profit p pos (side_px (ps_side pos) q) \<or> stops_loss p pos (side_px (ps_side pos) q))"

definition pos_of :: "params \<Rightarrow> eng_trade \<Rightarrow> eng_pos" where
  "pos_of p tr = \<lparr>ps_logic = tr_logic tr, ps_side = tr_side tr, ps_t_sig = tr_t_sig tr, ps_t_in = tr_t_in tr,
     ps_p_in = tr_p_in tr, ps_deadline = tr_t_sig tr + pm_hold p, ps_feat = tr_feat tr, ps_wait = False\<rparr>"

definition reason_ok :: "params \<Rightarrow> eng_trade \<Rightarrow> bool" where
  "reason_ok p tr =
     (let pos = pos_of p tr; in_time = tr_t_in tr < tr_t_out tr \<and> tr_t_out tr \<le> of_int (ps_deadline pos)
      in case tr_reason tr of
           TakeProfit \<Rightarrow> in_time \<and> takes_profit p pos (tr_p_out tr)
         | StopLoss \<Rightarrow> in_time \<and> stops_loss p pos (tr_p_out tr) \<and> \<not> takes_profit p pos (tr_p_out tr)
         | FiveMin \<Rightarrow> tr_t_out tr \<le> of_int (ps_deadline pos)
         | FiveMinAfterLimit \<Rightarrow> tr_t_in tr < tr_t_out tr
         | FiveMinDayEnd \<Rightarrow> True)"

definition trade_ok :: "params \<Rightarrow> fut_quote list \<Rightarrow> eng_trade \<Rightarrow> bool" where
  "trade_ok p H tr \<longleftrightarrow>
     tr_side tr = logic_side (tr_logic tr) \<and> 0 < tr_p_in tr \<and> 0 < tr_p_out tr
     \<and> tr_t_in tr \<le> of_int (tr_t_sig tr) \<and> tr_t_in tr \<le> tr_t_out tr
     \<and> (\<exists>q\<in>set H. fst q = tr_t_out tr \<and> side_px (tr_side tr) q = tr_p_out tr)
     \<and> tr_pnl_bp tr = of_int (tr_side tr) * ln (tr_p_out tr / tr_p_in tr) * 10000
     \<and> tr_net_bp tr = tr_pnl_bp tr - pm_cost_bp p
     \<and> reason_ok p tr \<and> (\<forall>q\<in>set H. fst q < tr_t_out tr \<longrightarrow> \<not> touches p (pos_of p tr) q)"

definition pos_ok :: "params \<Rightarrow> fut_quote list \<Rightarrow> logic \<Rightarrow> eng_pos \<Rightarrow> bool" where
  "pos_ok p H lg pos \<longleftrightarrow>
     ps_logic pos = lg \<and> ps_side pos = logic_side lg \<and> ps_deadline pos = ps_t_sig pos + pm_hold p
     \<and> ps_t_in pos \<le> of_int (ps_t_sig pos) \<and> 0 < ps_p_in pos
     \<and> (\<exists>b a. (ps_t_in pos, b, a) \<in> set H \<and> 0 < b \<and> 0 < a)"

definition untouched :: "params \<Rightarrow> fut_quote list \<Rightarrow> eng_pos \<Rightarrow> bool" where
  "untouched p H pos \<longleftrightarrow> (\<forall>q\<in>set H. \<not> touches p pos q)"

text \<open>The quote arrays against the history: pruned quotes are old, two-sided ones are positive.\<close>

definition x_ok :: "fut_quote list \<Rightarrow> int \<Rightarrow> eng \<Rightarrow> bool" where
  "x_ok H c e \<longleftrightarrow> (\<exists>k. e_xts e = map fst (drop k H) \<and> e_xbid e = map (fst \<circ> snd) (drop k H)
     \<and> e_xask e = map (snd \<circ> snd) (drop k H)
     \<and> (\<forall>q\<in>set (take k H). fst q \<le> of_int (c - keep_sec)))"

definition f_ok :: "fut_quote list \<Rightarrow> eng \<Rightarrow> bool" where
  "f_ok H e \<longleftrightarrow> sorted (e_fts e) \<and> length (e_fbid e) = length (e_fts e)
     \<and> length (e_fask e) = length (e_fts e)
     \<and> (\<forall>j<length (e_fts e). (e_fts e ! j, e_fbid e ! j, e_fask e ! j) \<in> set H
          \<and> 0 < e_fbid e ! j \<and> 0 < e_fask e ! j)"

definition base_inv :: "params \<Rightarrow> fut_quote list \<Rightarrow> int \<Rightarrow> eng \<Rightarrow> bool" where
  "base_inv p H c e \<longleftrightarrow> e_p e = p \<and> x_ok H c e \<and> f_ok H e
     \<and> (\<forall>lg pos. e_pos e lg = Some pos \<longrightarrow> pos_ok p H lg pos)
     \<and> (\<forall>tr\<in>set (e_trades e). trade_ok p H tr)"

definition exit_inv :: "params \<Rightarrow> fut_quote list \<Rightarrow> int \<Rightarrow> eng \<Rightarrow> bool" where
  "exit_inv p H c e \<longleftrightarrow> base_inv p H c e
     \<and> (\<forall>lg pos. e_pos e lg = Some pos \<longrightarrow> untouched p H pos)"

text \<open>The fields the exits depend on.\<close>

definition exit_view where
  "exit_view e = (e_p e, e_xts e, e_xbid e, e_xask e, (e_fts e, e_fbid e, e_fask e), e_pos e, e_trades e)"

lemma exit_inv_view: "exit_view e = exit_view e' \<Longrightarrow> exit_inv p H c e = exit_inv p H c e'"
  by (simp add: exit_view_def exit_inv_def base_inv_def x_ok_def f_ok_def)

lemma exit_inv_later: "exit_inv p H c e \<Longrightarrow> c \<le> d \<Longrightarrow> exit_inv p H d e"
proof -
  assume i: "exit_inv p H c e" and d: "c \<le> d"
  have "x_ok H d e"
  proof -
    obtain k where k: "e_xts e = map fst (drop k H)" "e_xbid e = map (fst \<circ> snd) (drop k H)"
      "e_xask e = map (snd \<circ> snd) (drop k H)" "\<forall>q\<in>set (take k H). fst q \<le> of_int (c - keep_sec)"
      using i by (auto simp: exit_inv_def base_inv_def x_ok_def)
    have "real_of_int (c - keep_sec) \<le> of_int (d - keep_sec)" using d by simp
    then have "\<forall>q\<in>set (take k H). fst q \<le> of_int (d - keep_sec)"
      using k(4) by (meson order_trans)
    then show ?thesis using k(1-3) unfolding x_ok_def by blast
  qed
  then show ?thesis using i by (simp add: exit_inv_def base_inv_def)
qed

subsection \<open>Closing\<close>

definition xq :: "eng \<Rightarrow> nat \<Rightarrow> fut_quote" where
  "xq e i = (e_xts e ! i, e_xbid e ! i, e_xask e ! i)"

lemma exit_px_xq: "exit_px e pos i = side_px (ps_side pos) (xq e i)"
  by (simp add: exit_px_def side_px_def xq_def)

lemma x_drop:
  assumes "x_ok H c e"
  obtains k where "length (e_xts e) = length H - k" "\<And>i. i < length (e_xts e) \<Longrightarrow> xq e i = H ! (k + i)"
    "\<And>q. q \<in> set (take k H) \<Longrightarrow> fst q \<le> of_int (c - keep_sec)" "e_xts e = map fst (drop k H)"
proof -
  obtain k where k: "e_xts e = map fst (drop k H)" "e_xbid e = map (fst \<circ> snd) (drop k H)"
    "e_xask e = map (snd \<circ> snd) (drop k H)" "\<forall>q\<in>set (take k H). fst q \<le> of_int (c - keep_sec)"
    using assms by (auto simp: x_ok_def)
  show ?thesis
  proof (rule that [of k])
    fix i assume "i < length (e_xts e)"
    then show "xq e i = H ! (k + i)" using k(1-3) by (simp add: xq_def)
  qed (use k in simp_all)
qed

lemma x_in:
  assumes "x_ok H c e" "i < length (e_xts e)" shows "xq e i \<in> set H"
proof -
  obtain k where k: "length (e_xts e) = length H - k"
    "\<And>i. i < length (e_xts e) \<Longrightarrow> xq e i = H ! (k + i)" by (rule x_drop [OF assms(1)]) blast
  have "k + i < length H" using assms(2) k(1) by simp
  then show ?thesis using k(2) [OF assms(2)] by simp
qed

text \<open>A quote of the history is old, or still in the arrays.\<close>

lemma x_cases:
  assumes "x_ok H c e" "q \<in> set H"
  shows "fst q \<le> of_int (c - keep_sec) \<or> (\<exists>i<length (e_xts e). xq e i = q)"
proof -
  obtain k where k: "length (e_xts e) = length H - k"
    "\<And>i. i < length (e_xts e) \<Longrightarrow> xq e i = H ! (k + i)"
    "\<And>q. q \<in> set (take k H) \<Longrightarrow> fst q \<le> of_int (c - keep_sec)" by (rule x_drop [OF assms(1)]) blast
  obtain j where j: "j < length H" "H ! j = q" using assms(2) by (auto simp: in_set_conv_nth)
  show ?thesis
  proof (cases "j < k")
    case True
    then have "q \<in> set (take k H)" using j by (auto simp: in_set_conv_nth)
    then show ?thesis using k(3) by blast
  next
    case False
    then have "j - k < length (e_xts e)" "xq e (j - k) = q" using j k(1) k(2) [of "j - k"] by auto
    then show ?thesis by blast
  qed
qed

lemma xts_nth: "e_xts e ! i = fst (xq e i)"
  by (simp add: xq_def)

lemma xts_sorted: "x_ok H c e \<Longrightarrow> sorted (map fst H) \<Longrightarrow> sorted (e_xts e)"
  by (erule x_drop) (simp add: drop_map [symmetric] sorted_wrt_drop)

lemma touches_wait [simp]: "touches p (pos\<lparr>ps_wait := w\<rparr>) q = touches p pos q"
  by (simp add: touches_def takes_profit_def stops_loss_def)

lemma base_inv_slot: "base_inv p H c e \<Longrightarrow> e_pos e lg = Some pos \<Longrightarrow> pos_ok p H lg pos"
  by (simp add: base_inv_def)

lemma close_ok:
  assumes inv: "base_inv p H c e" and pos: "e_pos e lg = Some pos" and i: "i < length (e_xts e)"
    and px: "0 < exit_px e pos i" and ti: "ps_t_in pos \<le> e_xts e ! i"
    and before: "\<And>q. q \<in> set H \<Longrightarrow> fst q < e_xts e ! i \<Longrightarrow> \<not> touches p pos q"
    and why: "\<And>tr. tr_reason tr = why \<Longrightarrow> tr_t_in tr = ps_t_in pos \<Longrightarrow> tr_t_out tr = e_xts e ! i
      \<Longrightarrow> tr_p_out tr = exit_px e pos i \<Longrightarrow> pos_of p tr = pos\<lparr>ps_wait := False\<rparr> \<Longrightarrow> reason_ok p tr"
  shows "base_inv p H c (eng_close pos i why e) \<and> e_pos (eng_close pos i why e) = (e_pos e)(lg := None)
    \<and> e_xts (eng_close pos i why e) = e_xts e \<and> xq (eng_close pos i why e) = xq e"
proof -
  have ok: "pos_ok p H lg pos" "e_p e = p" "x_ok H c e"
    using inv pos by (auto simp: base_inv_def)
  define tr where "tr = \<lparr>tr_logic = ps_logic pos, tr_side = ps_side pos, tr_t_sig = ps_t_sig pos,
      tr_t_in = ps_t_in pos, tr_p_in = ps_p_in pos, tr_t_out = e_xts e ! i, tr_p_out = exit_px e pos i,
      tr_reason = why, tr_feat = ps_feat pos,
      tr_pnl_bp = of_int (ps_side pos) * ln (exit_px e pos i / ps_p_in pos) * 10000,
      tr_net_bp = of_int (ps_side pos) * ln (exit_px e pos i / ps_p_in pos) * 10000 - pm_cost_bp (e_p e),
      tr_version = pm_version (e_p e)\<rparr>"
  have po: "pos_of p tr = pos\<lparr>ps_wait := False\<rparr>"
    using ok(1) by (simp add: pos_of_def tr_def pos_ok_def)
  have r: "reason_ok p tr" by (rule why) (simp_all add: tr_def po [unfolded tr_def])
  have t: "trade_ok p H tr"
    unfolding trade_ok_def
  proof (intro conjI)
    show "\<exists>q\<in>set H. fst q = tr_t_out tr \<and> side_px (tr_side tr) q = tr_p_out tr"
      by (rule bexI [OF _ x_in [OF ok(3) i]]) (simp add: tr_def exit_px_xq, simp add: xq_def)
    show "\<forall>q\<in>set H. fst q < tr_t_out tr \<longrightarrow> \<not> touches p (pos_of p tr) q"
      unfolding po using before by (simp add: tr_def)
  qed (use ok px ti r in \<open>simp_all add: tr_def pos_ok_def\<close>)
  have c: "eng_close pos i why e = e\<lparr>e_trades := e_trades e @ [tr],
      e_pos := (e_pos e)(ps_logic pos := None), e_free := (e_free e)(ps_logic pos := e_xts e ! i)\<rparr>"
    using px by (simp add: eng_close_def Let_def tr_def)
  have lg: "ps_logic pos = lg" using ok(1) by (simp add: pos_ok_def)
  have "base_inv p H c (eng_close pos i why e)"
    using inv t unfolding c by (auto simp: base_inv_def x_ok_def f_ok_def)
  then show ?thesis by (simp add: c lg xq_def [abs_def])
qed

lemma check_exit_ok:
  assumes inv: "base_inv p H c e" and pos: "e_pos e lg = Some pos" and i: "i < length (e_xts e)"
    and before: "\<And>q. q \<in> set H \<Longrightarrow> fst q < e_xts e ! i \<Longrightarrow> \<not> touches p pos q"
  shows "\<exists>o'. base_inv p H c (eng_check_exit pos i e)
    \<and> e_pos (eng_check_exit pos i e) = (e_pos e)(lg := o')
    \<and> (o' = None \<or> o' = Some pos \<and> \<not> touches p pos (xq e i))
    \<and> e_xts (eng_check_exit pos i e) = e_xts e \<and> xq (eng_check_exit pos i e) = xq e"
proof -
  let ?t = "e_xts e ! i" and ?px = "exit_px e pos i"
  have p: "e_p e = p" using inv by (simp add: base_inv_def)
  have keep: "(e_pos e)(lg := Some pos) = e_pos e" using pos by auto
  have touch: "touches p pos (xq e i) \<longleftrightarrow> ps_t_in pos < ?t \<and> of_int (ps_t_sig pos - keep_sec) < ?t
      \<and> ?t \<le> of_int (ps_deadline pos) \<and> 0 < ?px \<and> (takes_profit p pos ?px \<or> stops_loss p pos ?px)"
    by (simp add: touches_def exit_px_xq xts_nth)
  have sp: "takes_profit p (pos\<lparr>ps_wait := False\<rparr>) ?px = takes_profit p pos ?px"
    "stops_loss p (pos\<lparr>ps_wait := False\<rparr>) ?px = stops_loss p pos ?px"
    by (simp_all add: takes_profit_def stops_loss_def)
  consider (stay) "eng_check_exit pos i e = e" "\<not> touches p pos (xq e i)"
    | (go) why where "eng_check_exit pos i e = eng_close pos i why e" "ps_t_in pos < ?t" "0 < ?px"
      "why = FiveMinAfterLimit \<or> ?t \<le> of_int (ps_deadline pos) \<and>
        (why = TakeProfit \<and> takes_profit p pos ?px \<or> why = StopLoss \<and> stops_loss p pos ?px \<and> \<not> takes_profit p pos ?px)"
  proof -
    have u: "eng_check_exit pos i e = (if ?t \<le> ps_t_in pos \<or> ?px \<le> 0 then e
        else if ps_wait pos then eng_close pos i FiveMinAfterLimit e
        else if of_int (ps_deadline pos) < ?t then e
        else if takes_profit p pos ?px then eng_close pos i TakeProfit e
        else if stops_loss p pos ?px then eng_close pos i StopLoss e else e)"
      by (simp add: eng_check_exit_def Let_def p)
    show ?thesis
    proof (cases "?t \<le> ps_t_in pos \<or> ?px \<le> 0 \<or> \<not> ps_wait pos \<and> (of_int (ps_deadline pos) < ?t
        \<or> \<not> takes_profit p pos ?px \<and> \<not> stops_loss p pos ?px)")
      case True
      then have "\<not> touches p pos (xq e i)" unfolding touch by linarith
      moreover have "eng_check_exit pos i e = e" unfolding u using True by (elim disjE conjE) simp_all
      ultimately show ?thesis using stay by blast
    next
      case False
      then have "ps_t_in pos < ?t" "0 < ?px" by linarith+
      moreover have "?t \<le> of_int (ps_deadline pos)" if "\<not> ps_wait pos" using False that by linarith
      ultimately show ?thesis
        using False go [of FiveMinAfterLimit] go [of TakeProfit] go [of StopLoss]
        by (cases "ps_wait pos"; cases "takes_profit p pos ?px") (simp_all add: u)
    qed
  qed
  then show ?thesis
  proof cases
    case stay
    then show ?thesis using inv keep by (intro exI [of _ "Some pos"]) simp
  next
    case (go why)
    have "reason_ok p tr" if "tr_reason tr = why" "tr_t_in tr = ps_t_in pos" "tr_t_out tr = ?t"
      "tr_p_out tr = ?px" "pos_of p tr = pos\<lparr>ps_wait := False\<rparr>" for tr
      using go(2,4) that by (auto simp: reason_ok_def Let_def sp)
    then show ?thesis
      using close_ok [OF inv pos i go(3) _ before, of why] go(1,2) by (intro exI [of _ None]) auto
  qed
qed

subsection \<open>A new futures quote\<close>

lemma check_newest_ok:
  assumes inv: "base_inv p H c e" and n: "i = length (e_xts e) - 1" "e_xts e \<noteq> []"
    and before: "\<And>pos q. e_pos e lg = Some pos \<Longrightarrow> q \<in> set H \<Longrightarrow> fst q < e_xts e ! i \<Longrightarrow> \<not> touches p pos q"
  shows "\<exists>o'. base_inv p H c (check_newest lg e) \<and> e_pos (check_newest lg e) = (e_pos e)(lg := o')
    \<and> (\<forall>pos. o' = Some pos \<longrightarrow> e_pos e lg = Some pos \<and> \<not> touches p pos (xq e i))
    \<and> e_xts (check_newest lg e) = e_xts e \<and> xq (check_newest lg e) = xq e"
proof (cases "e_pos e lg")
  case None
  then have "e_pos e = (e_pos e)(lg := None)" by auto
  then show ?thesis using inv None by (intro exI [of _ None]) (simp add: check_newest_def)
next
  case (Some pos)
  have i: "i < length (e_xts e)" using n by simp
  obtain o' where "base_inv p H c (eng_check_exit pos i e)"
    "e_pos (eng_check_exit pos i e) = (e_pos e)(lg := o')"
    "o' = None \<or> o' = Some pos \<and> \<not> touches p pos (xq e i)"
    "e_xts (eng_check_exit pos i e) = e_xts e" "xq (eng_check_exit pos i e) = xq e"
    using check_exit_ok [OF inv Some i before [OF Some]] by blast
  then show ?thesis using Some n(1) by (intro exI [of _ o']) (auto simp: check_newest_def)
qed

lemma trade_ok_extend:
  assumes "trade_ok p H tr" "\<And>t. t \<in> set (map fst H) \<Longrightarrow> t \<le> fst q"
  shows "trade_ok p (H @ [q]) tr"
proof -
  obtain x where x: "x \<in> set H" "fst x = tr_t_out tr" using assms(1) by (auto simp: trade_ok_def)
  have "fst x \<in> set (map fst H)" using x(1) by simp
  then have "tr_t_out tr \<le> fst q" unfolding x(2) by (rule assms(2))
  then show ?thesis using assms(1) by (auto simp: trade_ok_def)
qed

lemma base_inv_extend:
  assumes inv: "base_inv p H c e" and t: "\<And>t. t \<in> set (map fst H) \<Longrightarrow> t \<le> ts"
    and q: "q = (ts, b, a)" and ab: "two \<longrightarrow> 0 < b \<and> 0 < a"
    and e': "e' = (let e1 = (if two then e\<lparr>e_fts := e_fts e @ [ts], e_fbid := e_fbid e @ [b], e_fask := e_fask e @ [a],
        e_fbq := e_fbq e @ [bq], e_faq := e_faq e @ [aq]\<rparr> else e)
      in e1\<lparr>e_xts := e_xts e1 @ [ts], e_xbid := e_xbid e1 @ [b], e_xask := e_xask e1 @ [a]\<rparr>)"
  shows "base_inv p (H @ [q]) c e' \<and> e_pos e' = e_pos e"
proof -
  have f: "f_ok H e" and x: "x_ok H c e" using inv by (simp_all add: base_inv_def)
  have "x_ok (H @ [q]) c e'"
  proof -
    obtain k where k: "e_xts e = map fst (drop k H)" "e_xbid e = map (fst \<circ> snd) (drop k H)"
      "e_xask e = map (snd \<circ> snd) (drop k H)" "\<forall>q\<in>set (take k H). fst q \<le> of_int (c - keep_sec)"
      using x by (auto simp: x_ok_def)
    let ?k = "min k (length H)"
    have d: "drop ?k (H @ [q]) = drop k H @ [q]" "take ?k (H @ [q]) = take k H"
      by (simp_all add: min_def)
    show ?thesis unfolding x_ok_def
      by (rule exI [of _ ?k]) (simp only: d, use k q in \<open>simp add: e' Let_def\<close>)
  qed
  moreover have "f_ok (H @ [q]) e'"
  proof (cases two)
    case False
    then show ?thesis using f by (simp add: f_ok_def e')
  next
    case True
    have "\<forall>x\<in>set (e_fts e). x \<le> ts"
    proof
      fix x assume "x \<in> set (e_fts e)"
      then obtain j where "j < length (e_fts e)" "x = e_fts e ! j" by (auto simp: in_set_conv_nth)
      then have "x \<in> set (map fst H)" using f by (force simp: f_ok_def)
      then show "x \<le> ts" by (rule t)
    qed
    then show ?thesis using f True ab q
      by (auto simp: f_ok_def e' Let_def sorted_append nth_append less_Suc_eq)
  qed
  moreover have "pos_ok p (H @ [q]) lg pos" if "pos_ok p H lg pos" for lg pos
    using that by (auto simp: pos_ok_def)
  moreover have "trade_ok p (H @ [q]) tr" if "trade_ok p H tr" for tr
    using trade_ok_extend [OF that] t q by simp
  ultimately show ?thesis using inv by (auto simp: base_inv_def e' Let_def)
qed

lemma fut_quote_ok:
  assumes inv: "exit_inv p H c e" and so: "sorted (map fst H @ [ts])"
    and acc: "0 < b1 \<and> b1 < a1 \<or> (0 < b1) \<noteq> (0 < a1)"
  shows "exit_inv p (H @ [(ts, max b1 0, max a1 0)]) c (eng_on_fut_quote ts b1 bq a1 aq e)"
proof -
  let ?q = "(ts, max b1 0, max a1 0)" and ?two = "0 < b1 \<and> b1 < a1"
  define e2 where "e2 = (let e1 = (if ?two then e\<lparr>e_fts := e_fts e @ [ts], e_fbid := e_fbid e @ [max b1 0],
        e_fask := e_fask e @ [max a1 0], e_fbq := e_fbq e @ [bq], e_faq := e_faq e @ [aq]\<rparr> else e)
      in e1\<lparr>e_xts := e_xts e1 @ [ts], e_xbid := e_xbid e1 @ [max b1 0], e_xask := e_xask e1 @ [max a1 0]\<rparr>)"
  have run: "eng_on_fut_quote ts b1 bq a1 aq e = check_newest Logic2 (check_newest Logic1 e2)"
    using acc by (auto simp: eng_on_fut_quote_def e2_def Let_def max_def)
  have t: "t \<le> ts" if "t \<in> set (map fst H)" for t using so that by (auto simp: sorted_append)
  have b: "base_inv p (H @ [?q]) c e2 \<and> e_pos e2 = e_pos e"
    by (rule base_inv_extend [OF _ t refl _ e2_def]) (use inv in \<open>auto simp: exit_inv_def\<close>)
  have x2: "e_xts e2 = e_xts e @ [ts]" "xq e2 (length (e_xts e)) = ?q"
  proof -
    show "e_xts e2 = e_xts e @ [ts]" by (simp add: e2_def Let_def)
    have "length (e_xbid e) = length (e_xts e)" "length (e_xask e) = length (e_xts e)"
      using inv by (auto simp: exit_inv_def base_inv_def x_ok_def)
    then show "xq e2 (length (e_xts e)) = ?q" by (simp add: xq_def e2_def Let_def nth_append)
  qed
  have before: "\<not> touches p pos q" if "e_pos e lg = Some pos" "q \<in> set (H @ [?q])" "fst q < ts" for lg pos q
    using inv that by (auto simp: exit_inv_def untouched_def)
  let ?i = "length (e_xts e)"
  obtain o1 where o1: "base_inv p (H @ [?q]) c (check_newest Logic1 e2)"
    "e_pos (check_newest Logic1 e2) = (e_pos e)(Logic1 := o1)"
    "\<And>pos. o1 = Some pos \<Longrightarrow> e_pos e Logic1 = Some pos \<and> \<not> touches p pos ?q"
    "e_xts (check_newest Logic1 e2) = e_xts e2" "xq (check_newest Logic1 e2) = xq e2"
    using check_newest_ok [of p "H @ [?q]" c e2 ?i Logic1] b before x2 by (auto simp: nth_append)
  obtain o2 where o2: "base_inv p (H @ [?q]) c (check_newest Logic2 (check_newest Logic1 e2))"
    "e_pos (check_newest Logic2 (check_newest Logic1 e2)) = (e_pos e)(Logic1 := o1, Logic2 := o2)"
    "\<And>pos. o2 = Some pos \<Longrightarrow> e_pos e Logic2 = Some pos \<and> \<not> touches p pos ?q"
    using check_newest_ok [of p "H @ [?q]" c "check_newest Logic1 e2" ?i Logic2] o1 before x2
    by (auto simp: nth_append)
  have "untouched p (H @ [?q]) pos"
    if "e_pos (check_newest Logic2 (check_newest Logic1 e2)) lg = Some pos" for lg pos
  proof -
    have "e_pos e lg = Some pos \<and> \<not> touches p pos ?q"
      using that o1(3) o2(3) unfolding o2(2) by (cases lg) auto
    then show ?thesis using inv by (auto simp: exit_inv_def untouched_def)
  qed
  then show ?thesis unfolding run using o2(1) by (simp add: exit_inv_def)
qed

subsection \<open>Deadlines\<close>

lemma le_last_nat: "sorted (ns :: nat list) \<Longrightarrow> n \<in> set ns \<Longrightarrow> n \<le> last ns"
  by (induction ns rule: rev_induct) (auto simp: sorted_append)

lemma idx_bounds:
  assumes "sorted xs" "idx_upto xs x = Some i"
  shows "i < length xs" "xs ! i \<le> x" "\<And>j. j < length xs \<Longrightarrow> xs ! j \<le> x \<Longrightarrow> j \<le> i"
proof -
  have k: "bisect_right xs x = Suc i"
    using assms(2) by (auto simp: idx_upto_def Let_def split: if_splits)
  show l: "i < length xs" by (rule idx_upto_less [OF assms])
  show "xs ! i \<le> x" using bisect_right_iff [OF assms(1) l, of x] k by simp
  fix j assume "j < length xs" "xs ! j \<le> x"
  then show "j \<le> i" using bisect_right_iff [OF assms(1), of j x] k by simp
qed

text \<open>The entry quote is in the arrays or older than everything in them.\<close>

lemma entry_quote:
  assumes x: "x_ok H c e" and so: "sorted (map fst H)" and pos: "pos_ok p H lg pos"
  shows "(\<exists>j<length (e_xts e). e_xts e ! j = ps_t_in pos \<and> 0 < exit_px e pos j)
    \<or> (\<forall>i<length (e_xts e). ps_t_in pos \<le> e_xts e ! i)"
proof -
  obtain k where k: "length (e_xts e) = length H - k" "\<And>i. i < length (e_xts e) \<Longrightarrow> xq e i = H ! (k + i)"
    by (rule x_drop [OF x]) blast
  obtain b a where q: "(ps_t_in pos, b, a) \<in> set H" "0 < b" "0 < a" using pos by (auto simp: pos_ok_def)
  then obtain j where j: "j < length H" "H ! j = (ps_t_in pos, b, a)" by (auto simp: in_set_conv_nth)
  show ?thesis
  proof (cases "j < k")
    case True
    have "ps_t_in pos \<le> e_xts e ! i" if "i < length (e_xts e)" for i
    proof -
      have "map fst H ! j \<le> map fst H ! (k + i)"
        using True that k(1) by (intro sorted_nth_mono [OF so]) auto
      then show ?thesis using j k(1) that by (simp add: xts_nth k(2) [OF that])
    qed
    then show ?thesis by blast
  next
    case False
    then have l: "j - k < length (e_xts e)" using j(1) k(1) by simp
    then have "xq e (j - k) = (ps_t_in pos, b, a)" using False j(2) k(2) [OF l] by simp
    then have "e_xts e ! (j - k) = ps_t_in pos \<and> 0 < exit_px e pos (j - k)"
      using q by (simp add: xts_nth exit_px_xq side_px_def)
    then show ?thesis using l by blast
  qed
qed

lemma pos_ok_wait: "pos_ok p H lg (pos\<lparr>ps_wait := w\<rparr>) = pos_ok p H lg pos"
  by (simp add: pos_ok_def)

lemma set_wait_ok:
  assumes "exit_inv p H c e" "e_pos e lg = Some pos"
  shows "exit_inv p H c (e\<lparr>e_pos := (e_pos e)(ps_logic pos := Some (pos\<lparr>ps_wait := True\<rparr>))\<rparr>)"
proof -
  have "pos_ok p H lg pos" "untouched p H pos" "ps_logic pos = lg"
    using assms by (auto simp: exit_inv_def base_inv_def pos_ok_def)
  then show ?thesis
    using assms(1) by (auto simp: exit_inv_def base_inv_def x_ok_def f_ok_def pos_ok_wait untouched_def)
qed

lemma closed_ok:
  assumes inv: "exit_inv p H c e" and pos: "e_pos e lg = Some pos" and i: "i < length (e_xts e)"
    and px: "0 < exit_px e pos i" and ti: "ps_t_in pos \<le> e_xts e ! i"
    and why: "why = FiveMin \<and> e_xts e ! i \<le> of_int (ps_deadline pos) \<or> why = FiveMinDayEnd"
  shows "exit_inv p H c (eng_close pos i why e)"
proof -
  have "untouched p H pos" "base_inv p H c e" using inv pos by (auto simp: exit_inv_def)
  moreover have "reason_ok p tr" if "tr_reason tr = why" "tr_t_out tr = e_xts e ! i"
    "pos_of p tr = pos\<lparr>ps_wait := False\<rparr>" for tr
    using why that by (auto simp: reason_ok_def Let_def)
  ultimately have "base_inv p H c (eng_close pos i why e) \<and> e_pos (eng_close pos i why e) = (e_pos e)(lg := None)"
    using close_ok [OF _ pos i px ti, of p H c why] by (auto simp: untouched_def)
  then show ?thesis using inv by (auto simp: exit_inv_def)
qed

lemma time_exit_ok:
  assumes inv: "exit_inv p H c e" and so: "sorted (map fst H)" and pos: "e_pos e lg = Some pos"
    and s: "s = ps_deadline pos" and hold: "0 \<le> pm_hold p"
  shows "exit_inv p H c (eng_time_exit pos s e)"
proof (cases "idx_upto (e_xts e) (of_int s)")
  case None
  then show ?thesis using set_wait_ok [OF inv pos] by (simp add: eng_time_exit_def)
next
  case (Some i)
  have x: "x_ok H c e" and po: "pos_ok p H lg pos" using inv pos by (simp_all add: exit_inv_def base_inv_def)
  note ib = idx_bounds [OF xts_sorted [OF x so] Some]
  have "ps_t_in pos \<le> of_int s"
  proof -
    have "ps_t_in pos \<le> of_int (ps_t_sig pos)" "ps_deadline pos = ps_t_sig pos + pm_hold p"
      using po by (simp_all add: pos_ok_def)
    then show ?thesis using hold s by simp
  qed
  then have "ps_t_in pos \<le> e_xts e ! i"
    using entry_quote [OF x so po] ib sorted_nth_mono [OF xts_sorted [OF x so]]
    by (metis order_refl)
  then show ?thesis
    using closed_ok [OF inv pos ib(1)] ib(2) s set_wait_ok [OF inv pos] Some
    by (auto simp: eng_time_exit_def)
qed

lemma deadline_ok:
  "exit_inv p H c e \<Longrightarrow> sorted (map fst H) \<Longrightarrow> 0 \<le> pm_hold p \<Longrightarrow> exit_inv p H c (eng_deadline s lg e)"
  using time_exit_ok by (auto simp: eng_deadline_def split: option.split)

lemma finish_pos_ok:
  assumes inv: "exit_inv p H c e" and so: "sorted (map fst H)" and hold: "0 \<le> pm_hold p"
  shows "exit_inv p H c (eng_finish_pos lg e)"
proof (cases "e_err e \<or> e_pos e lg = None")
  case True
  then show ?thesis using inv by (auto simp: eng_finish_pos_def)
next
  case False
  then obtain pos where pos: "e_pos e lg = Some pos" "\<not> e_err e" by auto
  have x: "x_ok H c e" and po: "pos_ok p H lg pos" using inv pos by (simp_all add: exit_inv_def base_inv_def)
  define ks where "ks = filter (\<lambda>k. 0 < exit_px e pos k) [0..<length (e_xts e)]"
  have "exit_inv p H c (eng_close pos (last ks) FiveMinDayEnd e)" if "ks \<noteq> []"
  proof -
    have l: "last ks < length (e_xts e)" "0 < exit_px e pos (last ks)"
      using last_in_set [OF that] by (auto simp: ks_def)
    have mx: "j \<le> last ks" if "j \<in> set ks" for j
    proof -
      have "sorted ks" unfolding ks_def by (rule sorted_wrt_filter) simp
      then show ?thesis using that le_last_nat by blast
    qed
    have "ps_t_in pos \<le> e_xts e ! last ks"
      using entry_quote [OF x so po]
    proof (elim disjE exE conjE)
      fix j assume "j < length (e_xts e)" "e_xts e ! j = ps_t_in pos" "0 < exit_px e pos j"
      then show ?thesis
        using mx [of j] sorted_nth_mono [OF xts_sorted [OF x so], of j "last ks"] l by (simp add: ks_def)
    qed (use l in blast)
    then show ?thesis using closed_ok [OF inv pos(1) l] by blast
  qed
  moreover have "exit_inv p H c (e\<lparr>e_err := True\<rparr>)"
    using inv exit_inv_view [of "e\<lparr>e_err := True\<rparr>" e] by (simp add: exit_view_def)
  ultimately show ?thesis
    using pos time_exit_ok [OF inv so pos(1) refl hold]
    by (auto simp: eng_finish_pos_def ks_def [symmetric] Let_def)
qed

subsection \<open>Entries\<close>

text \<open>The scan over the quotes already received after the entry quote.\<close>

lemma not_touching_late: "of_int (ps_deadline pos) < fst q \<Longrightarrow> \<not> touches p pos q"
  by (simp add: touches_def)

lemma scan_before:
  assumes x: "x_ok H c e" and so: "sorted (map fst H)" and c: "c \<le> ps_t_sig pos"
    and q: "q \<in> set H" and le: "\<And>j. j < length (e_xts e) \<Longrightarrow> q = xq e j \<Longrightarrow> \<not> touches p pos q"
  shows "\<not> touches p pos q"
  using x_cases [OF x q]
proof
  assume "fst q \<le> of_int (c - keep_sec)"
  moreover have "real_of_int (c - keep_sec) \<le> of_int (ps_t_sig pos - keep_sec)" using c by simp
  ultimately show ?thesis by (simp add: touches_def)
qed (use le in blast)

lemma check_later_ok:
  assumes "base_inv p H c e" and "sorted (map fst H)" and "e_pos e lg = None \<or> e_pos e lg = Some pos"
    and "c \<le> ps_t_sig pos" and "n = length (e_xts e)" and "i \<le> n"
    and "e_pos e lg = Some pos \<Longrightarrow> \<forall>j<i. \<not> touches p pos (xq e j)"
  shows "\<exists>o'. base_inv p H c (check_later lg [i..<n] e) \<and> e_pos (check_later lg [i..<n] e) = (e_pos e)(lg := o')
    \<and> (o' = None \<or> o' = Some pos \<and> untouched p H pos)"
  using assms
proof (induction "n - i" arbitrary: i e)
  case 0
  then have "check_later lg [i..<n] e = e" by simp
  moreover have "untouched p H pos" if o: "e_pos e lg = Some pos"
  proof -
    have x: "x_ok H c e" using 0 by (simp add: base_inv_def)
    have "\<not> touches p pos q" if "q \<in> set H" for q
      by (rule scan_before [OF x 0(3,5) that]) (use 0 o in auto)
    then show ?thesis by (simp add: untouched_def)
  qed
  moreover have "(e_pos e)(lg := e_pos e lg) = e_pos e" by auto
  ultimately show ?case using 0 by (intro exI [of _ "e_pos e lg"]) auto
next
  case (Suc d)
  then have i: "i < n" "[i..<n] = i # [Suc i..<n]" by (simp_all add: upt_conv_Cons)
  have x: "x_ok H c e" using Suc by (simp add: base_inv_def)
  note so = xts_sorted [OF x Suc.prems(2)]
  show ?case
  proof (cases "e_pos e lg")
    case None
    then have "(e_pos e)(lg := None) = e_pos e" by auto
    then show ?thesis using None Suc.prems(1) i(2) by (intro exI [of _ None]) simp
  next
    case Some
    then have pos: "e_pos e lg = Some pos" using Suc.prems(3) by auto
    have past: "\<forall>j<i. \<not> touches p pos (xq e j)" using Suc.prems(7) pos by blast
    show ?thesis
    proof (cases "of_int (ps_deadline pos) < e_xts e ! i")
      case True
      have "\<not> touches p pos (xq e j)" if "j < length (e_xts e)" for j
      proof (cases "j < i")
        case False
        then have "e_xts e ! i \<le> e_xts e ! j" using that by (intro sorted_nth_mono [OF so]) auto
        then show ?thesis using True by (intro not_touching_late) (simp add: xts_nth)
      qed (use past in blast)
      then have "untouched p H pos"
        unfolding untouched_def using scan_before [OF x Suc.prems(2,4)] by blast
      moreover have "(e_pos e)(lg := Some pos) = e_pos e" using pos by auto
      ultimately show ?thesis using True Suc.prems(1) i(2) pos by (intro exI [of _ "Some pos"]) simp
    next
      case False
      have before: "\<not> touches p pos q" if q: "q \<in> set H" "fst q < e_xts e ! i" for q
      proof (rule scan_before [OF x Suc.prems(2,4) q(1)])
        fix j assume j: "j < length (e_xts e)" "q = xq e j"
        then have "e_xts e ! j < e_xts e ! i" using q(2) by (simp add: xts_nth)
        then have "j < i" using sorted_nth_mono [OF so, of i j] j(1) by (meson not_less)
        then show "\<not> touches p pos q" using past j(2) by blast
      qed
      obtain o' where o: "base_inv p H c (eng_check_exit pos i e)"
        "e_pos (eng_check_exit pos i e) = (e_pos e)(lg := o')"
        "o' = None \<or> o' = Some pos \<and> \<not> touches p pos (xq e i)"
        "e_xts (eng_check_exit pos i e) = e_xts e" "xq (eng_check_exit pos i e) = xq e"
        using check_exit_ok [OF Suc.prems(1) pos _ before, of i] i(1) Suc.prems(5) by blast
      have "\<exists>o''. base_inv p H c (check_later lg [Suc i..<n] (eng_check_exit pos i e))
        \<and> e_pos (check_later lg [Suc i..<n] (eng_check_exit pos i e)) = (e_pos (eng_check_exit pos i e))(lg := o'')
        \<and> (o'' = None \<or> o'' = Some pos \<and> untouched p H pos)"
        by (rule Suc.hyps(1)) (use Suc.hyps(2) Suc.prems i o past in \<open>auto simp: less_Suc_eq\<close>)
      then show ?thesis using False pos i(2) o(2) by simp
    qed
  qed
qed

lemma enter_ok:
  assumes inv: "exit_inv p H c e" and so: "sorted (map fst H)" and c: "c \<le> s"
    and f0: "idx_upto (e_fts e) (of_int s) = Some f0"
  shows "exit_inv p H c (eng_enter s lg f f0 e)"
proof -
  have f: "f_ok H e" and x: "x_ok H c e" and p: "e_p e = p" and b: "base_inv p H c e"
    using inv by (simp_all add: exit_inv_def base_inv_def)
  note fb = idx_bounds [OF _ f0]
  have f0l: "f0 < length (e_fts e)" "e_fts e ! f0 \<le> of_int s" using fb f by (auto simp: f_ok_def)
  define pos where "pos = \<lparr>ps_logic = lg, ps_side = logic_side lg, ps_t_sig = s, ps_t_in = e_fts e ! f0,
      ps_p_in = (if logic_side lg < 0 then e_fbid e ! f0 else e_fask e ! f0),
      ps_deadline = s + pm_hold (e_p e), ps_feat = f, ps_wait = False\<rparr>"
  have po: "pos_ok p H lg pos" unfolding pos_ok_def pos_def using f f0l p by (auto simp: f_ok_def)
  define e1 where "e1 = e\<lparr>e_pos := (e_pos e)(lg := Some pos)\<rparr>"
  have b1: "base_inv p H c e1" using b po by (auto simp: base_inv_def e1_def x_ok_def f_ok_def)
  let ?i = "bisect_right (e_xts e1) (ps_t_in pos)" and ?n = "length (e_xts e1)"
  have xs: "sorted (e_xts e1)" using xts_sorted [OF x so] by (simp add: e1_def)
  have early: "\<not> touches p pos (xq e1 j)" if "j < ?i" for j
  proof -
    have j: "j < ?n" using that bisect_right_le [OF xs, of "ps_t_in pos"] by simp
    then have "e_xts e1 ! j \<le> ps_t_in pos" using bisect_right_iff [OF xs j] that by simp
    then show ?thesis by (simp add: touches_def xts_nth)
  qed
  obtain o' where o: "base_inv p H c (check_later lg [?i..<?n] e1)"
    "e_pos (check_later lg [?i..<?n] e1) = (e_pos e1)(lg := o')" "o' = None \<or> o' = Some pos \<and> untouched p H pos"
    using check_later_ok [OF b1 so _ _ refl bisect_right_le [OF xs], of lg pos "ps_t_in pos"] c early
    by (auto simp: e1_def pos_def)
  have "eng_enter s lg f f0 e = check_later lg [?i..<?n] e1"
    by (simp add: eng_enter_def Let_def e1_def pos_def)
  then show ?thesis
    using o inv by (auto simp: exit_inv_def e1_def)
qed

lemma try_entry_ok:
  assumes inv: "exit_inv p H c e" and so: "sorted (map fst H)" and c: "c \<le> s"
  shows "exit_inv p H c (eng_try_entry s lg f e)"
proof -
  have v: "exit_inv p H c e'" if "exit_view e' = exit_view e" for e'
    using inv exit_inv_view [OF that] by simp
  show ?thesis
    using enter_ok [OF inv so c] inv
    by (auto simp: eng_try_entry_def Let_def exit_view_def split: option.split intro!: v)
qed

lemma entries_ok:
  "exit_inv p H c e \<Longrightarrow> sorted (map fst H) \<Longrightarrow> c \<le> s \<Longrightarrow> exit_inv p H c (eng_entries s lgs f e)"
proof (induction lgs arbitrary: f e)
  case (Cons lg lgs)
  have v: "exit_inv p H c (e\<lparr>e_err := True\<rparr>)"
    using Cons.prems(1) exit_inv_view [of "e\<lparr>e_err := True\<rparr>" e] by (simp add: exit_view_def)
  show ?case
    using Cons.IH [OF Cons.prems] Cons.IH [OF try_entry_ok [OF Cons.prems] Cons.prems(2,3)] Cons.prems(1) v
    by (auto split: sum.split option.split)
qed simp

subsection \<open>The clock\<close>

lemma prune_exit_ok:
  assumes inv: "exit_inv p H s e" and so: "sorted (map fst H)"
  shows "exit_inv p H s (prune_exit_quotes (s - keep_sec) e)"
proof -
  let ?k = "bisect_right (e_xts e) (of_int (s - keep_sec)) - 1"
  obtain k where k: "e_xts e = map fst (drop k H)" "e_xbid e = map (fst \<circ> snd) (drop k H)"
    "e_xask e = map (snd \<circ> snd) (drop k H)" "\<forall>q\<in>set (take k H). fst q \<le> of_int (s - keep_sec)"
    using inv by (auto simp: exit_inv_def base_inv_def x_ok_def)
  have xs: "sorted (e_xts e)" using inv so xts_sorted [of H s e] by (simp add: exit_inv_def base_inv_def)
  have "fst q \<le> of_int (s - keep_sec)" if q: "q \<in> set (take ?k (drop k H))" for q
  proof -
    obtain j where j: "j < ?k" "j < length (e_xts e)" "q = drop k H ! j"
      using q by (auto simp: in_set_conv_nth k(1))
    have "j < bisect_right (e_xts e) (of_int (s - keep_sec))" using j(1) by linarith
    then have "e_xts e ! j \<le> of_int (s - keep_sec)" using bisect_right_iff [OF xs j(2)] by blast
    then show ?thesis using j k(1) by simp
  qed
  then have "\<forall>q\<in>set (take (k + ?k) H). fst q \<le> of_int (s - keep_sec)"
    using k(4) by (auto simp: take_add)
  then have "x_ok H s (prune_exit_quotes (s - keep_sec) e)"
    unfolding x_ok_def prune_exit_quotes_def Let_def using k
    by (intro exI [of _ "if 0 < ?k \<and> flat_all e then k + ?k else k"]) (simp add: drop_map add.commute)
  then show ?thesis using inv by (simp add: exit_inv_def base_inv_def f_ok_def prune_exit_quotes_def Let_def)
qed

lemma prune_fut_ok:
  assumes inv: "exit_inv p H c e" shows "exit_inv p H c (prune_fut old e)"
proof -
  have "f_ok H (prune_fut old e)"
    using inv by (auto simp: exit_inv_def base_inv_def f_ok_def prune_fut_def Let_def sorted_wrt_drop)
  then show ?thesis using inv by (simp add: exit_inv_def base_inv_def x_ok_def prune_fut_def Let_def)
qed

lemma prune_rest_view:
  "exit_view (prune_quotes old e) = exit_view e" "exit_view (prune_auct old e) = exit_view e"
  "exit_view (prune_vol old e) = exit_view e"
  by (simp_all add: exit_view_def prune_quotes_def prune_auct_def prune_vol_def Let_def)

lemma prune_ok:
  assumes "exit_inv p H s e" and so: "sorted (map fst H)"
  shows "exit_inv p H s (eng_prune s e)"
proof (cases "s mod 60 = 0")
  case True
  have "exit_inv p H s (prune_quotes (s - keep_sec) e)"
    using assms(1) exit_inv_view [OF prune_rest_view(1)] by blast
  then have "exit_inv p H s (prune_exit_quotes (s - keep_sec) (prune_fut (s - keep_sec)
      (prune_quotes (s - keep_sec) e)))"
    by (intro prune_exit_ok [OF _ so] prune_fut_ok)
  then show ?thesis
    using exit_inv_view [OF prune_rest_view(2)] exit_inv_view [OF prune_rest_view(3)] True
    by (simp add: eng_prune_def Let_def)
qed (use assms in \<open>simp add: eng_prune_def\<close>)

lemma second_ok:
  assumes inv: "exit_inv p H c e" and so: "sorted (map fst H)" and c: "c \<le> s" and hold: "0 \<le> pm_hold p"
  shows "exit_inv p H s (eng_second s e)"
proof -
  have e: "exit_inv p H s e" by (rule exit_inv_later [OF inv c])
  define e1 where "e1 = eng_deadline s Logic2 (eng_deadline s Logic1 e)"
  have 1: "exit_inv p H s e1" unfolding e1_def by (intro deadline_ok e so hold)
  define e2 where "e2 = eng_entries s [Logic1, Logic2] None e1"
  have 2: "exit_inv p H s e2" unfolding e2_def by (intro entries_ok 1 so) simp
  show ?thesis
    using e 1 2 prune_ok [OF 1 so] prune_ok [OF 2 so]
    by (simp only: eng_second_def Let_def e1_def [symmetric] e2_def [symmetric] split: if_split)
      blast
qed

lemma seconds_ok:
  assumes so: "sorted (map fst H)" and hold: "0 \<le> pm_hold p"
  shows "exit_inv p H a e \<Longrightarrow> exit_inv p H (max a T) (fold eng_second [a + 1..T] e)"
proof (induction "nat (T - a)" arbitrary: a e)
  case 0
  then show ?case by simp
next
  case (Suc d)
  then have "[a + 1..T] = (a + 1) # [a + 1 + 1..T]" by (subst upto_rec1) auto
  moreover have "exit_inv p H (max (a + 1) T) (fold eng_second [a + 1 + 1..T] (eng_second (a + 1) e))"
    by (rule Suc.hyps(1)) (use Suc.hyps(2) second_ok [OF Suc.prems so _ hold] in auto)
  moreover have "max (a + 1) T = max a T" using Suc.hyps(2) by auto
  ultimately show ?case by simp
qed

lemma last_T_simps [simp]:
  "e_last_T (eng_close pos i why e) = e_last_T e"
  "e_last_T (eng_check_exit pos i e) = e_last_T e"
  "e_last_T (eng_time_exit pos s e) = e_last_T e"
  "e_last_T (eng_deadline s lg e) = e_last_T e"
  "e_last_T (prune_quotes old e) = e_last_T e" "e_last_T (prune_fut old e) = e_last_T e"
  "e_last_T (prune_exit_quotes old e) = e_last_T e" "e_last_T (prune_auct old e) = e_last_T e"
  "e_last_T (prune_vol old e) = e_last_T e"
proof -
  show c [simp]: "e_last_T (eng_close pos i why e) = e_last_T e" for pos i why e
    by (simp add: eng_close_def Let_def)
  show "e_last_T (eng_check_exit pos i e) = e_last_T e"
    by (simp add: eng_check_exit_def Let_def)
  show t [simp]: "e_last_T (eng_time_exit pos s e) = e_last_T e" for pos s e
    by (simp add: eng_time_exit_def split: option.split)
  show "e_last_T (eng_deadline s lg e) = e_last_T e"
    by (simp add: eng_deadline_def split: option.split)
qed (simp_all add: prune_quotes_def prune_fut_def prune_exit_quotes_def prune_auct_def prune_vol_def Let_def)

lemma check_later_last [simp]: "e_last_T (check_later lg is e) = e_last_T e"
  by (induction lg "is" e rule: check_later.induct) (simp_all split: option.split)

lemma try_entry_last [simp]: "e_last_T (eng_try_entry s lg f e) = e_last_T e"
proof -
  have [simp]: "e_last_T (eng_enter s lg f f0 e) = e_last_T e" for f0
    by (simp add: eng_enter_def Let_def)
  show ?thesis by (simp add: eng_try_entry_def Let_def split: option.split)
qed

lemma entries_last [simp]: "e_last_T (eng_entries s lgs f e) = e_last_T e"
proof (induction lgs arbitrary: f e)
  case (Cons lg lgs)
  show ?case by (simp add: Cons.IH split: sum.split option.split)
qed simp

lemma second_keeps [simp]: "e_last_T (eng_second s e) = e_last_T e"
  by (simp add: eng_second_def eng_prune_def Let_def del: eng_entries.simps)

lemma seconds_last [simp]: "e_last_T (fold eng_second ss e) = e_last_T e"
  by (induction ss arbitrary: e) simp_all

lemma advance_ok:
  assumes "exit_inv p H (e_last_T e) e" "sorted (map fst H)" "0 \<le> pm_hold p"
  shows "exit_inv p H (e_last_T (eng_advance T e)) (eng_advance T e)"
proof -
  let ?e1 = "fold eng_second [e_last_T e + 1..T] e"
  have i: "exit_inv p H (max (e_last_T e) T) ?e1" by (rule seconds_ok [OF assms(2,3,1)])
  have v: "exit_view (?e1\<lparr>e_last_T := max (e_last_T e) T\<rparr>) = exit_view ?e1" by (simp add: exit_view_def)
  have r: "eng_advance T e = ?e1\<lparr>e_last_T := max (e_last_T e) T\<rparr>" by (simp add: eng_advance_def)
  have "exit_inv p H (max (e_last_T e) T) (eng_advance T e)"
    unfolding r exit_inv_view [OF v] by (rule i)
  moreover have "e_last_T (eng_advance T e) = max (e_last_T e) T" by (simp add: r)
  ultimately show ?thesis by simp
qed

subsection \<open>Every run\<close>

lemma trade_view: "exit_view (eng_on_trade s q sd e) = exit_view e"
  by (simp add: eng_on_trade_def exit_view_def Let_def)

lemma quote_view: "exit_view (eng_on_quote ts b bq a aq cont ses e) = exit_view e"
  by (simp add: eng_on_quote_def exit_view_def Let_def)

lemma fut_last [simp]: "e_last_T (eng_on_fut_quote ts b bq a aq e) = e_last_T e"
proof -
  have [simp]: "e_last_T (check_newest lg e) = e_last_T e" for lg e
    by (simp add: check_newest_def split: option.split)
  show ?thesis by (simp add: eng_on_fut_quote_def Let_def)
qed

lemma finish_ok:
  assumes "exit_inv p H (e_last_T e) e" "sorted (map fst H)" "0 \<le> pm_hold p"
  shows "exit_inv p H (e_last_T (eng_finish e)) (eng_finish e)"
proof -
  have k: "e_last_T (eng_finish_pos lg e) = e_last_T e" for lg e
    by (simp add: eng_finish_pos_def Let_def split: option.split)
  let ?e1 = "eng_advance (pm_session_close (e_p e)) e"
  have "exit_inv p H (e_last_T ?e1) ?e1" by (rule advance_ok [OF assms])
  then have "exit_inv p H (e_last_T ?e1) (eng_finish_pos Logic2 (eng_finish_pos Logic1 ?e1))"
    by (intro finish_pos_ok assms)
  then show ?thesis by (simp add: eng_finish_def k)
qed

lemma cmd_ok:
  assumes inv: "exit_inv p H (e_last_T e) e" and so: "sorted (map fst (H @ accepted cm))"
    and hold: "0 \<le> pm_hold p"
  shows "exit_inv p (H @ accepted cm) (e_last_T (eng_do cm e)) (eng_do cm e)"
proof -
  have so': "sorted (map fst H)" using so by (simp add: sorted_append)
  show ?thesis
  proof (cases cm)
    case (Feed i)
    show ?thesis
    proof (cases i)
      case (Quote ts b bq a aq cont ses)
      have "e_last_T (eng_on_quote ts b bq a aq cont ses e) = e_last_T e"
        by (simp add: eng_on_quote_def Let_def)
      then show ?thesis using inv exit_inv_view [OF quote_view] Feed Quote by simp
    next
      case (Print s q sd)
      have "e_last_T (eng_on_trade s q sd e) = e_last_T e" by (simp add: eng_on_trade_def Let_def)
      then show ?thesis using inv exit_inv_view [OF trade_view] Feed Print by simp
    next
      case (FutQuote ts b bq a aq)
      show ?thesis
      proof (cases "0 < b \<and> b < a \<or> (0 < b) \<noteq> (0 < a)")
        case True
        then have acc: "accepted cm = [(ts, max b 0, max a 0)]" using Feed FutQuote by auto
        then have "sorted (map fst H @ [ts])" using so by simp
        then show ?thesis using fut_quote_ok [OF inv _ True] acc Feed FutQuote by simp
      next
        case False
        then have "eng_on_fut_quote ts b bq a aq e = e" by (auto simp: eng_on_fut_quote_def Let_def)
        moreover have "accepted cm = []" using False Feed FutQuote by auto
        ultimately show ?thesis using inv Feed FutQuote by simp
      qed
    qed
  next
    case (Advance T)
    then show ?thesis using advance_ok [OF inv so' hold] by simp
  next
    case Finish
    then show ?thesis using finish_ok [OF inv so' hold] by simp
  qed
qed

lemma run_ok:
  "sorted (map fst (fut_hist cs)) \<Longrightarrow> 0 \<le> pm_hold p
   \<Longrightarrow> exit_inv p (fut_hist cs) (e_last_T (fold eng_do cs (eng_init p base mk))) (fold eng_do cs (eng_init p base mk))"
proof (induction cs rule: rev_induct)
  case Nil
  then show ?case by (simp add: fut_hist_def exit_inv_def base_inv_def x_ok_def f_ok_def eng_init_def)
next
  case (snoc c cs)
  have h: "fut_hist (cs @ [c]) = fut_hist cs @ accepted c" by (simp add: fut_hist_def)
  have "sorted (map fst (fut_hist cs))" using snoc.prems(1) by (simp add: h sorted_append)
  then show ?case using cmd_ok [OF snoc.IH] snoc.prems by (simp add: h)
qed


definition example_run :: "eng_cmd list" where
  "example_run = [Feed (FutQuote 33000 100 5 101 5), Feed (Print 33000 10 1),
     Feed (FutQuote 33001 0 0 103 5), Advance 33010, Feed (FutQuote 33011 104 5 105 5), Finish]"


end
