(* ===== verification/Strategy_Spec.thy ===== *)
theory Strategy_Spec
  imports Engine
begin

text \<open>
  The frozen strategy specification of \<open>strategies/pastofi_crypto/spec.py\<close>: how the engine
  parameters are read from the file (every field must be present), the accepted options, and
  the order sizes.  The YAML document is the record \<open>spec\<close>: its numeric scalars are
  \<open>yaml_num\<close>s, absent keys are None.  Errors are values of \<open>spec_error\<close>.
\<close>

datatype spec_error = SpecError | SpecKey | SpecValue

datatype yaml_num = YInt int | YFloat real

fun to_int :: "yaml_num \<Rightarrow> int" where
  "to_int (YInt i) = i"
| "to_int (YFloat x) = (if 0 \<le> x then \<lfloor>x\<rfloor> else \<lceil>x\<rceil>)"

fun to_real :: "yaml_num \<Rightarrow> real" where
  "to_real (YInt i) = of_int i"
| "to_real (YFloat x) = x"

record spec =
  sp_version :: string
  sp_symbols :: "string list"
  sp_logics :: "logic list"
  sp_eng_version :: "string option"
  sp_eng_params :: "(string \<times> yaml_num) list"
  sp_fut_base :: string
  sp_market :: string
  sp_qty_scale :: real
  sp_rule :: "string option"
  sp_mult :: real
  sp_max_qty :: "(string \<times> real) list"
  sp_maker :: "(string option \<times> real) option"
  sp_taker_bps :: real
  sp_stop_line :: real
  sp_max_entries :: nat
  sp_start_balance :: real
  sp_trial_days :: int
  sp_prefix :: string
  sp_estop_pct :: real

definition param_fields :: "string list" where
  "param_fields = [''move_win'', ''move_bp'', ''ofi_win'', ''vol_win'', ''ofi_th'', ''guard'',
     ''fut_limit_bp'', ''fut_min_rem'', ''fut_gap_ticks'', ''skip_chain'', ''vi_pad'', ''tp_bp'',
     ''sl_bp'', ''hold'', ''cost_bp'', ''session_open'', ''session_close'', ''entry_start'', ''entry_end'']"

definition spec_params :: "spec \<Rightarrow> spec_error + params" where
  "spec_params sp =
     (let p = sp_eng_params sp;
          missing = filter (\<lambda>k. map_of p k = None) param_fields;
          iv = (\<lambda>k. to_int (the (map_of p k))); rv = (\<lambda>k. to_real (the (map_of p k)))
      in case sp_eng_version sp of
           None \<Rightarrow> Inl SpecError
         | Some v \<Rightarrow>
             if missing \<noteq> [] then Inl SpecError
             else Inr \<lparr>pm_version = v, pm_move_win = iv ''move_win'', pm_move_bp = rv ''move_bp'',
                pm_ofi_win = iv ''ofi_win'', pm_vol_win = iv ''vol_win'', pm_ofi_th = rv ''ofi_th'',
                pm_guard = iv ''guard'', pm_fut_limit_bp = rv ''fut_limit_bp'',
                pm_fut_min_rem = of_int (iv ''fut_min_rem''), pm_fut_gap_ticks = of_int (iv ''fut_gap_ticks''),
                pm_skip_chain = iv ''skip_chain'', pm_vi_pad = iv ''vi_pad'', pm_tp_bp = rv ''tp_bp'',
                pm_sl_bp = rv ''sl_bp'', pm_hold = iv ''hold'', pm_cost_bp = rv ''cost_bp'',
                pm_session_open = iv ''session_open'', pm_session_close = iv ''session_close'',
                pm_entry_start = iv ''entry_start'', pm_entry_end = iv ''entry_end''\<rparr>)"

definition upper :: "string \<Rightarrow> string" where
  "upper s = map (\<lambda>c. let n = of_char c :: nat in if 97 \<le> n \<and> n \<le> 122 then char_of (n - 32) else c) s"

definition market_of :: "string \<Rightarrow> market option" where
  "market_of s =
     (if upper s = ''KOSPI'' then Some KOSPI else if upper s = ''KOSDAQ'' then Some KOSDAQ else None)"

definition new_engine :: "spec \<Rightarrow> real \<Rightarrow> spec_error + eng" where
  "new_engine sp first_mid =
     (if sp_fut_base sp \<noteq> ''first_mid'' then Inl SpecError
      else case spec_params sp of
             Inl err \<Rightarrow> Inl err
           | Inr p \<Rightarrow> (case market_of (sp_market sp) of
                         None \<Rightarrow> Inl SpecValue
                       | Some mk \<Rightarrow> Inr (eng_init p (Some first_mid) mk)))"

definition spec_logic :: "spec \<Rightarrow> spec_error + logic" where
  "spec_logic sp = (if sp_logics sp \<noteq> [Logic1] then Inl SpecError else Inr Logic1)"

datatype size_rule = MinNotional | EqualNotional

definition sizing_rule :: "spec \<Rightarrow> spec_error + size_rule" where
  "sizing_rule sp =
     (case sp_rule sp of
        None \<Rightarrow> Inr MinNotional
      | Some r \<Rightarrow> if r = ''min_notional'' then Inr MinNotional
                  else if r = ''equal_notional'' then Inr EqualNotional else Inl SpecError)"

definition maker_exit_s :: "spec \<Rightarrow> spec_error + real option" where
  "maker_exit_s sp =
     (case sp_maker sp of
        None \<Rightarrow> Inr None
      | Some (price, s) \<Rightarrow>
          if price \<noteq> Some ''bid1'' then Inl SpecError
          else case spec_params sp of
                 Inl err \<Rightarrow> Inl err
               | Inr p \<Rightarrow> if \<not> (0 < s \<and> s < of_int (pm_hold p)) then Inl SpecError else Inr (Some s))"

subsection \<open>Symbol filters\<close>

record sym_filters =
  sf_symbol :: string
  sf_step :: real
  sf_min_qty :: real
  sf_min_notional :: real
  sf_tick :: real

text \<open>The exchange's symbol list: symbol, and its filters by type, each a list of fields.\<close>

type_synonym exchange_info = "(string \<times> (string \<times> (string \<times> real) list) list) list"

definition from_exchange_info :: "exchange_info \<Rightarrow> string \<Rightarrow> spec_error + sym_filters" where
  "from_exchange_info info sm =
     (case map_of info sm of
        None \<Rightarrow> Inl SpecError
      | Some fs \<Rightarrow>
          (let f = (\<lambda>t k. case map_of (rev fs) t of None \<Rightarrow> None | Some x \<Rightarrow> map_of x k)
           in case (f ''LOT_SIZE'' ''stepSize'', f ''LOT_SIZE'' ''minQty'',
                    f ''MIN_NOTIONAL'' ''notional'', f ''PRICE_FILTER'' ''tickSize'') of
                (Some st, Some mq, Some mn, Some tk) \<Rightarrow>
                  Inr \<lparr>sf_symbol = sm, sf_step = st, sf_min_qty = mq, sf_min_notional = mn, sf_tick = tk\<rparr>
              | _ \<Rightarrow> Inl SpecKey))"

subsection \<open>Order sizes\<close>

definition step_decimals :: "real \<Rightarrow> nat" where
  "step_decimals step = nat (max 0 (- \<lfloor>log 10 step + 1 / 10 ^ 9\<rfloor>))"

definition qty_of :: "real \<Rightarrow> int \<Rightarrow> real" where
  "qty_of step n = round_dec (step_decimals step) (of_int n * step)"

lemma ten_pow_step: "0 < step \<Longrightarrow> 1 / 10 ^ step_decimals step \<le> 2 * step"
proof -
  assume s: "0 < step"
  let ?x = "log 10 step + 1 / 10 ^ 9"
  have e: "(10::real) powr (1 / 10 ^ 9) \<le> 2"
  proof -
    have "(10::real) powr (1 / 10 ^ 9) \<le> 16 powr (1 / 4)"
    proof -
      have "(10::real) powr (1 / 10 ^ 9) \<le> 10 powr (1 / 4)" by (rule powr_mono) simp_all
      also have "\<dots> \<le> 16 powr (1 / 4)" by (rule powr_mono2) simp_all
      finally show ?thesis .
    qed
    also have "(16::real) powr (1 / 4) = (2 powr 4) powr (1 / 4)" by (simp add: powr_realpow)
    also have "\<dots> = 2" by (simp only: powr_powr) simp
    finally show ?thesis .
  qed
  have x: "10 powr ?x \<le> 2 * step"
  proof -
    have "10 powr ?x = step * 10 powr (1 / 10 ^ 9)" using s by (simp add: powr_add)
    then show ?thesis using e s by simp
  qed
  have "(10::real) powr (- real (step_decimals step)) \<le> 10 powr ?x"
  proof (rule powr_mono)
    have "of_int \<lfloor>?x\<rfloor> \<le> ?x" by simp
    then show "- real (step_decimals step) \<le> ?x"
      by (auto simp: step_decimals_def max_def simp del: of_int_floor_le)
  qed simp
  also note x
  finally show ?thesis by (simp add: powr_minus powr_realpow inverse_eq_divide)
qed

lemma qty_of_lower: "0 < step \<Longrightarrow> of_int n * step - step \<le> qty_of step n"
proof -
  assume s: "0 < step"
  have "\<bar>qty_of step n - of_int n * step\<bar> \<le> 1 / (2 * 10 ^ step_decimals step)"
    unfolding qty_of_def by (rule round_dec_err)
  also have "\<dots> \<le> step" using ten_pow_step [OF s] by (simp add: field_simps)
  finally show ?thesis by linarith
qed

text \<open>The correction loop.  It is entered with a positive price and step: the code has raised
  before otherwise (an explicit check, the logarithm of the step).\<close>

function qty_loop :: "real \<Rightarrow> real \<Rightarrow> real \<Rightarrow> int \<Rightarrow> real" where
  "qty_loop step price need n =
     (if 0 < step \<and> 0 < price \<and> qty_of step n * price < need
      then qty_loop step price need (n + 1) else qty_of step n)"
  by pat_completeness auto
termination
proof (relation "measure (\<lambda>(step, price, need, n). nat (\<lceil>need / (price * step)\<rceil> + 2 - n))")
  fix step price need :: real and n :: int
  assume a: "0 < step \<and> 0 < price \<and> qty_of step n * price < need"
  have "(of_int n * step - step) * price \<le> qty_of step n * price"
    using qty_of_lower [of step n] a by simp
  then have "(of_int n - 1) * (price * step) < need" using a by (simp add: algebra_simps)
  then have "of_int n - 1 < need / (price * step)" using a by (simp add: pos_less_divide_eq)
  then have "n - 1 < \<lceil>need / (price * step)\<rceil>" by linarith
  then show "((step, price, need, n + 1), step, price, need, n)
      \<in> measure (\<lambda>(step, price, need, n). nat (\<lceil>need / (price * step)\<rceil> + 2 - n))"
    by simp
qed simp

declare qty_loop.simps [simp del]

definition first_count :: "real \<Rightarrow> sym_filters \<Rightarrow> real \<Rightarrow> int" where
  "first_count price flt mult =
     (let need = sf_min_notional flt * mult / price
      in max (max \<lceil>need / sf_step flt - 1 / 10 ^ 9\<rceil> \<lceil>sf_min_qty flt / sf_step flt - 1 / 10 ^ 9\<rceil>) 1)"

definition order_qty :: "real \<Rightarrow> sym_filters \<Rightarrow> real \<Rightarrow> spec_error + real" where
  "order_qty price flt mult =
     (if \<not> 0 < price then Inl SpecError
      else if \<not> 0 < sf_step flt then Inl SpecValue
      else Inr (qty_loop (sf_step flt) price (sf_min_notional flt * mult) (first_count price flt mult)))"

fun all_ok :: "('e + 'a) list \<Rightarrow> 'e + 'a list" where
  "all_ok [] = Inr []"
| "all_ok (Inl err # xs) = Inl err"
| "all_ok (Inr x # xs) = (case all_ok xs of Inl err \<Rightarrow> Inl err | Inr ys \<Rightarrow> Inr (x # ys))"

definition min_notional_of ::
    "(string \<times> sym_filters) list \<Rightarrow> real \<Rightarrow> string \<times> real \<Rightarrow> spec_error + real" where
  "min_notional_of filters mult sp =
     (case map_of filters (fst sp) of
        None \<Rightarrow> Inl SpecKey
      | Some flt \<Rightarrow> (case order_qty (snd sp) flt mult of Inl err \<Rightarrow> Inl err | Inr q \<Rightarrow> Inr (q * snd sp)))"

definition equal_notional_qty ::
    "string \<Rightarrow> (string \<times> real) list \<Rightarrow> (string \<times> sym_filters) list \<Rightarrow> real \<Rightarrow> spec_error + real" where
  "equal_notional_qty sm prices filters mult =
     (case all_ok (map (min_notional_of filters mult) prices) of
        Inl err \<Rightarrow> Inl err
      | Inr ns \<Rightarrow>
          if ns = [] then Inl SpecValue
          else
            (case (map_of filters sm, map_of prices sm) of
               (Some flt, Some px) \<Rightarrow>
                 (case order_qty px flt mult of
                    Inl err \<Rightarrow> Inl err
                  | Inr floor_q \<Rightarrow>
                      Inr (max (qty_of (sf_step flt) (py_round (Max (set ns) / px / sf_step flt))) floor_q))
             | _ \<Rightarrow> Inl SpecKey))"

definition sized ::
    "spec \<Rightarrow> string \<Rightarrow> (string \<Rightarrow> real option) \<Rightarrow> (string \<times> sym_filters) list \<Rightarrow> spec_error + real" where
  "sized sp sm prices filters =
     (let q = (case sizing_rule sp of
                 Inl err \<Rightarrow> Inl err
               | Inr EqualNotional \<Rightarrow>
                   (if list_ex (\<lambda>s. prices s = None \<or> prices s = Some 0) (sp_symbols sp) then Inl SpecError
                    else equal_notional_qty sm (map (\<lambda>s. (s, the (prices s))) (sp_symbols sp)) filters (sp_mult sp))
               | Inr MinNotional \<Rightarrow>
                   (case (prices sm, map_of filters sm) of
                      (Some px, Some flt) \<Rightarrow> order_qty px flt (sp_mult sp)
                    | _ \<Rightarrow> Inl SpecKey))
      in case q of
           Inl err \<Rightarrow> Inl err
         | Inr q \<Rightarrow> (case map_of (sp_max_qty sp) sm of
                      None \<Rightarrow> Inl SpecKey
                    | Some cap \<Rightarrow> if cap + 1 / 10 ^ 12 < q then Inl SpecError else Inr q))"

subsection \<open>Order sizes are minimal\<close>

text \<open>A step is decimal when its multiples survive the rounding (all exchange steps are).\<close>

definition decimal_step :: "real \<Rightarrow> bool" where
  "decimal_step step \<longleftrightarrow> 0 < step \<and> (\<exists>k. step = of_int k / 10 ^ step_decimals step)"

lemma qty_of_exact: "decimal_step step \<Longrightarrow> qty_of step n = of_int n * step"
proof -
  assume "decimal_step step"
  then obtain k where k: "step = of_int k / 10 ^ step_decimals step" by (auto simp: decimal_step_def)
  have "of_int n * step = of_int (n * k) / 10 ^ step_decimals step" by (subst k) simp
  then have "on_grid (step_decimals step) (of_int n * step)" unfolding on_grid_iff by blast
  then show ?thesis by (simp add: qty_of_def round_dec_on_grid)
qed

lemma qty_loop_spec:
  assumes "decimal_step step" "0 < price"
  shows "\<exists>m\<ge>n. qty_loop step price need n = of_int m * step \<and> need \<le> of_int m * step * price
    \<and> (\<forall>j. n \<le> j \<longrightarrow> j < m \<longrightarrow> of_int j * step * price < need)"
  using assms
proof (induction step price need n rule: qty_loop.induct)
  case (1 step price need n)
  have s: "0 < step" using 1 by (simp add: decimal_step_def)
  show ?case
  proof (cases "qty_of step n * price < need")
    case True
    then obtain m where m: "n + 1 \<le> m" "qty_loop step price need (n + 1) = of_int m * step"
      "need \<le> of_int m * step * price" "\<forall>j. n + 1 \<le> j \<longrightarrow> j < m \<longrightarrow> of_int j * step * price < need"
      using 1 s by blast
    have "of_int j * step * price < need" if "n \<le> j" "j < m" for j
      using m(4) that True qty_of_exact [OF 1(2), of n] by (cases "j = n") auto
    moreover have "qty_loop step price need n = of_int m * step"
      using True s 1(3) m(2) by (subst qty_loop.simps) simp
    ultimately show ?thesis using m(1,3) by (intro exI [of _ m]) auto
  next
    case False
    then have "qty_loop step price need n = of_int n * step"
      using qty_of_exact [OF 1(2)] by (subst qty_loop.simps) simp
    then show ?thesis using False qty_of_exact [OF 1(2)] by (intro exI [of _ n]) auto
  qed
qed

lemma first_count_least:
  assumes "0 < sf_step flt" "0 < price" "1 \<le> j" "j < first_count price flt mult"
  shows "of_int j * sf_step flt * price < sf_min_notional flt * mult \<or> of_int j * sf_step flt < sf_min_qty flt"
proof -
  let ?need = "sf_min_notional flt * mult / price"
  have "j < \<lceil>?need / sf_step flt - 1 / 10 ^ 9\<rceil> \<or> j < \<lceil>sf_min_qty flt / sf_step flt - 1 / 10 ^ 9\<rceil>"
    using assms(3,4) by (auto simp: first_count_def Let_def max_def split: if_splits)
  then have "of_int j < ?need / sf_step flt \<or> of_int j < sf_min_qty flt / sf_step flt"
    by (auto simp: less_ceiling_iff)
  then show ?thesis using assms(1,2) by (auto simp: pos_less_divide_eq mult_ac)
qed

lemma order_qty_spec:
  assumes "decimal_step (sf_step flt)" "0 < price"
  shows "\<exists>m\<ge>1. order_qty price flt mult = Inr (of_int m * sf_step flt)
    \<and> sf_min_notional flt * mult \<le> of_int m * sf_step flt * price
    \<and> sf_min_qty flt \<le> (of_int m + 1 / 10 ^ 9) * sf_step flt
    \<and> (\<forall>j\<ge>1. j < m \<longrightarrow> of_int j * sf_step flt * price < sf_min_notional flt * mult
          \<or> of_int j * sf_step flt < sf_min_qty flt)"
proof -
  let ?n = "first_count price flt mult" and ?need = "sf_min_notional flt * mult"
  have s: "0 < sf_step flt" using assms(1) by (simp add: decimal_step_def)
  obtain m where m: "?n \<le> m" "qty_loop (sf_step flt) price ?need ?n = of_int m * sf_step flt"
    "?need \<le> of_int m * sf_step flt * price"
    "\<forall>j. ?n \<le> j \<longrightarrow> j < m \<longrightarrow> of_int j * sf_step flt * price < ?need"
    using qty_loop_spec [OF assms, of ?n ?need] by blast
  have n1: "1 \<le> ?n" by (simp add: first_count_def Let_def)
  have "\<lceil>sf_min_qty flt / sf_step flt - 1 / 10 ^ 9\<rceil> \<le> m"
    using m(1) by (simp add: first_count_def Let_def)
  then have "sf_min_qty flt / sf_step flt - 1 / 10 ^ 9 \<le> of_int m" by linarith
  then have "sf_min_qty flt / sf_step flt \<le> of_int m + 1 / 10 ^ 9" by linarith
  then have q: "sf_min_qty flt \<le> (of_int m + 1 / 10 ^ 9) * sf_step flt"
    using s by (simp only: pos_divide_le_eq)
  have "of_int j * sf_step flt * price < ?need \<or> of_int j * sf_step flt < sf_min_qty flt"
    if "1 \<le> j" "j < m" for j
    using first_count_least [OF s assms(2) that(1)] m(4) that(2) by (cases "j < ?n") auto
  then show ?thesis using m n1 q s assms(2) by (intro exI [of _ m]) (auto simp: order_qty_def)
qed

text \<open>C17: The order size always exists and is the smallest one allowed: the correction loop ends,
  and its result is the least positive multiple of the step whose notional reaches the
  minimum times the multiplier and whose quantity reaches the minimum quantity (up to the
  rounding allowance of 1e-9 steps).\<close>

theorem order_qty_minimal:
  assumes "decimal_step (sf_step flt)" and "0 < price"
  shows "\<exists>m\<ge>1. order_qty price flt mult = Inr (of_int m * sf_step flt)
    \<and> sf_min_notional flt * mult \<le> of_int m * sf_step flt * price
    \<and> sf_min_qty flt \<le> (of_int m + 1 / 10 ^ 9) * sf_step flt
    \<and> (\<forall>j\<ge>1. j < m \<longrightarrow> of_int j * sf_step flt * price < sf_min_notional flt * mult
          \<or> of_int j * sf_step flt < sf_min_qty flt)"
  by (rule order_qty_spec [OF assms])

lemma step_decimals_pow [simp]: "step_decimals (1 / 10 ^ k) = k"
proof -
  have "log 10 (1 / 10 ^ k) = - real k" by (simp add: log_divide log_nat_power)
  moreover have "\<lfloor>- real k + 1 / 10 ^ 9\<rfloor> = - int k" by (rule floor_unique) simp_all
  ultimately show ?thesis by (simp add: step_decimals_def)
qed

lemma decimal_step_pow [simp]: "decimal_step (1 / 10 ^ k)"
  by (auto simp: decimal_step_def intro: exI [of _ 1])

definition btc_filters :: sym_filters where
  "btc_filters = \<lparr>sf_symbol = ''BTCUSDT'', sf_step = 1 / 10 ^ 3, sf_min_qty = 1 / 10 ^ 3,
     sf_min_notional = 50, sf_tick = 1 / 10\<rparr>"

theorem order_qty_minimal_witness:
  "\<exists>m\<ge>1. order_qty 80000 btc_filters (11 / 10) = Inr (of_int m * (1 / 10 ^ 3))
    \<and> 55 \<le> of_int m * (1 / 10 ^ 3) * (80000 :: real)"
proof -
  have "decimal_step (sf_step btc_filters)" using decimal_step_pow [of 3] by (simp add: btc_filters_def)
  then show ?thesis
    using order_qty_minimal [of btc_filters 80000 "11 / 10"] by (auto simp: btc_filters_def)
qed

subsection \<open>Equal notionals\<close>

lemma all_ok_Inr: "all_ok xs = Inr ys \<Longrightarrow> xs = map Inr ys"
  by (induction xs arbitrary: ys rule: all_ok.induct) (auto split: sum.splits)

lemma py_round_near: "\<bar>of_int (py_round x) * s - x * s\<bar> \<le> s / 2" if "0 < s"
proof -
  have "\<bar>of_int (py_round x) * s - x * s\<bar> = \<bar>of_int (py_round x) - x\<bar> * s"
    using that by (simp add: abs_mult left_diff_distrib [symmetric])
  also have "\<dots> \<le> (1 / 2) * s" using py_round_err [of x] that by (intro mult_right_mono) auto
  finally show ?thesis by simp
qed

lemma equal_notional_spec:
  assumes eq: "equal_notional_qty sm prices filters mult = Inr q"
    and f: "map_of filters sm = Some flt" and px: "map_of prices sm = Some px"
    and d: "decimal_step (sf_step flt)" and pos: "0 < px"
  shows "\<exists>ns floor_q. map (min_notional_of filters mult) prices = map Inr ns
    \<and> order_qty px flt mult = Inr floor_q \<and> floor_q \<le> q \<and> floor_q * px \<in> set ns
    \<and> \<bar>q * px - Max (set ns)\<bar> \<le> sf_step flt * px / 2"
proof -
  have s: "0 < sf_step flt" using d by (simp add: decimal_step_def)
  obtain ns where ns: "all_ok (map (min_notional_of filters mult) prices) = Inr ns" "ns \<noteq> []"
    using eq by (auto simp: equal_notional_qty_def split: sum.splits if_splits)
  then have m: "map (min_notional_of filters mult) prices = map Inr ns" by (blast dest: all_ok_Inr)
  obtain fq where fq: "order_qty px flt mult = Inr fq"
    using eq ns f px by (auto simp: equal_notional_qty_def split: sum.splits)
  let ?T = "Max (set ns)" and ?r = "qty_of (sf_step flt) (py_round (Max (set ns) / px / sf_step flt))"
  have q: "q = max ?r fq" using eq ns f px fq by (simp add: equal_notional_qty_def)
  have "(sm, px) \<in> set prices" using px by (rule map_of_SomeD)
  then have "min_notional_of filters mult (sm, px) \<in> Inr ` set ns"
    using m by (metis image_set list.set_map image_eqI)
  then have mem: "fq * px \<in> set ns" using f fq by (auto simp: min_notional_of_def)
  then have le: "fq * px \<le> ?T" by simp
  have "\<bar>?r - ?T / px\<bar> \<le> sf_step flt / 2"
    using py_round_near [OF s, of "?T / px / sf_step flt"] s qty_of_exact [OF d] by simp
  then have "\<bar>?r * px - ?T\<bar> \<le> sf_step flt / 2 * px"
    using mult_right_mono [of "\<bar>?r - ?T / px\<bar>" "sf_step flt / 2" px] pos
    by (simp add: abs_mult_pos left_diff_distrib)
  moreover have "?r * px \<le> fq * px" if "?r \<le> fq" using that pos by simp
  ultimately have "\<bar>q * px - ?T\<bar> \<le> sf_step flt / 2 * px" using le q by (auto simp: max_def)
  then show ?thesis using m fq mem q by (intro exI [of _ ns] exI [of _ fq]) simp
qed

text \<open>Equal notionals: a size computed by the equal-notional rule is at least the symbol's own
  minimum size, at most its cap, and its notional is within half a step of the largest of
  the symbols' minimum notionals.\<close>

theorem sized_equal_notional:
  assumes "sized sp sm prices filters = Inr q" and "sizing_rule sp = Inr EqualNotional"
    and "sm \<in> set (sp_symbols sp)" and "map_of filters sm = Some flt" and "prices sm = Some px"
    and "decimal_step (sf_step flt)" and "0 < px"
  shows "\<exists>cap ns floor_q. map_of (sp_max_qty sp) sm = Some cap \<and> q \<le> cap + 1 / 10 ^ 12
    \<and> map (\<lambda>s. min_notional_of filters (sp_mult sp) (s, the (prices s))) (sp_symbols sp) = map Inr ns
    \<and> order_qty px flt (sp_mult sp) = Inr floor_q \<and> floor_q \<le> q \<and> floor_q * px \<in> set ns
    \<and> \<bar>q * px - Max (set ns)\<bar> \<le> sf_step flt * px / 2"
proof -
  let ?ps = "map (\<lambda>s. (s, the (prices s))) (sp_symbols sp)"
  have e: "equal_notional_qty sm ?ps filters (sp_mult sp) = Inr q"
    and c: "\<exists>cap. map_of (sp_max_qty sp) sm = Some cap \<and> q \<le> cap + 1 / 10 ^ 12"
    using assms(1,2) by (auto simp: sized_def Let_def split: sum.splits if_splits option.splits)
  have "map_of ?ps sm = Some px" using assms(3,5) by (simp add: map_of_map_restrict restrict_map_def)
  then show ?thesis
    using equal_notional_spec [OF e assms(4) _ assms(6,7)] c by (auto simp: comp_def)
qed

definition eth_filters :: sym_filters where
  "eth_filters = \<lparr>sf_symbol = ''ETHUSDT'', sf_step = 1 / 10 ^ 3, sf_min_qty = 1 / 10 ^ 3,
     sf_min_notional = 20, sf_tick = 1 / 100\<rparr>"

definition example_spec :: spec where
  "example_spec = \<lparr>sp_version = ''1.2'', sp_symbols = [''BTCUSDT'', ''ETHUSDT''], sp_logics = [Logic1],
     sp_eng_version = Some ''1.2'', sp_eng_params = map (\<lambda>k. (k, YInt 300)) param_fields,
     sp_fut_base = ''first_mid'', sp_market = ''kospi'', sp_qty_scale = 1000, sp_rule = Some ''equal_notional'',
     sp_mult = 11 / 10, sp_max_qty = [(''BTCUSDT'', 2 / 1000), (''ETHUSDT'', 70 / 1000)],
     sp_maker = Some (Some ''bid1'', 5), sp_taker_bps = 4, sp_stop_line = - 15, sp_max_entries = 10,
     sp_start_balance = 400, sp_trial_days = 7, sp_prefix = ''pof-'', sp_estop_pct = 3 / 2\<rparr>"

definition example_prices :: "string \<Rightarrow> real option" where
  "example_prices = [''BTCUSDT'' \<mapsto> 80000, ''ETHUSDT'' \<mapsto> 2400]"

definition example_filters :: "(string \<times> sym_filters) list" where
  "example_filters = [(''BTCUSDT'', btc_filters), (''ETHUSDT'', eth_filters)]"

lemma qty_of_pow: "qty_of (1 / 10 ^ k) n = of_int n / 10 ^ k"
  using qty_of_exact [OF decimal_step_pow] by simp

lemma btc_order: "order_qty 80000 btc_filters (11 / 10) = Inr (1 / 10 ^ 3)"
proof -
  have "first_count 80000 btc_filters (11 / 10) = 1" by (simp add: first_count_def btc_filters_def Let_def)
  then show ?thesis using qty_of_pow [of 3 1]
    by (simp add: order_qty_def btc_filters_def qty_loop.simps)
qed

lemma eth_order: "order_qty 2400 eth_filters (11 / 10) = Inr (10 / 10 ^ 3)"
proof -
  have "first_count 2400 eth_filters (11 / 10) = 10"
    by (simp add: first_count_def eth_filters_def Let_def)
  then show ?thesis using qty_of_pow [of 3 10]
    by (simp add: order_qty_def eth_filters_def qty_loop.simps)
qed

lemma example_find:
  "map_of example_filters ''ETHUSDT'' = Some eth_filters" "map_of example_filters ''BTCUSDT'' = Some btc_filters"
  by (simp_all add: example_filters_def)

lemma example_notional:
  "min_notional_of example_filters (11 / 10) (''BTCUSDT'', 80000) = Inr 80"
  "min_notional_of example_filters (11 / 10) (''ETHUSDT'', 2400) = Inr 24"
  by (simp_all add: min_notional_of_def example_find btc_order eth_order)

lemma example_rule: "sizing_rule example_spec = Inr EqualNotional"
  by (simp add: sizing_rule_def example_spec_def)

lemma eth_sized: "sized example_spec ''ETHUSDT'' example_prices example_filters = Inr (33 / 1000)"
proof -
  have sp: "sp_symbols example_spec = [''BTCUSDT'', ''ETHUSDT'']" "sp_mult example_spec = 11 / 10"
    "sp_max_qty example_spec = [(''BTCUSDT'', 2 / 1000), (''ETHUSDT'', 70 / 1000)]"
    by (simp_all add: example_spec_def)
  have p: "example_prices ''ETHUSDT'' = Some 2400" "example_prices ''BTCUSDT'' = Some 80000"
    by (simp_all add: example_prices_def)
  have st: "sf_step eth_filters = 1 / 10 ^ 3" by (simp add: eth_filters_def)
  have rd: "py_round (80 / 2400 / (1 / 10 ^ 3)) = 33"
    by (simp add: py_round_def Let_def)
  have "equal_notional_qty ''ETHUSDT'' [(''BTCUSDT'', 80000), (''ETHUSDT'', 2400)] example_filters (11 / 10)
      = Inr (33 / 1000)"
    using rd qty_of_pow [of 3 33]
    by (simp only: equal_notional_qty_def list.map example_notional all_ok.simps sum.case example_find st)
      (simp add: eth_order st)
  then show ?thesis by (simp add: sized_def Let_def example_rule sp p)
qed

theorem sized_equal_notional_witness:
  "sized example_spec ''ETHUSDT'' example_prices example_filters = Inr (33 / 1000)
   \<and> \<bar>33 / 1000 * 2400 - (80 :: real)\<bar> \<le> 1 / 10 ^ 3 * 2400 / 2"
proof -
  have d: "decimal_step (sf_step eth_filters)" using decimal_step_pow [of 3] by (simp add: eth_filters_def)
  have p: "example_prices ''ETHUSDT'' = Some 2400" by (simp add: example_prices_def)
  show ?thesis
    using sized_equal_notional [OF eth_sized example_rule _ example_find(1) p d] example_notional eth_sized
    by (auto simp: example_spec_def example_prices_def eth_filters_def)
qed

end
