(* ===== verification/Feed.thy ===== *)
theory Feed
  imports Strategy_Spec
begin

text \<open>
  The symbol feed of \<open>strategies/pastofi_crypto/feed.py\<close>: collector records to engine calls,
  one engine per UTC day, prints summed per second and side until the tick of the next
  second, and the entry and exit signals of the traded logic.  The two callbacks are the
  list \<open>fd_out\<close>: what they were called with, in order.
\<close>

definition day_len :: int where
  "day_len = 86400"

record signal =
  sg_symbol :: string
  sg_day :: int
  sg_t_sig :: int
  sg_t_in :: real
  sg_p_in :: real
  sg_deadline :: int
  sg_feat :: feat

definition epoch_sig :: "signal \<Rightarrow> int" where
  "epoch_sig s = sg_day s * day_len + sg_t_sig s"

record exit_signal =
  xs_symbol :: string
  xs_day :: int
  xs_trade :: eng_trade

datatype feed_out = OutEntry signal | OutExit exit_signal

record day_state =
  ds_engine :: eng
  ds_last_l1 :: "l1 option"
  ds_n_trades :: nat
  ds_pos_tsig :: "int option"
  ds_last_T :: int
  ds_trades :: "((int \<times> int) \<times> real) list"
  ds_late :: nat

record feed =
  fd_spec :: spec
  fd_symbol :: string
  fd_scale :: real
  fd_logic :: logic
  fd_days :: "(int \<times> day_state) list"
  fd_finished :: "int list"
  fd_pending :: "(int \<times> ((int \<times> int) \<times> real) list) list"
  fd_l1 :: "l1 option"
  fd_l1_ts :: "real option"
  fd_out :: "feed_out list"

definition feed_init :: "spec \<Rightarrow> string \<Rightarrow> spec_error + feed" where
  "feed_init sp sm =
     (case spec_logic sp of
        Inl err \<Rightarrow> Inl err
      | Inr lg \<Rightarrow> Inr \<lparr>fd_spec = sp, fd_symbol = sm, fd_scale = sp_qty_scale sp, fd_logic = lg,
          fd_days = [], fd_finished = [], fd_pending = [], fd_l1 = None, fd_l1_ts = None, fd_out = []\<rparr>)"

definition new_day :: "eng \<Rightarrow> day_state" where
  "new_day e = \<lparr>ds_engine = e, ds_last_l1 = None, ds_n_trades = 0, ds_pos_tsig = None, ds_last_T = - 1,
     ds_trades = [], ds_late = 0\<rparr>"

subsection \<open>Signals\<close>

definition signal_of_trade :: "params \<Rightarrow> string \<Rightarrow> int \<Rightarrow> eng_trade \<Rightarrow> signal" where
  "signal_of_trade p sm day tr =
     \<lparr>sg_symbol = sm, sg_day = day, sg_t_sig = tr_t_sig tr, sg_t_in = tr_t_in tr, sg_p_in = tr_p_in tr,
      sg_deadline = tr_t_sig tr + pm_hold p, sg_feat = tr_feat tr\<rparr>"

definition signal_of_pos :: "string \<Rightarrow> int \<Rightarrow> eng_pos \<Rightarrow> signal" where
  "signal_of_pos sm day pos =
     \<lparr>sg_symbol = sm, sg_day = day, sg_t_sig = ps_t_sig pos, sg_t_in = ps_t_in pos, sg_p_in = ps_p_in pos,
      sg_deadline = ps_deadline pos, sg_feat = ps_feat pos\<rparr>"

text \<open>The new trades of the logic: an entry unless it was signalled already, then the exit.\<close>

fun emit_trades ::
    "params \<Rightarrow> logic \<Rightarrow> string \<Rightarrow> int \<Rightarrow> eng_trade list \<Rightarrow> int option \<Rightarrow> int option \<times> feed_out list" where
  "emit_trades p lg sm day [] t = (t, [])"
| "emit_trades p lg sm day (tr # trs) t =
     (if tr_logic tr \<noteq> lg then emit_trades p lg sm day trs t
      else
        (let ent = (if t \<noteq> Some (tr_t_sig tr) then [OutEntry (signal_of_trade p sm day tr)] else []);
             (t', out) = emit_trades p lg sm day trs None
         in (t', ent @ [OutExit \<lparr>xs_symbol = sm, xs_day = day, xs_trade = tr\<rparr>] @ out)))"

definition emit_new :: "logic \<Rightarrow> string \<Rightarrow> int \<Rightarrow> day_state \<Rightarrow> day_state \<times> feed_out list" where
  "emit_new lg sm day st =
     (let e = ds_engine st;
          (t1, out1) = (if ds_n_trades st < length (e_trades e)
                        then emit_trades (e_p e) lg sm day (drop (ds_n_trades st) (e_trades e)) (ds_pos_tsig st)
                        else (ds_pos_tsig st, []));
          n1 = (if ds_n_trades st < length (e_trades e) then length (e_trades e) else ds_n_trades st)
      in case e_pos e lg of
           Some pos \<Rightarrow>
             (if Some (ps_t_sig pos) \<noteq> t1
              then (st\<lparr>ds_n_trades := n1, ds_pos_tsig := Some (ps_t_sig pos)\<rparr>,
                    out1 @ [OutEntry (signal_of_pos sm day pos)])
              else (st\<lparr>ds_n_trades := n1, ds_pos_tsig := t1\<rparr>, out1))
         | None \<Rightarrow> (st\<lparr>ds_n_trades := n1, ds_pos_tsig := t1\<rparr>, out1))"

definition feed_emit :: "int \<Rightarrow> day_state \<Rightarrow> feed \<Rightarrow> feed" where
  "feed_emit day st fd =
     (let (st', out) = emit_new (fd_logic fd) (fd_symbol fd) day st
      in fd\<lparr>fd_days := AList.update day st' (fd_days fd), fd_out := fd_out fd @ out\<rparr>)"

subsection \<open>Inputs\<close>

text \<open>\<open>d[k] += q\<close> on a dict of sums.\<close>

definition add_qty :: "'k \<Rightarrow> real \<Rightarrow> ('k \<times> real) list \<Rightarrow> ('k \<times> real) list" where
  "add_qty k q d = AList.update k ((case map_of d k of Some x \<Rightarrow> x | None \<Rightarrow> 0) + q) d"

definition feed_l1 :: "int \<Rightarrow> day_state \<Rightarrow> real \<Rightarrow> l1 \<Rightarrow> feed \<Rightarrow> feed" where
  "feed_l1 day st t l fd =
     (case l of (b, bq, a, aq) \<Rightarrow>
        (let sc = fd_scale fd;
             e1 = eng_on_quote t b (bq * sc) a (aq * sc) True True (ds_engine st);
             e2 = eng_on_fut_quote t b (bq * sc) a (aq * sc) e1
         in feed_emit day (st\<lparr>ds_last_l1 := Some l, ds_engine := e2\<rparr>) fd))"

definition feed_on_l1 :: "int \<Rightarrow> l1 \<Rightarrow> feed \<Rightarrow> (spec_error + unit) \<times> feed" where
  "feed_on_l1 ts_ms l fd =
     (let day = ts_ms div (day_len * 1000); ms = ts_ms mod (day_len * 1000)
      in if day \<in> set (fd_finished fd) then (Inr (), fd)
         else
           (let fd1 = fd\<lparr>fd_l1 := Some l, fd_l1_ts := Some (of_int ts_ms / 1000)\<rparr>;
                t = of_int ms / 1000
            in case map_of (fd_days fd1) day of
                 Some st \<Rightarrow> (if ds_last_l1 st = Some l then (Inr (), fd1)
                             else (Inr (), feed_l1 day st t l fd1))
               | None \<Rightarrow>
                   (case new_engine (fd_spec fd1) ((fst l + fst (snd (snd l))) / 2) of
                      Inl err \<Rightarrow> (Inl err, fd1)
                    | Inr e \<Rightarrow>
                        (let pend = (case map_of (fd_pending fd1) day of Some d \<Rightarrow> d | None \<Rightarrow> []);
                             st = (new_day e)\<lparr>ds_trades := fold (\<lambda>(k, q). add_qty k q) pend []\<rparr>
                         in (Inr (), feed_l1 day st t l (fd1\<lparr>fd_pending := adel day (fd_pending fd1)\<rparr>))))))"

text \<open>A \<open>book_top\<close> record: its time (T, or E when absent or 0) and its best levels.\<close>

definition feed_on_book_top ::
    "int option \<Rightarrow> int \<Rightarrow> (real \<times> real) \<Rightarrow> (real \<times> real) \<Rightarrow> feed \<Rightarrow> (spec_error + unit) \<times> feed" where
  "feed_on_book_top T E bid ask fd =
     feed_on_l1 (case T of Some t \<Rightarrow> if t \<noteq> 0 then t else E | None \<Rightarrow> E)
       (fst bid, snd bid, fst ask, snd ask) fd"

definition feed_on_trade_raw :: "int \<Rightarrow> real \<Rightarrow> bool \<Rightarrow> feed \<Rightarrow> feed" where
  "feed_on_trade_raw ts_ms qty buyer_maker fd =
     (let sec_all = ts_ms div 1000; day = sec_all div day_len; sec = sec_all mod day_len;
          side = (if buyer_maker then - 1 else 1)
      in if day \<in> set (fd_finished fd) then fd
         else case map_of (fd_days fd) day of
                None \<Rightarrow>
                  (let d = (case map_of (fd_pending fd) day of Some d \<Rightarrow> d | None \<Rightarrow> [])
                   in fd\<lparr>fd_pending := AList.update day (add_qty (sec, side) qty d) (fd_pending fd)\<rparr>)
              | Some st \<Rightarrow>
                  (let st1 = (if sec \<le> ds_last_T st - 1 then st\<lparr>ds_late := ds_late st + 1\<rparr> else st)
                   in fd\<lparr>fd_days := AList.update day
                           (st1\<lparr>ds_trades := add_qty (sec, side) qty (ds_trades st1)\<rparr>) (fd_days fd)\<rparr>))"

subsection \<open>The clock\<close>

text \<open>The keys due at second \<open>T\<close>, in the order of the pairs (second, side).\<close>

definition ready_keys :: "int \<Rightarrow> ((int \<times> int) \<times> real) list \<Rightarrow> (int \<times> int) list" where
  "ready_keys T d = sort_key fst (sort_key snd (filter (\<lambda>k. fst k \<le> T - 1) (map fst d)))"

fun feed_prints :: "real \<Rightarrow> (int \<times> int) list \<Rightarrow> day_state \<Rightarrow> day_state" where
  "feed_prints sc [] st = st"
| "feed_prints sc (k # ks) st =
     (let q = (case map_of (ds_trades st) k of Some q \<Rightarrow> q | None \<Rightarrow> 0)
      in feed_prints sc ks
           (st\<lparr>ds_trades := adel k (ds_trades st),
               ds_engine := eng_on_trade (fst k) (py_round (q * sc)) (snd k) (ds_engine st)\<rparr>))"

text \<open>Where the engine raises (\<open>e_err\<close>) nothing is signalled.\<close>

definition feed_tick :: "int \<Rightarrow> int \<Rightarrow> feed \<Rightarrow> feed" where
  "feed_tick day T fd =
     (case map_of (fd_days fd) day of
        None \<Rightarrow> fd
      | Some st \<Rightarrow>
          if day \<in> set (fd_finished fd) then fd
          else
            (let st1 = feed_prints (fd_scale fd) (ready_keys T (ds_trades st)) st;
                 st2 = st1\<lparr>ds_engine := eng_advance T (ds_engine st1)\<rparr>
             in if e_err (ds_engine st2) then fd\<lparr>fd_days := AList.update day st2 (fd_days fd)\<rparr>
                else feed_emit day (st2\<lparr>ds_last_T := max (ds_last_T st2) T\<rparr>) fd))"

definition feed_finish_day :: "int \<Rightarrow> feed \<Rightarrow> feed" where
  "feed_finish_day day fd =
     (let fd1 = fd\<lparr>fd_finished := List.insert day (fd_finished fd), fd_pending := adel day (fd_pending fd)\<rparr>
      in case map_of (fd_days fd1) day of
           None \<Rightarrow> fd1
         | Some st \<Rightarrow>
             (let st1 = st\<lparr>ds_engine := eng_finish (ds_engine st)\<rparr>
              in if e_err (ds_engine st1) then fd1\<lparr>fd_days := AList.update day st1 (fd_days fd1)\<rparr>
                 else (let fd2 = feed_emit day st1 fd1 in fd2\<lparr>fd_days := adel day (fd_days fd2)\<rparr>)))"

subsection \<open>Queries\<close>

definition feed_engine :: "int \<Rightarrow> feed \<Rightarrow> eng option" where
  "feed_engine day fd = map_option ds_engine (map_of (fd_days fd) day)"

definition feed_late_trades :: "int \<Rightarrow> feed \<Rightarrow> nat" where
  "feed_late_trades day fd = (case map_of (fd_days fd) day of Some st \<Rightarrow> ds_late st | None \<Rightarrow> 0)"

record feed_snap =
  sn_warm :: bool
  sn_past_bp :: real
  sn_ofi1m :: real
  sn_vol_per_min :: real
  sn_ofi_ratio :: "real option"

text \<open>Without a quote at either end of the window only \<open>warm\<close> is reported.\<close>

definition feed_snapshot :: "int \<Rightarrow> int \<Rightarrow> feed \<Rightarrow> (bool + feed_snap) option" where
  "feed_snapshot day T fd =
     (case map_of (fd_days fd) day of
        None \<Rightarrow> None
      | Some st \<Rightarrow>
          (let e = ds_engine st; p = e_p e; c = T - pm_guard p;
               warm = pm_session_open p \<le> c - pm_ofi_win p - pm_vol_win p
           in case (idx_upto (e_ts e) (of_int (c - pm_move_win p)), idx_upto (e_ts e) (of_int c)) of
                (Some ia, Some ib) \<Rightarrow>
                  (let ofi = e_cum e ! ib - (case idx_upto (e_ts e) (of_int (c - pm_ofi_win p)) of
                                               Some io \<Rightarrow> e_cum e ! io | None \<Rightarrow> 0);
                       vol = eng_vol_upto e (c - pm_ofi_win p) - eng_vol_upto e (c - pm_ofi_win p - pm_vol_win p);
                       per_min = of_int vol / (of_int (pm_vol_win p) / 60)
                   in Some (Inr \<lparr>sn_warm = warm, sn_past_bp = (ln (e_mid e ! ib) - ln (e_mid e ! ia)) * 10000,
                        sn_ofi1m = ofi / fd_scale fd, sn_vol_per_min = per_min / fd_scale fd,
                        sn_ofi_ratio = (if 0 < per_min then Some (ofi / per_min) else None)\<rparr>))
              | _ \<Rightarrow> Some (Inl warm)))"

end
