(* ===== verification/Feed_Correct.thy ===== *)
theory Feed_Correct
  imports Feed Engine_Exits
begin

text \<open>
  Signals are exact.  An engine operation only extends its history (the trades of a logic,
  then its open position), and the feed has signalled of each running day exactly the
  history of its engine: the entry and the exit of every trade, in order, then the entry of
  the open position.
\<close>

subsection \<open>The history of an engine\<close>

definition pos_form :: "eng \<Rightarrow> bool" where
  "pos_form e \<longleftrightarrow> (\<forall>lg pos. e_pos e lg = Some pos \<longrightarrow>
     ps_logic pos = lg \<and> ps_deadline pos = ps_t_sig pos + pm_hold (e_p e))"

definition sig_hist :: "logic \<Rightarrow> string \<Rightarrow> int \<Rightarrow> eng \<Rightarrow> signal list" where
  "sig_hist lg sm day e =
     map (signal_of_trade (e_p e) sm day) (filter (\<lambda>tr. tr_logic tr = lg) (e_trades e))
     @ (case e_pos e lg of None \<Rightarrow> [] | Some pos \<Rightarrow> [signal_of_pos sm day pos])"

definition grows :: "eng \<Rightarrow> eng \<Rightarrow> bool" where
  "grows e e' \<longleftrightarrow> e_p e' = e_p e \<and> pos_form e' \<and> (\<exists>new. e_trades e' = e_trades e @ new)
     \<and> (\<forall>lg sm day. \<exists>ys. sig_hist lg sm day e' = sig_hist lg sm day e @ ys)"

lemma grows_refl: "pos_form e \<Longrightarrow> grows e e"
  by (simp add: grows_def)

lemma grows_trans [trans]: "grows e e' \<Longrightarrow> grows e' e'' \<Longrightarrow> grows e e''"
  unfolding grows_def by (metis append.assoc)

lemma grows_form: "grows e e' \<Longrightarrow> pos_form e'"
  by (simp add: grows_def)

definition trade_view where
  "trade_view e = (e_p e, e_pos e, e_trades e)"

lemma grows_view: "trade_view e' = trade_view e \<Longrightarrow> pos_form e \<Longrightarrow> grows e e'"
  by (simp add: grows_def trade_view_def pos_form_def sig_hist_def)

lemma close_grows:
  assumes f: "pos_form e" and pos: "e_pos e lg = Some pos"
  shows "grows e (eng_close pos i why e)"
proof (cases "exit_px e pos i \<le> 0")
  case True
  then show ?thesis using f by (intro grows_view) (simp_all add: eng_close_def trade_view_def)
next
  case False
  have d: "ps_logic pos = lg" "ps_deadline pos = ps_t_sig pos + pm_hold (e_p e)"
    using f pos by (simp_all add: pos_form_def)
  have "\<exists>ys. sig_hist l sm day (eng_close pos i why e) = sig_hist l sm day e @ ys" for l sm day
    using False d pos
    by (cases "l = lg")
      (auto simp: eng_close_def Let_def sig_hist_def signal_of_trade_def signal_of_pos_def)
  then show ?thesis
    using False f by (auto simp: grows_def eng_close_def Let_def pos_form_def)
qed

lemma check_exit_grows: "pos_form e \<Longrightarrow> e_pos e lg = Some pos \<Longrightarrow> grows e (eng_check_exit pos i e)"
  by (simp add: eng_check_exit_def Let_def grows_refl close_grows)

lemma check_newest_grows: "pos_form e \<Longrightarrow> grows e (check_newest lg e)"
  using check_exit_grows by (auto simp: check_newest_def grows_refl split: option.split)

lemma wait_grows:
  assumes "pos_form e" "e_pos e lg = Some pos"
  shows "grows e (e\<lparr>e_pos := (e_pos e)(ps_logic pos := Some (pos\<lparr>ps_wait := True\<rparr>))\<rparr>)"
proof -
  have d: "ps_logic pos = lg" using assms by (simp add: pos_form_def)
  then show ?thesis using assms
    by (auto simp: grows_def pos_form_def sig_hist_def signal_of_pos_def signal_of_trade_def)
qed

lemma time_exit_grows: "pos_form e \<Longrightarrow> e_pos e lg = Some pos \<Longrightarrow> grows e (eng_time_exit pos s e)"
  using close_grows wait_grows by (auto simp: eng_time_exit_def split: option.split)

lemma deadline_grows: "pos_form e \<Longrightarrow> grows e (eng_deadline s lg e)"
  using time_exit_grows by (auto simp: eng_deadline_def grows_refl split: option.split)

lemma finish_pos_grows: "pos_form e \<Longrightarrow> grows e (eng_finish_pos lg e)"
  using time_exit_grows close_grows grows_view [of "e\<lparr>e_err := True\<rparr>" e]
  by (auto simp: eng_finish_pos_def Let_def grows_refl trade_view_def split: option.split)

lemma check_later_grows: "pos_form e \<Longrightarrow> grows e (check_later lg is e)"
proof (induction lg "is" e rule: check_later.induct)
  case (2 lg i "is" e)
  show ?case
  proof (cases "e_pos e lg")
    case None
    then show ?thesis using 2 by (simp add: grows_refl)
  next
    case (Some pos)
    have g: "grows e (eng_check_exit pos i e)" using 2(2) Some by (rule check_exit_grows)
    have "grows e (check_later lg is (eng_check_exit pos i e))"
      if "\<not> of_int (ps_deadline pos) < e_xts e ! i"
      using grows_trans [OF g 2(1) [OF Some that grows_form [OF g]]] .
    then show ?thesis using 2(2) Some by (simp add: grows_refl)
  qed
qed (simp add: grows_refl)

lemma enter_grows:
  assumes f: "pos_form e" and none: "e_pos e lg = None"
  shows "grows e (eng_enter s lg f f0 e)"
proof -
  define pos where "pos = \<lparr>ps_logic = lg, ps_side = logic_side lg, ps_t_sig = s, ps_t_in = e_fts e ! f0,
      ps_p_in = (if logic_side lg < 0 then e_fbid e ! f0 else e_fask e ! f0),
      ps_deadline = s + pm_hold (e_p e), ps_feat = f, ps_wait = False\<rparr>"
  define e1 where "e1 = e\<lparr>e_pos := (e_pos e)(lg := Some pos)\<rparr>"
  have g: "grows e e1"
    using assms by (auto simp: grows_def e1_def pos_form_def sig_hist_def pos_def)
  have "eng_enter s lg f f0 e = check_later lg [bisect_right (e_xts e1) (ps_t_in pos)..<length (e_xts e1)] e1"
    by (simp add: eng_enter_def Let_def e1_def pos_def)
  then show ?thesis using grows_trans [OF g check_later_grows [OF grows_form [OF g]]] by simp
qed

lemma try_entry_grows:
  assumes f: "pos_form e" and none: "e_pos e lg = None"
  shows "grows e (eng_try_entry s lg f e)"
proof -
  have v: "grows e e'" if "trade_view e' = trade_view e" for e' using grows_view [OF that f] .
  show ?thesis
    using enter_grows [OF assms] grows_refl [OF f]
    by (auto simp: eng_try_entry_def Let_def trade_view_def split: option.split intro!: v)
qed

lemma entries_grows: "pos_form e \<Longrightarrow> grows e (eng_entries s lgs f e)"
proof (induction lgs arbitrary: f e)
  case (Cons lg lgs)
  have v: "grows e (e\<lparr>e_err := True\<rparr>)" using Cons.prems by (intro grows_view) (simp_all add: trade_view_def)
  have "grows e (eng_entries s lgs f' (eng_try_entry s lg x e))" if "e_pos e lg = None" for f' x
    using grows_trans [OF try_entry_grows Cons.IH] try_entry_grows grows_form Cons.prems that by blast
  then show ?case using Cons v by (auto simp: grows_refl split: sum.split option.split)
qed (simp add: grows_refl)

lemma prune_trade_views [simp]:
  "trade_view (prune_quotes old e) = trade_view e" "trade_view (prune_fut old e) = trade_view e"
  "trade_view (prune_exit_quotes old e) = trade_view e" "trade_view (prune_auct old e) = trade_view e"
  "trade_view (prune_vol old e) = trade_view e"
  by (simp_all add: trade_view_def prune_quotes_def prune_fut_def prune_exit_quotes_def prune_auct_def
      prune_vol_def Let_def)

lemma prune_trade_view: "trade_view (eng_prune s e) = trade_view e"
  by (simp add: eng_prune_def Let_def)

lemma prune_grows: "pos_form e \<Longrightarrow> grows e (eng_prune s e)"
  by (rule grows_view [OF prune_trade_view])

lemma second_grows:
  assumes f: "pos_form e" shows "grows e (eng_second s e)"
proof -
  define e1 where "e1 = eng_deadline s Logic2 (eng_deadline s Logic1 e)"
  have 1: "grows e e1"
    unfolding e1_def using grows_trans deadline_grows grows_form f by blast
  define e2 where "e2 = eng_entries s [Logic1, Logic2] None e1"
  have 2: "grows e e2" unfolding e2_def by (rule grows_trans [OF 1 entries_grows [OF grows_form [OF 1]]])
  have "grows e (eng_prune s e1)" "grows e (eng_prune s e2)"
    using grows_trans [OF 1 prune_grows [OF grows_form [OF 1]]] grows_trans [OF 2 prune_grows [OF grows_form [OF 2]]]
    by blast+
  then show ?thesis
    using 1 2 grows_refl [OF f]
    by (simp only: eng_second_def Let_def e1_def [symmetric] e2_def [symmetric] split: if_split) blast
qed

lemma seconds_grow: "pos_form e \<Longrightarrow> grows e (fold eng_second ss e)"
proof (induction ss arbitrary: e)
  case (Cons s ss)
  note g = second_grows [OF Cons.prems, of s]
  show ?case using grows_trans [OF g Cons.IH [OF grows_form [OF g]]] by simp
qed (simp add: grows_refl)

lemma advance_grows: "pos_form e \<Longrightarrow> grows e (eng_advance T e)"
proof -
  assume f: "pos_form e"
  let ?e1 = "fold eng_second [e_last_T e + 1..T] e"
  note g = seconds_grow [OF f, of "[e_last_T e + 1..T]"]
  have "grows ?e1 (eng_advance T e)"
    by (rule grows_view [OF _ grows_form [OF g]]) (simp add: eng_advance_def trade_view_def Let_def)
  with g show ?thesis by (rule grows_trans)
qed

lemma finish_grows: "pos_form e \<Longrightarrow> grows e (eng_finish e)"
  unfolding eng_finish_def by (meson advance_grows finish_pos_grows grows_form grows_trans)

lemma on_trade_grows: "pos_form e \<Longrightarrow> grows e (eng_on_trade s q sd e)"
  by (rule grows_view) (simp_all add: trade_view_def eng_on_trade_def Let_def)

lemma on_quote_grows: "pos_form e \<Longrightarrow> grows e (eng_on_quote ts b bq a aq cont ses e)"
  by (rule grows_view) (simp_all add: trade_view_def eng_on_quote_def Let_def)

lemma on_fut_quote_grows: "pos_form e \<Longrightarrow> grows e (eng_on_fut_quote ts b bq a aq e)"
proof -
  assume f: "pos_form e"
  have g: "grows e' (check_newest Logic2 (check_newest Logic1 e'))" if "pos_form e'" for e'
    using check_newest_grows that grows_form grows_trans by blast
  obtain e' where e': "trade_view e' = trade_view e"
    "eng_on_fut_quote ts b bq a aq e = e \<or> eng_on_fut_quote ts b bq a aq e = check_newest Logic2 (check_newest Logic1 e')"
    by (rule that [of "(let two = 0 < b \<and> b < a; e1 = (if two
                      then e\<lparr>e_fts := e_fts e @ [ts], e_fbid := e_fbid e @ [b], e_fask := e_fask e @ [a],
                             e_fbq := e_fbq e @ [bq], e_faq := e_faq e @ [aq]\<rparr>
                      else e)
         in e1\<lparr>e_xts := e_xts e1 @ [ts], e_xbid := e_xbid e1 @ [max b 0], e_xask := e_xask e1 @ [max a 0]\<rparr>)"])
      (simp_all add: trade_view_def eng_on_fut_quote_def Let_def)
  note v = grows_view [OF e'(1) f]
  show ?thesis using e'(2) grows_refl [OF f] grows_trans [OF v g [OF grows_form [OF v]]] by auto
qed

lemma init_form: "pos_form (eng_init p base mk)"
  by (simp add: pos_form_def eng_init_def)

subsection \<open>What has been signalled\<close>

definition pair_of :: "params \<Rightarrow> string \<Rightarrow> int \<Rightarrow> eng_trade \<Rightarrow> feed_out list" where
  "pair_of p sm day tr =
     [OutEntry (signal_of_trade p sm day tr), OutExit \<lparr>xs_symbol = sm, xs_day = day, xs_trade = tr\<rparr>]"

text \<open>The signals that stand for the history of an engine.\<close>

definition expected :: "logic \<Rightarrow> string \<Rightarrow> int \<Rightarrow> eng \<Rightarrow> feed_out list" where
  "expected lg sm day e =
     concat (map (pair_of (e_p e) sm day) (filter (\<lambda>tr. tr_logic tr = lg) (e_trades e)))
     @ (case e_pos e lg of None \<Rightarrow> [] | Some pos \<Rightarrow> [OutEntry (signal_of_pos sm day pos)])"

fun out_day :: "feed_out \<Rightarrow> int" where
  "out_day (OutEntry s) = sg_day s"
| "out_day (OutExit x) = xs_day x"

definition day_outs :: "int \<Rightarrow> feed \<Rightarrow> feed_out list" where
  "day_outs day fd = filter (\<lambda>out. out_day out = day) (fd_out fd)"

lemma emit_trades_spec:
  "emit_trades p lg sm day trs t =
     (case filter (\<lambda>tr. tr_logic tr = lg) trs of
        [] \<Rightarrow> (t, [])
      | tr # rest \<Rightarrow> (None, (if t = Some (tr_t_sig tr) then tl (pair_of p sm day tr) else pair_of p sm day tr)
                          @ concat (map (pair_of p sm day) rest)))"
proof (induction trs arbitrary: t)
  case (Cons tr trs)
  show ?case
    by (auto simp: Cons.IH pair_of_def split: list.split)
qed simp

definition in_step :: "logic \<Rightarrow> day_state \<Rightarrow> eng \<Rightarrow> bool" where
  "in_step lg st e \<longleftrightarrow> ds_n_trades st = length (e_trades e) \<and> ds_pos_tsig st = map_option ps_t_sig (e_pos e lg)"

lemma signal_t_sig: "signal_of_pos sm day pos = signal_of_trade p sm day tr \<Longrightarrow> ps_t_sig pos = tr_t_sig tr"
  "signal_of_pos sm day pos = signal_of_pos sm day pos' \<Longrightarrow> ps_t_sig pos = ps_t_sig pos'"
  by (simp_all add: signal_of_pos_def signal_of_trade_def)

lemma emit_new_eq:
  assumes "ds_n_trades st = length old" "e_trades (ds_engine st) = old @ new"
    and "emit_trades (e_p (ds_engine st)) lg sm day new (ds_pos_tsig st) = (t1, out1)"
  shows "emit_new lg sm day st =
    (case e_pos (ds_engine st) lg of
       None \<Rightarrow> (st\<lparr>ds_n_trades := length (e_trades (ds_engine st)), ds_pos_tsig := t1\<rparr>, out1)
     | Some pos \<Rightarrow> (st\<lparr>ds_n_trades := length (e_trades (ds_engine st)), ds_pos_tsig := Some (ps_t_sig pos)\<rparr>,
         out1 @ (if Some (ps_t_sig pos) \<noteq> t1 then [OutEntry (signal_of_pos sm day pos)] else [])))"
proof (cases "new = []")
  case True
  then show ?thesis using assms by (auto simp: emit_new_def Let_def split: option.split)
next
  case False
  then show ?thesis using assms by (auto simp: emit_new_def Let_def split: option.split)
qed

lemma emit_new_spec:
  assumes g: "grows e0 (ds_engine st)" and s: "in_step lg st e0"
  shows "\<exists>out. emit_new lg sm day st = (st\<lparr>ds_n_trades := length (e_trades (ds_engine st)),
        ds_pos_tsig := map_option ps_t_sig (e_pos (ds_engine st) lg)\<rparr>, out)
    \<and> expected lg sm day (ds_engine st) = expected lg sm day e0 @ out"
proof -
  let ?e = "ds_engine st" and ?p = "e_p (ds_engine st)"
  let ?sig = "signal_of_trade ?p sm day"
  obtain new where new: "e_trades ?e = e_trades e0 @ new" using g by (auto simp: grows_def)
  have p: "e_p e0 = ?p" using g by (simp add: grows_def)
  define fs where "fs = filter (\<lambda>tr. tr_logic tr = lg) new"
  define pl where "pl = (\<lambda>e :: eng. case e_pos e lg of None \<Rightarrow> [] | Some pos \<Rightarrow> [signal_of_pos sm day pos])"
  obtain ys where "sig_hist lg sm day ?e = sig_hist lg sm day e0 @ ys" using g unfolding grows_def by blast
  then have h: "map ?sig fs @ pl ?e = pl e0 @ ys" by (simp add: sig_hist_def new p fs_def pl_def)
  define t where "t = ds_pos_tsig st"
  have t: "t = map_option ps_t_sig (e_pos e0 lg)" and n: "ds_n_trades st = length (e_trades e0)"
    using s by (simp_all add: in_step_def t_def)
  show ?thesis
  proof (cases fs)
    case Nil
    have em2: "emit_trades ?p lg sm day new (ds_pos_tsig st) = (t, [])"
      by (simp add: emit_trades_spec fs_def [symmetric] Nil t_def)
    note run = emit_new_eq [OF n new em2]
    have ex: "expected lg sm day ?e = concat (map (pair_of ?p sm day) (filter (\<lambda>tr. tr_logic tr = lg) (e_trades e0)))
        @ (case e_pos ?e lg of None \<Rightarrow> [] | Some pos \<Rightarrow> [OutEntry (signal_of_pos sm day pos)])"
      by (simp add: expected_def new fs_def [symmetric] Nil)
    show ?thesis
    proof (cases "e_pos e0 lg")
      case None
      then show ?thesis using t h Nil ex p
        by (cases "e_pos ?e lg") (simp_all add: run expected_def)
    next
      case (Some p0)
      then obtain p1 where p1: "e_pos ?e lg = Some p1" "signal_of_pos sm day p1 = signal_of_pos sm day p0"
        using h Nil by (auto simp: pl_def split: option.splits)
      then show ?thesis using Some t ex p signal_t_sig(2) [OF p1(2)]
        by (simp add: run expected_def)
    qed
  next
    case (Cons tr rest)
    define ent where "ent = (if t = Some (tr_t_sig tr) then tl (pair_of ?p sm day tr) else pair_of ?p sm day tr)"
    have em2: "emit_trades ?p lg sm day new (ds_pos_tsig st) = (None, ent @ concat (map (pair_of ?p sm day) rest))"
      by (simp add: emit_trades_spec fs_def [symmetric] Cons ent_def t_def)
    note run = emit_new_eq [OF n new em2]
    have ent: "(case e_pos e0 lg of None \<Rightarrow> [] | Some pos \<Rightarrow> [OutEntry (signal_of_pos sm day pos)]) @ ent
        = pair_of ?p sm day tr"
    proof (cases "e_pos e0 lg")
      case None
      then show ?thesis using t by (simp add: ent_def)
    next
      case (Some p0)
      then have "signal_of_pos sm day p0 = signal_of_trade ?p sm day tr" using h Cons by (simp add: pl_def)
      then show ?thesis using Some t signal_t_sig(1) by (simp add: ent_def pair_of_def)
    qed
    have ex: "expected lg sm day ?e = expected lg sm day e0 @ ent @ concat (map (pair_of ?p sm day) rest)
        @ (case e_pos ?e lg of None \<Rightarrow> [] | Some pos \<Rightarrow> [OutEntry (signal_of_pos sm day pos)])"
      unfolding expected_def new filter_append fs_def [symmetric] Cons p
      using ent by simp
    show ?thesis
      by (cases "e_pos ?e lg") (simp_all add: run ex)
  qed
qed

lemma emit_day: "list_all (\<lambda>out. out_day out = day) (snd (emit_new lg sm day st))"
proof -
  have pair: "list_all (\<lambda>out. out_day out = day) (pair_of p sm day tr)" for p tr
    by (simp add: pair_of_def signal_of_trade_def)
  have tl: "list_all P xs \<Longrightarrow> list_all P (tl xs)" for P and xs :: "feed_out list" by (cases xs) simp_all
  have cc: "list_all (\<lambda>out. out_day out = day) (concat (map (pair_of p sm day) trs))" for p trs
    using pair by (auto simp: list_all_iff)
  have tr: "list_all (\<lambda>out. out_day out = day) (snd (emit_trades p lg sm day trs t))" for p trs t
    using pair tl cc by (auto simp: emit_trades_spec split: list.split)
  define r where "r = (if ds_n_trades st < length (e_trades (ds_engine st))
      then emit_trades (e_p (ds_engine st)) lg sm day (drop (ds_n_trades st) (e_trades (ds_engine st))) (ds_pos_tsig st)
      else (ds_pos_tsig st, []))"
  have "list_all (\<lambda>out. out_day out = day) (snd r)" using tr by (simp add: r_def)
  then show ?thesis
    by (cases r) (simp add: emit_new_def Let_def r_def [symmetric] signal_of_pos_def split: option.split)
qed

subsection \<open>Every run of the feed\<close>

text \<open>What has been signalled of a day is the history of \<open>e0\<close>, the engine as it was when the feed
  last looked; that is the engine itself unless it has raised.\<close>

definition day_ok :: "feed \<Rightarrow> int \<Rightarrow> day_state \<Rightarrow> bool" where
  "day_ok fd day st \<longleftrightarrow> (\<exists>e0. pos_form e0 \<and> grows e0 (ds_engine st) \<and> in_step (fd_logic fd) st e0
     \<and> day_outs day fd = expected (fd_logic fd) (fd_symbol fd) day e0
     \<and> (\<not> e_err (ds_engine st) \<longrightarrow> e0 = ds_engine st))"

definition day_inv :: "feed \<Rightarrow> int \<Rightarrow> bool" where
  "day_inv fd day \<longleftrightarrow>
     (case map_of (fd_days fd) day of None \<Rightarrow> day_outs day fd = [] | Some st \<Rightarrow> day_ok fd day st)"

definition feed_inv :: "feed \<Rightarrow> bool" where
  "feed_inv fd \<longleftrightarrow> (\<forall>day. day \<notin> set (fd_finished fd) \<longrightarrow> day_inv fd day)"

lemma day_ok_cong:
  "day_ok fd day st \<Longrightarrow> fd_logic fd' = fd_logic fd \<Longrightarrow> fd_symbol fd' = fd_symbol fd
   \<Longrightarrow> day_outs day fd' = day_outs day fd \<Longrightarrow> ds_engine st' = ds_engine st
   \<Longrightarrow> ds_n_trades st' = ds_n_trades st \<Longrightarrow> ds_pos_tsig st' = ds_pos_tsig st \<Longrightarrow> day_ok fd' day st'"
  by (simp add: day_ok_def in_step_def)

lemma day_inv_cong:
  "day_inv fd day \<Longrightarrow> fd_logic fd' = fd_logic fd \<Longrightarrow> fd_symbol fd' = fd_symbol fd
   \<Longrightarrow> day_outs day fd' = day_outs day fd \<Longrightarrow> map_of (fd_days fd') day = map_of (fd_days fd) day
   \<Longrightarrow> day_inv fd' day"
  by (cases "map_of (fd_days fd) day") (simp_all add: day_inv_def day_ok_def)

text \<open>One day changes, the others do not.\<close>

lemma feed_inv_upd:
  assumes "feed_inv fd" "fd_logic fd' = fd_logic fd" "fd_symbol fd' = fd_symbol fd"
    and "set (fd_finished fd) \<subseteq> set (fd_finished fd')"
    and "\<And>d. d \<noteq> day \<Longrightarrow> day_outs d fd' = day_outs d fd \<and> map_of (fd_days fd') d = map_of (fd_days fd) d"
    and "day \<notin> set (fd_finished fd') \<Longrightarrow> day_inv fd' day"
  shows "feed_inv fd'"
  unfolding feed_inv_def
proof (intro allI impI)
  fix d assume d: "d \<notin> set (fd_finished fd')"
  show "day_inv fd' d"
  proof (cases "d = day")
    case False
    have "day_inv fd d" using assms(1,4) d by (auto simp: feed_inv_def)
    then show ?thesis using assms(2,3) assms(5) [OF False] by (blast intro: day_inv_cong)
  qed (use assms(6) d in simp)
qed

text \<open>After a step that grew the engine, the new signals complete the history.\<close>

lemma emit_inv:
  assumes inv: "feed_inv fd" and fin: "day \<notin> set (fd_finished fd)"
    and g: "grows e0 (ds_engine st)" and s: "in_step (fd_logic fd) st e0"
    and outs: "day_outs day fd = expected (fd_logic fd) (fd_symbol fd) day e0"
  shows "feed_inv (feed_emit day st fd)"
proof -
  let ?lg = "fd_logic fd" and ?sm = "fd_symbol fd"
  obtain out where run: "emit_new ?lg ?sm day st = (st\<lparr>ds_n_trades := length (e_trades (ds_engine st)),
        ds_pos_tsig := map_option ps_t_sig (e_pos (ds_engine st) ?lg)\<rparr>, out)"
    and ex: "expected ?lg ?sm day (ds_engine st) = expected ?lg ?sm day e0 @ out"
    using emit_new_spec [OF g s] by blast
  have od: "list_all (\<lambda>out. out_day out = day) out" using emit_day [of day ?lg ?sm st] run by simp
  let ?fd = "feed_emit day st fd"
  have fs: "fd_logic ?fd = ?lg" "fd_symbol ?fd = ?sm" "fd_finished ?fd = fd_finished fd"
    "fd_days ?fd = AList.update day (st\<lparr>ds_n_trades := length (e_trades (ds_engine st)),
        ds_pos_tsig := map_option ps_t_sig (e_pos (ds_engine st) ?lg)\<rparr>) (fd_days fd)"
    "fd_out ?fd = fd_out fd @ out"
    by (simp_all add: feed_emit_def run)
  have o_day: "day_outs day ?fd = day_outs day fd @ out"
    using od by (simp add: day_outs_def fs list_all_iff)
  have o_other: "day_outs d ?fd = day_outs d fd" if "d \<noteq> day" for d
    using od that by (auto simp: day_outs_def fs list_all_iff filter_empty_conv)
  have "day_ok ?fd day (st\<lparr>ds_n_trades := length (e_trades (ds_engine st)),
        ds_pos_tsig := map_option ps_t_sig (e_pos (ds_engine st) ?lg)\<rparr>)"
    unfolding day_ok_def
    by (rule exI [of _ "ds_engine st"])
      (use grows_form [OF g] in \<open>simp add: fs o_day outs ex in_step_def grows_refl\<close>)
  then have "day_inv ?fd day" by (simp add: day_inv_def fs)
  then show ?thesis using o_other by (intro feed_inv_upd [OF inv, where day = day]) (simp_all add: fs)
qed

lemma grow_day:
  assumes "day_ok fd day st" "grows (ds_engine st) (ds_engine st')"
    and "ds_n_trades st' = ds_n_trades st" "ds_pos_tsig st' = ds_pos_tsig st"
  shows "\<exists>e0. pos_form e0 \<and> grows e0 (ds_engine st') \<and> in_step (fd_logic fd) st' e0
    \<and> day_outs day fd = expected (fd_logic fd) (fd_symbol fd) day e0"
proof -
  obtain e0 where "pos_form e0" "grows e0 (ds_engine st)" "in_step (fd_logic fd) st e0"
    "day_outs day fd = expected (fd_logic fd) (fd_symbol fd) day e0"
    using assms(1) by (auto simp: day_ok_def)
  then show ?thesis using grows_trans [OF _ assms(2)] assms(3,4) by (auto simp: in_step_def)
qed

lemma day_form: "day_ok fd day st \<Longrightarrow> pos_form (ds_engine st)"
  using grows_form by (auto simp: day_ok_def)

lemma inv_day: "feed_inv fd \<Longrightarrow> day \<notin> set (fd_finished fd) \<Longrightarrow> map_of (fd_days fd) day = Some st \<Longrightarrow> day_ok fd day st"
  unfolding feed_inv_def day_inv_def by fastforce

lemma inv_none: "feed_inv fd \<Longrightarrow> day \<notin> set (fd_finished fd) \<Longrightarrow> map_of (fd_days fd) day = None \<Longrightarrow> day_outs day fd = []"
  unfolding feed_inv_def day_inv_def by fastforce

lemma inv_cong:
  assumes "feed_inv fd" "fd_logic fd' = fd_logic fd" "fd_symbol fd' = fd_symbol fd" "fd_out fd' = fd_out fd"
    and "set (fd_finished fd) \<subseteq> set (fd_finished fd')" "fd_days fd' = fd_days fd"
  shows "feed_inv fd'"
  unfolding feed_inv_def
proof (intro allI impI)
  fix d assume "d \<notin> set (fd_finished fd')"
  then have "day_inv fd d" using assms(1,5) unfolding feed_inv_def by blast
  then show "day_inv fd' d"
    by (rule day_inv_cong) (simp_all only: assms(2-4,6) day_outs_def)
qed

lemma l1_inv:
  assumes inv: "feed_inv fd" and fin: "day \<notin> set (fd_finished fd)"
    and e0: "pos_form (ds_engine st)" "\<And>st' :: day_state. grows (ds_engine st) (ds_engine st') \<Longrightarrow> ds_n_trades st' = ds_n_trades st
      \<Longrightarrow> ds_pos_tsig st' = ds_pos_tsig st
      \<Longrightarrow> \<exists>e0. grows e0 (ds_engine st') \<and> in_step (fd_logic fd) st' e0
           \<and> day_outs day fd = expected (fd_logic fd) (fd_symbol fd) day e0"
  shows "feed_inv (feed_l1 day st t l fd)"
proof -
  obtain b bq a aq where l: "l = (b, bq, a, aq)" by (cases l)
  define e2 where "e2 = eng_on_fut_quote t b (bq * fd_scale fd) a (aq * fd_scale fd)
      (eng_on_quote t b (bq * fd_scale fd) a (aq * fd_scale fd) True True (ds_engine st))"
  define st2 where "st2 = st\<lparr>ds_last_l1 := Some l, ds_engine := e2\<rparr>"
  note q = on_quote_grows [OF e0(1), of t b "bq * fd_scale fd" a "aq * fd_scale fd" True True]
  have "ds_engine st2 = e2" by (simp add: st2_def)
  then have g: "grows (ds_engine st) (ds_engine st2)"
    unfolding e2_def using grows_trans [OF q on_fut_quote_grows [OF grows_form [OF q]]] by (simp only:)
  have "ds_n_trades st2 = ds_n_trades st" "ds_pos_tsig st2 = ds_pos_tsig st" by (simp_all add: st2_def)
  from e0(2) [OF g this] obtain e0 where "grows e0 (ds_engine st2)" "in_step (fd_logic fd) st2 e0"
    "day_outs day fd = expected (fd_logic fd) (fd_symbol fd) day e0" by (elim exE conjE)
  then have "feed_inv (feed_emit day st2 fd)" by (rule emit_inv [OF inv fin])
  moreover have "feed_l1 day st t l fd = feed_emit day st2 fd"
    unfolding feed_l1_def st2_def e2_def l Let_def prod.case by (rule refl)
  ultimately show ?thesis by simp
qed

lemma on_l1_inv:
  assumes inv: "feed_inv fd" shows "feed_inv (snd (feed_on_l1 ts l fd))"
proof -
  let ?day = "ts div (day_len * 1000)"
  let ?fd1 = "fd\<lparr>fd_l1 := Some l, fd_l1_ts := Some (of_int ts / 1000)\<rparr>"
  have i1: "feed_inv ?fd1" by (rule inv_cong [OF inv]) simp_all
  show ?thesis
  proof (cases "?day \<in> set (fd_finished fd)")
    case True
    then show ?thesis using inv by (simp add: feed_on_l1_def Let_def)
  next
    case fin: False
    show ?thesis
    proof (cases "map_of (fd_days fd) ?day")
      case (Some st)
      have d: "day_ok ?fd1 ?day st" by (rule inv_day [OF i1]) (use fin Some in simp_all)
      have "feed_inv (feed_l1 ?day st (of_int (ts mod (day_len * 1000)) / 1000) l ?fd1)"
        by (rule l1_inv [OF i1 _ day_form [OF d]]) (use fin grow_day [OF d] in auto)
      then show ?thesis using Some fin i1 by (simp add: feed_on_l1_def Let_def)
    next
      case None
      have outs: "day_outs ?day ?fd1 = []" by (rule inv_none [OF i1]) (use fin None in simp_all)
      show ?thesis
      proof (cases "new_engine (fd_spec fd) ((fst l + fst (snd (snd l))) / 2)")
        case (Inl err)
        then show ?thesis using None fin i1 by (simp add: feed_on_l1_def Let_def)
      next
        case (Inr e)
        obtain p base mk where e: "e = eng_init p base mk"
          using Inr by (auto simp: new_engine_def split: if_splits sum.splits option.splits)
        let ?fd2 = "?fd1\<lparr>fd_pending := adel ?day (fd_pending fd)\<rparr>"
        let ?pend = "case map_of (fd_pending fd) ?day of Some d \<Rightarrow> d | None \<Rightarrow> []"
        let ?st = "(new_day e)\<lparr>ds_trades := fold (\<lambda>(k, q). add_qty k q) ?pend []\<rparr>"
        have i2: "feed_inv ?fd2" by (rule inv_cong [OF i1]) simp_all
        have o2: "day_outs ?day ?fd2 = []" using outs by (simp add: day_outs_def)
        have "feed_inv (feed_l1 ?day ?st (of_int (ts mod (day_len * 1000)) / 1000) l ?fd2)"
        proof (rule l1_inv [OF i2])
          fix st' :: day_state assume "grows (ds_engine ?st) (ds_engine st')" "ds_n_trades st' = ds_n_trades ?st"
            "ds_pos_tsig st' = ds_pos_tsig ?st"
          then show "\<exists>e0. grows e0 (ds_engine st') \<and> in_step (fd_logic ?fd2) st' e0
              \<and> day_outs ?day ?fd2 = expected (fd_logic ?fd2) (fd_symbol ?fd2) ?day e0"
            by (intro exI [of _ e]) (simp add: new_day_def in_step_def e eng_init_def expected_def o2)
        qed (use fin in \<open>simp_all add: new_day_def e init_form\<close>)
        then show ?thesis using None fin Inr by (simp add: feed_on_l1_def Let_def)
      qed
    qed
  qed
qed

lemma prints_keep:
  "pos_form (ds_engine st) \<Longrightarrow> grows (ds_engine st) (ds_engine (feed_prints sc ks st))
   \<and> ds_n_trades (feed_prints sc ks st) = ds_n_trades st \<and> ds_pos_tsig (feed_prints sc ks st) = ds_pos_tsig st"
proof (induction sc ks st rule: feed_prints.induct)
  case (1 sc st)
  then show ?case by (simp add: grows_refl)
next
  case (2 sc k ks st)
  let ?q = "case map_of (ds_trades st) k of Some q \<Rightarrow> q | None \<Rightarrow> 0"
  have g: "grows (ds_engine st) (eng_on_trade (fst k) (py_round (?q * sc)) (snd k) (ds_engine st))"
    by (rule on_trade_grows [OF 2(2)])
  show ?case using 2(1) [OF refl] grows_form [OF g] grows_trans [OF g] by (simp add: Let_def)
qed

text \<open>Replacing a day whose engine raised: nothing is signalled.\<close>

lemma replace_inv:
  assumes inv: "feed_inv fd" and d: "map_of (fd_days fd) day = Some st" "day_ok fd day st"
    and st': "grows (ds_engine st) (ds_engine st')" "ds_n_trades st' = ds_n_trades st"
      "ds_pos_tsig st' = ds_pos_tsig st" "e_err (ds_engine st') \<or> ds_engine st' = ds_engine st"
  shows "feed_inv (fd\<lparr>fd_days := AList.update day st' (fd_days fd)\<rparr>)"
proof -
  let ?fd = "fd\<lparr>fd_days := AList.update day st' (fd_days fd)\<rparr>"
  have "day_ok ?fd day st'"
    using grow_day [OF d(2) st'(1-3)] st'(4) d(2) st'(2,3)
    by (elim disjE) (auto simp: day_ok_def day_outs_def in_step_def)
  then have "day_inv ?fd day" by (simp add: day_inv_def)
  then show ?thesis by (intro feed_inv_upd [OF inv, where day = day]) (simp_all add: day_outs_def)
qed

lemma tick_inv:
  assumes inv: "feed_inv fd" shows "feed_inv (feed_tick day T fd)"
proof (cases "map_of (fd_days fd) day")
  case None
  then show ?thesis using inv by (simp add: feed_tick_def)
next
  case (Some st)
  show ?thesis
  proof (cases "day \<in> set (fd_finished fd)")
    case True
    then show ?thesis using inv Some by (simp add: feed_tick_def)
  next
    case fin: False
    note d = inv_day [OF inv fin Some]
    define st1 where "st1 = feed_prints (fd_scale fd) (ready_keys T (ds_trades st)) st"
    define st2 where "st2 = st1\<lparr>ds_engine := eng_advance T (ds_engine st1)\<rparr>"
    have 1: "grows (ds_engine st) (ds_engine st1)" "ds_n_trades st1 = ds_n_trades st"
      "ds_pos_tsig st1 = ds_pos_tsig st"
      using prints_keep [OF day_form [OF d]] by (simp_all add: st1_def)
    have 2: "grows (ds_engine st) (ds_engine st2)"
      using grows_trans [OF 1(1) advance_grows [OF grows_form [OF 1(1)]]] by (simp add: st2_def)
    have r: "feed_tick day T fd = (if e_err (ds_engine st2) then fd\<lparr>fd_days := AList.update day st2 (fd_days fd)\<rparr>
        else feed_emit day (st2\<lparr>ds_last_T := max (ds_last_T st2) T\<rparr>) fd)"
      using Some fin by (simp add: feed_tick_def Let_def st1_def [symmetric] st2_def)
    show ?thesis
    proof (cases "e_err (ds_engine st2)")
      case True
      then show ?thesis using replace_inv [OF inv Some d 2] 1 r by (simp add: st2_def)
    next
      case False
      obtain e0 where "grows e0 (ds_engine st2)" "in_step (fd_logic fd) (st2\<lparr>ds_last_T := max (ds_last_T st2) T\<rparr>) e0"
        "day_outs day fd = expected (fd_logic fd) (fd_symbol fd) day e0"
        using grow_day [OF d, of "st2\<lparr>ds_last_T := max (ds_last_T st2) T\<rparr>"] 2 1 by (auto simp: st2_def)
      then show ?thesis using emit_inv [OF inv fin] False r by simp
    qed
  qed
qed

lemma finish_inv:
  assumes inv: "feed_inv fd" shows "feed_inv (feed_finish_day day fd)"
proof -
  let ?fd1 = "fd\<lparr>fd_finished := List.insert day (fd_finished fd), fd_pending := adel day (fd_pending fd)\<rparr>"
  have i1: "feed_inv ?fd1" by (rule inv_cong [OF inv]) auto
  show ?thesis
  proof (cases "map_of (fd_days fd) day")
    case None
    then show ?thesis using i1 by (simp add: feed_finish_day_def Let_def)
  next
    case (Some st)
    let ?st1 = "st\<lparr>ds_engine := eng_finish (ds_engine st)\<rparr>"
    let ?fd2 = "feed_emit day ?st1 ?fd1"
    obtain st' out where em: "emit_new (fd_logic fd) (fd_symbol fd) day ?st1 = (st', out)" by fastforce
    have other: "day_outs d ?fd2 = day_outs d fd" if "d \<noteq> day" for d
      using emit_day [of day "fd_logic fd" "fd_symbol fd" ?st1] em that
      by (auto simp: day_outs_def feed_emit_def list_all_iff filter_empty_conv)
    have "feed_inv (?fd2\<lparr>fd_days := adel day (fd_days ?fd2)\<rparr>)"
    proof (rule feed_inv_upd [OF i1, where day = day])
      fix d assume "d \<noteq> day"
      then show "day_outs d (?fd2\<lparr>fd_days := adel day (fd_days ?fd2)\<rparr>) = day_outs d ?fd1
          \<and> map_of (fd_days (?fd2\<lparr>fd_days := adel day (fd_days ?fd2)\<rparr>)) d = map_of (fd_days ?fd1) d"
        using other [of d] by (simp add: feed_emit_def em day_outs_def)
    qed (simp_all add: feed_emit_def em)
    moreover have "feed_inv (?fd1\<lparr>fd_days := AList.update day ?st1 (fd_days ?fd1)\<rparr>)"
      by (rule feed_inv_upd [OF i1, where day = day]) (simp_all add: day_outs_def)
    ultimately show ?thesis using Some by (simp add: feed_finish_day_def Let_def)
  qed
qed

datatype feed_in = InL1 int l1 | InTrade int real bool | InTick int int | InFinish int

fun feed_do :: "feed_in \<Rightarrow> feed \<Rightarrow> feed" where
  "feed_do (InL1 ts l) fd = snd (feed_on_l1 ts l fd)"
| "feed_do (InTrade ts q bm) fd = feed_on_trade_raw ts q bm fd"
| "feed_do (InTick day T) fd = feed_tick day T fd"
| "feed_do (InFinish day) fd = feed_finish_day day fd"

lemma trade_raw_inv:
  assumes inv: "feed_inv fd" shows "feed_inv (feed_on_trade_raw ts q bm fd)"
proof -
  let ?day = "ts div 1000 div day_len" and ?sec = "ts div 1000 mod day_len"
  let ?k = "(?sec, if bm then - 1 else 1)"
  show ?thesis
  proof (cases "?day \<in> set (fd_finished fd) \<or> map_of (fd_days fd) ?day = None")
    case True
    have "feed_inv (fd\<lparr>fd_pending := x\<rparr>)" for x by (rule inv_cong [OF inv]) simp_all
    then show ?thesis using True inv by (auto simp: feed_on_trade_raw_def Let_def split: option.split)
  next
    case False
    then obtain st where st: "map_of (fd_days fd) ?day = Some st" "?day \<notin> set (fd_finished fd)" by auto
    note d = inv_day [OF inv st(2,1)]
    define st1 where "st1 = (if ?sec \<le> ds_last_T st - 1 then st\<lparr>ds_late := ds_late st + 1\<rparr> else st)"
    define st2 where "st2 = st1\<lparr>ds_trades := add_qty ?k q (ds_trades st1)\<rparr>"
    have eq: "ds_engine st2 = ds_engine st" "ds_n_trades st2 = ds_n_trades st" "ds_pos_tsig st2 = ds_pos_tsig st"
      by (simp_all add: st2_def st1_def)
    have "grows (ds_engine st) (ds_engine st2)" using grows_refl [OF day_form [OF d]] eq(1) by (simp only:)
    then have "feed_inv (fd\<lparr>fd_days := AList.update ?day st2 (fd_days fd)\<rparr>)"
      by (rule replace_inv [OF inv st(1) d]) (simp_all only: eq simp_thms)
    moreover have "feed_on_trade_raw ts q bm fd = fd\<lparr>fd_days := AList.update ?day st2 (fd_days fd)\<rparr>"
      using st by (simp add: feed_on_trade_raw_def Let_def st2_def st1_def)
    ultimately show ?thesis by simp
  qed
qed

lemma feed_run_inv:
  assumes "feed_init sp sm = Inr fd0" shows "feed_inv (fold feed_do ins fd0)"
proof (induction ins rule: rev_induct)
  case Nil
  have "fd_days fd0 = [] \<and> fd_out fd0 = []" using assms by (auto simp: feed_init_def split: sum.splits)
  then show ?case by (simp add: feed_inv_def day_inv_def day_outs_def)
next
  case (snoc i ins)
  then show ?case
    by (cases i) (simp_all add: on_l1_inv trade_raw_inv tick_inv finish_inv)
qed

lemma feed_keeps:
  assumes "feed_init sp sm = Inr fd0"
  shows "fd_logic (fold feed_do ins fd0) = Logic1 \<and> fd_symbol (fold feed_do ins fd0) = sm"
proof -
  have em: "fd_logic (feed_emit day st fd) = fd_logic fd \<and> fd_symbol (feed_emit day st fd) = fd_symbol fd"
    for day st fd by (cases "emit_new (fd_logic fd) (fd_symbol fd) day st") (simp add: feed_emit_def)
  have l1: "fd_logic (feed_l1 day st t l fd) = fd_logic fd \<and> fd_symbol (feed_l1 day st t l fd) = fd_symbol fd"
    for day st t l fd by (cases l) (simp add: feed_l1_def Let_def em)
  have "fd_logic (feed_do i fd) = fd_logic fd \<and> fd_symbol (feed_do i fd) = fd_symbol fd" for i fd
    by (cases i) (simp_all add: feed_on_l1_def feed_on_trade_raw_def feed_tick_def feed_finish_day_def
        Let_def em l1 split: option.split sum.split)
  moreover have "fd_logic fd0 = Logic1 \<and> fd_symbol fd0 = sm"
    using assms by (auto simp: feed_init_def spec_logic_def split: if_splits sum.splits)
  ultimately show ?thesis by (induction ins rule: rev_induct) simp_all
qed


definition example_feed :: feed where
  "example_feed = \<lparr>fd_spec = example_spec, fd_symbol = ''ETHUSDT'', fd_scale = 1000, fd_logic = Logic1,
     fd_days = [], fd_finished = [], fd_pending = [], fd_l1 = None, fd_l1_ts = None, fd_out = []\<rparr>"

lemma example_feed_init: "feed_init example_spec ''ETHUSDT'' = Inr example_feed"
  by (simp add: feed_init_def spec_logic_def example_spec_def example_feed_def)


end
