(* ===== verification/Broker_Interface.thy ===== *)
theory Broker_Interface
  imports Exec_Types
begin

text \<open>
  The broker interface of \<open>src/execution/base.py\<close>: the operations a strategy or the
  risk guard may call, as a record of functions over the broker's state \<open>'b\<close>, and the
  contract a client relies on, as a locale.  The simulated exchange provides it (theory
  \<open>Paper_Correct\<close>), the risk guard uses it (theory \<open>Risk_Guard\<close>).  \<open>make_broker\<close> is the one
  place where the mode is chosen.
\<close>

record 'b broker_ops =
  b_position :: "'b \<Rightarrow> position"
  b_open_orders :: "'b \<Rightarrow> order list"
  b_get_order :: "string \<Rightarrow> 'b \<Rightarrow> exn + order"
  b_fills :: "'b \<Rightarrow> fill list"
  b_fills_since :: "datetime \<Rightarrow> 'b \<Rightarrow> fill list"
  b_place_market :: "side \<Rightarrow> real \<Rightarrow> string \<Rightarrow> bool \<Rightarrow> 'b \<Rightarrow> (exn + order) \<times> 'b"
  b_place_limit_gtx :: "side \<Rightarrow> real \<Rightarrow> real \<Rightarrow> string \<Rightarrow> bool \<Rightarrow> 'b \<Rightarrow> (exn + order) \<times> 'b"
  b_place_stop_market :: "side \<Rightarrow> real \<Rightarrow> real \<Rightarrow> string \<Rightarrow> 'b \<Rightarrow> (exn + order) \<times> 'b"
  b_cancel :: "string \<Rightarrow> 'b \<Rightarrow> (exn + order) \<times> 'b"
  b_cancel_all :: "'b \<Rightarrow> (exn + order list) \<times> 'b"
  b_poll :: "'b \<Rightarrow> (exn + order_event list) \<times> 'b"

text \<open>\<open>make_broker\<close>: which constructor runs, or the exception.\<close>

datatype broker_kind = PaperExchange | BinanceFuturesBroker

definition make_broker :: "string \<Rightarrow> bool \<Rightarrow> exn + broker_kind" where
  "make_broker md confirm_live =
     (if md = ''paper'' then Inr PaperExchange
      else if md = ''live''
      then (if \<not> confirm_live then Inl (OrderRejected LiveNotConfirmed) else Inr BinanceFuturesBroker)
      else Inl ValueError)"

text \<open>The live broker is built only for the mode ``live'' with the explicit
  confirmation; the confirmation alone never turns another mode into live trading.\<close>

theorem make_broker_live:
  "make_broker md confirm = Inr BinanceFuturesBroker \<longleftrightarrow> md = ''live'' \<and> confirm"
  by (simp add: make_broker_def)

subsection \<open>What a position may do\<close>

definition shrinks :: "real \<Rightarrow> real \<Rightarrow> bool" where
  "shrinks a b \<longleftrightarrow> \<bar>b\<bar> \<le> \<bar>a\<bar> \<and> 0 \<le> a * b"

lemma shrinks_refl [simp]: "shrinks a a"
  by (simp add: shrinks_def)

lemma shrinks_trans: "shrinks a b \<Longrightarrow> shrinks b c \<Longrightarrow> shrinks a c"
  by (cases "b = 0") (auto simp: shrinks_def zero_le_mult_iff)

definition reduces :: "real \<Rightarrow> side \<Rightarrow> real \<Rightarrow> bool" where
  "reduces pos sd q \<longleftrightarrow> pos \<noteq> 0 \<and> (0 < pos) \<noteq> (sd = BUY) \<and> q \<le> \<bar>pos\<bar> + 1 / 10 ^ 9"

lemma reduces_shrinks:
  assumes "reduces pos sd q" "on_grid 8 pos" "on_grid 8 q" "0 \<le> q"
  shows "shrinks pos (pos + side_sign sd * q)"
proof -
  have "on_grid 8 (q - \<bar>pos\<bar>)"
    using assms by (auto simp: abs_if intro: on_grid_diff on_grid_add on_grid_minus)
  then have "q \<le> \<bar>pos\<bar>"
    using assms(1) on_grid_ge [of 8 "q - \<bar>pos\<bar>"]
    by (cases "0 < q - \<bar>pos\<bar>") (auto simp: reduces_def)
  then show ?thesis
    using assms(1,4)
    by (cases sd) (auto simp: reduces_def shrinks_def abs_if zero_le_mult_iff split: if_splits)
qed

subsection \<open>The contract\<close>

text \<open>
  What a client may rely on between two market events: placing and cancelling keep the
  broker's invariant, only a market order moves the position at once, by its quantity or
  not at all, and a reduce-only market order never grows it.
\<close>

locale broker_contract =
  fixes ops :: "'b broker_ops" and inv :: "'b \<Rightarrow> bool"
  assumes market_inv: "inv s \<Longrightarrow> inv (snd (b_place_market ops sd q cid ro s))"
    and limit_inv: "inv s \<Longrightarrow> inv (snd (b_place_limit_gtx ops sd q px cid ro s))"
    and stop_inv: "inv s \<Longrightarrow> inv (snd (b_place_stop_market ops sd q stop cid s))"
    and cancel_inv: "inv s \<Longrightarrow> inv (snd (b_cancel ops cid s))"
    and cancel_all_inv: "inv s \<Longrightarrow> inv (snd (b_cancel_all ops s))"
    and limit_pos: "inv s \<Longrightarrow>
      p_qty (b_position ops (snd (b_place_limit_gtx ops sd q px cid ro s))) = p_qty (b_position ops s)"
    and stop_pos: "inv s \<Longrightarrow>
      p_qty (b_position ops (snd (b_place_stop_market ops sd q stop cid s))) = p_qty (b_position ops s)"
    and cancel_pos: "inv s \<Longrightarrow>
      p_qty (b_position ops (snd (b_cancel ops cid s))) = p_qty (b_position ops s)"
    and cancel_all_pos: "inv s \<Longrightarrow>
      p_qty (b_position ops (snd (b_cancel_all ops s))) = p_qty (b_position ops s)"
    and pos_grid: "inv s \<Longrightarrow> on_grid 8 (p_qty (b_position ops s))"
    and market_pos: "inv s \<Longrightarrow>
      p_qty (b_position ops (snd (b_place_market ops sd q cid ro s)))
        \<in> {p_qty (b_position ops s), p_qty (b_position ops s) + side_sign sd * round8 q}"
    and market_rejects: "inv s \<Longrightarrow> q \<le> 0 \<Longrightarrow>
      p_qty (b_position ops (snd (b_place_market ops sd q cid ro s))) = p_qty (b_position ops s)"
    and market_reduce: "inv s \<Longrightarrow>
      shrinks (p_qty (b_position ops s))
        (p_qty (b_position ops (snd (b_place_market ops sd q cid True s))))"
begin

text \<open>A market order in the reducing direction needs no reduce-only flag.\<close>

lemma reducing_market_shrinks:
  assumes "inv s" "reduces (p_qty (b_position ops s)) sd q"
  shows "shrinks (p_qty (b_position ops s))
    (p_qty (b_position ops (snd (b_place_market ops sd q cid ro s))))"
proof (cases "q \<le> 0")
  case True
  then show ?thesis using market_rejects [OF assms(1)] by simp
next
  case False
  let ?p = "p_qty (b_position ops s)"
  have g: "on_grid 8 ?p" by (rule pos_grid [OF assms(1)])
  have "round8 q \<le> q + 1 / (2 * 10 ^ 8)" using round_dec_err [of 8 q] by linarith
  then have "round8 q - \<bar>?p\<bar> < 1 / 10 ^ 8" using assms(2) by (simp add: reduces_def)
  moreover have "on_grid 8 (round8 q - \<bar>?p\<bar>)"
    using g by (auto simp: abs_if intro: on_grid_diff on_grid_add on_grid_minus)
  ultimately have "round8 q \<le> \<bar>?p\<bar>"
    using on_grid_ge [of 8 "round8 q - \<bar>?p\<bar>"] by (cases "0 < round8 q - \<bar>?p\<bar>") auto
  then have "reduces ?p sd (round8 q)" using assms(2) by (simp add: reduces_def)
  moreover have "0 \<le> round8 q" using False by (simp add: round_dec_nonneg)
  ultimately have "shrinks ?p (?p + side_sign sd * round8 q)"
    using g by (intro reduces_shrinks) simp_all
  then show ?thesis using market_pos [OF assms(1), of sd q cid ro] by auto
qed

end

end
