(* ===== verification/Risk_Guard.thy ===== *)
theory Risk_Guard
  imports Broker_Interface
begin

text \<open>
  The risk guard of \<open>src/execution/risk.py\<close>: a broker around a broker.  Its state is the
  record \<open>guard\<close> over the state \<open>'b\<close> of the broker it wraps; each operation takes the clock
  reading \<open>now\<close>, whether the kill-switch file exists (\<open>kill\<close>) and the broker's operations,
  and returns its result or exception with the new state.  \<open>g_file\<close> is the content of the
  state file, \<open>g_alerts\<close> the alerts sent.
\<close>

datatype risk_status = Active | Paused | Halted

text \<open>The texts of the risk states; the numbers are the rounded ones the text shows.\<close>

datatype risk_reason =
    NoRisk
  | ManualReset string
  | Resumed string
  | ClockOffset int int
  | DataStale int int
  | PositionMismatch real real
  | CumulativeLoss int int
  | ConsecutiveLosses int
  | KillFile
  | RejectStreak int reason
  | MarketStale
  | HaltedBy string
  | HaltedPosition string real

record risk_limits =
  max_abs_position :: real
  test_stop_cumulative_usd :: real
  pause_after_consecutive_losses :: int
  max_clock_offset_ms :: real
  max_data_stale_s :: real
  max_consecutive_rejects :: int

record risk_state =
  r_status :: risk_status
  r_reason :: risk_reason
  r_since :: "datetime option"
  r_cumulative_pnl :: real
  r_consecutive_losses :: int
  r_reject_streak :: int
  r_nights :: "(string \<times> json) list list"

definition fresh_risk :: risk_state where
  "fresh_risk = \<lparr>r_status = Active, r_reason = NoRisk, r_since = None, r_cumulative_pnl = 0,
     r_consecutive_losses = 0, r_reject_streak = 0, r_nights = []\<rparr>"

datatype alert = RiskAlert risk_status risk_reason | CapAlert real real side real

record 'b guard =
  g_broker :: 'b
  g_limits :: risk_limits
  g_state :: risk_state
  g_file :: "risk_state option"
  g_alerts :: "alert list"

definition guard_init :: "'b \<Rightarrow> risk_limits \<Rightarrow> risk_state option \<Rightarrow> 'b guard" where
  "guard_init b lm file =
     \<lparr>g_broker = b, g_limits = lm,
      g_state = (case file of Some st \<Rightarrow> st | None \<Rightarrow> fresh_risk), g_file = file, g_alerts = []\<rparr>"

subsection \<open>State changes\<close>

definition guard_save :: "'b guard \<Rightarrow> 'b guard" where
  "guard_save g = g\<lparr>g_file := Some (g_state g)\<rparr>"

definition guard_alert :: "alert \<Rightarrow> 'b guard \<Rightarrow> 'b guard" where
  "guard_alert a g = g\<lparr>g_alerts := g_alerts g @ [a]\<rparr>"

definition guard_set :: "datetime \<Rightarrow> risk_status \<Rightarrow> risk_reason \<Rightarrow> 'b guard \<Rightarrow> 'b guard" where
  "guard_set now st why g =
     (if r_status (g_state g) = Halted \<and> st \<noteq> Halted then g
      else if (r_status (g_state g), r_reason (g_state g)) = (st, why) then g
      else guard_alert (RiskAlert st why)
             (guard_save (g\<lparr>g_state := (g_state g)\<lparr>r_status := st, r_reason := why,
                                                   r_since := Some now\<rparr>\<rparr>)))"

definition guard_halt :: "datetime \<Rightarrow> risk_reason \<Rightarrow> 'b guard \<Rightarrow> 'b guard" where
  "guard_halt now why g = guard_set now Halted why g"

definition guard_reset_halt :: "datetime \<Rightarrow> bool \<Rightarrow> string \<Rightarrow> 'b guard \<Rightarrow> (exn + unit) \<times> 'b guard" where
  "guard_reset_halt now kill note g =
     (if kill then (Inl (RiskHalt KillFilePresent), g)
      else (Inr (), guard_alert (RiskAlert Active (ManualReset note))
             (guard_save (g\<lparr>g_state := (g_state g)\<lparr>r_status := Active, r_reason := ManualReset note,
                                  r_since := Some now, r_reject_streak := 0\<rparr>\<rparr>))))"

definition guard_resume :: "string \<Rightarrow> 'b guard \<Rightarrow> 'b guard" where
  "guard_resume note g =
     (if r_status (g_state g) = Paused
      then guard_alert (RiskAlert Active (Resumed note))
             (guard_save (g\<lparr>g_state := (g_state g)\<lparr>r_status := Active, r_reason := Resumed note,
                                                   r_consecutive_losses := 0\<rparr>\<rparr>))
      else g)"

definition guard_check_kill :: "datetime \<Rightarrow> bool \<Rightarrow> 'b guard \<Rightarrow> 'b guard" where
  "guard_check_kill now kill g = (if kill then guard_halt now KillFile g else g)"

definition guard_can_enter :: "datetime \<Rightarrow> bool \<Rightarrow> 'b guard \<Rightarrow> bool \<times> 'b guard" where
  "guard_can_enter now kill g =
     (let g1 = guard_check_kill now kill g in (r_status (g_state g1) = Active, g1))"

subsection \<open>Checks\<close>

definition guard_check_health ::
    "datetime \<Rightarrow> bool \<Rightarrow> real option \<Rightarrow> real option \<Rightarrow> 'b guard \<Rightarrow> 'b guard" where
  "guard_check_health now kill offset age g =
     (let lm = g_limits g;
          g1 = guard_check_kill now kill g;
          g2 = (case offset of
                  None \<Rightarrow> g1
                | Some ms \<Rightarrow> (if max_clock_offset_ms lm < \<bar>ms\<bar>
                     then guard_halt now (ClockOffset (py_round ms) (py_round (max_clock_offset_ms lm))) g1
                     else g1))
      in case age of
           None \<Rightarrow> g2
         | Some a \<Rightarrow> (if max_data_stale_s lm < a
              then guard_halt now (DataStale (py_round a) (py_round (max_data_stale_s lm))) g2
              else g2))"

definition guard_check_position :: "datetime \<Rightarrow> 'b broker_ops \<Rightarrow> real \<Rightarrow> 'b guard \<Rightarrow> 'b guard" where
  "guard_check_position now ops expected g =
     (let actual = p_qty (b_position ops (g_broker g))
      in if 1 / 10 ^ 9 < \<bar>actual - expected\<bar>
         then guard_halt now (PositionMismatch expected actual) g else g)"

definition guard_record_night ::
    "datetime \<Rightarrow> string \<Rightarrow> real \<Rightarrow> (string \<times> json) list \<Rightarrow> 'b guard \<Rightarrow> 'b guard" where
  "guard_record_night now entry_date pnl detail g =
     (let s = g_state g; lm = g_limits g;
          s1 = s\<lparr>r_cumulative_pnl := r_cumulative_pnl s + pnl,
                 r_consecutive_losses := (if pnl < 0 then r_consecutive_losses s + 1 else 0),
                 r_nights := r_nights s @
                   [fold (\<lambda>(k, v). AList.update k v) detail
                      [(''entry_date'', JStr entry_date), (''pnl'', JNum pnl)]]\<rparr>;
          g1 = guard_save (g\<lparr>g_state := s1\<rparr>)
      in if r_cumulative_pnl s1 \<le> test_stop_cumulative_usd lm
         then guard_halt now (CumulativeLoss (py_round (r_cumulative_pnl s1 * 100))
                (py_round (test_stop_cumulative_usd lm * 100))) g1
         else if pause_after_consecutive_losses lm \<le> r_consecutive_losses s1
         then guard_set now Paused (ConsecutiveLosses (r_consecutive_losses s1)) g1
         else g1)"

subsection \<open>Orders\<close>

definition guard_reduces :: "'b broker_ops \<Rightarrow> side \<Rightarrow> real \<Rightarrow> 'b guard \<Rightarrow> bool" where
  "guard_reduces ops sd q g =
     (let pos = p_qty (b_position ops (g_broker g))
      in pos \<noteq> 0 \<and> (0 < pos) \<noteq> (sd = BUY) \<and> q \<le> \<bar>pos\<bar> + 1 / 10 ^ 9)"

definition guard_pending :: "'b broker_ops \<Rightarrow> 'b guard \<Rightarrow> real" where
  "guard_pending ops g =
     (\<Sum>ord\<leftarrow>filter (\<lambda>ord. \<not> o_reduce_only ord \<and> o_type ord \<noteq> STOP_MARKET)
               (b_open_orders ops (g_broker g)). remaining ord * side_sign (o_side ord))"

definition guard_pre_trade ::
    "datetime \<Rightarrow> bool \<Rightarrow> 'b broker_ops \<Rightarrow> side \<Rightarrow> real \<Rightarrow> bool \<Rightarrow> 'b guard
     \<Rightarrow> (exn + unit) \<times> 'b guard" where
  "guard_pre_trade now kill ops sd q ro g =
     (let g1 = guard_check_kill now kill g
      in if ro \<or> guard_reduces ops sd q g1 then (Inr (), g1)
         else if r_status (g_state g1) \<noteq> Active then (Inl (RiskHalt RiskStateNotActive), g1)
         else
           (let pos = p_qty (b_position ops (g_broker g1)); pending = guard_pending ops g1;
                worst = pos + pending + side_sign sd * q
            in if max_abs_position (g_limits g1) + 1 / 10 ^ 9 < \<bar>worst\<bar>
               then (Inl (RiskHalt (PositionLimit worst)), guard_alert (CapAlert pos pending sd q) g1)
               else (Inr (), g1)))"

definition guard_rejected :: "datetime \<Rightarrow> reason \<Rightarrow> 'b guard \<Rightarrow> 'b guard" where
  "guard_rejected now why g =
     (let s1 = (g_state g)\<lparr>r_reject_streak := r_reject_streak (g_state g) + 1\<rparr>;
          g1 = guard_save (g\<lparr>g_state := s1\<rparr>)
      in if max_consecutive_rejects (g_limits g) \<le> r_reject_streak s1
         then guard_halt now (RejectStreak (r_reject_streak s1) why) g1 else g1)"

definition guard_after :: "datetime \<Rightarrow> order \<Rightarrow> 'b guard \<Rightarrow> 'b guard" where
  "guard_after now ord g =
     (if o_status ord = REJECTED then guard_rejected now (o_reason ord) g
      else guard_save (g\<lparr>g_state := (g_state g)\<lparr>r_reject_streak := 0\<rparr>\<rparr>))"

definition guarded ::
    "datetime \<Rightarrow> ('b \<Rightarrow> (exn + order) \<times> 'b) \<Rightarrow> 'b guard \<Rightarrow> (exn + order) \<times> 'b guard" where
  "guarded now f g =
     (case f (g_broker g) of
        (r, b) \<Rightarrow>
          (let g1 = g\<lparr>g_broker := b\<rparr>
           in case r of
                Inr ord \<Rightarrow> (r, guard_after now ord g1)
              | Inl (RiskHalt why) \<Rightarrow> (r, g1)
              | Inl StaleMarketData \<Rightarrow> (r, guard_halt now MarketStale g1)
              | Inl (OrderRejected why) \<Rightarrow> (r, guard_rejected now why g1)
              | Inl _ \<Rightarrow> (r, g1)))"

definition guard_place_market ::
    "datetime \<Rightarrow> bool \<Rightarrow> 'b broker_ops \<Rightarrow> side \<Rightarrow> real \<Rightarrow> string \<Rightarrow> bool \<Rightarrow> 'b guard
     \<Rightarrow> (exn + order) \<times> 'b guard" where
  "guard_place_market now kill ops sd q cid ro g =
     (case guard_pre_trade now kill ops sd q ro g of
        (Inl e, g1) \<Rightarrow> (Inl e, g1)
      | (Inr _, g1) \<Rightarrow> guarded now (b_place_market ops sd q cid ro) g1)"

definition guard_place_limit_gtx ::
    "datetime \<Rightarrow> bool \<Rightarrow> 'b broker_ops \<Rightarrow> side \<Rightarrow> real \<Rightarrow> real \<Rightarrow> string \<Rightarrow> bool \<Rightarrow> 'b guard
     \<Rightarrow> (exn + order) \<times> 'b guard" where
  "guard_place_limit_gtx now kill ops sd q px cid ro g =
     (case guard_pre_trade now kill ops sd q ro g of
        (Inl e, g1) \<Rightarrow> (Inl e, g1)
      | (Inr _, g1) \<Rightarrow> guarded now (b_place_limit_gtx ops sd q px cid ro) g1)"

definition guard_place_stop_market ::
    "datetime \<Rightarrow> bool \<Rightarrow> 'b broker_ops \<Rightarrow> side \<Rightarrow> real \<Rightarrow> real \<Rightarrow> string \<Rightarrow> 'b guard
     \<Rightarrow> (exn + order) \<times> 'b guard" where
  "guard_place_stop_market now kill ops sd q stop cid g =
     (let g1 = guard_check_kill now kill g
      in if \<not> guard_reduces ops sd q g1 then (Inl (RiskHalt StopNotReducing), g1)
         else guarded now (b_place_stop_market ops sd q stop cid) g1)"

definition guard_cancel :: "'b broker_ops \<Rightarrow> string \<Rightarrow> 'b guard \<Rightarrow> (exn + order) \<times> 'b guard" where
  "guard_cancel ops cid g =
     (case b_cancel ops cid (g_broker g) of (r, b) \<Rightarrow> (r, g\<lparr>g_broker := b\<rparr>))"

definition guard_cancel_all :: "'b broker_ops \<Rightarrow> 'b guard \<Rightarrow> (exn + order list) \<times> 'b guard" where
  "guard_cancel_all ops g =
     (case b_cancel_all ops (g_broker g) of (r, b) \<Rightarrow> (r, g\<lparr>g_broker := b\<rparr>))"

definition guard_poll :: "'b broker_ops \<Rightarrow> 'b guard \<Rightarrow> (exn + order_event list) \<times> 'b guard" where
  "guard_poll ops g = (case b_poll ops (g_broker g) of (r, b) \<Rightarrow> (r, g\<lparr>g_broker := b\<rparr>))"

text \<open>The guard offers the interface it wraps.\<close>

definition guard_ops :: "datetime \<Rightarrow> bool \<Rightarrow> 'b broker_ops \<Rightarrow> 'b guard broker_ops" where
  "guard_ops now kill ops =
     \<lparr>b_position = (\<lambda>g. b_position ops (g_broker g)),
      b_open_orders = (\<lambda>g. b_open_orders ops (g_broker g)),
      b_get_order = (\<lambda>cid g. b_get_order ops cid (g_broker g)),
      b_fills = (\<lambda>g. b_fills ops (g_broker g)),
      b_fills_since = (\<lambda>t g. b_fills_since ops t (g_broker g)),
      b_place_market = guard_place_market now kill ops,
      b_place_limit_gtx = guard_place_limit_gtx now kill ops,
      b_place_stop_market = guard_place_stop_market now kill ops,
      b_cancel = guard_cancel ops, b_cancel_all = guard_cancel_all ops, b_poll = guard_poll ops\<rparr>"

end
