(* ===== verification/Trader.thy ===== *)
theory Trader
  imports Feed Risk_Guard
begin

text \<open>
  The trader of \<open>strategies/pastofi_crypto/trader.py\<close>: entry and exit signals to orders on
  the guarded broker of each symbol, the position book, the cumulative result with its stop
  line, the maker exit, the emergency stop, the periodic check and the recovery after a
  restart.  The state is the record \<open>trader\<close>; handlers and worker tasks are state
  transformers over it.  A submitted task waits in \<open>td_queue\<close> (one queue per symbol in the
  code; a symbol's tasks run in order).  What reaches the journal, the alerts and the
  messenger is the list \<open>td_log\<close>; \<open>td_file\<close> is the state file.  \<open>tenv\<close> holds what a call
  reads from outside: the clocks, the kill-switch file, the quotes, the data gate, the
  resume file and the broker operations.  A Python exception that leaves a handler is the
  log entry \<open>Raised\<close>.
\<close>

subsection \<open>Client ids\<close>

definition ymd :: "int \<Rightarrow> string" where
  "ymd d = (case civil d of (y, m, dd) \<Rightarrow> digits 4 (nat y) @ digits 2 (nat m) @ digits 2 (nat dd))"

definition short_names :: "(string \<times> string) list" where
  "short_names = [(''BTCUSDT'', ''BTC''), (''ETHUSDT'', ''ETH''), (''SOLUSDT'', ''SOL''), (''EWYUSDT'', ''EWY'')]"

datatype leg = EntryLeg | ExitLeg | MakerLeg | StopLeg

fun leg_char :: "leg \<Rightarrow> char" where
  "leg_char EntryLeg = CHR ''e''"
| "leg_char ExitLeg = CHR ''x''"
| "leg_char MakerLeg = CHR ''m''"
| "leg_char StopLeg = CHR ''s''"

definition cid_of :: "string \<Rightarrow> string \<Rightarrow> int \<Rightarrow> leg \<Rightarrow> nat \<Rightarrow> string" where
  "cid_of prefix sm ep lg n =
     prefix @ (case map_of short_names sm of Some s \<Rightarrow> s | None \<Rightarrow> take 3 sm) @ ''-'' @ ymd (ep div day_len)
     @ ''-'' @ show_nat (nat (ep mod day_len)) @ ''-'' @ [leg_char lg] @ show_nat n"

subsection \<open>State\<close>

datatype trade_mode = Paper | Live

datatype source = FromEngine | Recovered

datatype pos_status = Opening | Open | Closing

datatype exit_why =
    Engine exit_reason
  | EmergencyStop
  | FiveMinRestart
  | FiveMinBackup
  | TakeProfitRestart
  | StopLossRestart
  | StopWhileOff
  | VanishedWhileOff
  | WithMaker exit_why
  | PartMaker exit_why
  | NoPosition exit_why
  | MakerOnly

record exit_request =
  rq_why :: exit_why
  rq_assumed_out :: "real option"
  rq_t_out :: real

record tpos =
  tp_status :: pos_status
  tp_source :: source
  tp_qty :: real
  tp_ep :: int
  tp_day :: int
  tp_deadline :: int
  tp_assumed_in :: real
  tp_tp_px :: real
  tp_sl_px :: real
  tp_feat :: feat
  tp_entry_cid :: string
  tp_exit_n :: nat
  tp_entry_px :: "real option"
  tp_entry_fee :: "real option"
  tp_entry_ts :: "real option"
  tp_stop_cid :: "string option"
  tp_stop_px :: real
  tp_slip_in :: "real option"
  tp_fee_estimated :: bool
  tp_exit_req :: "exit_request option"
  tp_retry_at :: real
  tp_maker_cid :: "string option"
  tp_maker_px :: "real option"
  tp_maker_ts :: "real option"
  tp_maker_tried :: bool

record day_result =
  dr_net :: real
  dr_n :: nat
  dr_win :: nat
  dr_loss :: nat

record trader_state =
  ts_mode :: trade_mode
  ts_version :: string
  ts_started_at :: real
  ts_trial_end :: real
  ts_halted :: bool
  ts_halt_reason :: "(real \<times> real) option"
  ts_halt_since :: "real option"
  ts_cum_net :: real
  ts_cum_gross :: real
  ts_cum_fees :: real
  ts_n_trades :: nat
  ts_entries :: "int \<Rightarrow> string \<Rightarrow> nat"
  ts_realized :: "int \<Rightarrow> day_result option"
  ts_positions :: "(string \<times> tpos option) list"
  ts_alerted :: "(int \<times> string) list"
  ts_last_start :: "real option"
  ts_starts :: "real list"

datatype skip_why =
    HaltLine "(real \<times> real) option"
  | RiskNotActive risk_status risk_reason
  | DayLimit nat
  | Holding
  | Gate string
  | NoQuote
  | QtyCap
  | NoMargin
  | EntryFailed exn
  | NoRecord

datatype signal_status = Traded | Skipped skip_why

datatype t_alert =
    SizeRefused string
  | EntryLimit string int nat
  | EntryNotPlaced string exn
  | EntryNotFilled string status reason
  | StopNotPlaced string exn
  | MakerCleanup string exn
  | ExitFailed string nat
  | StopNotCancelled string exn
  | StopLineReached real real
  | ResetFailed string exn
  | ResumedLine bool bool real

datatype trade_event =
    SkipEvent string int skip_why
  | EntryEvent string real real int string bool
  | MakerSkip string int
  | MakerPlaced string int "real option" real string
  | ExitEvent string exit_why real real real real

record trade_rec =
  tx_sym :: string
  tx_ep :: int
  tx_day :: int
  tx_entry_ts :: "real option"
  tx_exit_ts :: real
  tx_qty :: real
  tx_entry_px :: real
  tx_exit_px :: real
  tx_assumed_in :: real
  tx_assumed_out :: "real option"
  tx_why :: exit_why
  tx_gross :: real
  tx_fees :: real
  tx_net :: real
  tx_bp :: real
  tx_assumed_bp :: "real option"
  tx_slip_in :: "real option"
  tx_slip_out :: "real option"
  tx_entry_cid :: string
  tx_exit_cid :: string
  tx_source :: source

datatype trader_out =
    TSignal string int signal_status
  | TSignalExit string int eng_trade signal_status
  | TEvent trade_event
  | TAlert t_alert
  | TTrade trade_rec
  | Raised exn
  | RaisedSpec spec_error

datatype task = DoEntry int | DoExit int | PlaceMaker int | PollMaker int | CheckStop

record 'b trader =
  td_spec :: spec
  td_p :: params
  td_maker_s :: "real option"
  td_filters :: "(string \<times> sym_filters) list"
  td_guard :: "string \<Rightarrow> 'b guard"
  td_state :: trader_state
  td_file :: "trader_state option"
  td_next_poll :: "string \<Rightarrow> real"
  td_sig_status :: "((string \<times> int) \<times> signal_status) list"
  td_queue :: "(string \<times> task) list"
  td_log :: "trader_out list"

record resume_request =
  rr_reset_cum :: bool
  rr_note :: "string option"

record 'b tenv =
  te_now :: real
  te_clock :: datetime
  te_kill :: bool
  te_quote :: "string \<Rightarrow> (real \<times> real) option"
  te_gate :: "string \<Rightarrow> signal \<Rightarrow> string option"
  te_wallet :: "real option"
  te_resume :: "resume_request option"
  te_ops :: "string \<Rightarrow> 'b broker_ops"

subsection \<open>Common parts\<close>

definition utc_day :: "real \<Rightarrow> int" where
  "utc_day t = \<lfloor>t\<rfloor> div day_len"

definition td_save :: "'b trader \<Rightarrow> 'b trader" where
  "td_save t = t\<lparr>td_file := Some (td_state t)\<rparr>"

definition td_say :: "trader_out \<Rightarrow> 'b trader \<Rightarrow> 'b trader" where
  "td_say x t = t\<lparr>td_log := td_log t @ [x]\<rparr>"

definition pos_at :: "string \<Rightarrow> 'b trader \<Rightarrow> tpos option" where
  "pos_at sm t = (case map_of (ts_positions (td_state t)) sm of Some (Some q) \<Rightarrow> Some q | _ \<Rightarrow> None)"

definition set_pos :: "string \<Rightarrow> tpos option \<Rightarrow> 'b trader \<Rightarrow> 'b trader" where
  "set_pos sm q t = t\<lparr>td_state := (td_state t)\<lparr>ts_positions := AList.update sm q (ts_positions (td_state t))\<rparr>\<rparr>"

definition set_guard :: "string \<Rightarrow> 'b guard \<Rightarrow> 'b trader \<Rightarrow> 'b trader" where
  "set_guard sm g t = t\<lparr>td_guard := (td_guard t)(sm := g)\<rparr>"

definition td_submit :: "string \<Rightarrow> task \<Rightarrow> 'b trader \<Rightarrow> 'b trader" where
  "td_submit sm k t = t\<lparr>td_queue := td_queue t @ [(sm, k)]\<rparr>"

text \<open>\<open>alert(text, key)\<close>: the same key alerts once; 500 keys are remembered.\<close>

definition td_alert_once :: "int \<times> string \<Rightarrow> t_alert \<Rightarrow> 'b trader \<Rightarrow> 'b trader" where
  "td_alert_once key a t =
     (if key \<in> set (ts_alerted (td_state t)) then t
      else
        (let ks = ts_alerted (td_state t) @ [key]
         in td_say (TAlert a) (td_save (t\<lparr>td_state := (td_state t)\<lparr>ts_alerted := drop (length ks - 500) ks\<rparr>\<rparr>))))"

definition td_cid :: "string \<Rightarrow> int \<Rightarrow> leg \<Rightarrow> nat \<Rightarrow> 'b trader \<Rightarrow> string" where
  "td_cid sm ep lg n t = cid_of (sp_prefix (td_spec t)) sm ep lg n"

definition td_signal :: "string \<Rightarrow> int \<Rightarrow> signal_status \<Rightarrow> 'b trader \<Rightarrow> 'b trader" where
  "td_signal sm ep s t = td_say (TSignal sm ep s) (t\<lparr>td_sig_status := AList.update (sm, ep) s (td_sig_status t)\<rparr>)"

definition guard_op ::
    "string \<Rightarrow> ('b guard \<Rightarrow> 'c \<times> 'b guard) \<Rightarrow> 'b trader \<Rightarrow> 'c \<times> 'b trader" where
  "guard_op sm f t = (case f (td_guard t sm) of (r, g) \<Rightarrow> (r, set_guard sm g t))"

definition g_ops :: "'b tenv \<Rightarrow> string \<Rightarrow> 'b guard broker_ops" where
  "g_ops env sm = guard_ops (te_clock env) (te_kill env) (te_ops env sm)"

definition fills_of :: "'b tenv \<Rightarrow> string \<Rightarrow> string \<Rightarrow> 'b trader \<Rightarrow> fill list" where
  "fills_of env sm cid t = filter (\<lambda>f. f_client_id f = cid) (b_fills (g_ops env sm) (td_guard t sm))"

definition sum_qty :: "fill list \<Rightarrow> real" where
  "sum_qty fs = (\<Sum>f\<leftarrow>fs. f_qty f)"

definition sum_amount :: "fill list \<Rightarrow> real" where
  "sum_amount fs = (\<Sum>f\<leftarrow>fs. f_qty f * f_price f)"

definition sum_fee :: "fill list \<Rightarrow> real" where
  "sum_fee fs = (\<Sum>f\<leftarrow>fs. f_fee f)"

text \<open>Quantity, price and fee of an execution: from its fills, else from the order.\<close>

definition exec_of :: "fill list \<Rightarrow> real \<Rightarrow> real \<Rightarrow> real \<Rightarrow> real \<times> real \<times> real" where
  "exec_of fs oq opx bps =
     (let fq = (if sum_qty fs = 0 then oq else sum_qty fs);
          fpx = (if fs \<noteq> [] then sum_amount fs / fq else opx);
          fee = (if fs \<noteq> [] then sum_fee fs else fq * fpx * bps / 10000)
      in (fq, fpx, fee))"

subsection \<open>Entry\<close>

definition skip_reason :: "'b tenv \<Rightarrow> signal \<Rightarrow> 'b trader \<Rightarrow> skip_why option \<times> 'b trader" where
  "skip_reason env sg t =
     (let sm = sg_symbol sg; st = td_state t
      in if ts_halted st then (Some (HaltLine (ts_halt_reason st)), t)
         else
           (case guard_op sm (guard_can_enter (te_clock env) (te_kill env)) t of
              (can, t1) \<Rightarrow>
                (if \<not> can
                 then (Some (RiskNotActive (r_status (g_state (td_guard t1 sm))) (r_reason (g_state (td_guard t1 sm)))), t1)
                 else if sp_max_entries (td_spec t) \<le> ts_entries st (utc_day (of_int (epoch_sig sg))) sm
                 then (Some (DayLimit (sp_max_entries (td_spec t))), t1)
                 else if pos_at sm t \<noteq> None then (Some Holding, t1)
                 else (map_option Gate (te_gate env sm sg), t1))))"

definition entry_prices :: "'b tenv \<Rightarrow> signal \<Rightarrow> string \<Rightarrow> real option" where
  "entry_prices env sg s = (if s = sg_symbol sg then Some (sg_p_in sg) else map_option fst (te_quote env s))"

definition margin_used :: "'b trader \<Rightarrow> real" where
  "margin_used t =
     (\<Sum>(s, q)\<leftarrow>ts_positions (td_state t).
        case q of None \<Rightarrow> 0
        | Some pos \<Rightarrow> tp_qty pos * (case tp_entry_px pos of
              Some px \<Rightarrow> if px = 0 then tp_assumed_in pos else px | None \<Rightarrow> tp_assumed_in pos))"

datatype size_outcome = SizeOk real | SizeSkip skip_why "t_alert option" | SizeRaise spec_error

definition entry_size :: "'b tenv \<Rightarrow> signal \<Rightarrow> 'b trader \<Rightarrow> size_outcome" where
  "entry_size env sg t =
     (let sp = td_spec t; prices = entry_prices env sg
      in case sizing_rule sp of
           Inl err \<Rightarrow> SizeRaise err
         | Inr rule \<Rightarrow>
             (if rule = EqualNotional \<and> list_ex (\<lambda>s. prices s = None \<or> prices s = Some 0) (sp_symbols sp)
              then SizeSkip NoQuote None
              else case sized sp (sg_symbol sg) prices (td_filters t) of
                     Inl SpecError \<Rightarrow> SizeSkip QtyCap (Some (SizeRefused (sg_symbol sg)))
                   | Inl err \<Rightarrow> SizeRaise err
                   | Inr q \<Rightarrow>
                       if ts_mode (td_state t) = Paper
                          \<and> sp_start_balance sp + ts_cum_net (td_state t) < margin_used t + q * sg_p_in sg
                       then SizeSkip NoMargin None else SizeOk q))"

definition new_tpos :: "signal \<Rightarrow> real \<Rightarrow> 'b trader \<Rightarrow> tpos" where
  "new_tpos sg q t =
     \<lparr>tp_status = Opening, tp_source = FromEngine, tp_qty = q, tp_ep = epoch_sig sg,
      tp_day = utc_day (of_int (epoch_sig sg)), tp_deadline = sg_day sg * day_len + sg_deadline sg,
      tp_assumed_in = sg_p_in sg, tp_tp_px = sg_p_in sg * (1 - pm_tp_bp (td_p t) / 10000),
      tp_sl_px = sg_p_in sg * (1 + pm_sl_bp (td_p t) / 10000), tp_feat = sg_feat sg,
      tp_entry_cid = td_cid (sg_symbol sg) (epoch_sig sg) EntryLeg 0 t, tp_exit_n = 0,
      tp_entry_px = None, tp_entry_fee = None, tp_entry_ts = None, tp_stop_cid = None, tp_stop_px = 0,
      tp_slip_in = None, tp_fee_estimated = False, tp_exit_req = None, tp_retry_at = 0,
      tp_maker_cid = None, tp_maker_px = None, tp_maker_ts = None, tp_maker_tried = False\<rparr>"

definition count_entry :: "int \<Rightarrow> string \<Rightarrow> trader_state \<Rightarrow> trader_state" where
  "count_entry d sm st =
     st\<lparr>ts_entries := (ts_entries st)(d := (ts_entries st d)(sm := ts_entries st d sm + 1))\<rparr>"

definition accept_entry :: "signal \<Rightarrow> real \<Rightarrow> 'b trader \<Rightarrow> 'b trader" where
  "accept_entry sg q t =
     (let sm = sg_symbol sg; ep = epoch_sig sg; d = utc_day (of_int ep); mx = sp_max_entries (td_spec t);
          t1 = set_pos sm (Some (new_tpos sg q t)) (t\<lparr>td_state := count_entry d sm (td_state t)\<rparr>);
          t2 = td_signal sm ep Traded (td_save t1);
          t3 = (if ts_entries (td_state t2) d sm = mx then td_alert_once (d, sm) (EntryLimit sm d mx) t2 else t2)
      in td_submit sm (DoEntry ep) t3)"

definition td_on_entry :: "'b tenv \<Rightarrow> signal \<Rightarrow> 'b trader \<Rightarrow> 'b trader" where
  "td_on_entry env sg t =
     (let sm = sg_symbol sg; ep = epoch_sig sg
      in case skip_reason env sg t of
           (Some why, t1) \<Rightarrow> td_say (TEvent (SkipEvent sm ep why)) (td_signal sm ep (Skipped why) t1)
         | (None, t1) \<Rightarrow>
             (case entry_size env sg t1 of
                SizeRaise err \<Rightarrow> td_say (RaisedSpec err) t1
              | SizeSkip why al \<Rightarrow>
                  (let t2 = td_signal sm ep (Skipped why) t1
                   in case al of None \<Rightarrow> t2 | Some a \<Rightarrow> td_say (TAlert a) t2)
              | SizeOk q \<Rightarrow> accept_entry sg q t1))"

definition entry_filled :: "'b tenv \<Rightarrow> string \<Rightarrow> int \<Rightarrow> order \<Rightarrow> fill list \<Rightarrow> 'b trader \<Rightarrow> 'b trader" where
  "entry_filled env sm ep ord fs t =
     (case exec_of fs (o_filled_qty ord) (o_avg_price ord) (sp_taker_bps (td_spec t)) of
        (fq, fpx, fee) \<Rightarrow>
          (let stop_px = fpx * (1 + sp_estop_pct (td_spec t) / 100); cid = td_cid sm ep StopLeg 0 t
           in case guard_op sm (b_place_stop_market (g_ops env sm) BUY fq stop_px cid) t of
                (r, t1) \<Rightarrow>
                  (let (stop, t2) = (case r of
                          Inl err \<Rightarrow> (None, td_say (TAlert (StopNotPlaced sm err)) t1)
                        | Inr _ \<Rightarrow> (Some cid, t1))
                   in case pos_at sm t2 of
                        None \<Rightarrow> td_say (Raised TypeError) t2
                      | Some pos \<Rightarrow>
                          (let pos' = pos\<lparr>tp_status := Open, tp_qty := fq, tp_entry_px := Some fpx,
                                 tp_entry_fee := Some fee, tp_entry_ts := Some (te_now env), tp_stop_cid := stop,
                                 tp_stop_px := stop_px,
                                 tp_slip_in := Some ((tp_assumed_in pos - fpx) / tp_assumed_in pos * 10000),
                                 tp_fee_estimated := (fs = [])\<rparr>
                           in td_say (TEvent (EntryEvent sm fq fpx ep (tp_entry_cid pos) (stop = None)))
                                (td_save (set_pos sm (Some pos') t2))))))"

definition entry_market :: "'b tenv \<Rightarrow> string \<Rightarrow> tpos \<Rightarrow> 'b trader \<Rightarrow> (exn + order) \<times> 'b trader" where
  "entry_market env sm pos t =
     (let actual = p_qty (b_position (g_ops env sm) (td_guard t sm))
      in if 1 / 10 ^ 12 < \<bar>actual\<bar> then (Inl (OrderRejected (LedgerMismatch actual)), t)
         else guard_op sm (b_place_market (g_ops env sm) SELL (tp_qty pos) (tp_entry_cid pos) False) t)"

definition td_do_entry :: "'b tenv \<Rightarrow> string \<Rightarrow> int \<Rightarrow> 'b trader \<Rightarrow> 'b trader" where
  "td_do_entry env sm ep t =
     (case pos_at sm t of
        None \<Rightarrow> t
      | Some pos \<Rightarrow>
          if tp_ep pos \<noteq> ep \<or> tp_status pos \<noteq> Opening then t
          else case entry_market env sm pos t of
                 (Inl err, t1) \<Rightarrow>
                   td_say (TAlert (EntryNotPlaced sm err))
                     (td_signal sm ep (Skipped (EntryFailed err)) (td_save (set_pos sm None t1)))
               | (Inr ord, t1) \<Rightarrow>
                   (let fs = fills_of env sm (tp_entry_cid pos) t1
                    in if o_status ord \<noteq> FILLED \<and> fs = []
                       then td_say (TAlert (EntryNotFilled sm (o_status ord) (o_reason ord)))
                              (td_save (set_pos sm None t1))
                       else entry_filled env sm ep ord fs t1))"

subsection \<open>Closing a position\<close>

text \<open>Errors an already finished order gives are ignored, others are alerted.\<close>

fun benign :: "exn \<Rightarrow> bool" where
  "benign (OrderRejected r) = True"
| "benign (RiskHalt r) = True"
| "benign (KeyError k) = True"
| "benign _ = False"

definition td_cancel_stop :: "'b tenv \<Rightarrow> string \<Rightarrow> 'b trader \<Rightarrow> 'b trader" where
  "td_cancel_stop env sm t =
     (case pos_at sm t of
        None \<Rightarrow> t
      | Some pos \<Rightarrow>
          (case tp_stop_cid pos of
             None \<Rightarrow> t
           | Some cid \<Rightarrow>
               (case guard_op sm (b_cancel (g_ops env sm) cid) t of
                  (Inl err, t1) \<Rightarrow> if benign err then t1 else td_say (TAlert (StopNotCancelled sm err)) t1
                | (Inr _, t1) \<Rightarrow> t1)))"

definition opt_bp :: "real \<Rightarrow> real option \<Rightarrow> real option" where
  "opt_bp a_in out = (case out of Some x \<Rightarrow> if x = 0 then None else Some (ln (a_in / x) * 10000) | None \<Rightarrow> None)"

definition opt_slip :: "real \<Rightarrow> real option \<Rightarrow> real option" where
  "opt_slip px out = (case out of Some x \<Rightarrow> if x = 0 then None else Some ((px - x) / x * 10000) | None \<Rightarrow> None)"

definition add_result :: "real \<Rightarrow> day_result option \<Rightarrow> day_result" where
  "add_result net r =
     (let r0 = (case r of Some x \<Rightarrow> x | None \<Rightarrow> \<lparr>dr_net = 0, dr_n = 0, dr_win = 0, dr_loss = 0\<rparr>)
      in \<lparr>dr_net = dr_net r0 + net, dr_n = dr_n r0 + 1,
          dr_win = (if 0 < net then dr_win r0 + 1 else dr_win r0),
          dr_loss = (if 0 < net then dr_loss r0 else dr_loss r0 + 1)\<rparr>)"

definition book_result :: "int \<Rightarrow> real \<Rightarrow> real \<Rightarrow> trader_state \<Rightarrow> trader_state" where
  "book_result d gross fees st =
     st\<lparr>ts_cum_net := ts_cum_net st + (gross - fees), ts_cum_gross := ts_cum_gross st + gross,
        ts_cum_fees := ts_cum_fees st + fees, ts_n_trades := ts_n_trades st + 1,
        ts_realized := (ts_realized st)(d := Some (add_result (gross - fees) (ts_realized st d)))\<rparr>"

definition stop_line :: "real \<Rightarrow> real \<Rightarrow> trader_state \<Rightarrow> trader_state" where
  "stop_line line now st =
     (if \<not> ts_halted st \<and> ts_cum_net st \<le> line
      then st\<lparr>ts_halted := True, ts_halt_reason := Some (ts_cum_net st, line), ts_halt_since := Some now\<rparr>
      else st)"

definition trade_of ::
    "'b tenv \<Rightarrow> string \<Rightarrow> tpos \<Rightarrow> real \<Rightarrow> real \<Rightarrow> real \<Rightarrow> exit_why \<Rightarrow> real option \<Rightarrow> string \<Rightarrow> trade_rec" where
  "trade_of env sm pos epx px fee why out cid =
     (let gross = (epx - px) * tp_qty pos;
          fees = (case tp_entry_fee pos of Some x \<Rightarrow> x | None \<Rightarrow> 0) + fee
      in \<lparr>tx_sym = sm, tx_ep = tp_ep pos, tx_day = tp_day pos, tx_entry_ts = tp_entry_ts pos,
          tx_exit_ts = te_now env, tx_qty = tp_qty pos, tx_entry_px = epx, tx_exit_px = px,
          tx_assumed_in = tp_assumed_in pos, tx_assumed_out = out, tx_why = why, tx_gross = gross,
          tx_fees = fees, tx_net = gross - fees,
          tx_bp = (if 0 < px then ln (epx / px) * 10000 else 0),
          tx_assumed_bp = opt_bp (tp_assumed_in pos) out, tx_slip_in = tp_slip_in pos,
          tx_slip_out = opt_slip px out, tx_entry_cid = tp_entry_cid pos, tx_exit_cid = cid,
          tx_source = tp_source pos\<rparr>)"

definition td_finalize ::
    "'b tenv \<Rightarrow> string \<Rightarrow> real \<Rightarrow> real \<Rightarrow> exit_why \<Rightarrow> real option \<Rightarrow> string \<Rightarrow> 'b trader \<Rightarrow> 'b trader" where
  "td_finalize env sm px fee why out cid t =
     (case pos_at sm t of
        None \<Rightarrow> t
      | Some pos \<Rightarrow>
          (case tp_entry_px pos of
             None \<Rightarrow> td_say (Raised (KeyError ''entry_px'')) t
           | Some epx \<Rightarrow>
               (let tr = trade_of env sm pos epx px fee why out cid; line = sp_stop_line (td_spec t);
                    st1 = book_result (utc_day (te_now env)) (tx_gross tr) (tx_fees tr) (td_state t);
                    st2 = stop_line line (te_now env) (st1\<lparr>ts_positions := AList.update sm None (ts_positions st1)\<rparr>);
                    t1 = td_say (TEvent (ExitEvent sm why (tp_qty pos) px (tx_gross tr) (tx_net tr)))
                           (td_say (TTrade tr) (td_save (t\<lparr>td_state := st2\<rparr>)))
                in if \<not> ts_halted (td_state t) \<and> ts_halted st2
                   then td_say (TAlert (StopLineReached (ts_cum_net st2) line)) t1 else t1)))"

definition td_exit_failed :: "'b tenv \<Rightarrow> string \<Rightarrow> 'b trader \<Rightarrow> 'b trader" where
  "td_exit_failed env sm t =
     (case pos_at sm t of
        None \<Rightarrow> td_say (Raised TypeError) t
      | Some pos \<Rightarrow>
          td_say (TAlert (ExitFailed sm (tp_exit_n pos + 1)))
            (td_save (set_pos sm (Some (pos\<lparr>tp_status := Open, tp_exit_n := tp_exit_n pos + 1,
                                            tp_retry_at := te_now env + 2\<rparr>)) t)))"

definition td_check_stop :: "'b tenv \<Rightarrow> string \<Rightarrow> bool \<Rightarrow> 'b trader \<Rightarrow> bool \<times> 'b trader" where
  "td_check_stop env sm force t =
     (case pos_at sm t of
        None \<Rightarrow> (False, t)
      | Some pos \<Rightarrow>
          (case tp_stop_cid pos of
             None \<Rightarrow> (False, t)
           | Some cid \<Rightarrow>
               if tp_status pos = Opening then (False, t)
               else case guard_op sm (b_poll (g_ops env sm)) t of
                      (Inl _, t1) \<Rightarrow> (False, t1)
                    | (Inr _, t1) \<Rightarrow>
                        (case b_get_order (g_ops env sm) cid (td_guard t1 sm) of
                           Inl _ \<Rightarrow> (False, t1)
                         | Inr ord \<Rightarrow>
                             (let fs = fills_of env sm cid t1
                              in if (o_status ord \<noteq> FILLED \<and> fs = []) \<or> (fs = [] \<and> \<not> force) then (False, t1)
                                 else case exec_of fs (tp_qty pos)
                                             (if o_avg_price ord = 0 then tp_stop_px pos else o_avg_price ord)
                                             (sp_taker_bps (td_spec t)) of
                                        (fq, fpx, fee) \<Rightarrow>
                                          (True, td_finalize env sm fpx fee EmergencyStop None cid t1)))))"

definition cleanup_step ::
    "string \<Rightarrow> ('b guard \<Rightarrow> (exn + 'c) \<times> 'b guard) \<Rightarrow> 'b trader \<Rightarrow> 'b trader" where
  "cleanup_step sm f t =
     (case guard_op sm f t of
        (Inl err, t1) \<Rightarrow> if benign err then t1 else td_say (TAlert (MakerCleanup sm err)) t1
      | (Inr _, t1) \<Rightarrow> t1)"

definition td_close_maker :: "'b tenv \<Rightarrow> string \<Rightarrow> string \<Rightarrow> 'b trader \<Rightarrow> fill list \<times> 'b trader" where
  "td_close_maker env sm cid t =
     (let ops = g_ops env sm;
          t1 = cleanup_step sm (b_poll ops) (cleanup_step sm (b_cancel ops cid) (cleanup_step sm (b_poll ops) t))
      in (fills_of env sm cid t1, t1))"

text \<open>After the exit order was accepted: its outcome, with the maker fills before it.\<close>

definition exit_placed ::
    "'b tenv \<Rightarrow> string \<Rightarrow> tpos \<Rightarrow> exit_request \<Rightarrow> string \<Rightarrow> fill list \<Rightarrow> order \<Rightarrow> 'b trader \<Rightarrow> 'b trader" where
  "exit_placed env sm pos rq cid mf ord t =
     (let fs = fills_of env sm cid t; mq = round8 (sum_qty mf)
      in if o_status ord = EXPIRED \<and> fs = [] \<and> mf = []
         then
           (case td_check_stop env sm True t of
              (True, t1) \<Rightarrow> t1
            | (False, t1) \<Rightarrow>
                (case tp_entry_px pos of
                   None \<Rightarrow> td_say (Raised (KeyError ''entry_px'')) t1
                 | Some epx \<Rightarrow>
                     (let t2 = td_finalize env sm epx 0 (NoPosition (rq_why rq)) (rq_assumed_out rq) cid t1
                      in set_guard sm (guard_halt (te_clock env) (HaltedBy sm) (td_guard t2 sm)) t2)))
         else if o_status ord \<noteq> FILLED \<and> fs = [] \<and> mf = [] then td_exit_failed env sm t
         else
           (case exec_of fs (o_filled_qty ord) (o_avg_price ord) (sp_taker_bps (td_spec t)) of
              (fq, fpx, fee) \<Rightarrow>
                td_finalize env sm
                  (if mf \<noteq> [] then (fpx * fq + sum_amount mf) / (fq + mq) else fpx)
                  (if mf \<noteq> [] then fee + sum_fee mf else fee)
                  (if mf \<noteq> [] then PartMaker (rq_why rq) else rq_why rq) (rq_assumed_out rq) cid
                  (td_cancel_stop env sm t)))"

definition exit_rest ::
    "'b tenv \<Rightarrow> string \<Rightarrow> tpos \<Rightarrow> exit_request \<Rightarrow> string \<Rightarrow> fill list \<Rightarrow> 'b trader \<Rightarrow> 'b trader" where
  "exit_rest env sm pos rq cid mf t =
     (let mq = round8 (sum_qty mf)
      in case guard_op sm (b_place_market (g_ops env sm) BUY (round8 (tp_qty pos - mq)) cid True) t of
           (Inl err, t1) \<Rightarrow> td_exit_failed env sm t1
         | (Inr ord, t1) \<Rightarrow> exit_placed env sm pos rq cid mf ord t1)"

definition td_do_exit :: "'b tenv \<Rightarrow> string \<Rightarrow> int \<Rightarrow> 'b trader \<Rightarrow> 'b trader" where
  "td_do_exit env sm ep t =
     (case pos_at sm t of
        None \<Rightarrow> t
      | Some pos \<Rightarrow>
          (case tp_exit_req pos of
             None \<Rightarrow> t
           | Some rq \<Rightarrow>
               if tp_ep pos \<noteq> ep \<or> tp_status pos \<noteq> Open then t
               else
                 (let cid = td_cid sm ep ExitLeg (tp_exit_n pos) t;
                      t1 = td_save (set_pos sm (Some (pos\<lparr>tp_status := Closing\<rparr>)) t);
                      (mf, t2) = (case tp_maker_cid pos of
                                    None \<Rightarrow> ([], t1) | Some mc \<Rightarrow> td_close_maker env sm mc t1)
                  in if mf \<noteq> [] \<and> tp_qty pos - 1 / 10 ^ 9 \<le> round8 (sum_qty mf)
                     then td_finalize env sm (sum_amount mf / round8 (sum_qty mf)) (sum_fee mf)
                            (WithMaker (rq_why rq)) (rq_assumed_out rq) (the (tp_maker_cid pos))
                            (td_cancel_stop env sm t2)
                     else exit_rest env sm pos rq cid mf t2)))"

text \<open>The status of a signal: recorded in this run or found in the journal (the initial
  \<open>td_sig_status\<close>).\<close>

definition signal_status_of :: "string \<Rightarrow> int \<Rightarrow> 'b trader \<Rightarrow> signal_status" where
  "signal_status_of sm ep t =
     (case map_of (td_sig_status t) (sm, ep) of Some s \<Rightarrow> s | None \<Rightarrow> Skipped NoRecord)"

definition td_on_exit :: "'b tenv \<Rightarrow> exit_signal \<Rightarrow> 'b trader \<Rightarrow> 'b trader" where
  "td_on_exit env x t =
     (let tr = xs_trade x; sm = xs_symbol x; ep = xs_day x * day_len + tr_t_sig tr;
          t1 = td_say (TSignalExit sm ep tr (signal_status_of sm ep t)) t
      in case pos_at sm t1 of
           None \<Rightarrow> t1
         | Some pos \<Rightarrow>
             if tp_ep pos \<noteq> ep \<or> tp_source pos \<noteq> FromEngine then t1
             else
               (let rq = \<lparr>rq_why = Engine (tr_reason tr), rq_assumed_out = Some (tr_p_out tr),
                          rq_t_out = of_int (xs_day x * day_len) + tr_t_out tr\<rparr>
                in td_submit sm (DoExit ep) (td_save (set_pos sm (Some (pos\<lparr>tp_exit_req := Some rq\<rparr>)) t1))))"

subsection \<open>The maker exit\<close>

definition td_place_maker :: "'b tenv \<Rightarrow> string \<Rightarrow> int \<Rightarrow> 'b trader \<Rightarrow> 'b trader" where
  "td_place_maker env sm ep t =
     (case pos_at sm t of
        None \<Rightarrow> t
      | Some pos \<Rightarrow>
          if tp_ep pos \<noteq> ep \<or> tp_status pos \<noteq> Open \<or> tp_exit_req pos \<noteq> None \<or> tp_maker_cid pos \<noteq> None then t
          else if te_quote env sm = None \<or> map_option fst (te_quote env sm) = Some 0
          then td_say (TEvent (MakerSkip sm ep)) t
          else
            (let cid = td_cid sm ep MakerLeg 0 t; bid = fst (the (te_quote env sm))
             in case guard_op sm (b_place_limit_gtx (g_ops env sm) BUY (tp_qty pos) bid cid True) t of
                  (Inl err, t1) \<Rightarrow> td_say (TEvent (MakerSkip sm ep)) t1
                | (Inr ord, t1) \<Rightarrow>
                    if \<not> is_open (o_status ord) \<and> o_status ord \<noteq> FILLED
                    then td_say (TEvent (MakerSkip sm ep)) t1
                    else
                      (let t2 = (case pos_at sm t1 of
                            Some q \<Rightarrow> if tp_ep q = ep
                              then td_save (set_pos sm (Some (q\<lparr>tp_maker_cid := Some cid, tp_maker_px := o_price ord,
                                                               tp_maker_ts := Some (te_now env)\<rparr>)) t1)
                              else t1
                          | None \<Rightarrow> t1)
                       in td_say (TEvent (MakerPlaced sm ep (o_price ord) (tp_qty pos) cid)) t2)))"

definition td_poll_maker :: "'b tenv \<Rightarrow> string \<Rightarrow> int \<Rightarrow> 'b trader \<Rightarrow> 'b trader" where
  "td_poll_maker env sm ep t =
     (case pos_at sm t of
        None \<Rightarrow> t
      | Some pos \<Rightarrow>
          (case tp_maker_cid pos of
             None \<Rightarrow> t
           | Some cid \<Rightarrow>
               if tp_ep pos \<noteq> ep \<or> tp_status pos \<noteq> Open then t
               else case guard_op sm (b_poll (g_ops env sm)) t of
                      (Inl _, t1) \<Rightarrow> t1
                    | (Inr _, t1) \<Rightarrow>
                        (let fs = fills_of env sm cid t1; fq = round8 (sum_qty fs)
                         in if fs = [] \<or> fq < tp_qty pos - 1 / 10 ^ 9 then t1
                            else td_finalize env sm (sum_amount fs / fq) (sum_fee fs) MakerOnly None cid
                                   (td_cancel_stop env sm t1))))"

subsection \<open>Every second\<close>

text \<open>A position the engine does not manage (after a restart, or past its deadline): the ask
  against the take-profit and stop-loss prices, and the deadline.\<close>

definition soft_exit :: "'b tenv \<Rightarrow> string \<Rightarrow> tpos \<Rightarrow> exit_why option" where
  "soft_exit env sm pos =
     (if of_int (tp_deadline pos) \<le> te_now env
      then Some (if tp_source pos = Recovered then FiveMinRestart else FiveMinBackup)
      else (case te_quote env sm of
              None \<Rightarrow> None
            | Some (bid, ask) \<Rightarrow>
                if ask \<le> tp_tp_px pos then Some TakeProfitRestart
                else if tp_sl_px pos \<le> ask then Some StopLossRestart else None))"

definition periodic_maker :: "'b tenv \<Rightarrow> string \<Rightarrow> tpos \<Rightarrow> 'b trader \<Rightarrow> tpos \<times> 'b trader" where
  "periodic_maker env sm pos t =
     (case td_maker_s t of
        None \<Rightarrow> (pos, t)
      | Some s \<Rightarrow>
          if s = 0 \<or> tp_source pos \<noteq> FromEngine \<or> tp_exit_req pos \<noteq> None then (pos, t)
          else if tp_maker_cid pos \<noteq> None then (pos, td_submit sm (PollMaker (tp_ep pos)) t)
          else if \<not> tp_maker_tried pos \<and> of_int (tp_deadline pos) - s \<le> te_now env
                  \<and> te_now env < of_int (tp_deadline pos)
          then (let pos' = pos\<lparr>tp_maker_tried := True\<rparr>
                in (pos', td_submit sm (PlaceMaker (tp_ep pos)) (td_save (set_pos sm (Some pos') t))))
          else (pos, t))"

text \<open>None when no exit is due.\<close>

definition periodic_soft :: "'b tenv \<Rightarrow> string \<Rightarrow> tpos \<Rightarrow> 'b trader \<Rightarrow> 'b trader option" where
  "periodic_soft env sm pos t =
     (if tp_source pos = Recovered \<or> of_int (tp_deadline pos) + 10 < te_now env
      then (case soft_exit env sm pos of
              None \<Rightarrow> None
            | Some why \<Rightarrow>
                (let rq = \<lparr>rq_why = why, rq_assumed_out = map_option snd (te_quote env sm), rq_t_out = te_now env\<rparr>
                 in Some (td_submit sm (DoExit (tp_ep pos))
                      (td_save (set_pos sm (Some (pos\<lparr>tp_exit_req := Some rq, tp_retry_at := te_now env + 5\<rparr>)) t)))))
      else None)"

definition periodic_stop :: "'b tenv \<Rightarrow> string \<Rightarrow> tpos \<Rightarrow> 'b trader \<Rightarrow> 'b trader" where
  "periodic_stop env sm pos t =
     (if tp_stop_cid pos \<noteq> None \<and> td_next_poll t sm \<le> te_now env
      then td_submit sm CheckStop (t\<lparr>td_next_poll := (td_next_poll t)(sm := te_now env + 5)\<rparr>)
      else t)"

definition periodic_symbol :: "'b tenv \<Rightarrow> string \<Rightarrow> 'b trader \<Rightarrow> 'b trader" where
  "periodic_symbol env sm t =
     (case pos_at sm t of
        None \<Rightarrow> t
      | Some pos \<Rightarrow>
          if tp_status pos \<noteq> Open then t
          else if tp_exit_req pos \<noteq> None \<and> tp_retry_at pos \<le> te_now env
          then td_submit sm (DoExit (tp_ep pos)) (set_pos sm (Some (pos\<lparr>tp_retry_at := te_now env + 5\<rparr>)) t)
          else
            (case periodic_maker env sm pos t of
               (pos1, t1) \<Rightarrow>
                 (case periodic_soft env sm pos1 t1 of
                    Some t2 \<Rightarrow> t2
                  | None \<Rightarrow> periodic_stop env sm pos1 t1)))"

text \<open>The manual resume: the request file is read once (an unreadable one is an empty
  request) and the risk guards are reset.  \<open>resume_note\<close> stands for the default text.\<close>

definition resume_note :: string where
  "resume_note = ''manual resume''"

definition reset_guard :: "'b tenv \<Rightarrow> string \<Rightarrow> string \<Rightarrow> 'b trader \<Rightarrow> 'b trader" where
  "reset_guard env note sm t =
     (if r_status (g_state (td_guard t sm)) = Active then t
      else case guard_op sm (guard_reset_halt (te_clock env) (te_kill env) note) t of
             (Inl err, t1) \<Rightarrow> td_say (TAlert (ResetFailed sm err)) t1
           | (Inr _, t1) \<Rightarrow> t1)"

definition unhalt :: "bool \<Rightarrow> trader_state \<Rightarrow> trader_state" where
  "unhalt reset st =
     (let s1 = st\<lparr>ts_halted := False, ts_halt_reason := None, ts_halt_since := None\<rparr>
      in if reset then s1\<lparr>ts_cum_net := 0, ts_cum_gross := 0, ts_cum_fees := 0\<rparr> else s1)"

definition td_consume_resume :: "'b tenv \<Rightarrow> resume_request \<Rightarrow> 'b trader \<Rightarrow> 'b trader" where
  "td_consume_resume env rr t =
     (let was = ts_halted (td_state t);
          note' = (case rr_note rr of Some n \<Rightarrow> n | None \<Rightarrow> resume_note);
          t1 = td_save (t\<lparr>td_state := unhalt (rr_reset_cum rr) (td_state t)\<rparr>);
          t2 = fold (reset_guard env note') (sp_symbols (td_spec t)) t1
      in td_say (TAlert (ResumedLine (rr_reset_cum rr) was (ts_cum_net (td_state t2)))) t2)"

definition td_periodic :: "'b tenv \<Rightarrow> 'b trader \<Rightarrow> 'b trader" where
  "td_periodic env t =
     fold (periodic_symbol env) (sp_symbols (td_spec t))
       (case te_resume env of None \<Rightarrow> t | Some rr \<Rightarrow> td_consume_resume env rr t)"

subsection \<open>The worker\<close>

definition td_run :: "'b tenv \<Rightarrow> string \<Rightarrow> task \<Rightarrow> 'b trader \<Rightarrow> 'b trader" where
  "td_run env sm k t =
     (case k of
        DoEntry ep \<Rightarrow> td_do_entry env sm ep t
      | DoExit ep \<Rightarrow> td_do_exit env sm ep t
      | PlaceMaker ep \<Rightarrow> td_place_maker env sm ep t
      | PollMaker ep \<Rightarrow> td_poll_maker env sm ep t
      | CheckStop \<Rightarrow> snd (td_check_stop env sm False t))"

text \<open>A symbol's worker takes the oldest task of its symbol.\<close>

definition td_work :: "'b tenv \<Rightarrow> string \<Rightarrow> 'b trader \<Rightarrow> 'b trader" where
  "td_work env sm t =
     (case find (\<lambda>x. fst x = sm) (td_queue t) of
        None \<Rightarrow> t
      | Some x \<Rightarrow> td_run env sm (snd x) (t\<lparr>td_queue := remove1 x (td_queue t)\<rparr>))"

subsection \<open>Start and recovery\<close>

datatype start_refused =
    VersionDiffers string string
  | UnknownPosition string real
  | LedgerDiffers string real real
  | ForeignOrder string string
  | BadSpec spec_error

datatype recover_note =
    EntryAborted string
  | ClosedUnfound string
  | TakenOver string real bool
  | Leftover string string
  | LeftoverFailed string string exn

definition fresh_trader_state :: "trade_mode \<Rightarrow> spec \<Rightarrow> real \<Rightarrow> trader_state" where
  "fresh_trader_state md sp now =
     \<lparr>ts_mode = md, ts_version = sp_version sp, ts_started_at = now,
      ts_trial_end = now + of_int (sp_trial_days sp * day_len), ts_halted = False, ts_halt_reason = None,
      ts_halt_since = None, ts_cum_net = 0, ts_cum_gross = 0, ts_cum_fees = 0, ts_n_trades = 0,
      ts_entries = (\<lambda>_ _. 0), ts_realized = (\<lambda>_. None), ts_positions = [], ts_alerted = [],
      ts_last_start = None, ts_starts = []\<rparr>"

definition start_state :: "spec \<Rightarrow> real \<Rightarrow> trader_state \<Rightarrow> trader_state" where
  "start_state sp now st =
     (let ss = ts_starts st @ [now]
      in st\<lparr>ts_last_start := Some now, ts_starts := drop (length ss - 100) ss,
            ts_positions := fold (\<lambda>s ps. if map_of ps s = None then ps @ [(s, None)] else ps)
                              (sp_symbols sp) (ts_positions st)\<rparr>)"

definition td_init ::
    "spec \<Rightarrow> trade_mode \<Rightarrow> (string \<Rightarrow> 'b guard) \<Rightarrow> (string \<times> sym_filters) list \<Rightarrow> trader_state option
     \<Rightarrow> ((string \<times> int) \<times> signal_status) list \<Rightarrow> real \<Rightarrow> start_refused + 'b trader" where
  "td_init sp md guards filters file journal now =
     (case spec_params sp of
        Inl err \<Rightarrow> Inl (BadSpec err)
      | Inr p \<Rightarrow>
          (case maker_exit_s sp of
             Inl err \<Rightarrow> Inl (BadSpec err)
           | Inr mk \<Rightarrow>
               (let st = (case file of Some st \<Rightarrow> st | None \<Rightarrow> fresh_trader_state md sp now)
                in if ts_version st \<noteq> sp_version sp then Inl (VersionDiffers (ts_version st) (sp_version sp))
                   else Inr (td_save
                     \<lparr>td_spec = sp, td_p = p, td_maker_s = mk, td_filters = filters, td_guard = guards,
                      td_state = start_state sp now st, td_file = file, td_next_poll = (\<lambda>_. 0),
                      td_sig_status = journal, td_queue = [], td_log = []\<rparr>))))"

definition to_clock :: "real \<Rightarrow> datetime" where
  "to_clock x = py_round (x * 10 ^ 6)"

definition truthy :: "real option \<Rightarrow> bool" where
  "truthy x \<longleftrightarrow> x \<noteq> None \<and> x \<noteq> Some 0"

text \<open>The position is gone: closed with the buys found since the entry, else at the entry price.\<close>

definition td_recover_closed :: "'b tenv \<Rightarrow> string \<Rightarrow> tpos \<Rightarrow> 'b trader \<Rightarrow> bool \<times> 'b trader" where
  "td_recover_closed env sm pos t =
     (let ops = g_ops env sm; g = td_guard t sm;
          since = to_clock (if truthy (tp_entry_ts pos) then the (tp_entry_ts pos) else of_int (tp_ep pos));
          fs1 = filter (\<lambda>f. f_side f = BUY) (b_fills_since ops since g);
          fs = (if fs1 = [] then filter (\<lambda>f. f_side f = BUY \<and> since \<le> f_ts f) (b_fills ops g) else fs1)
      in if \<not> truthy (tp_entry_px pos) then (False, set_pos sm None t)
         else if fs \<noteq> []
         then (True, td_finalize env sm (sum_amount fs / sum_qty fs) (sum_fee fs) StopWhileOff None
                       (f_client_id (last fs)) t)
         else (False, td_finalize env sm (the (tp_entry_px pos)) 0 VanishedWhileOff None [] t))"

text \<open>A position that is still there: taken over, its missing fields filled in.\<close>

definition resume_pos :: "'b tenv \<Rightarrow> real \<Rightarrow> position \<Rightarrow> tpos \<Rightarrow> tpos" where
  "resume_pos env bps bp pos =
     (let pos1 = (if truthy (tp_entry_px pos) then pos
            else
              (let px = (if p_entry_price bp = 0 then tp_assumed_in pos else p_entry_price bp)
               in pos\<lparr>tp_entry_px := Some px,
                      tp_entry_fee := (case tp_entry_fee pos of
                                         Some x \<Rightarrow> Some x | None \<Rightarrow> Some (tp_qty pos * px * bps / 10000)),
                      tp_entry_ts := (case tp_entry_ts pos of Some x \<Rightarrow> Some x | None \<Rightarrow> Some (te_now env))\<rparr>))
      in pos1\<lparr>tp_status := Open, tp_source := Recovered, tp_exit_req := None\<rparr>)"

fun recover_orders ::
    "'b tenv \<Rightarrow> bool \<Rightarrow> string \<Rightarrow> string option \<Rightarrow> order list \<Rightarrow> recover_note list \<Rightarrow> 'b trader
     \<Rightarrow> (start_refused + recover_note list) \<times> 'b trader" where
  "recover_orders env foreign sm mine [] notes t = (Inr notes, t)"
| "recover_orders env foreign sm mine (ord # ords) notes t =
     (let cid = o_client_id ord; pre = sp_prefix (td_spec t)
      in if take (length pre) cid \<noteq> pre
         then (if foreign then (Inl (ForeignOrder sm cid), t)
               else recover_orders env foreign sm mine ords notes t)
         else if mine = Some cid then recover_orders env foreign sm mine ords notes t
         else (case guard_op sm (b_cancel (g_ops env sm) cid) t of
                 (Inl err, t1) \<Rightarrow> recover_orders env foreign sm mine ords (notes @ [LeftoverFailed sm cid err]) t1
               | (Inr _, t1) \<Rightarrow> recover_orders env foreign sm mine ords (notes @ [Leftover sm cid]) t1))"

definition recover_open ::
    "'b tenv \<Rightarrow> bool \<Rightarrow> string \<Rightarrow> recover_note list \<Rightarrow> 'b trader
     \<Rightarrow> (start_refused + recover_note list) \<times> 'b trader" where
  "recover_open env foreign sm notes t =
     recover_orders env foreign sm (case pos_at sm t of None \<Rightarrow> None | Some pos \<Rightarrow> tp_stop_cid pos)
       (b_open_orders (g_ops env sm) (td_guard t sm)) notes t"

definition recover_pos ::
    "'b tenv \<Rightarrow> bool \<Rightarrow> string \<Rightarrow> real \<Rightarrow> tpos \<Rightarrow> recover_note list \<Rightarrow> 'b trader
     \<Rightarrow> (start_refused + recover_note list) \<times> 'b trader" where
  "recover_pos env foreign sm actual pos notes t =
     (if 1 / 10 ^ 9 < \<bar>actual + tp_qty pos\<bar> \<and> 1 / 10 ^ 12 < \<bar>actual\<bar>
      then (Inl (LedgerDiffers sm (tp_qty pos) actual), t)
      else if \<bar>actual\<bar> < 1 / 10 ^ 12
      then (case td_recover_closed env sm pos t of
              (found, t1) \<Rightarrow> (Inr (if found then notes else notes @ [ClosedUnfound sm]), t1))
      else
        (let pos' = resume_pos env (sp_taker_bps (td_spec t)) (b_position (g_ops env sm) (td_guard t sm)) pos
         in recover_open env foreign sm
              (notes @ [TakenOver sm (tp_qty pos') (of_int (tp_deadline pos') \<le> te_now env)])
              (set_pos sm (Some pos') t)))"

definition recover_symbol ::
    "'b tenv \<Rightarrow> bool \<Rightarrow> string \<Rightarrow> recover_note list \<Rightarrow> 'b trader
     \<Rightarrow> (start_refused + recover_note list) \<times> 'b trader" where
  "recover_symbol env foreign sm notes t =
     (let actual = p_qty (b_position (g_ops env sm) (td_guard t sm));
          aborted = (case pos_at sm t of None \<Rightarrow> False
             | Some pos \<Rightarrow> tp_status pos = Opening \<and> \<bar>actual\<bar> < 1 / 10 ^ 12);
          (notes1, t1) = (if aborted then (notes @ [EntryAborted sm], set_pos sm None t) else (notes, t))
      in case pos_at sm t1 of
           Some pos \<Rightarrow> recover_pos env foreign sm actual pos notes1 t1
         | None \<Rightarrow> if 1 / 10 ^ 12 < \<bar>actual\<bar> then (Inl (UnknownPosition sm actual), t1)
                   else recover_open env foreign sm notes1 t1)"

fun recover_all ::
    "'b tenv \<Rightarrow> bool \<Rightarrow> string list \<Rightarrow> recover_note list \<Rightarrow> 'b trader
     \<Rightarrow> (start_refused + recover_note list) \<times> 'b trader" where
  "recover_all env foreign [] notes t = (Inr notes, td_save t)"
| "recover_all env foreign (sm # sms) notes t =
     (case recover_symbol env foreign sm notes t of
        (Inl why, t1) \<Rightarrow> (Inl why, t1)
      | (Inr notes1, t1) \<Rightarrow> recover_all env foreign sms notes1 t1)"

definition td_recover ::
    "'b tenv \<Rightarrow> bool \<Rightarrow> 'b trader \<Rightarrow> (start_refused + recover_note list) \<times> 'b trader" where
  "td_recover env foreign t = recover_all env foreign (sp_symbols (td_spec t)) [] t"

subsection \<open>Queries\<close>

record account_view =
  av_balance :: real
  av_today :: real
  av_cum :: real
  av_stop :: real
  av_today_n :: nat
  av_today_win :: nat
  av_today_loss :: nat
  av_entries :: "(string \<times> nat) list"
  av_max_entries :: nat
  av_halted :: bool
  av_n_trades :: nat

definition td_account :: "'b tenv \<Rightarrow> 'b trader \<Rightarrow> account_view" where
  "td_account env t =
     (let st = td_state t; today = utc_day (te_now env);
          r = (case ts_realized st today of Some x \<Rightarrow> x
               | None \<Rightarrow> \<lparr>dr_net = 0, dr_n = 0, dr_win = 0, dr_loss = 0\<rparr>)
      in \<lparr>av_balance = (case (if ts_mode st = Live then te_wallet env else None) of
                          Some w \<Rightarrow> w | None \<Rightarrow> sp_start_balance (td_spec t) + ts_cum_net st),
          av_today = dr_net r, av_cum = ts_cum_net st, av_stop = sp_stop_line (td_spec t),
          av_today_n = dr_n r, av_today_win = dr_win r, av_today_loss = dr_loss r,
          av_entries = map (\<lambda>s. (s, ts_entries st today s)) (sp_symbols (td_spec t)),
          av_max_entries = sp_max_entries (td_spec t), av_halted = ts_halted st,
          av_n_trades = ts_n_trades st\<rparr>)"

record pos_view =
  pv_symbol :: string
  pv_qty :: real
  pv_entry :: real
  pv_ask :: "real option"

text \<open>\<open>ex\<close> is the exchange's positions in live mode, None before they are known.\<close>

definition td_positions ::
    "'b tenv \<Rightarrow> (string \<times> (real \<times> real)) list option \<Rightarrow> 'b trader \<Rightarrow> pos_view list" where
  "td_positions env ex t =
     map (\<lambda>s. let ask = map_option snd (te_quote env s);
                  none = \<lparr>pv_symbol = s, pv_qty = 0, pv_entry = 0, pv_ask = None\<rparr>
              in case ex of
                   Some m \<Rightarrow> (case map_of m s of
                       Some (amt, px) \<Rightarrow> if amt = 0 then none
                                         else \<lparr>pv_symbol = s, pv_qty = \<bar>amt\<bar>, pv_entry = px, pv_ask = ask\<rparr>
                     | None \<Rightarrow> none)
                 | None \<Rightarrow> (case pos_at s t of
                       Some pos \<Rightarrow> if truthy (tp_entry_px pos)
                         then \<lparr>pv_symbol = s, pv_qty = tp_qty pos, pv_entry = the (tp_entry_px pos), pv_ask = ask\<rparr>
                         else none
                     | None \<Rightarrow> none))
       (sp_symbols (td_spec t))"

end
