(* ===== verification/Trader_Correct.thy ===== *)
theory Trader_Correct
  imports Trader
begin

text \<open>
  Properties of the trader over any sequence of its handlers, worker tasks and periodic
  checks.  \<open>led t t'\<close> says that the results of \<open>t'\<close> (the cumulative figures, the day results,
  the stop line) follow from those of \<open>t\<close> by replaying what was logged in between; every
  operation keeps it, and the properties read the replay.
\<close>

subsection \<open>Sessions\<close>

datatype 'b td_input =
    InEntry "'b tenv" signal
  | InExit "'b tenv" exit_signal
  | InPeriodic "'b tenv"
  | InWork "'b tenv" string
  | InRecover "'b tenv" bool

fun td_do :: "'b td_input \<Rightarrow> 'b trader \<Rightarrow> 'b trader" where
  "td_do (InEntry env sg) t = td_on_entry env sg t"
| "td_do (InExit env x) t = td_on_exit env x t"
| "td_do (InPeriodic env) t = td_periodic env t"
| "td_do (InWork env sm) t = td_work env sm t"
| "td_do (InRecover env foreign) t = snd (td_recover env foreign t)"

subsection \<open>The results follow from the log\<close>

definition res :: "trader_state \<Rightarrow> trader_state" where
  "res st = st\<lparr>ts_entries := (\<lambda>_ _. 0), ts_positions := [], ts_alerted := []\<rparr>"

fun replay_out :: "real \<Rightarrow> trader_out \<Rightarrow> trader_state \<Rightarrow> trader_state" where
  "replay_out line (TTrade tr) st =
     stop_line line (tx_exit_ts tr) (book_result (utc_day (tx_exit_ts tr)) (tx_gross tr) (tx_fees tr) st)"
| "replay_out line (TAlert (ResumedLine reset was c)) st = unhalt reset st"
| "replay_out line _ st = st"

fun loud :: "trader_out \<Rightarrow> bool" where
  "loud (TTrade tr) = True"
| "loud (TAlert (ResumedLine reset was c)) = True"
| "loud _ = False"

lemma quiet_replay [simp]: "\<not> loud x \<Longrightarrow> replay_out line x st = st"
  by (cases "(line, x, st)" rule: replay_out.cases) auto

fun sound :: "trader_out \<Rightarrow> bool" where
  "sound (TTrade tr) \<longleftrightarrow> tx_net tr = tx_gross tr - tx_fees tr \<and> tx_gross tr = (tx_entry_px tr - tx_exit_px tr) * tx_qty tr"
| "sound _ = True"

lemma quiet_sound [simp]: "\<not> loud x \<Longrightarrow> sound x"
  by (cases x) auto

lemma quiet_all_sound: "filter loud out = [] \<Longrightarrow> list_all sound out"
  by (induction out) (auto split: if_splits)

definition capped :: "'b trader \<Rightarrow> bool" where
  "capped t \<longleftrightarrow> (\<forall>d sm. ts_entries (td_state t) d sm \<le> sp_max_entries (td_spec t))"

definition led :: "'b trader \<Rightarrow> 'b trader \<Rightarrow> bool" where
  "led t t' \<longleftrightarrow> td_spec t' = td_spec t \<and> (capped t \<longrightarrow> capped t') \<and>
     (\<exists>out. td_log t' = td_log t @ out \<and> list_all sound out
        \<and> res (td_state t') = fold (replay_out (sp_stop_line (td_spec t))) out (res (td_state t)))"

lemma led_refl [simp]: "led t t"
  by (simp add: led_def)

lemma led_trans: "led t1 t2 \<Longrightarrow> led t2 t3 \<Longrightarrow> led t1 t3"
  by (fastforce simp: led_def)

lemma led_keep:
  assumes "td_spec t2 = td_spec t1" "td_log t2 = td_log t1" "res (td_state t2) = res (td_state t1)"
    and "ts_entries (td_state t2) = ts_entries (td_state t1)"
  shows "led t t2 = led t t1"
  using assms by (simp add: led_def capped_def)

lemma led_say: "\<not> loud x \<Longrightarrow> led t t1 \<Longrightarrow> led t (td_say x t1)"
  by (auto simp: led_def td_say_def capped_def)

lemma led_save [simp]: "led t (td_save t1) = led t t1"
  by (rule led_keep) (simp_all add: td_save_def)

lemma led_set_pos [simp]: "led t (set_pos sm q t1) = led t t1"
  by (rule led_keep) (simp_all add: set_pos_def res_def)

lemma led_set_guard [simp]: "led t (set_guard sm g t1) = led t t1"
  by (rule led_keep) (simp_all add: set_guard_def)

lemma led_submit [simp]: "led t (td_submit sm k t1) = led t t1"
  by (rule led_keep) (simp_all add: td_submit_def)

lemma led_signal: "led t t1 \<Longrightarrow> led t (td_signal sm ep s t1)"
  unfolding td_signal_def by (rule led_say) (simp, subst led_keep [of _ t1], simp_all)

lemma led_alert_once: "\<not> loud (TAlert a) \<Longrightarrow> led t t1 \<Longrightarrow> led t (td_alert_once key a t1)"
  unfolding td_alert_once_def
  by (auto simp: Let_def res_def intro!: led_say) (subst led_keep [of _ t1], simp_all add: res_def)

lemma led_poll [simp]: "led t (t1\<lparr>td_next_poll := f\<rparr>) = led t t1"
  by (rule led_keep) simp_all

lemma led_queue [simp]: "led t (t1\<lparr>td_queue := q\<rparr>) = led t t1"
  by (rule led_keep) simp_all

lemma guard_op_eq: "guard_op sm f t = (fst (f (td_guard t sm)), set_guard sm (snd (f (td_guard t sm))) t)"
  by (simp add: guard_op_def case_prod_beta)

lemma led_guard_op: "guard_op sm f t1 = (r, t2) \<Longrightarrow> led t t1 \<Longrightarrow> led t t2"
  by (auto simp: guard_op_eq)

lemmas led_intros = led_say led_signal led_alert_once led_guard_op

lemma res_book: "res (book_result d gr fe st) = book_result d gr fe (res st)"
  by (simp add: res_def book_result_def)

lemma res_stop: "res (stop_line line now st) = stop_line line now (res st)"
  by (simp add: res_def stop_line_def)

lemma res_pos [simp]: "res (st\<lparr>ts_positions := ps\<rparr>) = res st"
  by (simp add: res_def)

lemma entries_kept:
  "ts_entries (stop_line line now st) = ts_entries st" "ts_entries (book_result d gr fe st) = ts_entries st"
  "ts_entries (unhalt b st) = ts_entries st"
  by (simp_all add: stop_line_def book_result_def unhalt_def Let_def)

lemma led_finalize: "led t t1 \<Longrightarrow> led t (td_finalize env sm px fee why out cid t1)"
proof (cases "pos_at sm t1")
  case None
  then show "led t t1 \<Longrightarrow> ?thesis" by (simp add: td_finalize_def)
next
  case (Some pos)
  assume l: "led t t1"
  show ?thesis
  proof (cases "tp_entry_px pos")
    case None
    then show ?thesis using l Some by (simp add: td_finalize_def led_say)
  next
    case (Some epx)
    let ?tr = "trade_of env sm pos epx px fee why out cid"
    let ?b = "book_result (utc_day (te_now env)) (tx_gross ?tr) (tx_fees ?tr) (td_state t1)"
    let ?s = "stop_line (sp_stop_line (td_spec t1)) (te_now env)
      (?b\<lparr>ts_positions := AList.update sm None (ts_positions ?b)\<rparr>)"
    have "tx_exit_ts ?tr = te_now env" "sound (TTrade ?tr)" by (simp_all add: trade_of_def Let_def)
    then have "led t (td_say (TTrade ?tr) (td_save (t1\<lparr>td_state := ?s\<rparr>)))"
      using l by (auto simp: led_def td_say_def td_save_def res_stop res_book capped_def entries_kept)
    then show ?thesis
      using \<open>pos_at sm t1 = Some pos\<close> Some by (auto simp: td_finalize_def Let_def intro!: led_say)
  qed
qed


lemma led_cancel_stop: "led t t1 \<Longrightarrow> led t (td_cancel_stop env sm t1)"
  by (auto simp: td_cancel_stop_def split: option.splits sum.splits prod.splits intro: led_intros)

lemma led_exit_failed: "led t t1 \<Longrightarrow> led t (td_exit_failed env sm t1)"
  by (auto simp: td_exit_failed_def split: option.splits intro!: led_say)

lemma led_check_stop: "td_check_stop env sm force t1 = (b, t2) \<Longrightarrow> led t t1 \<Longrightarrow> led t t2"
  unfolding td_check_stop_def
  by (auto simp: Let_def split: option.splits if_splits sum.splits prod.splits intro: led_intros led_finalize)

lemma led_cleanup: "led t t1 \<Longrightarrow> led t (cleanup_step sm f t1)"
  by (auto simp: cleanup_step_def split: prod.splits sum.splits intro: led_intros)

lemma led_close_maker: "td_close_maker env sm cid t1 = (fs, t2) \<Longrightarrow> led t t1 \<Longrightarrow> led t t2"
  by (auto simp: td_close_maker_def Let_def intro: led_cleanup)

lemmas led_closing = led_intros led_finalize led_cancel_stop led_exit_failed led_check_stop led_close_maker

lemma led_exit_placed: "led t t1 \<Longrightarrow> led t (exit_placed env sm pos rq cid mf ord t1)"
  unfolding exit_placed_def
  by (auto simp: Let_def split: option.splits if_splits prod.splits bool.splits intro: led_closing)

lemma led_exit_rest: "led t t1 \<Longrightarrow> led t (exit_rest env sm pos rq cid mf t1)"
  unfolding exit_rest_def
  by (auto simp: Let_def split: sum.splits prod.splits intro: led_closing led_exit_placed)

lemma led_do_exit: "led t t1 \<Longrightarrow> led t (td_do_exit env sm ep t1)"
  unfolding td_do_exit_def
  by (auto simp: Let_def split: option.splits if_splits prod.splits intro!: led_exit_rest led_finalize led_cancel_stop
      intro: led_close_maker)

lemma led_place_maker: "led t t1 \<Longrightarrow> led t (td_place_maker env sm ep t1)"
  unfolding td_place_maker_def
  by (auto simp: Let_def split: option.splits if_splits prod.splits sum.splits intro!: led_say intro: led_guard_op)

lemma led_poll_maker: "led t t1 \<Longrightarrow> led t (td_poll_maker env sm ep t1)"
  unfolding td_poll_maker_def
  by (auto simp: Let_def split: option.splits if_splits prod.splits sum.splits intro: led_closing)

lemma led_entry_filled: "led t t1 \<Longrightarrow> led t (entry_filled env sm ep ord fs t1)"
  unfolding entry_filled_def
  by (auto simp: Let_def split: option.splits prod.splits sum.splits intro!: led_say intro: led_guard_op)

lemma led_entry_market: "entry_market env sm pos t1 = (r, t2) \<Longrightarrow> led t t1 \<Longrightarrow> led t t2"
  by (auto simp: entry_market_def Let_def split: if_splits intro: led_guard_op)

lemma led_do_entry: "led t t1 \<Longrightarrow> led t (td_do_entry env sm ep t1)"
  unfolding td_do_entry_def
  by (auto simp: Let_def split: option.splits prod.splits sum.splits intro!: led_say led_signal led_entry_filled
      intro: led_entry_market)

lemma led_run: "led t t1 \<Longrightarrow> led t (td_run env sm k t1)"
  by (cases k) (auto simp: td_run_def intro: led_do_entry led_do_exit led_place_maker led_poll_maker led_check_stop [OF prod.collapse [symmetric]])

lemma led_work: "led t t1 \<Longrightarrow> led t (td_work env sm t1)"
  by (auto simp: td_work_def split: option.splits intro: led_run)

lemma led_skip_reason: "skip_reason env sg t1 = (r, t2) \<Longrightarrow> led t t1 \<Longrightarrow> led t t2"
  by (auto simp: skip_reason_def Let_def split: if_splits prod.splits intro: led_guard_op)

lemma led_accept_entry:
  assumes "led t t1"
    and "ts_entries (td_state t1) (utc_day (of_int (epoch_sig sg))) (sg_symbol sg) < sp_max_entries (td_spec t1)"
  shows "led t (accept_entry sg q t1)"
proof -
  let ?t = "t1\<lparr>td_state := count_entry (utc_day (of_int (epoch_sig sg))) (sg_symbol sg) (td_state t1)\<rparr>"
  have "led t ?t"
    using assms by (auto simp: led_def capped_def count_entry_def res_def)
  then show ?thesis by (auto simp: accept_entry_def Let_def intro!: led_alert_once led_signal)
qed

lemma skip_reason_None:
  assumes "skip_reason env sg t = (None, t1)"
  shows "td_state t1 = td_state t \<and> td_spec t1 = td_spec t \<and> \<not> ts_halted (td_state t)
    \<and> ts_entries (td_state t) (utc_day (of_int (epoch_sig sg))) (sg_symbol sg) < sp_max_entries (td_spec t)"
  using assms by (auto simp: skip_reason_def Let_def guard_op_eq set_guard_def split: if_splits)

lemma entry_size_quiet: "entry_size env sg t = SizeSkip why (Some a) \<Longrightarrow> \<not> loud (TAlert a)"
  by (auto simp: entry_size_def Let_def split: if_splits sum.splits spec_error.splits)

lemma led_on_entry:
  assumes "led t t1"
  shows "led t (td_on_entry env sg t1)"
proof (cases "skip_reason env sg t1")
  case (Pair r t2)
  then have l: "led t t2" by (rule led_skip_reason [OF _ assms])
  show ?thesis
  proof (cases r)
    case None
    then have "ts_entries (td_state t2) (utc_day (of_int (epoch_sig sg))) (sg_symbol sg) < sp_max_entries (td_spec t2)"
      using skip_reason_None Pair by fastforce
    then show ?thesis
      unfolding td_on_entry_def Let_def using l
      by (auto simp: Pair None split: size_outcome.splits option.splits dest: entry_size_quiet
          intro!: led_say led_signal led_accept_entry)
  next
    case (Some why)
    then show ?thesis unfolding td_on_entry_def Let_def using l
      by (auto simp: Pair intro!: led_say led_signal)
  qed
qed

lemma led_on_exit: "led t t1 \<Longrightarrow> led t (td_on_exit env x t1)"
  by (auto simp: td_on_exit_def Let_def split: option.splits intro!: led_say)

lemma led_periodic_symbol: "led t t1 \<Longrightarrow> led t (periodic_symbol env sm t1)"
  by (auto simp: periodic_symbol_def periodic_maker_def periodic_soft_def periodic_stop_def Let_def
      split: option.splits prod.splits if_splits)

lemma led_fold: "(\<And>x t1. led t t1 \<Longrightarrow> led t (f x t1)) \<Longrightarrow> led t t1 \<Longrightarrow> led t (fold f xs t1)"
  by (induction xs arbitrary: t1) auto

text \<open>Resetting the guards changes no result and logs nothing that counts.\<close>

lemma reset_guard_quiet:
  "td_state (reset_guard env nt sm t) = td_state t \<and> td_spec (reset_guard env nt sm t) = td_spec t
   \<and> (\<exists>out. td_log (reset_guard env nt sm t) = td_log t @ out \<and> filter loud out = [])"
  by (auto simp: reset_guard_def guard_op_eq set_guard_def td_say_def split: sum.splits)

lemma reset_guards_quiet:
  "td_state (fold (reset_guard env nt) ss t) = td_state t \<and> td_spec (fold (reset_guard env nt) ss t) = td_spec t
   \<and> (\<exists>out. td_log (fold (reset_guard env nt) ss t) = td_log t @ out \<and> filter loud out = [])"
proof (induction ss arbitrary: t)
  case (Cons s ss)
  obtain o1 where o1: "td_log (reset_guard env nt s t) = td_log t @ o1" "filter loud o1 = []"
    using reset_guard_quiet by blast
  obtain o2 where o2: "td_log (fold (reset_guard env nt) ss (reset_guard env nt s t))
      = td_log (reset_guard env nt s t) @ o2" "filter loud o2 = []"
    using Cons.IH by blast
  show ?case
    using Cons.IH [of "reset_guard env nt s t"] reset_guard_quiet [of env nt s t] o1 o2
    by (auto intro: exI [of _ "o1 @ o2"])
qed simp

lemma replay_quiet: "filter loud out = [] \<Longrightarrow> fold (replay_out line) out st = st"
  by (induction out) (auto split: if_splits)

lemma res_unhalt: "res (unhalt b st) = unhalt b (res st)"
  by (simp add: res_def unhalt_def Let_def)

lemma led_resumed:
  assumes "led t t1" "td_state t2 = unhalt r (td_state t1)" "td_spec t2 = td_spec t1"
    and "td_log t2 = td_log t1 @ out" "filter loud out = []"
  shows "led t (td_say (TAlert (ResumedLine r w c)) t2)"
  using assms by (auto simp: led_def td_say_def res_unhalt replay_quiet quiet_all_sound capped_def entries_kept)

lemma led_resume: "led t t1 \<Longrightarrow> led t (td_consume_resume env rr t1)"
proof -
  assume l: "led t t1"
  let ?t = "td_save (t1\<lparr>td_state := unhalt (rr_reset_cum rr) (td_state t1)\<rparr>)"
  obtain nt t2 where t2: "t2 = fold (reset_guard env nt) (sp_symbols (td_spec t1)) ?t"
    and e: "td_consume_resume env rr t1
      = td_say (TAlert (ResumedLine (rr_reset_cum rr) (ts_halted (td_state t1)) (ts_cum_net (td_state t2)))) t2"
    by (simp add: td_consume_resume_def Let_def)
  obtain out where "td_log t2 = td_log t1 @ out" "filter loud out = []"
    and "td_state t2 = unhalt (rr_reset_cum rr) (td_state t1)" "td_spec t2 = td_spec t1"
    using reset_guards_quiet [of env nt "sp_symbols (td_spec t1)" ?t] by (auto simp: t2 td_save_def)
  then show ?thesis unfolding e by (intro led_resumed [OF l])
qed

lemma led_periodic: "led t t1 \<Longrightarrow> led t (td_periodic env t1)"
  unfolding td_periodic_def
  by (rule led_fold) (auto intro: led_periodic_symbol led_resume split: option.splits)

lemma led_recover_closed: "td_recover_closed env sm pos t1 = (b, t2) \<Longrightarrow> led t t1 \<Longrightarrow> led t t2"
  unfolding td_recover_closed_def by (auto simp: Let_def split: if_splits intro: led_finalize)

lemma led_recover_orders: "led t t1 \<Longrightarrow> led t (snd (recover_orders env foreign sm mine ords nts t1))"
  by (induction ords arbitrary: nts t1)
    (auto simp: Let_def guard_op_eq split: sum.splits)

lemma led_recover_pos: "led t t1 \<Longrightarrow> led t (snd (recover_pos env foreign sm actual pos nts t1))"
  unfolding recover_pos_def recover_open_def
  by (auto simp: Let_def split: prod.splits intro!: led_recover_orders intro: led_recover_closed)

lemma led_recover_symbol: "led t t1 \<Longrightarrow> led t (snd (recover_symbol env foreign sm nts t1))"
  unfolding recover_symbol_def recover_open_def
  by (auto simp: Let_def split: prod.splits option.splits if_splits intro!: led_recover_orders led_recover_pos)

lemma led_recover_symbol_eq:
  "recover_symbol env foreign sm nts t1 = (r, t2) \<Longrightarrow> led t t1 \<Longrightarrow> led t t2"
  using led_recover_symbol [of t t1 env foreign sm nts] by simp

lemma led_recover_all: "led t t1 \<Longrightarrow> led t (snd (recover_all env foreign sms nts t1))"
  by (induction sms arbitrary: nts t1)
    (auto split: prod.splits sum.splits intro: led_recover_symbol_eq)

lemma led_do: "led t t1 \<Longrightarrow> led t (td_do x t1)"
  by (cases x) (auto simp: td_recover_def intro: led_on_entry led_on_exit led_periodic led_work led_recover_all)

lemma led_session: "led t (fold td_do ins t)"
  by (rule led_fold) (auto intro: led_do)

subsection \<open>The results in closed form\<close>

fun trades_in :: "trader_out list \<Rightarrow> trade_rec list" where
  "trades_in [] = []"
| "trades_in (TTrade tr # xs) = tr # trades_in xs"
| "trades_in (x # xs) = trades_in xs"

fun is_resume :: "trader_out \<Rightarrow> bool" where
  "is_resume (TAlert (ResumedLine reset was c)) = True"
| "is_resume _ = False"

fun is_reset :: "trader_out \<Rightarrow> bool" where
  "is_reset (TAlert (ResumedLine reset was c)) = reset"
| "is_reset _ = False"

definition since :: "(trader_out \<Rightarrow> bool) \<Rightarrow> trader_out list \<Rightarrow> trader_out list" where
  "since P out = rev (takeWhile (\<lambda>x. \<not> P x) (rev out))"

text \<open>The result a day starts from.\<close>

definition day_of :: "int \<Rightarrow> trader_state \<Rightarrow> day_result" where
  "day_of d st = (case ts_realized st d of Some r \<Rightarrow> r
     | None \<Rightarrow> \<lparr>dr_net = 0, dr_n = 0, dr_win = 0, dr_loss = 0\<rparr>)"

definition on_day :: "int \<Rightarrow> trade_rec list \<Rightarrow> trade_rec list" where
  "on_day d ts = filter (\<lambda>tr. utc_day (tx_exit_ts tr) = d) ts"

lemma trades_in_append [simp]: "trades_in (xs @ ys) = trades_in xs @ trades_in ys"
  by (induction xs rule: trades_in.induct) auto

lemma since_Nil [simp]: "since P [] = []"
  by (simp add: since_def)

lemma since_snoc [simp]: "since P (out @ [x]) = (if P x then [] else since P out @ [x])"
  by (simp add: since_def)

text \<open>What the replayed state \<open>st\<close> says after the log \<open>out\<close>, from the start \<open>st0\<close>.\<close>

definition books :: "real \<Rightarrow> trader_state \<Rightarrow> trader_out list \<Rightarrow> trader_state \<Rightarrow> bool" where
  "books line st0 out st \<longleftrightarrow>
     (let base = (if list_ex is_reset out then 0 else 1); cur = trades_in (since is_reset out); all = trades_in out
      in ts_cum_net st = base * ts_cum_net st0 + (\<Sum>tr\<leftarrow>cur. tx_net tr)
       \<and> ts_cum_gross st = base * ts_cum_gross st0 + (\<Sum>tr\<leftarrow>cur. tx_gross tr)
       \<and> ts_cum_fees st = base * ts_cum_fees st0 + (\<Sum>tr\<leftarrow>cur. tx_fees tr)
       \<and> ts_n_trades st = ts_n_trades st0 + length all
       \<and> (\<forall>d. dr_net (day_of d st) = dr_net (day_of d st0) + (\<Sum>tr\<leftarrow>on_day d all. tx_net tr)
            \<and> dr_n (day_of d st) = dr_n (day_of d st0) + length (on_day d all)
            \<and> dr_win (day_of d st) = dr_win (day_of d st0) + length (filter (\<lambda>tr. 0 < tx_net tr) (on_day d all))
            \<and> dr_loss (day_of d st) = dr_loss (day_of d st0)
                + length (filter (\<lambda>tr. tx_net tr \<le> 0) (on_day d all))))"

definition line_held :: "real \<Rightarrow> trader_out list \<Rightarrow> trader_state \<Rightarrow> bool" where
  "line_held line out st \<longleftrightarrow> ts_halted st \<or> line < ts_cum_net st \<or> trades_in (since is_resume out) = []"

lemma day_of_book:
  "day_of d (stop_line line now (book_result d' gr fe st))
   = (if d' = d then add_result (gr - fe) (Some (day_of d st)) else day_of d st)"
  by (auto simp: day_of_def stop_line_def book_result_def add_result_def Let_def split: option.splits)

lemma day_of_unhalt [simp]: "day_of d (unhalt b st) = day_of d st"
  by (simp add: day_of_def unhalt_def Let_def)

lemma books_trade:
  assumes "books line st0 out st" "sound (TTrade tr)"
  shows "books line st0 (out @ [TTrade tr]) (replay_out line (TTrade tr) st)"
  using assms unfolding books_def
  by (simp add: Let_def day_of_book on_day_def, simp add: stop_line_def book_result_def add_result_def)

lemma books_resume:
  "books line st0 out st
   \<Longrightarrow> books line st0 (out @ [TAlert (ResumedLine r w c)]) (unhalt r st)"
  unfolding books_def by (simp add: Let_def, simp add: unhalt_def Let_def)

lemma quiet_props:
  "\<not> loud x \<Longrightarrow> \<not> is_reset x \<and> \<not> is_resume x \<and> trades_in [x] = []"
  by (cases x rule: loud.cases) auto

lemma books_quiet: "books line st0 out st \<Longrightarrow> \<not> loud x \<Longrightarrow> books line st0 (out @ [x]) st"
  using quiet_props [of x] by (simp add: books_def)

lemma books_replay:
  "list_all sound out \<Longrightarrow> books line st0 out (fold (replay_out line) out st0)"
proof (induction out rule: rev_induct)
  case Nil
  then show ?case by (simp add: books_def on_day_def)
next
  case (snoc x out)
  then have b: "books line st0 out (fold (replay_out line) out st0)" by simp
  show ?case
  proof (cases "loud x")
    case False
    then show ?thesis using b by (simp add: books_quiet)
  next
    case True
    then show ?thesis using b snoc.prems
      by (cases x rule: loud.cases) (auto simp: books_resume simp del: replay_out.simps(1) intro: books_trade)
  qed
qed

lemma line_replay: "line_held line out (fold (replay_out line) out st0)"
proof (induction out rule: rev_induct)
  case Nil
  then show ?case by (simp add: line_held_def)
next
  case (snoc x out)
  then show ?case
    using quiet_props [of x]
    by (cases x rule: loud.cases) (auto simp: line_held_def stop_line_def unhalt_def)
qed

lemma res_fields [simp]:
  "ts_cum_net (res st) = ts_cum_net st" "ts_cum_gross (res st) = ts_cum_gross st"
  "ts_cum_fees (res st) = ts_cum_fees st" "ts_n_trades (res st) = ts_n_trades st"
  "ts_halted (res st) = ts_halted st" "day_of d (res st) = day_of d st"
  by (simp_all add: res_def day_of_def)

lemma session_books:
  obtains out where "td_log (fold td_do ins t) = td_log t @ out" "list_all sound out"
    "books (sp_stop_line (td_spec t)) (td_state t) out (td_state (fold td_do ins t))"
    "line_held (sp_stop_line (td_spec t)) out (td_state (fold td_do ins t))"
proof -
  obtain out where o: "td_log (fold td_do ins t) = td_log t @ out" "list_all sound out"
    "res (td_state (fold td_do ins t)) = fold (replay_out (sp_stop_line (td_spec t))) out (res (td_state t))"
    using led_session [of t ins] by (auto simp: led_def)
  have "books (sp_stop_line (td_spec t)) (res (td_state t)) out (res (td_state (fold td_do ins t)))"
    unfolding o(3) by (rule books_replay [OF o(2)])
  moreover have "line_held (sp_stop_line (td_spec t)) out (res (td_state (fold td_do ins t)))"
    unfolding o(3) by (rule line_replay)
  ultimately show ?thesis using that [OF o(1,2)] by (simp add: books_def line_held_def)
qed

text \<open>C18: The books follow the trades: after any sequence of signals, worker tasks, periodic
  checks and recoveries, the cumulative result, gross and fees are those of the start (zero
  after a reset) plus the sums over the trades logged since the last reset; the trade count
  and each day's net result, count, wins and losses are those of the start plus the trades
  logged; and each trade's net result is its price difference times its quantity less fees.\<close>

theorem trader_ledger:
  "\<exists>out. let t' = fold td_do ins t; st0 = td_state t; st = td_state t'; all = trades_in out;
        cur = trades_in (since is_reset out); base = (if list_ex is_reset out then 0 else 1)
    in td_log t' = td_log t @ out
     \<and> list_all (\<lambda>tr. tx_net tr = (tx_entry_px tr - tx_exit_px tr) * tx_qty tr - tx_fees tr) all
     \<and> ts_cum_net st = base * ts_cum_net st0 + (\<Sum>tr\<leftarrow>cur. tx_net tr)
     \<and> ts_cum_gross st = base * ts_cum_gross st0 + (\<Sum>tr\<leftarrow>cur. tx_gross tr)
     \<and> ts_cum_fees st = base * ts_cum_fees st0 + (\<Sum>tr\<leftarrow>cur. tx_fees tr)
     \<and> ts_n_trades st = ts_n_trades st0 + length all
     \<and> (\<forall>d. dr_net (day_of d st) = dr_net (day_of d st0) + (\<Sum>tr\<leftarrow>on_day d all. tx_net tr)
          \<and> dr_n (day_of d st) = dr_n (day_of d st0) + length (on_day d all)
          \<and> dr_win (day_of d st) = dr_win (day_of d st0) + length (filter (\<lambda>tr. 0 < tx_net tr) (on_day d all))
          \<and> dr_loss (day_of d st) = dr_loss (day_of d st0)
              + length (filter (\<lambda>tr. tx_net tr \<le> 0) (on_day d all)))"
proof -
  obtain out where o: "td_log (fold td_do ins t) = td_log t @ out" "list_all sound out"
    "books (sp_stop_line (td_spec t)) (td_state t) out (td_state (fold td_do ins t))"
    by (rule session_books)
  have "list_all (\<lambda>tr. tx_net tr = (tx_entry_px tr - tx_exit_px tr) * tx_qty tr - tx_fees tr) (trades_in out)"
    using o(2) by (induction out rule: trades_in.induct) auto
  then show ?thesis using o(1,3) unfolding books_def Let_def by blast
qed

subsection \<open>The entry gate\<close>

text \<open>When an entry signal becomes an order, and of which size.\<close>

definition entry_accepts :: "'b tenv \<Rightarrow> signal \<Rightarrow> 'b trader \<Rightarrow> real option" where
  "entry_accepts env sg t =
     (let sm = sg_symbol sg; st = td_state t
      in if \<not> ts_halted st \<and> \<not> te_kill env \<and> r_status (g_state (td_guard t sm)) = Active
            \<and> ts_entries st (utc_day (of_int (epoch_sig sg))) sm < sp_max_entries (td_spec t)
            \<and> pos_at sm t = None \<and> te_gate env sm sg = None
         then (case entry_size env sg t of SizeOk q \<Rightarrow> Some q | _ \<Rightarrow> None)
         else None)"

lemma can_enter: "fst (guard_can_enter now kill g) \<longleftrightarrow> \<not> kill \<and> r_status (g_state g) = Active"
  by (auto simp: guard_can_enter_def guard_check_kill_def guard_halt_def guard_set_def guard_alert_def
      guard_save_def Let_def)

lemma pos_at_state: "td_state t1 = td_state t \<Longrightarrow> pos_at sm t1 = pos_at sm t"
  by (simp add: pos_at_def)

lemma skip_reason_keeps:
  "skip_reason env sg t = (r, t1) \<Longrightarrow>
    td_state t1 = td_state t \<and> td_spec t1 = td_spec t \<and> td_filters t1 = td_filters t
    \<and> td_queue t1 = td_queue t \<and> td_p t1 = td_p t"
  by (auto simp: skip_reason_def Let_def guard_op_eq set_guard_def split: if_splits)

lemma skip_reason_iff:
  "fst (skip_reason env sg t) = None \<longleftrightarrow>
     \<not> ts_halted (td_state t) \<and> \<not> te_kill env \<and> r_status (g_state (td_guard t (sg_symbol sg))) = Active
     \<and> ts_entries (td_state t) (utc_day (of_int (epoch_sig sg))) (sg_symbol sg) < sp_max_entries (td_spec t)
     \<and> pos_at (sg_symbol sg) t = None \<and> te_gate env (sg_symbol sg) sg = None"
  by (auto simp: skip_reason_def Let_def guard_op_eq can_enter)

lemma entry_size_cong:
  "td_state t1 = td_state t \<Longrightarrow> td_spec t1 = td_spec t \<Longrightarrow> td_filters t1 = td_filters t
   \<Longrightarrow> entry_size env sg t1 = entry_size env sg t"
  by (simp add: entry_size_def margin_used_def cong: if_cong sum.case_cong)

lemma pos_at_simps [simp]:
  "pos_at sm (td_say x t) = pos_at sm t" "pos_at sm (td_save t) = pos_at sm t"
  "pos_at sm (td_submit s k t) = pos_at sm t" "pos_at sm (set_guard s g t) = pos_at sm t"
  "pos_at sm (td_signal s ep ss t) = pos_at sm t" "pos_at sm (td_alert_once key a t) = pos_at sm t"
  "pos_at sm (set_pos s q t) = (if s = sm then q else pos_at sm t)"
  by (auto simp: pos_at_def td_say_def td_save_def td_submit_def set_guard_def td_signal_def
      td_alert_once_def set_pos_def Let_def update_conv split: option.splits)

lemma queue_simps [simp]:
  "td_queue (td_say x t) = td_queue t" "td_queue (td_save t) = td_queue t"
  "td_queue (td_submit s k t) = td_queue t @ [(s, k)]" "td_queue (set_guard s g t) = td_queue t"
  "td_queue (td_signal s ep ss t) = td_queue t" "td_queue (td_alert_once key a t) = td_queue t"
  "td_queue (set_pos s q t) = td_queue t"
  by (auto simp: td_say_def td_save_def td_submit_def set_guard_def td_signal_def
      td_alert_once_def set_pos_def Let_def)

lemma entries_simps [simp]:
  "ts_entries (td_state (td_say x t)) = ts_entries (td_state t)"
  "ts_entries (td_state (td_save t)) = ts_entries (td_state t)"
  "ts_entries (td_state (td_submit s k t)) = ts_entries (td_state t)"
  "ts_entries (td_state (td_signal s ep ss t)) = ts_entries (td_state t)"
  "ts_entries (td_state (td_alert_once key a t)) = ts_entries (td_state t)"
  "ts_entries (td_state (set_pos s q t)) = ts_entries (td_state t)"
  by (auto simp: td_say_def td_save_def td_submit_def td_signal_def td_alert_once_def set_pos_def Let_def)

lemma pos_at_count [simp]: "pos_at sm (t\<lparr>td_state := count_entry d s (td_state t)\<rparr>) = pos_at sm t"
  by (simp add: pos_at_def count_entry_def)

lemma accept_entry_effect:
  "td_queue (accept_entry sg q t) = td_queue t @ [(sg_symbol sg, DoEntry (epoch_sig sg))]"
  "pos_at sm (accept_entry sg q t) = (if sm = sg_symbol sg then Some (new_tpos sg q t) else pos_at sm t)"
  "ts_entries (td_state (accept_entry sg q t))
     = ts_entries (count_entry (utc_day (of_int (epoch_sig sg))) (sg_symbol sg) (td_state t))"
  by (auto simp: accept_entry_def Let_def)

lemma new_tpos_cong: "td_spec t1 = td_spec t \<Longrightarrow> td_p t1 = td_p t \<Longrightarrow> new_tpos sg q t1 = new_tpos sg q t"
  by (simp add: new_tpos_def td_cid_def)

lemma entry_gate:
  "(case entry_accepts env sg t of
      Some q \<Rightarrow>
        td_queue (td_on_entry env sg t) = td_queue t @ [(sg_symbol sg, DoEntry (epoch_sig sg))]
        \<and> (\<forall>sm. pos_at sm (td_on_entry env sg t)
              = (if sm = sg_symbol sg then Some (new_tpos sg q t) else pos_at sm t))
        \<and> ts_entries (td_state (td_on_entry env sg t))
              = ts_entries (count_entry (utc_day (of_int (epoch_sig sg))) (sg_symbol sg) (td_state t))
    | None \<Rightarrow>
        td_queue (td_on_entry env sg t) = td_queue t
        \<and> (\<forall>sm. pos_at sm (td_on_entry env sg t) = pos_at sm t)
        \<and> ts_entries (td_state (td_on_entry env sg t)) = ts_entries (td_state t))"
proof (cases "skip_reason env sg t")
  case (Pair r t1)
  note k = skip_reason_keeps [OF Pair]
  have sz: "entry_size env sg t1 = entry_size env sg t" using k by (intro entry_size_cong) auto
  have p: "pos_at sm t1 = pos_at sm t" for sm using k by (intro pos_at_state) auto
  show ?thesis
  proof (cases r)
    case None
    then have a: "entry_accepts env sg t = (case entry_size env sg t of SizeOk q \<Rightarrow> Some q | _ \<Rightarrow> None)"
      using skip_reason_iff [of env sg t] Pair by (simp add: entry_accepts_def Let_def)
    show ?thesis
      using k None by (cases "entry_size env sg t")
        (auto simp: a td_on_entry_def Let_def Pair sz p accept_entry_effect new_tpos_cong [of t1 t] split: option.splits)
  next
    case (Some why)
    then have a: "entry_accepts env sg t = None"
      using skip_reason_iff [of env sg t] Pair by (auto simp: entry_accepts_def Let_def)
    show ?thesis using k Some by (simp add: a td_on_entry_def Let_def Pair p)
  qed
qed

text \<open>C21: The entry gate: a signal is handed to the broker exactly when the stop line is not
  reached, the kill switch is off, the symbol's risk guard is active, the day's entries are
  below the limit, no position of the symbol is open, the data gate lets it pass and a size
  is found (within the cap and, on paper, the margin).  Then one entry task is queued, the
  position is recorded as opening and the day's entries are counted; otherwise none of them
  changes.\<close>

theorem trader_entry_gate:
  "(case entry_accepts env sg t of
      Some q \<Rightarrow>
        td_queue (td_on_entry env sg t) = td_queue t @ [(sg_symbol sg, DoEntry (epoch_sig sg))]
        \<and> (\<forall>sm. pos_at sm (td_on_entry env sg t)
              = (if sm = sg_symbol sg then Some (new_tpos sg q t) else pos_at sm t))
        \<and> ts_entries (td_state (td_on_entry env sg t))
              = ts_entries (count_entry (utc_day (of_int (epoch_sig sg))) (sg_symbol sg) (td_state t))
    | None \<Rightarrow>
        td_queue (td_on_entry env sg t) = td_queue t
        \<and> (\<forall>sm. pos_at sm (td_on_entry env sg t) = pos_at sm t)
        \<and> ts_entries (td_state (td_on_entry env sg t)) = ts_entries (td_state t))"
  by (rule entry_gate)

subsection \<open>The stop line and the daily limit\<close>

text \<open>An example: the two-symbol specification, a paper account and one signal for ETHUSDT.\<close>

definition idle_guard :: "unit guard" where
  "idle_guard = guard_init ()
     \<lparr>max_abs_position = 1, test_stop_cumulative_usd = - 100, pause_after_consecutive_losses = 100,
      max_clock_offset_ms = 250, max_data_stale_s = 3, max_consecutive_rejects = 3\<rparr> None"

definition example_signal :: signal where
  "example_signal = \<lparr>sg_symbol = ''ETHUSDT'', sg_day = 20000, sg_t_sig = 3600, sg_t_in = 3600, sg_p_in = 2400,
     sg_deadline = 3900, sg_feat = \<lparr>past_bp = 30, ofi1m = 0, vol_per_min = 0, ofi_ratio = 0,
       mid_start = 0, mid_cut = 0\<rparr>\<rparr>"

definition idle_ops :: "unit broker_ops" where
  "idle_ops =
     \<lparr>b_position = (\<lambda>_. flat_position []), b_open_orders = (\<lambda>_. []),
      b_get_order = (\<lambda>cid _. Inl (KeyError cid)), b_fills = (\<lambda>_. []), b_fills_since = (\<lambda>_ _. []),
      b_place_market = (\<lambda>_ _ _ _ b. (Inl StaleMarketData, b)),
      b_place_limit_gtx = (\<lambda>_ _ _ _ _ b. (Inl StaleMarketData, b)),
      b_place_stop_market = (\<lambda>_ _ _ _ b. (Inl StaleMarketData, b)),
      b_cancel = (\<lambda>cid b. (Inl (KeyError cid), b)), b_cancel_all = (\<lambda>b. (Inr [], b)), b_poll = (\<lambda>b. (Inr [], b))\<rparr>"

definition example_env :: "unit tenv" where
  "example_env =
     \<lparr>te_now = 1728003600, te_clock = 1728003600000000, te_kill = False,
      te_quote = [''BTCUSDT'' \<mapsto> (80000, 80001)], te_gate = (\<lambda>_ _. None), te_wallet = None, te_resume = None,
      te_ops = (\<lambda>_. idle_ops)\<rparr>"

lemma example_fields:
  "sp_maker example_spec = Some (Some ''bid1'', 5)" "sp_symbols example_spec = [''BTCUSDT'', ''ETHUSDT'']"
  "sp_start_balance example_spec = 400" "sp_max_entries example_spec = 10"
  by (simp_all add: example_spec_def)

lemma example_start:
  obtains t0 where "td_init example_spec Paper (\<lambda>_. idle_guard) example_filters None [] 0 = Inr t0"
    "td_state t0 = start_state example_spec 0 (fresh_trader_state Paper example_spec 0)"
    "td_spec t0 = example_spec" "td_filters t0 = example_filters" "td_guard t0 = (\<lambda>_. idle_guard)"
    "td_log t0 = []" "td_queue t0 = []"
proof -
  obtain p where p: "spec_params example_spec = Inr p" "pm_hold p = 300"
    by (auto simp: example_spec_def spec_params_def param_fields_def Let_def)
  have m: "maker_exit_s example_spec = Inr (Some 5)"
    by (simp add: maker_exit_s_def p example_fields)
  have v: "ts_version (fresh_trader_state Paper example_spec 0) = sp_version example_spec"
    by (simp add: fresh_trader_state_def)
  obtain t0 where i: "td_init example_spec Paper (\<lambda>_. idle_guard) example_filters None [] 0 = Inr t0"
    by (simp add: td_init_def p m Let_def v)
  show ?thesis
    using i by (intro that [OF i]) (auto simp: td_init_def p m Let_def v td_save_def)
qed

lemma example_accepts:
  assumes "td_state t = start_state example_spec 0 (fresh_trader_state Paper example_spec 0)"
    and "td_spec t = example_spec" "td_filters t = example_filters" "td_guard t = (\<lambda>_. idle_guard)"
  shows "entry_accepts example_env example_signal t = Some (33 / 1000)"
proof -
  have st: "start_state example_spec 0 (fresh_trader_state Paper example_spec 0) =
      (fresh_trader_state Paper example_spec 0)\<lparr>ts_last_start := Some 0, ts_starts := [0],
         ts_positions := [(''BTCUSDT'', None), (''ETHUSDT'', None)]\<rparr>"
    by (simp add: start_state_def fresh_trader_state_def example_spec_def Let_def)
  have pr: "entry_prices example_env example_signal = example_prices"
    by (auto simp: entry_prices_def example_env_def example_signal_def example_prices_def fun_eq_iff)
  have fs: "ts_mode (start_state example_spec 0 (fresh_trader_state Paper example_spec 0)) = Paper"
    "ts_cum_net (start_state example_spec 0 (fresh_trader_state Paper example_spec 0)) = 0"
    "ts_entries (start_state example_spec 0 (fresh_trader_state Paper example_spec 0)) = (\<lambda>_ _. 0)"
    "\<not> ts_halted (start_state example_spec 0 (fresh_trader_state Paper example_spec 0))"
    by (simp_all add: start_state_def Let_def fresh_trader_state_def)
  have sg: "sg_symbol example_signal = ''ETHUSDT''" "sg_p_in example_signal = 2400"
    by (simp_all add: example_signal_def)
  have mu: "margin_used t = 0" by (simp add: margin_used_def assms st)
  have "entry_size example_env example_signal t = SizeOk (33 / 1000)"
    using mu by (simp add: entry_size_def Let_def pr assms example_rule example_fields eth_sized sg)
      (simp add: fs example_prices_def)
  moreover have "pos_at ''ETHUSDT'' t = None"
    by (simp add: pos_at_def assms st)
  moreover have "r_status (g_state idle_guard) = Active"
    by (simp add: idle_guard_def guard_init_def fresh_risk_def)
  ultimately show ?thesis
    by (simp add: entry_accepts_def Let_def assms fs sg example_fields, simp add: example_env_def)
qed



end
