(* ===== verification/Market_Data.thy ===== *)
theory Market_Data
  imports Exec_Types "HOL-Library.Product_Lexorder"
begin

text \<open>
  The two market views of the program: \<open>DbMarketView\<close> (\<open>src/execution/market.py\<close>,
  queries over the collector's tables, given here as lists of rows) and
  \<open>LiveMarketView\<close> (\<open>strategies/pastofi_crypto/brokers.py\<close>, the last book and a
  bounded queue of trades held in memory).  Both answer the protocol \<open>MarketView\<close>,
  the record \<open>market_view\<close>.  The locale \<open>trade_source\<close> is the contract the paper
  exchange's cursor relies on; both views satisfy it.
\<close>

record market_view =
  mv_book :: "exn + book_top"
  mv_trades_after :: "int option \<Rightarrow> datetime \<Rightarrow> trade_print list"
  mv_last_price :: "exn + real"

subsection \<open>The in-memory view\<close>

record ws_book =
  wb_T :: "int option"
  wb_E :: int
  wb_bids :: "(real \<times> real) list"
  wb_asks :: "(real \<times> real) list"

record ws_trade =
  wt_T :: int
  wt_a :: int
  wt_p :: real
  wt_q :: real
  wt_m :: bool

text \<open>\<open>rec.get("T") or rec["E"]\<close>: a missing or zero \<open>T\<close> falls back to \<open>E\<close>.\<close>

definition ws_book_ms :: "ws_book \<Rightarrow> int" where
  "ws_book_ms r = (case wb_T r of Some t \<Rightarrow> if t = 0 then wb_E r else t | None \<Rightarrow> wb_E r)"

record live_view =
  lv_book :: "book_top option"
  lv_trades :: "trade_print list"
  lv_max :: nat

definition live_view_init :: "nat \<Rightarrow> live_view" where
  "live_view_init n = \<lparr>lv_book = None, lv_trades = [], lv_max = n\<rparr>"

definition lv_on_book_top :: "ws_book \<Rightarrow> live_view \<Rightarrow> live_view" where
  "lv_on_book_top r v =
     (if wb_bids r \<noteq> [] \<and> wb_asks r \<noteq> []
      then v\<lparr>lv_book := Some \<lparr>bt_ts = ws_book_ms r * 1000, bids = wb_bids r, asks = wb_asks r\<rparr>\<rparr>
      else v)"

text \<open>A \<open>deque(maxlen=n)\<close> drops its oldest element when it is full.\<close>

definition deque_append :: "nat \<Rightarrow> 'a list \<Rightarrow> 'a \<Rightarrow> 'a list" where
  "deque_append n xs x = drop (length (xs @ [x]) - n) (xs @ [x])"

definition lv_on_trade :: "ws_trade \<Rightarrow> live_view \<Rightarrow> live_view" where
  "lv_on_trade r v =
     v\<lparr>lv_trades := deque_append (lv_max v) (lv_trades v)
        \<lparr>t_ts = wt_T r * 1000, t_agg_id = wt_a r, t_price = wt_p r, t_qty = wt_q r,
         t_buyer_maker = wt_m r\<rparr>\<rparr>"

definition lv_get_book :: "live_view \<Rightarrow> exn + book_top" where
  "lv_get_book v = (case lv_book v of None \<Rightarrow> Inl StaleMarketData | Some b \<Rightarrow> Inr b)"

definition lv_trades_after ::
    "trade_print list \<Rightarrow> int option \<Rightarrow> datetime \<Rightarrow> trade_print list" where
  "lv_trades_after ts agg since =
     (case agg of
        None \<Rightarrow> filter (\<lambda>t. since < t_ts t) ts
      | Some a \<Rightarrow> filter (\<lambda>t. a < t_agg_id t \<and> since \<le> t_ts t) ts)"

definition lv_last_price :: "live_view \<Rightarrow> exn + real" where
  "lv_last_price v =
     (if lv_trades v \<noteq> [] then Inr (t_price (last (lv_trades v)))
      else map_sum id mid (lv_get_book v))"

definition live_market :: "live_view \<Rightarrow> market_view" where
  "live_market v =
     \<lparr>mv_book = lv_get_book v, mv_trades_after = lv_trades_after (lv_trades v),
      mv_last_price = lv_last_price v\<rparr>"

subsection \<open>The database view\<close>

text \<open>
  A row of \<open>market.book_top5\<close>: five bid and five ask levels, absent levels NULL.  The
  queries are the code's: latest row by (exchange time, update id), latest trade after it,
  trades after the cursor in (exchange time, id) order.
\<close>

record book_row =
  br_ts :: datetime
  br_update_id :: int
  br_bids :: "(real option \<times> real) list"
  br_asks :: "(real option \<times> real) list"

record db_view =
  dv_book_rows :: "book_row list"
  dv_trades :: "trade_print list"
  dv_max_stale :: int

definition dv_check :: "db_view \<Rightarrow> datetime \<Rightarrow> datetime \<Rightarrow> bool" where
  "dv_check v now ts \<longleftrightarrow> now - ts \<le> dv_max_stale v"

definition present_levels :: "(real option \<times> real) list \<Rightarrow> (real \<times> real) list" where
  "present_levels ls = List.map_filter (\<lambda>(p, q). map_option (\<lambda>p. (p, q)) p) ls"

definition latest_book_row :: "db_view \<Rightarrow> book_row option" where
  "latest_book_row v =
     (case sort_key (\<lambda>r. (br_ts r, br_update_id r)) (dv_book_rows v) of
        [] \<Rightarrow> None | rs \<Rightarrow> Some (last rs))"

definition dv_book :: "datetime \<Rightarrow> db_view \<Rightarrow> exn + book_top" where
  "dv_book now v =
     (case latest_book_row v of
        None \<Rightarrow> Inl StaleMarketData
      | Some r \<Rightarrow>
          (let bs = present_levels (br_bids r); as = present_levels (br_asks r)
           in if bs = [] \<or> as = [] then Inl StaleMarketData
              else
                (let later = map t_ts (filter (\<lambda>t. br_ts r < t_ts t) (dv_trades v));
                     seen = (if later = [] then br_ts r else max (br_ts r) (Max (set later)))
                 in if dv_check v now seen
                    then Inr \<lparr>bt_ts = br_ts r, bids = bs, asks = as\<rparr>
                    else Inl StaleMarketData)))"

definition dv_trades_after ::
    "trade_print list \<Rightarrow> int option \<Rightarrow> datetime \<Rightarrow> trade_print list" where
  "dv_trades_after ts agg since =
     sort_key (\<lambda>t. (t_ts t, t_agg_id t))
       (case agg of
          None \<Rightarrow> filter (\<lambda>t. since < t_ts t) ts
        | Some a \<Rightarrow> filter (\<lambda>t. since \<le> t_ts t \<and> a < t_agg_id t) ts)"

definition dv_last_price :: "datetime \<Rightarrow> db_view \<Rightarrow> exn + real" where
  "dv_last_price now v =
     (case sort_key (\<lambda>t. (t_ts t, t_agg_id t)) (dv_trades v) of
        [] \<Rightarrow> Inl StaleMarketData
      | ts \<Rightarrow> if dv_check v now (t_ts (last ts)) then Inr (t_price (last ts))
              else Inl StaleMarketData)"

definition db_market :: "datetime \<Rightarrow> db_view \<Rightarrow> market_view" where
  "db_market now v =
     \<lparr>mv_book = dv_book now v, mv_trades_after = dv_trades_after (dv_trades v),
      mv_last_price = dv_last_price now v\<rparr>"

subsection \<open>The contract of a trade source\<close>

text \<open>A store of trades in stream order: ids increase, times do not go back.\<close>

definition stream_ordered :: "trade_print list \<Rightarrow> bool" where
  "stream_ordered ts \<longleftrightarrow>
     sorted_wrt (\<lambda>a b. t_agg_id a < t_agg_id b \<and> t_ts a \<le> t_ts b) ts"

definition past_cursor :: "int option \<Rightarrow> datetime \<Rightarrow> trade_print \<Rightarrow> bool" where
  "past_cursor agg since t \<longleftrightarrow>
     (case agg of None \<Rightarrow> since < t_ts t | Some a \<Rightarrow> a < t_agg_id t \<and> since \<le> t_ts t)"

locale trade_source =
  fixes after :: "trade_print list \<Rightarrow> int option \<Rightarrow> datetime \<Rightarrow> trade_print list"
  assumes after_ordered:
    "stream_ordered ts \<Longrightarrow> after ts agg since = filter (past_cursor agg since) ts"
begin

text \<open>
  Reading to the end and moving the cursor to the last trade read: the next read returns
  exactly what has arrived since, nothing twice and nothing lost.
\<close>

lemma cursor_exact:
  assumes ord: "stream_ordered (ts @ new)" and read: "after ts agg since = xs @ [t]"
  shows "after (ts @ new) (Some (t_agg_id t)) (t_ts t) = new"
proof -
  have ots: "stream_ordered ts" using ord by (simp add: stream_ordered_def sorted_wrt_append)
  have fl: "filter (past_cursor agg since) ts = xs @ [t]"
    using after_ordered [OF ots] read by simp
  then have tf: "t \<in> set (filter (past_cursor agg since) ts)" by simp
  have new: "filter (past_cursor (Some (t_agg_id t)) (t_ts t)) new = new"
    using ord tf by (intro filter_True)
      (auto simp: stream_ordered_def sorted_wrt_append past_cursor_def)
  have "\<not> past_cursor (Some (t_agg_id t)) (t_ts t) u" if u: "u \<in> set ts" for u
  proof
    assume c: "past_cursor (Some (t_agg_id t)) (t_ts t) u"
    then have gt: "t_agg_id t < t_agg_id u" by (simp add: past_cursor_def)
    have "past_cursor agg since u"
      using c tf by (auto simp: past_cursor_def split: option.splits)
    then have "u \<in> set (xs @ [t])" using u fl by (metis filter_set Set.filter_eq mem_Collect_eq)
    moreover have "stream_ordered (xs @ [t])"
      using ots unfolding fl [symmetric] stream_ordered_def by (rule sorted_wrt_filter)
    ultimately show False
      using gt by (auto simp: stream_ordered_def sorted_wrt_append)
  qed
  then have "filter (past_cursor (Some (t_agg_id t)) (t_ts t)) ts = []"
    by (auto simp: filter_empty_conv)
  with new show ?thesis using after_ordered [OF ord] by simp
qed

end

lemma stream_ordered_filter: "stream_ordered ts \<Longrightarrow> stream_ordered (filter P ts)"
  by (simp add: stream_ordered_def sorted_wrt_filter)

lemma sort_key_stream:
  assumes "stream_ordered ts" shows "sort_key (\<lambda>t. (t_ts t, t_agg_id t)) ts = ts"
proof -
  have "sorted_wrt (\<lambda>a b. (t_ts a, t_agg_id a) \<le> (t_ts b, t_agg_id b)) ts"
    using assms unfolding stream_ordered_def
    by (rule sorted_wrt_mono_rel [rotated]) (auto simp: less_eq_prod_def)
  then show ?thesis by (intro sort_key_id_if_sorted) (simp add: sorted_map)
qed

interpretation live_source: trade_source lv_trades_after
  by unfold_locales
    (auto simp: lv_trades_after_def past_cursor_def split: option.splits intro!: filter_cong)

interpretation db_source: trade_source dv_trades_after
proof
  fix ts agg since assume o: "stream_ordered ts"
  have "dv_trades_after ts agg since
      = sort_key (\<lambda>t. (t_ts t, t_agg_id t)) (filter (past_cursor agg since) ts)"
    by (auto simp: dv_trades_after_def past_cursor_def split: option.splits
        intro!: arg_cong [where f = "sort_key _"] filter_cong)
  then show "dv_trades_after ts agg since = filter (past_cursor agg since) ts"
    by (simp add: sort_key_stream stream_ordered_filter o)
qed

text \<open>Reading trades by cursor is exact on both market views: after a read that ended with
  the trade \<open>t\<close>, the next read from the cursor \<open>t\<close> leaves returns what has arrived since, each
  trade once and none lost, as long as ids increase and times do not go back.\<close>

theorem market_cursor_exact:
  assumes "stream_ordered (ts @ new)" and "lv_trades_after ts agg since = xs @ [t]"
  shows "lv_trades_after (ts @ new) (Some (t_agg_id t)) (t_ts t) = new
    \<and> dv_trades_after (ts @ new) (Some (t_agg_id t)) (t_ts t) = new"
proof
  show "lv_trades_after (ts @ new) (Some (t_agg_id t)) (t_ts t) = new"
    by (rule live_source.cursor_exact [OF assms])
  have ots: "stream_ordered ts"
    using assms(1) by (simp add: stream_ordered_def sorted_wrt_append)
  have "dv_trades_after ts agg since = xs @ [t]"
    using assms(2) live_source.after_ordered [OF ots] db_source.after_ordered [OF ots] by simp
  then show "dv_trades_after (ts @ new) (Some (t_agg_id t)) (t_ts t) = new"
    by (rule db_source.cursor_exact [OF assms(1)])
qed

theorem market_cursor_exact_witness:
  "lv_trades_after ([\<lparr>t_ts = 5, t_agg_id = 1, t_price = 10, t_qty = 1, t_buyer_maker = True\<rparr>]
     @ [\<lparr>t_ts = 5, t_agg_id = 2, t_price = 11, t_qty = 1, t_buyer_maker = True\<rparr>]) (Some 1) 5
   = [\<lparr>t_ts = 5, t_agg_id = 2, t_price = 11, t_qty = 1, t_buyer_maker = True\<rparr>]"
  using market_cursor_exact [of
      "[\<lparr>t_ts = 5, t_agg_id = 1, t_price = 10, t_qty = 1, t_buyer_maker = True\<rparr>]"
      "[\<lparr>t_ts = 5, t_agg_id = 2, t_price = 11, t_qty = 1, t_buyer_maker = True\<rparr>]" None 0 "[]"
      "\<lparr>t_ts = 5, t_agg_id = 1, t_price = 10, t_qty = 1, t_buyer_maker = True\<rparr>"]
  by (simp add: stream_ordered_def lv_trades_after_def)

end
