(* ===== verification/Paper_Exchange.thy ===== *)
theory Paper_Exchange
  imports Market_Data
begin

text \<open>
  The simulated exchange of \<open>src/execution/paper.py\<close>.  Its state is the record
  \<open>paper\<close>; an operation takes the clock reading \<open>now\<close>, the market view it may read
  and the state, and returns its result (or the exception it raises) with the new state,
  because a Python exception keeps the mutations made before it.  Orders are one dict
  keyed by client id; mutating an order object is an update of its entry.  Subscribers
  are modelled by the log of emitted events.
\<close>

record paper =
  px_symbol :: string
  px_fees :: fee_schedule
  px_orders :: "(string \<times> order) list"
  px_fills :: "fill list"
  px_pos :: position
  px_touched :: "(string \<times> datetime) list"
  px_last_agg :: "int option"
  px_last_ts :: "datetime option"
  px_events :: "order_event list"

definition paper_init :: "string \<Rightarrow> fee_schedule \<Rightarrow> paper" where
  "paper_init sm fs =
     \<lparr>px_symbol = sm, px_fees = fs, px_orders = [], px_fills = [], px_pos = flat_position sm,
      px_touched = [], px_last_agg = None, px_last_ts = None, px_events = []\<rparr>"

subsection \<open>Queries\<close>

definition paper_get_order :: "string \<Rightarrow> paper \<Rightarrow> exn + order" where
  "paper_get_order cid s =
     (case map_of (px_orders s) cid of None \<Rightarrow> Inl (KeyError cid) | Some ord \<Rightarrow> Inr ord)"

definition paper_open_orders :: "paper \<Rightarrow> order list" where
  "paper_open_orders s = filter (\<lambda>ord. is_open (o_status ord)) (map snd (px_orders s))"

definition paper_fills_since :: "datetime \<Rightarrow> paper \<Rightarrow> fill list" where
  "paper_fills_since t s = filter (\<lambda>f. t \<le> f_ts f) (px_fills s)"

definition paper_touched_at :: "string \<Rightarrow> paper \<Rightarrow> datetime option" where
  "paper_touched_at cid s = map_of (px_touched s) cid"

subsection \<open>Internal steps\<close>

definition paper_emit :: "datetime \<Rightarrow> string \<Rightarrow> event_kind \<Rightarrow> paper \<Rightarrow> paper" where
  "paper_emit t cid k s = s\<lparr>px_events := px_events s @ [\<lparr>e_ts = t, e_client_id = cid, e_kind = k\<rparr>]\<rparr>"

definition paper_put :: "order \<Rightarrow> paper \<Rightarrow> paper" where
  "paper_put ord s = s\<lparr>px_orders := AList.update (o_client_id ord) ord (px_orders s)\<rparr>"

definition paper_new ::
    "datetime \<Rightarrow> string \<Rightarrow> side \<Rightarrow> order_type \<Rightarrow> real \<Rightarrow> real option \<Rightarrow> real option \<Rightarrow> bool
     \<Rightarrow> paper \<Rightarrow> (exn + order) \<times> paper" where
  "paper_new now cid sd ty q px stop ro s =
     (if q \<le> 0 then (Inl (OrderRejected (BadQty q)), s)
      else let ord = (new_order cid (px_symbol s) sd ty q)\<lparr>o_price := px, o_stop_price := stop,
                       o_reduce_only := ro, o_placed_ts := Some now, o_updated_ts := Some now\<rparr>
           in (Inr ord, paper_emit now cid Placed (paper_put ord s)))"

definition paper_reduce_ok :: "order \<Rightarrow> paper \<Rightarrow> bool" where
  "paper_reduce_ok ord s =
     (if \<not> o_reduce_only ord then True
      else let pos = p_qty (px_pos s)
           in pos \<noteq> 0 \<and> (0 < pos) \<noteq> (o_side ord = BUY) \<and> remaining ord \<le> \<bar>pos\<bar> + 1 / 10 ^ 9)"

definition paper_close ::
    "datetime \<Rightarrow> order \<Rightarrow> status \<Rightarrow> reason \<Rightarrow> paper \<Rightarrow> order \<times> paper" where
  "paper_close now ord st why s =
     (let ord' = ord\<lparr>o_status := st, o_reason := why, o_updated_ts := Some now\<rparr>
      in (ord', paper_emit now (o_client_id ord) (close_kind st) (paper_put ord' s)))"

definition paper_record_fill ::
    "order \<Rightarrow> real \<Rightarrow> real \<Rightarrow> liquidity \<Rightarrow> datetime \<Rightarrow> paper \<Rightarrow> (exn + order) \<times> paper" where
  "paper_record_fill ord q px lq ts s =
     (let fee = fee_of (px_fees s) (q * px) lq
      in case position_apply (px_pos s) (o_side ord) q px fee of
           Inl e \<Rightarrow> (Inl e, s)
         | Inr (_, pos') \<Rightarrow>
             (let f = \<lparr>f_client_id = o_client_id ord, f_ts = ts, f_side = o_side ord, f_qty = q,
                       f_price = px, f_fee = fee, f_liquidity = lq\<rparr>;
                  s1 = s\<lparr>px_pos := pos', px_fills := px_fills s @ [f]\<rparr>
              in if o_filled_qty ord + q = 0 then (Inl ZeroDivisionError, s1)
                 else
                   (let o1 = ord\<lparr>o_avg_price := (o_avg_price ord * o_filled_qty ord + px * q)
                                                 / (o_filled_qty ord + q),
                                 o_filled_qty := round8 (o_filled_qty ord + q)\<rparr>;
                        o2 = o1\<lparr>o_status := (if remaining o1 \<le> 1 / 10 ^ 9 then FILLED
                                              else PARTIALLY_FILLED),
                                o_updated_ts := Some ts\<rparr>
                    in (Inr o2, paper_emit ts (o_client_id ord) Filled (paper_put o2 s1)))))"

text \<open>The loop that eats the opposite side level by level: what is left and what it cost.\<close>

fun eat_levels :: "(real \<times> real) list \<Rightarrow> real \<Rightarrow> real \<Rightarrow> real \<times> real" where
  "eat_levels [] left cost = (left, cost)"
| "eat_levels ((px, q) # ls) left cost =
     (let take = min left q; cost' = cost + take * px; left' = left - take
      in if left' \<le> 1 / 10 ^ 12 then (left', cost') else eat_levels ls left' cost')"

definition market_cost :: "(real \<times> real) list \<Rightarrow> real \<Rightarrow> real" where
  "market_cost levels q =
     (let (left, cost) = eat_levels levels q 0
      in if 1 / 10 ^ 12 < left then cost + left * fst (last levels) else cost)"

definition paper_fill_market ::
    "datetime \<Rightarrow> order \<Rightarrow> book_top \<Rightarrow> paper \<Rightarrow> (exn + order) \<times> paper" where
  "paper_fill_market now ord book s =
     (let levels = (if o_side ord = BUY then asks book else bids book); q = remaining ord
      in if levels = [] \<and> 1 / 10 ^ 12 < q then (Inl IndexError, s)
         else if q = 0 then (Inl ZeroDivisionError, s)
         else paper_record_fill ord q (market_cost levels q / q) TAKER now s)"

definition paper_touch :: "order \<Rightarrow> trade_print \<Rightarrow> paper \<Rightarrow> paper" where
  "paper_touch ord t s =
     (if Some (t_price t) = o_price ord \<and> map_of (px_touched s) (o_client_id ord) = None
      then s\<lparr>px_touched := AList.update (o_client_id ord) (t_ts t) (px_touched s)\<rparr> else s)"

definition trades_through :: "order \<Rightarrow> real \<Rightarrow> trade_print \<Rightarrow> bool" where
  "trades_through ord px t = (if o_side ord = BUY then t_price t < px else px < t_price t)"

definition paper_maybe_fill_limit ::
    "datetime \<Rightarrow> order \<Rightarrow> trade_print \<Rightarrow> paper \<Rightarrow> (exn + unit) \<times> paper" where
  "paper_maybe_fill_limit now ord t s =
     (case o_price ord of
        None \<Rightarrow> (Inl TypeError, s)
      | Some px \<Rightarrow>
          (let s1 = paper_touch ord t s
           in if \<not> trades_through ord px t then (Inr (), s1)
              else if \<not> paper_reduce_ok ord s1
              then (Inr (), snd (paper_close now ord EXPIRED ReduceOnlyNoPositionAtFill s1))
              else map_prod (map_sum id (\<lambda>_. ()))  id
                     (paper_record_fill ord (remaining ord) px MAKER (t_ts t) s1)))"

definition stop_hit :: "side \<Rightarrow> real \<Rightarrow> real \<Rightarrow> bool" where
  "stop_hit sd stop px = (if sd = SELL then px \<le> stop else stop \<le> px)"

definition paper_maybe_trigger_stop ::
    "datetime \<Rightarrow> market_view \<Rightarrow> order \<Rightarrow> trade_print \<Rightarrow> paper \<Rightarrow> (exn + unit) \<times> paper" where
  "paper_maybe_trigger_stop now mv ord t s =
     (case o_stop_price ord of
        None \<Rightarrow> (Inl TypeError, s)
      | Some stop \<Rightarrow>
          (if \<not> stop_hit (o_side ord) stop (t_price t) then (Inr (), s)
           else
             (let s1 = paper_emit (t_ts t) (o_client_id ord) Triggered s
              in if \<not> paper_reduce_ok ord s1
                 then (Inr (), snd (paper_close now ord EXPIRED ReduceOnlyNoPositionAtTrigger s1))
                 else case mv_book mv of
                        Inl e \<Rightarrow> (Inl e, s1)
                      | Inr book \<Rightarrow> map_prod (map_sum id (\<lambda>_. ())) id
                                     (paper_fill_market now ord book s1))))"

definition paper_reset_cursor :: "order \<Rightarrow> paper \<Rightarrow> paper" where
  "paper_reset_cursor ord s =
     (if length (paper_open_orders s) = 1
      then s\<lparr>px_last_agg := None, px_last_ts := o_placed_ts ord\<rparr> else s)"

subsection \<open>Orders\<close>

definition paper_place_market ::
    "datetime \<Rightarrow> market_view \<Rightarrow> side \<Rightarrow> real \<Rightarrow> string \<Rightarrow> bool \<Rightarrow> paper \<Rightarrow> (exn + order) \<times> paper"
where
  "paper_place_market now mv sd q cid ro s =
     (case map_of (px_orders s) cid of
        Some ord \<Rightarrow> (Inr ord, s)
      | None \<Rightarrow>
          (case paper_new now cid sd MARKET q None None ro s of
             (Inl e, s1) \<Rightarrow> (Inl e, s1)
           | (Inr ord, s1) \<Rightarrow>
               if \<not> paper_reduce_ok ord s1
               then map_prod Inr id (paper_close now ord EXPIRED ReduceOnlyNotReducing s1)
               else case mv_book mv of
                      Inl e \<Rightarrow> (Inl e, s1)
                    | Inr book \<Rightarrow> paper_fill_market now ord book s1))"

definition crosses :: "side \<Rightarrow> real \<Rightarrow> book_top \<Rightarrow> bool" where
  "crosses sd px b = (if sd = BUY then best_ask b \<le> px else px \<le> best_bid b)"

definition paper_place_limit_gtx ::
    "datetime \<Rightarrow> market_view \<Rightarrow> side \<Rightarrow> real \<Rightarrow> real \<Rightarrow> string \<Rightarrow> bool \<Rightarrow> paper
     \<Rightarrow> (exn + order) \<times> paper" where
  "paper_place_limit_gtx now mv sd q px cid ro s =
     (case map_of (px_orders s) cid of
        Some ord \<Rightarrow> (Inr ord, s)
      | None \<Rightarrow>
          (case paper_new now cid sd LIMIT q (Some px) None ro s of
             (Inl e, s1) \<Rightarrow> (Inl e, s1)
           | (Inr ord, s1) \<Rightarrow>
               if \<not> paper_reduce_ok ord s1
               then map_prod Inr id (paper_close now ord EXPIRED ReduceOnlyNotReducing s1)
               else case mv_book mv of
                      Inl e \<Rightarrow> (Inl e, s1)
                    | Inr book \<Rightarrow>
                        if crosses sd px book
                        then map_prod Inr id (paper_close now ord EXPIRED GtxWouldCross s1)
                        else (Inr ord, paper_reset_cursor ord s1)))"

definition paper_place_stop_market ::
    "datetime \<Rightarrow> market_view \<Rightarrow> side \<Rightarrow> real \<Rightarrow> real \<Rightarrow> string \<Rightarrow> paper \<Rightarrow> (exn + order) \<times> paper"
where
  "paper_place_stop_market now mv sd q stop cid s =
     (case map_of (px_orders s) cid of
        Some ord \<Rightarrow> (Inr ord, s)
      | None \<Rightarrow>
          (case paper_new now cid sd STOP_MARKET q None (Some stop) True s of
             (Inl e, s1) \<Rightarrow> (Inl e, s1)
           | (Inr ord, s1) \<Rightarrow>
               (case mv_last_price mv of
                  Inl e \<Rightarrow> (Inl e, s1)
                | Inr last_px \<Rightarrow>
                    if stop_hit sd stop last_px
                    then map_prod Inr id (paper_close now ord REJECTED StopAlreadyPassed s1)
                    else (Inr ord, paper_reset_cursor ord s1))))"

definition paper_cancel :: "datetime \<Rightarrow> string \<Rightarrow> paper \<Rightarrow> (exn + order) \<times> paper" where
  "paper_cancel now cid s =
     (case paper_get_order cid s of
        Inl e \<Rightarrow> (Inl e, s)
      | Inr ord \<Rightarrow>
          if \<not> is_open (o_status ord)
          then (Inl (OrderRejected (AlreadyClosed (o_status ord))), s)
          else map_prod Inr id (paper_close now ord CANCELED NoReason s))"

fun paper_cancel_list ::
    "datetime \<Rightarrow> string list \<Rightarrow> paper \<Rightarrow> (exn + order list) \<times> paper" where
  "paper_cancel_list now [] s = (Inr [], s)"
| "paper_cancel_list now (cid # cids) s =
     (case paper_cancel now cid s of
        (Inl e, s1) \<Rightarrow> (Inl e, s1)
      | (Inr ord, s1) \<Rightarrow>
          (case paper_cancel_list now cids s1 of
             (Inl e, s2) \<Rightarrow> (Inl e, s2)
           | (Inr ords, s2) \<Rightarrow> (Inr (ord # ords), s2)))"

definition paper_cancel_all :: "datetime \<Rightarrow> paper \<Rightarrow> (exn + order list) \<times> paper" where
  "paper_cancel_all now s = paper_cancel_list now (map o_client_id (paper_open_orders s)) s"

subsection \<open>Progress\<close>

definition placed_at :: "order \<Rightarrow> datetime" where
  "placed_at ord = (case o_placed_ts ord of Some t \<Rightarrow> t | None \<Rightarrow> 0)"

definition paper_on_trade ::
    "datetime \<Rightarrow> market_view \<Rightarrow> trade_print \<Rightarrow> string \<Rightarrow> paper \<Rightarrow> (exn + unit) \<times> paper" where
  "paper_on_trade now mv t cid s =
     (case map_of (px_orders s) cid of
        None \<Rightarrow> (Inr (), s)
      | Some ord \<Rightarrow>
          (case o_type ord of
             LIMIT \<Rightarrow> paper_maybe_fill_limit now ord t s
           | STOP_MARKET \<Rightarrow> paper_maybe_trigger_stop now mv ord t s
           | MARKET \<Rightarrow> (Inr (), s)))"

fun paper_each_order ::
    "datetime \<Rightarrow> market_view \<Rightarrow> trade_print \<Rightarrow> string list \<Rightarrow> paper \<Rightarrow> (exn + unit) \<times> paper" where
  "paper_each_order now mv t [] s = (Inr (), s)"
| "paper_each_order now mv t (cid # cids) s =
     (case paper_on_trade now mv t cid s of
        (Inl e, s1) \<Rightarrow> (Inl e, s1)
      | (Inr _, s1) \<Rightarrow> paper_each_order now mv t cids s1)"

fun paper_each_trade ::
    "datetime \<Rightarrow> market_view \<Rightarrow> trade_print list \<Rightarrow> paper \<Rightarrow> (exn + unit) \<times> paper" where
  "paper_each_trade now mv [] s = (Inr (), s)"
| "paper_each_trade now mv (t # ts) s =
     (let s1 = s\<lparr>px_last_agg := Some (t_agg_id t), px_last_ts := Some (t_ts t)\<rparr>;
          waiting = filter (\<lambda>ord. placed_at ord < t_ts t) (paper_open_orders s1)
      in case paper_each_order now mv t (map o_client_id waiting) s1 of
           (Inl e, s2) \<Rightarrow> (Inl e, s2)
         | (Inr _, s2) \<Rightarrow> paper_each_trade now mv ts s2)"

definition paper_poll ::
    "datetime \<Rightarrow> market_view \<Rightarrow> paper \<Rightarrow> (exn + order_event list) \<times> paper" where
  "paper_poll now mv s =
     (let resting = paper_open_orders s
      in if resting = [] then (Inr [], s)
         else
           (let since = (case px_last_ts s of Some t \<Rightarrow> t | None \<Rightarrow> Min (set (map placed_at resting)))
            in case paper_each_trade now mv (mv_trades_after mv (px_last_agg s) since) s of
                 (Inl e, s1) \<Rightarrow> (Inl e, s1)
               | (Inr _, s1) \<Rightarrow> (Inr (drop (length (px_events s)) (px_events s1)), s1)))"

subsection \<open>The state file\<close>

definition fill_to_dict :: "fill \<Rightarrow> (string \<times> json) list" where
  "fill_to_dict f =
     [(''client_id'', JStr (f_client_id f)), (''ts'', JTime (f_ts f)),
      (''side'', JStr (side_value (f_side f))), (''qty'', JNum (f_qty f)),
      (''price'', JNum (f_price f)), (''fee'', JNum (f_fee f)),
      (''liquidity'', JStr (liquidity_value (f_liquidity f)))]"

definition fill_from_dict :: "(string \<times> json) list \<Rightarrow> fill option" where
  "fill_from_dict d =
     Option.bind (j_str d ''client_id'') (\<lambda>cid.
     Option.bind (j_time d ''ts'') (\<lambda>ts.
     Option.bind (Option.bind (map_of d ''side'') side_of_value) (\<lambda>sd.
     Option.bind (j_num d ''qty'') (\<lambda>q.
     Option.bind (j_num d ''price'') (\<lambda>px.
     Option.bind (j_num d ''fee'') (\<lambda>fee.
     Option.bind (Option.bind (map_of d ''liquidity'') liquidity_of_value) (\<lambda>lq.
     Some \<lparr>f_client_id = cid, f_ts = ts, f_side = sd, f_qty = q, f_price = px, f_fee = fee,
           f_liquidity = lq\<rparr>)))))))"

definition position_to_dict :: "position \<Rightarrow> (string \<times> json) list" where
  "position_to_dict p =
     [(''symbol'', JStr (p_symbol p)), (''qty'', JNum (p_qty p)),
      (''entry_price'', JNum (p_entry_price p)), (''realized_pnl'', JNum (p_realized_pnl p)),
      (''fees'', JNum (p_fees p))]"

definition position_from_dict :: "(string \<times> json) list \<Rightarrow> position option" where
  "position_from_dict d =
     Option.bind (j_str d ''symbol'') (\<lambda>sm.
     Option.bind (j_num d ''qty'') (\<lambda>q.
     Option.bind (j_num d ''entry_price'') (\<lambda>e.
     Option.bind (j_num d ''realized_pnl'') (\<lambda>r.
     Option.bind (j_num d ''fees'') (\<lambda>fs.
     Some \<lparr>p_symbol = sm, p_qty = q, p_entry_price = e, p_realized_pnl = r, p_fees = fs\<rparr>)))))"

fun obj :: "json \<Rightarrow> (string \<times> json) list option" where
  "obj (JObj d) = Some d"
| "obj _ = None"

fun arr :: "json \<Rightarrow> json list option" where
  "arr (JList xs) = Some xs"
| "arr _ = None"

fun all_some :: "'a option list \<Rightarrow> 'a list option" where
  "all_some [] = Some []"
| "all_some (None # xs) = None"
| "all_some (Some x # xs) = map_option ((#) x) (all_some xs)"

definition paper_save :: "paper \<Rightarrow> json" where
  "paper_save s =
     JObj [(''orders'', JList (map (\<lambda>ord. JObj (order_to_dict ord)) (map snd (px_orders s)))),
           (''fills'', JList (map (\<lambda>f. JObj (fill_to_dict f)) (px_fills s))),
           (''position'', JObj (position_to_dict (px_pos s))),
           (''cursor'', JObj [(''agg'', jopt JInt (px_last_agg s)),
                              (''ts'', jopt JTime (px_last_ts s))])]"

definition paper_load :: "string \<Rightarrow> fee_schedule \<Rightarrow> json \<Rightarrow> paper option" where
  "paper_load sm fs file =
     Option.bind (obj file) (\<lambda>d.
     Option.bind (Option.bind (map_of d ''orders'') arr) (\<lambda>os.
     Option.bind (all_some (map (\<lambda>j. Option.bind (obj j) order_from_dict) os)) (\<lambda>ords.
     Option.bind (Option.bind (map_of d ''fills'') arr) (\<lambda>fls.
     Option.bind (all_some (map (\<lambda>j. Option.bind (obj j) fill_from_dict) fls)) (\<lambda>fills.
     Option.bind (Option.bind (Option.bind (map_of d ''position'') obj) position_from_dict) (\<lambda>pos.
     Option.bind (Option.bind (map_of d ''cursor'') obj) (\<lambda>c.
     Option.bind (j_int_opt c ''agg'') (\<lambda>agg.
     Option.bind (j_time_opt c ''ts'') (\<lambda>ts.
     Some ((paper_init sm fs)
       \<lparr>px_orders := fold (\<lambda>ord m. AList.update (o_client_id ord) ord m) ords [],
        px_fills := fills, px_pos := pos, px_last_agg := agg, px_last_ts := ts\<rparr>))))))))))"

end
