(* ===== verification/Paper_Correct.thy ===== *)
theory Paper_Correct
  imports Paper_Exchange Broker_Interface
begin

text \<open>
  Correctness of the simulated exchange: the well-formedness invariant \<open>paper_inv\<close>
  (the ledger agrees with the fills, open orders are unfilled), the order life cycle
  \<open>paper_ext\<close> (closed orders, fills and events are never rewritten), both kept by every
  operation; reduce-only orders; the fill price of market and post-only orders; the
  state file; and the contract a guarded client relies on.
\<close>

subsection \<open>The invariant\<close>

definition net_fills :: "fill list \<Rightarrow> real" where
  "net_fills fs = (\<Sum>f\<leftarrow>fs. side_sign (f_side f) * f_qty f)"

definition order_ok :: "order \<Rightarrow> bool" where
  "order_ok ord \<longleftrightarrow> 0 < o_qty ord \<and> o_status ord \<noteq> PARTIALLY_FILLED
     \<and> (is_open (o_status ord) \<longrightarrow> o_filled_qty ord = 0)
     \<and> (o_status ord = FILLED \<longrightarrow> o_filled_qty ord = round8 (o_qty ord))
     \<and> o_placed_ts ord \<noteq> None
     \<and> (o_type ord = LIMIT \<longrightarrow> o_price ord \<noteq> None)
     \<and> (o_type ord = STOP_MARKET \<longrightarrow> o_stop_price ord \<noteq> None \<and> o_reduce_only ord)"

definition orders_ok :: "(string \<times> order) list \<Rightarrow> bool" where
  "orders_ok os \<longleftrightarrow> distinct (map fst os)
     \<and> (\<forall>k ord. map_of os k = Some ord \<longrightarrow> o_client_id ord = k \<and> order_ok ord)"

definition mark_profit :: "position \<Rightarrow> real \<Rightarrow> real" where
  "mark_profit p m = p_realized_pnl p + p_qty p * (m - p_entry_price p)"

definition fills_profit :: "fill list \<Rightarrow> real \<Rightarrow> real" where
  "fills_profit fs m = (\<Sum>f\<leftarrow>fs. side_sign (f_side f) * f_qty f * (m - f_price f))"

definition ledger_ok :: "paper \<Rightarrow> bool" where
  "ledger_ok s \<longleftrightarrow> p_qty (px_pos s) = net_fills (px_fills s) \<and> on_grid 8 (p_qty (px_pos s))
     \<and> p_fees (px_pos s) = (\<Sum>f\<leftarrow>px_fills s. f_fee f)
     \<and> (\<forall>m. mark_profit (px_pos s) m = fills_profit (px_fills s) m)
     \<and> (\<forall>f\<in>set (px_fills s). 0 \<le> f_qty f \<and> on_grid 8 (f_qty f))"

definition filled_of :: "string \<Rightarrow> fill list \<Rightarrow> real" where
  "filled_of k fs = (\<Sum>f\<leftarrow>fs. if f_client_id f = k then f_qty f else 0)"

definition order_filled :: "order option \<Rightarrow> real" where
  "order_filled x = (case x of None \<Rightarrow> 0 | Some ord \<Rightarrow> o_filled_qty ord)"

definition filled_ok :: "paper \<Rightarrow> bool" where
  "filled_ok s \<longleftrightarrow> (\<forall>k. filled_of k (px_fills s) = order_filled (map_of (px_orders s) k))"

definition paper_inv :: "paper \<Rightarrow> bool" where
  "paper_inv s \<longleftrightarrow> orders_ok (px_orders s) \<and> ledger_ok s \<and> filled_ok s"

text \<open>How an order may evolve: its request is fixed, and a closed order is final.\<close>

definition same_request :: "order \<Rightarrow> order \<Rightarrow> bool" where
  "same_request a b \<longleftrightarrow> o_client_id a = o_client_id b \<and> o_symbol a = o_symbol b
     \<and> o_side a = o_side b \<and> o_type a = o_type b \<and> o_qty a = o_qty b \<and> o_price a = o_price b
     \<and> o_stop_price a = o_stop_price b \<and> o_reduce_only a = o_reduce_only b
     \<and> o_placed_ts a = o_placed_ts b"

definition order_le :: "order \<Rightarrow> order \<Rightarrow> bool" where
  "order_le a b \<longleftrightarrow> same_request a b \<and> (is_open (o_status a) \<or> a = b)"

definition paper_ext :: "paper \<Rightarrow> paper \<Rightarrow> bool" where
  "paper_ext s s' \<longleftrightarrow>
     (\<forall>k ord. map_of (px_orders s) k = Some ord
        \<longrightarrow> (\<exists>ord'. map_of (px_orders s') k = Some ord' \<and> order_le ord ord'))
     \<and> px_symbol s' = px_symbol s \<and> px_fees s' = px_fees s
     \<and> (\<exists>fs. px_fills s' = px_fills s @ fs) \<and> (\<exists>es. px_events s' = px_events s @ es)"

lemma order_le_refl [simp]: "order_le a a"
  by (simp add: order_le_def same_request_def)

lemma order_le_trans: "order_le a b \<Longrightarrow> order_le b c \<Longrightarrow> order_le a c"
  unfolding order_le_def same_request_def by (elim conjE disjE) (simp_all (no_asm_simp))

definition keeps :: "paper \<Rightarrow> paper \<Rightarrow> bool" where
  "keeps s s' \<longleftrightarrow> (paper_inv s \<longrightarrow> paper_inv s' \<and> paper_ext s s')"

lemma paper_ext_refl [simp, intro]: "paper_ext s s"
  by (auto simp: paper_ext_def)

lemma paper_ext_lookup:
  "paper_ext s t \<Longrightarrow> map_of (px_orders s) k = Some ord
   \<Longrightarrow> \<exists>ord'. map_of (px_orders t) k = Some ord' \<and> order_le ord ord'"
  by (simp add: paper_ext_def)

lemma paper_ext_trans: "paper_ext s t \<Longrightarrow> paper_ext t u \<Longrightarrow> paper_ext s u"
proof -
  assume a: "paper_ext s t" and b: "paper_ext t u"
  obtain fs es where 1: "px_fills t = px_fills s @ fs" "px_events t = px_events s @ es"
    using a unfolding paper_ext_def by blast
  obtain fs' es' where 2: "px_fills u = px_fills t @ fs'" "px_events u = px_events t @ es'"
    using b unfolding paper_ext_def by blast
  have "\<exists>fs. px_fills u = px_fills s @ fs" "\<exists>es. px_events u = px_events s @ es"
    using 1 2 by simp_all
  moreover have "\<exists>ord'. map_of (px_orders u) k = Some ord' \<and> order_le ord ord'"
    if m: "map_of (px_orders s) k = Some ord" for k ord
  proof -
    obtain x where x: "map_of (px_orders t) k = Some x" "order_le ord x"
      using paper_ext_lookup [OF a m] by blast
    obtain y where "map_of (px_orders u) k = Some y" "order_le x y"
      using paper_ext_lookup [OF b x(1)] by blast
    with x(2) show ?thesis using order_le_trans by blast
  qed
  ultimately show ?thesis using a b unfolding paper_ext_def by simp
qed

lemma keeps_refl [simp, intro]: "keeps s s"
  by (simp add: keeps_def)

lemma keeps_trans: "keeps s t \<Longrightarrow> keeps t u \<Longrightarrow> keeps s u"
  unfolding keeps_def using paper_ext_trans by blast

lemma paper_inv_init: "paper_inv (paper_init sm fs)"
  by (simp add: paper_inv_def orders_ok_def ledger_ok_def paper_init_def flat_position_def
      net_fills_def mark_profit_def fills_profit_def filled_ok_def filled_of_def order_filled_def)

text \<open>Changes outside the orders, the fills and the position are of no concern.\<close>

lemma keeps_fields:
  "px_orders s' = px_orders s \<Longrightarrow> px_fills s' = px_fills s \<Longrightarrow> px_pos s' = px_pos s
   \<Longrightarrow> px_symbol s' = px_symbol s \<Longrightarrow> px_fees s' = px_fees s
   \<Longrightarrow> \<exists>es. px_events s' = px_events s @ es \<Longrightarrow> keeps s s'"
  by (auto simp: keeps_def paper_inv_def ledger_ok_def filled_ok_def paper_ext_def)

lemma open_order_lookup:
  assumes "orders_ok (px_orders s)"
  shows "ord \<in> set (paper_open_orders s)
    \<longleftrightarrow> map_of (px_orders s) (o_client_id ord) = Some ord \<and> is_open (o_status ord)"
proof -
  have d: "distinct (map fst (px_orders s))" using assms by (simp add: orders_ok_def)
  have iff: "(k, ord) \<in> set (px_orders s) \<longleftrightarrow> map_of (px_orders s) k = Some ord" for k
    using map_of_eq_Some_iff [OF d] by blast
  have "ord \<in> snd ` set (px_orders s) \<longleftrightarrow> (\<exists>k. map_of (px_orders s) k = Some ord)"
    unfolding iff [symmetric] by force
  also have "\<dots> \<longleftrightarrow> map_of (px_orders s) (o_client_id ord) = Some ord"
    using assms unfolding orders_ok_def by blast
  finally have "ord \<in> snd ` set (px_orders s)
    \<longleftrightarrow> map_of (px_orders s) (o_client_id ord) = Some ord" .
  then show ?thesis by (auto simp: paper_open_orders_def)
qed

lemma orders_ok_ids:
  assumes "orders_ok os" shows "map o_client_id (map snd os) = map fst os"
proof -
  have "o_client_id (snd e) = fst e" if "e \<in> set os" for e
    using assms that map_of_is_SomeI [of os "fst e" "snd e"] unfolding orders_ok_def by simp
  then show ?thesis by simp
qed

subsection \<open>Internal steps keep it\<close>

lemma put_keeps:
  assumes "order_ok ord" and "orders_ok (px_orders s)" and "ledger_ok s"
    and "\<forall>k. filled_of k (px_fills s) =
           order_filled (map_of (px_orders (paper_put ord s)) k)"
    and "map_of (px_orders s) (o_client_id ord) = None \<or>
         (\<exists>old. map_of (px_orders s) (o_client_id ord) = Some old \<and> is_open (o_status old)
            \<and> same_request old ord)"
  shows "paper_inv (paper_put ord s) \<and> paper_ext s (paper_put ord s)"
proof -
  have "orders_ok (px_orders (paper_put ord s))"
    using assms(1,2) by (auto simp: orders_ok_def paper_put_def)
  then show ?thesis
    using assms(3-5)
    by (auto simp: paper_inv_def ledger_ok_def filled_ok_def paper_put_def paper_ext_def order_le_def
        same_request_def)
qed

lemma keeps_put:
  assumes "order_ok ord"
    and "(map_of (px_orders s) (o_client_id ord) = None \<and> o_filled_qty ord = 0) \<or>
         (\<exists>old. map_of (px_orders s) (o_client_id ord) = Some old \<and> is_open (o_status old)
            \<and> same_request old ord \<and> o_filled_qty ord = o_filled_qty old)"
  shows "keeps s (paper_put ord s)"
  unfolding keeps_def
proof
  assume i: "paper_inv s"
  have "\<forall>k. filled_of k (px_fills s) = order_filled (map_of (px_orders (paper_put ord s)) k)"
    using i assms(2) by (auto simp: paper_inv_def filled_ok_def paper_put_def order_filled_def)
  then show "paper_inv (paper_put ord s) \<and> paper_ext s (paper_put ord s)"
    using i assms by (intro put_keeps) (auto simp: paper_inv_def)
qed

lemma keeps_emit: "keeps s (paper_emit t cid k s)"
  by (rule keeps_fields) (simp_all add: paper_emit_def)

lemma keeps_new:
  assumes "paper_new now cid sd ty q px stop ro s = (r, s')"
    and "map_of (px_orders s) cid = None"
    and "ty = LIMIT \<Longrightarrow> px \<noteq> None" "ty = STOP_MARKET \<Longrightarrow> stop \<noteq> None \<and> ro"
  shows "keeps s s'"
proof (cases "q \<le> 0")
  case True
  with assms(1) show ?thesis by (simp add: paper_new_def)
next
  case False
  then show ?thesis
    using assms unfolding paper_new_def Let_def
    by (auto intro!: keeps_trans [OF keeps_put keeps_emit] simp: new_order_def order_ok_def)
qed

lemma new_result:
  assumes "paper_new now cid sd ty q px stop ro s = (Inr ord, s')"
  shows "map_of (px_orders s') cid = Some ord \<and> o_client_id ord = cid \<and> is_open (o_status ord)
    \<and> o_filled_qty ord = 0 \<and> o_qty ord = q \<and> 0 < q \<and> o_side ord = sd \<and> o_type ord = ty
    \<and> o_price ord = px \<and> o_stop_price ord = stop \<and> o_reduce_only ord = ro
    \<and> o_status ord = NEW
    \<and> px_pos s' = px_pos s \<and> px_fills s' = px_fills s"
  using assms by (auto simp: paper_new_def Let_def new_order_def paper_emit_def paper_put_def
      split: if_splits)

lemma keeps_close:
  assumes "map_of (px_orders s) (o_client_id ord) = Some ord" "is_open (o_status ord)"
    and "\<not> is_open st" "st \<noteq> FILLED"
  shows "keeps s (snd (paper_close now ord st why s))"
proof -
  have "order_ok ord \<Longrightarrow> order_ok (ord\<lparr>o_status := st, o_reason := why, o_updated_ts := Some now\<rparr>)"
    using assms(3,4) by (auto simp: order_ok_def is_open_def)
  moreover have "paper_inv s \<Longrightarrow> order_ok ord"
    using assms(1) by (auto simp: paper_inv_def orders_ok_def)
  ultimately have "paper_inv s \<Longrightarrow> ?thesis"
    unfolding paper_close_def Let_def snd_conv using assms
    by (intro keeps_trans [OF keeps_put keeps_emit]) (auto simp: same_request_def)
  then show ?thesis by (auto simp: keeps_def)
qed

lemma record_fill_result:
  assumes inv: "paper_inv s" and ord: "map_of (px_orders s) (o_client_id ord) = Some ord"
    and opn: "is_open (o_status ord)"
    and r: "paper_record_fill ord (remaining ord) px lq ts s = (res, s')"
  shows "paper_inv s' \<and> paper_ext s s'
    \<and> p_qty (px_pos s') = p_qty (px_pos s) +
        (if px_fills s' = px_fills s then 0 else side_sign (o_side ord) * remaining ord)
    \<and> (0 < remaining ord \<longrightarrow> (\<exists>o2. res = Inr o2 \<and> o_status o2 = FILLED \<and> o_avg_price o2 = px
          \<and> map_of (px_orders s') (o_client_id ord) = Some o2
          \<and> px_fills s' = px_fills s @ [\<lparr>f_client_id = o_client_id ord, f_ts = ts,
              f_side = o_side ord, f_qty = remaining ord, f_price = px,
              f_fee = fee_of (px_fees s) (remaining ord * px) lq, f_liquidity = lq\<rparr>]))"
proof -
  let ?q = "remaining ord"
  have ok: "order_ok ord" using inv ord by (auto simp: paper_inv_def orders_ok_def)
  have q: "?q = round8 (o_qty ord)" "0 \<le> ?q" "on_grid 8 ?q" and f0: "o_filled_qty ord = 0"
    using ok opn by (auto simp: remaining_def order_ok_def)
  have grid: "on_grid 8 (p_qty (px_pos s))"
    using inv unfolding paper_inv_def ledger_ok_def by blast
  show ?thesis
  proof (cases "position_apply (px_pos s) (o_side ord) ?q px (fee_of (px_fees s) (?q * px) lq)")
    case (Inl e)
    with r have "s' = s" by (auto simp: paper_record_fill_def Let_def)
    moreover have "\<not> 0 < ?q"
      using position_apply_total [of ?q "px_pos s" "o_side ord" px] Inl by (metis sum.distinct(1))
    ultimately show ?thesis using inv by simp
  next
    case (Inr rp)
    obtain rl p' where pa: "position_apply (px_pos s) (o_side ord) ?q px
        (fee_of (px_fees s) (?q * px) lq) = Inr (rl, p')" using Inr by (cases rp) auto
    note pq = position_apply_qty [OF grid q(3) pa]
    let ?f = "\<lparr>f_client_id = o_client_id ord, f_ts = ts, f_side = o_side ord, f_qty = ?q,
        f_price = px, f_fee = fee_of (px_fees s) (?q * px) lq, f_liquidity = lq\<rparr>"
    let ?s1 = "s\<lparr>px_pos := p', px_fills := px_fills s @ [?f]\<rparr>"
    have oks: "orders_ok (px_orders s)" "ledger_ok s" "filled_ok s"
      using inv by (auto simp: paper_inv_def)
    have "mark_profit p' m = mark_profit (px_pos s) m + side_sign (o_side ord) * ?q * (m - px)" for m
    proof (cases "0 < ?q")
      case True
      then show ?thesis using position_apply_mtm [OF True grid q(3) pa] by (simp add: mark_profit_def)
    next
      case False
      with q(2) have "?q = 0" by simp
      then show ?thesis
        using position_apply_zero [OF grid pa [unfolded \<open>?q = 0\<close>]] by (simp add: mark_profit_def)
    qed
    then have "mark_profit p' m = fills_profit (px_fills s @ [?f]) m" for m
      using oks(2) by (simp add: ledger_ok_def fills_profit_def)
    then have led: "ledger_ok ?s1"
      using oks(2) pq q(2,3) by (auto simp: ledger_ok_def net_fills_def)
    have ext1: "paper_ext s ?s1" by (auto simp: paper_ext_def)
    show ?thesis
    proof (cases "?q = 0")
      case True
      then have "s' = ?s1" using r pa f0 by (auto simp: paper_record_fill_def Let_def)
      moreover have "filled_ok ?s1"
        using oks(3) True by (simp add: filled_ok_def filled_of_def cong: if_cong)
      ultimately show ?thesis using ext1 pq True led oks by (simp add: paper_inv_def)
    next
      case False
      let ?o2 = "ord\<lparr>o_avg_price := px, o_filled_qty := round8 ?q, o_status := FILLED,
          o_updated_ts := Some ts\<rparr>"
      have rem: "remaining (ord\<lparr>o_avg_price := a, o_filled_qty := round8 ?q\<rparr>) = 0" for a
        using q(1) round_dec_on_grid [OF q(3)] by (simp add: remaining_def)
      have res: "res = Inr ?o2" "s' = paper_emit ts (o_client_id ord) Filled (paper_put ?o2 ?s1)"
        using r pa f0 False rem by (auto simp: paper_record_fill_def Let_def)
      have "order_ok ?o2"
        using ok q(1) round_dec_on_grid [OF q(3)] by (auto simp: order_ok_def)
      moreover have "filled_of k (px_fills ?s1) =
          order_filled (map_of (px_orders (paper_put ?o2 ?s1)) k)" for k
        using oks(3) ord f0 round_dec_on_grid [OF q(3)]
        by (auto simp: filled_ok_def filled_of_def order_filled_def paper_put_def
            dest!: spec [of _ k])
      ultimately have "paper_inv (paper_put ?o2 ?s1) \<and> paper_ext ?s1 (paper_put ?o2 ?s1)"
        using led oks(1) ord opn by (intro put_keeps) (auto simp: same_request_def)
      then have "paper_inv s' \<and> paper_ext s s'"
        using ext1 paper_ext_trans keeps_emit [of "paper_put ?o2 ?s1" ts "o_client_id ord" Filled]
        unfolding res(2) keeps_def by blast
      then show ?thesis
        using pq False unfolding res by (simp add: paper_emit_def paper_put_def)
    qed
  qed
qed

lemma record_fill_keeps:
  assumes "map_of (px_orders s) (o_client_id ord) = Some ord" "is_open (o_status ord)"
    and "paper_record_fill ord (remaining ord) px lq ts s = (res, s')"
  shows "keeps s s'"
  using record_fill_result [OF _ assms] by (auto simp: keeps_def)

subsection \<open>The exchange as a state machine\<close>

text \<open>
  Every operation is a sequence of five kinds of steps.  \<open>P\<close> restricts the orders that
  are created, \<open>T\<close> is the set of trade prints the market data delivered.  What holds of
  the steps holds of the operations.
\<close>

inductive px_step :: "(order \<Rightarrow> bool) \<Rightarrow> (trade_print \<Rightarrow> bool) \<Rightarrow> paper \<Rightarrow> paper \<Rightarrow> bool"
  for P T where
  step_new: "map_of (px_orders s) cid = None \<Longrightarrow> (ty = LIMIT \<longrightarrow> px \<noteq> None)
     \<Longrightarrow> (ty = STOP_MARKET \<longrightarrow> stop \<noteq> None \<and> ro)
     \<Longrightarrow> paper_new now cid sd ty q px stop ro s = (Inr ord, s') \<Longrightarrow> P ord \<Longrightarrow> px_step P T s s'"
| step_close: "map_of (px_orders s) (o_client_id ord) = Some ord \<Longrightarrow> is_open (o_status ord)
     \<Longrightarrow> st \<in> {EXPIRED, CANCELED, REJECTED} \<Longrightarrow> px_step P T s (snd (paper_close now ord st why s))"
| step_taker: "map_of (px_orders s) (o_client_id ord) = Some ord \<Longrightarrow> is_open (o_status ord)
     \<Longrightarrow> paper_reduce_ok ord s \<Longrightarrow> o_type ord = MARKET \<and> P ord \<or> o_type ord = STOP_MARKET
     \<Longrightarrow> px_step P T s (snd (paper_record_fill ord (remaining ord) px TAKER now s))"
| step_maker: "map_of (px_orders s) (o_client_id ord) = Some ord \<Longrightarrow> is_open (o_status ord)
     \<Longrightarrow> paper_reduce_ok ord s \<Longrightarrow> o_type ord = LIMIT \<Longrightarrow> o_price ord = Some px
     \<Longrightarrow> T t \<Longrightarrow> trades_through ord px t \<Longrightarrow> placed_at ord < t_ts t
     \<Longrightarrow> px_step P T s (snd (paper_record_fill ord (remaining ord) px MAKER (t_ts t) s))"
| step_misc: "px_step P T s (s\<lparr>px_touched := tch, px_last_agg := ag, px_last_ts := lt,
     px_events := px_events s @ es\<rparr>)"

abbreviation px_steps ::
    "(order \<Rightarrow> bool) \<Rightarrow> (trade_print \<Rightarrow> bool) \<Rightarrow> paper \<Rightarrow> paper \<Rightarrow> bool" where
  "px_steps P T \<equiv> (px_step P T)\<^sup>*\<^sup>*"

lemma px_step_keeps: "px_step P T s s' \<Longrightarrow> keeps s s'"
proof (induction rule: px_step.induct)
  case (step_new s cid ty px stop ro now sd q ord s')
  then show ?case using keeps_new by blast
next
  case (step_close s ord st now why)
  then show ?case by (intro keeps_close) auto
next
  case (step_taker s ord px now)
  then show ?case using record_fill_keeps surjective_pairing by blast
next
  case (step_maker s ord px t)
  then show ?case using record_fill_keeps surjective_pairing by blast
next
  case (step_misc s tch ag lt es)
  show ?case by (rule keeps_fields) simp_all
qed

lemma px_steps_keep: "px_steps P T s s' \<Longrightarrow> keeps s s'"
  by (induction rule: rtranclp_induct) (auto intro: keeps_trans px_step_keeps)

lemma px_steps_inv: "px_steps P T s s' \<Longrightarrow> paper_inv s \<Longrightarrow> paper_inv s' \<and> paper_ext s s'"
  using px_steps_keep by (simp add: keeps_def)

lemmas px_one = r_into_rtranclp [of "px_step P T" for P T]

lemma steps_emit: "px_steps P T s (paper_emit t cid k s)"
  using px_one [OF step_misc [where s = s and tch = "px_touched s" and ag = "px_last_agg s"
      and lt = "px_last_ts s" and es = "[\<lparr>e_ts = t, e_client_id = cid, e_kind = k\<rparr>]"]]
  by (simp add: paper_emit_def)

lemma steps_reset_cursor: "px_steps P T s (paper_reset_cursor ord s)"
proof -
  have "px_steps P T s (s\<lparr>px_last_agg := None, px_last_ts := o_placed_ts ord\<rparr>)"
    using px_one [OF step_misc [where s = s and tch = "px_touched s" and ag = None
        and lt = "o_placed_ts ord" and es = "[]"]] by simp
  then show ?thesis by (simp add: paper_reset_cursor_def)
qed

lemma steps_touch: "px_steps P T s (paper_touch ord t s)"
proof -
  let ?tch = "AList.update (o_client_id ord) (t_ts t) (px_touched s)"
  have "px_steps P T s (s\<lparr>px_touched := ?tch\<rparr>)"
    using px_one [OF step_misc [where s = s and tch = ?tch and ag = "px_last_agg s"
        and lt = "px_last_ts s" and es = "[]"]] by simp
  then show ?thesis by (simp add: paper_touch_def)
qed

lemma steps_close:
  "map_of (px_orders s) (o_client_id ord) = Some ord \<Longrightarrow> is_open (o_status ord)
   \<Longrightarrow> st \<in> {EXPIRED, CANCELED, REJECTED}
   \<Longrightarrow> px_steps P T s (snd (paper_close now ord st why s))"
  by (intro px_one step_close)

lemma fill_market_steps:
  assumes "paper_fill_market now ord book s = (res, s')"
    and "map_of (px_orders s) (o_client_id ord) = Some ord" "is_open (o_status ord)"
    and "paper_reduce_ok ord s" "o_type ord = MARKET \<and> P ord \<or> o_type ord = STOP_MARKET"
  shows "px_steps P T s s'"
proof -
  let ?q = "remaining ord"
  define px where
    "px = market_cost (if o_side ord = BUY then asks book else bids book) ?q / ?q"
  have "s' = s \<or> s' = snd (paper_record_fill ord ?q px TAKER now s)"
    using assms(1) by (auto simp: paper_fill_market_def Let_def px_def split: if_splits)
  then show ?thesis using px_one [OF step_taker [of s ord P T, OF assms(2-5)]] by auto
qed


lemma place_market_steps:
  assumes r: "paper_place_market now mv sd q cid ro s = (res, s')"
    and P: "\<And>ord. o_reduce_only ord = ro \<Longrightarrow> o_type ord = MARKET \<Longrightarrow> P ord"
  shows "px_steps P T s s'"
proof (cases "map_of (px_orders s) cid")
  case (Some ord)
  with r show ?thesis by (simp add: paper_place_market_def)
next
  case None
  obtain r1 s1 where n: "paper_new now cid sd MARKET q None None ro s = (r1, s1)" by fastforce
  show ?thesis
  proof (cases r1)
    case (Inl e)
    with r None n show ?thesis by (auto simp: paper_place_market_def paper_new_def Let_def split: if_splits)
  next
    case (Inr ord)
    note f = new_result [OF n [unfolded Inr]]
    have "P ord" by (rule P) (use f in simp_all)
    then have k1: "px_steps P T s s1"
      using n unfolding Inr by (intro px_one step_new [OF None]) simp_all
    have "px_steps P T s1 s'"
      using r None n Inr f \<open>P ord\<close>
      by (auto simp: paper_place_market_def dest!: map_prod_idD
          intro: steps_close fill_market_steps split: if_splits sum.splits)
    with k1 show ?thesis by (rule rtranclp_trans)
  qed
qed

lemma place_limit_steps:
  assumes r: "paper_place_limit_gtx now mv sd q px cid ro s = (res, s')"
    and P: "\<And>ord. o_reduce_only ord = ro \<Longrightarrow> P ord"
  shows "px_steps P T s s'"
proof (cases "map_of (px_orders s) cid")
  case (Some ord)
  with r show ?thesis by (simp add: paper_place_limit_gtx_def)
next
  case None
  obtain r1 s1 where n: "paper_new now cid sd LIMIT q (Some px) None ro s = (r1, s1)" by fastforce
  show ?thesis
  proof (cases r1)
    case (Inl e)
    with r None n show ?thesis
      by (auto simp: paper_place_limit_gtx_def paper_new_def Let_def split: if_splits)
  next
    case (Inr ord)
    note f = new_result [OF n [unfolded Inr]]
    have "P ord" by (rule P) (use f in simp)
    then have k1: "px_steps P T s s1"
      using n unfolding Inr by (intro px_one step_new [OF None]) simp_all
    have "px_steps P T s1 s'"
      using r None n Inr f
      by (auto simp: paper_place_limit_gtx_def dest!: map_prod_idD
          intro: steps_close steps_reset_cursor split: if_splits sum.splits)
    with k1 show ?thesis by (rule rtranclp_trans)
  qed
qed

lemma place_stop_steps:
  assumes r: "paper_place_stop_market now mv sd q stop cid s = (res, s')"
    and P: "\<And>ord. o_reduce_only ord \<Longrightarrow> P ord"
  shows "px_steps P T s s'"
proof (cases "map_of (px_orders s) cid")
  case (Some ord)
  with r show ?thesis by (simp add: paper_place_stop_market_def)
next
  case None
  obtain r1 s1 where n: "paper_new now cid sd STOP_MARKET q None (Some stop) True s = (r1, s1)"
    by fastforce
  show ?thesis
  proof (cases r1)
    case (Inl e)
    with r None n show ?thesis
      by (auto simp: paper_place_stop_market_def paper_new_def Let_def split: if_splits)
  next
    case (Inr ord)
    note f = new_result [OF n [unfolded Inr]]
    have "P ord" by (rule P) (use f in simp)
    then have k1: "px_steps P T s s1"
      using n unfolding Inr by (intro px_one step_new [OF None]) simp_all
    have "px_steps P T s1 s'"
      using r None n Inr f
      by (auto simp: paper_place_stop_market_def dest!: map_prod_idD
          intro: steps_close steps_reset_cursor split: if_splits sum.splits)
    with k1 show ?thesis by (rule rtranclp_trans)
  qed
qed

lemma cancel_steps:
  assumes r: "paper_cancel now cid s = (res, s')" and i: "paper_inv s"
  shows "px_steps P T s s'"
proof (cases "map_of (px_orders s) cid")
  case None
  with r show ?thesis by (simp add: paper_cancel_def paper_get_order_def)
next
  case (Some ord)
  then have c: "o_client_id ord = cid" using i by (auto simp: paper_inv_def orders_ok_def)
  then show ?thesis
    using r Some
    by (auto simp: paper_cancel_def paper_get_order_def dest!: map_prod_idD intro: steps_close
        split: if_splits)
qed

lemma cancel_list_steps:
  "paper_cancel_list now cids s = (res, s') \<Longrightarrow> paper_inv s \<Longrightarrow> px_steps P T s s'"
proof (induction cids arbitrary: s res s')
  case Nil
  then show ?case by simp
next
  case (Cons cid cids)
  obtain r1 s1 where c: "paper_cancel now cid s = (r1, s1)" by fastforce
  obtain r2 s2 where l: "paper_cancel_list now cids s1 = (r2, s2)" by fastforce
  have k: "px_steps P T s s1" by (rule cancel_steps [OF c Cons.prems(2)])
  have "paper_inv s1" using px_steps_inv [OF k Cons.prems(2)] by simp
  note l2 = Cons.IH [OF l this]
  have "s' = s1 \<or> s' = s2" using Cons.prems c l by (auto split: sum.splits)
  then show ?case using k rtranclp_trans [OF k l2] by auto
qed

lemma fill_limit_steps:
  assumes r: "paper_maybe_fill_limit now ord t s = (res, s')"
    and o: "map_of (px_orders s) (o_client_id ord) = Some ord" "is_open (o_status ord)"
    and t: "o_type ord = LIMIT" "T t" "placed_at ord < t_ts t"
  shows "px_steps P T s s'"
proof (cases "o_price ord")
  case None
  with r show ?thesis by (simp add: paper_maybe_fill_limit_def)
next
  case (Some px)
  define s1 where "s1 = paper_touch ord t s"
  have k1: "px_steps P T s s1" by (simp add: s1_def steps_touch)
  have o1: "map_of (px_orders s1) (o_client_id ord) = Some ord"
    using o(1) by (simp add: s1_def paper_touch_def)
  have "px_steps P T s1 s'"
    using r Some o1 o(2) t
    by (auto simp: paper_maybe_fill_limit_def s1_def [symmetric] dest!: map_prod_idD
        intro: steps_close intro!: px_one [OF step_maker] split: if_splits)
  with k1 show ?thesis by (rule rtranclp_trans)
qed

lemma trigger_stop_steps:
  assumes r: "paper_maybe_trigger_stop now mv ord t s = (res, s')"
    and o: "map_of (px_orders s) (o_client_id ord) = Some ord" "is_open (o_status ord)"
    and t: "o_type ord = STOP_MARKET"
  shows "px_steps P T s s'"
proof (cases "o_stop_price ord")
  case None
  with r show ?thesis by (simp add: paper_maybe_trigger_stop_def)
next
  case (Some stop)
  define s1 where "s1 = paper_emit (t_ts t) (o_client_id ord) Triggered s"
  have k1: "px_steps P T s s1" by (simp add: s1_def steps_emit)
  have o1: "map_of (px_orders s1) (o_client_id ord) = Some ord"
    using o(1) by (simp add: s1_def paper_emit_def)
  have fm: "px_steps P T s1 (snd (paper_fill_market now ord book s1))"
    if "paper_reduce_ok ord s1" for book
    by (rule fill_market_steps [OF surjective_pairing o1 o(2) that disjI2 [OF t]])
  have "s' = s \<or> px_steps P T s1 s'"
    using r Some o1 o(2)
    by (auto simp: paper_maybe_trigger_stop_def s1_def [symmetric] dest!: map_prod_idD
        intro: steps_close fm split: if_splits sum.splits)
  with k1 show ?thesis using rtranclp_trans [OF k1] by auto
qed

lemma on_trade_steps:
  assumes r: "paper_on_trade now mv t c s = (res, s')" and i: "paper_inv s" and t: "T t"
    and o: "map_of (px_orders s) c = Some ord" "is_open (o_status ord)" "placed_at ord < t_ts t"
  shows "px_steps P T s s' \<and> (\<forall>d. d \<noteq> c \<longrightarrow> map_of (px_orders s') d = map_of (px_orders s) d)"
proof
  have cid: "o_client_id ord = c" using i o by (auto simp: paper_inv_def orders_ok_def)
  show "px_steps P T s s'"
    using r o cid t fill_limit_steps [of now ord t s _ _ T P] trigger_stop_steps [of now mv ord t s]
    by (cases "o_type ord") (auto simp: paper_on_trade_def)
  show "\<forall>d. d \<noteq> c \<longrightarrow> map_of (px_orders s') d = map_of (px_orders s) d"
    using r o cid
    by (auto simp: paper_on_trade_def paper_maybe_fill_limit_def paper_maybe_trigger_stop_def
        paper_record_fill_def paper_fill_market_def paper_close_def paper_touch_def paper_emit_def
        paper_put_def Let_def map_prod_def
        split: order_type.splits option.splits if_splits sum.splits prod.splits)
qed

lemma each_order_steps:
  assumes "paper_each_order now mv t cids s = (res, s')" and "distinct cids" and "paper_inv s"
    and "\<forall>c\<in>set cids. \<exists>ord. map_of (px_orders s) c = Some ord \<and> is_open (o_status ord)
           \<and> placed_at ord < t_ts t"
    and "T t"
  shows "px_steps P T s s'"
  using assms
proof (induction cids arbitrary: s)
  case Nil
  then show ?case by simp
next
  case (Cons c cids)
  obtain ord where ord: "map_of (px_orders s) c = Some ord" "is_open (o_status ord)"
    "placed_at ord < t_ts t" using Cons.prems(4) by auto
  obtain r1 s1 where st: "paper_on_trade now mv t c s = (r1, s1)" by fastforce
  have k: "px_steps P T s s1"
    and others: "\<And>d. d \<noteq> c \<Longrightarrow> map_of (px_orders s1) d = map_of (px_orders s) d"
    using on_trade_steps [OF st Cons.prems(3) _ ord] Cons.prems(5) by auto
  show ?case
  proof (cases r1)
    case (Inl e)
    with Cons.prems(1) st k show ?thesis by simp
  next
    case (Inr u)
    have "px_steps P T s1 s'"
    proof (rule Cons.IH)
      show "paper_each_order now mv t cids s1 = (res, s')" using Cons.prems(1) st Inr by simp
      show "distinct cids" "T t" using Cons.prems(2,5) by simp_all
      show "paper_inv s1" using px_steps_inv [OF k Cons.prems(3)] by simp
      show "\<forall>d\<in>set cids. \<exists>ord. map_of (px_orders s1) d = Some ord \<and> is_open (o_status ord)
          \<and> placed_at ord < t_ts t"
      proof
        fix d assume d: "d \<in> set cids"
        then have "d \<noteq> c" using Cons.prems(2) by auto
        then show "\<exists>ord. map_of (px_orders s1) d = Some ord \<and> is_open (o_status ord)
            \<and> placed_at ord < t_ts t" using Cons.prems(4) d by (simp add: others)
      qed
    qed
    with k show ?thesis by (rule rtranclp_trans)
  qed
qed

lemma each_trade_steps:
  assumes "paper_each_trade now mv ts s = (res, s')" and "paper_inv s"
    and "\<And>t. t \<in> set ts \<Longrightarrow> T t"
  shows "px_steps P T s s'"
  using assms
proof (induction ts arbitrary: s)
  case Nil
  then show ?case by simp
next
  case (Cons t ts)
  define s1 where "s1 = s\<lparr>px_last_agg := Some (t_agg_id t), px_last_ts := Some (t_ts t)\<rparr>"
  define w where "w = map o_client_id (filter (\<lambda>ord. placed_at ord < t_ts t) (paper_open_orders s1))"
  have k1: "px_steps P T s s1"
    using px_one [OF step_misc [where s = s and tch = "px_touched s" and es = "[]"]]
    by (simp add: s1_def)
  have i1: "paper_inv s1" using px_steps_inv [OF k1 Cons.prems(2)] by simp
  then have ok: "orders_ok (px_orders s1)" by (simp add: paper_inv_def)
  obtain r2 s2 where e: "paper_each_order now mv t w s1 = (r2, s2)" by fastforce
  have k2: "px_steps P T s1 s2"
  proof (rule each_order_steps [OF e _ i1])
    show "\<forall>c\<in>set w. \<exists>ord. map_of (px_orders s1) c = Some ord \<and> is_open (o_status ord)
        \<and> placed_at ord < t_ts t" by (auto simp: w_def open_order_lookup [OF ok])
    have "distinct (map o_client_id (map snd (px_orders s1)))"
      unfolding orders_ok_ids [OF ok] using ok by (simp add: orders_ok_def)
    then show "distinct w" unfolding w_def paper_open_orders_def by (intro distinct_map_filter)
    show "T t" using Cons.prems(3) by simp
  qed
  have i2: "paper_inv s2" using px_steps_inv [OF k2 i1] by simp
  have "s' = s2 \<or> px_steps P T s2 s'"
    using Cons.prems(1,3) Cons.IH [OF _ i2] e
    by (auto simp: s1_def [symmetric] w_def [symmetric] Let_def split: sum.splits)
  then show ?case using rtranclp_trans [OF k1 k2] rtranclp_trans by metis
qed

definition delivers :: "market_view \<Rightarrow> trade_print \<Rightarrow> bool" where
  "delivers mv t \<longleftrightarrow> (\<exists>ag since. t \<in> set (mv_trades_after mv ag since))"

lemma poll_steps:
  assumes "paper_poll now mv s = (res, s')" and "paper_inv s"
    and "\<And>t. delivers mv t \<Longrightarrow> T t"
  shows "px_steps P T s s'"
proof (cases "paper_open_orders s = []")
  case True
  with assms(1) show ?thesis by (simp add: paper_poll_def)
next
  case False
  define since where
    "since = (case px_last_ts s of Some t \<Rightarrow> t | None \<Rightarrow> Min (set (map placed_at (paper_open_orders s))))"
  obtain r1 s1 where e: "paper_each_trade now mv (mv_trades_after mv (px_last_agg s) since) s = (r1, s1)"
    by fastforce
  have "s' = s1"
    using assms(1) False e by (auto simp: paper_poll_def since_def [symmetric] split: sum.splits)
  moreover have "px_steps P T s s1"
    using assms(3) by (intro each_trade_steps [OF e assms(2)]) (auto simp: delivers_def)
  ultimately show ?thesis by simp
qed

subsection \<open>Sessions\<close>

text \<open>A session is a sequence of calls, each with its clock reading and market view.\<close>

datatype paper_cmd =
    CPlaceMarket side real string bool
  | CPlaceLimit side real real string bool
  | CPlaceStop side real real string
  | CCancel string
  | CCancelAll
  | CPoll

fun paper_do :: "datetime \<Rightarrow> market_view \<Rightarrow> paper_cmd \<Rightarrow> paper \<Rightarrow> paper" where
  "paper_do now mv (CPlaceMarket sd q cid ro) s = snd (paper_place_market now mv sd q cid ro s)"
| "paper_do now mv (CPlaceLimit sd q px cid ro) s =
     snd (paper_place_limit_gtx now mv sd q px cid ro s)"
| "paper_do now mv (CPlaceStop sd q stop cid) s =
     snd (paper_place_stop_market now mv sd q stop cid s)"
| "paper_do now mv (CCancel cid) s = snd (paper_cancel now cid s)"
| "paper_do now mv CCancelAll s = snd (paper_cancel_all now s)"
| "paper_do now mv CPoll s = snd (paper_poll now mv s)"

type_synonym session = "(datetime \<times> market_view \<times> paper_cmd) list"

fun paper_run :: "session \<Rightarrow> paper \<Rightarrow> paper" where
  "paper_run [] s = s"
| "paper_run ((now, mv, c) # cs) s = paper_run cs (paper_do now mv c s)"

fun creates :: "(order \<Rightarrow> bool) \<Rightarrow> paper_cmd \<Rightarrow> bool" where
  "creates P (CPlaceMarket sd q cid ro) =
     (\<forall>ord. o_reduce_only ord = ro \<longrightarrow> o_type ord = MARKET \<longrightarrow> P ord)"
| "creates P (CPlaceLimit sd q px cid ro) = (\<forall>ord. o_reduce_only ord = ro \<longrightarrow> P ord)"
| "creates P (CPlaceStop sd q stop cid) = (\<forall>ord. o_reduce_only ord \<longrightarrow> P ord)"
| "creates P _ = True"

lemma paper_do_steps:
  assumes i: "paper_inv s" and P: "creates P c" and T: "\<And>t. delivers mv t \<Longrightarrow> T t"
  shows "px_steps P T s (paper_do now mv c s)"
proof (cases c)
  case (CPlaceMarket sd q cid ro)
  with P show ?thesis by (auto intro: place_market_steps [OF surjective_pairing])
next
  case (CPlaceLimit sd q px cid ro)
  with P show ?thesis by (auto intro: place_limit_steps [OF surjective_pairing])
next
  case (CPlaceStop sd q stop cid)
  with P show ?thesis by (auto intro: place_stop_steps [OF surjective_pairing])
next
  case (CCancel cid)
  with i show ?thesis by (auto intro: cancel_steps [OF surjective_pairing])
next
  case CCancelAll
  with i show ?thesis
    by (auto simp: paper_cancel_all_def intro: cancel_list_steps [OF surjective_pairing])
next
  case CPoll
  with i T show ?thesis by (auto intro: poll_steps [OF surjective_pairing])
qed

lemma paper_run_steps:
  assumes "paper_inv s" "\<forall>(now, mv, c)\<in>set cs. creates P c \<and> (\<forall>t. delivers mv t \<longrightarrow> T t)"
  shows "px_steps P T s (paper_run cs s)"
  using assms
proof (induction cs arbitrary: s)
  case Nil
  then show ?case by simp
next
  case (Cons x cs)
  obtain now mv c where x: "x = (now, mv, c)" by (cases x)
  have k: "px_steps P T s (paper_do now mv c s)"
    using Cons.prems x by (intro paper_do_steps) auto
  have "px_steps P T (paper_do now mv c s) (paper_run cs (paper_do now mv c s))"
    using Cons.prems px_steps_inv [OF k] by (intro Cons.IH) auto
  with k show ?case unfolding x paper_run.simps by (rule rtranclp_trans)
qed

lemma creates_any: "creates (\<lambda>_. True) c"
  by (cases c) simp_all

lemma paper_run_any: "paper_inv s \<Longrightarrow> px_steps (\<lambda>_. True) (\<lambda>_. True) s (paper_run cs s)"
  by (rule paper_run_steps) (auto simp: creates_any)

lemma paper_run_inv: "paper_inv s \<Longrightarrow> paper_inv (paper_run cs s) \<and> paper_ext s (paper_run cs s)"
  using px_steps_inv [OF paper_run_any] .

lemma session_inv: "paper_inv (paper_run cs (paper_init sm fs))"
  using paper_run_inv [OF paper_inv_init] by simp

subsection \<open>Reduce-only orders\<close>

text \<open>Of the open orders only the limits can be without the flag (stops always carry it,
  a market order is never open across calls except after a stale book, and then dead).\<close>

definition limits_reduce :: "paper \<Rightarrow> bool" where
  "limits_reduce s \<longleftrightarrow> (\<forall>k ord. map_of (px_orders s) k = Some ord \<longrightarrow> is_open (o_status ord)
     \<longrightarrow> o_type ord = LIMIT \<longrightarrow> o_reduce_only ord)"

lemma limits_reduce_ext:
  assumes "paper_ext s s'" "limits_reduce s"
    and "\<And>k. map_of (px_orders s) k = None \<Longrightarrow> map_of (px_orders s') k = None"
  shows "limits_reduce s'"
  unfolding limits_reduce_def
proof (intro allI impI)
  fix k ord' assume k: "map_of (px_orders s') k = Some ord'" "is_open (o_status ord')"
    "o_type ord' = LIMIT"
  then obtain ord where ord: "map_of (px_orders s) k = Some ord"
    using assms(3) by (cases "map_of (px_orders s) k") auto
  with paper_ext_lookup [OF assms(1) this] k(1) have le: "order_le ord ord'" by auto
  then have "is_open (o_status ord)" "o_type ord = LIMIT"
    using k(2,3) by (auto simp: order_le_def same_request_def)
  then have "o_reduce_only ord" using assms(2) ord by (simp add: limits_reduce_def)
  with le show "o_reduce_only ord'" by (simp add: order_le_def same_request_def)
qed

lemma record_fill_ids:
  "map_of (px_orders s) (o_client_id ord) = Some ord \<Longrightarrow> map_of (px_orders s) k = None
   \<Longrightarrow> map_of (px_orders (snd (paper_record_fill ord q px lq ts s))) k = None"
  by (auto simp: paper_record_fill_def Let_def paper_emit_def paper_put_def split: sum.splits)

lemma reduce_fill_shrinks:
  assumes i: "paper_inv s" and o: "map_of (px_orders s) (o_client_id ord) = Some ord"
    "is_open (o_status ord)" and ro: "o_reduce_only ord" "paper_reduce_ok ord s"
  shows "shrinks (p_qty (px_pos s)) (p_qty (px_pos (snd (paper_record_fill ord (remaining ord) px lq ts s))))"
proof -
  let ?p = "p_qty (px_pos s)" and ?q = "remaining ord"
  note r = record_fill_result [OF i o surjective_pairing, of px lq ts]
  have "order_ok ord" using i o by (auto simp: paper_inv_def orders_ok_def)
  then have q: "0 \<le> ?q" "on_grid 8 ?q" using o(2) by (auto simp: remaining_def order_ok_def)
  have g: "on_grid 8 ?p" using i by (auto simp: paper_inv_def ledger_ok_def)
  have "reduces ?p (o_side ord) ?q" using ro by (auto simp: paper_reduce_ok_def Let_def reduces_def)
  then have "shrinks ?p (?p + side_sign (o_side ord) * ?q)" using g q by (intro reduces_shrinks)
  then show ?thesis using r by simp
qed

lemma px_step_limits:
  assumes "px_step P T s s'" "paper_inv s" "limits_reduce s"
    and P: "\<And>ord. P ord \<Longrightarrow> o_type ord = LIMIT \<Longrightarrow> o_reduce_only ord"
  shows "limits_reduce s'"
  using assms(1-3)
proof (induction rule: px_step.induct)
  case (step_new s cid ty px stop ro now sd q ord s')
  have "map_of (px_orders s') = (map_of (px_orders s))(cid \<mapsto> ord)"
    using step_new.hyps(4) by (auto simp: paper_new_def Let_def paper_emit_def paper_put_def new_order_def
        split: if_splits)
  with step_new P show ?case by (auto simp: limits_reduce_def)
next
  case (step_close s ord st now why)
  then show ?case
    by (auto simp: limits_reduce_def paper_close_def paper_emit_def paper_put_def Let_def)
next
  case (step_taker s ord px now)
  have e: "paper_ext s (snd (paper_record_fill ord (remaining ord) px TAKER now s))"
    using record_fill_result [OF step_taker.prems(1) step_taker.hyps(1,2) surjective_pairing] by blast
  show ?case
    using limits_reduce_ext [OF e step_taker.prems(2)] record_fill_ids [OF step_taker.hyps(1)] by blast
next
  case (step_maker s ord px t)
  have e: "paper_ext s (snd (paper_record_fill ord (remaining ord) px MAKER (t_ts t) s))"
    using record_fill_result [OF step_maker.prems(1) step_maker.hyps(1,2) surjective_pairing] by blast
  show ?case
    using limits_reduce_ext [OF e step_maker.prems(2)] record_fill_ids [OF step_maker.hyps(1)] by blast
next
  case (step_misc s)
  then show ?case by (auto simp: limits_reduce_def)
qed

lemma px_step_shrinks:
  assumes "px_step o_reduce_only T s s'" "paper_inv s" "limits_reduce s"
  shows "shrinks (p_qty (px_pos s)) (p_qty (px_pos s'))"
  using assms
proof (induction rule: px_step.induct)
  case (step_new s cid ty px stop ro now sd q ord s')
  then show ?case using new_result [OF step_new.hyps(4)] by simp
next
  case (step_close s ord st now why)
  then show ?case by (simp add: paper_close_def paper_emit_def paper_put_def Let_def)
next
  case (step_taker s ord px now)
  have "order_ok ord" using step_taker by (auto simp: paper_inv_def orders_ok_def)
  then have ro: "o_reduce_only ord" using step_taker.hyps(4) by (auto simp: order_ok_def)
  show ?case
    by (rule reduce_fill_shrinks [OF step_taker.prems(1) step_taker.hyps(1,2) ro step_taker.hyps(3)])
next
  case (step_maker s ord px t)
  have ro: "o_reduce_only ord" using step_maker by (auto simp: limits_reduce_def)
  show ?case
    by (rule reduce_fill_shrinks [OF step_maker.prems(1) step_maker.hyps(1,2) ro step_maker.hyps(3)])
qed simp

lemma px_steps_limits:
  assumes "px_steps P T s s'" "paper_inv s" "limits_reduce s"
    and "\<And>ord. P ord \<Longrightarrow> o_type ord = LIMIT \<Longrightarrow> o_reduce_only ord"
  shows "limits_reduce s'"
  using assms
proof (induction rule: rtranclp_induct)
  case (step y z)
  have "paper_inv y" using px_steps_inv [OF step.hyps(1)] step.prems by simp
  then show ?case using px_step_limits [OF step.hyps(2)] step.IH step.prems by blast
qed simp

lemma px_steps_shrinks:
  assumes "px_steps o_reduce_only T s s'" "paper_inv s" "limits_reduce s"
  shows "shrinks (p_qty (px_pos s)) (p_qty (px_pos s'))"
  using assms
proof (induction rule: rtranclp_induct)
  case (step y z)
  have "paper_inv y" using px_steps_inv [OF step.hyps(1)] step.prems by simp
  moreover have "limits_reduce y" by (rule px_steps_limits [OF step.hyps(1) step.prems])
  ultimately show ?case
    using px_step_shrinks [OF step.hyps(2)] step.IH step.prems shrinks_trans by blast
qed simp

lemma limits_reduce_open:
  assumes "orders_ok (px_orders s)"
    and "list_all (\<lambda>ord. o_type ord = LIMIT \<longrightarrow> o_reduce_only ord) (paper_open_orders s)"
  shows "limits_reduce s"
  unfolding limits_reduce_def
proof (intro allI impI)
  fix k ord assume k: "map_of (px_orders s) k = Some ord" "is_open (o_status ord)" "o_type ord = LIMIT"
  then have "o_client_id ord = k" using assms(1) by (auto simp: orders_ok_def)
  then have "ord \<in> set (paper_open_orders s)" using open_order_lookup [OF assms(1)] k by simp
  then show "o_reduce_only ord" using assms(2) k(3) by (simp add: list_all_iff)
qed

fun reduce_cmd :: "paper_cmd \<Rightarrow> bool" where
  "reduce_cmd (CPlaceMarket sd q cid ro) = ro"
| "reduce_cmd (CPlaceLimit sd q px cid ro) = ro"
| "reduce_cmd _ = True"

lemma creates_reduce: "reduce_cmd c \<Longrightarrow> creates o_reduce_only c"
  by (cases c) auto

subsection \<open>The broker contract\<close>

definition paper_ops :: "datetime \<Rightarrow> market_view \<Rightarrow> paper broker_ops" where
  "paper_ops now mv =
     \<lparr>b_position = px_pos, b_open_orders = paper_open_orders, b_get_order = paper_get_order,
      b_fills = px_fills, b_fills_since = paper_fills_since,
      b_place_market = paper_place_market now mv, b_place_limit_gtx = paper_place_limit_gtx now mv,
      b_place_stop_market = paper_place_stop_market now mv, b_cancel = paper_cancel now,
      b_cancel_all = paper_cancel_all now, b_poll = paper_poll now mv\<rparr>"

lemma paper_ops_simps [simp]:
  "b_position (paper_ops now mv) = px_pos"
  "b_open_orders (paper_ops now mv) = paper_open_orders"
  "b_place_market (paper_ops now mv) = paper_place_market now mv"
  "b_place_limit_gtx (paper_ops now mv) = paper_place_limit_gtx now mv"
  "b_place_stop_market (paper_ops now mv) = paper_place_stop_market now mv"
  "b_cancel (paper_ops now mv) = paper_cancel now"
  "b_cancel_all (paper_ops now mv) = paper_cancel_all now"
  "b_poll (paper_ops now mv) = paper_poll now mv"
  by (simp_all add: paper_ops_def)

lemma close_pos [simp]: "px_pos (snd (paper_close now ord st why s)) = px_pos s"
  by (simp add: paper_close_def paper_emit_def paper_put_def Let_def)

lemma new_pos: "px_pos (snd (paper_new now cid sd ty q px stop ro s)) = px_pos s"
  by (simp add: paper_new_def paper_emit_def paper_put_def Let_def)

lemma limit_pos: "px_pos (snd (paper_place_limit_gtx now mv sd q px cid ro s)) = px_pos s"
  using new_pos [of now cid sd LIMIT q "Some px" None ro s]
  by (auto simp: paper_place_limit_gtx_def paper_reset_cursor_def
      split: option.splits sum.splits prod.splits if_splits)

lemma stop_pos: "px_pos (snd (paper_place_stop_market now mv sd q stop cid s)) = px_pos s"
  using new_pos [of now cid sd STOP_MARKET q None "Some stop" True s]
  by (auto simp: paper_place_stop_market_def paper_reset_cursor_def
      split: option.splits sum.splits prod.splits if_splits)

lemma cancel_pos: "px_pos (snd (paper_cancel now cid s)) = px_pos s"
  by (simp add: paper_cancel_def split: sum.splits)

lemma cancel_list_pos: "px_pos (snd (paper_cancel_list now cids s)) = px_pos s"
proof (induction cids arbitrary: s)
  case Nil
  then show ?case by simp
next
  case (Cons c cids)
  show ?case
    using cancel_pos [of now c s] Cons.IH [of "snd (paper_cancel now c s)"]
    by (auto split: sum.splits prod.splits)
qed

text \<open>A market order leaves the position or fills itself against it.\<close>

lemma place_market_cases:
  assumes i: "paper_inv s" and r: "paper_place_market now mv sd q cid ro s = (res, s')"
  shows "px_pos s' = px_pos s \<or> (\<exists>ord px s1. paper_inv s1 \<and> px_pos s1 = px_pos s
    \<and> map_of (px_orders s1) (o_client_id ord) = Some ord \<and> is_open (o_status ord)
    \<and> paper_reduce_ok ord s1 \<and> o_reduce_only ord = ro \<and> o_side ord = sd \<and> remaining ord = round8 q
    \<and> 0 < q \<and> s' = snd (paper_record_fill ord (remaining ord) px TAKER now s1))"
proof (cases "map_of (px_orders s) cid")
  case (Some ord)
  with r show ?thesis by (simp add: paper_place_market_def)
next
  case None
  obtain r1 s1 where n: "paper_new now cid sd MARKET q None None ro s = (r1, s1)" by fastforce
  have i1: "paper_inv s1" using keeps_new [OF n None] i by (simp add: keeps_def)
  have p1: "px_pos s1 = px_pos s" using new_pos n by (metis snd_conv)
  show ?thesis
  proof (cases r1)
    case (Inl e)
    with r None n p1 show ?thesis by (simp add: paper_place_market_def)
  next
    case (Inr ord)
    note f = new_result [OF n [unfolded Inr]]
    have rem: "remaining ord = round8 q" using f by (simp add: remaining_def)
    have "s' = s1 \<or> (\<exists>why. s' = snd (paper_close now ord EXPIRED why s1))
        \<or> paper_reduce_ok ord s1 \<and> (\<exists>px. s' = snd (paper_record_fill ord (remaining ord) px TAKER now s1))"
      using r None n Inr
      by (auto simp: paper_place_market_def paper_fill_market_def Let_def dest!: map_prod_idD
          split: if_splits sum.splits) (metis snd_conv)+
    then show ?thesis
    proof (elim disjE exE conjE)
      fix px assume ok: "paper_reduce_ok ord s1"
        and s': "s' = snd (paper_record_fill ord (remaining ord) px TAKER now s1)"
      show ?thesis
        by (intro disjI2 exI [of _ ord] exI [of _ px] exI [of _ s1]) (use i1 p1 f rem ok s' in simp)
    qed (simp_all add: p1)
  qed
qed

lemma paper_market_pos:
  assumes i: "paper_inv s" and r: "paper_place_market now mv sd q cid ro s = (res, s')"
  shows "p_qty (px_pos s') \<in> {p_qty (px_pos s), p_qty (px_pos s) + side_sign sd * round8 q}"
    and "q \<le> 0 \<Longrightarrow> p_qty (px_pos s') = p_qty (px_pos s)"
    and "ro \<Longrightarrow> shrinks (p_qty (px_pos s)) (p_qty (px_pos s'))"
proof -
  have "p_qty (px_pos s') = p_qty (px_pos s) \<or>
      (p_qty (px_pos s') = p_qty (px_pos s) + side_sign sd * round8 q \<and> 0 < q
       \<and> (ro \<longrightarrow> shrinks (p_qty (px_pos s)) (p_qty (px_pos s'))))"
    using place_market_cases [OF i r]
  proof (elim disjE exE conjE)
    fix ord px s1
    assume i1: "paper_inv s1" and p1: "px_pos s1 = px_pos s" and
      o1: "map_of (px_orders s1) (o_client_id ord) = Some ord" "is_open (o_status ord)"
      and ro: "paper_reduce_ok ord s1" "o_reduce_only ord = ro" "o_side ord = sd"
        "remaining ord = round8 q" "0 < q"
      and s': "s' = snd (paper_record_fill ord (remaining ord) px TAKER now s1)"
    note rf = record_fill_result [OF i1 o1 surjective_pairing, of px TAKER now]
    have "ro \<longrightarrow> shrinks (p_qty (px_pos s)) (p_qty (px_pos s'))"
      using reduce_fill_shrinks [OF i1 o1, of px TAKER now] ro p1 unfolding s' by simp
    then show ?thesis using rf ro p1 unfolding s' by auto
  qed simp
  then show "p_qty (px_pos s') \<in> {p_qty (px_pos s), p_qty (px_pos s) + side_sign sd * round8 q}"
    "q \<le> 0 \<Longrightarrow> p_qty (px_pos s') = p_qty (px_pos s)"
    "ro \<Longrightarrow> shrinks (p_qty (px_pos s)) (p_qty (px_pos s'))" by auto
qed

lemma paper_do_inv: "paper_inv s \<Longrightarrow> paper_inv (paper_do now mv c s)"
  using px_steps_inv [OF paper_do_steps [of s "\<lambda>_. True" c mv "\<lambda>_. True"]] by (simp add: creates_any)

interpretation paper_broker: broker_contract "paper_ops now mv" paper_inv for now mv
proof unfold_locales
  fix s sd q cid ro px stop
  assume i: "paper_inv s"
  show "paper_inv (snd (b_place_market (paper_ops now mv) sd q cid ro s))"
    using paper_do_inv [OF i, of now mv "CPlaceMarket sd q cid ro"] by simp
  show "paper_inv (snd (b_place_limit_gtx (paper_ops now mv) sd q px cid ro s))"
    using paper_do_inv [OF i, of now mv "CPlaceLimit sd q px cid ro"] by simp
  show "paper_inv (snd (b_place_stop_market (paper_ops now mv) sd q stop cid s))"
    using paper_do_inv [OF i, of now mv "CPlaceStop sd q stop cid"] by simp
  show "paper_inv (snd (b_cancel (paper_ops now mv) cid s))"
    using paper_do_inv [OF i, of now mv "CCancel cid"] by simp
  show "paper_inv (snd (b_cancel_all (paper_ops now mv) s))"
    using paper_do_inv [OF i, of now mv CCancelAll] by simp
  show "on_grid 8 (p_qty (b_position (paper_ops now mv) s))"
    using i unfolding paper_inv_def ledger_ok_def paper_ops_simps by blast
qed (simp_all add: limit_pos stop_pos cancel_pos cancel_list_pos paper_cancel_all_def
    paper_market_pos [OF _ surjective_pairing] del: insert_iff)

end
