(* ===== verification/Paper_Properties.thy ===== *)
theory Paper_Properties
  imports Paper_Correct
begin

text \<open>
  What the simulated exchange promises, as theorems about whole sessions: the books
  balance, orders live once, reduce-only orders only reduce, resting orders fill at their
  own price on a trade through it, market orders at an average inside the book, a restart
  loses nothing, and the state a stale book leaves behind.
\<close>

text \<open>A market for the examples: a two-level book and a trade at 98 after the instant 5.\<close>

definition example_view :: market_view where
  "example_view =
     \<lparr>mv_book = Inr \<lparr>bt_ts = 0, bids = [(99, 1), (98, 5)], asks = [(101, 1), (102, 5)]\<rparr>,
      mv_trades_after = (\<lambda>ag since. [\<lparr>t_ts = 7, t_agg_id = 1, t_price = 98, t_qty = 3,
                                       t_buyer_maker = True\<rparr>]),
      mv_last_price = Inr 100\<rparr>"

definition example_fees :: fee_schedule where
  "example_fees = \<lparr>maker_bps = 0, taker_bps = 4\<rparr>"

lemmas paper_eval =
  paper_place_market_def paper_place_limit_gtx_def paper_place_stop_market_def paper_poll_def
  paper_cancel_def paper_cancel_all_def paper_get_order_def paper_new_def paper_close_def
  paper_fill_market_def paper_record_fill_def paper_maybe_fill_limit_def paper_touch_def
  paper_maybe_trigger_stop_def paper_reset_cursor_def paper_on_trade_def paper_reduce_ok_def
  paper_emit_def paper_put_def paper_init_def paper_open_orders_def market_cost_def new_order_def
  flat_position_def remaining_def position_apply_def round_dec_def py_round_def fee_of_def
  crosses_def best_ask_def best_bid_def stop_hit_def trades_through_def placed_at_def
  example_view_def example_fees_def Let_def

subsection \<open>Accounting\<close>

text \<open>C1: After any session the position is the signed sum of the recorded fills, the
  fees are theirs, realised plus unrealised profit at any mark price is what the fills
  earn at that mark, and an order's filled quantity is the total of its own fills.\<close>

theorem paper_books_balance:
  "let s = paper_run cs (paper_init sm fs); p = px_pos s in
     p_qty p = (\<Sum>f\<leftarrow>px_fills s. side_sign (f_side f) * f_qty f)
     \<and> p_fees p = (\<Sum>f\<leftarrow>px_fills s. f_fee f)
     \<and> p_realized_pnl p + p_qty p * (m - p_entry_price p)
         = (\<Sum>f\<leftarrow>px_fills s. side_sign (f_side f) * f_qty f * (m - f_price f))
     \<and> filled_of k (px_fills s) = order_filled (map_of (px_orders s) k)"
proof -
  have i: "ledger_ok (paper_run cs (paper_init sm fs))" "filled_ok (paper_run cs (paper_init sm fs))"
    using session_inv [of cs sm fs] by (simp_all add: paper_inv_def)
  have "mark_profit (px_pos (paper_run cs (paper_init sm fs))) m
      = fills_profit (px_fills (paper_run cs (paper_init sm fs))) m"
    using i(1) by (simp add: ledger_ok_def)
  then show ?thesis
    using i unfolding Let_def ledger_ok_def filled_ok_def net_fills_def mark_profit_def
      fills_profit_def by blast
qed

text \<open>C8: Orders are keyed once: whatever happens after an order exists, its request never
  changes, a closed order is final, and submitting its client id again (any kind of order)
  returns the stored order and changes nothing.\<close>

theorem paper_order_life:
  assumes "map_of (px_orders s) k = Some ord" and "s = paper_run cs (paper_init sm fs)"
    and "s' = paper_run cs' s"
  shows "\<exists>ord'. map_of (px_orders s') k = Some ord' \<and> same_request ord ord'
    \<and> (\<not> is_open (o_status ord) \<longrightarrow> ord' = ord)
    \<and> paper_place_market now mv sd q k ro s' = (Inr ord', s')
    \<and> paper_place_limit_gtx now mv sd q px k ro s' = (Inr ord', s')
    \<and> paper_place_stop_market now mv sd q px k s' = (Inr ord', s')"
proof -
  have "paper_ext s s'" using paper_run_inv [OF session_inv] assms(2,3) by simp
  from paper_ext_lookup [OF this assms(1)] obtain ord' where
    o: "map_of (px_orders s') k = Some ord'" "order_le ord ord'" by blast
  have "paper_place_market now mv sd q k ro s' = (Inr ord', s')"
    "paper_place_limit_gtx now mv sd q px k ro s' = (Inr ord', s')"
    "paper_place_stop_market now mv sd q px k s' = (Inr ord', s')"
    using o(1) by (simp_all add: paper_place_market_def paper_place_limit_gtx_def
        paper_place_stop_market_def)
  with o show ?thesis by (auto simp: order_le_def)
qed

theorem paper_order_life_witness:
  "\<exists>ord'. map_of (px_orders (paper_run [(9, example_view, CPoll)]
       (paper_run [(1, example_view, CPlaceLimit BUY 2 99 ''a'' False)]
         (paper_init ''X'' example_fees)))) ''a'' = Some ord' \<and> o_qty ord' = 2"
proof -
  let ?s = "paper_run [(1, example_view, CPlaceLimit BUY 2 99 ''a'' False)]
      (paper_init ''X'' example_fees)"
  obtain ord where ord: "map_of (px_orders ?s) ''a'' = Some ord" "o_qty ord = 2"
    by (simp add: paper_eval)
  show ?thesis
    using paper_order_life [OF ord(1) refl refl,
        of "[(9, example_view, CPoll)]" 0 example_view BUY 1 False 1] ord(2)
    unfolding same_request_def by metis
qed

subsection \<open>Reduce-only orders\<close>

text \<open>C3: Once every open limit order is reduce-only and only reduce-only orders are submitted,
  no session (placements, cancels, polls over any trades and books) grows the position
  or turns it over.\<close>

theorem paper_reduce_only:
  assumes "s = paper_run cs (paper_init sm fs)"
    and "list_all (\<lambda>ord. o_type ord = LIMIT \<longrightarrow> o_reduce_only ord) (paper_open_orders s)"
    and "list_all (\<lambda>(now, mv, c). reduce_cmd c) cs'"
  shows "let a = p_qty (px_pos s); b = p_qty (px_pos (paper_run cs' s))
         in \<bar>b\<bar> \<le> \<bar>a\<bar> \<and> 0 \<le> a * b"
proof -
  have i: "paper_inv s" unfolding assms(1) by (rule session_inv)
  then have "limits_reduce s" using assms(2) by (intro limits_reduce_open) (simp add: paper_inv_def)
  moreover have "px_steps o_reduce_only (\<lambda>_. True) s (paper_run cs' s)"
    using i assms(3) by (intro paper_run_steps) (auto simp: list_all_iff intro: creates_reduce)
  ultimately show ?thesis using px_steps_shrinks [OF _ i] by (simp add: shrinks_def Let_def)
qed

theorem paper_reduce_only_witness:
  "let s = paper_run [(1, example_view, CPlaceMarket BUY 2 ''a'' False)] (paper_init ''X'' example_fees);
       s' = paper_run [(2, example_view, CPlaceStop SELL 2 99 ''b''), (8, example_view, CPoll)] s
   in p_qty (px_pos s) = 2 \<and> \<bar>p_qty (px_pos s')\<bar> \<le> 2 \<and> 0 \<le> p_qty (px_pos s')"
proof -
  let ?s = "paper_run [(1, example_view, CPlaceMarket BUY 2 ''a'' False)]
      (paper_init ''X'' example_fees)"
  have q: "p_qty (px_pos ?s) = 2" by (simp add: paper_eval)
  have c: "list_all (\<lambda>ord. o_type ord = LIMIT \<longrightarrow> o_reduce_only ord) (paper_open_orders ?s)" by (simp add: paper_eval)
  show ?thesis
    using paper_reduce_only [OF refl c,
        of "[(2, example_view, CPlaceStop SELL 2 99 ''b''), (8, example_view, CPoll)]"]
    unfolding Let_def q by (simp add: abs_le_iff)
qed


subsection \<open>Fill prices\<close>

definition maker_fill_ok :: "(trade_print \<Rightarrow> bool) \<Rightarrow> paper \<Rightarrow> fill \<Rightarrow> bool" where
  "maker_fill_ok T s f \<longleftrightarrow> (\<exists>ord px t. map_of (px_orders s) (f_client_id f) = Some ord
     \<and> o_type ord = LIMIT \<and> o_price ord = Some px \<and> f_price f = px \<and> T t
     \<and> trades_through ord px t \<and> placed_at ord < t_ts t \<and> f_ts f = t_ts t)"

definition makers_ok :: "(trade_print \<Rightarrow> bool) \<Rightarrow> paper \<Rightarrow> bool" where
  "makers_ok T s \<longleftrightarrow> (\<forall>f\<in>set (px_fills s). f_liquidity f = MAKER \<longrightarrow> maker_fill_ok T s f)"

lemma maker_fill_ok_ext:
  assumes "paper_ext s s'" "maker_fill_ok T s f" shows "maker_fill_ok T s' f"
proof -
  obtain ord px t where o: "map_of (px_orders s) (f_client_id f) = Some ord"
    "o_type ord = LIMIT" "o_price ord = Some px" "f_price f = px" "T t"
    "trades_through ord px t" "placed_at ord < t_ts t" "f_ts f = t_ts t"
    using assms(2) unfolding maker_fill_ok_def by blast
  obtain ord' where o': "map_of (px_orders s') (f_client_id f) = Some ord'" "order_le ord ord'"
    using paper_ext_lookup [OF assms(1) o(1)] by blast
  then have "o_type ord' = LIMIT" "o_price ord' = Some px" "trades_through ord' px t"
      "placed_at ord' < t_ts t"
    using o by (simp_all add: order_le_def same_request_def trades_through_def placed_at_def)
  with o o' show ?thesis unfolding maker_fill_ok_def by blast
qed

lemma record_fill_fills:
  "px_fills (snd (paper_record_fill ord q px lq ts s)) = px_fills s
   \<or> px_fills (snd (paper_record_fill ord q px lq ts s)) = px_fills s @
       [\<lparr>f_client_id = o_client_id ord, f_ts = ts, f_side = o_side ord, f_qty = q, f_price = px,
         f_fee = fee_of (px_fees s) (q * px) lq, f_liquidity = lq\<rparr>]"
  by (auto simp: paper_record_fill_def Let_def paper_emit_def paper_put_def split: sum.splits)

lemma px_step_makers:
  assumes st: "px_step P T s s'" and i: "paper_inv s" and m: "makers_ok T s"
  shows "makers_ok T s'"
proof -
  have ext: "paper_ext s s'" using px_step_keeps [OF st] i by (simp add: keeps_def)
  have old: "maker_fill_ok T s' f" if "f \<in> set (px_fills s)" "f_liquidity f = MAKER" for f
    using maker_fill_ok_ext [OF ext] m that by (simp add: makers_ok_def)
  have same: ?thesis if "px_fills s' = px_fills s" using old that by (simp add: makers_ok_def)
  from st show ?thesis
  proof cases
    case (step_new cid ty px stop ro now sd q ord)
    then show ?thesis using new_result [OF step_new(4)] by (intro same) simp
  next
    case (step_close ord st now why)
    then show ?thesis
      by (intro same) (simp add: paper_close_def paper_emit_def paper_put_def Let_def)
  next
    case (step_taker ord px now)
    then show ?thesis
      using record_fill_fills [of ord "remaining ord" px TAKER now s] old
      by (auto simp: makers_ok_def)
  next
    case (step_maker ord px t)
    obtain ord' where o': "map_of (px_orders s') (o_client_id ord) = Some ord'" "order_le ord ord'"
      using paper_ext_lookup [OF ext step_maker(2)] by blast
    then have "o_type ord' = LIMIT" "o_price ord' = Some px" "trades_through ord' px t"
        "placed_at ord' < t_ts t"
      using step_maker by (simp_all add: order_le_def same_request_def trades_through_def placed_at_def)
    with o' step_maker have "maker_fill_ok T s'
        \<lparr>f_client_id = o_client_id ord, f_ts = t_ts t, f_side = o_side ord, f_qty = remaining ord,
         f_price = px, f_fee = fee_of (px_fees s) (remaining ord * px) MAKER, f_liquidity = MAKER\<rparr>"
      unfolding maker_fill_ok_def by auto
    then show ?thesis
      using record_fill_fills [of ord "remaining ord" px MAKER "t_ts t" s] old step_maker(1)
      by (auto simp: makers_ok_def)
  next
    case (step_misc tch ag lt es)
    then show ?thesis by (intro same) simp
  qed
qed

lemma px_steps_makers:
  assumes "px_steps P T s s'" "paper_inv s" "makers_ok T s" shows "makers_ok T s'"
  using assms
proof (induction rule: rtranclp_induct)
  case base
  then show ?case by simp
next
  case (step y z)
  have "paper_inv y" using px_steps_inv [OF step.hyps(1)] step.prems by simp
  then show ?case using px_step_makers [OF step.hyps(2)] step.IH step.prems by blast
qed




text \<open>Eating a book side: the cost of what was taken lies between the extreme prices.\<close>

lemma eat_levels_bounds:
  assumes "\<forall>(p, q)\<in>set ls. lo \<le> p \<and> p \<le> hi \<and> 0 \<le> q \<and> on_grid 8 q"
    and "0 \<le> left" "on_grid 8 left" and "eat_levels ls left cost = (left', cost')"
  shows "0 \<le> left' \<and> on_grid 8 left' \<and> left' \<le> left
    \<and> lo * (left - left') \<le> cost' - cost \<and> cost' - cost \<le> hi * (left - left')"
  using assms
proof (induction ls left cost rule: eat_levels.induct)
  case (1 left cost)
  then show ?case by simp
next
  case (2 px q ls left cost)
  define take where "take = min left q"
  have l: "lo \<le> px" "px \<le> hi" and tk: "0 \<le> take" "take \<le> left" "on_grid 8 (left - take)"
    using "2.prems" by (auto simp: take_def min_def intro: on_grid_diff)
  have b: "lo * take \<le> take * px" "take * px \<le> hi * take"
    using l tk by (simp_all add: mult.commute [of take] mult_right_mono)
  show ?case
  proof (cases "left - take \<le> 1 / 10 ^ 12")
    case True
    then have "left' = left - take" "cost' = cost + take * px"
      using "2.prems"(4) by (auto simp: Let_def take_def [symmetric])
    then show ?thesis using tk b by simp
  next
    case False
    have "0 \<le> left' \<and> on_grid 8 left' \<and> left' \<le> left - take
        \<and> lo * (left - take - left') \<le> cost' - (cost + take * px)
        \<and> cost' - (cost + take * px) \<le> hi * (left - take - left')"
      using "2.prems" tk False
      by (intro "2.IH" [OF take_def refl refl]) (auto simp: Let_def take_def [symmetric])
    then show ?thesis using tk b by (auto simp: algebra_simps)
  qed
qed

lemma market_cost_bounds:
  assumes ls: "\<forall>(p, q)\<in>set ls. lo \<le> p \<and> p \<le> hi \<and> 0 \<le> q \<and> on_grid 8 q" "ls \<noteq> []"
    and q: "0 \<le> q" "on_grid 8 q"
  shows "lo * q \<le> market_cost ls q \<and> market_cost ls q \<le> hi * q"
proof -
  obtain left cost where e: "eat_levels ls q 0 = (left, cost)" by fastforce
  note b = eat_levels_bounds [OF ls(1) q e]
  have l: "lo \<le> fst (last ls)" "fst (last ls) \<le> hi" 
    using bspec [OF ls(1) last_in_set [OF ls(2)]] by (simp_all add: split_beta)
  show ?thesis
  proof (cases "1 / 10 ^ 12 < left")
    case True
    then have m: "market_cost ls q = cost + left * fst (last ls)" by (simp add: market_cost_def e)
    have "lo * left \<le> left * fst (last ls)" "left * fst (last ls) \<le> hi * left"
      using l b by (simp_all add: mult.commute [of left] mult_right_mono)
    then show ?thesis using b unfolding m by (auto simp: algebra_simps)
  next
    case False
    have "left = 0" using False b on_grid_ge [of 8 left] by force
    then show ?thesis using b e by (auto simp: market_cost_def)
  qed
qed

text \<open>A market order with a fresh id on a non-empty book side whose prices lie between
  \<open>lo\<close> and \<open>hi\<close> is filled completely at once, as taker, at an average price between
  \<open>lo\<close> and \<open>hi\<close>, however far the quantity exceeds the five levels.\<close>

theorem paper_market_fill:
  assumes "s = paper_run cs (paper_init sm fs)" and "map_of (px_orders s) cid = None"
    and "mv_book mv = Inr book" and "ls = (if sd = BUY then asks book else bids book)"
    and "ls \<noteq> []" "\<forall>(p, q)\<in>set ls. lo \<le> p \<and> p \<le> hi \<and> 0 \<le> q \<and> on_grid 8 q"
    and "0 < round8 q"
  shows "\<exists>ord px s'. paper_place_market now mv sd q cid False s = (Inr ord, s')
    \<and> o_status ord = FILLED \<and> o_avg_price ord = px \<and> lo \<le> px \<and> px \<le> hi
    \<and> px_fills s' = px_fills s @ [\<lparr>f_client_id = cid, f_ts = now, f_side = sd,
         f_qty = round8 q, f_price = px, f_fee = round8 q * px * taker_bps (px_fees s) / 10000,
         f_liquidity = TAKER\<rparr>]"
proof -
  have i: "paper_inv s" unfolding assms(1) by (rule session_inv)
  have "0 < q" using assms(7) round_dec_nonpos [of q 8] by linarith
  obtain r1 s1 where n: "paper_new now cid sd MARKET q None None False s = (r1, s1)" by fastforce
  then obtain ord where r1: "r1 = Inr ord" using \<open>0 < q\<close> by (auto simp: paper_new_def Let_def)
  note f = new_result [OF n [unfolded r1]]
  have fees: "px_fees s1 = px_fees s"
    using n r1 by (auto simp: paper_new_def Let_def paper_emit_def paper_put_def split: if_splits)
  have i1: "paper_inv s1"
    using keeps_new [OF n assms(2)] i by (simp add: keeps_def)
  have rem: "remaining ord = round8 q" using f by (simp add: remaining_def)
  define px where "px = market_cost ls (round8 q) / round8 q"
  have px: "lo \<le> px" "px \<le> hi"
    using market_cost_bounds [OF assms(6,5), of "round8 q"] assms(7)
    by (simp_all add: px_def pos_le_divide_eq pos_divide_le_eq)
  obtain res s' where rf: "paper_record_fill ord (remaining ord) px TAKER now s1 = (res, s')"
    by fastforce
  have o1: "map_of (px_orders s1) (o_client_id ord) = Some ord" "is_open (o_status ord)" using f by auto
  have "paper_place_market now mv sd q cid False s = (res, s')"
    using n r1 f assms(2-5,7) rf rem
    by (simp add: paper_place_market_def paper_reduce_ok_def paper_fill_market_def Let_def px_def)
  with record_fill_result [OF i1 o1 rf] px rem assms(7) f fees show ?thesis
    by (auto simp: fee_of_def)
qed

theorem paper_market_fill_witness:
  "\<exists>ord s'. paper_place_market 3 example_view BUY 2 ''m'' False (paper_init ''X'' example_fees)
       = (Inr ord, s') \<and> 101 \<le> o_avg_price ord \<and> o_avg_price ord \<le> 102"
proof -
  have s: "paper_init ''X'' example_fees = paper_run [] (paper_init ''X'' example_fees)" by simp
  have g: "on_grid 8 1" "on_grid 8 5" "0 < round8 2"
    by (simp_all add: on_grid_def round_dec_def py_round_def)
  have "\<exists>ord px s'. paper_place_market 3 example_view BUY 2 ''m'' False
      (paper_init ''X'' example_fees) = (Inr ord, s')
    \<and> o_status ord = FILLED \<and> o_avg_price ord = px \<and> 101 \<le> px \<and> px \<le> 102
    \<and> px_fills s' = px_fills (paper_init ''X'' example_fees) @ [\<lparr>f_client_id = ''m'', f_ts = 3,
         f_side = BUY, f_qty = round8 2, f_price = px,
         f_fee = round8 2 * px * taker_bps (px_fees (paper_init ''X'' example_fees)) / 10000,
         f_liquidity = TAKER\<rparr>]"
    by (rule paper_market_fill [OF s, where book = "\<lparr>bt_ts = 0, bids = [(99, 1), (98, 5)],
          asks = [(101, 1), (102, 5)]\<rparr>" and ls = "[(101, 1), (102, 5)]"])
       (use g in \<open>simp_all add: paper_init_def example_view_def\<close>)
  then show ?thesis by blast
qed

subsection \<open>The state file\<close>

lemma update_absent: "k \<notin> fst ` set al \<Longrightarrow> AList.update k v al = al @ [(k, v)]"
  by (induction al) auto

lemma fold_update_distinct:
  assumes "distinct (map f xs)" "\<forall>x\<in>set xs. f x \<notin> fst ` set m"
  shows "fold (\<lambda>x m. AList.update (f x) x m) xs m = m @ map (\<lambda>x. (f x, x)) xs"
  using assms
proof (induction xs arbitrary: m)
  case Nil
  then show ?case by simp
next
  case (Cons a xs)
  have "\<forall>x\<in>set xs. f x \<notin> fst ` set (m @ [(f a, a)])"
    using Cons.prems by (auto simp: image_iff)
  then have "fold (\<lambda>x m. AList.update (f x) x m) xs (m @ [(f a, a)])
      = (m @ [(f a, a)]) @ map (\<lambda>x. (f x, x)) xs"
    using Cons.prems(1) by (intro Cons.IH) auto
  then show ?case using Cons.prems(2) by (simp add: update_absent)
qed

lemma orders_rebuild:
  assumes "orders_ok os"
  shows "fold (\<lambda>ord m. AList.update (o_client_id ord) ord m) (map snd os) [] = os"
proof -
  have ids: "map o_client_id (map snd os) = map fst os" by (rule orders_ok_ids [OF assms])
  have d: "distinct (map o_client_id (map snd os))"
    unfolding ids using assms by (simp add: orders_ok_def)
  have k: "o_client_id (snd e) = fst e" if "e \<in> set os" for e using ids that by simp
  have "map (\<lambda>x. (o_client_id x, x)) (map snd os) = map (\<lambda>e. e) os"
    unfolding map_map o_def by (rule map_cong [OF refl]) (simp add: k)
  then show ?thesis using fold_update_distinct [OF d] by simp
qed

lemma all_some_map: "(\<And>x. x \<in> set xs \<Longrightarrow> f (g x) = Some x) \<Longrightarrow> all_some (map f (map g xs)) = Some xs"
  by (induction xs) auto

lemma fill_dict_roundtrip [simp]: "fill_from_dict (fill_to_dict f) = Some f"
  by (simp add: fill_from_dict_def fill_to_dict_def json_reads)

lemma position_dict_roundtrip [simp]: "position_from_dict (position_to_dict p) = Some p"
  by (simp add: position_from_dict_def position_to_dict_def json_reads)

text \<open>C9: A restart loses nothing that matters: loading the state file that any session
  saved gives the same orders in the same order, fills, position and trade cursor; only the
  touch marks of resting limits and the subscribers are gone.\<close>

theorem paper_restart:
  "let s = paper_run cs (paper_init sm fs) in
     paper_load sm fs (paper_save s) = Some (s\<lparr>px_touched := [], px_events := []\<rparr>)"
proof -
  define s where "s = paper_run cs (paper_init sm fs)"
  have inv: "paper_inv s" and ext: "paper_ext (paper_init sm fs) s"
    using paper_run_inv [OF paper_inv_init] by (simp_all add: s_def)
  have os: "orders_ok (px_orders s)" using inv by (simp add: paper_inv_def)
  have sf: "px_symbol s = sm" "px_fees s = fs" using ext by (auto simp: paper_ext_def paper_init_def)
  have 1: "all_some (map (\<lambda>j. Option.bind (obj j) order_from_dict)
      (map (\<lambda>ord. JObj (order_to_dict ord)) (map snd (px_orders s)))) = Some (map snd (px_orders s))"
    by (rule all_some_map) simp
  have 2: "all_some (map (\<lambda>j. Option.bind (obj j) fill_from_dict)
      (map (\<lambda>f. JObj (fill_to_dict f)) (px_fills s))) = Some (px_fills s)"
    by (rule all_some_map) simp
  have c: "j_int_opt [(''agg'', jopt JInt a), (''ts'', jopt JTime t)] ''agg'' = Some a"
    "j_time_opt [(''agg'', jopt JInt a), (''ts'', jopt JTime t)] ''ts'' = Some t" for a t
    by (simp_all add: json_reads split: option.splits)
  have "paper_load sm fs (paper_save s) =
      Some ((paper_init sm fs)\<lparr>px_orders := px_orders s, px_fills := px_fills s, px_pos := px_pos s,
        px_last_agg := px_last_agg s, px_last_ts := px_last_ts s\<rparr>)"
    unfolding paper_load_def paper_save_def
    by (simp only: 1 2 c orders_rebuild [OF os] obj.simps arr.simps map_of.simps fst_conv snd_conv
        fun_upd_apply Option.bind.simps position_dict_roundtrip) (simp add: 1 2 c orders_rebuild [OF os] del: map_map)
  also have "\<dots> = Some (s\<lparr>px_touched := [], px_events := []\<rparr>)"
    using sf by (simp add: paper_init_def)
  finally show ?thesis by (simp add: s_def)
qed

subsection \<open>A stale book\<close>

text \<open>When the book is stale the post-only placement raises, yet the order it just
  registered stays open: it was never checked against the book and a later poll can fill it,
  although the caller was told the placement failed.\<close>

theorem paper_stale_limit_stays:
  assumes "s = paper_run cs (paper_init sm fs)" and "map_of (px_orders s) cid = None"
    and "mv_book mv = Inl e" and "0 < q"
  shows "\<exists>ord s'. paper_place_limit_gtx now mv sd q px cid False s = (Inl e, s')
    \<and> ord \<in> set (paper_open_orders s') \<and> o_client_id ord = cid \<and> o_price ord = Some px
    \<and> o_qty ord = q"
proof -
  have i: "paper_inv s" unfolding assms(1) by (rule session_inv)
  obtain r1 s1 where n: "paper_new now cid sd LIMIT q (Some px) None False s = (r1, s1)" by fastforce
  then obtain ord where r1: "r1 = Inr ord" using assms(4) by (auto simp: paper_new_def Let_def)
  note f = new_result [OF n [unfolded r1]]
  have "paper_inv s1" using keeps_new [OF n assms(2)] i by (simp add: keeps_def)
  then have "ord \<in> set (paper_open_orders s1)"
    using open_order_lookup [of s1 ord] f by (simp add: paper_inv_def)
  moreover have "paper_place_limit_gtx now mv sd q px cid False s = (Inl e, s1)"
    using n r1 f assms(2,3) by (simp add: paper_place_limit_gtx_def paper_reduce_ok_def)
  ultimately show ?thesis using f by blast
qed

theorem paper_stale_limit_stays_witness:
  "\<exists>s'. paper_place_limit_gtx 1 (example_view\<lparr>mv_book := Inl StaleMarketData\<rparr>) BUY 2 99 ''a'' False
       (paper_init ''X'' example_fees) = (Inl StaleMarketData, s')
     \<and> p_qty (px_pos (paper_run [(9, example_view, CPoll)] s')) = 2"
proof -
  let ?mv = "example_view\<lparr>mv_book := Inl StaleMarketData\<rparr>"
  obtain s' where s': "paper_place_limit_gtx 1 ?mv BUY 2 99 ''a'' False
      (paper_init ''X'' example_fees) = (Inl StaleMarketData, s')"
    using paper_stale_limit_stays [of "paper_init ''X'' example_fees" "[]" "''X''" example_fees "''a''"
        ?mv StaleMarketData 2 1 BUY 99] by (auto simp: paper_init_def)
  then have "p_qty (px_pos (paper_run [(9, example_view, CPoll)] s')) = 2"
    by (auto simp: paper_eval)
  with s' show ?thesis by blast
qed

end
