(* ===== verification/Risk_Correct.thy ===== *)
theory Risk_Correct
  imports Risk_Guard Paper_Properties
begin

text \<open>
  Correctness of the risk guard: which orders it lets through, the state machine of its
  status, the night accounting, the guard as a provider of the broker contract, and what
  it guarantees for an account traded through the simulated exchange.
\<close>

subsection \<open>What the status may do\<close>

datatype guard_cmd =
    GMarket side real string bool
  | GLimit side real real string bool
  | GStop side real real string
  | GCancel string
  | GCancelAll
  | GPoll
  | GHealth "real option" "real option"
  | GPosition real
  | GNight string real "(string \<times> json) list"
  | GHalt string
  | GCanEnter
  | GReset string
  | GResume string

fun guard_do :: "datetime \<Rightarrow> bool \<Rightarrow> 'b broker_ops \<Rightarrow> guard_cmd \<Rightarrow> 'b guard \<Rightarrow> 'b guard" where
  "guard_do now kill ops (GMarket sd q cid ro) g = snd (guard_place_market now kill ops sd q cid ro g)"
| "guard_do now kill ops (GLimit sd q px cid ro) g =
     snd (guard_place_limit_gtx now kill ops sd q px cid ro g)"
| "guard_do now kill ops (GStop sd q stop cid) g =
     snd (guard_place_stop_market now kill ops sd q stop cid g)"
| "guard_do now kill ops (GCancel cid) g = snd (guard_cancel ops cid g)"
| "guard_do now kill ops GCancelAll g = snd (guard_cancel_all ops g)"
| "guard_do now kill ops GPoll g = snd (guard_poll ops g)"
| "guard_do now kill ops (GHealth offset age) g = guard_check_health now kill offset age g"
| "guard_do now kill ops (GPosition expected) g = guard_check_position now ops expected g"
| "guard_do now kill ops (GNight d pnl detail) g = guard_record_night now d pnl detail g"
| "guard_do now kill ops (GHalt why) g = guard_halt now (HaltedBy why) g"
| "guard_do now kill ops GCanEnter g = snd (guard_can_enter now kill g)"
| "guard_do now kill ops (GReset note) g = snd (guard_reset_halt now kill note g)"
| "guard_do now kill ops (GResume note) g = guard_resume note g"

text \<open>The abstract machine: any call may halt; only a recorded night pauses; only the two
  manual calls reactivate, and \<open>resume\<close> only out of a pause.\<close>

inductive status_step :: "guard_cmd \<Rightarrow> risk_status \<Rightarrow> risk_status \<Rightarrow> bool" where
  stay: "status_step c st st"
| halt: "status_step c st Halted"
| pause: "status_step (GNight d pnl detail) Active Paused"
| resume: "status_step (GResume note) Paused Active"
| reset: "status_step (GReset note) st Active"

inductive_simps status_step_iff: "status_step c st st'"
inductive_cases status_from_halted: "status_step c Halted st'"

abbreviation status_of :: "'b guard \<Rightarrow> risk_status" where
  "status_of g \<equiv> r_status (g_state g)"

lemma guard_halt_status [simp]: "status_of (guard_halt now why g) = Halted"
  by (auto simp: guard_halt_def guard_set_def guard_save_def guard_alert_def)

lemma guard_set_status: "status_of (guard_set now st why g) =
    (if status_of g = Halted \<and> st \<noteq> Halted then Halted else st)"
  by (auto simp: guard_set_def guard_save_def guard_alert_def)

lemma guard_set_fields [simp]:
  "g_broker (guard_set now st why g) = g_broker g" "g_limits (guard_set now st why g) = g_limits g"
  "r_cumulative_pnl (g_state (guard_set now st why g)) = r_cumulative_pnl (g_state g)"
  "r_consecutive_losses (g_state (guard_set now st why g)) = r_consecutive_losses (g_state g)"
  "r_nights (g_state (guard_set now st why g)) = r_nights (g_state g)"
  "r_reject_streak (g_state (guard_set now st why g)) = r_reject_streak (g_state g)"
  by (simp_all add: guard_set_def guard_save_def guard_alert_def)

lemma guard_halt_fields [simp]:
  "g_broker (guard_halt now why g) = g_broker g" "g_limits (guard_halt now why g) = g_limits g"
  "r_reject_streak (g_state (guard_halt now why g)) = r_reject_streak (g_state g)"
  by (simp_all add: guard_halt_def)

lemma guard_save_simps [simp]:
  "g_broker (guard_save g) = g_broker g" "g_limits (guard_save g) = g_limits g"
  "g_state (guard_save g) = g_state g"
  by (simp_all add: guard_save_def)

lemma guard_alert_simps [simp]:
  "g_broker (guard_alert a g) = g_broker g" "g_limits (guard_alert a g) = g_limits g"
  "g_state (guard_alert a g) = g_state g"
  by (simp_all add: guard_alert_def)

lemma check_kill_simps [simp]:
  "g_broker (guard_check_kill now kill g) = g_broker g"
  "g_limits (guard_check_kill now kill g) = g_limits g"
  "status_of (guard_check_kill now kill g) = (if kill then Halted else status_of g)"
  by (simp_all add: guard_check_kill_def)

lemma guarded_broker: "g_broker (snd (guarded now f g)) = snd (f (g_broker g))"
  by (auto simp: guarded_def guard_after_def guard_rejected_def Let_def
      split: prod.split sum.split exn.split)

lemma guarded_result: "fst (guarded now f g) = fst (f (g_broker g))"
  by (auto simp: guarded_def Let_def split: prod.split sum.split exn.split)

lemma guarded_status: "status_of (snd (guarded now f g)) \<in> {status_of g, Halted}"
  by (auto simp: guarded_def guard_after_def guard_rejected_def Let_def
      split: prod.split sum.split exn.split)

lemma pre_trade_state:
  "g_broker (snd (guard_pre_trade now kill ops sd q ro g)) = g_broker g"
  "status_of (snd (guard_pre_trade now kill ops sd q ro g)) = (if kill then Halted else status_of g)"
  by (auto simp: guard_pre_trade_def Let_def)

text \<open>An order passes the checks or comes back with the refusal, the broker untouched.\<close>

lemma guard_place_cases:
  "guard_place_market now kill ops sd q cid ro g =
     (let p = guard_pre_trade now kill ops sd q ro g
      in if isl (fst p) then (Inl (projl (fst p)), snd p)
         else guarded now (b_place_market ops sd q cid ro) (snd p))"
  "guard_place_limit_gtx now kill ops sd q px cid ro g =
     (let p = guard_pre_trade now kill ops sd q ro g
      in if isl (fst p) then (Inl (projl (fst p)), snd p)
         else guarded now (b_place_limit_gtx ops sd q px cid ro) (snd p))"
  by (simp_all add: guard_place_market_def guard_place_limit_gtx_def Let_def
      split: prod.split sum.split)

lemma place_status:
  "status_of (snd (guard_place_market now kill ops sd q cid ro g)) \<in> {status_of g, Halted}"
  "status_of (snd (guard_place_limit_gtx now kill ops sd q px cid ro g)) \<in> {status_of g, Halted}"
  "status_of (snd (guard_place_stop_market now kill ops sd q px cid g)) \<in> {status_of g, Halted}"
proof -
  let ?p = "snd (guard_pre_trade now kill ops sd q ro g)"
  have p: "status_of ?p \<in> {status_of g, Halted}" by (simp add: pre_trade_state)
  show "status_of (snd (guard_place_market now kill ops sd q cid ro g)) \<in> {status_of g, Halted}"
    using p guarded_status [of now "b_place_market ops sd q cid ro" ?p]
    by (auto simp: guard_place_cases Let_def)
  show "status_of (snd (guard_place_limit_gtx now kill ops sd q px cid ro g)) \<in> {status_of g, Halted}"
    using p guarded_status [of now "b_place_limit_gtx ops sd q px cid ro" ?p]
    by (auto simp: guard_place_cases Let_def)
  show "status_of (snd (guard_place_stop_market now kill ops sd q px cid g)) \<in> {status_of g, Halted}"
    using guarded_status [of now "b_place_stop_market ops sd q px cid" "guard_check_kill now kill g"]
    by (auto simp: guard_place_stop_market_def Let_def split: if_splits)
qed

lemma guard_do_step: "status_step c (status_of g) (status_of (guard_do now kill ops c g))"
proof (cases c)
  case (GNight d pnl detail)
  have "status_of (guard_record_night now d pnl detail g) \<in> {status_of g, Halted}
      \<or> status_of g = Active \<and> status_of (guard_record_night now d pnl detail g) = Paused"
    by (cases "status_of g") (auto simp: guard_record_night_def Let_def guard_set_status)
  then show ?thesis using GNight by (auto simp: status_step_iff)
next
  case (GHealth offset age)
  then show ?thesis
    by (auto simp: guard_check_health_def Let_def status_step_iff split: option.split)
next
  case (GReset txt1)
  then show ?thesis by (auto simp: guard_reset_halt_def status_step_iff)
next
  case (GResume txt1)
  then show ?thesis by (auto simp: guard_resume_def status_step_iff)
next
  case (GMarket sd q cid ro)
  then show ?thesis using place_status(1) [of now kill ops sd q cid ro g] by (auto simp: status_step_iff)
next
  case (GLimit sd q px cid ro)
  then show ?thesis
    using place_status(2) [of now kill ops sd q px cid ro g] by (auto simp: status_step_iff)
next
  case (GStop sd q px cid)
  then show ?thesis
    using place_status(3) [of now kill ops sd q px cid g] by (auto simp: status_step_iff)
qed (auto simp: guard_cancel_def guard_cancel_all_def guard_poll_def guard_can_enter_def Let_def
    guard_check_position_def status_step_iff split: prod.split)

text \<open>C7: The guard refines the status machine: whatever call is made, over whatever broker,
  the status stays, or becomes halted, or is paused by a recorded night, or is reactivated
  by a manual resume out of a pause or a manual reset.\<close>

theorem guard_refines_status: "status_step c (status_of g) (status_of (guard_do now kill ops c g))"
  by (rule guard_do_step)

fun guard_run :: "(datetime \<times> bool \<times> 'b broker_ops \<times> guard_cmd) list \<Rightarrow> 'b guard \<Rightarrow> 'b guard" where
  "guard_run [] g = g"
| "guard_run ((now, kill, ops, c) # cs) g = guard_run cs (guard_do now kill ops c g)"

fun is_reset :: "guard_cmd \<Rightarrow> bool" where
  "is_reset (GReset note) = True"
| "is_reset _ = False"

fun is_resume :: "guard_cmd \<Rightarrow> bool" where
  "is_resume (GResume note) = True"
| "is_resume _ = False"

lemma guard_do_halted:
  "status_of g = Halted \<Longrightarrow> \<not> is_reset c \<Longrightarrow> status_of (guard_do now kill ops c g) = Halted"
  using guard_do_step [of c g now kill ops] by (auto elim: status_from_halted)

lemma guard_do_inactive:
  "status_of g \<noteq> Active \<Longrightarrow> \<not> is_reset c \<Longrightarrow> \<not> is_resume c
   \<Longrightarrow> status_of (guard_do now kill ops c g) \<noteq> Active"
  using guard_do_step [of c g now kill ops] by (auto simp: status_step_iff)

text \<open>A halt survives everything but the manual reset: from a halted guard no sequence of
  other calls, over any broker, gets out of the halted state.\<close>

theorem guard_halt_sticky:
  assumes "status_of g = Halted" and "list_all (\<lambda>(now, kill, ops, c). \<not> is_reset c) cs"
  shows "status_of (guard_run cs g) = Halted"
  using assms by (induction cs g rule: guard_run.induct) (simp_all add: guard_do_halted)

definition example_limits :: risk_limits where
  "example_limits = \<lparr>max_abs_position = 1, test_stop_cumulative_usd = -100,
     pause_after_consecutive_losses = 3, max_clock_offset_ms = 500, max_data_stale_s = 30,
     max_consecutive_rejects = 2\<rparr>"

definition example_guard :: "paper guard" where
  "example_guard = guard_init (paper_init ''X'' example_fees) example_limits None"

theorem guard_halt_sticky_witness:
  "status_of (guard_run [(2, False, paper_ops 2 example_view, GResume ''ok''),
       (3, False, paper_ops 3 example_view, GMarket BUY 1 ''a'' False)]
     (guard_do 1 True (paper_ops 1 example_view) GCanEnter example_guard)) = Halted"
  by (rule guard_halt_sticky) (simp_all add: guard_can_enter_def Let_def)

subsection \<open>Which orders pass\<close>

definition guard_allows ::
    "bool \<Rightarrow> 'b broker_ops \<Rightarrow> side \<Rightarrow> real \<Rightarrow> bool \<Rightarrow> 'b guard \<Rightarrow> bool" where
  "guard_allows kill ops sd q ro g \<longleftrightarrow>
     (let pos = p_qty (b_position ops (g_broker g))
      in ro \<or> reduces pos sd q \<or>
         (\<not> kill \<and> status_of g = Active
          \<and> \<bar>pos + guard_pending ops g + side_sign sd * q\<bar> \<le> max_abs_position (g_limits g) + 1 / 10 ^ 9))"

lemma pre_trade_allows:
  "isl (fst (guard_pre_trade now kill ops sd q ro g)) \<longleftrightarrow> \<not> guard_allows kill ops sd q ro g"
  by (auto simp: guard_pre_trade_def guard_allows_def Let_def guard_reduces_def reduces_def
      guard_pending_def not_le)

lemma pre_trade_refusal:
  "isl (fst (guard_pre_trade now kill ops sd q ro g)) \<Longrightarrow>
     \<exists>why. projl (fst (guard_pre_trade now kill ops sd q ro g)) = RiskHalt why"
  by (auto simp: guard_pre_trade_def Let_def split: if_splits)

text \<open>C5: Market and limit orders reach the broker exactly when they are reduce-only, or reduce
  the position by no more than its size, or the guard is active with no kill file and the
  position plus the net pending orders plus this one stays within the cap; the caller then
  gets the broker's own answer, and otherwise a RiskHalt with the broker untouched.\<close>

theorem guard_gate:
  "let m = guard_place_market now kill ops sd q cid ro g;
       l = guard_place_limit_gtx now kill ops sd q px cid ro g;
       bm = b_place_market ops sd q cid ro (g_broker g);
       bl = b_place_limit_gtx ops sd q px cid ro (g_broker g)
   in if guard_allows kill ops sd q ro g
      then (fst m, g_broker (snd m)) = bm \<and> (fst l, g_broker (snd l)) = bl
      else (\<exists>why. fst m = Inl (RiskHalt why) \<and> fst l = Inl (RiskHalt why))
           \<and> g_broker (snd m) = g_broker g \<and> g_broker (snd l) = g_broker g"
proof (cases "guard_allows kill ops sd q ro g")
  case True
  then show ?thesis
    by (simp add: Let_def guard_place_cases pre_trade_allows guarded_broker guarded_result pre_trade_state)
next
  case False
  then have "isl (fst (guard_pre_trade now kill ops sd q ro g))" by (simp add: pre_trade_allows)
  then show ?thesis
    using pre_trade_refusal [of now kill ops sd q ro g] False
    by (auto simp: Let_def guard_place_cases pre_trade_state)
qed

subsection \<open>The guard as a broker\<close>

lemma market_broker:
  "g_broker (snd (guard_place_market now kill ops sd q cid ro g)) =
     (if guard_allows kill ops sd q ro g then snd (b_place_market ops sd q cid ro (g_broker g))
      else g_broker g)"
  by (simp add: guard_place_cases Let_def pre_trade_allows guarded_broker pre_trade_state)

lemma limit_broker:
  "g_broker (snd (guard_place_limit_gtx now kill ops sd q px cid ro g)) =
     (if guard_allows kill ops sd q ro g then snd (b_place_limit_gtx ops sd q px cid ro (g_broker g))
      else g_broker g)"
  by (simp add: guard_place_cases Let_def pre_trade_allows guarded_broker pre_trade_state)

lemma stop_broker:
  "g_broker (snd (guard_place_stop_market now kill ops sd q stop cid g)) =
     (if reduces (p_qty (b_position ops (g_broker g))) sd q
      then snd (b_place_stop_market ops sd q stop cid (g_broker g)) else g_broker g)"
  by (simp add: guard_place_stop_market_def Let_def guarded_broker guard_reduces_def reduces_def)

lemma guard_ops_simps [simp]:
  "b_position (guard_ops now kill ops) g = b_position ops (g_broker g)"
  "b_place_market (guard_ops now kill ops) = guard_place_market now kill ops"
  "b_place_limit_gtx (guard_ops now kill ops) = guard_place_limit_gtx now kill ops"
  "b_place_stop_market (guard_ops now kill ops) = guard_place_stop_market now kill ops"
  "b_cancel (guard_ops now kill ops) = guard_cancel ops"
  "b_cancel_all (guard_ops now kill ops) = guard_cancel_all ops"
  by (simp_all add: guard_ops_def)

text \<open>A guard around a broker that keeps the contract keeps it too.\<close>

context broker_contract
begin

lemma guard_contract: "broker_contract (guard_ops now kill ops) (\<lambda>g. inv (g_broker g))"
proof
  fix g :: "'b guard" and sd q cid ro px stop
  assume i: "inv (g_broker g)"
  show "inv (g_broker (snd (b_place_market (guard_ops now kill ops) sd q cid ro g)))"
    using i market_inv by (simp add: market_broker)
  show "inv (g_broker (snd (b_place_limit_gtx (guard_ops now kill ops) sd q px cid ro g)))"
    using i limit_inv by (simp add: limit_broker)
  show "inv (g_broker (snd (b_place_stop_market (guard_ops now kill ops) sd q stop cid g)))"
    using i stop_inv by (simp add: stop_broker)
  show "inv (g_broker (snd (b_cancel (guard_ops now kill ops) cid g)))"
    using cancel_inv [OF i] by (simp add: guard_cancel_def split_beta)
  show "inv (g_broker (snd (b_cancel_all (guard_ops now kill ops) g)))"
    using cancel_all_inv [OF i] by (simp add: guard_cancel_all_def split_beta)
  show "p_qty (b_position (guard_ops now kill ops)
        (snd (b_place_market (guard_ops now kill ops) sd q cid ro g)))
      \<in> {p_qty (b_position (guard_ops now kill ops) g),
         p_qty (b_position (guard_ops now kill ops) g) + side_sign sd * round8 q}"
    using market_pos [OF i, of sd q cid ro] by (simp add: market_broker)
qed (simp_all add: market_broker limit_broker stop_broker guard_cancel_def guard_cancel_all_def
    split_beta limit_pos stop_pos cancel_pos cancel_all_pos pos_grid market_rejects market_reduce
)

end

interpretation guarded_paper:
  broker_contract "guard_ops now kill (paper_ops now mv)" "\<lambda>g. paper_inv (g_broker g)" for now kill mv
  by (rule paper_broker.guard_contract)

subsection \<open>The account behind the guard\<close>

text \<open>Each call reaches the exchange as at most one call, or is refused.\<close>

fun paper_cmd_of :: "guard_cmd \<Rightarrow> paper_cmd option" where
  "paper_cmd_of (GMarket sd q cid ro) = Some (CPlaceMarket sd q cid ro)"
| "paper_cmd_of (GLimit sd q px cid ro) = Some (CPlaceLimit sd q px cid ro)"
| "paper_cmd_of (GStop sd q stop cid) = Some (CPlaceStop sd q stop cid)"
| "paper_cmd_of (GCancel cid) = Some (CCancel cid)"
| "paper_cmd_of GCancelAll = Some CCancelAll"
| "paper_cmd_of GPoll = Some CPoll"
| "paper_cmd_of _ = None"

lemma guard_do_broker:
  "g_broker (guard_do now kill (paper_ops now mv) c g) = g_broker g
   \<or> (\<exists>pc. paper_cmd_of c = Some pc
        \<and> g_broker (guard_do now kill (paper_ops now mv) c g) = paper_do now mv pc (g_broker g)
        \<and> (\<forall>sd q cid ro. c = GMarket sd q cid ro \<longrightarrow> guard_allows kill (paper_ops now mv) sd q ro g))"
proof (cases c)
  case (GMarket sd q cid ro)
  then show ?thesis by (simp add: market_broker)
next
  case (GLimit sd q px cid ro)
  then show ?thesis by (simp add: limit_broker)
next
  case (GStop sd q stop cid)
  then show ?thesis by (simp add: stop_broker)
qed (simp_all add: guard_cancel_def guard_cancel_all_def guard_poll_def guard_check_health_def Let_def
    guard_check_position_def guard_record_night_def guard_can_enter_def guard_reset_halt_def
    guard_resume_def split_beta split: option.split)

fun limits_only_reduce :: "guard_cmd \<Rightarrow> bool" where
  "limits_only_reduce (GLimit sd q px cid ro) = ro"
| "limits_only_reduce _ = True"

definition guard_paper_run ::
    "(datetime \<times> bool \<times> market_view \<times> guard_cmd) list \<Rightarrow> paper guard \<Rightarrow> paper guard" where
  "guard_paper_run cs g = guard_run (map (\<lambda>(now, kill, mv, c). (now, kill, paper_ops now mv, c)) cs) g"

definition inactive_ok :: "paper guard \<Rightarrow> bool" where
  "inactive_ok g \<longleftrightarrow> paper_inv (g_broker g) \<and> limits_reduce (g_broker g) \<and> status_of g \<noteq> Active"

abbreviation guard_qty :: "paper guard \<Rightarrow> real" where
  "guard_qty g \<equiv> p_qty (px_pos (g_broker g))"

lemma inactive_step:
  assumes ok: "inactive_ok g" and c: "\<not> is_reset c" "\<not> is_resume c" "limits_only_reduce c"
  shows "inactive_ok (guard_do now kill (paper_ops now mv) c g)
    \<and> shrinks (guard_qty g) (guard_qty (guard_do now kill (paper_ops now mv) c g))"
proof -
  let ?g = "guard_do now kill (paper_ops now mv) c g"
  have i: "paper_inv (g_broker g)" "limits_reduce (g_broker g)" "status_of g \<noteq> Active"
    using ok by (simp_all add: inactive_ok_def)
  have st: "status_of ?g \<noteq> Active" by (rule guard_do_inactive [OF i(3) c(1,2)])
  show ?thesis
  proof (cases "g_broker ?g = g_broker g")
    case True
    then show ?thesis using i st by (simp add: inactive_ok_def)
  next
    case False
    then obtain pc where pc: "paper_cmd_of c = Some pc" "g_broker ?g = paper_do now mv pc (g_broker g)"
      and al: "\<And>sd q cid ro. c = GMarket sd q cid ro \<Longrightarrow> guard_allows kill (paper_ops now mv) sd q ro g"
      using guard_do_broker [of now kill mv c g] by blast
    have cr: "creates (\<lambda>ord. o_type ord = LIMIT \<longrightarrow> o_reduce_only ord) pc"
      using pc(1) c(3) by (cases c) auto
    have k: "px_steps (\<lambda>ord. o_type ord = LIMIT \<longrightarrow> o_reduce_only ord) (\<lambda>_. True) (g_broker g)
        (paper_do now mv pc (g_broker g))"
      by (rule paper_do_steps [OF i(1) cr]) simp
    have inv: "inactive_ok ?g"
      using px_steps_inv [OF k i(1)] px_steps_limits [OF k i(1,2)] st pc(2)
      by (simp add: inactive_ok_def)
    have "shrinks (guard_qty g) (p_qty (px_pos (paper_do now mv pc (g_broker g))))"
    proof (cases "reduce_cmd pc")
      case True
      have "px_steps o_reduce_only (\<lambda>_. True) (g_broker g) (paper_do now mv pc (g_broker g))"
        by (rule paper_do_steps [OF i(1) creates_reduce [OF True]]) simp
      then show ?thesis by (rule px_steps_shrinks [OF _ i(1,2)])
    next
      case False
      then obtain sd q cid where m: "c = GMarket sd q cid False" "pc = CPlaceMarket sd q cid False"
        using pc(1) c(3) by (cases c) auto
      then have "reduces (guard_qty g) sd q"
        using al i(3) by (auto simp: guard_allows_def Let_def)
      then show ?thesis
        using paper_broker.reducing_market_shrinks [OF i(1), of now mv sd q cid False] m(2) by simp
    qed
    with inv pc(2) show ?thesis by simp
  qed
qed

lemma inactive_run:
  assumes "inactive_ok g"
    and "list_all (\<lambda>(now, kill, mv, c). \<not> is_reset c \<and> \<not> is_resume c \<and> limits_only_reduce c) cs"
  shows "shrinks (guard_qty g) (guard_qty (guard_paper_run cs g))"
  using assms
proof (induction cs arbitrary: g)
  case Nil
  then show ?case by (simp add: guard_paper_run_def)
next
  case (Cons x cs)
  obtain now kill mv c where x: "x = (now, kill, mv, c)" by (cases x) auto
  let ?g = "guard_do now kill (paper_ops now mv) c g"
  have s: "inactive_ok ?g" "shrinks (guard_qty g) (guard_qty ?g)"
    using inactive_step [OF Cons.prems(1), of c now kill mv] Cons.prems(2) x by simp_all
  have "shrinks (guard_qty ?g) (guard_qty (guard_paper_run cs ?g))"
    using Cons.prems(2) by (intro Cons.IH s(1)) simp
  then show ?case using shrinks_trans [OF s(2)] by (simp add: x guard_paper_run_def)
qed

text \<open>C2: A paused or halted guard can only wind the account down: over the simulated exchange,
  with the resting limit orders reduce-only, any mix of market orders (flagged or not),
  reduce-only limits, stops, cancels, polls and checks leaves the position no larger and on
  the same side, until a person resumes or resets.\<close>

theorem guard_inactive_winds_down:
  assumes "g_broker g = paper_run cs0 (paper_init sm fs)" and "status_of g \<noteq> Active"
    and "list_all (\<lambda>ord. o_type ord = LIMIT \<longrightarrow> o_reduce_only ord) (paper_open_orders (g_broker g))"
    and "list_all (\<lambda>(now, kill, mv, c). \<not> is_reset c \<and> \<not> is_resume c \<and> limits_only_reduce c) cs"
  shows "let a = p_qty (px_pos (g_broker g)); b = p_qty (px_pos (g_broker (guard_paper_run cs g)))
         in \<bar>b\<bar> \<le> \<bar>a\<bar> \<and> 0 \<le> a * b"
proof -
  have i: "paper_inv (g_broker g)" unfolding assms(1) by (rule session_inv)
  then have "inactive_ok g"
    using assms(2,3) limits_reduce_open [of "g_broker g"] by (simp add: inactive_ok_def paper_inv_def)
  from inactive_run [OF this assms(4)] show ?thesis by (simp add: shrinks_def Let_def)
qed

definition long_guard :: "paper guard" where
  "long_guard = guard_do 2 True (paper_ops 2 example_view) GCanEnter
     (example_guard\<lparr>g_broker := paper_run [(1, example_view, CPlaceMarket BUY 2 ''a'' False)]
                                 (paper_init ''X'' example_fees)\<rparr>)"

theorem guard_inactive_winds_down_witness:
  "\<bar>p_qty (px_pos (g_broker (guard_paper_run [(3, False, example_view, GMarket SELL 5 ''b'' False),
       (4, False, example_view, GMarket SELL 1 ''c'' False)] long_guard)))\<bar> \<le> 2"
proof -
  have b: "g_broker long_guard = paper_run [(1, example_view, CPlaceMarket BUY 2 ''a'' False)]
      (paper_init ''X'' example_fees)"
    by (simp add: long_guard_def guard_can_enter_def Let_def)
  have st: "status_of long_guard \<noteq> Active"
    by (simp add: long_guard_def guard_can_enter_def Let_def)
  have q: "p_qty (px_pos (g_broker long_guard)) = 2" unfolding b by (simp add: paper_eval)
  have lim: "list_all (\<lambda>ord. o_type ord = LIMIT \<longrightarrow> o_reduce_only ord)
      (paper_open_orders (g_broker long_guard))" unfolding b by (simp add: paper_eval)
  show ?thesis
    using guard_inactive_winds_down [OF b st lim,
        of "[(3, False, example_view, GMarket SELL 5 ''b'' False),
             (4, False, example_view, GMarket SELL 1 ''c'' False)]"] q
    by (simp add: Let_def abs_le_iff)
qed



subsection \<open>Two ways past the guard\<close>

text \<open>A market in which the bid side trades down to 98 and then the ask side up to 103.\<close>

definition swing_view :: "real \<Rightarrow> int \<Rightarrow> market_view" where
  "swing_view px t = example_view\<lparr>mv_trades_after :=
     (\<lambda>ag since. [\<lparr>t_ts = t, t_agg_id = 1, t_price = px, t_qty = 3, t_buyer_maker = True\<rparr>])\<rparr>"

lemmas guard_eval =
  guard_place_market_def guard_place_limit_gtx_def guard_poll_def guard_pre_trade_def
  guard_check_kill_def guard_halt_def guard_set_def guard_save_def guard_alert_def guarded_def
  guard_after_def guard_reduces_def guard_pending_def guard_init_def guard_can_enter_def
  fresh_risk_def example_limits_def example_guard_def long_guard_def swing_view_def

text \<open>The position cap can be exceeded: the guard nets pending orders of opposite sides, so
  a resting sell makes room for a second buy; both buys fill and the position is twice the
  cap.\<close>

theorem guard_cap_nets_pending:
  "max_abs_position (g_limits example_guard) = 1
   \<and> p_qty (px_pos (g_broker (guard_paper_run
       [(1, False, example_view, GLimit BUY 1 99 ''b1'' False),
        (2, False, example_view, GLimit SELL 1 101 ''s1'' False),
        (3, False, example_view, GLimit BUY 1 99 ''b2'' False),
        (8, False, example_view, GPoll)] example_guard))) = 2"
proof
  show "max_abs_position (g_limits example_guard) = 1" by (simp add: guard_eval)
  show "p_qty (px_pos (g_broker (guard_paper_run
       [(1, False, example_view, GLimit BUY 1 99 ''b1'' False),
        (2, False, example_view, GLimit SELL 1 101 ''s1'' False),
        (3, False, example_view, GLimit BUY 1 99 ''b2'' False),
        (8, False, example_view, GPoll)] example_guard))) = 2"
    by (simp add: guard_paper_run_def guard_eval paper_eval)
qed

text \<open>A halted guard can let the position turn over: each unflagged limit order that only
  closes the position passes, two of them may rest together, and when both fill the account
  that was long 2 is short 2 although every new entry was forbidden.\<close>

theorem guard_halted_turnover:
  "status_of long_guard = Halted \<and> p_qty (px_pos (g_broker long_guard)) = 2
   \<and> p_qty (px_pos (g_broker (guard_paper_run
       [(3, False, example_view, GLimit SELL 2 101 ''s1'' False),
        (4, False, example_view, GLimit SELL 2 101 ''s2'' False),
        (8, False, swing_view 103 7, GPoll)] long_guard))) = - 2"
proof (intro conjI)
  show "status_of long_guard = Halted" by (simp add: guard_eval)
  show "p_qty (px_pos (g_broker long_guard)) = 2" by (simp add: guard_eval paper_eval)
  show "p_qty (px_pos (g_broker (guard_paper_run
       [(3, False, example_view, GLimit SELL 2 101 ''s1'' False),
        (4, False, example_view, GLimit SELL 2 101 ''s2'' False),
        (8, False, swing_view 103 7, GPoll)] long_guard))) = - 2"
    by (simp add: guard_paper_run_def guard_eval paper_eval)
qed

subsection \<open>Nights and rejections\<close>

fun record_nights :: "(datetime \<times> string \<times> real \<times> (string \<times> json) list) list \<Rightarrow> 'b guard \<Rightarrow> 'b guard" where
  "record_nights [] g = g"
| "record_nights ((now, d, pnl, detail) # ns) g =
     record_nights ns (guard_record_night now d pnl detail g)"

definition night_pnls :: "(datetime \<times> string \<times> real \<times> (string \<times> json) list) list \<Rightarrow> real list" where
  "night_pnls ns = map (\<lambda>(now, d, pnl, detail). pnl) ns"

lemma night_pnls_simps [simp]:
  "night_pnls [] = []" "night_pnls (ns @ [(now, d, pnl, detail)]) = night_pnls ns @ [pnl]"
  by (simp_all add: night_pnls_def)

definition losing_streak :: "real list \<Rightarrow> int" where
  "losing_streak pnls = int (length (takeWhile (\<lambda>p. p < 0) (rev pnls)))"

definition some_prefix :: "('a list \<Rightarrow> bool) \<Rightarrow> 'a list \<Rightarrow> bool" where
  "some_prefix P xs \<longleftrightarrow> (\<exists>i. 0 < i \<and> i \<le> length xs \<and> P (take i xs))"

lemma some_prefix_Nil [simp]: "\<not> some_prefix P []"
  by (simp add: some_prefix_def)

lemma some_prefix_snoc: "some_prefix P (xs @ [x]) \<longleftrightarrow> some_prefix P xs \<or> P (xs @ [x])"
proof -
  have "(0 < i \<and> i \<le> Suc (length xs) \<and> P (take i (xs @ [x]))) \<longleftrightarrow>
      (0 < i \<and> i \<le> length xs \<and> P (take i xs)) \<or> (i = Suc (length xs) \<and> P (xs @ [x]))" for i
    by (cases "i = Suc (length xs)") auto
  then show ?thesis unfolding some_prefix_def by auto
qed

definition night_status :: "risk_limits \<Rightarrow> real list \<Rightarrow> risk_status" where
  "night_status lm pnls =
     (if some_prefix (\<lambda>ps. sum_list ps \<le> test_stop_cumulative_usd lm) pnls then Halted
      else if some_prefix (\<lambda>ps. pause_after_consecutive_losses lm \<le> losing_streak ps) pnls
      then Paused else Active)"

lemma record_nights_append:
  "record_nights (ns @ ms) g = record_nights ms (record_nights ns g)"
  by (induction ns g rule: record_nights.induct) simp_all

lemma record_nights_spec:
  fixes b :: 'b and lm :: risk_limits
  defines "g0 \<equiv> guard_init b lm None"
  shows "g_limits (record_nights ns g0) = lm
    \<and> r_cumulative_pnl (g_state (record_nights ns g0)) = sum_list (night_pnls ns)
    \<and> r_consecutive_losses (g_state (record_nights ns g0)) = losing_streak (night_pnls ns)
    \<and> status_of (record_nights ns g0) = night_status lm (night_pnls ns)"
proof (induction ns rule: rev_induct)
  case Nil
  then show ?case
    by (simp add: g0_def guard_init_def fresh_risk_def losing_streak_def night_status_def)
next
  case (snoc x ns)
  obtain now d pnl detail where x: "x = (now, d, pnl, detail)" by (cases x) auto
  let ?ps = "night_pnls ns"
  have streak: "losing_streak (?ps @ [pnl]) = (if pnl < 0 then losing_streak ?ps + 1 else 0)"
    by (simp add: losing_streak_def)
  define g where "g = record_nights ns g0"
  have IH: "g_limits g = lm" "r_cumulative_pnl (g_state g) = sum_list ?ps"
    "r_consecutive_losses (g_state g) = losing_streak ?ps" "status_of g = night_status lm ?ps"
    using snoc by (simp_all add: g_def)
  have "status_of (guard_record_night now d pnl detail g) = night_status lm (?ps @ [pnl])"
    unfolding night_status_def some_prefix_snoc streak
    using IH by (simp add: guard_record_night_def Let_def guard_set_status night_status_def)
  then show ?case
    using IH streak by (simp add: x record_nights_append g_def [symmetric])
      (auto simp: guard_record_night_def Let_def guard_halt_def)
qed

text \<open>The night book: after any list of settled nights from a fresh state the cumulative
  result is their sum, the losing streak is the number of losses at the end, and the guard
  is halted exactly when some prefix sum fell to the stop, else paused exactly when some
  prefix ended in the configured number of losses.\<close>

theorem guard_nights:
  "let g = record_nights ns (guard_init b lm None); pnls = night_pnls ns in
     r_cumulative_pnl (g_state g) = sum_list pnls
     \<and> r_consecutive_losses (g_state g) = losing_streak pnls
     \<and> status_of g = night_status lm pnls"
  unfolding Let_def using record_nights_spec [of ns b lm] by blast

fun is_rejection :: "exn + order \<Rightarrow> bool" where
  "is_rejection (Inr ord) = (o_status ord = REJECTED)"
| "is_rejection (Inl (OrderRejected why)) = True"
| "is_rejection (Inl _) = False"

text \<open>Sending orders through the guard one after another, all of them turned down.\<close>

type_synonym 'b sends = "(datetime \<times> ('b \<Rightarrow> (exn + order) \<times> 'b)) list"

fun send_all :: "'b sends \<Rightarrow> 'b guard \<Rightarrow> 'b guard" where
  "send_all [] g = g"
| "send_all ((now, f) # fs) g = send_all fs (snd (guarded now f g))"

fun all_rejected :: "'b sends \<Rightarrow> 'b guard \<Rightarrow> bool" where
  "all_rejected [] g = True"
| "all_rejected ((now, f) # fs) g =
     (is_rejection (fst (f (g_broker g))) \<and> all_rejected fs (snd (guarded now f g)))"

lemma guarded_rejection:
  assumes "is_rejection (fst (f (g_broker g)))"
  shows "\<exists>why. snd (guarded now f g) = guard_rejected now why (g\<lparr>g_broker := snd (f (g_broker g))\<rparr>)"
proof -
  obtain r b where f: "f (g_broker g) = (r, b)" by fastforce
  then have "is_rejection r" using assms by simp
  then show ?thesis using f
    by (cases r rule: is_rejection.cases) (auto simp: guarded_def guard_after_def Let_def)
qed

text \<open>Rejections in a row halt the guard: whichever orders are sent, once the streak of
  rejected answers reaches the limit no further entry is possible.\<close>

theorem guard_reject_streak:
  assumes "all_rejected fs g" and "fs \<noteq> []"
    and "max_consecutive_rejects (g_limits g) \<le> r_reject_streak (g_state g) + int (length fs)"
  shows "status_of (send_all fs g) = Halted"
  using assms
proof (induction fs g rule: send_all.induct)
  case (1 g)
  then show ?case by simp
next
  case (2 now f fs g)
  obtain why where g1: "snd (guarded now f g) =
      guard_rejected now why (g\<lparr>g_broker := snd (f (g_broker g))\<rparr>)"
    using guarded_rejection [of f g now] "2.prems"(1) by auto
  let ?g = "snd (guarded now f g)"
  have s: "g_limits ?g = g_limits g" "r_reject_streak (g_state ?g) = r_reject_streak (g_state g) + 1"
    unfolding g1 by (simp_all add: guard_rejected_def Let_def)
  show ?case
  proof (cases "fs = []")
    case True
    then show ?thesis
      using "2.prems"(3) by (simp add: g1 guard_rejected_def Let_def)
  next
    case False
    then show ?thesis using "2.prems" s "2.IH" by simp
  qed
qed

theorem guard_reject_streak_witness:
  "status_of (send_all
     [(1, b_place_market (paper_ops 1 example_view) BUY 0 ''a'' False),
      (2, b_place_stop_market (paper_ops 2 example_view) SELL 1 105 ''b'')] example_guard) = Halted"
proof (rule guard_reject_streak)
  show "all_rejected [(1, b_place_market (paper_ops 1 example_view) BUY 0 ''a'' False),
      (2, b_place_stop_market (paper_ops 2 example_view) SELL 1 105 ''b'')] example_guard"
    by (simp add: guard_rejected_def guard_eval paper_eval)
qed (simp_all add: guard_eval)

end
