(* ===== verification/Trader_Flow.thy ===== *)
theory Trader_Flow
  imports Trader_Correct Risk_Correct
begin

text \<open>
  The life of a position in the trader: what each task does to it, the invariant that
  between tasks no position is left in the closing state, that an exit request is carried
  out once the broker executes, and that a restart ends in a state that agrees with the
  exchange.
\<close>

subsection \<open>What the operations do to the positions\<close>

lemma pos_at_other [simp]:
  "pos_at sm (t\<lparr>td_next_poll := f\<rparr>) = pos_at sm t" "pos_at sm (t\<lparr>td_queue := q\<rparr>) = pos_at sm t"
  by (simp_all add: pos_at_def)

lemma pos_at_guard_op: "guard_op sm f t = (r, t1) \<Longrightarrow> pos_at s t1 = pos_at s t"
  by (auto simp: guard_op_eq)

lemma pos_at_cancel_stop [simp]: "pos_at s (td_cancel_stop env sm t) = pos_at s t"
  by (auto simp: td_cancel_stop_def guard_op_eq split: option.splits sum.splits)

lemma pos_at_cleanup [simp]: "pos_at s (cleanup_step sm f t) = pos_at s t"
  by (auto simp: cleanup_step_def guard_op_eq split: sum.splits)

lemma pos_at_close_maker: "td_close_maker env sm cid t = (fs, t1) \<Longrightarrow> pos_at s t1 = pos_at s t"
  by (auto simp: td_close_maker_def Let_def)

definition closes :: "string \<Rightarrow> 'b trader \<Rightarrow> bool" where
  "closes sm t \<longleftrightarrow> (\<exists>pos. pos_at sm t = Some pos \<and> tp_entry_px pos \<noteq> None)"

lemma positions_kept:
  "ts_positions (stop_line line now st) = ts_positions st" "ts_positions (book_result d gr fe st) = ts_positions st"
  by (simp_all add: stop_line_def book_result_def)

lemma pos_at_finalize:
  "pos_at s (td_finalize env sm px fee why out cid t) = (if s = sm \<and> closes sm t then None else pos_at s t)"
proof -
  have g: "pos_at s' (t\<lparr>td_state := st\<rparr>) = (if s' = sm then None else pos_at s' t)"
    if "ts_positions st = AList.update sm None (ts_positions (td_state t))" for st s'
    using that by (auto simp: pos_at_def update_conv)
  show ?thesis
    by (auto simp: td_finalize_def Let_def closes_def g positions_kept split: option.splits)
qed

text \<open>A trade of the signal is in the log.\<close>

definition traded :: "string \<Rightarrow> int \<Rightarrow> 'b trader \<Rightarrow> bool" where
  "traded sm ep t \<longleftrightarrow> (\<exists>tr. TTrade tr \<in> set (td_log t) \<and> tx_sym tr = sm \<and> tx_ep tr = ep)"

lemma traded_led: "led t t' \<Longrightarrow> traded sm ep t \<Longrightarrow> traded sm ep t'"
  by (auto simp: led_def traded_def)

lemma traded_finalize:
  assumes "pos_at sm t = Some pos" "tp_entry_px pos \<noteq> None" "tp_ep pos = ep"
  shows "traded sm ep (td_finalize env sm px fee why out cid t)"
proof -
  obtain epx where e: "tp_entry_px pos = Some epx" using assms(2) by auto
  have "tx_sym (trade_of env sm pos epx px fee why out cid) = sm"
    "tx_ep (trade_of env sm pos epx px fee why out cid) = ep"
    using assms(3) by (simp_all add: trade_of_def Let_def)
  then show ?thesis
    using assms(1) e by (auto simp: td_finalize_def Let_def traded_def td_say_def)
qed

lemma pos_at_exit_failed:
  "pos_at s (td_exit_failed env sm t) =
     (if s = sm then map_option (\<lambda>pos. pos\<lparr>tp_status := Open, tp_exit_n := tp_exit_n pos + 1,
                                       tp_retry_at := te_now env + 2\<rparr>) (pos_at sm t)
      else pos_at s t)"
  by (auto simp: td_exit_failed_def split: option.splits)

lemma check_stop_result:
  assumes "td_check_stop env sm force t = (b, t1)" "pos_at sm t = Some pos" "tp_entry_px pos \<noteq> None"
  shows "pos_at s t1 = (if b \<and> s = sm then None else pos_at s t) \<and> (b \<longrightarrow> traded sm (tp_ep pos) t1)"
proof -
  obtain epx where e: "tp_entry_px pos = Some epx" using assms(3) by auto
  have f: "traded sm (tp_ep pos) (td_finalize env sm px fee why out cid (set_guard sm g t))" for px fee why out cid g
    using assms(2) e by (intro traded_finalize) auto
  show ?thesis
    using assms(1) unfolding td_check_stop_def Let_def guard_op_eq
    by (auto simp: pos_at_finalize closes_def assms(2) e f split: option.splits if_splits sum.splits prod.splits)
qed

subsection \<open>The exit task\<close>

text \<open>The position as the exit task leaves it when the order fails.\<close>

definition retried :: "'b tenv \<Rightarrow> tpos \<Rightarrow> tpos" where
  "retried env pos = pos\<lparr>tp_status := Open, tp_exit_n := tp_exit_n pos + 1, tp_retry_at := te_now env + 2\<rparr>"

definition done_or_retried :: "'b tenv \<Rightarrow> string \<Rightarrow> tpos \<Rightarrow> 'b trader \<Rightarrow> 'b trader \<Rightarrow> bool" where
  "done_or_retried env sm pos t t1 \<longleftrightarrow>
     (\<forall>s. s \<noteq> sm \<longrightarrow> pos_at s t1 = pos_at s t)
     \<and> (pos_at sm t1 = None \<and> traded sm (tp_ep pos) t1 \<or> pos_at sm t1 = Some (retried env pos))"

text \<open>The exit order's answer closes the position for certain.\<close>

definition closing_answer :: "order \<Rightarrow> bool" where
  "closing_answer ord \<longleftrightarrow> o_status ord = FILLED \<or> o_status ord = EXPIRED"

lemma traded_set_guard [simp]: "traded sm ep (set_guard s g t) = traded sm ep t"
  by (simp add: traded_def set_guard_def)

lemma exit_placed_result:
  assumes p: "pos_at sm t = Some pos'" and e: "tp_entry_px pos' \<noteq> None" "tp_entry_px pos = tp_entry_px pos'"
    and r: "retried env pos' = retried env pos" "tp_ep pos' = tp_ep pos"
  shows "done_or_retried env sm pos t (exit_placed env sm pos rq cid mf ord t)
    \<and> (closing_answer ord \<longrightarrow> pos_at sm (exit_placed env sm pos rq cid mf ord t) = None)"
proof -
  obtain epx where x: "tp_entry_px pos' = Some epx" using e(1) by auto
  have f: "pos_at s (td_finalize env sm px fee why out cid' t1) = (if s = sm then None else pos_at s t)"
    "traded sm (tp_ep pos) (td_finalize env sm px fee why out cid' t1)"
    if "\<And>s. pos_at s t1 = pos_at s t" for s px fee why out cid' t1
    using that p x r(2) traded_finalize [of sm t1 pos' "tp_ep pos"] by (auto simp: pos_at_finalize closes_def)
  show ?thesis
  proof (cases "o_status ord = EXPIRED \<and> fills_of env sm cid t = [] \<and> mf = []")
    case True
    obtain b t1 where c: "td_check_stop env sm True t = (b, t1)" by (cases "td_check_stop env sm True t") auto
    note k = check_stop_result [OF c p e(1)]
    show ?thesis
    proof (cases b)
      case True
      then show ?thesis using \<open>o_status ord = EXPIRED \<and> _\<close> k r(2)
        by (auto simp: exit_placed_def Let_def c done_or_retried_def)
    next
      case False
      then have "pos_at s t1 = pos_at s t" for s
        using check_stop_result [OF c p e(1), of s] by simp
      then show ?thesis using \<open>o_status ord = EXPIRED \<and> _\<close> False x e(2)
        by (auto simp: exit_placed_def Let_def c done_or_retried_def f)
    qed
  next
    case False
    then show ?thesis using p r
      by (auto simp: exit_placed_def Let_def done_or_retried_def pos_at_exit_failed closing_answer_def f
          retried_def split: prod.splits)
  qed
qed

lemma guard_exit_order:
  "guard_op sm (b_place_market (g_ops env sm) sd q cid True) t = (r, t1) \<Longrightarrow>
     r = fst (b_place_market (te_ops env sm) sd q cid True
               (g_broker (guard_check_kill (te_clock env) (te_kill env) (td_guard t sm))))"
  by (auto simp: guard_op_eq g_ops_def guard_ops_def guard_place_market_def guard_pre_trade_def guarded_def
      Let_def case_prod_beta split: sum.splits exn.splits)

lemma exit_rest_result:
  assumes p: "pos_at sm t = Some pos'" and e: "tp_entry_px pos' \<noteq> None" "tp_entry_px pos = tp_entry_px pos'"
    and r: "retried env pos' = retried env pos" "tp_ep pos' = tp_ep pos"
  shows "done_or_retried env sm pos t (exit_rest env sm pos rq cid mf t)"
    and "(\<And>q b. \<exists>ord b'. b_place_market (te_ops env sm) BUY q cid True b = (Inr ord, b') \<and> closing_answer ord)
      \<Longrightarrow> pos_at sm (exit_rest env sm pos rq cid mf t) = None"
proof -
  let ?q = "round8 (tp_qty pos - round8 (sum_qty mf))"
  obtain x t1 where g: "guard_op sm (b_place_market (g_ops env sm) BUY ?q cid True) t = (x, t1)"
    by (cases "guard_op sm (b_place_market (g_ops env sm) BUY ?q cid True) t") auto
  have p1: "pos_at s t1 = pos_at s t" for s by (rule pos_at_guard_op [OF g])
  note k = exit_placed_result [of sm t1 pos' pos env rq cid mf, unfolded p1, OF p e r]
  show "done_or_retried env sm pos t (exit_rest env sm pos rq cid mf t)"
    using k p r by (cases x) (auto simp: exit_rest_def Let_def g done_or_retried_def p1 pos_at_exit_failed retried_def)
  assume a: "\<And>q b. \<exists>ord b'. b_place_market (te_ops env sm) BUY q cid True b = (Inr ord, b') \<and> closing_answer ord"
  obtain ord where "x = Inr ord" "closing_answer ord"
    using guard_exit_order [OF g] a by (metis fst_conv)
  then show "pos_at sm (exit_rest env sm pos rq cid mf t) = None"
    using k by (simp add: exit_rest_def Let_def g)
qed

lemma do_exit_result:
  assumes p: "pos_at sm t = Some pos" and e: "tp_entry_px pos \<noteq> None" and o: "tp_status pos = Open"
    and rq: "tp_exit_req pos = Some rq"
  shows "done_or_retried env sm pos t (td_do_exit env sm (tp_ep pos) t)"
    and "(\<And>q cid b. \<exists>ord b'. b_place_market (te_ops env sm) BUY q cid True b = (Inr ord, b') \<and> closing_answer ord)
      \<Longrightarrow> pos_at sm (td_do_exit env sm (tp_ep pos) t) = None"
proof -
  let ?t1 = "td_save (set_pos sm (Some (pos\<lparr>tp_status := Closing\<rparr>)) t)"
  let ?cid = "td_cid sm (tp_ep pos) ExitLeg (tp_exit_n pos) t"
  obtain mf t2 where m: "(case tp_maker_cid pos of None \<Rightarrow> ([], ?t1) | Some mc \<Rightarrow> td_close_maker env sm mc ?t1) = (mf, t2)"
    by (cases "case tp_maker_cid pos of None \<Rightarrow> ([], ?t1) | Some mc \<Rightarrow> td_close_maker env sm mc ?t1") auto
  have p2: "pos_at s t2 = (if s = sm then Some (pos\<lparr>tp_status := Closing\<rparr>) else pos_at s t)" for s
    using m pos_at_close_maker [of env sm _ ?t1 mf t2 s] by (cases "tp_maker_cid pos") auto
  obtain epx where x: "tp_entry_px pos = Some epx" using e by auto
  let ?full = "mf \<noteq> [] \<and> tp_qty pos - 1 / 10 ^ 9 \<le> round8 (sum_qty mf)"
  have eq: "td_do_exit env sm (tp_ep pos) t =
     (if ?full then td_finalize env sm (sum_amount mf / round8 (sum_qty mf)) (sum_fee mf) (WithMaker (rq_why rq))
           (rq_assumed_out rq) (the (tp_maker_cid pos)) (td_cancel_stop env sm t2)
      else exit_rest env sm pos rq ?cid mf t2)"
    using m by (simp add: td_do_exit_def p rq o Let_def)
  have r: "retried env (pos\<lparr>tp_status := Closing\<rparr>) = retried env pos" by (simp add: retried_def)
  note k = exit_rest_result [where sm = sm and t = t2 and pos' = "pos\<lparr>tp_status := Closing\<rparr>" and pos = pos
      and env = env and rq = rq and cid = ?cid and mf = mf]
  have f: "pos_at s (td_finalize env sm px fee why out cid (td_cancel_stop env sm t2)) = (if s = sm then None else pos_at s t)"
    "traded sm (tp_ep pos) (td_finalize env sm px fee why out cid (td_cancel_stop env sm t2))" for s px fee why out cid
    using x by (auto simp: pos_at_finalize closes_def p2 intro!: traded_finalize)
  show "done_or_retried env sm pos t (td_do_exit env sm (tp_ep pos) t)"
    using k(1) by (auto simp: eq done_or_retried_def f p2 x r)
  assume a: "\<And>q cid b. \<exists>ord b'. b_place_market (te_ops env sm) BUY q cid True b = (Inr ord, b') \<and> closing_answer ord"
  show "pos_at sm (td_do_exit env sm (tp_ep pos) t) = None"
    using k(2) a by (auto simp: eq f p2 x r)
qed

subsection \<open>Between the tasks\<close>

text \<open>Between tasks a position is opening or open, and an open one has its entry price.\<close>

fun pos_ok :: "tpos option \<Rightarrow> bool" where
  "pos_ok None = True"
| "pos_ok (Some pos) \<longleftrightarrow> tp_status pos = Opening \<or> (tp_status pos = Open \<and> tp_entry_px pos \<noteq> None)"

definition flow :: "'b trader \<Rightarrow> bool" where
  "flow t \<longleftrightarrow> (\<forall>s. pos_ok (pos_at s t))"

lemma flow_keep: "(\<And>s. pos_at s t1 = pos_at s t) \<Longrightarrow> flow t1 = flow t"
  by (simp add: flow_def)

lemma flow_simps [simp]:
  "flow (td_say x t) = flow t" "flow (td_save t) = flow t" "flow (td_submit s k t) = flow t"
  "flow (set_guard s g t) = flow t" "flow (td_signal s ep ss t) = flow t"
  "flow (td_alert_once key a t) = flow t" "flow (td_cancel_stop env s t) = flow t"
  "flow (t\<lparr>td_next_poll := f\<rparr>) = flow t" "flow (t\<lparr>td_queue := q\<rparr>) = flow t"
  by (simp_all add: flow_def)

lemma flow_set_pos: "flow t \<Longrightarrow> pos_ok q \<Longrightarrow> flow (set_pos s q t)"
  by (simp add: flow_def)

lemma flow_pos: "flow t \<Longrightarrow> pos_at s t = Some pos \<Longrightarrow> pos_ok (Some pos)"
  by (metis flow_def)

lemma flow_finalize: "flow t \<Longrightarrow> flow (td_finalize env sm px fee why out cid t)"
  by (simp add: flow_def pos_at_finalize)

lemma flow_guard_op: "guard_op sm f t = (r, t1) \<Longrightarrow> flow t1 = flow t"
  by (auto simp: guard_op_eq)

lemma flow_check_stop: "td_check_stop env sm force t = (b, t1) \<Longrightarrow> flow t \<Longrightarrow> flow t1"
  unfolding td_check_stop_def Let_def
  by (auto simp: guard_op_eq split: option.splits if_splits sum.splits prod.splits intro: flow_finalize)

lemma retried_ok: "tp_entry_px pos \<noteq> None \<Longrightarrow> pos_ok (Some (retried env pos))"
  by (simp add: retried_def)

lemma done_flow:
  assumes "done_or_retried env sm pos t t1" "flow t" "tp_entry_px pos \<noteq> None"
  shows "flow t1"
  unfolding flow_def
proof
  fix s
  show "pos_ok (pos_at s t1)"
    using assms retried_ok [OF assms(3), of env]
    by (cases "s = sm") (auto simp: flow_def done_or_retried_def simp del: pos_ok.simps(2))
qed

lemma flow_do_exit:
  assumes f: "flow t"
  shows "flow (td_do_exit env sm ep t)"
proof (cases "pos_at sm t")
  case None
  then show ?thesis using f by (simp add: td_do_exit_def)
next
  case (Some pos)
  show ?thesis
  proof (cases "tp_ep pos = ep \<and> tp_status pos = Open \<and> tp_exit_req pos \<noteq> None")
    case True
    then obtain rq where rq: "tp_exit_req pos = Some rq" by auto
    have e: "tp_entry_px pos \<noteq> None" using flow_pos [OF f Some] True by simp
    show ?thesis using done_flow [OF do_exit_result(1) [OF Some e _ rq] f e] True by simp
  next
    case False
    then show ?thesis using f Some by (auto simp: td_do_exit_def split: option.splits)
  qed
qed

lemma flow_place_maker:
  assumes f: "flow t"
  shows "flow (td_place_maker env sm ep t)"
proof -
  have s: "flow (set_pos sm (Some (pos\<lparr>tp_maker_cid := a, tp_maker_px := b, tp_maker_ts := c\<rparr>)) t1)"
    if "flow t1" "pos_at sm t1 = Some pos" for t1 pos a b c
    using flow_pos [OF that] by (intro flow_set_pos [OF that(1)]) simp
  show ?thesis
    using f unfolding td_place_maker_def Let_def
    by (auto simp: guard_op_eq s split: option.splits sum.splits)
qed

lemma flow_poll_maker: "flow t \<Longrightarrow> flow (td_poll_maker env sm ep t)"
  unfolding td_poll_maker_def
  by (auto simp: Let_def guard_op_eq split: option.splits sum.splits intro!: flow_finalize)

lemma flow_entry_filled: "flow t \<Longrightarrow> flow (entry_filled env sm ep ord fs t)"
  unfolding entry_filled_def
  by (auto simp: Let_def guard_op_eq split: option.splits sum.splits prod.splits intro!: flow_set_pos)

lemma flow_do_entry: "flow t \<Longrightarrow> flow (td_do_entry env sm ep t)"
  unfolding td_do_entry_def entry_market_def
  by (auto simp: Let_def guard_op_eq split: option.splits sum.splits prod.splits if_splits
      intro!: flow_set_pos flow_entry_filled)

lemma flow_run: "flow t \<Longrightarrow> flow (td_run env sm k t)"
  by (cases k; cases "td_check_stop env sm False t")
    (auto simp: td_run_def flow_do_entry flow_do_exit flow_place_maker flow_poll_maker dest: flow_check_stop)

lemma flow_work: "flow t \<Longrightarrow> flow (td_work env sm t)"
  by (auto simp: td_work_def flow_run split: option.splits)

lemma flow_on_entry:
  assumes f: "flow t"
  shows "flow (td_on_entry env sg t)"
proof -
  have "pos_ok (Some (new_tpos sg q t))" for q by (simp add: new_tpos_def)
  then show ?thesis
    using f entry_gate [of env sg t] by (auto simp: flow_def simp del: pos_ok.simps(2) split: option.splits)
qed

lemma flow_on_exit:
  assumes f: "flow t"
  shows "flow (td_on_exit env x t)"
proof -
  have s: "flow (set_pos sm (Some (pos\<lparr>tp_exit_req := rq\<rparr>)) t1)"
    if "flow t1" "pos_at sm t1 = Some pos" for sm pos rq t1
    using flow_pos [OF that] by (intro flow_set_pos [OF that(1)]) simp
  show ?thesis using f by (auto simp: td_on_exit_def Let_def s split: option.splits)
qed

lemma flow_periodic_maker:
  assumes "periodic_maker env sm pos t = (pos1, t1)" "flow t" "pos_ok (Some pos)"
  shows "flow t1 \<and> pos_ok (Some pos1)"
  using assms by (auto simp: periodic_maker_def Let_def split: option.splits if_splits intro!: flow_set_pos)

lemma flow_periodic_soft: "periodic_soft env sm pos t = Some t1 \<Longrightarrow> flow t \<Longrightarrow> pos_ok (Some pos) \<Longrightarrow> flow t1"
  by (auto simp: periodic_soft_def Let_def split: option.splits if_splits intro!: flow_set_pos)

lemma flow_periodic_stop: "flow (periodic_stop env sm pos t) = flow t"
  by (simp add: periodic_stop_def)

lemma flow_periodic_symbol:
  assumes f: "flow t"
  shows "flow (periodic_symbol env sm t)"
proof (cases "pos_at sm t")
  case None
  then show ?thesis using f by (simp add: periodic_symbol_def)
next
  case (Some pos)
  have k: "pos_ok (Some pos)" by (rule flow_pos [OF f Some])
  obtain pos1 t1 where m: "periodic_maker env sm pos t = (pos1, t1)" by (cases "periodic_maker env sm pos t") auto
  note k1 = flow_periodic_maker [OF m f k]
  have "pos_ok (Some (pos\<lparr>tp_retry_at := x\<rparr>))" for x using k by simp
  moreover have "flow (case periodic_soft env sm pos1 t1 of Some t2 \<Rightarrow> t2 | None \<Rightarrow> periodic_stop env sm pos1 t1)"
    using k1 flow_periodic_soft [of env sm pos1 t1]
    by (cases "periodic_soft env sm pos1 t1") (simp_all add: flow_periodic_stop)
  ultimately show ?thesis
    using f by (auto simp: periodic_symbol_def Some m intro!: flow_set_pos simp del: pos_ok.simps)
qed

lemma pos_at_reset_guards: "pos_at s (fold (reset_guard env nt) ss t) = pos_at s t"
  using reset_guards_quiet [of env nt ss t] by (simp add: pos_at_def)

lemma pos_at_resume [simp]: "pos_at s (td_consume_resume env rr t) = pos_at s t"
proof -
  have "pos_at s (t\<lparr>td_state := unhalt b (td_state t)\<rparr>) = pos_at s t" for b
    by (simp add: pos_at_def unhalt_def Let_def)
  then show ?thesis by (simp add: td_consume_resume_def Let_def pos_at_reset_guards)
qed

lemma flow_fold: "(\<And>x t. flow t \<Longrightarrow> flow (f x t)) \<Longrightarrow> flow t \<Longrightarrow> flow (fold f xs t)"
  by (induction xs arbitrary: t) auto

lemma flow_periodic: "flow t \<Longrightarrow> flow (td_periodic env t)"
  unfolding td_periodic_def
  by (rule flow_fold) (auto intro: flow_periodic_symbol simp: flow_keep [OF pos_at_resume] split: option.splits)

lemma pos_at_recover_orders [simp]: "pos_at s (snd (recover_orders env foreign sm mine ords nts t)) = pos_at s t"
  by (induction ords arbitrary: nts t) (auto simp: Let_def guard_op_eq split: sum.splits)

lemma resume_pos_ok: "pos_ok (Some (resume_pos env bps bp pos))"
  by (auto simp: resume_pos_def Let_def truthy_def)

lemma recover_symbol_flow:
  assumes f: "flow t"
  shows "flow (snd (recover_symbol env foreign sm nts t))"
proof -
  have o: "flow (snd (recover_open env foreign sm n t1)) = flow t1" for n t1
    by (simp add: recover_open_def flow_def)
  have c: "flow (snd (td_recover_closed env sm pos t1))" if "flow t1" for t1 pos
    using that by (auto simp: td_recover_closed_def Let_def intro!: flow_finalize flow_set_pos)
  have p: "flow (snd (recover_pos env foreign sm a pos n t1))" if "flow t1" for a pos n t1
    using that c [OF that, of pos] resume_pos_ok
    by (auto simp: recover_pos_def Let_def o case_prod_beta intro!: flow_set_pos simp del: pos_ok.simps(2))
  show ?thesis
    using f by (auto simp: recover_symbol_def Let_def o p split: option.splits if_splits intro!: flow_set_pos)
qed

lemma flow_recover_all: "flow t \<Longrightarrow> flow (snd (recover_all env foreign sms nts t))"
proof (induction sms arbitrary: nts t)
  case (Cons sm sms)
  obtain r t1 where r: "recover_symbol env foreign sm nts t = (r, t1)"
    by (cases "recover_symbol env foreign sm nts t") auto
  then have "flow t1" using recover_symbol_flow [OF Cons.prems, of env foreign sm nts] by simp
  then show ?case using Cons.IH by (cases r) (simp_all add: r)
qed simp

lemma flow_do: "flow t \<Longrightarrow> flow (td_do x t)"
  by (cases x) (simp_all add: flow_on_entry flow_on_exit flow_periodic flow_work td_recover_def flow_recover_all)

lemma fresh_flow:
  assumes "td_init sp md guards filters None journal now = Inr t0"
  shows "flow t0"
proof -
  have "v = None"
    if "map_of (fold (\<lambda>s ps. if map_of ps s = None then ps @ [(s, None)] else ps) ss ps) s = Some v"
      "\<And>s v. map_of ps s = Some v \<Longrightarrow> v = None" for ss and ps :: "(string \<times> tpos option) list" and s v
    using that
  proof (induction ss arbitrary: ps)
    case (Cons a ss)
    have "v = None" if "map_of (if map_of ps a = None then ps @ [(a, None)] else ps) s = Some v" for s v
      using that Cons.prems(2) by (auto simp: map_add_def split: option.splits if_splits)
    then show ?case using Cons.IH Cons.prems(1) by simp
  qed simp
  note m = this [of "sp_symbols sp" "[]"]
  have "ts_positions (td_state t0) = fold (\<lambda>s ps. if map_of ps s = None then ps @ [(s, None)] else ps) (sp_symbols sp) []"
    using assms by (auto simp: td_init_def Let_def td_save_def start_state_def fresh_trader_state_def
        split: sum.splits if_splits)
  then have "pos_at s t0 = None" for s
    using m [of s] by (auto simp: pos_at_def split: option.splits)
  then show ?thesis by (simp add: flow_def)
qed

lemma session_flow:
  assumes "td_init sp md guards filters None journal now = Inr t0"
  shows "flow (fold td_do ins t0)"
  by (rule flow_fold [OF flow_do fresh_flow [OF assms]])

subsection \<open>Tasks add no tasks\<close>

lemma queue_guard_op: "guard_op sm f t = (r, t1) \<Longrightarrow> td_queue t1 = td_queue t"
  by (auto simp: guard_op_eq)

lemma queue_finalize [simp]: "td_queue (td_finalize env sm px fee why out cid t) = td_queue t"
  by (auto simp: td_finalize_def Let_def split: option.splits)

lemma queue_cancel_stop [simp]: "td_queue (td_cancel_stop env sm t) = td_queue t"
  by (auto simp: td_cancel_stop_def guard_op_eq split: option.splits sum.splits)

lemma queue_exit_failed [simp]: "td_queue (td_exit_failed env sm t) = td_queue t"
  by (auto simp: td_exit_failed_def split: option.splits)

lemma queue_check_stop: "td_check_stop env sm force t = (b, t1) \<Longrightarrow> td_queue t1 = td_queue t"
  unfolding td_check_stop_def Let_def
  by (auto simp: guard_op_eq split: option.splits if_splits sum.splits prod.splits)

lemma queue_cleanup [simp]: "td_queue (cleanup_step sm f t) = td_queue t"
  by (auto simp: cleanup_step_def guard_op_eq split: sum.splits)

lemma queue_close_maker: "td_close_maker env sm cid t = (fs, t1) \<Longrightarrow> td_queue t1 = td_queue t"
  by (auto simp: td_close_maker_def Let_def)

lemma queue_exit_placed [simp]: "td_queue (exit_placed env sm pos rq cid mf ord t) = td_queue t"
  unfolding exit_placed_def
  by (auto simp: Let_def queue_check_stop split: option.splits prod.splits bool.splits)

lemma queue_exit_rest [simp]: "td_queue (exit_rest env sm pos rq cid mf t) = td_queue t"
  unfolding exit_rest_def by (auto simp: Let_def guard_op_eq split: sum.splits)

lemma queue_do_exit [simp]: "td_queue (td_do_exit env sm ep t) = td_queue t"
  unfolding td_do_exit_def
  by (auto simp: Let_def queue_close_maker split: option.splits prod.splits)

lemma queue_entry_filled [simp]: "td_queue (entry_filled env sm ep ord fs t) = td_queue t"
  unfolding entry_filled_def by (auto simp: Let_def guard_op_eq split: option.splits sum.splits prod.splits)

lemma queue_do_entry [simp]: "td_queue (td_do_entry env sm ep t) = td_queue t"
  unfolding td_do_entry_def entry_market_def
  by (auto simp: Let_def guard_op_eq split: option.splits sum.splits prod.splits if_splits)

lemma queue_run: "td_queue (td_run env sm k t) = td_queue t"
  by (cases k; cases "td_check_stop env sm False t")
    (auto simp: td_run_def queue_check_stop td_place_maker_def td_poll_maker_def Let_def guard_op_eq
      split: option.splits sum.splits)

subsection \<open>An exit request is carried out\<close>

definition live :: "string \<Rightarrow> int \<Rightarrow> 'b trader \<Rightarrow> bool" where
  "live sm ep t \<longleftrightarrow> (\<exists>pos rq. pos_at sm t = Some pos \<and> tp_ep pos = ep \<and> tp_status pos = Open
     \<and> tp_entry_px pos \<noteq> None \<and> tp_exit_req pos = Some rq)"

definition exited :: "string \<Rightarrow> int \<Rightarrow> 'b trader \<Rightarrow> bool" where
  "exited sm ep t \<longleftrightarrow> pos_at sm t = None \<and> traded sm ep t"

text \<open>A broker that executes: a market order to close is answered, as filled or as expired
  (nothing left to close).\<close>

definition executes :: "'b broker_ops \<Rightarrow> bool" where
  "executes ops \<longleftrightarrow> (\<forall>q cid b. \<exists>ord b'. b_place_market ops BUY q cid True b = (Inr ord, b') \<and> closing_answer ord)"

definition tasks_of :: "string \<Rightarrow> 'b trader \<Rightarrow> (string \<times> task) list" where
  "tasks_of sm t = filter (\<lambda>x. fst x = sm) (td_queue t)"

lemma exited_queue [simp]: "exited sm ep (t\<lparr>td_queue := q\<rparr>) = exited sm ep t"
  by (simp add: exited_def traded_def)

lemma live_queue [simp]: "live sm ep (t\<lparr>td_queue := q\<rparr>) = live sm ep t"
  by (simp add: live_def)

lemma run_exited: "pos_at sm t = None \<Longrightarrow> td_run env sm k t = t"
  by (cases k) (simp_all add: td_run_def td_do_entry_def td_do_exit_def td_place_maker_def td_poll_maker_def
      td_check_stop_def)

lemma poll_maker_live:
  assumes "live sm ep t"
  shows "exited sm ep (td_poll_maker env sm ep' t) \<or> live sm ep (td_poll_maker env sm ep' t)"
proof -
  obtain pos epx rq where p: "pos_at sm t = Some pos" "tp_ep pos = ep" "tp_entry_px pos = Some epx"
    "tp_status pos = Open" "tp_exit_req pos = Some rq"
    using assms by (auto simp: live_def)
  have l: "live sm ep (set_guard sm g t)" for g using p by (simp add: live_def)
  have f: "exited sm ep (td_finalize env sm px fee why out cid (td_cancel_stop env sm (set_guard sm g t)))"
    for px fee why out cid g
    using p by (auto simp: exited_def pos_at_finalize closes_def intro!: traded_finalize)
  show ?thesis
    using assms p(1) by (auto simp: td_poll_maker_def Let_def guard_op_eq l f split: option.splits sum.splits)
qed

lemma run_live:
  assumes "live sm ep t"
  shows "exited sm ep (td_run env sm k t) \<or> live sm ep (td_run env sm k t)"
    and "executes (te_ops env sm) \<Longrightarrow> exited sm ep (td_run env sm (DoExit ep) t)"
proof -
  obtain pos epx rq where p: "pos_at sm t = Some pos" "tp_ep pos = ep" "tp_entry_px pos = Some epx"
    "tp_status pos = Open" "tp_exit_req pos = Some rq"
    using assms by (auto simp: live_def)
  have e: "tp_entry_px pos \<noteq> None" using p(3) by simp
  have d: "done_or_retried env sm pos t (td_do_exit env sm ep t)"
    using do_exit_result(1) [OF p(1) e p(4,5)] p(2) by simp
  show "exited sm ep (td_run env sm (DoExit ep) t)" if "executes (te_ops env sm)"
  proof -
    have "pos_at sm (td_do_exit env sm (tp_ep pos) t) = None"
      by (rule do_exit_result(2) [OF p(1) e p(4,5)]) (use that in \<open>auto simp: executes_def\<close>)
    then show ?thesis using d p(2) by (auto simp: exited_def td_run_def done_or_retried_def)
  qed
  have r: "live sm ep t1" if "pos_at sm t1 = Some (retried env pos)" for t1 :: "'a trader"
    using that p by (auto simp: live_def retried_def)
  show "exited sm ep (td_run env sm k t) \<or> live sm ep (td_run env sm k t)"
  proof (cases k)
    case (DoEntry x)
    then show ?thesis using assms p by (simp add: td_run_def td_do_entry_def)
  next
    case (DoExit x)
    then show ?thesis using assms p d r
      by (cases "x = ep") (auto simp: td_run_def done_or_retried_def exited_def td_do_exit_def)
  next
    case (PlaceMaker x)
    then show ?thesis using assms p by (simp add: td_run_def td_place_maker_def)
  next
    case (PollMaker x)
    then show ?thesis using poll_maker_live [OF assms] by (simp add: td_run_def)
  next
    case CheckStop
    obtain b t1 where c: "td_check_stop env sm False t = (b, t1)" by (cases "td_check_stop env sm False t") auto
    have "pos_at sm t1 = (if b then None else Some pos)" "b \<longrightarrow> traded sm ep t1"
      using check_stop_result [OF c p(1) e, of sm] p(1,2) by auto
    then show ?thesis using p by (auto simp: CheckStop td_run_def c exited_def live_def)
  qed
qed

lemma find_filter: "find P xs = (case filter P xs of [] \<Rightarrow> None | x # _ \<Rightarrow> Some x)"
  by (induction xs) auto

lemma work_tasks:
  "td_work env sm t = (case tasks_of sm t of [] \<Rightarrow> t
     | x # xs \<Rightarrow> td_run env sm (snd x) (t\<lparr>td_queue := remove1 x (td_queue t)\<rparr>))"
  by (auto simp: td_work_def tasks_of_def find_filter split: list.splits)

lemma tasks_work: "tasks_of sm (td_work env sm t) = tl (tasks_of sm t)"
proof (cases "tasks_of sm t")
  case Nil
  then show ?thesis by (simp add: work_tasks)
next
  case (Cons x xs)
  then show ?thesis
    by (simp add: work_tasks tasks_of_def queue_run filter_remove1)
qed

lemma drain_closes:
  "list_all (\<lambda>e. executes (te_ops e sm)) envs \<Longrightarrow>
   exited sm ep t \<or> live sm ep t \<and> (sm, DoExit ep) \<in> set (tasks_of sm t) \<and> length (tasks_of sm t) \<le> length envs
   \<Longrightarrow> exited sm ep (fold (\<lambda>e. td_work e sm) envs t)"
proof (induction envs arbitrary: t)
  case (Cons e envs)
  show ?case
  proof (cases "exited sm ep t")
    case True
    then have "exited sm ep (td_work e sm t)"
      by (auto simp: work_tasks run_exited exited_def traded_def split: list.splits)
    then show ?thesis using Cons by simp
  next
    case False
    with Cons.prems obtain x xs where l: "live sm ep t" "(sm, DoExit ep) \<in> set (tasks_of sm t)" "tasks_of sm t = x # xs"
      "length xs \<le> length envs"
      by (cases "tasks_of sm t") auto
    have w: "td_work e sm t = td_run e sm (snd x) (t\<lparr>td_queue := remove1 x (td_queue t)\<rparr>)"
      by (simp add: work_tasks l(3))
    have t: "tasks_of sm (td_work e sm t) = xs" by (simp add: tasks_work l(3))
    have "exited sm ep (td_work e sm t) \<or> live sm ep (td_work e sm t) \<and> (sm, DoExit ep) \<in> set xs"
    proof (cases "x = (sm, DoExit ep)")
      case True
      then show ?thesis
        using run_live(2) [of sm ep "t\<lparr>td_queue := remove1 x (td_queue t)\<rparr>" e] l(1) Cons.prems(1) by (simp add: w)
    next
      case False
      then show ?thesis
        using run_live(1) [of sm ep "t\<lparr>td_queue := remove1 x (td_queue t)\<rparr>" e "snd x"] l by (simp add: w)
    qed
    then show ?thesis using Cons t l(4) by simp
  qed
qed auto

text \<open>The periodic check: the request stays, and after its retry time the task is queued.\<close>

lemma maker_frame:
  "periodic_maker env s pos t = (pos1, t1) \<Longrightarrow>
     set (td_queue t) \<subseteq> set (td_queue t1) \<and> (s \<noteq> sm \<longrightarrow> pos_at sm t1 = pos_at sm t)"
  by (auto simp: periodic_maker_def Let_def split: option.splits if_splits)

lemma soft_frame:
  "periodic_soft env s pos t = Some t1 \<Longrightarrow>
     set (td_queue t) \<subseteq> set (td_queue t1) \<and> (s \<noteq> sm \<longrightarrow> pos_at sm t1 = pos_at sm t)"
  by (auto simp: periodic_soft_def Let_def split: option.splits if_splits)

lemma stop_frame: "set (td_queue t) \<subseteq> set (td_queue (periodic_stop env s pos t)) \<and> pos_at sm (periodic_stop env s pos t) = pos_at sm t"
  by (auto simp: periodic_stop_def)

lemma periodic_frame:
  "set (td_queue t) \<subseteq> set (td_queue (periodic_symbol env s t))
   \<and> (s \<noteq> sm \<longrightarrow> pos_at sm (periodic_symbol env s t) = pos_at sm t)"
proof (cases "pos_at s t")
  case None
  then show ?thesis by (simp add: periodic_symbol_def)
next
  case (Some pos)
  obtain pos1 t1 where m: "periodic_maker env s pos t = (pos1, t1)" by (cases "periodic_maker env s pos t") auto
  have "set (td_queue t1) \<subseteq> set (td_queue t2) \<and> (s \<noteq> sm \<longrightarrow> pos_at sm t2 = pos_at sm t1)"
    if "t2 = (case periodic_soft env s pos1 t1 of Some t2 \<Rightarrow> t2 | None \<Rightarrow> periodic_stop env s pos1 t1)" for t2
    using that soft_frame stop_frame by (cases "periodic_soft env s pos1 t1") (simp_all, blast)
  then show ?thesis using maker_frame [OF m, of sm] by (auto simp: periodic_symbol_def Some m)
qed

lemmas periodic_symbol_queue = periodic_frame [THEN conjunct1]
lemmas periodic_symbol_other = periodic_frame [THEN conjunct2, rule_format]

lemma periodic_symbol_live:
  assumes "live sm ep t"
  shows "live sm ep (periodic_symbol env sm t)"
proof -
  obtain pos epx rq where p: "pos_at sm t = Some pos" "tp_ep pos = ep" "tp_entry_px pos = Some epx"
    "tp_status pos = Open" "tp_exit_req pos = Some rq"
    using assms by (auto simp: live_def)
  have m: "periodic_maker env sm pos t = (pos, t)"
    by (simp add: periodic_maker_def p split: option.splits)
  have s: "live sm ep t1" if "periodic_soft env sm pos t = Some t1" for t1
    using that p by (auto simp: periodic_soft_def Let_def live_def split: option.splits if_splits)
  show ?thesis
  proof (cases "periodic_soft env sm pos t")
    case None
    then show ?thesis using p by (simp add: periodic_symbol_def m live_def periodic_stop_def)
  next
    case (Some t1)
    then show ?thesis using p s [OF Some] by (simp add: periodic_symbol_def m) (simp add: live_def)
  qed
qed

lemma periodic_fold_live:
  "live sm ep t \<Longrightarrow> live sm ep (fold (periodic_symbol env) ss t)
     \<and> set (td_queue t) \<subseteq> set (td_queue (fold (periodic_symbol env) ss t))"
proof (induction ss arbitrary: t)
  case (Cons s ss)
  have "live sm ep (periodic_symbol env s t)"
    using Cons.prems periodic_symbol_live [OF Cons.prems]
    by (cases "s = sm") (simp_all add: live_def periodic_symbol_other)
  then show ?case using Cons.IH [of "periodic_symbol env s t"] periodic_symbol_queue [of t env s] by auto
qed simp

lemma periodic_submits:
  assumes "pos_at sm t = Some pos" "live sm ep t" "tp_retry_at pos \<le> te_now env" "sm \<in> set ss"
  shows "(sm, DoExit ep) \<in> set (td_queue (fold (periodic_symbol env) ss t))"
  using assms
proof (induction ss arbitrary: t)
  case (Cons s ss)
  show ?case
  proof (cases "s = sm")
    case True
    have "(sm, DoExit ep) \<in> set (td_queue (periodic_symbol env sm t))"
      using Cons.prems by (auto simp: periodic_symbol_def live_def)
    then show ?thesis
      using periodic_fold_live [OF periodic_symbol_live [OF Cons.prems(2), of env], of env ss] True by auto
  next
    case False
    then have "pos_at sm (periodic_symbol env s t) = pos_at sm t" by (rule periodic_symbol_other)
    then show ?thesis using Cons False by (simp add: live_def)
  qed
qed simp

lemma periodic_live:
  assumes "pos_at sm t = Some pos" "live sm ep t" "tp_retry_at pos \<le> te_now env" "sm \<in> set (sp_symbols (td_spec t))"
  shows "live sm ep (td_periodic env t) \<and> (sm, DoExit ep) \<in> set (tasks_of sm (td_periodic env t))"
proof -
  let ?t = "case te_resume env of None \<Rightarrow> t | Some rr \<Rightarrow> td_consume_resume env rr t"
  have "pos_at sm ?t = pos_at sm t" by (simp split: option.splits)
  then have "live sm ep ?t" "pos_at sm ?t = Some pos" using assms by (simp_all add: live_def)
  then show ?thesis
    using periodic_fold_live [of sm ep ?t env] periodic_submits [of sm ?t pos ep env] assms(3,4)
    unfolding td_periodic_def tasks_of_def by simp
qed

text \<open>C19: An exit request is never lost: in any session, once a position is open with an exit
  requested and its retry time has passed, the next periodic check queues the exit, and when
  the symbol's worker has emptied its queue against a broker that answers closing market
  orders, the position is closed and a trade of that signal is in the log, whatever the
  state of the risk guard, the kill switch and the other tasks waiting.\<close>

theorem trader_exit_completes:
  assumes "td_init sp md guards filters None journal now = Inr t0" and "t = fold td_do ins t0"
    and "pos_at sm t = Some pos" and "tp_status pos = Open" and "tp_exit_req pos \<noteq> None"
    and "sm \<in> set (sp_symbols sp)" and "tp_retry_at pos \<le> te_now env"
    and "list_all (\<lambda>e. executes (te_ops e sm)) envs"
    and "length (tasks_of sm (td_periodic env t)) \<le> length envs"
  shows "let t' = fold (\<lambda>e. td_work e sm) envs (td_periodic env t)
    in pos_at sm t' = None \<and> traded sm (tp_ep pos) t'"
proof -
  have sp: "td_spec t = sp"
    using led_session [of t0 ins] assms(1,2)
    by (auto simp: led_def td_init_def Let_def td_save_def split: sum.splits if_splits)
  have "pos_ok (Some pos)" using session_flow [OF assms(1), of ins] flow_pos assms(2,3) by metis
  then have l: "live sm (tp_ep pos) t" using assms(3-5) by (auto simp: live_def)
  have "exited sm (tp_ep pos) (fold (\<lambda>e. td_work e sm) envs (td_periodic env t))"
    using drain_closes [OF assms(8)] periodic_live [OF assms(3) l assms(7)] assms(6,9) sp by blast
  then show ?thesis by (simp add: exited_def)
qed

text \<open>C23: Positions are well formed between the tasks: after any sequence of signals, tasks,
  periodic checks and recoveries a position is opening or open (a failed exit never leaves
  it closing), and an open one has the entry price its result is computed from.\<close>

theorem trader_positions_ok:
  assumes "td_init sp md guards filters None journal now = Inr t0"
    and "pos_at sm (fold td_do ins t0) = Some pos"
  shows "tp_status pos = Opening \<or> (tp_status pos = Open \<and> tp_entry_px pos \<noteq> None)"
  using flow_pos [OF session_flow [OF assms(1)] assms(2)] by simp

end
