(* ===== verification/Trader_Recover.thy ===== *)
theory Trader_Recover
  imports Trader_Flow
begin

text \<open>
  The restart: when the recovery does not refuse to start, every symbol's ledger agrees with
  the broker's position.  The broker enters through the contract of \<open>Broker_Interface\<close>:
  cancelling an order does not move the position, and positions lie on the grid of eight
  decimals.
\<close>

definition held :: "'b tenv \<Rightarrow> string \<Rightarrow> 'b trader \<Rightarrow> real" where
  "held env s t = p_qty (b_position (te_ops env s) (g_broker (td_guard t s)))"

definition agrees :: "'b tenv \<Rightarrow> string \<Rightarrow> 'b trader \<Rightarrow> bool" where
  "agrees env s t \<longleftrightarrow> (case pos_at s t of
       None \<Rightarrow> held env s t = 0
     | Some pos \<Rightarrow> held env s t \<noteq> 0 \<and> \<bar>held env s t + tp_qty pos\<bar> \<le> 1 / 10 ^ 9
         \<and> tp_status pos = Open \<and> tp_source pos = Recovered \<and> tp_entry_px pos \<noteq> None \<and> tp_exit_req pos = None)"

lemma held_simps [simp]:
  "held env s (td_say x t) = held env s t" "held env s (td_save t) = held env s t"
  "held env s (set_pos s' q t) = held env s t"
  by (simp_all add: held_def td_say_def td_save_def set_pos_def)

lemma guard_simps [simp]:
  "td_guard (td_say x t) = td_guard t" "td_guard (td_save t) = td_guard t" "td_guard (set_pos s q t) = td_guard t"
  "td_guard (set_guard s g t) = (td_guard t)(s := g)"
  by (simp_all add: td_say_def td_save_def set_pos_def set_guard_def)

lemma guard_finalize [simp]: "td_guard (td_finalize env sm px fee why out cid t) = td_guard t"
  by (auto simp: td_finalize_def Let_def split: option.splits)

lemma g_position: "b_position (g_ops env s) g = b_position (te_ops env s) (g_broker g)"
  by (simp add: g_ops_def guard_ops_def)

text \<open>Of \<open>t1\<close> after \<open>t\<close>: other symbols are untouched, this symbol's broker holds the same.\<close>

definition same_held :: "'b tenv \<Rightarrow> ('b \<Rightarrow> bool) \<Rightarrow> string \<Rightarrow> 'b trader \<Rightarrow> 'b trader \<Rightarrow> bool" where
  "same_held env iv s t t1 \<longleftrightarrow> iv (g_broker (td_guard t1 s)) \<and> held env s t1 = held env s t
     \<and> (\<forall>x. x \<noteq> s \<longrightarrow> td_guard t1 x = td_guard t x \<and> pos_at x t1 = pos_at x t)"

lemma orders_held:
  assumes "broker_contract (te_ops env s) iv"
  shows "iv (g_broker (td_guard t s)) \<Longrightarrow>
    same_held env iv s t (snd (recover_orders env foreign s mine ords nts t))
    \<and> pos_at s (snd (recover_orders env foreign s mine ords nts t)) = pos_at s t"
proof (induction ords arbitrary: nts t)
  case Nil
  then show ?case by (simp add: same_held_def)
next
  case (Cons ord ords)
  let ?c = "guard_op s (b_cancel (g_ops env s) (o_client_id ord)) t"
  have c: "iv (g_broker (td_guard (snd ?c) s))" "held env s (snd ?c) = held env s t"
    "\<And>x. x \<noteq> s \<Longrightarrow> td_guard (snd ?c) x = td_guard t x" "\<And>x. pos_at x (snd ?c) = pos_at x t"
    using broker_contract.cancel_inv [OF assms Cons.prems, of "o_client_id ord"]
      broker_contract.cancel_pos [OF assms Cons.prems, of "o_client_id ord"]
    by (simp_all add: guard_op_eq held_def g_ops_def guard_ops_def guard_cancel_def case_prod_beta)
  have step: "same_held env iv s t (snd (recover_orders env foreign s mine ords n (snd ?c)))
      \<and> pos_at s (snd (recover_orders env foreign s mine ords n (snd ?c))) = pos_at s t" for n
    using Cons.IH [OF c(1), of n] c(2-) by (simp add: same_held_def)
  show ?case
    using Cons.IH [OF Cons.prems] Cons.prems step
    by (cases ?c) (auto simp: Let_def same_held_def split: sum.splits)
qed

lemma grid_small: "on_grid 8 (x::real) \<Longrightarrow> \<bar>x\<bar> \<le> 1 / 10 ^ 12 \<Longrightarrow> x = 0"
  using on_grid_ge [of 8 x] on_grid_ge [of 8 "- x"] on_grid_minus [of 8 x]
  by (cases "0 < x"; cases "0 < - x") auto

lemma closed_held:
  "same_held env iv s t (snd (td_recover_closed env s pos t)) = iv (g_broker (td_guard t s))
   \<and> (pos_at s t = Some pos \<longrightarrow> pos_at s (snd (td_recover_closed env s pos t)) = None)"
  by (auto simp: td_recover_closed_def Let_def same_held_def held_def pos_at_finalize closes_def truthy_def)

lemma resume_pos_fields:
  "tp_status (resume_pos env bps bp pos) = Open" "tp_source (resume_pos env bps bp pos) = Recovered"
  "tp_exit_req (resume_pos env bps bp pos) = None" "tp_entry_px (resume_pos env bps bp pos) \<noteq> None"
  "tp_qty (resume_pos env bps bp pos) = tp_qty pos"
  by (auto simp: resume_pos_def Let_def truthy_def)

lemma recover_pos_agrees:
  assumes c: "broker_contract (te_ops env s) iv" and i: "iv (g_broker (td_guard t s))"
    and p: "pos_at s t = Some pos"
    and r: "recover_pos env foreign s (held env s t) pos nts t = (Inr n, t1)"
  shows "same_held env iv s t t1 \<and> agrees env s t1"
proof -
  have g: "on_grid 8 (held env s t)" using broker_contract.pos_grid [OF c i] by (simp add: held_def)
  show ?thesis
  proof (cases "\<bar>held env s t\<bar> < 1 / 10 ^ 12")
    case True
    then have "held env s t = 0" using grid_small [OF g] by simp
    moreover have "t1 = snd (td_recover_closed env s pos t)"
      using r True by (auto simp: recover_pos_def split: if_splits prod.splits)
    ultimately show ?thesis
      using closed_held [of env iv s t pos] i p by (auto simp: agrees_def same_held_def)
  next
    case False
    then have z: "held env s t \<noteq> 0" by auto
    then have "1 / 10 ^ 12 < \<bar>held env s t\<bar>" using grid_small [OF g] by fastforce
    then have q: "\<bar>held env s t + tp_qty pos\<bar> \<le> 1 / 10 ^ 9"
      using r by (auto simp: recover_pos_def split: if_splits)
    let ?p = "resume_pos env (sp_taker_bps (td_spec t)) (b_position (g_ops env s) (td_guard t s)) pos"
    obtain mine ords n' where e: "recover_orders env foreign s mine ords n' (set_pos s (Some ?p) t) = (Inr n, t1)"
      using r False q by (auto simp: recover_pos_def recover_open_def Let_def split: if_splits)
    have "same_held env iv s (set_pos s (Some ?p) t) t1" "pos_at s t1 = Some ?p"
      using orders_held [OF c, of "set_pos s (Some ?p) t" foreign mine ords n'] i by (simp_all add: e)
    then show ?thesis using z q resume_pos_fields [of env "sp_taker_bps (td_spec t)" _ pos]
      by (auto simp: same_held_def agrees_def)
  qed
qed

lemma recover_symbol_agrees:
  assumes c: "broker_contract (te_ops env s) iv" and i: "iv (g_broker (td_guard t s))"
    and r: "recover_symbol env foreign s nts t = (Inr n, t1)"
  shows "same_held env iv s t t1 \<and> agrees env s t1"
proof -
  let ?a = "held env s t"
  have a: "p_qty (b_position (g_ops env s) (td_guard t s)) = ?a" by (simp add: held_def g_position)
  obtain n0 t0 where t0: "t0 = t \<or> t0 = set_pos s None t"
    and r0: "(case pos_at s t0 of Some pos \<Rightarrow> recover_pos env foreign s ?a pos n0 t0
         | None \<Rightarrow> if 1 / 10 ^ 12 < \<bar>?a\<bar> then (Inl (UnknownPosition s ?a), t0) else recover_open env foreign s n0 t0)
       = (Inr n, t1)"
  proof (cases "case pos_at s t of None \<Rightarrow> False | Some pos \<Rightarrow> tp_status pos = Opening \<and> \<bar>?a\<bar> < 1 / 10 ^ 12")
    case True
    show ?thesis
      by (rule that [of "set_pos s None t" "nts @ [EntryAborted s]"])
        (use r True in \<open>simp_all add: recover_symbol_def Let_def a\<close>)
  next
    case False
    show ?thesis by (rule that [of t nts]) (use r False in \<open>simp_all add: recover_symbol_def Let_def a\<close>)
  qed
  have h: "held env s t0 = ?a" "iv (g_broker (td_guard t0 s))"
    "\<And>x. x \<noteq> s \<Longrightarrow> td_guard t0 x = td_guard t x \<and> pos_at x t0 = pos_at x t"
    using t0 i by auto
  have k: "same_held env iv s t t1" if "same_held env iv s t0 t1"
    using that h by (simp add: same_held_def)
  show ?thesis
  proof (cases "pos_at s t0")
    case None
    have g: "on_grid 8 ?a" using broker_contract.pos_grid [OF c i] by (simp add: held_def)
    have "?a = 0" using r0 None grid_small [OF g] by (auto split: if_splits)
    moreover obtain mine ords where "recover_orders env foreign s mine ords n0 t0 = (Inr n, t1)"
      using r0 None by (auto simp: recover_open_def split: if_splits)
    ultimately show ?thesis
      using orders_held [OF c h(2), of foreign mine ords n0] None k h(1) by (auto simp: agrees_def same_held_def)
  next
    case (Some pos)
    then show ?thesis
      using recover_pos_agrees [OF c h(2) Some, of foreign n0 n t1] r0 k by (simp add: h(1))
  qed
qed

lemma recover_all_agrees:
  assumes c: "\<And>s. broker_contract (te_ops env s) (iv s)"
  shows "(\<And>s. iv s (g_broker (td_guard t s))) \<Longrightarrow> recover_all env foreign ss nts t = (Inr n, t1)
    \<Longrightarrow> (\<forall>x\<in>set ss. agrees env x t1) \<and> (\<forall>x. x \<notin> set ss \<longrightarrow> td_guard t1 x = td_guard t x \<and> pos_at x t1 = pos_at x t)"
proof (induction ss arbitrary: nts t)
  case (Cons s ss)
  obtain n0 t0 where r: "recover_symbol env foreign s nts t = (Inr n0, t0)"
    and r1: "recover_all env foreign ss n0 t0 = (Inr n, t1)"
    using Cons.prems(2) by (auto split: prod.splits sum.splits)
  have k: "same_held env (iv s) s t t0" "agrees env s t0"
    using recover_symbol_agrees [OF c Cons.prems(1) r] by auto
  have i: "iv x (g_broker (td_guard t0 x))" for x
    using k(1) Cons.prems(1) by (cases "x = s") (simp_all add: same_held_def)
  note ih = Cons.IH [OF i r1]
  have "agrees env s t1" if "s \<notin> set ss"
  proof -
    have "held env s t1 = held env s t0" "pos_at s t1 = pos_at s t0" using ih that by (simp_all add: held_def)
    then show ?thesis using k(2) by (simp add: agrees_def split: option.splits)
  qed
  then show ?case using ih k(1) by (auto simp: same_held_def)
qed auto

text \<open>The saved file is the state.\<close>

lemma recover_all_saved:
  "recover_all env foreign ss nts t = (Inr n, t1) \<Longrightarrow> td_file t1 = Some (td_state t1)"
  by (induction ss arbitrary: nts t) (auto simp: td_save_def split: prod.splits sum.splits)

text \<open>C20: A restart that does not refuse to start ends in agreement with the broker: for every
  symbol either the ledger has no position and the broker holds none, or the broker holds a
  position that matches the ledger's short quantity, and the ledger's entry is open, marked
  as recovered, has an entry price and no stale exit request; and the state is saved.\<close>

theorem trader_recover_agrees:
  assumes "\<And>s. broker_contract (te_ops env s) (iv s)" and "\<And>s. iv s (g_broker (td_guard t s))"
    and "td_recover env foreign t = (Inr nts, t1)" and "s \<in> set (sp_symbols (td_spec t))"
  shows "(case pos_at s t1 of
      None \<Rightarrow> p_qty (b_position (te_ops env s) (g_broker (td_guard t1 s))) = 0
    | Some pos \<Rightarrow> p_qty (b_position (te_ops env s) (g_broker (td_guard t1 s))) \<noteq> 0
        \<and> \<bar>p_qty (b_position (te_ops env s) (g_broker (td_guard t1 s))) + tp_qty pos\<bar> \<le> 1 / 10 ^ 9
        \<and> tp_status pos = Open \<and> tp_source pos = Recovered \<and> tp_entry_px pos \<noteq> None \<and> tp_exit_req pos = None)
    \<and> td_file t1 = Some (td_state t1)"
  using recover_all_agrees [of env iv, OF assms(1) assms(2), of foreign "sp_symbols (td_spec t)" "[]" nts t1]
    recover_all_saved assms(3,4)
  unfolding td_recover_def agrees_def held_def by blast

end
