(* ===== verification/Trader_Examples.thy ===== *)
theory Trader_Examples
  imports Trader_Recover
begin

text \<open>A worked session of the trader: one signal entered, its exit requested, and a restart.\<close>

lemma guard_simps2 [simp]:
  "td_guard (td_submit s k t) = td_guard t" "td_guard (td_signal s ep ss t) = td_guard t"
  "td_guard (td_alert_once key a t) = td_guard t" "td_guard (accept_entry sg q t) = td_guard t"
  by (simp_all add: td_submit_def td_signal_def td_alert_once_def accept_entry_def td_say_def td_save_def
      set_pos_def Let_def)

lemma skip_reason_guard: "\<not> te_kill env \<Longrightarrow> skip_reason env sg t = (r, t1) \<Longrightarrow> td_guard t1 = td_guard t"
  by (auto simp: skip_reason_def Let_def guard_op_eq guard_can_enter_def guard_check_kill_def split: if_splits)

lemma on_entry_guard: "\<not> te_kill env \<Longrightarrow> td_guard (td_on_entry env sg t) = td_guard t"
  by (auto simp: td_on_entry_def Let_def split: option.splits prod.splits size_outcome.splits dest: skip_reason_guard)

text \<open>A filled entry leaves an open position.\<close>

lemma do_entry_open:
  assumes p: "pos_at sm t = Some pos" "tp_ep pos = ep" "tp_status pos = Opening"
    and m: "entry_market env sm pos t = (Inr ord, t1)" "o_status ord = FILLED"
  shows "\<exists>pos'. pos_at sm (td_do_entry env sm ep t) = Some pos' \<and> tp_status pos' = Open \<and> tp_ep pos' = ep
    \<and> tp_source pos' = tp_source pos \<and> tp_exit_req pos' = tp_exit_req pos \<and> tp_retry_at pos' = tp_retry_at pos"
proof -
  have p1: "pos_at sm t1 = Some pos"
    using m(1) p(1) by (auto simp: entry_market_def Let_def guard_op_eq split: if_splits)
  have "td_do_entry env sm ep t = entry_filled env sm ep ord (fills_of env sm (tp_entry_cid pos) t1) t1"
    using p m by (simp add: td_do_entry_def Let_def)
  then show ?thesis
    using p p1 by (auto simp: entry_filled_def Let_def guard_op_eq split: prod.splits sum.splits)
qed

definition filled_order :: "side \<Rightarrow> real \<Rightarrow> string \<Rightarrow> order" where
  "filled_order sd q cid = (new_order cid ''ETHUSDT'' sd MARKET q)
     \<lparr>o_status := FILLED, o_filled_qty := q, o_avg_price := 2400\<rparr>"

definition filling_ops :: "unit broker_ops" where
  "filling_ops = idle_ops\<lparr>b_place_market := (\<lambda>sd q cid ro b. (Inr (filled_order sd q cid), b))\<rparr>"

definition filling_env :: "unit tenv" where
  "filling_env = example_env\<lparr>te_ops := (\<lambda>_. filling_ops)\<rparr>"

lemma filling_executes: "executes (te_ops filling_env s)"
  by (simp add: executes_def filling_env_def filling_ops_def closing_answer_def filled_order_def)

text \<open>After the first signal and its entry task.\<close>

lemma example_entered:
  assumes "td_init example_spec Paper (\<lambda>_. idle_guard) example_filters None [] 0 = Inr t0"
    and "t = fold td_do [InEntry example_env example_signal, InWork filling_env ''ETHUSDT''] t0"
  shows "\<exists>pos. pos_at ''ETHUSDT'' t = Some pos \<and> tp_status pos = Open \<and> tp_ep pos = epoch_sig example_signal
    \<and> tp_source pos = FromEngine \<and> tp_exit_req pos = None \<and> tp_retry_at pos = 0"
proof -
  have i: "td_state t0 = start_state example_spec 0 (fresh_trader_state Paper example_spec 0)"
    "td_spec t0 = example_spec" "td_filters t0 = example_filters" "td_guard t0 = (\<lambda>_. idle_guard)" "td_queue t0 = []"
    by (rule example_start; use assms(1) in simp)+
  let ?t = "td_on_entry example_env example_signal t0"
  have sg: "sg_symbol example_signal = ''ETHUSDT''" by (simp add: example_signal_def)
  have e: "td_queue ?t = [(''ETHUSDT'', DoEntry (epoch_sig example_signal))]"
    "pos_at ''ETHUSDT'' ?t = Some (new_tpos example_signal (33 / 1000) t0)"
    using entry_gate [of example_env example_signal t0] example_accepts [OF i(1-4)] i(5) by (simp_all add: sg)
  have g: "td_guard ?t = (\<lambda>_. idle_guard)"
    using on_entry_guard [of example_env example_signal t0] i(4) by (simp add: example_env_def)
  let ?q = "?t\<lparr>td_queue := []\<rparr>" and ?pos = "new_tpos example_signal (33 / 1000) t0"
  have q: "tp_qty ?pos = 33 / 1000" "tp_ep ?pos = epoch_sig example_signal" "tp_status ?pos = Opening"
    "tp_source ?pos = FromEngine" "tp_exit_req ?pos = None" "tp_retry_at ?pos = 0"
    by (simp_all add: new_tpos_def)
  have r: "guard_pre_trade c False filling_ops SELL (33 / 1000) False idle_guard = (Inr (), idle_guard)" for c
    by (simp add: guard_pre_trade_def guard_check_kill_def guard_reduces_def guard_pending_def filling_ops_def
        idle_ops_def flat_position_def idle_guard_def guard_init_def fresh_risk_def Let_def)
  have o: "g_ops filling_env s = guard_ops 1728003600000000 False filling_ops" for s
    by (simp add: g_ops_def filling_env_def example_env_def)
  have z: "p_qty (b_position (guard_ops c False filling_ops) gd) = 0" for c gd
    by (simp add: guard_ops_def filling_ops_def idle_ops_def flat_position_def)
  have zz: "p_qty (b_position filling_ops b) = 0" for b
    by (simp add: filling_ops_def idle_ops_def flat_position_def)
  have pm: "b_place_market (guard_ops c False filling_ops) = guard_place_market c False filling_ops" for c
    by (simp add: guard_ops_def)
  have f: "b_place_market filling_ops SELL x cid False y = (Inr (filled_order SELL x cid), y)" for x cid y
    by (simp add: filling_ops_def)
  obtain t1 where m: "entry_market filling_env ''ETHUSDT'' ?pos ?q
      = (Inr (filled_order SELL (33 / 1000) (tp_entry_cid ?pos)), t1)"
    using zz by (simp add: entry_market_def Let_def o z pm guard_op_eq g q(1) guard_place_market_def r guarded_def f)
  have p: "pos_at ''ETHUSDT'' ?q = Some ?pos" using e(2) by simp
  have "t = td_do_entry filling_env ''ETHUSDT'' (epoch_sig example_signal) ?q"
    using e(1) by (simp add: assms(2) td_work_def td_run_def)
  then show ?thesis
    using do_entry_open [OF p q(2,3) m] q by (auto simp: filled_order_def)
qed

theorem trader_positions_ok_witness:
  "\<exists>t0 pos. td_init example_spec Paper (\<lambda>_. idle_guard) example_filters None [] 0 = Inr t0
     \<and> pos_at ''ETHUSDT'' (fold td_do [InEntry example_env example_signal, InWork filling_env ''ETHUSDT''] t0) = Some pos
     \<and> (tp_status pos = Opening \<or> (tp_status pos = Open \<and> tp_entry_px pos \<noteq> None))"
proof -
  obtain t0 where t: "td_init example_spec Paper (\<lambda>_. idle_guard) example_filters None [] 0 = Inr t0"
    by (rule example_start)
  obtain pos where "pos_at ''ETHUSDT'' (fold td_do [InEntry example_env example_signal, InWork filling_env ''ETHUSDT''] t0)
      = Some pos"
    using example_entered [OF t] by blast
  then show ?thesis using trader_positions_ok [OF t] t by blast
qed

text \<open>The engine's exit of that signal.\<close>

definition example_exit :: exit_signal where
  "example_exit = \<lparr>xs_symbol = ''ETHUSDT'', xs_day = 20000, xs_trade =
     \<lparr>tr_logic = Logic1, tr_side = - 1, tr_t_sig = 3600, tr_t_in = 3600, tr_p_in = 2400, tr_t_out = 3700,
      tr_p_out = 2390, tr_reason = TakeProfit, tr_feat = sg_feat example_signal, tr_pnl_bp = 40, tr_net_bp = 40,
      tr_version = []\<rparr>\<rparr>"

definition example_session :: "unit td_input list" where
  "example_session = [InEntry example_env example_signal, InWork filling_env ''ETHUSDT'',
     InExit filling_env example_exit]"

lemma example_requested:
  assumes "td_init example_spec Paper (\<lambda>_. idle_guard) example_filters None [] 0 = Inr t0"
    and "t = fold td_do example_session t0"
  shows "\<exists>pos. pos_at ''ETHUSDT'' t = Some pos \<and> tp_status pos = Open \<and> tp_exit_req pos \<noteq> None \<and> tp_retry_at pos = 0"
proof -
  let ?t = "fold td_do [InEntry example_env example_signal, InWork filling_env ''ETHUSDT''] t0"
  obtain pos where p: "pos_at ''ETHUSDT'' ?t = Some pos" "tp_status pos = Open"
    "tp_ep pos = 20000 * day_len + 3600" "tp_source pos = FromEngine" "tp_retry_at pos = 0"
    using example_entered [OF assms(1)] by (auto simp: epoch_sig_def example_signal_def)
  have "t = td_on_exit filling_env example_exit ?t" by (simp add: assms(2) example_session_def)
  then show ?thesis using p by (auto simp: td_on_exit_def Let_def example_exit_def)
qed

theorem trader_exit_completes_witness:
  "\<exists>t0 pos (t' :: unit trader). td_init example_spec Paper (\<lambda>_. idle_guard) example_filters None [] 0 = Inr t0
     \<and> pos_at ''ETHUSDT'' (fold td_do example_session t0) = Some pos
     \<and> pos_at ''ETHUSDT'' t' = None \<and> traded ''ETHUSDT'' (tp_ep pos) t'"
proof -
  obtain t0 where t: "td_init example_spec Paper (\<lambda>_. idle_guard) example_filters None [] 0 = Inr t0"
    by (rule example_start)
  let ?t = "fold td_do example_session t0"
  obtain pos where p: "pos_at ''ETHUSDT'' ?t = Some pos" "tp_status pos = Open" "tp_exit_req pos \<noteq> None" "tp_retry_at pos = 0"
    using example_requested [OF t] by blast
  let ?envs = "replicate (length (tasks_of ''ETHUSDT'' (td_periodic filling_env ?t))) filling_env"
  have "''ETHUSDT'' \<in> set (sp_symbols example_spec)" by (simp add: example_fields)
  moreover have "tp_retry_at pos \<le> te_now filling_env" by (simp add: p(4) filling_env_def example_env_def)
  moreover have "list_all (\<lambda>e. executes (te_ops e ''ETHUSDT'')) ?envs"
    by (simp add: list_all_iff filling_executes)
  moreover have "length (tasks_of ''ETHUSDT'' (td_periodic filling_env ?t)) \<le> length ?envs"
    by (simp only: length_replicate)
  ultimately have "let t' = fold (\<lambda>e. td_work e ''ETHUSDT'') ?envs (td_periodic filling_env ?t)
      in pos_at ''ETHUSDT'' t' = None \<and> traded ''ETHUSDT'' (tp_ep pos) t'"
    by (rule trader_exit_completes [OF t refl p(1-3)])
  then show ?thesis using t p(1) unfolding Let_def by blast
qed

text \<open>A restart on the simulated exchange.\<close>

definition paper_guard :: "string \<Rightarrow> paper guard" where
  "paper_guard s = guard_init (paper_init s example_fees) (g_limits idle_guard) None"

definition paper_env :: "paper tenv" where
  "paper_env = \<lparr>te_now = 0, te_clock = 0, te_kill = False, te_quote = (\<lambda>_. None), te_gate = (\<lambda>_ _. None),
     te_wallet = None, te_resume = None, te_ops = (\<lambda>_. paper_ops 0 example_view)\<rparr>"

theorem trader_recover_agrees_witness:
  "\<exists>t0 nts t1. td_init example_spec Paper paper_guard example_filters None [] 0 = Inr t0
     \<and> td_recover paper_env True t0 = (Inr nts, t1)
     \<and> pos_at ''ETHUSDT'' t1 = None \<and> p_qty (b_position (te_ops paper_env ''ETHUSDT'') (g_broker (td_guard t1 ''ETHUSDT''))) = 0"
proof -
  obtain p where p: "spec_params example_spec = Inr p" "pm_hold p = 300"
    by (auto simp: example_spec_def spec_params_def param_fields_def Let_def)
  have m: "maker_exit_s example_spec = Inr (Some 5)" by (simp add: maker_exit_s_def p example_fields)
  have v: "ts_version (fresh_trader_state Paper example_spec 0) = sp_version example_spec"
    by (simp add: fresh_trader_state_def)
  obtain t0 where i: "td_init example_spec Paper paper_guard example_filters None [] 0 = Inr t0"
    by (simp add: td_init_def p m Let_def v)
  then have t0: "td_guard t0 = paper_guard" "td_spec t0 = example_spec"
    "ts_positions (td_state t0) = [(''BTCUSDT'', None), (''ETHUSDT'', None)]"
    by (auto simp: td_init_def p m Let_def v td_save_def start_state_def example_fields fresh_trader_state_def)
  have s: "recover_symbol paper_env True s nts t0 = (Inr nts, t0)" if "s \<in> {''BTCUSDT'', ''ETHUSDT''}" for s nts
  proof -
    have "pos_at s t0 = None" using that t0(3) by (auto simp: pos_at_def)
    then show ?thesis
      by (simp add: recover_symbol_def recover_open_def g_ops_def guard_ops_def paper_env_def t0(1) paper_guard_def
          guard_init_def paper_init_def flat_position_def paper_open_orders_def Let_def)
  qed
  have r: "td_recover paper_env True t0 = (Inr [], td_save t0)"
    by (simp add: td_recover_def t0(2) example_fields s)
  have c: "broker_contract (te_ops paper_env s) paper_inv" for s
    unfolding paper_env_def by simp (rule paper_broker.broker_contract_axioms)
  have inv: "paper_inv (g_broker (td_guard t0 s))" for s
    using session_inv [of "[]" s example_fees] by (simp add: t0(1) paper_guard_def guard_init_def)
  have "pos_at ''ETHUSDT'' (td_save t0) = None" unfolding pos_at_simps by (simp add: pos_at_def t0(3))
  then show ?thesis
    using trader_recover_agrees [of paper_env "\<lambda>_. paper_inv" t0 True "[]" "td_save t0" "''ETHUSDT''", OF c inv r] i r
    by (auto simp: t0(2) example_fields)
qed

subsection \<open>A partly filled maker exit\<close>

lemma finalize_logs:
  assumes "pos_at sm t = Some pos" "tp_entry_px pos = Some epx"
  shows "TTrade (trade_of env sm pos epx px fee why out cid) \<in> set (td_log (td_finalize env sm px fee why out cid t))"
  using assms by (auto simp: td_finalize_def Let_def td_say_def)

text \<open>A partly filled maker exit can lose the rest of the position: once the maker order has
  any fill, the answer to the market order for the rest is not looked at.  Rejected,
  expired or unfilled alike, the position is removed from the ledger and its result is
  booked for the full quantity at the maker order's average price.\<close>

theorem trader_partial_maker:
  assumes "pos_at sm t = Some pos" and "tp_entry_px pos = Some epx" and "mf \<noteq> []" and "round8 (sum_qty mf) \<noteq> 0"
    and "fills_of env sm cid t = []" and "o_filled_qty ord = 0"
  shows "let t' = exit_placed env sm pos rq cid mf ord t in pos_at sm t' = None
    \<and> (\<exists>tr. TTrade tr \<in> set (td_log t') \<and> tx_qty tr = tp_qty pos
          \<and> tx_exit_px tr = sum_amount mf / round8 (sum_qty mf))"
proof -
  let ?px = "sum_amount mf / round8 (sum_qty mf)" and ?c = "td_cancel_stop env sm t"
  let ?t = "\<lambda>fee. td_finalize env sm ?px fee (PartMaker (rq_why rq)) (rq_assumed_out rq) cid ?c"
  obtain fee where e: "exit_placed env sm pos rq cid mf ord t = ?t fee"
    using assms(3,5,6) by (simp add: exit_placed_def Let_def exec_of_def sum_qty_def)
  have p: "pos_at sm ?c = Some pos" using assms(1) by simp
  have "pos_at sm (?t fee) = None" using p assms(2) by (simp add: pos_at_finalize closes_def)
  moreover have "tx_qty (trade_of env sm pos epx ?px fee why out cid) = tp_qty pos"
    "tx_exit_px (trade_of env sm pos epx ?px fee why out cid) = ?px" for why out
    by (simp_all add: trade_of_def Let_def)
  ultimately show ?thesis using finalize_logs [OF p assms(2)] unfolding e Let_def by blast
qed

definition maker_fill :: fill where
  "maker_fill = \<lparr>f_client_id = ''m'', f_ts = 0, f_side = BUY, f_qty = 1 / 100, f_price = 2390, f_fee = 0,
     f_liquidity = MAKER\<rparr>"

theorem trader_partial_maker_witness:
  "\<exists>t0 pos (t' :: unit trader). pos_at ''ETHUSDT'' (fold td_do example_session t0) = Some pos
     \<and> t' = exit_placed filling_env ''ETHUSDT'' pos \<lparr>rq_why = FiveMinBackup, rq_assumed_out = None, rq_t_out = 0\<rparr> ''x''
         [maker_fill] ((filled_order BUY 1 ''x'')\<lparr>o_status := REJECTED, o_filled_qty := 0\<rparr>)
         (fold td_do example_session t0)
     \<and> pos_at ''ETHUSDT'' t' = None"
proof -
  obtain t0 where t: "td_init example_spec Paper (\<lambda>_. idle_guard) example_filters None [] 0 = Inr t0"
    by (rule example_start)
  let ?t = "fold td_do example_session t0"
  obtain pos where p: "pos_at ''ETHUSDT'' ?t = Some pos" "tp_status pos = Open"
    using example_requested [OF t] by blast
  then obtain epx where e: "tp_entry_px pos = Some epx"
    using flow_pos [OF session_flow [OF t, of example_session] p(1)] by auto
  have f: "fills_of filling_env ''ETHUSDT'' ''x'' ?t = []"
    by (simp add: fills_of_def g_ops_def guard_ops_def filling_env_def filling_ops_def idle_ops_def)
  show ?thesis
    using trader_partial_maker [OF p(1) e _ _ f, of "[maker_fill]" "(filled_order BUY 1 ''x'')\<lparr>o_status := REJECTED, o_filled_qty := 0\<rparr>"
        "\<lparr>rq_why = FiveMinBackup, rq_assumed_out = None, rq_t_out = 0\<rparr>"] p(1)
    by (auto simp: sum_qty_def maker_fill_def Let_def round_dec_def py_round_def)
qed

end
