(* ===== verification/Runner.thy ===== *)
theory Runner
  imports Trader Market_Data Book_Sync
begin

text \<open>
  The running process of \<open>strategies/pastofi_crypto/runner.py\<close>: the data-quality state
  (\<open>Health\<close>), the sink that splits the collector's records into views, feeds and health
  (\<open>StrategySink\<close>), the data gate, the clock loop that decides each second, the watchdog, the
  exchange check of live mode, and the assembly with its refusals.  Records that reach the
  sink are \<open>sink_rec\<close>s; \<open>world\<close> is what a step reads from outside (the wall clock, the
  kill-switch file, the resume file, the broker operations).  The feeds' callbacks go to the
  trader at once, as in the code.
\<close>

subsection \<open>Data quality\<close>

datatype stream = DepthStream | TradeStream

datatype gap_why = DepthGap | TradeGap | TradeReconnected | DepthDown | TradeDown

datatype health_event = GapStart gap_why | GapEnd real | PointGap gap_why

record health =
  he_gaps :: "string \<Rightarrow> (real \<times> real) list"
  he_open :: "string \<Rightarrow> real option"
  he_depth_lat :: "string \<Rightarrow> real option"
  he_trade_lat :: "string \<Rightarrow> real option"
  he_last_depth :: "string \<Rightarrow> real option"
  he_last_trade :: "string \<Rightarrow> real option"
  he_connected :: "stream \<Rightarrow> bool"
  he_down_since :: "stream \<Rightarrow> real option"
  he_last_msg :: "stream \<Rightarrow> real"
  he_events :: "(real \<times> string \<times> health_event) list"

text \<open>The start of the process counts as a gap.\<close>

definition health_init :: "real \<Rightarrow> health" where
  "health_init now =
     \<lparr>he_gaps = (\<lambda>_. [(0, now)]), he_open = (\<lambda>_. None), he_depth_lat = (\<lambda>_. None), he_trade_lat = (\<lambda>_. None),
      he_last_depth = (\<lambda>_. None), he_last_trade = (\<lambda>_. None), he_connected = (\<lambda>_. False),
      he_down_since = (\<lambda>_. Some now), he_last_msg = (\<lambda>_. now), he_events = []\<rparr>"

definition keep_last :: "nat \<Rightarrow> 'a list \<Rightarrow> 'a list" where
  "keep_last n xs = drop (length xs - n) xs"

definition start_gap :: "string \<Rightarrow> real \<Rightarrow> gap_why \<Rightarrow> health \<Rightarrow> health" where
  "start_gap sm t why h =
     (if he_open h sm = None
      then h\<lparr>he_open := (he_open h)(sm := Some t), he_events := he_events h @ [(t, sm, GapStart why)]\<rparr>
      else h)"

definition end_gap :: "string \<Rightarrow> real \<Rightarrow> health \<Rightarrow> health" where
  "end_gap sm t h =
     (let h1 = (case he_open h sm of
            None \<Rightarrow> h
          | Some s \<Rightarrow> h\<lparr>he_gaps := (he_gaps h)(sm := keep_last 50 (he_gaps h sm @ [(s, t)])),
                        he_open := (he_open h)(sm := None), he_events := he_events h @ [(t, sm, GapEnd (t - s))]\<rparr>)
      in h1\<lparr>he_events := keep_last 200 (he_events h1)\<rparr>)"

definition point_gap :: "string \<Rightarrow> real \<Rightarrow> gap_why \<Rightarrow> health \<Rightarrow> health" where
  "point_gap sm t why h =
     h\<lparr>he_gaps := (he_gaps h)(sm := he_gaps h sm @ [(t, t)]), he_events := he_events h @ [(t, sm, PointGap why)]\<rparr>"

definition last_gap_end :: "string \<Rightarrow> health \<Rightarrow> real" where
  "last_gap_end sm h = (if he_gaps h sm = [] then 0 else Max (set (map snd (he_gaps h sm))))"

subsection \<open>The process\<close>

record limits =
  lm_delay :: real
  lm_max_lag :: real
  lm_max_clock_ms :: real
  lm_gap_window :: real
  lm_max_silence :: real
  lm_max_depth_ms :: real
  lm_max_trade_ms :: real
  lm_outage :: real

datatype ledger_warn = PositionDiffers string real real | WalletDiffers real real

datatype app_out = OutageAlert stream real | BackAlert stream | LedgerAlert "ledger_warn list" | TrialSummary

record 'b app =
  ap_spec :: spec
  ap_mode :: trade_mode
  ap_trader :: "'b trader"
  ap_views :: "(string \<times> live_view) list"
  ap_feeds :: "(string \<times> feed) list"
  ap_health :: health
  ap_limits :: limits
  ap_offset_s :: real
  ap_offset_ms :: "real option"
  ap_lag :: real
  ap_last :: int
  ap_collector :: "collector option"
  ap_wallet :: "real option"
  ap_wallet_start :: "real option"
  ap_ex :: "(string \<times> (real \<times> real)) list option"
  ap_warn :: "ledger_warn list"
  ap_outage :: "stream \<Rightarrow> bool"
  ap_pending :: "int list"
  ap_reconciling :: bool
  ap_trial_sent :: bool
  ap_out :: "app_out list"

record 'b world =
  w_time :: real
  w_kill :: bool
  w_resume :: "resume_request option"
  w_ops :: "string \<Rightarrow> 'b broker_ops"

definition ex_now :: "'b world \<Rightarrow> 'b app \<Rightarrow> real" where
  "ex_now w a = w_time w - ap_offset_s a"

definition feeds_synced :: "string \<Rightarrow> 'b app \<Rightarrow> bool" where
  "feeds_synced sm a =
     (case ap_collector a of
        None \<Rightarrow> True
      | Some c \<Rightarrow> (case map_of (co_syncs c) sm of None \<Rightarrow> False | Some b \<Rightarrow> synced b \<and> book_ready (sy_book b)))"

definition app_quote :: "'b app \<Rightarrow> string \<Rightarrow> (real \<times> real) option" where
  "app_quote a sm =
     (case map_of (ap_views a) sm of
        None \<Rightarrow> None
      | Some v \<Rightarrow> (case lv_get_book v of
            Inl _ \<Rightarrow> None
          | Inr b \<Rightarrow> if bids b = [] \<or> asks b = [] then None else Some (best_bid b, best_ask b)))"

subsection \<open>The data gate\<close>

datatype gate_why =
    DecisionLag real | NoOffset | ClockOff real | DataGap | WindowGap real | DepthSilent
  | DepthLate real | TradeLate real | TradeDisconnected

definition or_zero :: "real option \<Rightarrow> real" where
  "or_zero x = (case x of Some y \<Rightarrow> y | None \<Rightarrow> 0)"

definition app_gate :: "'b world \<Rightarrow> 'b app \<Rightarrow> string \<Rightarrow> signal \<Rightarrow> gate_why option" where
  "app_gate w a sm sg =
     (let l = ap_limits a; h = ap_health a; T = of_int (epoch_sig sg)
      in if lm_max_lag l < ap_lag a then Some (DecisionLag (ap_lag a))
         else case ap_offset_ms a of
                None \<Rightarrow> Some NoOffset
              | Some ms \<Rightarrow>
                  if lm_max_clock_ms l < \<bar>ms\<bar> then Some (ClockOff ms)
                  else if \<not> feeds_synced sm a \<or> he_open h sm \<noteq> None then Some DataGap
                  else if T - lm_gap_window l < last_gap_end sm h then Some (WindowGap (last_gap_end sm h))
                  else if (case he_last_depth h sm of None \<Rightarrow> True | Some d \<Rightarrow> lm_max_silence l < ex_now w a - d)
                  then Some DepthSilent
                  else if lm_max_depth_ms l < or_zero (he_depth_lat h sm) then Some (DepthLate (or_zero (he_depth_lat h sm)))
                  else if lm_max_trade_ms l < or_zero (he_trade_lat h sm) then Some (TradeLate (or_zero (he_trade_lat h sm)))
                  else if \<not> he_connected h TradeStream then Some TradeDisconnected
                  else None)"

text \<open>What the trader sees of the process; \<open>gate_text\<close> names the text of a gate.\<close>

fun gate_text :: "gate_why \<Rightarrow> string" where
  "gate_text (DecisionLag x) = ''lag''"
| "gate_text NoOffset = ''no offset''"
| "gate_text (ClockOff x) = ''clock''"
| "gate_text DataGap = ''gap''"
| "gate_text (WindowGap x) = ''window''"
| "gate_text DepthSilent = ''silent''"
| "gate_text (DepthLate x) = ''depth''"
| "gate_text (TradeLate x) = ''trade''"
| "gate_text TradeDisconnected = ''down''"

definition app_env :: "'b world \<Rightarrow> 'b app \<Rightarrow> 'b tenv" where
  "app_env w a =
     \<lparr>te_now = w_time w, te_clock = to_clock (w_time w), te_kill = w_kill w, te_quote = app_quote a,
      te_gate = (\<lambda>sm sg. map_option gate_text (app_gate w a sm sg)), te_wallet = ap_wallet a,
      te_resume = w_resume w, te_ops = w_ops w\<rparr>"

subsection \<open>Feeds to the trader\<close>

fun app_dispatch :: "'b world \<Rightarrow> feed_out list \<Rightarrow> 'b app \<Rightarrow> 'b app" where
  "app_dispatch w [] a = a"
| "app_dispatch w (OutEntry sg # xs) a =
     app_dispatch w xs (a\<lparr>ap_trader := td_on_entry (app_env w a) sg (ap_trader a)\<rparr>)"
| "app_dispatch w (OutExit x # xs) a =
     app_dispatch w xs (a\<lparr>ap_trader := td_on_exit (app_env w a) x (ap_trader a)\<rparr>)"

text \<open>One operation of a symbol's feed, with the callbacks it makes.\<close>

definition app_feed :: "'b world \<Rightarrow> string \<Rightarrow> (feed \<Rightarrow> feed) \<Rightarrow> 'b app \<Rightarrow> 'b app" where
  "app_feed w sm f a =
     (case map_of (ap_feeds a) sm of
        None \<Rightarrow> a
      | Some fd \<Rightarrow>
          (let fd' = f fd
           in app_dispatch w (drop (length (fd_out fd)) (fd_out fd'))
                (a\<lparr>ap_feeds := AList.update sm fd' (ap_feeds a)\<rparr>)))"

subsection \<open>The sink\<close>

datatype sink_rec =
    SBook string "int option" ws_book
  | STrade string "int option" "int option" ws_trade
  | SDepth "int option"
  | SGap string "int option" stream
  | SConn stream bool "int option"

definition rec_now :: "'b world \<Rightarrow> int option \<Rightarrow> 'b app \<Rightarrow> real" where
  "rec_now w recv a =
     (case recv of Some r \<Rightarrow> if r = 0 then ex_now w a else of_int r / 1000 - ap_offset_s a | None \<Rightarrow> ex_now w a)"

definition latency :: "real \<Rightarrow> int option \<Rightarrow> real option" where
  "latency now E = (case E of Some e \<Rightarrow> if e = 0 then None else Some ((now - of_int e / 1000) * 1000) | None \<Rightarrow> None)"

definition on_view :: "string \<Rightarrow> (live_view \<Rightarrow> live_view) \<Rightarrow> 'b app \<Rightarrow> 'b app" where
  "on_view sm f a =
     (case map_of (ap_views a) sm of None \<Rightarrow> a | Some v \<Rightarrow> a\<lparr>ap_views := AList.update sm (f v) (ap_views a)\<rparr>)"

definition on_health :: "(health \<Rightarrow> health) \<Rightarrow> 'b app \<Rightarrow> 'b app" where
  "on_health f a = a\<lparr>ap_health := f (ap_health a)\<rparr>"

text \<open>The health updates of the two kinds of market records.\<close>

definition seen_book :: "string \<Rightarrow> real \<Rightarrow> int option \<Rightarrow> bool \<Rightarrow> health \<Rightarrow> health" where
  "seen_book sm now E in_sync h =
     (let h1 = h\<lparr>he_depth_lat := (he_depth_lat h)(sm := latency now E),
                 he_last_depth := (he_last_depth h)(sm := Some now),
                 he_last_msg := (he_last_msg h)(DepthStream := now)\<rparr>
      in if he_open h1 sm \<noteq> None \<and> in_sync then end_gap sm now h1 else h1)"

definition seen_trade :: "string \<Rightarrow> real \<Rightarrow> int option \<Rightarrow> health \<Rightarrow> health" where
  "seen_trade sm now E h =
     h\<lparr>he_trade_lat := (he_trade_lat h)(sm := latency now E), he_last_trade := (he_last_trade h)(sm := Some now),
       he_last_msg := (he_last_msg h)(TradeStream := now)\<rparr>"

definition conn_up :: "stream \<Rightarrow> real \<Rightarrow> string list \<Rightarrow> health \<Rightarrow> health" where
  "conn_up st now syms h =
     (let h1 = h\<lparr>he_connected := (he_connected h)(st := True), he_down_since := (he_down_since h)(st := None)\<rparr>
      in if st = TradeStream then fold (\<lambda>s. point_gap s now TradeReconnected) syms h1 else h1)"

definition conn_down :: "stream \<Rightarrow> real \<Rightarrow> string list \<Rightarrow> health \<Rightarrow> health" where
  "conn_down st now syms h =
     (let since = (case he_down_since h st of Some t \<Rightarrow> if t = 0 then now else t | None \<Rightarrow> now);
          h1 = h\<lparr>he_connected := (he_connected h)(st := False), he_down_since := (he_down_since h)(st := Some since)\<rparr>
      in fold (\<lambda>s. if st = DepthStream then start_gap s now DepthDown else point_gap s now TradeDown) syms h1)"

fun sink_write :: "'b world \<Rightarrow> sink_rec \<Rightarrow> 'b app \<Rightarrow> 'b app" where
  "sink_write w (SBook sm recv r) a =
     (let now = rec_now w recv a; a1 = on_view sm (lv_on_book_top r) a
      in if wb_bids r = [] \<or> wb_asks r = [] then a1
         else
           (case map_of (ap_feeds a1) sm of
              None \<Rightarrow> a1
            | Some fd \<Rightarrow>
                (let f = feed_on_book_top (wb_T r) (wb_E r) (hd (wb_bids r)) (hd (wb_asks r));
                     a2 = app_feed w sm (\<lambda>fd. snd (f fd)) a1
                 in case fst (f fd) of
                      Inl _ \<Rightarrow> a2
                    | Inr _ \<Rightarrow> on_health (seen_book sm now (Some (wb_E r)) (feeds_synced sm a2)) a2)))"
| "sink_write w (STrade sm recv E t) a =
     (let now = rec_now w recv a
      in if map_of (ap_views a) sm = None then a
         else on_health (seen_trade sm now E)
                (app_feed w sm (feed_on_trade_raw (wt_T t) (wt_q t) (wt_m t)) (on_view sm (lv_on_trade t) a)))"
| "sink_write w (SDepth recv) a =
     on_health (\<lambda>h. h\<lparr>he_last_msg := (he_last_msg h)(DepthStream := rec_now w recv a)\<rparr>) a"
| "sink_write w (SGap sm recv st) a =
     (let now = rec_now w recv a
      in on_health (if st = DepthStream then start_gap sm now DepthGap else point_gap sm now TradeGap) a)"
| "sink_write w (SConn st up recv) a =
     (let now = rec_now w recv a; syms = sp_symbols (ap_spec a)
      in on_health (if up then conn_up st now syms else conn_down st now syms) a)"

subsection \<open>The clock loop\<close>

definition app_second :: "'b world \<Rightarrow> real \<Rightarrow> int \<Rightarrow> 'b app \<Rightarrow> 'b app" where
  "app_second w now s a =
     (let day = s div day_len; T = s mod day_len;
          a1 = a\<lparr>ap_last := s, ap_lag := now - (of_int s + lm_delay (ap_limits a))\<rparr>;
          a2 = fold (\<lambda>sm. app_feed w sm (feed_tick day T)) (map fst (ap_feeds a1)) a1
      in if T = day_len - 1
         then (let a3 = fold (\<lambda>sm. app_feed w sm (feed_finish_day day)) (map fst (ap_feeds a2)) a2
               in a3\<lparr>ap_pending := List.insert day (ap_pending a3)\<rparr>)
         else a2)"

definition clock_turn :: "'b world \<Rightarrow> 'b app \<Rightarrow> 'b app" where
  "clock_turn w a =
     (let now = ex_now w a; target = \<lfloor>now - lm_delay (ap_limits a)\<rfloor>;
          a1 = fold (app_second w now) [ap_last a + 1 .. target] a
      in a1\<lparr>ap_trader := td_periodic (app_env w a1) (ap_trader a1)\<rparr>)"

definition app_say :: "app_out \<Rightarrow> 'b app \<Rightarrow> 'b app" where
  "app_say x a = a\<lparr>ap_out := ap_out a @ [x]\<rparr>"

text \<open>How long a stream has been silent; for trades only the time disconnected counts.\<close>

definition silent_for :: "real \<Rightarrow> stream \<Rightarrow> health \<Rightarrow> real" where
  "silent_for now st h =
     (case st of
        DepthStream \<Rightarrow> now - he_last_msg h DepthStream
      | TradeStream \<Rightarrow> (case he_down_since h TradeStream of
            Some d \<Rightarrow> if d = 0 then 0 else now - d | None \<Rightarrow> 0))"

definition watch_stream :: "real \<Rightarrow> stream \<Rightarrow> 'b app \<Rightarrow> 'b app" where
  "watch_stream now st a =
     (let silent = silent_for now st (ap_health a)
      in if lm_outage (ap_limits a) \<le> silent \<and> \<not> ap_outage a st
         then app_say (OutageAlert st silent) (a\<lparr>ap_outage := (ap_outage a)(st := True)\<rparr>)
         else if silent < 5 \<and> ap_outage a st
         then app_say (BackAlert st) (a\<lparr>ap_outage := (ap_outage a)(st := False)\<rparr>)
         else a)"

definition app_watch :: "'b world \<Rightarrow> 'b app \<Rightarrow> 'b app" where
  "app_watch w a =
     (let now = ex_now w a; a1 = watch_stream now TradeStream (watch_stream now DepthStream a)
      in if ap_mode a1 = Paper \<and> \<not> ap_trial_sent a1 \<and> ts_trial_end (td_state (ap_trader a1)) \<le> w_time w
         then app_say TrialSummary (a1\<lparr>ap_trial_sent := True, ap_trader := td_save (ap_trader a1)\<rparr>)
         else a1)"

subsection \<open>The daily reconciliation\<close>

definition reconcile_after :: real where
  "reconcile_after = 1200"

text \<open>\<open>exists d\<close>: the report of day \<open>d\<close> is there.\<close>

definition schedule_missing :: "(int \<Rightarrow> bool) \<Rightarrow> 'b world \<Rightarrow> 'b app \<Rightarrow> 'b app" where
  "schedule_missing exists w a =
     (let first = \<lfloor>ts_started_at (td_state (ap_trader a)) / of_int day_len\<rfloor>;
          today = \<lfloor>ex_now w a / of_int day_len\<rfloor>
      in a\<lparr>ap_pending := fold List.insert (filter (\<lambda>d. \<not> exists d) [first .. today - 1]) (ap_pending a)\<rparr>)"

text \<open>The day whose reconciliation is started, if any; \<open>running\<close>: the process has not ended.\<close>

definition maybe_reconcile :: "'b world \<Rightarrow> bool \<Rightarrow> 'b app \<Rightarrow> int option \<times> 'b app" where
  "maybe_reconcile w running a =
     (if ap_reconciling a \<and> running then (None, a)
      else
        (let a1 = a\<lparr>ap_reconciling := False\<rparr>;
             ready = filter (\<lambda>d. of_int ((d + 1) * day_len) + reconcile_after \<le> ex_now w a1) (ap_pending a1)
         in if ready = [] then (None, a1)
            else (let d = Min (set ready)
                  in (Some d, a1\<lparr>ap_pending := filter (\<lambda>x. x \<noteq> d) (ap_pending a1), ap_reconciling := True\<rparr>))))"

subsection \<open>The exchange check of live mode\<close>

definition ex_positions_of ::
    "string list \<Rightarrow> (string \<times> real \<times> real) list \<Rightarrow> (string \<times> (real \<times> real)) list" where
  "ex_positions_of syms rows =
     fold (\<lambda>(s, amt, px) m. if map_of m s \<noteq> None \<and> amt \<noteq> 0 then AList.update s (amt, px) m else m) rows
       (map (\<lambda>s. (s, (0, 0))) syms)"

fun position_warns :: "(string \<times> (real \<times> real)) list \<Rightarrow> 'b trader \<Rightarrow> string list \<Rightarrow> ledger_warn list" where
  "position_warns ex t [] = []"
| "position_warns ex t (s # ss) =
     (let amt = (case map_of ex s of Some p \<Rightarrow> fst p | None \<Rightarrow> 0)
      in case pos_at s t of
           None \<Rightarrow> (if 1 / 10 ^ 9 < \<bar>amt\<bar> then [PositionDiffers s 0 amt] else []) @ position_warns ex t ss
         | Some pos \<Rightarrow>
             if tp_status pos = Opening then position_warns ex t ss
             else (if 1 / 10 ^ 9 < \<bar>amt + tp_qty pos\<bar> then [PositionDiffers s (- tp_qty pos) amt] else [])
                  @ position_warns ex t ss)"

definition exchange_check :: "real \<Rightarrow> (string \<times> real \<times> real) list \<Rightarrow> 'b app \<Rightarrow> 'b app" where
  "exchange_check wallet rows a =
     (let ex = ex_positions_of (sp_symbols (ap_spec a)) rows; t = ap_trader a; net = ts_cum_net (td_state t);
          start = (case ap_wallet_start a of Some x \<Rightarrow> x | None \<Rightarrow> wallet - net);
          want = start + net;
          warn = position_warns ex t (sp_symbols (ap_spec a))
                 @ (if 5 / 100 < \<bar>wallet - want\<bar> then [WalletDiffers wallet want] else []);
          t1 = (if ap_wallet_start a = None then td_save t else t);
          a1 = a\<lparr>ap_wallet := Some wallet, ap_ex := Some ex, ap_wallet_start := Some start, ap_trader := t1\<rparr>;
          a2 = (if warn \<noteq> [] \<and> warn \<noteq> ap_warn a then app_say (LedgerAlert warn) a1 else a1)
      in a2\<lparr>ap_warn := warn\<rparr>)"

subsection \<open>Assembly\<close>

text \<open>The guard of a symbol: the stop line is the trader's, the other limits are wide open.\<close>

definition guard_limits :: "spec \<Rightarrow> real \<Rightarrow> int \<Rightarrow> string \<Rightarrow> risk_limits option" where
  "guard_limits sp max_clock rejects sm =
     (case map_of (sp_max_qty sp) sm of
        None \<Rightarrow> None
      | Some q \<Rightarrow> Some \<lparr>max_abs_position = q, test_stop_cumulative_usd = - (10 ^ 12),
            pause_after_consecutive_losses = 10 ^ 9, max_clock_offset_ms = max_clock,
            max_data_stale_s = 10 ^ 9, max_consecutive_rejects = rejects\<rparr>)"

datatype app_refused =
    NeedConfirm
  | UnknownMode
  | BadSize spec_error
  | AgentsRunning "string list"
  | AccountDiffers "string list"
  | NotStarted start_refused

definition live_preflight :: "string list \<Rightarrow> string list \<Rightarrow> app_refused option" where
  "live_preflight running bad =
     (if running \<noteq> [] then Some (AgentsRunning running)
      else if bad \<noteq> [] then Some (AccountDiffers bad) else None)"

definition mode_of :: "string \<Rightarrow> bool \<Rightarrow> app_refused + trade_mode" where
  "mode_of md confirm =
     (if md = ''paper'' then Inr Paper
      else if md = ''live'' then (if confirm then Inr Live else Inl NeedConfirm)
      else Inl UnknownMode)"

definition sizes_ok :: "spec \<Rightarrow> (string \<times> real) list \<Rightarrow> (string \<times> sym_filters) list \<Rightarrow> spec_error option" where
  "sizes_ok sp bid filters =
     (case find (\<lambda>s. isl (sized sp s (map_of bid) filters)) (sp_symbols sp) of
        None \<Rightarrow> None
      | Some s \<Rightarrow> Some (projl (sized sp s (map_of bid) filters)))"

text \<open>The start: mode, trader, sizes at the current bids, the account check of live mode, and the
  recovery; \<open>running\<close> and \<open>bad\<close> are what the agent list and the account queries returned.\<close>

definition app_build ::
    "string \<Rightarrow> bool \<Rightarrow> spec \<Rightarrow> (string \<Rightarrow> 'b guard) \<Rightarrow> (string \<times> sym_filters) list \<Rightarrow> trader_state option
     \<Rightarrow> ((string \<times> int) \<times> signal_status) list \<Rightarrow> (string \<times> real) list \<Rightarrow> string list \<Rightarrow> string list \<Rightarrow> 'b tenv
     \<Rightarrow> app_refused + 'b trader \<times> recover_note list" where
  "app_build md confirm sp guards filters file journal bid running bad env =
     (case mode_of md confirm of
        Inl e \<Rightarrow> Inl e
      | Inr m \<Rightarrow>
          (case td_init sp m guards filters file journal (te_now env) of
             Inl e \<Rightarrow> Inl (NotStarted e)
           | Inr t \<Rightarrow>
               (case sizes_ok sp bid filters of
                  Some e \<Rightarrow> Inl (BadSize e)
                | None \<Rightarrow>
                    (case (if m = Live then live_preflight running bad else None) of
                       Some e \<Rightarrow> Inl e
                     | None \<Rightarrow>
                         (case td_recover env (m = Live) t of
                            (Inl e, _) \<Rightarrow> Inl (NotStarted e)
                          | (Inr nts, t1) \<Rightarrow> Inr (t1, nts))))))"

definition app_init ::
    "spec \<Rightarrow> trade_mode \<Rightarrow> 'b trader \<Rightarrow> limits \<Rightarrow> nat \<Rightarrow> 'b world \<Rightarrow> spec_error + 'b app" where
  "app_init sp md t l maxlen w =
     (case all_ok (map (\<lambda>s. map_sum id (Pair s) (feed_init sp s)) (sp_symbols sp)) of
        Inl e \<Rightarrow> Inl e
      | Inr fds \<Rightarrow> Inr
          \<lparr>ap_spec = sp, ap_mode = md, ap_trader = t,
           ap_views = map (\<lambda>s. (s, live_view_init maxlen)) (sp_symbols sp), ap_feeds = fds,
           ap_health = health_init (w_time w), ap_limits = l, ap_offset_s = 0, ap_offset_ms = None, ap_lag = 0,
           ap_last = \<lfloor>w_time w - lm_delay l\<rfloor>, ap_collector = None, ap_wallet = None, ap_wallet_start = None,
           ap_ex = None, ap_warn = [], ap_outage = (\<lambda>_. False), ap_pending = [], ap_reconciling = False,
           ap_trial_sent = False, ap_out = []\<rparr>)"

text \<open>A measured clock offset (None: the measurement failed).\<close>

definition measure_offset :: "real option \<Rightarrow> 'b app \<Rightarrow> 'b app" where
  "measure_offset r a =
     (case r of None \<Rightarrow> a | Some ms \<Rightarrow> a\<lparr>ap_offset_ms := Some ms, ap_offset_s := ms / 1000\<rparr>)"

text \<open>\<open>run\<close>: with the collector attached and the offset measured, the health starts anew.\<close>

definition app_run :: "collector \<Rightarrow> real option \<Rightarrow> (int \<Rightarrow> bool) \<Rightarrow> 'b world \<Rightarrow> 'b app \<Rightarrow> 'b app" where
  "app_run c r exists w a =
     (let a1 = measure_offset r (a\<lparr>ap_collector := Some c\<rparr>);
          a2 = schedule_missing exists w (a1\<lparr>ap_health := health_init (ex_now w a1)\<rparr>)
      in a2\<lparr>ap_last := \<lfloor>ex_now w a2 - lm_delay (ap_limits a2)\<rfloor>\<rparr>)"

end
