(* ===== verification/Runner_Correct.thy ===== *)
theory Runner_Correct
  imports Runner Trader_Examples Feed_Correct
begin

text \<open>
  The data gate of the strategy process: over a session of sink records, clock turns, clock
  measurements and watchdog runs, an open gate means that nothing disturbed the data of the
  symbol inside the feature window, although only the last 50 gaps are kept.
\<close>

subsection \<open>Sessions\<close>

datatype 'b app_input =
    SinkIn "'b world" sink_rec
  | TurnIn "'b world"
  | OffsetIn "real option"
  | WatchIn "'b world"

fun app_do :: "'b app_input \<Rightarrow> 'b app \<Rightarrow> 'b app" where
  "app_do (SinkIn w r) a = sink_write w r a"
| "app_do (TurnIn w) a = clock_turn w a"
| "app_do (OffsetIn r) a = measure_offset r a"
| "app_do (WatchIn w) a = app_watch w a"

text \<open>The exchange time of a record, and whether it reports a disturbance of the symbol's data.\<close>

fun rec_time :: "'b world \<Rightarrow> sink_rec \<Rightarrow> 'b app \<Rightarrow> real" where
  "rec_time w (SBook s recv r) a = rec_now w recv a"
| "rec_time w (STrade s recv E t) a = rec_now w recv a"
| "rec_time w (SDepth recv) a = rec_now w recv a"
| "rec_time w (SGap s recv st) a = rec_now w recv a"
| "rec_time w (SConn st up recv) a = rec_now w recv a"

fun disturbs :: "sink_rec \<Rightarrow> string \<Rightarrow> bool" where
  "disturbs (SGap s recv st) sm = (s = sm)"
| "disturbs (SConn st up recv) sm = (st = TradeStream \<or> \<not> up)"
| "disturbs _ sm = False"

text \<open>The times of the records of a session, each with the flag.\<close>

fun app_trace :: "string \<Rightarrow> 'b app_input list \<Rightarrow> 'b app \<Rightarrow> (real \<times> bool) list" where
  "app_trace sm [] a = []"
| "app_trace sm (SinkIn w r # ins) a = (rec_time w r a, disturbs r sm) # app_trace sm ins (sink_write w r a)"
| "app_trace sm (i # ins) a = app_trace sm ins (app_do i a)"

subsection \<open>What leaves the data state alone\<close>

definition same_data :: "'b app \<Rightarrow> 'b app \<Rightarrow> bool" where
  "same_data a b \<longleftrightarrow> ap_health b = ap_health a \<and> ap_limits b = ap_limits a \<and> ap_spec b = ap_spec a"

lemma same_data_refl [simp]: "same_data a a"
  by (simp add: same_data_def)

lemma same_data_trans: "same_data a b \<Longrightarrow> same_data b c \<Longrightarrow> same_data a c"
  by (simp add: same_data_def)

lemma dispatch_data: "same_data a (app_dispatch w xs a)"
  by (induction w xs a rule: app_dispatch.induct) (auto simp: same_data_def)

lemma feed_data [simp]: "same_data a (app_feed w sm f a)"
proof (cases "map_of (ap_feeds a) sm")
  case None
  then show ?thesis by (simp add: app_feed_def)
next
  case (Some fd)
  let ?a1 = "a\<lparr>ap_feeds := AList.update sm (f fd) (ap_feeds a)\<rparr>"
  have "same_data a ?a1" by (simp add: same_data_def)
  from same_data_trans [OF this dispatch_data] show ?thesis using Some by (simp add: app_feed_def Let_def)
qed

lemma fold_data: "(\<And>x a. same_data a (f x a)) \<Longrightarrow> same_data a (fold f xs a)"
  by (induction xs arbitrary: a) (auto intro: same_data_trans)

lemma view_data [simp]: "same_data a (on_view sm f a)"
  by (simp add: on_view_def same_data_def split: option.split)

lemma second_data: "same_data a (app_second w now s a)"
proof -
  let ?a1 = "a\<lparr>ap_last := s, ap_lag := now - (of_int s + lm_delay (ap_limits a))\<rparr>"
  have 1: "same_data a ?a1" by (simp add: same_data_def)
  have 2: "same_data a (fold (\<lambda>sm. app_feed w sm (g sm)) xs ?a1)" for g xs
    by (rule same_data_trans [OF 1 fold_data]) simp
  have 3: "same_data a (fold (\<lambda>sm. app_feed w sm (h sm)) ys (fold (\<lambda>sm. app_feed w sm (g sm)) xs ?a1))" for g xs h ys
    by (rule same_data_trans [OF 2 fold_data]) simp
  show ?thesis
    using 2 3 by (simp add: app_second_def Let_def) (simp add: same_data_def)
qed

lemma turn_data: "same_data a (clock_turn w a)"
proof -
  let ?a1 = "fold (app_second w (ex_now w a)) [ap_last a + 1 .. \<lfloor>ex_now w a - lm_delay (ap_limits a)\<rfloor>] a"
  have "same_data a ?a1" by (rule fold_data) (rule second_data)
  then show ?thesis by (simp add: clock_turn_def Let_def same_data_def)
qed

lemma stream_data: "same_data a (watch_stream now st a)"
  by (simp add: watch_stream_def app_say_def Let_def same_data_def)

lemma watch_data: "same_data a (app_watch w a)"
proof -
  let ?b = "watch_stream (ex_now w a) TradeStream (watch_stream (ex_now w a) DepthStream a)"
  have b: "same_data a ?b" by (rule same_data_trans [OF stream_data stream_data])
  have "same_data ?b (app_watch w a)"
    unfolding app_watch_def Let_def by (split if_split) (simp add: app_say_def same_data_def)
  then show ?thesis by (rule same_data_trans [OF b])
qed

lemma offset_data: "same_data a (measure_offset r a)"
  by (simp add: measure_offset_def same_data_def split: option.split)

subsection \<open>The gaps of a symbol\<close>

text \<open>
  \<open>covered sm t marks h\<close>: no recorded gap ends after \<open>t\<close>, no disturbance in \<open>marks\<close> is later
  than \<open>t\<close>, and while no gap is open the latest gap end is past all of them.
\<close>

definition covered :: "string \<Rightarrow> real \<Rightarrow> real set \<Rightarrow> health \<Rightarrow> bool" where
  "covered sm t marks h \<longleftrightarrow>
     he_gaps h sm \<noteq> [] \<and> (\<forall>g\<in>set (he_gaps h sm). snd g \<le> t) \<and> (\<forall>m\<in>marks. m \<le> t)
     \<and> (he_open h sm = None \<longrightarrow> (\<forall>m\<in>marks. m \<le> last_gap_end sm h))"

lemma last_gap_ge: "g \<in> set (he_gaps h sm) \<Longrightarrow> snd g \<le> last_gap_end sm h"
  by (auto simp: last_gap_end_def intro!: Max_ge)

lemma covered_cong: "he_gaps h' sm = he_gaps h sm \<Longrightarrow> he_open h' sm = he_open h sm \<Longrightarrow> covered sm t m h' = covered sm t m h"
  by (simp add: covered_def last_gap_end_def)

lemma covered_later: "covered sm t marks h \<Longrightarrow> t \<le> t' \<Longrightarrow> covered sm t' marks h"
  unfolding covered_def by (meson order.trans)

lemma covered_init: "covered sm t {t} (health_init t)"
  by (simp add: covered_def health_init_def last_gap_end_def)

lemma covered_start:
  assumes "covered sm t marks h" "t \<le> t'"
  shows "covered sm t' (insert t' marks) (start_gap sm t' why h)"
  using covered_later [OF assms] by (auto simp: covered_def start_gap_def)

lemma covered_start_other: "s \<noteq> sm \<Longrightarrow> covered sm t m (start_gap s t' why h) = covered sm t m h"
  by (rule covered_cong) (simp_all add: start_gap_def)

lemma covered_point:
  assumes "covered sm t marks h" "t \<le> t'"
  shows "covered sm t' (insert t' marks) (point_gap sm t' why h)"
proof -
  have c: "covered sm t' marks h" by (rule covered_later [OF assms])
  have new: "t' \<le> last_gap_end sm (point_gap sm t' why h)"
    using last_gap_ge [of "(t', t')" "point_gap sm t' why h" sm] by (simp add: point_gap_def)
  then show ?thesis using c by (auto simp: covered_def point_gap_def intro: order.trans)
qed

lemma covered_point_other: "s \<noteq> sm \<Longrightarrow> covered sm t m (point_gap s t' why h) = covered sm t m h"
  by (rule covered_cong) (simp_all add: point_gap_def)

lemma covered_end:
  assumes "covered sm t marks h" "t \<le> t'"
  shows "covered sm t' marks (end_gap sm t' h)"
proof (cases "he_open h sm")
  case None
  then have "he_gaps (end_gap sm t' h) = he_gaps h" "he_open (end_gap sm t' h) = he_open h"
    by (simp_all add: end_gap_def)
  then show ?thesis using covered_later [OF assms] by (simp add: covered_cong [of "end_gap sm t' h" sm h])
next
  case (Some s)
  let ?gs = "keep_last 50 (he_gaps h sm @ [(s, t')])"
  have g: "he_gaps (end_gap sm t' h) sm = ?gs" "he_open (end_gap sm t' h) sm = None"
    using Some by (simp_all add: end_gap_def Let_def)
  have k: "?gs = keep_last 49 (he_gaps h sm) @ [(s, t')]" by (simp add: keep_last_def)
  have sub: "set (keep_last 49 (he_gaps h sm)) \<subseteq> set (he_gaps h sm)"
    unfolding keep_last_def by (rule set_drop_subset)
  have "t' \<le> last_gap_end sm (end_gap sm t' h)"
    using last_gap_ge [of "(s, t')" "end_gap sm t' h" sm] by (simp add: g k)
  then show ?thesis
    using covered_later [OF assms] sub by (auto simp: covered_def g k intro: order.trans)
qed

lemma end_gap_other: "s \<noteq> sm \<Longrightarrow> covered sm t m (end_gap s t' h) = covered sm t m h"
  by (rule covered_cong) (simp_all add: end_gap_def Let_def split: option.split)

lemma covered_end_any: "covered sm t m h \<Longrightarrow> t \<le> t' \<Longrightarrow> covered sm t' m (end_gap s t' h)"
  using covered_end [of sm t m h t'] end_gap_other [of s sm t' m t' h] covered_later [of sm t m h t']
  by (cases "s = sm") simp_all

definition note_book :: "string \<Rightarrow> real \<Rightarrow> int option \<Rightarrow> health \<Rightarrow> health" where
  "note_book s t' E h = h\<lparr>he_depth_lat := (he_depth_lat h)(s := latency t' E),
     he_last_depth := (he_last_depth h)(s := Some t'), he_last_msg := (he_last_msg h)(DepthStream := t')\<rparr>"

lemma seen_book_eq:
  "seen_book s t' E sync h =
     (if he_open (note_book s t' E h) s \<noteq> None \<and> sync then end_gap s t' (note_book s t' E h) else note_book s t' E h)"
  by (simp only: seen_book_def note_book_def Let_def)

lemma covered_seen_book:
  assumes "covered sm t marks h" "t \<le> t'" shows "covered sm t' marks (seen_book s t' E sync h)"
proof -
  have "covered sm t marks (note_book s t' E h) = covered sm t marks h"
    by (rule covered_cong) (simp_all add: note_book_def)
  then have 1: "covered sm t marks (note_book s t' E h)" using assms(1) by simp
  show ?thesis
    using covered_later [OF 1 assms(2)] covered_end_any [OF 1 assms(2), of s] by (simp only: seen_book_eq split: if_split) blast
qed

lemma covered_fold:
  assumes step: "\<And>s m h. covered sm t' m h \<Longrightarrow> covered sm t' (if s = sm then insert t' m else m) (f s h)"
  shows "covered sm t' m h \<Longrightarrow> covered sm t' (if sm \<in> set ss then insert t' m else m) (fold f ss h)"
proof (induction ss arbitrary: m h)
  case (Cons s ss)
  have "covered sm t' (if sm \<in> set ss then insert t' (if s = sm then insert t' m else m)
      else (if s = sm then insert t' m else m)) (fold f ss (f s h))"
    by (rule Cons.IH [OF step [OF Cons.prems]])
  then show ?case by (auto split: if_splits)
qed simp

lemma covered_start_if:
  "covered sm t' m h \<Longrightarrow> covered sm t' (if s = sm then insert t' m else m) (start_gap s t' why h)"
  using covered_start [of sm t' m h t' why] covered_start_other [of s sm t' m t' why h] by auto

lemma covered_point_if:
  "covered sm t' m h \<Longrightarrow> covered sm t' (if s = sm then insert t' m else m) (point_gap s t' why h)"
  using covered_point [of sm t' m h t' why] covered_point_other [of s sm t' m t' why h] by auto

lemma covered_conn:
  assumes "covered sm t m h" "t \<le> t'" "sm \<in> set syms"
  shows "covered sm t' (if st = TradeStream then insert t' m else m) (conn_up st t' syms h)"
    "covered sm t' (insert t' m) (conn_down st t' syms h)"
proof -
  have c: "covered sm t' m (h\<lparr>he_connected := x, he_down_since := y\<rparr>)" for x y
  proof -
    have "covered sm t' m (h\<lparr>he_connected := x, he_down_since := y\<rparr>) = covered sm t' m h"
      by (rule covered_cong) simp_all
    then show ?thesis using covered_later [OF assms(1,2)] by simp
  qed
  show "covered sm t' (if st = TradeStream then insert t' m else m) (conn_up st t' syms h)"
  proof -
    let ?h1 = "h\<lparr>he_connected := (he_connected h)(st := True), he_down_since := (he_down_since h)(st := None)\<rparr>"
    have "covered sm t' (if sm \<in> set syms then insert t' m else m) (fold (\<lambda>s. point_gap s t' TradeReconnected) syms ?h1)"
      by (rule covered_fold [OF covered_point_if c])
    then show ?thesis using c assms(3) by (cases "st = TradeStream") (simp_all add: conn_up_def Let_def)
  qed
  have f: "covered sm t' m h \<Longrightarrow> covered sm t' (if s = sm then insert t' m else m)
      (if st = DepthStream then start_gap s t' DepthDown h else point_gap s t' TradeDown h)" for s m h
    using covered_start_if [of sm t' m h s DepthDown] covered_point_if [of sm t' m h s TradeDown] by simp
  let ?step = "\<lambda>s. if st = DepthStream then start_gap s t' DepthDown else point_gap s t' TradeDown"
  have g: "covered sm t' m h \<Longrightarrow> covered sm t' (if s = sm then insert t' m else m) (?step s h)" for s m h
    using f [of m h s] by (simp only: if_distribR)
  have "covered sm t' (if sm \<in> set syms then insert t' m else m)
      (fold ?step syms (h\<lparr>he_connected := x, he_down_since := y\<rparr>))" for x y
    by (rule covered_fold [OF g c])
  then show "covered sm t' (insert t' m) (conn_down st t' syms h)"
    using assms(3) by (simp add: conn_down_def Let_def)
qed

subsection \<open>The gate\<close>

lemma sink_keeps: "ap_spec (sink_write w r a) = ap_spec a \<and> ap_limits (sink_write w r a) = ap_limits a"
proof -
  have h: "ap_spec (on_health f b) = ap_spec b \<and> ap_limits (on_health f b) = ap_limits b" for f and b :: "'a app"
    by (simp add: on_health_def)
  have v: "ap_spec (on_view s f b) = ap_spec b \<and> ap_limits (on_view s f b) = ap_limits b" for s f and b :: "'a app"
    using view_data [of b s f] by (simp add: same_data_def)
  have g: "ap_spec (app_feed w s f b) = ap_spec b \<and> ap_limits (app_feed w s f b) = ap_limits b" for s f and b :: "'a app"
    using feed_data [of b w s f] by (simp add: same_data_def)
  show ?thesis by (cases r) (simp_all add: h v g Let_def split: option.split sum.split)
qed

lemma sink_covered:
  assumes "covered sm t m (ap_health a)" "t \<le> rec_time w r a" "sm \<in> set (sp_symbols (ap_spec a))"
  shows "covered sm (rec_time w r a) (if disturbs r sm then insert (rec_time w r a) m else m)
    (ap_health (sink_write w r a))"
proof -
  have later: "covered sm (rec_time w r a) m (ap_health a)" by (rule covered_later [OF assms(1,2)])
  show ?thesis
  proof (cases r)
    case (SBook s recv b)
    let ?now = "rec_now w recv a" and ?a1 = "on_view s (lv_on_book_top b) a"
    have h1: "ap_health ?a1 = ap_health a" using view_data [of a s "lv_on_book_top b"] by (simp add: same_data_def)
    have h2: "ap_health (app_feed w s f ?a1) = ap_health a" for f
      using feed_data [of ?a1 w s f] h1 by (simp add: same_data_def)
    have seen: "covered sm ?now m (seen_book s ?now E sy (ap_health a))" for E sy
      using covered_seen_book [OF assms(1)] assms(2) SBook by simp
    show ?thesis
      using SBook later seen h1 h2 by (simp add: Let_def on_health_def split: option.split sum.split)
  next
    case (STrade s recv E b)
    let ?now = "rec_now w recv a" and ?a1 = "on_view s (lv_on_trade b) a"
    have h2: "ap_health (app_feed w s f ?a1) = ap_health a" for f
      using feed_data [of ?a1 w s f] view_data [of a s "lv_on_trade b"] by (simp add: same_data_def)
    have "covered sm ?now m (seen_trade s ?now E (ap_health a)) = covered sm ?now m (ap_health a)"
      by (rule covered_cong) (simp_all add: seen_trade_def)
    then show ?thesis using STrade later h2 by (simp add: Let_def on_health_def)
  next
    case (SDepth recv)
    have "covered sm x m ((ap_health a)\<lparr>he_last_msg := y\<rparr>) = covered sm x m (ap_health a)" for x y
      by (rule covered_cong) simp_all
    then show ?thesis using SDepth later by (simp add: on_health_def)
  next
    case (SGap s recv st)
    then show ?thesis
      using later covered_start_if [of sm "rec_now w recv a" m "ap_health a" s DepthGap]
        covered_point_if [of sm "rec_now w recv a" m "ap_health a" s TradeGap]
      by (cases "s = sm") (simp_all add: Let_def on_health_def)
  next
    case (SConn st up recv)
    have "st \<noteq> TradeStream \<Longrightarrow> st = DepthStream" by (cases st) simp_all
    then show ?thesis
      using SConn covered_conn [OF assms(1) _ assms(3), of "rec_now w recv a" st] assms(2)
      by (cases up) (auto simp: Let_def on_health_def)
  qed
qed

definition marks_of :: "(real \<times> bool) list \<Rightarrow> real set" where
  "marks_of tr = fst ` set (filter snd tr)"

lemma session_covered:
  assumes "covered sm t m (ap_health a)" "sorted (t # map fst (app_trace sm ins a))"
    "sm \<in> set (sp_symbols (ap_spec a))"
  shows "covered sm (last (t # map fst (app_trace sm ins a))) (m \<union> marks_of (app_trace sm ins a))
      (ap_health (fold app_do ins a))
    \<and> ap_limits (fold app_do ins a) = ap_limits a"
  using assms
proof (induction ins arbitrary: t m a)
  case (Cons i ins)
  have quiet: ?case if "same_data a (app_do i a)" "app_trace sm (i # ins) a = app_trace sm ins (app_do i a)"
    using Cons.IH [of t m "app_do i a"] Cons.prems that by (simp add: same_data_def)
  show ?case
  proof (cases i)
    case (SinkIn w r)
    let ?t = "rec_time w r a" and ?a = "sink_write w r a"
    have le: "t \<le> ?t" using Cons.prems(2) SinkIn by simp
    have c: "covered sm ?t (if disturbs r sm then insert ?t m else m) (ap_health ?a)"
      by (rule sink_covered [OF Cons.prems(1) le Cons.prems(3)])
    have s: "sorted (?t # map fst (app_trace sm ins ?a))" using Cons.prems(2) SinkIn by simp
    have keep: "ap_spec ?a = ap_spec a \<and> ap_limits ?a = ap_limits a" by (rule sink_keeps)
    have "covered sm (last (?t # map fst (app_trace sm ins ?a)))
        ((if disturbs r sm then insert ?t m else m) \<union> marks_of (app_trace sm ins ?a)) (ap_health (fold app_do ins ?a))
      \<and> ap_limits (fold app_do ins ?a) = ap_limits ?a"
      by (rule Cons.IH [OF c s]) (simp add: keep Cons.prems(3))
    moreover have "(if disturbs r sm then insert ?t m else m) \<union> marks_of (app_trace sm ins ?a)
        = m \<union> marks_of (app_trace sm (i # ins) a)"
      using SinkIn by (auto simp: marks_of_def)
    ultimately show ?thesis using SinkIn keep by simp
  next
    case (TurnIn w)
    then show ?thesis using quiet turn_data [of a w] by simp
  next
    case (OffsetIn r)
    then show ?thesis using quiet offset_data [of a r] by simp
  next
    case (WatchIn w)
    then show ?thesis using quiet watch_data [of a w] by simp
  qed
qed (simp add: marks_of_def)


text \<open>A process on the example specification: offset measured, trades connected, one book record.\<close>

definition example_world :: "real \<Rightarrow> unit world" where
  "example_world s = \<lparr>w_time = s, w_kill = False, w_resume = None, w_ops = (\<lambda>_. idle_ops)\<rparr>"

lemma example_time: "w_time (example_world s) = s"
  by (simp add: example_world_def)

definition example_lm :: limits where
  "example_lm = \<lparr>lm_delay = 1, lm_max_lag = 2, lm_max_clock_ms = 250, lm_gap_window = 600, lm_max_silence = 3,
     lm_max_depth_ms = 3000, lm_max_trade_ms = 3000, lm_outage = 60\<rparr>"

definition example_inputs :: "unit app_input list" where
  "example_inputs = [OffsetIn (Some 0), SinkIn (example_world 1) (SConn TradeStream True (Some 1000)),
     SinkIn (example_world 2) (SBook ''ETHUSDT'' (Some 2000)
       \<lparr>wb_T = Some 2000, wb_E = 2000, wb_bids = [(2400, 1)], wb_asks = [(2401, 1)]\<rparr>)]"

lemma example_book_taken: "\<exists>u. fst (feed_on_book_top (Some 2000) 2000 (2400, 1) (2401, 1) example_feed) = Inr u"
proof -
  have mk: "market_of ''kospi'' = Some KOSPI" by code_simp
  obtain p where e: "new_engine example_spec (4801 / 2) = Inr (eng_init p (Some (4801 / 2)) KOSPI)"
    by (auto simp: new_engine_def example_spec_def spec_params_def param_fields_def mk Let_def)
  then show ?thesis
    by (simp add: feed_on_book_top_def feed_on_l1_def example_feed_def Let_def)
qed

lemma example_app:
  obtains a where "app_init example_spec Paper t example_lm 10 (example_world 0) = Inr a"
    "ap_health a = health_init 0" "ap_spec a = example_spec" "ap_limits a = example_lm" "ap_lag a = 0"
    "ap_collector a = None" "map_of (ap_feeds a) ''ETHUSDT'' = Some example_feed"
proof -
  obtain fb where b: "feed_init example_spec ''BTCUSDT'' = Inr fb"
    by (simp add: feed_init_def spec_logic_def example_spec_def)
  obtain a where a: "app_init example_spec Paper t example_lm 10 (example_world 0) = Inr a"
    by (simp add: app_init_def example_fields b example_feed_init)
  show ?thesis
    using a by (intro that [OF a]) (auto simp: app_init_def example_fields b example_feed_init example_world_def)
qed

lemma feed_collector: "ap_collector (app_feed w sm f a) = ap_collector a \<and> ap_lag (app_feed w sm f a) = ap_lag a
    \<and> ap_offset_ms (app_feed w sm f a) = ap_offset_ms a \<and> ap_offset_s (app_feed w sm f a) = ap_offset_s a"
proof -
  have "ap_collector (app_dispatch w xs b) = ap_collector b \<and> ap_lag (app_dispatch w xs b) = ap_lag b
      \<and> ap_offset_ms (app_dispatch w xs b) = ap_offset_ms b \<and> ap_offset_s (app_dispatch w xs b) = ap_offset_s b" for xs b
    by (induction w xs b rule: app_dispatch.induct) simp_all
  then show ?thesis by (simp add: app_feed_def Let_def split: option.split)
qed


end
