(* ===== verification/Live_Broker.thy ===== *)
theory Live_Broker
  imports Exec_Types
begin

text \<open>
  The live broker of \<open>src/execution/live.py\<close> and its variant of
  \<open>strategies/pastofi_crypto/brokers.py\<close>.  The exchange is outside the program: it is the
  parameter \<open>exchange_api\<close>, one field per REST call the broker makes, over a state \<open>'x\<close>; a
  failed call gives the HTTP status and the exchange's error code.  The broker's own state
  is \<open>live_broker\<close>; \<open>lb_posted\<close> lists the client ids of the order POSTs it made and
  \<open>lb_events\<close> the events it emitted.  The decimal strings of quantities and prices are the
  numbers they denote.
\<close>

type_synonym api_error = "int option \<times> int option"

record order_request =
  rq_side :: side
  rq_type :: order_type
  rq_qty :: "real option"
  rq_price :: "real option"
  rq_reduce :: bool
  rq_close_position :: bool
  rq_client_id :: string

record order_ack =
  ak_id :: int
  ak_status :: status
  ak_qty :: real
  ak_avg :: real
  ak_time :: "int option"

record algo_ack =
  al_id :: int
  al_status :: "string option"
  al_actual :: "int option"
  al_price :: real
  al_qty :: real
  al_time :: "int option"

record open_row =
  op_client_id :: string
  op_side :: side
  op_type :: order_type
  op_qty :: real
  op_price :: real
  op_reduce :: bool

record user_trade =
  ur_id :: int
  ur_order :: int
  ur_time :: int
  ur_side :: side
  ur_qty :: real
  ur_price :: real
  ur_fee :: real
  ur_usdt :: bool
  ur_maker :: bool
  ur_pnl :: real

datatype trades_query = FromId int | FromTime int

record 'x exchange_api =
  ax_post :: "order_request \<Rightarrow> 'x \<Rightarrow> (api_error + order_ack) \<times> 'x"
  ax_get :: "string \<Rightarrow> 'x \<Rightarrow> (api_error + order_ack) \<times> 'x"
  ax_delete :: "string \<Rightarrow> 'x \<Rightarrow> (api_error + order_ack) \<times> 'x"
  ax_post_algo :: "order_request \<Rightarrow> 'x \<Rightarrow> (api_error + algo_ack) \<times> 'x"
  ax_get_algo :: "string \<Rightarrow> 'x \<Rightarrow> (api_error + algo_ack) \<times> 'x"
  ax_delete_algo :: "string \<Rightarrow> 'x \<Rightarrow> (api_error + int option) \<times> 'x"
  ax_delete_all :: "'x \<Rightarrow> (api_error + unit) \<times> 'x"
  ax_delete_all_algo :: "'x \<Rightarrow> (api_error + unit) \<times> 'x"
  ax_open :: "'x \<Rightarrow> (api_error + (open_row \<times> order_ack) list) \<times> 'x"
  ax_open_algo :: "'x \<Rightarrow> (api_error + (open_row \<times> algo_ack) list) \<times> 'x"
  ax_positions :: "'x \<Rightarrow> (api_error + (real \<times> real) list) \<times> 'x"
  ax_trades :: "trades_query \<Rightarrow> 'x \<Rightarrow> (api_error + user_trade list) \<times> 'x"
  ax_funding :: "int \<Rightarrow> int \<Rightarrow> 'x \<Rightarrow> (api_error + real list) \<times> 'x"

record 'x live_broker =
  lb_x :: 'x
  lb_symbol :: string
  lb_tick :: real
  lb_step :: real
  lb_min_qty :: real
  lb_close_position :: bool
  lb_orders :: "(string \<times> order) list"
  lb_by_id :: "(int \<times> string) list"
  lb_fills :: "fill list"
  lb_last_trade :: "int option"
  lb_pos :: position
  lb_events :: "order_event list"
  lb_posted :: "string list"

definition lb_init :: "'x \<Rightarrow> string \<Rightarrow> real \<Rightarrow> real \<Rightarrow> real \<Rightarrow> bool \<Rightarrow> 'x live_broker" where
  "lb_init x sm tick step min_qty close =
     \<lparr>lb_x = x, lb_symbol = sm, lb_tick = tick, lb_step = step, lb_min_qty = min_qty, lb_close_position = close,
      lb_orders = [], lb_by_id = [], lb_fills = [], lb_last_trade = None, lb_pos = flat_position sm,
      lb_events = [], lb_posted = []\<rparr>"

definition expire_codes :: "int list" where
  "expire_codes = [- 5022, - 2022, - 4118]"

definition unknown_order :: "int list" where
  "unknown_order = [- 2011, - 2013]"

definition account_hints :: "int list" where
  "account_hints = [- 4411]"

definition algo_status :: "(string \<times> status) list" where
  "algo_status = [(''NEW'', NEW), (''WORKING'', NEW), (''PARTIALLY_TRIGGERED'', NEW), (''TRIGGERED'', FILLED),
     (''FINISHED'', FILLED), (''CANCELED'', CANCELED), (''EXPIRED'', EXPIRED), (''REJECTED'', REJECTED)]"

subsection \<open>Common parts\<close>

definition api_raise :: "api_error \<Rightarrow> exn" where
  "api_raise e = BinanceRestError (fst e) (snd e)"

definition ms_clock :: "int \<Rightarrow> datetime" where
  "ms_clock ts = ts * 1000"

text \<open>A call to the exchange.\<close>

definition lb_call ::
    "('x \<Rightarrow> (api_error + 'a) \<times> 'x) \<Rightarrow> 'x live_broker \<Rightarrow> (api_error + 'a) \<times> 'x live_broker" where
  "lb_call f b = (case f (lb_x b) of (r, x) \<Rightarrow> (r, b\<lparr>lb_x := x\<rparr>))"

definition lb_emit :: "order_event \<Rightarrow> 'x live_broker \<Rightarrow> 'x live_broker" where
  "lb_emit e b = b\<lparr>lb_events := lb_events b @ [e]\<rparr>"

definition lb_track :: "order \<Rightarrow> 'x live_broker \<Rightarrow> 'x live_broker" where
  "lb_track ord b = b\<lparr>lb_orders := AList.update (o_client_id ord) ord (lb_orders b)\<rparr>"

definition lb_decimals :: "real \<Rightarrow> nat" where
  "lb_decimals step = nat (max 0 (- \<lfloor>log 10 step\<rfloor>))"

definition lb_qty :: "'x live_broker \<Rightarrow> real \<Rightarrow> exn + real" where
  "lb_qty b q =
     (let steps = py_round (q / lb_step b)
      in if of_int steps * lb_step b < lb_min_qty b then Inl (OrderRejected (BelowMinQty q))
         else Inr (round_dec (lb_decimals (lb_step b)) (of_int steps * lb_step b)))"

definition lb_px :: "'x live_broker \<Rightarrow> real \<Rightarrow> real" where
  "lb_px b p = round_dec (lb_decimals (lb_tick b)) (of_int (py_round (p / lb_tick b)) * lb_tick b)"

definition lb_apply :: "order_ack \<Rightarrow> order \<Rightarrow> order" where
  "lb_apply r ord =
     ord\<lparr>o_exchange_id := Some (ak_id r), o_status := ak_status r, o_filled_qty := ak_qty r,
         o_avg_price := ak_avg r,
         o_updated_ts := (case ak_time r of Some t \<Rightarrow> Some (ms_clock t) | None \<Rightarrow> o_updated_ts ord)\<rparr>"

definition lb_apply_algo :: "algo_ack \<Rightarrow> order \<Rightarrow> order" where
  "lb_apply_algo r ord =
     (let st = (case al_status r of None \<Rightarrow> NEW
                | Some s \<Rightarrow> (case map_of algo_status s of Some x \<Rightarrow> x | None \<Rightarrow> NEW));
          hit = (case al_actual r of Some a \<Rightarrow> a \<noteq> 0 | None \<Rightarrow> False)
      in ord\<lparr>o_exchange_id := Some (al_id r), o_status := st,
             o_avg_price := (if hit \<and> al_price r \<noteq> 0 then al_price r else o_avg_price ord),
             o_filled_qty := (if hit \<and> al_qty r \<noteq> 0 then al_qty r else o_filled_qty ord),
             o_updated_ts := (case al_time r of Some t \<Rightarrow> Some (ms_clock t) | None \<Rightarrow> o_updated_ts ord)\<rparr>)"

text \<open>\<open>_apply\<close> and \<open>_apply_algo\<close> also remember whose order an exchange id is.\<close>

definition lb_put_ack :: "order_ack \<Rightarrow> order \<Rightarrow> 'x live_broker \<Rightarrow> 'x live_broker" where
  "lb_put_ack r ord b =
     (lb_track (lb_apply r ord) b)\<lparr>lb_by_id := AList.update (ak_id r) (o_client_id ord) (lb_by_id b)\<rparr>"

definition lb_put_algo :: "algo_ack \<Rightarrow> order \<Rightarrow> 'x live_broker \<Rightarrow> 'x live_broker" where
  "lb_put_algo r ord b =
     (let b1 = lb_track (lb_apply_algo r ord) b
      in case al_actual r of
           Some a \<Rightarrow> (if a \<noteq> 0 then b1\<lparr>lb_by_id := AList.update a (o_client_id ord) (lb_by_id b1)\<rparr> else b1)
         | None \<Rightarrow> b1)"

subsection \<open>Trades\<close>

definition fill_of_row :: "string \<Rightarrow> user_trade \<Rightarrow> fill" where
  "fill_of_row cid t =
     \<lparr>f_client_id = cid, f_ts = ms_clock (ur_time t), f_side = ur_side t, f_qty = ur_qty t, f_price = ur_price t,
      f_fee = (if ur_usdt t then ur_fee t else 0), f_liquidity = (if ur_maker t then MAKER else TAKER)\<rparr>"

text \<open>The client id of a trade's order; \<open>order:\<close> and the number for one not known.\<close>

definition cid_of_row :: "(int \<Rightarrow> string) \<Rightarrow> (int \<times> string) list \<Rightarrow> user_trade \<Rightarrow> string" where
  "cid_of_row other ids t = (case map_of ids (ur_order t) of Some cid \<Rightarrow> cid | None \<Rightarrow> other (ur_order t))"

definition int_text :: "int \<Rightarrow> string" where
  "int_text n = (if n < 0 then CHR ''-'' # show_nat (nat (- n)) else show_nat (nat n))"

definition stranger :: "int \<Rightarrow> string" where
  "stranger n = ''order:'' @ int_text n"

definition sync_from_fills :: "string \<Rightarrow> 'x live_broker \<Rightarrow> 'x live_broker" where
  "sync_from_fills cid b =
     (let mine = filter (\<lambda>f. f_client_id f = cid) (lb_fills b)
      in case map_of (lb_orders b) cid of
           None \<Rightarrow> b
         | Some ord \<Rightarrow>
             if mine = [] then b
             else
               (let q = (\<Sum>f\<leftarrow>mine. f_qty f)
                in lb_track (ord\<lparr>o_avg_price := (\<Sum>f\<leftarrow>mine. f_qty f * f_price f) / q,
                                 o_filled_qty := max (o_filled_qty ord) (round8 q)\<rparr>) b))"

definition take_trade :: "user_trade \<Rightarrow> 'x live_broker \<Rightarrow> 'x live_broker" where
  "take_trade t b =
     (let cid = cid_of_row stranger (lb_by_id b) t; f = fill_of_row cid t;
          b1 = sync_from_fills cid (b\<lparr>lb_last_trade := Some (ur_id t), lb_fills := lb_fills b @ [f]\<rparr>);
          p = lb_pos b1
      in lb_emit \<lparr>e_ts = f_ts f, e_client_id = cid, e_kind = Filled\<rparr>
           (b1\<lparr>lb_pos := p\<lparr>p_realized_pnl := p_realized_pnl p + ur_pnl t, p_fees := p_fees p + f_fee f\<rparr>\<rparr>))"

definition pull_query :: "datetime \<Rightarrow> 'x live_broker \<Rightarrow> trades_query" where
  "pull_query now b =
     (case lb_last_trade b of
        Some i \<Rightarrow> FromId (i + 1)
      | None \<Rightarrow>
          (let ts = List.map_filter (\<lambda>(_, ord). o_placed_ts ord) (lb_orders b)
           in FromTime ((if ts = [] then now else Min (set ts)) div 1000 - 1000)))"

definition pull_trades ::
    "'x exchange_api \<Rightarrow> datetime \<Rightarrow> 'x live_broker \<Rightarrow> (exn + unit) \<times> 'x live_broker" where
  "pull_trades ax now b =
     (case lb_call (ax_trades ax (pull_query now b)) b of
        (Inl e, b1) \<Rightarrow> (Inl (api_raise e), b1)
      | (Inr rows, b1) \<Rightarrow> (Inr (), fold take_trade rows b1))"

subsection \<open>Orders\<close>

text \<open>A refusal: the order is kept as rejected and the exception raised.\<close>

definition reject_reason :: "int option \<Rightarrow> reason" where
  "reject_reason code =
     (case code of Some c \<Rightarrow> if c \<in> set account_hints then AccountHint c else ExchangeCode code
      | None \<Rightarrow> ExchangeCode None)"

definition lb_reject ::
    "datetime \<Rightarrow> order \<Rightarrow> int option \<Rightarrow> 'x live_broker \<Rightarrow> (exn + order) \<times> 'x live_broker" where
  "lb_reject now ord code b =
     (let why = reject_reason code
      in (Inl (OrderRejected why),
          lb_emit \<lparr>e_ts = now, e_client_id = o_client_id ord, e_kind = Rejected\<rparr>
            (lb_track (ord\<lparr>o_status := REJECTED, o_reason := why\<rparr>) b)))"

text \<open>After a POST without an answer: the order as the exchange knows it.\<close>

definition lb_recover ::
    "(string \<Rightarrow> 'x \<Rightarrow> (api_error + 'a) \<times> 'x) \<Rightarrow> string \<Rightarrow> 'x live_broker \<Rightarrow> (exn + 'a) \<times> 'x live_broker" where
  "lb_recover get cid b =
     (case lb_call (get cid) b of
        (Inl (st, Some c), b1) \<Rightarrow>
          (Inl (if c \<in> set unknown_order then OrderRejected NotAtExchange else BinanceRestError st (Some c)), b1)
      | (Inl (st, None), b1) \<Rightarrow> (Inl (BinanceRestError st None), b1)
      | (Inr r, b1) \<Rightarrow> (Inr r, b1))"

fun wait_fill ::
    "'x exchange_api \<Rightarrow> datetime \<Rightarrow> string \<Rightarrow> nat \<Rightarrow> 'x live_broker \<Rightarrow> (exn + unit) \<times> 'x live_broker" where
  "wait_fill ax now cid 0 b = (Inr (), b)"
| "wait_fill ax now cid (Suc n) b =
     (case pull_trades ax now b of
        (Inl e, b1) \<Rightarrow> (Inl e, b1)
      | (Inr _, b1) \<Rightarrow>
          if \<exists>f\<in>set (lb_fills b1). f_client_id f = cid then (Inr (), b1) else wait_fill ax now cid n b1)"

text \<open>The order is accepted: kept, updated from the answer, and a market order waits for its fills.\<close>

definition lb_accepted ::
    "'x exchange_api \<Rightarrow> datetime \<Rightarrow> order \<Rightarrow> order_ack \<Rightarrow> 'x live_broker \<Rightarrow> (exn + order) \<times> 'x live_broker" where
  "lb_accepted ax now ord r b =
     (let cid = o_client_id ord;
          b1 = lb_emit \<lparr>e_ts = now, e_client_id = cid, e_kind = Placed\<rparr> (lb_put_ack r ord b);
          answer = (\<lambda>b. case map_of (lb_orders b) cid of Some x \<Rightarrow> Inr x | None \<Rightarrow> Inl (KeyError cid))
      in if o_type ord = MARKET
         then (case wait_fill ax now cid 10 b1 of
                 (Inl e, b2) \<Rightarrow> (Inl e, b2) | (Inr _, b2) \<Rightarrow> (answer b2, b2))
         else (answer b1, b1))"

definition lb_place ::
    "'x exchange_api \<Rightarrow> datetime \<Rightarrow> order \<Rightarrow> real option \<Rightarrow> 'x live_broker
     \<Rightarrow> (exn + order) \<times> 'x live_broker" where
  "lb_place ax now ord0 px b =
     (let cid = o_client_id ord0
      in case map_of (lb_orders b) cid of
           Some x \<Rightarrow> (Inr x, b)
         | None \<Rightarrow>
             (let ord = ord0\<lparr>o_placed_ts := Some now, o_updated_ts := Some now\<rparr>
              in case lb_qty b (o_qty ord) of
                   Inl e \<Rightarrow> (Inl e, b)
                 | Inr q \<Rightarrow>
                     (let rq = \<lparr>rq_side = o_side ord, rq_type = o_type ord, rq_qty = Some q, rq_price = px,
                                rq_reduce = o_reduce_only ord, rq_close_position = False, rq_client_id = cid\<rparr>
                      in case lb_call (ax_post ax rq) (b\<lparr>lb_posted := lb_posted b @ [cid]\<rparr>) of
                           (Inr r, b1) \<Rightarrow> lb_accepted ax now ord r b1
                         | (Inl (st, code), b1) \<Rightarrow>
                             if \<exists>c. code = Some c \<and> c \<in> set expire_codes
                             then (let x = ord\<lparr>o_status := EXPIRED, o_reason := ExpireCode (the code)\<rparr>
                                   in (Inr x, lb_emit \<lparr>e_ts = now, e_client_id = cid, e_kind = Expired\<rparr>
                                                (lb_track x b1)))
                             else if \<exists>s. st = Some s \<and> s < 500 then lb_reject now ord code b1
                             else (case lb_recover (ax_get ax) cid b1 of
                                     (Inl e, b2) \<Rightarrow> (Inl e, b2)
                                   | (Inr r, b2) \<Rightarrow> lb_accepted ax now ord r b2))))"

definition lb_place_market ::
    "'x exchange_api \<Rightarrow> datetime \<Rightarrow> side \<Rightarrow> real \<Rightarrow> string \<Rightarrow> bool \<Rightarrow> 'x live_broker
     \<Rightarrow> (exn + order) \<times> 'x live_broker" where
  "lb_place_market ax now sd q cid ro b =
     lb_place ax now ((new_order cid (lb_symbol b) sd MARKET q)\<lparr>o_reduce_only := ro\<rparr>) None b"

definition lb_place_limit_gtx ::
    "'x exchange_api \<Rightarrow> datetime \<Rightarrow> side \<Rightarrow> real \<Rightarrow> real \<Rightarrow> string \<Rightarrow> bool \<Rightarrow> 'x live_broker
     \<Rightarrow> (exn + order) \<times> 'x live_broker" where
  "lb_place_limit_gtx ax now sd q px cid ro b =
     (let p = lb_px b px
      in lb_place ax now ((new_order cid (lb_symbol b) sd LIMIT q)\<lparr>o_price := Some p, o_reduce_only := ro\<rparr>)
           (Some p) b)"

text \<open>The stop: with its quantity, or closing the whole position (\<open>PastofiLiveBroker\<close>).\<close>

definition lb_place_stop_market ::
    "'x exchange_api \<Rightarrow> datetime \<Rightarrow> side \<Rightarrow> real \<Rightarrow> real \<Rightarrow> string \<Rightarrow> 'x live_broker
     \<Rightarrow> (exn + order) \<times> 'x live_broker" where
  "lb_place_stop_market ax now sd q stop cid b =
     (case map_of (lb_orders b) cid of
        Some x \<Rightarrow> (Inr x, b)
      | None \<Rightarrow>
          (let p = lb_px b stop;
               ord = (new_order cid (lb_symbol b) sd STOP_MARKET q)
                 \<lparr>o_stop_price := Some p, o_reduce_only := True, o_placed_ts := Some now\<rparr>
           in case (if lb_close_position b then Inr None else map_sum id Some (lb_qty b q)) of
                Inl e \<Rightarrow> (Inl e, b)
              | Inr qo \<Rightarrow>
                  (let rq = \<lparr>rq_side = sd, rq_type = STOP_MARKET, rq_qty = qo, rq_price = Some p,
                             rq_reduce = (qo \<noteq> None), rq_close_position = lb_close_position b, rq_client_id = cid\<rparr>;
                       fin = (\<lambda>r b. let b1 = lb_emit \<lparr>e_ts = now, e_client_id = cid, e_kind = Placed\<rparr> (lb_put_algo r ord b)
                                    in (Inr (lb_apply_algo r ord), b1))
                   in case lb_call (ax_post_algo ax rq) (b\<lparr>lb_posted := lb_posted b @ [cid]\<rparr>) of
                        (Inr r, b1) \<Rightarrow> fin r b1
                      | (Inl (st, code), b1) \<Rightarrow>
                          if \<exists>s. st = Some s \<and> s < 500 then lb_reject now ord code b1
                          else (case lb_recover (ax_get_algo ax) cid b1 of
                                  (Inl e, b2) \<Rightarrow> (Inl e, b2) | (Inr r, b2) \<Rightarrow> fin r b2))))"

definition lb_get_order :: "string \<Rightarrow> 'x live_broker \<Rightarrow> exn + order" where
  "lb_get_order cid b = (case map_of (lb_orders b) cid of Some x \<Rightarrow> Inr x | None \<Rightarrow> Inl (KeyError cid))"

text \<open>\<open>cancel\<close>: an order unknown to the exchange is an \<open>OrderRejected\<close>.\<close>

definition cancel_error :: "api_error \<Rightarrow> exn" where
  "cancel_error e =
     (case snd e of Some c \<Rightarrow> if c \<in> set unknown_order then OrderRejected (NothingToCancel c) else api_raise e
      | None \<Rightarrow> api_raise e)"

definition canceled_at :: "datetime \<Rightarrow> string \<Rightarrow> 'x live_broker \<Rightarrow> (exn + order) \<times> 'x live_broker" where
  "canceled_at now cid b =
     (case map_of (lb_orders b) cid of
        None \<Rightarrow> (Inl (KeyError cid), b)
      | Some ord \<Rightarrow>
          (let x = ord\<lparr>o_updated_ts := Some now\<rparr>
           in (Inr x, lb_emit \<lparr>e_ts = now, e_client_id = cid, e_kind = Canceled\<rparr> (lb_track x b))))"

definition lb_cancel ::
    "'x exchange_api \<Rightarrow> datetime \<Rightarrow> string \<Rightarrow> 'x live_broker \<Rightarrow> (exn + order) \<times> 'x live_broker" where
  "lb_cancel ax now cid b =
     (case lb_get_order cid b of
        Inl e \<Rightarrow> (Inl e, b)
      | Inr ord \<Rightarrow>
          if o_type ord = STOP_MARKET
          then (case lb_call (ax_delete_algo ax cid) b of
                  (Inl e, b1) \<Rightarrow> (Inl (cancel_error e), b1)
                | (Inr code, b1) \<Rightarrow>
                    canceled_at now cid
                      (if code = None \<or> code = Some 200 then lb_track (ord\<lparr>o_status := CANCELED\<rparr>) b1 else b1))
          else (case lb_call (ax_delete ax cid) b of
                  (Inl e, b1) \<Rightarrow> (Inl (cancel_error e), b1)
                | (Inr r, b1) \<Rightarrow> canceled_at now cid (lb_put_ack r ord b1)))"

subsection \<open>Queries\<close>

definition seen_order :: "string \<Rightarrow> open_row \<Rightarrow> 'x live_broker \<Rightarrow> order" where
  "seen_order sm r b =
     (case map_of (lb_orders b) (op_client_id r) of
        Some x \<Rightarrow> x
      | None \<Rightarrow> (new_order (op_client_id r) sm (op_side r) (op_type r) (op_qty r))
          \<lparr>o_price := (if op_price r = 0 then None else Some (op_price r)), o_reduce_only := op_reduce r\<rparr>)"

definition seen_algo :: "string \<Rightarrow> open_row \<Rightarrow> 'x live_broker \<Rightarrow> order" where
  "seen_algo sm r b =
     (case map_of (lb_orders b) (op_client_id r) of
        Some x \<Rightarrow> x
      | None \<Rightarrow> (new_order (op_client_id r) sm (op_side r) STOP_MARKET (op_qty r))
          \<lparr>o_stop_price := Some (op_price r), o_reduce_only := True\<rparr>)"

definition lb_open_orders ::
    "'x exchange_api \<Rightarrow> 'x live_broker \<Rightarrow> (exn + order list) \<times> 'x live_broker" where
  "lb_open_orders ax b =
     (case lb_call (ax_open ax) b of
        (Inl e, b1) \<Rightarrow> (Inl (api_raise e), b1)
      | (Inr rows, b1) \<Rightarrow>
          (let b2 = fold (\<lambda>(r, k) b. lb_put_ack k (seen_order (lb_symbol b) r b) b) rows b1
           in case lb_call (ax_open_algo ax) b2 of
                (Inl e, b3) \<Rightarrow> (Inl (api_raise e), b3)
              | (Inr algos, b3) \<Rightarrow>
                  (let b4 = fold (\<lambda>(r, k) b. lb_put_algo k (seen_algo (lb_symbol b) r b) b) algos b3;
                       ids = map (op_client_id \<circ> fst) rows @ map (op_client_id \<circ> fst) algos
                   in (Inr (filter (\<lambda>x. is_open (o_status x)) (List.map_filter (map_of (lb_orders b4)) ids)), b4))))"

definition lb_cancel_all ::
    "'x exchange_api \<Rightarrow> datetime \<Rightarrow> 'x live_broker \<Rightarrow> (exn + order list) \<times> 'x live_broker" where
  "lb_cancel_all ax now b =
     (case lb_open_orders ax b of
        (Inl e, b1) \<Rightarrow> (Inl e, b1)
      | (Inr before, b1) \<Rightarrow>
          (case lb_call (ax_delete_all ax) b1 of
             (Inl e, b2) \<Rightarrow> (Inl (api_raise e), b2)
           | (Inr _, b2) \<Rightarrow>
               (case lb_call (ax_delete_all_algo ax) b2 of
                  (Inl e, b3) \<Rightarrow> (Inl (api_raise e), b3)
                | (Inr _, b3) \<Rightarrow>
                    (let gone = map (\<lambda>x. x\<lparr>o_status := CANCELED, o_updated_ts := Some now\<rparr>) before
                     in (Inr gone,
                         fold (\<lambda>x b. lb_emit \<lparr>e_ts = now, e_client_id = o_client_id x, e_kind = Canceled\<rparr> (lb_track x b))
                           gone b3)))))"

definition lb_position :: "'x exchange_api \<Rightarrow> 'x live_broker \<Rightarrow> (exn + position) \<times> 'x live_broker" where
  "lb_position ax b =
     (case lb_call (ax_positions ax) b of
        (Inl e, b1) \<Rightarrow> (Inl (api_raise e), b1)
      | (Inr rows, b1) \<Rightarrow>
          (let p = (lb_pos b1)\<lparr>p_qty := (\<Sum>r\<leftarrow>rows. fst r),
                     p_entry_price := (case find (\<lambda>r. fst r \<noteq> 0) rows of Some r \<Rightarrow> snd r | None \<Rightarrow> 0)\<rparr>
           in (Inr p, b1\<lparr>lb_pos := p\<rparr>)))"

definition lb_fills_since ::
    "'x exchange_api \<Rightarrow> datetime \<Rightarrow> 'x live_broker \<Rightarrow> (exn + fill list) \<times> 'x live_broker" where
  "lb_fills_since ax since b =
     (case lb_call (ax_trades ax (FromTime (since div 1000))) b of
        (Inl e, b1) \<Rightarrow> (Inl (api_raise e), b1)
      | (Inr rows, b1) \<Rightarrow> (Inr (map (\<lambda>t. fill_of_row (cid_of_row stranger (lb_by_id b1) t) t) rows), b1))"

definition lb_funding_between ::
    "'x exchange_api \<Rightarrow> datetime \<Rightarrow> datetime \<Rightarrow> 'x live_broker \<Rightarrow> (exn + real) \<times> 'x live_broker" where
  "lb_funding_between ax start stop b =
     (case lb_call (ax_funding ax (start div 1000) (stop div 1000)) b of
        (Inl e, b1) \<Rightarrow> (Inl (api_raise e), b1)
      | (Inr xs, b1) \<Rightarrow> (Inr (sum_list xs), b1))"

text \<open>\<open>poll\<close>: every tracked open order is asked for, then the new trades are read.\<close>

fun poll_orders ::
    "'x exchange_api \<Rightarrow> datetime \<Rightarrow> order list \<Rightarrow> 'x live_broker \<Rightarrow> (exn + unit) \<times> 'x live_broker" where
  "poll_orders ax now [] b = (Inr (), b)"
| "poll_orders ax now (ord # ords) b =
     (let cid = o_client_id ord
      in if o_type ord = STOP_MARKET
         then (case lb_call (ax_get_algo ax cid) b of
                 (Inl e, b1) \<Rightarrow> (Inl (api_raise e), b1)
               | (Inr r, b1) \<Rightarrow>
                   (let b2 = lb_put_algo r ord b1
                    in poll_orders ax now ords
                         (if o_status (lb_apply_algo r ord) = FILLED
                          then lb_emit \<lparr>e_ts = now, e_client_id = cid, e_kind = Triggered\<rparr> b2 else b2)))
         else (case lb_call (ax_get ax cid) b of
                 (Inl e, b1) \<Rightarrow> (Inl (api_raise e), b1)
               | (Inr r, b1) \<Rightarrow>
                   (let b2 = lb_put_ack r ord b1; st = ak_status r
                    in poll_orders ax now ords
                         (if \<not> is_open st \<and> st \<noteq> FILLED
                          then lb_emit \<lparr>e_ts = now, e_client_id = cid, e_kind = close_kind st\<rparr> b2 else b2))))"

definition lb_poll ::
    "'x exchange_api \<Rightarrow> datetime \<Rightarrow> 'x live_broker \<Rightarrow> (exn + order_event list) \<times> 'x live_broker" where
  "lb_poll ax now b =
     (case poll_orders ax now (filter (\<lambda>x. is_open (o_status x)) (map snd (lb_orders b))) b of
        (Inl e, b1) \<Rightarrow> (Inl e, b1)
      | (Inr _, b1) \<Rightarrow>
          (case pull_trades ax now b1 of
             (Inl e, b2) \<Rightarrow> (Inl e, b2)
           | (Inr _, b2) \<Rightarrow> (Inr (drop (length (lb_events b)) (lb_events b2)), b2)))"

subsection \<open>The account check\<close>

record account_config =
  ac_margin_type :: string
  ac_leverage :: int
  ac_multi_assets :: bool
  ac_dual_side :: bool

record account_expected =
  ae_margin_type :: "string option"
  ae_leverage :: "int option"
  ae_multi_assets :: "bool option"
  ae_dual_side :: "bool option"
  ae_fees :: "(real \<times> real) option"

datatype account_diff = MarginDiff | LeverageDiff | MultiAssetsDiff | DualSideDiff | FeesDiff real real

definition differs :: "'a option \<Rightarrow> 'a \<Rightarrow> 'd \<Rightarrow> 'd list" where
  "differs want got d = (case want of Some w \<Rightarrow> if w \<noteq> got then [d] else [] | None \<Rightarrow> [])"

definition verify_account :: "account_config \<Rightarrow> real \<times> real \<Rightarrow> account_expected \<Rightarrow> account_diff list" where
  "verify_account got rates ae =
     differs (ae_margin_type ae) (ac_margin_type got) MarginDiff
     @ differs (ae_leverage ae) (ac_leverage got) LeverageDiff
     @ differs (ae_multi_assets ae) (ac_multi_assets got) MultiAssetsDiff
     @ differs (ae_dual_side ae) (ac_dual_side got) DualSideDiff
     @ (case ae_fees ae of
          None \<Rightarrow> []
        | Some (mk, tk) \<Rightarrow>
            (let maker = fst rates * 10000; taker = snd rates * 10000
             in if 1 / 10 ^ 6 < \<bar>maker - mk\<bar> \<or> 1 / 10 ^ 6 < \<bar>taker - tk\<bar> then [FeesDiff maker taker] else []))"

end
