(* ===== verification/Live_Correct.thy ===== *)
theory Live_Correct
  imports Live_Broker "HOL-Library.Sublist"
begin

text \<open>
  The live broker's ledger: however its operations interleave with failing calls and new
  trades at the exchange, the fills it recorded are a gapless piece of the exchange's trade
  history, each trade once, and the realised result and the fees are those of that piece.
  The exchange is any \<open>exchange_api\<close> with a trade history (\<open>history_api\<close>): ids increase,
  times do not go back, a call only appends to it, and the trade query answers from it.
\<close>

subsection \<open>An exchange with a trade history\<close>

definition appends :: "('x \<Rightarrow> user_trade list) \<Rightarrow> ('x \<Rightarrow> 'r \<times> 'x) \<Rightarrow> bool" where
  "appends hist f \<longleftrightarrow> (\<forall>x. prefix (hist x) (hist (snd (f x))))"

fun answers :: "trades_query \<Rightarrow> user_trade \<Rightarrow> bool" where
  "answers (FromId i) t = (i \<le> ur_id t)"
| "answers (FromTime ms) t = (ms \<le> ur_time t)"

text \<open>A trade query answers with the first 1000 trades of the history it asks for.\<close>

definition answers_ok :: "'x exchange_api \<Rightarrow> ('x \<Rightarrow> user_trade list) \<Rightarrow> trades_query \<Rightarrow> 'x \<Rightarrow> bool" where
  "answers_ok ax hist q x =
     (case ax_trades ax q x of
        (Inl _, _) \<Rightarrow> True
      | (Inr rows, x') \<Rightarrow> rows = take 1000 (filter (answers q) (hist x')))"

definition history_api :: "'x exchange_api \<Rightarrow> ('x \<Rightarrow> user_trade list) \<Rightarrow> bool" where
  "history_api ax hist \<longleftrightarrow>
     (\<forall>x. sorted_wrt (\<lambda>a b. ur_id a < ur_id b \<and> ur_time a \<le> ur_time b) (hist x))
     \<and> (\<forall>rq. appends hist (ax_post ax rq)) \<and> (\<forall>cid. appends hist (ax_get ax cid))
     \<and> (\<forall>cid. appends hist (ax_delete ax cid)) \<and> (\<forall>rq. appends hist (ax_post_algo ax rq))
     \<and> (\<forall>cid. appends hist (ax_get_algo ax cid)) \<and> (\<forall>cid. appends hist (ax_delete_algo ax cid))
     \<and> appends hist (ax_delete_all ax) \<and> appends hist (ax_delete_all_algo ax)
     \<and> appends hist (ax_open ax) \<and> appends hist (ax_open_algo ax) \<and> appends hist (ax_positions ax)
     \<and> (\<forall>q. appends hist (ax_trades ax q)) \<and> (\<forall>a b. appends hist (ax_funding ax a b))
     \<and> (\<forall>q x. answers_ok ax hist q x)"

subsection \<open>The ledger\<close>

definition fill_core :: "fill \<Rightarrow> datetime \<times> side \<times> real \<times> real \<times> real \<times> liquidity" where
  "fill_core f = (f_ts f, f_side f, f_qty f, f_price f, f_fee f, f_liquidity f)"

definition row_core :: "user_trade \<Rightarrow> datetime \<times> side \<times> real \<times> real \<times> real \<times> liquidity" where
  "row_core t = fill_core (fill_of_row '''' t)"

lemma fill_core_row [simp]: "fill_core (fill_of_row cid t) = row_core t"
  by (simp add: fill_core_def row_core_def fill_of_row_def)

definition row_fee :: "user_trade \<Rightarrow> real" where
  "row_fee t = (if ur_usdt t then ur_fee t else 0)"

text \<open>\<open>seg\<close> is the piece of the history the broker has read.\<close>

definition ledger :: "user_trade list \<Rightarrow> 'x live_broker \<Rightarrow> bool" where
  "ledger seg b \<longleftrightarrow>
     map fill_core (lb_fills b) = map row_core seg
     \<and> lb_last_trade b = (if seg = [] then None else Some (ur_id (last seg)))
     \<and> p_realized_pnl (lb_pos b) = (\<Sum>t\<leftarrow>seg. ur_pnl t)
     \<and> p_fees (lb_pos b) = (\<Sum>t\<leftarrow>seg. row_fee t)"

definition live_ok :: "('x \<Rightarrow> user_trade list) \<Rightarrow> 'x live_broker \<Rightarrow> bool" where
  "live_ok hist b \<longleftrightarrow> (\<exists>pre seg post. hist (lb_x b) = pre @ seg @ post \<and> ledger seg b)"

text \<open>Steps that read no trades.\<close>

definition quiet :: "('x \<Rightarrow> user_trade list) \<Rightarrow> 'x live_broker \<Rightarrow> 'x live_broker \<Rightarrow> bool" where
  "quiet hist b b' \<longleftrightarrow>
     prefix (hist (lb_x b)) (hist (lb_x b')) \<and> lb_fills b' = lb_fills b \<and> lb_last_trade b' = lb_last_trade b
     \<and> p_realized_pnl (lb_pos b') = p_realized_pnl (lb_pos b) \<and> p_fees (lb_pos b') = p_fees (lb_pos b)"

lemma quiet_refl [simp]: "quiet hist b b"
  by (simp add: quiet_def)

lemma quiet_trans: "quiet hist a b \<Longrightarrow> quiet hist b c \<Longrightarrow> quiet hist a c"
  by (auto simp: quiet_def)

lemma quiet_ok: "live_ok hist b \<Longrightarrow> quiet hist b b' \<Longrightarrow> live_ok hist b'"
  by (fastforce simp: live_ok_def quiet_def ledger_def prefix_def)

lemma frames [simp]:
  "quiet hist b (lb_emit e c) = quiet hist b c" "quiet hist b (lb_track x c) = quiet hist b c"
  "quiet hist b (c\<lparr>lb_posted := ps\<rparr>) = quiet hist b c" "quiet hist b (lb_put_ack r x c) = quiet hist b c"
  "quiet hist b (lb_put_algo r2 x c) = quiet hist b c"
  by (simp_all add: quiet_def lb_emit_def lb_track_def lb_put_ack_def lb_put_algo_def Let_def split: option.split)

lemma call_quiet:
  assumes "appends hist f" "lb_call f b = (r, b')" shows "quiet hist b b'"
proof -
  have "b' = b\<lparr>lb_x := snd (f (lb_x b))\<rparr>" using assms(2) by (auto simp: lb_call_def split: prod.splits)
  then show ?thesis using assms(1) by (simp add: quiet_def appends_def)
qed

lemma history_apiD:
  assumes "history_api ax hist"
  shows "appends hist (ax_post ax rq)" "appends hist (ax_get ax cid)" "appends hist (ax_delete ax cid)"
    "appends hist (ax_post_algo ax rq)" "appends hist (ax_get_algo ax cid)" "appends hist (ax_delete_algo ax cid)"
    "appends hist (ax_delete_all ax)" "appends hist (ax_delete_all_algo ax)" "appends hist (ax_open ax)"
    "appends hist (ax_open_algo ax)" "appends hist (ax_positions ax)" "appends hist (ax_trades ax q)"
    "appends hist (ax_funding ax m n)"
    "sorted_wrt (\<lambda>a b. ur_id a < ur_id b \<and> ur_time a \<le> ur_time b) (hist x)"
  using assms unfolding history_api_def by blast+

lemma history_answers:
  assumes "history_api ax hist" "ax_trades ax q x = (Inr rows, x')"
  shows "rows = take 1000 (filter (answers q) (hist x'))"
proof -
  have "answers_ok ax hist q x" using assms(1) unfolding history_api_def by blast
  then show ?thesis using assms(2) by (simp add: answers_ok_def)
qed

subsection \<open>Reading trades\<close>

lemma sync_frame:
  "lb_x (sync_from_fills cid b) = lb_x b" "lb_fills (sync_from_fills cid b) = lb_fills b"
  "lb_last_trade (sync_from_fills cid b) = lb_last_trade b" "lb_pos (sync_from_fills cid b) = lb_pos b"
  by (simp_all add: sync_from_fills_def Let_def lb_track_def split: option.split)

lemma take_trade_fields:
  "lb_x (take_trade t b) = lb_x b"
  "map fill_core (lb_fills (take_trade t b)) = map fill_core (lb_fills b) @ [row_core t]"
  "lb_last_trade (take_trade t b) = Some (ur_id t)"
  "p_realized_pnl (lb_pos (take_trade t b)) = p_realized_pnl (lb_pos b) + ur_pnl t"
  "p_fees (lb_pos (take_trade t b)) = p_fees (lb_pos b) + row_fee t"
  by (simp_all add: take_trade_def Let_def lb_emit_def sync_frame row_fee_def, simp_all add: fill_of_row_def)

lemma take_trades_ledger: "ledger seg b \<Longrightarrow> ledger (seg @ rows) (fold take_trade rows b) \<and> lb_x (fold take_trade rows b) = lb_x b"
proof (induction rows arbitrary: seg b)
  case (Cons t rows)
  have "ledger (seg @ [t]) (take_trade t b)"
    using Cons.prems by (simp add: ledger_def take_trade_fields)
  then have "ledger ((seg @ [t]) @ rows) (fold take_trade rows (take_trade t b))
      \<and> lb_x (fold take_trade rows (take_trade t b)) = lb_x (take_trade t b)" by (rule Cons.IH)
  then show ?case by (simp add: take_trade_fields)
qed simp

text \<open>What a query answers is a piece of the history right after what was read before.\<close>

lemma filter_suffix:
  assumes "sorted_wrt (\<lambda>a b. P a \<longrightarrow> P b) xs"
  shows "\<exists>pre. xs = pre @ filter P xs \<and> (\<forall>t\<in>set pre. \<not> P t)"
  using assms
proof (induction xs)
  case (Cons a xs)
  show ?case
  proof (cases "P a")
    case True
    then have "filter P xs = xs" using Cons.prems by (simp add: filter_id_conv)
    then show ?thesis using True by simp
  next
    case False
    obtain pre where "xs = pre @ filter P xs \<and> (\<forall>t\<in>set pre. \<not> P t)" using Cons by auto
    then have "a # xs = (a # pre) @ filter P (a # xs) \<and> (\<forall>t\<in>set (a # pre). \<not> P t)" using False by simp
    then show ?thesis by blast
  qed
qed simp

lemma answers_suffix:
  assumes "history_api ax hist" shows "\<exists>pre. hist x = pre @ filter (answers q) (hist x)"
proof -
  have "sorted_wrt (\<lambda>a b. answers q a \<longrightarrow> answers q b) (hist x)"
    by (rule sorted_wrt_mono_rel [OF _ history_apiD(14) [OF assms]]) (cases q, auto)
  from filter_suffix [OF this] show ?thesis by blast
qed

lemma unread_piece:
  assumes "history_api ax hist" "hist x = pre @ seg @ post" "seg \<noteq> []"
  shows "filter (answers (FromId (ur_id (last seg) + 1))) (hist x) = post"
proof -
  obtain sg l where seg: "seg = sg @ [l]" using assms(3) by (meson rev_exhaust)
  have so: "sorted_wrt (\<lambda>a b. ur_id a < ur_id b \<and> ur_time a \<le> ur_time b) ((pre @ sg) @ [l] @ post)"
    using history_apiD(14) [OF assms(1), of x] assms(2) seg by simp
  have before: "ur_id t < ur_id l" if "t \<in> set (pre @ sg)" for t
    using so that unfolding sorted_wrt_append by simp
  have after: "ur_id l < ur_id t" if "t \<in> set post" for t
    using so that unfolding sorted_wrt_append by simp
  have "filter (answers (FromId (ur_id l + 1))) (pre @ sg @ [l]) = []"
    using before by (fastforce simp: filter_empty_conv)
  moreover have "filter (answers (FromId (ur_id l + 1))) post = post"
    using after by (fastforce simp: filter_id_conv)
  ultimately show ?thesis using assms(2) seg by simp
qed

lemma pull_ok:
  assumes "history_api ax hist" "live_ok hist b"
  shows "live_ok hist (snd (pull_trades ax now b))"
proof -
  obtain r b1 where c: "lb_call (ax_trades ax (pull_query now b)) b = (r, b1)"
    by (cases "lb_call (ax_trades ax (pull_query now b)) b")
  have q: "quiet hist b b1" by (rule call_quiet [OF history_apiD(12) [OF assms(1)] c])
  have ok: "live_ok hist b1" by (rule quiet_ok [OF assms(2) q])
  show ?thesis
  proof (cases r)
    case (Inl e)
    then show ?thesis using c ok by (simp add: pull_trades_def)
  next
    case (Inr rows)
    have res: "snd (pull_trades ax now b) = fold take_trade rows b1" using c Inr by (simp add: pull_trades_def)
    have rows: "rows = take 1000 (filter (answers (pull_query now b)) (hist (lb_x b1)))"
      using history_answers [OF assms(1)] c Inr by (auto simp: lb_call_def split: prod.splits)
    obtain pre seg post where h: "hist (lb_x b1) = pre @ seg @ post" "ledger seg b1" using ok by (auto simp: live_ok_def)
    show ?thesis
    proof (cases "seg = []")
      case True
      obtain pre' where p': "hist (lb_x b1) = pre' @ filter (answers (pull_query now b)) (hist (lb_x b1))"
        using answers_suffix [OF assms(1)] by blast
      let ?new = "filter (answers (pull_query now b)) (hist (lb_x b1))"
      have "hist (lb_x b1) = pre' @ rows @ drop 1000 ?new" using p' rows by (metis append_take_drop_id)
      moreover have "ledger ([] @ rows) (fold take_trade rows b1) \<and> lb_x (fold take_trade rows b1) = lb_x b1"
        using take_trades_ledger h(2) True by blast
      ultimately show ?thesis unfolding res live_ok_def by (metis append_Nil)
    next
      case False
      have "lb_last_trade b = Some (ur_id (last seg))"
        using h(2) False q by (simp add: ledger_def quiet_def)
      then have "rows = take 1000 post"
        using rows unread_piece [OF assms(1) h(1) False] by (simp add: pull_query_def)
      then have "hist (lb_x b1) = pre @ (seg @ rows) @ drop 1000 post" using h(1) by simp
      moreover have "ledger (seg @ rows) (fold take_trade rows b1) \<and> lb_x (fold take_trade rows b1) = lb_x b1"
        by (rule take_trades_ledger [OF h(2)])
      ultimately show ?thesis unfolding res live_ok_def by metis
    qed
  qed
qed

subsection \<open>The operations\<close>

lemma wait_fill_ok: "history_api ax hist \<Longrightarrow> live_ok hist b \<Longrightarrow> live_ok hist (snd (wait_fill ax now cid n b))"
proof (induction n arbitrary: b)
  case (Suc n)
  obtain r b1 where p: "pull_trades ax now b = (r, b1)" by (cases "pull_trades ax now b")
  have "live_ok hist b1" using pull_ok [OF Suc.prems, of now] p by simp
  then show ?case using Suc.IH [OF Suc.prems(1)] p by (cases r) simp_all
qed simp

lemma accepted_ok:
  assumes "history_api ax hist" "live_ok hist b"
  shows "live_ok hist (snd (lb_accepted ax now ord r b))"
proof -
  let ?b1 = "lb_emit \<lparr>e_ts = now, e_client_id = o_client_id ord, e_kind = Placed\<rparr> (lb_put_ack r ord b)"
  have b1: "live_ok hist ?b1" by (rule quiet_ok [OF assms(2)]) simp
  show ?thesis
  proof (cases "o_type ord = MARKET")
    case True
    obtain x b2 where w: "wait_fill ax now (o_client_id ord) 10 ?b1 = (x, b2)"
      by (cases "wait_fill ax now (o_client_id ord) 10 ?b1")
    have "live_ok hist b2" using wait_fill_ok [OF assms(1) b1, of now "o_client_id ord" 10] w by simp
    then show ?thesis using True w by (cases x) (simp_all add: lb_accepted_def Let_def)
  next
    case False
    then show ?thesis using b1 by (simp add: lb_accepted_def Let_def)
  qed
qed

lemma reject_quiet: "quiet hist b c \<Longrightarrow> quiet hist b (snd (lb_reject now ord code c))"
  by (simp add: lb_reject_def Let_def)

lemma recover_quiet:
  assumes "appends hist (get cid)" "lb_recover get cid b = (r, b')" shows "quiet hist b b'"
proof -
  obtain x b1 where c: "lb_call (get cid) b = (x, b1)" by (cases "lb_call (get cid) b")
  have "b' = b1" using assms(2) c by (auto simp: lb_recover_def split: sum.splits prod.splits option.splits)
  then show ?thesis using call_quiet [OF assms(1) c] by simp
qed

lemma place_ok:
  assumes "history_api ax hist" "live_ok hist b"
  shows "live_ok hist (snd (lb_place ax now ord px b))"
proof (cases "map_of (lb_orders b) (o_client_id ord)")
  case (Some x)
  then show ?thesis using assms(2) by (simp add: lb_place_def Let_def)
next
  case None
  let ?cid = "o_client_id ord" and ?ord = "ord\<lparr>o_placed_ts := Some now, o_updated_ts := Some now\<rparr>"
  show ?thesis
  proof (cases "lb_qty b (o_qty ord)")
    case (Inl e)
    then show ?thesis using None assms(2) by (simp add: lb_place_def Let_def)
  next
    case (Inr q)
    let ?rq = "\<lparr>rq_side = o_side ord, rq_type = o_type ord, rq_qty = Some q, rq_price = px,
                rq_reduce = o_reduce_only ord, rq_close_position = False, rq_client_id = ?cid\<rparr>"
    let ?b0 = "b\<lparr>lb_posted := lb_posted b @ [?cid]\<rparr>"
    obtain r b1 where c: "lb_call (ax_post ax ?rq) ?b0 = (r, b1)" by (cases "lb_call (ax_post ax ?rq) ?b0")
    have q1: "quiet hist b b1"
      by (rule quiet_trans [of _ _ ?b0]) (simp, rule call_quiet [OF history_apiD(1) [OF assms(1)] c])
    have ok1: "live_ok hist b1" by (rule quiet_ok [OF assms(2) q1])
    show ?thesis
    proof (cases r)
      case r: (Inr k)
      then show ?thesis
        using None Inr c accepted_ok [OF assms(1) ok1] by (simp add: lb_place_def Let_def)
    next
      case r: (Inl e)
      obtain st code where e: "e = (st, code)" by (cases e)
      obtain x b2 where rc: "lb_recover (ax_get ax) ?cid b1 = (x, b2)" by (cases "lb_recover (ax_get ax) ?cid b1")
      have ok2: "live_ok hist b2"
        by (rule quiet_ok [OF ok1 recover_quiet [OF history_apiD(2) [OF assms(1)] rc]])
      have expired: "live_ok hist (lb_emit ev (lb_track y b1))" for ev y by (rule quiet_ok [OF ok1]) simp
      have rejected: "live_ok hist (snd (lb_reject now ?ord code b1))"
        by (rule quiet_ok [OF ok1 reject_quiet]) simp
      show ?thesis
        using None Inr c r e rc ok2 expired rejected accepted_ok [OF assms(1) ok2]
        by (simp add: lb_place_def Let_def split: sum.split)
    qed
  qed
qed

lemma stop_ok:
  assumes "history_api ax hist" "live_ok hist b"
  shows "live_ok hist (snd (lb_place_stop_market ax now sd q stp cid b))"
proof (cases "map_of (lb_orders b) cid")
  case (Some x)
  then show ?thesis using assms(2) by (simp add: lb_place_stop_market_def)
next
  case None
  show ?thesis
  proof (cases "if lb_close_position b then Inr None else map_sum id Some (lb_qty b q)")
    case (Inl e)
    then show ?thesis using None assms(2) by (simp add: lb_place_stop_market_def Let_def)
  next
    case (Inr qo)
    let ?rq = "\<lparr>rq_side = sd, rq_type = STOP_MARKET, rq_qty = qo, rq_price = Some (lb_px b stp),
                rq_reduce = (qo \<noteq> None), rq_close_position = lb_close_position b, rq_client_id = cid\<rparr>"
    let ?b0 = "b\<lparr>lb_posted := lb_posted b @ [cid]\<rparr>"
    obtain r b1 where c: "lb_call (ax_post_algo ax ?rq) ?b0 = (r, b1)" by (cases "lb_call (ax_post_algo ax ?rq) ?b0")
    have q1: "quiet hist b b1"
      by (rule quiet_trans [of _ _ ?b0]) (simp, rule call_quiet [OF history_apiD(4) [OF assms(1)] c])
    have ok1: "live_ok hist b1" by (rule quiet_ok [OF assms(2) q1])
    obtain x b2 where rc: "lb_recover (ax_get_algo ax) cid b1 = (x, b2)" by (cases "lb_recover (ax_get_algo ax) cid b1")
    have ok2: "live_ok hist b2"
      by (rule quiet_ok [OF ok1 recover_quiet [OF history_apiD(5) [OF assms(1)] rc]])
    have fin: "live_ok hist (lb_emit ev (lb_put_algo k y d))" if "live_ok hist d" for ev k y and d :: "'a live_broker"
      by (rule quiet_ok [OF that]) simp
    have rejected: "live_ok hist (snd (lb_reject now y code b1))" for y code
      by (rule quiet_ok [OF ok1 reject_quiet]) simp
    show ?thesis
      using None Inr c rc fin [OF ok1] fin [OF ok2] ok2 rejected
      by (cases r) (auto simp: lb_place_stop_market_def Let_def split: sum.split prod.split)
  qed
qed

lemma canceled_at_ok: "live_ok hist b \<Longrightarrow> live_ok hist (snd (canceled_at now cid b))"
  by (auto simp: canceled_at_def Let_def intro: quiet_ok split: option.split)

lemma cancel_ok:
  assumes "history_api ax hist" "live_ok hist b"
  shows "live_ok hist (snd (lb_cancel ax now cid b))"
proof (cases "lb_get_order cid b")
  case (Inl e)
  then show ?thesis using assms(2) by (simp add: lb_cancel_def)
next
  case (Inr ord)
  obtain r b1 where c: "lb_call (ax_delete_algo ax cid) b = (r, b1)" by (cases "lb_call (ax_delete_algo ax cid) b")
  obtain r' b2 where d: "lb_call (ax_delete ax cid) b = (r', b2)" by (cases "lb_call (ax_delete ax cid) b")
  have ok1: "live_ok hist b1" by (rule quiet_ok [OF assms(2) call_quiet [OF history_apiD(6) [OF assms(1)] c]])
  have ok2: "live_ok hist b2" by (rule quiet_ok [OF assms(2) call_quiet [OF history_apiD(3) [OF assms(1)] d]])
  have tr: "live_ok hist (lb_track y b1)" for y by (rule quiet_ok [OF ok1]) simp
  have pa: "live_ok hist (lb_put_ack k y b2)" for k y by (rule quiet_ok [OF ok2]) simp
  show ?thesis
    using Inr c d ok1 ok2 canceled_at_ok [OF ok1] canceled_at_ok [OF tr] canceled_at_ok [OF pa]
    by (auto simp: lb_cancel_def split: sum.split)
qed

lemma fold_quiet: "(\<And>r b. quiet hist b (f r b)) \<Longrightarrow> quiet hist b (fold f rs b)"
  by (induction rs arbitrary: b) (auto intro: quiet_trans)

lemma open_orders_quiet:
  assumes "history_api ax hist" shows "quiet hist b (snd (lb_open_orders ax b))"
proof -
  let ?f = "\<lambda>(r, k) b. lb_put_ack k (seen_order (lb_symbol b) r b) b"
  let ?g = "\<lambda>(r, k) b. lb_put_algo k (seen_algo (lb_symbol b) r b) b"
  have f: "quiet hist d (fold ?f rows d)" and g: "quiet hist d (fold ?g algos d)" for rows algos d
    by (auto intro!: fold_quiet split: prod.split)
  obtain r b1 where c: "lb_call (ax_open ax) b = (r, b1)" by (cases "lb_call (ax_open ax) b")
  have q1: "quiet hist b b1" by (rule call_quiet [OF history_apiD(9) [OF assms] c])
  show ?thesis
  proof (cases r)
    case (Inl e)
    then show ?thesis using c q1 by (simp add: lb_open_orders_def)
  next
    case (Inr rows)
    obtain s b3 where d: "lb_call (ax_open_algo ax) (fold ?f rows b1) = (s, b3)"
      by (cases "lb_call (ax_open_algo ax) (fold ?f rows b1)")
    have q3: "quiet hist b b3"
      using quiet_trans [OF quiet_trans [OF q1 f] call_quiet [OF history_apiD(10) [OF assms] d]] .
    show ?thesis
      using c Inr d q3 quiet_trans [OF q3 g] by (cases s) (simp_all add: lb_open_orders_def Let_def)
  qed
qed

lemma cancel_all_ok:
  assumes "history_api ax hist" "live_ok hist b"
  shows "live_ok hist (snd (lb_cancel_all ax now b))"
proof -
  obtain r b1 where o: "lb_open_orders ax b = (r, b1)" by (cases "lb_open_orders ax b")
  have q1: "quiet hist b b1" using open_orders_quiet [OF assms(1), of b] o by simp
  obtain s b2 where d: "lb_call (ax_delete_all ax) b1 = (s, b2)" by (cases "lb_call (ax_delete_all ax) b1")
  have q2: "quiet hist b b2" by (rule quiet_trans [OF q1 call_quiet [OF history_apiD(7) [OF assms(1)] d]])
  obtain u b3 where e: "lb_call (ax_delete_all_algo ax) b2 = (u, b3)" by (cases "lb_call (ax_delete_all_algo ax) b2")
  have q3: "quiet hist b b3" by (rule quiet_trans [OF q2 call_quiet [OF history_apiD(8) [OF assms(1)] e]])
  have q4: "quiet hist b (fold (\<lambda>x b. lb_emit (ev x) (lb_track x b)) xs b3)" for ev xs
    by (rule quiet_trans [OF q3 fold_quiet]) simp
  have "quiet hist b (snd (lb_cancel_all ax now b))"
    using o d e q1 q2 q3 q4 by (cases r; cases s; cases u) (simp_all add: lb_cancel_all_def Let_def)
  then show ?thesis by (rule quiet_ok [OF assms(2)])
qed

lemma position_ok:
  assumes "history_api ax hist" "live_ok hist b" shows "live_ok hist (snd (lb_position ax b))"
proof -
  obtain r b1 where c: "lb_call (ax_positions ax) b = (r, b1)" by (cases "lb_call (ax_positions ax) b")
  have q: "quiet hist b b1" by (rule call_quiet [OF history_apiD(11) [OF assms(1)] c])
  then have "quiet hist b (snd (lb_position ax b))"
    using c by (cases r) (simp_all add: lb_position_def Let_def quiet_def)
  then show ?thesis by (rule quiet_ok [OF assms(2)])
qed

lemma queries_ok:
  assumes "history_api ax hist" "live_ok hist b"
  shows "live_ok hist (snd (lb_fills_since ax t b))" "live_ok hist (snd (lb_funding_between ax t u b))"
proof -
  obtain r b1 where c: "lb_call (ax_trades ax (FromTime (t div 1000))) b = (r, b1)"
    by (cases "lb_call (ax_trades ax (FromTime (t div 1000))) b")
  show "live_ok hist (snd (lb_fills_since ax t b))"
    using quiet_ok [OF assms(2) call_quiet [OF history_apiD(12) [OF assms(1)] c]] c
    by (cases r) (simp_all add: lb_fills_since_def)
  obtain s b2 where d: "lb_call (ax_funding ax (t div 1000) (u div 1000)) b = (s, b2)"
    by (cases "lb_call (ax_funding ax (t div 1000) (u div 1000)) b")
  show "live_ok hist (snd (lb_funding_between ax t u b))"
    using quiet_ok [OF assms(2) call_quiet [OF history_apiD(13) [OF assms(1)] d]] d
    by (cases s) (simp_all add: lb_funding_between_def)
qed

lemma poll_orders_quiet:
  "history_api ax hist \<Longrightarrow> quiet hist b (snd (poll_orders ax now ords b))"
proof (induction ords arbitrary: b)
  case (Cons ord ords)
  let ?cid = "o_client_id ord"
  obtain r b1 where c: "lb_call (ax_get_algo ax ?cid) b = (r, b1)" by (cases "lb_call (ax_get_algo ax ?cid) b")
  have q1: "quiet hist b b1" by (rule call_quiet [OF history_apiD(5) [OF Cons.prems] c])
  obtain s b2 where d: "lb_call (ax_get ax ?cid) b = (s, b2)" by (cases "lb_call (ax_get ax ?cid) b")
  have q2: "quiet hist b b2" by (rule call_quiet [OF history_apiD(2) [OF Cons.prems] d])
  have rest: "quiet hist b (snd (poll_orders ax now ords e))" if "quiet hist b e" for e
    by (rule quiet_trans [OF that Cons.IH [OF Cons.prems]])
  show ?case
    using c d q1 q2 by (cases r; cases s) (auto simp: Let_def intro!: rest)
qed simp

lemma poll_ok:
  assumes "history_api ax hist" "live_ok hist b" shows "live_ok hist (snd (lb_poll ax now b))"
proof -
  let ?os = "filter (\<lambda>x. is_open (o_status x)) (map snd (lb_orders b))"
  obtain r b1 where c: "poll_orders ax now ?os b = (r, b1)" by (cases "poll_orders ax now ?os b")
  have ok1: "live_ok hist b1" using quiet_ok [OF assms(2) poll_orders_quiet [OF assms(1), of b now ?os]] c by simp
  obtain s b2 where d: "pull_trades ax now b1 = (s, b2)" by (cases "pull_trades ax now b1")
  have ok2: "live_ok hist b2" using pull_ok [OF assms(1) ok1, of now] d by simp
  show ?thesis using c d ok1 ok2 by (cases r; cases s) (simp_all add: lb_poll_def)
qed

subsection \<open>Sessions\<close>

datatype live_input =
    LMarket side real string bool
  | LLimit side real real string bool
  | LStop side real real string
  | LCancel string
  | LCancelAll
  | LOpenOrders
  | LPosition
  | LFillsSince datetime
  | LFunding datetime datetime
  | LPoll

fun live_do :: "'x exchange_api \<Rightarrow> datetime \<times> live_input \<Rightarrow> 'x live_broker \<Rightarrow> 'x live_broker" where
  "live_do ax (now, LMarket sd q cid ro) b = snd (lb_place_market ax now sd q cid ro b)"
| "live_do ax (now, LLimit sd q px cid ro) b = snd (lb_place_limit_gtx ax now sd q px cid ro b)"
| "live_do ax (now, LStop sd q px cid) b = snd (lb_place_stop_market ax now sd q px cid b)"
| "live_do ax (now, LCancel cid) b = snd (lb_cancel ax now cid b)"
| "live_do ax (now, LCancelAll) b = snd (lb_cancel_all ax now b)"
| "live_do ax (now, LOpenOrders) b = snd (lb_open_orders ax b)"
| "live_do ax (now, LPosition) b = snd (lb_position ax b)"
| "live_do ax (now, LFillsSince t) b = snd (lb_fills_since ax t b)"
| "live_do ax (now, LFunding t u) b = snd (lb_funding_between ax t u b)"
| "live_do ax (now, LPoll) b = snd (lb_poll ax now b)"

lemma live_do_ok:
  assumes "history_api ax hist" "live_ok hist b" shows "live_ok hist (live_do ax (now, i) b)"
proof (cases i)
  case LOpenOrders
  then show ?thesis using quiet_ok [OF assms(2) open_orders_quiet [OF assms(1)]] by simp
qed (simp_all add: assms lb_place_market_def lb_place_limit_gtx_def Let_def place_ok stop_ok cancel_ok cancel_all_ok
    position_ok queries_ok poll_ok)

lemma live_session_ok: "history_api ax hist \<Longrightarrow> live_ok hist b \<Longrightarrow> live_ok hist (fold (live_do ax) ins b)"
  by (induction ins arbitrary: b) (auto simp: live_do_ok)

lemma live_init_ok: "live_ok hist (lb_init x sm tick stp mq close)"
  by (fastforce simp: live_ok_def ledger_def lb_init_def flat_position_def)


text \<open>An exchange that fills every order at once, with one trade; its state counts them.\<close>

definition filler_row :: "nat \<Rightarrow> user_trade" where
  "filler_row i =
     \<lparr>ur_id = int i, ur_order = int i, ur_time = 1000 * int i, ur_side = BUY, ur_qty = 1, ur_price = 100,
      ur_fee = 4 / 100, ur_usdt = True, ur_maker = False, ur_pnl = 0\<rparr>"

definition filler_hist :: "nat \<Rightarrow> user_trade list" where
  "filler_hist n = map filler_row [0..<n]"

definition filler :: "nat exchange_api" where
  "filler =
     \<lparr>ax_post = (\<lambda>rq n. (Inr \<lparr>ak_id = int n, ak_status = FILLED, ak_qty = 1, ak_avg = 0, ak_time = None\<rparr>, n + 1)),
      ax_get = (\<lambda>_ n. (Inl (Some 400, Some (- 2013)), n)), ax_delete = (\<lambda>_ n. (Inl (Some 400, Some (- 2011)), n)),
      ax_post_algo = (\<lambda>_ n. (Inl (Some 400, None), n)), ax_get_algo = (\<lambda>_ n. (Inl (Some 400, None), n)),
      ax_delete_algo = (\<lambda>_ n. (Inl (Some 400, None), n)), ax_delete_all = (\<lambda>n. (Inr (), n)),
      ax_delete_all_algo = (\<lambda>n. (Inr (), n)), ax_open = (\<lambda>n. (Inr [], n)), ax_open_algo = (\<lambda>n. (Inr [], n)),
      ax_positions = (\<lambda>n. (Inr [(real n, 100)], n)),
      ax_trades = (\<lambda>q n. (Inr (take 1000 (filter (answers q) (filler_hist n))), n)),
      ax_funding = (\<lambda>_ _ n. (Inr [], n))\<rparr>"

lemma filler_history: "history_api filler filler_hist"
proof -
  have "sorted_wrt (\<lambda>a b. ur_id a < ur_id b \<and> ur_time a \<le> ur_time b) (filler_hist n)" for n
    by (auto simp: filler_hist_def filler_row_def sorted_wrt_iff_nth_less)
  then show ?thesis
    by (simp add: history_api_def appends_def answers_ok_def) (simp add: filler_def filler_hist_def)
qed


end
