(* ===== verification/Overnight_Spec.thy ===== *)
theory Overnight_Spec
  imports Autocoin_Prelude
begin

text \<open>
  The nights of \<open>src/overnight/spec.py\<close>: the trading calendar, which nights are traded, the
  A/B assignment in pair blocks and the order times.  Dates are day numbers since 1970-01-01,
  times of day and offsets seconds, instants seconds since the epoch.  Outside the program
  are the time zone, \<open>ns_offset d\<close> (local minus UTC on day \<open>d\<close>), and the SHA-256 coin of a
  date, \<open>ns_coin\<close>.  A skipped night has no method, an error is \<open>NightError\<close>.
\<close>

datatype ab = MethodA | MethodB

datatype night_error = NotCovered int | NotSession int | NoNight int | SkippedNight int

datatype skip_night = LongBreak int | ExDividend | ExDividendMissing

record method_times =
  mt_entry_market :: int
  mt_exit_market :: int
  mt_entry_limit :: int
  mt_exit_limit :: int

record night_spec =
  ns_first :: int
  ns_last :: int
  ns_holidays :: "int list"
  ns_special :: "(int \<times> (int option \<times> int option)) list"
  ns_open :: int
  ns_close :: int
  ns_offset :: "int \<Rightarrow> int"
  ns_coin :: "int \<Rightarrow> bool"
  ns_skip_days :: int
  ns_ex_dividend :: "int list"
  ns_require_ex :: int
  ns_method :: "ab \<Rightarrow> method_times"
  ns_give_up :: int
  ns_flat_deadline :: int
  ns_residual :: int

record night =
  n_entry_date :: int
  n_exit_date :: int
  n_entry_close :: int
  n_exit_open :: int
  n_skip :: "skip_night option"
  n_method :: "ab option"

definition calendar_days :: "night \<Rightarrow> int" where
  "calendar_days n = n_exit_date n - n_entry_date n"

subsection \<open>The calendar\<close>

definition check_covered :: "night_spec \<Rightarrow> int \<Rightarrow> night_error + unit" where
  "check_covered ns d = (if ns_first ns \<le> d \<and> d \<le> ns_last ns then Inr () else Inl (NotCovered d))"

text \<open>Monday is 0; day 0 was a Thursday.\<close>

definition weekday :: "int \<Rightarrow> int" where
  "weekday d = (d + 3) mod 7"

definition open_day :: "night_spec \<Rightarrow> int \<Rightarrow> bool" where
  "open_day ns d \<longleftrightarrow> weekday d < 5 \<and> d \<notin> set (ns_holidays ns)"

definition is_session :: "night_spec \<Rightarrow> int \<Rightarrow> night_error + bool" where
  "is_session ns d = (case check_covered ns d of Inl e \<Rightarrow> Inl e | Inr _ \<Rightarrow> Inr (open_day ns d))"

text \<open>Every day of the list is covered, so the check never fails here.\<close>

definition sessions :: "night_spec \<Rightarrow> int list" where
  "sessions ns = filter (\<lambda>d. is_session ns d = Inr True) [ns_first ns .. ns_last ns]"

definition session_times :: "night_spec \<Rightarrow> int \<Rightarrow> night_error + int \<times> int" where
  "session_times ns d =
     (case is_session ns d of
        Inl e \<Rightarrow> Inl e
      | Inr False \<Rightarrow> Inl (NotSession d)
      | Inr True \<Rightarrow>
          (let (so, sc) = (case map_of (ns_special ns) d of Some x \<Rightarrow> x | None \<Rightarrow> (None, None));
               opn = (case so of Some x \<Rightarrow> x | None \<Rightarrow> ns_open ns);
               cls = (case sc of Some x \<Rightarrow> x | None \<Rightarrow> ns_close ns)
           in Inr (d * 86400 + opn - ns_offset ns d, d * 86400 + cls - ns_offset ns d)))"

subsection \<open>The nights\<close>

definition skip_night_reason :: "night_spec \<Rightarrow> int \<Rightarrow> int \<Rightarrow> skip_night option" where
  "skip_night_reason ns d0 d1 =
     (if ns_skip_days ns \<le> d1 - d0 then Some (LongBreak (d1 - d0))
      else if d0 \<in> set (ns_ex_dividend ns) \<or> d1 \<in> set (ns_ex_dividend ns) then Some ExDividend
      else if ns_ex_dividend ns = [] \<and> ns_require_ex ns \<le> d0 then Some ExDividendMissing
      else None)"

definition night_pairs :: "night_spec \<Rightarrow> (int \<times> int) list" where
  "night_pairs ns = zip (butlast (sessions ns)) (tl (sessions ns))"

definition traded_days :: "night_spec \<Rightarrow> int list" where
  "traded_days ns = map fst (filter (\<lambda>(d0, d1). skip_night_reason ns d0 d1 = None) (night_pairs ns))"

text \<open>The \<open>i\<close>-th traded night: its pair's coin decides which of the two comes first.\<close>

definition method_at :: "night_spec \<Rightarrow> int list \<Rightarrow> nat \<Rightarrow> ab" where
  "method_at ns traded i =
     (if (i mod 2 = 1) \<noteq> ns_coin ns (traded ! (i - i mod 2)) then MethodB else MethodA)"

definition method_of :: "night_spec \<Rightarrow> int \<Rightarrow> ab option" where
  "method_of ns d0 =
     (let traded = traded_days ns
      in map_of (map (\<lambda>i. (traded ! i, method_at ns traded i)) [0..<length traded]) d0)"

definition night_of :: "night_spec \<Rightarrow> int \<times> int \<Rightarrow> night_error + night" where
  "night_of ns p =
     (case p of (d0, d1) \<Rightarrow>
        (case session_times ns d0 of
           Inl e \<Rightarrow> Inl e
         | Inr (_, close) \<Rightarrow>
             (case session_times ns d1 of
                Inl e \<Rightarrow> Inl e
              | Inr (opn, _) \<Rightarrow>
                  Inr \<lparr>n_entry_date = d0, n_exit_date = d1, n_entry_close = close, n_exit_open = opn,
                       n_skip = skip_night_reason ns d0 d1, n_method = method_of ns d0\<rparr>)))"

fun all_nights :: "(night_error + night) list \<Rightarrow> night_error + night list" where
  "all_nights [] = Inr []"
| "all_nights (Inl e # xs) = Inl e"
| "all_nights (Inr n # xs) = map_sum id (Cons n) (all_nights xs)"

definition nights :: "night_spec \<Rightarrow> night_error + night list" where
  "nights ns = all_nights (map (night_of ns) (night_pairs ns))"

definition night_for_entry :: "night_spec \<Rightarrow> int \<Rightarrow> night_error + night" where
  "night_for_entry ns d =
     (case nights ns of
        Inl e \<Rightarrow> Inl e
      | Inr xs \<Rightarrow> (case find (\<lambda>n. n_entry_date n = d) xs of Some n \<Rightarrow> Inr n | None \<Rightarrow> Inl (NoNight d)))"

subsection \<open>Order times\<close>

record order_times =
  ot_entry_market :: int
  ot_exit_market :: int
  ot_entry_give_up :: int
  ot_exit_flat_deadline :: int
  ot_residual_check :: int
  ot_entry_limit :: "int option"
  ot_exit_limit :: "int option"

definition order_times_of :: "night_spec \<Rightarrow> night \<Rightarrow> night_error + order_times" where
  "order_times_of ns n =
     (case n_method n of
        None \<Rightarrow> Inl (SkippedNight (n_entry_date n))
      | Some m \<Rightarrow>
          (let mt = ns_method ns m; c = n_entry_close n; x = n_exit_open n
           in Inr \<lparr>ot_entry_market = c + mt_entry_market mt, ot_exit_market = x + mt_exit_market mt,
                ot_entry_give_up = c + ns_give_up ns, ot_exit_flat_deadline = x + ns_flat_deadline ns,
                ot_residual_check = x + ns_residual ns,
                ot_entry_limit = (if m = MethodB then Some (c + mt_entry_limit mt) else None),
                ot_exit_limit = (if m = MethodB then Some (x + mt_exit_limit mt) else None)\<rparr>))"

subsection \<open>The nights are well defined\<close>

lemma sessions_eq: "sessions ns = filter (open_day ns) [ns_first ns .. ns_last ns]"
  by (auto simp: sessions_def is_session_def check_covered_def intro!: filter_cong)

lemma sessions_sorted: "sorted_wrt (<) (sessions ns)"
  unfolding sessions_eq by (rule sorted_wrt_filter) (simp add: sorted_wrt_upto)

lemma session_times_ok: "d \<in> set (sessions ns) \<Longrightarrow> \<exists>o' c. session_times ns d = Inr (o', c)"
  by (auto simp: sessions_eq session_times_def is_session_def check_covered_def Let_def split: prod.splits)

lemma zip_tl_mem: "p \<in> set (zip (butlast xs) (tl xs)) \<Longrightarrow> fst p \<in> set xs \<and> snd p \<in> set xs"
  by (cases p) (auto dest: set_zip_leftD set_zip_rightD in_set_butlastD list.set_sel(2) [rotated]
      intro: list.set_sel(2))

lemma all_nights_ok: "(\<And>x. x \<in> set xs \<Longrightarrow> \<exists>n. x = Inr n) \<Longrightarrow> all_nights xs = Inr (map projr xs)"
proof (induction xs)
  case (Cons x xs)
  obtain n where "x = Inr n" using Cons.prems [of x] by auto
  then show ?case using Cons by simp
qed simp

lemma pairs_mem: "(d0, d1) \<in> set (night_pairs ns) \<Longrightarrow> d0 \<in> set (sessions ns) \<and> d1 \<in> set (sessions ns)"
  using zip_tl_mem [of "(d0, d1)"] by (simp add: night_pairs_def)

lemma sorted_pairs: "sorted_wrt (<) xs \<Longrightarrow> (a, b) \<in> set (zip (butlast xs) (tl xs)) \<Longrightarrow> (a::int) < b"
  by (induction xs rule: induct_list012) auto

lemma map_fst_pairs: "map fst (zip (butlast xs) (tl xs)) = butlast xs"
  by (simp add: map_fst_zip_take)

lemma traded_distinct: "distinct (traded_days ns)"
proof -
  have "distinct (map fst (night_pairs ns))"
    using sessions_sorted [of ns] by (simp add: night_pairs_def map_fst_pairs distinct_butlast strict_sorted_iff)
  then show ?thesis by (simp add: traded_days_def distinct_map_filter)
qed

lemma night_of_ok:
  assumes "(d0, d1) \<in> set (night_pairs ns)"
  obtains n where "night_of ns (d0, d1) = Inr n" "n_entry_date n = d0" "n_exit_date n = d1"
    "n_skip n = skip_night_reason ns d0 d1" "n_method n = method_of ns d0"
proof -
  obtain a b where s0: "session_times ns d0 = Inr (a, b)"
    using session_times_ok [of d0 ns] pairs_mem [OF assms] by blast
  obtain a' b' where s1: "session_times ns d1 = Inr (a', b')"
    using session_times_ok [of d1 ns] pairs_mem [OF assms] by blast
  have n: "night_of ns (d0, d1) = Inr \<lparr>n_entry_date = d0, n_exit_date = d1, n_entry_close = b,
      n_exit_open = a', n_skip = skip_night_reason ns d0 d1, n_method = method_of ns d0\<rparr>"
    by (simp add: night_of_def s0 s1)
  show ?thesis by (rule that [OF n]) simp_all
qed

lemma method_of_nth:
  assumes "i < length (traded_days ns)"
  shows "method_of ns (traded_days ns ! i) = Some (method_at ns (traded_days ns) i)"
proof -
  let ?t = "traded_days ns"
  have "map fst (map (\<lambda>i. (?t ! i, method_at ns ?t i)) [0..<length ?t]) = ?t"
    by (simp add: comp_def map_nth)
  then have "distinct (map fst (map (\<lambda>i. (?t ! i, method_at ns ?t i)) [0..<length ?t]))"
    using traded_distinct by simp
  then show ?thesis
    unfolding method_of_def Let_def by (rule map_of_is_SomeI) (use assms in \<open>auto intro!: image_eqI [of _ _ i]\<close>)
qed

lemma method_of_None: "d \<notin> set (traded_days ns) \<Longrightarrow> method_of ns d = None"
  by (auto simp: method_of_def Let_def map_of_eq_None_iff)

lemma traded_iff:
  assumes "(d0, d1) \<in> set (night_pairs ns)"
  shows "d0 \<in> set (traded_days ns) \<longleftrightarrow> skip_night_reason ns d0 d1 = None"
proof -
  have "distinct (map fst (night_pairs ns))"
    using sessions_sorted [of ns] by (simp add: night_pairs_def map_fst_pairs distinct_butlast strict_sorted_iff)
  then have u: "d1' = d1" if "(d0, d1') \<in> set (night_pairs ns)" for d1'
    using eq_key_imp_eq_value [OF _ that assms] by simp
  have "d0 \<in> set (traded_days ns) \<longleftrightarrow> (\<exists>d1'. (d0, d1') \<in> set (night_pairs ns) \<and> skip_night_reason ns d0 d1' = None)"
    by (auto simp: traded_days_def image_iff)
  also have "\<dots> \<longleftrightarrow> skip_night_reason ns d0 d1 = None" using u assms by blast
  finally show ?thesis .
qed

subsection \<open>The balance of the methods\<close>

definition imbalance :: "ab list \<Rightarrow> int" where
  "imbalance ms = int (length (filter (\<lambda>m. m = MethodA) ms)) - int (length (filter (\<lambda>m. m = MethodB) ms))"

lemma imbalance_snoc [simp]:
  "imbalance (ms @ [m]) = imbalance ms + (if m = MethodA then 1 else - 1)"
  by (cases m) (simp_all add: imbalance_def)

lemma imbalance_blocks:
  assumes "\<And>j. f (2 * j) \<noteq> (f (2 * j + 1) :: ab)"
  shows "imbalance (map f [0..<2 * j]) = 0"
proof (induction j)
  case 0
  then show ?case by (simp add: imbalance_def)
next
  case (Suc j)
  have "map f [0..<2 * Suc j] = (map f [0..<2 * j] @ [f (2 * j)]) @ [f (2 * j + 1)]" by simp
  then show ?case
    using Suc assms [of j] by (cases "f (2 * j)"; cases "f (2 * j + 1)") (simp_all only: imbalance_snoc, simp_all)
qed

lemma imbalance_prefix:
  assumes "\<And>j. f (2 * j) \<noteq> (f (2 * j + 1) :: ab)"
  shows "\<bar>imbalance (map f [0..<k])\<bar> \<le> 1"
proof (cases "even k")
  case True
  then obtain j where "k = 2 * j" by (elim evenE)
  then show ?thesis using imbalance_blocks [of f j] assms by simp
next
  case False
  then obtain j where "k = 2 * j + 1" by (elim oddE)
  then show ?thesis using imbalance_blocks [of f j] assms by simp
qed

lemma method_pair: "method_at ns t (2 * j) \<noteq> method_at ns t (2 * j + 1)"
proof -
  have "(2 * j + 1) mod 2 = (1::nat)" by simp
  moreover have "2 * j + 1 - 1 = 2 * j" by simp
  ultimately show ?thesis unfolding method_at_def by (cases "ns_coin ns (t ! (2 * j))") auto
qed

abbreviation the_night :: "night_spec \<Rightarrow> int \<times> int \<Rightarrow> night" where
  "the_night ns p \<equiv> projr (night_of ns p)"

lemma the_night_facts:
  assumes "p \<in> set (night_pairs ns)"
  shows "night_of ns p = Inr (the_night ns p)" "n_entry_date (the_night ns p) = fst p"
    "n_exit_date (the_night ns p) = snd p"
    "n_skip (the_night ns p) = skip_night_reason ns (fst p) (snd p)"
    "n_method (the_night ns p) = method_of ns (fst p)"
proof -
  obtain n where "night_of ns p = Inr n" "n_entry_date n = fst p" "n_exit_date n = snd p"
    "n_skip n = skip_night_reason ns (fst p) (snd p)" "n_method n = method_of ns (fst p)"
    using night_of_ok [of "fst p" "snd p" ns] assms by (metis prod.collapse)
  then show "night_of ns p = Inr (the_night ns p)" "n_entry_date (the_night ns p) = fst p"
    "n_exit_date (the_night ns p) = snd p"
    "n_skip (the_night ns p) = skip_night_reason ns (fst p) (snd p)"
    "n_method (the_night ns p) = method_of ns (fst p)" by simp_all
qed

lemma nights_eq: "nights ns = Inr (map (the_night ns) (night_pairs ns))"
proof -
  have "nights ns = Inr (map projr (map (night_of ns) (night_pairs ns)))"
    unfolding nights_def by (rule all_nights_ok) (use the_night_facts(1) in auto)
  then show ?thesis by (simp add: comp_def)
qed

lemma method_iff:
  assumes "p \<in> set (night_pairs ns)"
  shows "method_of ns (fst p) = None \<longleftrightarrow> skip_night_reason ns (fst p) (snd p) \<noteq> None"
proof -
  have t: "fst p \<in> set (traded_days ns) \<longleftrightarrow> skip_night_reason ns (fst p) (snd p) = None"
    by (rule traded_iff) (use assms in simp)
  have "method_of ns (fst p) \<noteq> None" if f: "fst p \<in> set (traded_days ns)"
  proof -
    obtain i where "i < length (traded_days ns)" "traded_days ns ! i = fst p"
      using f by (metis in_set_conv_nth)
    then show ?thesis using method_of_nth [of i ns] by simp
  qed
  then show ?thesis using t method_of_None [of "fst p" ns] by metis
qed

lemma map_filter_the_night:
  "set ps \<subseteq> set (night_pairs ns) \<Longrightarrow>
   List.map_filter n_method (map (the_night ns) ps)
     = map (\<lambda>p. the (method_of ns (fst p)))
         (filter (\<lambda>p. skip_night_reason ns (fst p) (snd p) = None) ps)"
proof (induction ps)
  case (Cons p ps)
  have p: "p \<in> set (night_pairs ns)" using Cons.prems by simp
  show ?case
    using Cons the_night_facts(5) [OF p] method_iff [OF p]
    by (cases "method_of ns (fst p)") (simp_all add: List.map_filter_simps)
qed (simp add: List.map_filter_simps)

lemma methods_eq:
  "List.map_filter n_method (map (the_night ns) (night_pairs ns))
    = map (method_at ns (traded_days ns)) [0..<length (traded_days ns)]"
proof (rule nth_equalityI)
  have e: "List.map_filter n_method (map (the_night ns) (night_pairs ns))
      = map (\<lambda>d. the (method_of ns d)) (traded_days ns)"
    by (subst map_filter_the_night) (simp_all add: traded_days_def comp_def case_prod_unfold)
  show "length (List.map_filter n_method (map (the_night ns) (night_pairs ns)))
      = length (map (method_at ns (traded_days ns)) [0..<length (traded_days ns)])"
    unfolding e by simp
  show "List.map_filter n_method (map (the_night ns) (night_pairs ns)) ! i
      = map (method_at ns (traded_days ns)) [0..<length (traded_days ns)] ! i"
    if "i < length (List.map_filter n_method (map (the_night ns) (night_pairs ns)))" for i
    using that unfolding e by (simp add: method_of_nth)
qed

lemma methods_balanced:
  "\<bar>imbalance (take k (map (method_at ns t) [0..<n]))\<bar> \<le> 1"
proof -
  have "take k (map (method_at ns t) [0..<n]) = map (method_at ns t) [0..<min k n]"
    by (simp add: take_map take_upt min_def)
  then show ?thesis
    using imbalance_prefix [of "method_at ns t" "min k n"] method_pair [of ns t] by simp
qed

lemma methods_blocks:
  "list_all (\<lambda>j. (map (method_at ns t) [0..<n] ! (2 * j), map (method_at ns t) [0..<n] ! (2 * j + 1)) =
       (if ns_coin ns (t ! (2 * j)) then (MethodB, MethodA) else (MethodA, MethodB)))
      [0..<n div 2]"
  by (auto simp: list_all_iff method_at_def)

text \<open>C24: The nights: for every calendar the nights are exactly the pairs of consecutive
  sessions, a night is skipped exactly when it has no method, every block of two traded
  nights has one of each method in the order the coin of its first date gives, and in any
  prefix of the traded nights the numbers of the two methods differ by at most one.\<close>

theorem nights_balanced:
  "\<exists>xs. nights ns = Inr xs
    \<and> map (\<lambda>n. (n_entry_date n, n_exit_date n)) xs = zip (butlast (sessions ns)) (tl (sessions ns))
    \<and> list_all (\<lambda>n. n_entry_date n < n_exit_date n \<and> (n_method n = None) = (n_skip n \<noteq> None)) xs
    \<and> (let ms = List.map_filter n_method xs
       in list_all (\<lambda>j. (ms ! (2 * j), ms ! (2 * j + 1)) =
              (if ns_coin ns (traded_days ns ! (2 * j)) then (MethodB, MethodA) else (MethodA, MethodB)))
            [0..<length ms div 2]
          \<and> (\<forall>k. \<bar>imbalance (take k ms)\<bar> \<le> 1))"
proof -
  let ?xs = "map (the_night ns) (night_pairs ns)"
  have pairs: "map (\<lambda>n. (n_entry_date n, n_exit_date n)) ?xs = night_pairs ns"
    using the_night_facts(2,3) by (simp add: comp_def map_idI)
  have "fst p < snd p" if "p \<in> set (night_pairs ns)" for p
    using that sorted_pairs [OF sessions_sorted [of ns], of "fst p" "snd p"] by (simp add: night_pairs_def)
  then have all: "list_all (\<lambda>n. n_entry_date n < n_exit_date n \<and> (n_method n = None) = (n_skip n \<noteq> None)) ?xs"
    by (simp add: list_all_iff the_night_facts(2-5) method_iff)
  show ?thesis
  proof (rule exI [of _ ?xs], intro conjI)
    show "nights ns = Inr ?xs" by (rule nights_eq)
    show "map (\<lambda>n. (n_entry_date n, n_exit_date n)) ?xs = zip (butlast (sessions ns)) (tl (sessions ns))"
      using pairs by (simp add: night_pairs_def)
    show "list_all (\<lambda>n. n_entry_date n < n_exit_date n \<and> (n_method n = None) = (n_skip n \<noteq> None)) ?xs"
      by (rule all)
    show "let ms = List.map_filter n_method ?xs
       in list_all (\<lambda>j. (ms ! (2 * j), ms ! (2 * j + 1)) =
              (if ns_coin ns (traded_days ns ! (2 * j)) then (MethodB, MethodA) else (MethodA, MethodB)))
            [0..<length ms div 2]
          \<and> (\<forall>k. \<bar>imbalance (take k ms)\<bar> \<le> 1)"
      unfolding methods_eq Let_def using methods_blocks methods_balanced by simp
  qed
qed

end
