(* ===== verification/Overnight_Runner.thy ===== *)
theory Overnight_Runner
  imports Risk_Guard Overnight_Spec Live_Broker
begin

text \<open>
  The overnight scheduler of \<open>src/overnight/runner.py\<close>: one night after another is
  entered, held under a stop, exited and settled, with the state written to a file.  An
  operation is an action \<open>('s, 'a) act\<close> on the state \<open>'b ovn\<close>: it returns its value or
  raises, and the state it reached is kept in both cases.  Two loops of the code take a bound:
  \<open>Spinning\<close> is the answer when the bound of \<open>work_loop\<close> is used up, \<open>OutOfRounds\<close> when that of the loop
  over the nights is.  Instants are microseconds; the clock moves while
  the code sleeps, by what it asked for and \<open>oe_late\<close> more.  The broker inside the guard, the
  book, the clock check, the account check, the funding and the report of a night are
  fields of the environment \<open>ovn_env\<close>.
\<close>

subsection \<open>Actions\<close>

datatype stop = Raise exn | Spinning | OutOfRounds

type_synonym ('s, 'a) act = "'s \<Rightarrow> (stop + 'a) \<times> 's"

definition ret :: "'a \<Rightarrow> ('s, 'a) act" where
  "ret x s = (Inr x, s)"

definition throw :: "exn \<Rightarrow> ('s, 'a) act" where
  "throw e s = (Inl (Raise e), s)"

definition reads :: "('s \<Rightarrow> ('s, 'a) act) \<Rightarrow> ('s, 'a) act" where
  "reads f s = f s s"

definition does :: "('s \<Rightarrow> 's) \<Rightarrow> ('s, unit) act" where
  "does f s = (Inr (), f s)"

definition bind :: "('s, 'a) act \<Rightarrow> ('a \<Rightarrow> ('s, 'b) act) \<Rightarrow> ('s, 'b) act" where
  "bind m f s = (case m s of (Inl e, s1) \<Rightarrow> (Inl e, s1) | (Inr x, s1) \<Rightarrow> f x s1)"

definition seq :: "('s, unit) act \<Rightarrow> ('s, 'b) act \<Rightarrow> ('s, 'b) act" where
  "seq m f = bind m (\<lambda>_. f)"

text \<open>\<open>except OrderRejected\<close>; \<open>RiskHalt\<close> is a subclass of it.\<close>

definition on_rejected :: "('s, 'a) act \<Rightarrow> (exn \<Rightarrow> ('s, 'a) act) \<Rightarrow> ('s, 'a) act" where
  "on_rejected m h s =
     (case m s of
        (Inl (Raise (OrderRejected r)), s1) \<Rightarrow> h (OrderRejected r) s1
      | (Inl (Raise (RiskHalt r)), s1) \<Rightarrow> h (RiskHalt r) s1
      | x \<Rightarrow> x)"

subsection \<open>The state\<close>

datatype night_phase = Pending | Entering | Holding | Exiting | Done | Skipped

datatype night_skip_why =
    CannotEnter risk_status risk_reason
  | UnexpectedPosition
  | AccountMismatch
  | NoEntryFill
  | RestartFlat
  | CalendarSkip skip_night
  | CalendarMismatch
  | LateStart

datatype close_how = Exited | StoppedOut | RecoveredFlat

datatype night_note =
    EnterBy "ab option"
  | EnteredAt real real real
  | SmallRest real real real
  | Recovered
  | ClosedAt close_how real real real
  | SkipNote night_skip_why

record night_state =
  nt_entry_date :: int
  nt_exit_date :: int
  nt_method :: "ab option"
  nt_phase :: night_phase
  nt_qty :: real
  nt_entry_price :: real
  nt_exit_price :: real
  nt_stop_id :: "string option"
  nt_stop_price :: "real option"
  nt_stop_seq :: nat
  nt_fees :: real
  nt_funding :: real
  nt_pnl :: "real option"
  nt_started :: "datetime option"
  nt_ended :: "datetime option"
  nt_notes :: "(datetime option \<times> night_note) list"

definition new_night :: "int \<Rightarrow> int \<Rightarrow> ab option \<Rightarrow> datetime \<Rightarrow> night_state" where
  "new_night d0 d1 m now =
     \<lparr>nt_entry_date = d0, nt_exit_date = d1, nt_method = m, nt_phase = Pending, nt_qty = 0,
      nt_entry_price = 0, nt_exit_price = 0, nt_stop_id = None, nt_stop_price = None, nt_stop_seq = 0,
      nt_fees = 0, nt_funding = 0, nt_pnl = None, nt_started = Some now, nt_ended = None, nt_notes = []\<rparr>"

datatype ovn_notice =
    BadDates "int list"
  | EntryRejected exn
  | EnteredAlert int real real "ab option" "real option"
  | StopFailed exn
  | ExitRejected exn
  | ForcedExit real
  | StopHit int "real option"
  | SkipAlert int night_skip_why
  | NightResult int close_how real real real real real real
  | Residual real
  | StopMissing
  | UnknownPosition real
  | UnknownOrders nat
  | CalendarEnd
  | NoNightLeft

datatype ovn_event =
    EvAlert ovn_notice
  | EvPhase int night_phase "night_note option"
  | EvDecision int string "ab option" datetime "(real \<times> real \<times> datetime) option"
  | EvNight night_state
  | EvReportError int

type_synonym history = "(int \<times> night_state) list"

record 'b ovn =
  on_guard :: "'b guard"
  on_night :: "night_state option"
  on_history :: history
  on_bad :: "int list"
  on_clock :: datetime
  on_alerts :: "ovn_notice list"
  on_log :: "(datetime \<times> ovn_event) list"
  on_file :: "(night_state option \<times> history) option"

record 'b ovn_env =
  oe_spec :: night_spec
  oe_live :: bool
  oe_qty :: real
  oe_reprice :: real
  oe_min_notional :: real
  oe_stop_pct :: real
  oe_kill :: "datetime \<Rightarrow> bool"
  oe_ops :: "datetime \<Rightarrow> 'b broker_ops"
  oe_book :: "datetime \<Rightarrow> book_top option"
  oe_late :: "datetime \<Rightarrow> nat"
  oe_health :: "(datetime \<Rightarrow> exn + real option \<times> real option) option"
  oe_verify :: "(datetime \<Rightarrow> 'b \<Rightarrow> exn + account_diff list) option"
  oe_funding :: "(datetime \<Rightarrow> datetime \<Rightarrow> real \<Rightarrow> exn + real) option"
  oe_report :: "(int \<Rightarrow> bool) option"

type_synonym ('b, 'a) ovn_act = "('b ovn, 'a) act"

subsection \<open>Dates and ids\<close>

definition day_tag :: "int \<Rightarrow> string" where
  "day_tag d = ''on-'' @ filter (\<lambda>c. c \<noteq> CHR ''-'') (iso_date d)"

definition leg_cid :: "int \<Rightarrow> string \<Rightarrow> nat \<Rightarrow> string" where
  "leg_cid d leg n = day_tag d @ ''-'' @ leg @ show_nat n"

definition starts_with :: "string \<Rightarrow> string \<Rightarrow> bool" where
  "starts_with cid p \<longleftrightarrow> take (length p) cid = p"

definition us :: "int \<Rightarrow> datetime" where
  "us t = t * 1000000"

subsection \<open>Files, log and alerts\<close>

definition ovn_log :: "ovn_event \<Rightarrow> 'b ovn \<Rightarrow> 'b ovn" where
  "ovn_log ev s = s\<lparr>on_log := on_log s @ [(on_clock s, ev)]\<rparr>"

definition ovn_alert :: "ovn_notice \<Rightarrow> 'b ovn \<Rightarrow> 'b ovn" where
  "ovn_alert a s = (ovn_log (EvAlert a) s)\<lparr>on_alerts := on_alerts s @ [a]\<rparr>"

definition ovn_save :: "'b ovn \<Rightarrow> 'b ovn" where
  "ovn_save s = s\<lparr>on_file := Some (on_night s, on_history s)\<rparr>"

definition ovn_load :: "'b ovn \<Rightarrow> 'b ovn" where
  "ovn_load s = (case on_file s of None \<Rightarrow> s | Some (nt, h) \<Rightarrow> s\<lparr>on_night := nt, on_history := h\<rparr>)"

text \<open>\<open>Runner.__init__\<close>: \<open>diff_days\<close> is what the calendar check returned.\<close>

definition ovn_init ::
    "'b guard \<Rightarrow> (night_state option \<times> history) option \<Rightarrow> int list \<Rightarrow> datetime \<Rightarrow> 'b ovn" where
  "ovn_init g file diff_days now =
     (let s = ovn_load \<lparr>on_guard = g, on_night = None, on_history = [], on_bad = [], on_clock = now,
                on_alerts = [], on_log = [], on_file = file\<rparr>;
          s1 = s\<lparr>on_bad := diff_days\<rparr>
      in if diff_days \<noteq> [] then ovn_alert (BadDates (sort diff_days)) s1 else s1)"

definition with_night :: "(night_state \<Rightarrow> ('b, 'a) ovn_act) \<Rightarrow> ('b, 'a) ovn_act" where
  "with_night f s = (case on_night s of None \<Rightarrow> (Inl (Raise AttributeError), s) | Some nt \<Rightarrow> f nt s)"

definition set_night :: "(night_state \<Rightarrow> night_state) \<Rightarrow> ('b, unit) ovn_act" where
  "set_night f = with_night (\<lambda>nt. does (\<lambda>s. s\<lparr>on_night := Some (f nt)\<rparr>))"

definition ovn_phase :: "night_phase \<Rightarrow> night_note option \<Rightarrow> ('b, unit) ovn_act" where
  "ovn_phase ph nt =
     reads (\<lambda>s. seq (set_night (\<lambda>n. n\<lparr>nt_phase := ph,
                  nt_notes := nt_notes n @ (case nt of None \<Rightarrow> [] | Some x \<Rightarrow> [(Some (on_clock s), x)])\<rparr>))
       (seq (does ovn_save)
         (with_night (\<lambda>n. does (ovn_log (EvPhase (nt_entry_date n) ph nt))))))"

subsection \<open>The broker\<close>

text \<open>A call to the guard at the time of the clock.\<close>

definition call ::
    "'b ovn_env \<Rightarrow> (datetime \<Rightarrow> bool \<Rightarrow> 'b broker_ops \<Rightarrow> 'b guard \<Rightarrow> (exn + 'a) \<times> 'b guard)
     \<Rightarrow> ('b, 'a) ovn_act" where
  "call env f s =
     (case f (on_clock s) (oe_kill env (on_clock s)) (oe_ops env (on_clock s)) (on_guard s) of
        (r, g) \<Rightarrow> (map_sum Raise id r, s\<lparr>on_guard := g\<rparr>))"

definition the_ops :: "'b ovn_env \<Rightarrow> 'b ovn \<Rightarrow> 'b broker_ops" where
  "the_ops env s = oe_ops env (on_clock s)"

definition the_broker :: "'b ovn \<Rightarrow> 'b" where
  "the_broker s = g_broker (on_guard s)"

definition position_qty :: "'b ovn_env \<Rightarrow> 'b ovn \<Rightarrow> real" where
  "position_qty env s = p_qty (b_position (the_ops env s) (the_broker s))"

definition all_fills :: "'b ovn_env \<Rightarrow> 'b ovn \<Rightarrow> fill list" where
  "all_fills env s = b_fills (the_ops env s) (the_broker s)"

definition poll_broker :: "'b ovn_env \<Rightarrow> ('b, unit) ovn_act" where
  "poll_broker env = bind (call env (\<lambda>_ _ ops. guard_poll ops)) (\<lambda>_. ret ())"

definition place_market ::
    "'b ovn_env \<Rightarrow> side \<Rightarrow> real \<Rightarrow> string \<Rightarrow> bool \<Rightarrow> ('b, order) ovn_act" where
  "place_market env sd q cid ro = call env (\<lambda>now kill ops. guard_place_market now kill ops sd q cid ro)"

definition place_gtx ::
    "'b ovn_env \<Rightarrow> side \<Rightarrow> real \<Rightarrow> real \<Rightarrow> string \<Rightarrow> bool \<Rightarrow> ('b, order) ovn_act" where
  "place_gtx env sd q px cid ro = call env (\<lambda>now kill ops. guard_place_limit_gtx now kill ops sd q px cid ro)"

definition place_stop ::
    "'b ovn_env \<Rightarrow> side \<Rightarrow> real \<Rightarrow> real \<Rightarrow> string \<Rightarrow> ('b, order) ovn_act" where
  "place_stop env sd q px cid = call env (\<lambda>now kill ops. guard_place_stop_market now kill ops sd q px cid)"

definition cancel_everything :: "'b ovn_env \<Rightarrow> ('b, unit) ovn_act" where
  "cancel_everything env = bind (call env (\<lambda>_ _ ops. guard_cancel_all ops)) (\<lambda>_. ret ())"

definition halt_with :: "'b ovn_env \<Rightarrow> risk_reason \<Rightarrow> ('b, unit) ovn_act" where
  "halt_with env why = does (\<lambda>s. s\<lparr>on_guard := guard_halt (on_clock s) why (on_guard s)\<rparr>)"

text \<open>The order object the code holds: the broker updates it in place.\<close>

definition live_order :: "'b ovn_env \<Rightarrow> 'b ovn \<Rightarrow> order \<Rightarrow> order" where
  "live_order env s ord =
     (case b_get_order (the_ops env s) (o_client_id ord) (the_broker s) of Inr x \<Rightarrow> x | Inl _ \<Rightarrow> ord)"

definition order_open :: "'b ovn_env \<Rightarrow> 'b ovn \<Rightarrow> order option \<Rightarrow> bool" where
  "order_open env s ord = (case ord of None \<Rightarrow> False | Some x \<Rightarrow> is_open (o_status (live_order env s x)))"

subsection \<open>Settling a night\<close>

definition amount_of :: "fill list \<Rightarrow> real" where
  "amount_of fs = (\<Sum>f\<leftarrow>fs. f_qty f * f_price f)"

definition fills_qty :: "fill list \<Rightarrow> real" where
  "fills_qty fs = (\<Sum>f\<leftarrow>fs. f_qty f)"

definition fees_of :: "fill list \<Rightarrow> real" where
  "fees_of fs = (\<Sum>f\<leftarrow>fs. f_fee f)"

text \<open>The fills of the night: its own orders, and orders the broker does not know.\<close>

definition night_fills :: "int \<Rightarrow> fill list \<Rightarrow> fill list" where
  "night_fills d fs =
     filter (\<lambda>f. starts_with (f_client_id f) (day_tag d) \<or> starts_with (f_client_id f) ''order:'') fs"

definition of_side :: "side \<Rightarrow> fill list \<Rightarrow> fill list" where
  "of_side sd fs = filter (\<lambda>f. f_side f = sd) fs"

definition funding_of :: "'b ovn_env \<Rightarrow> datetime \<Rightarrow> datetime \<Rightarrow> real \<Rightarrow> ('b, real) ovn_act" where
  "funding_of env start stp q s =
     (case oe_funding env of None \<Rightarrow> (Inr 0, s) | Some f \<Rightarrow> (map_sum Raise id (f start stp q), s))"

definition after_night :: "'b ovn_env \<Rightarrow> ('b, unit) ovn_act" where
  "after_night env =
     (case oe_report env of
        None \<Rightarrow> ret ()
      | Some ok \<Rightarrow> with_night (\<lambda>nt. if ok (nt_entry_date nt) then ret ()
                                  else does (ovn_log (EvReportError (nt_entry_date nt)))))"

fun how_text :: "close_how \<Rightarrow> string" where
  "how_text Exited = ''exit''"
| "how_text StoppedOut = ''stop''"
| "how_text RecoveredFlat = ''recovered flat''"

fun ab_text :: "ab option \<Rightarrow> string" where
  "ab_text (Some MethodA) = ''A''"
| "ab_text (Some MethodB) = ''B''"
| "ab_text None = ''-''"

text \<open>The night's fills priced, then its result.\<close>

definition priced_night :: "fill list \<Rightarrow> night_state \<Rightarrow> night_state" where
  "priced_night mine nt =
     (let sells = of_side SELL mine; sq = fills_qty sells
      in nt\<lparr>nt_exit_price := (if sq \<noteq> 0 then amount_of sells / sq else 0), nt_fees := fees_of mine\<rparr>)"

definition settled_night :: "fill list \<Rightarrow> real \<Rightarrow> datetime \<Rightarrow> night_state \<Rightarrow> night_state" where
  "settled_night mine funding now nt =
     nt\<lparr>nt_funding := funding,
        nt_pnl := Some (amount_of (of_side SELL mine) - amount_of (of_side BUY mine) - nt_fees nt + funding),
        nt_ended := Some now\<rparr>"

definition night_detail :: "close_how \<Rightarrow> night_state \<Rightarrow> (string \<times> json) list" where
  "night_detail how nt =
     [(''method'', JStr (ab_text (nt_method nt))), (''how'', JStr (how_text how)),
      (''entry'', JNum (nt_entry_price nt)), (''exit'', JNum (nt_exit_price nt)),
      (''fees'', JNum (nt_fees nt)), (''funding'', JNum (nt_funding nt))]"

definition pnl_of :: "night_state \<Rightarrow> real" where
  "pnl_of nt = (case nt_pnl nt of Some p \<Rightarrow> p | None \<Rightarrow> 0)"

definition book_night :: "'b ovn_env \<Rightarrow> close_how \<Rightarrow> ('b, unit) ovn_act" where
  "book_night env how =
     seq (with_night (\<lambda>nt. does (\<lambda>s. s\<lparr>on_guard := guard_record_night (on_clock s)
            (iso_date (nt_entry_date nt)) (pnl_of nt) (night_detail how nt) (on_guard s)\<rparr>)))
    (seq (with_night (\<lambda>nt. does (ovn_log (EvNight nt))))
    (seq (with_night (\<lambda>nt. does (\<lambda>s. s\<lparr>on_history := AList.update (nt_entry_date nt) nt (on_history s)\<rparr>)))
    (seq (does ovn_save)
    (seq (after_night env)
         (with_night (\<lambda>nt. reads (\<lambda>s. does (ovn_alert (NightResult (nt_entry_date nt) how (nt_entry_price nt)
            (nt_exit_price nt) (pnl_of nt) (nt_fees nt) (nt_funding nt)
            (r_cumulative_pnl (g_state (on_guard s))))))))))))"

definition ovn_finalize :: "'b ovn_env \<Rightarrow> close_how \<Rightarrow> ('b, unit) ovn_act" where
  "ovn_finalize env how =
     seq (reads (\<lambda>s. if b_open_orders (the_ops env s) (the_broker s) \<noteq> [] then cancel_everything env else ret ()))
       (with_night (\<lambda>nt. case nt_started nt of
          None \<Rightarrow> throw TypeError
        | Some start \<Rightarrow>
            reads (\<lambda>s. let mine = night_fills (nt_entry_date nt)
                                (b_fills_since (the_ops env s) start (the_broker s));
                           sq = fills_qty (of_side SELL mine)
              in seq (set_night (priced_night mine))
                 (bind (funding_of env start (on_clock s) (nt_qty nt)) (\<lambda>fund.
                 seq (set_night (settled_night mine fund (on_clock s)))
                (seq (with_night (\<lambda>n. ovn_phase Done (Some (ClosedAt how sq (nt_exit_price n) (pnl_of n)))))
                     (book_night env how)))))))"

definition ovn_skip :: "night_skip_why \<Rightarrow> ('b, unit) ovn_act" where
  "ovn_skip why =
     seq (set_night (\<lambda>n. n\<lparr>nt_phase := Skipped, nt_notes := nt_notes n @ [(None, SkipNote why)]\<rparr>))
    (seq (with_night (\<lambda>nt. does (\<lambda>s. s\<lparr>on_history := AList.update (nt_entry_date nt) nt (on_history s)\<rparr>)))
    (seq (does ovn_save)
    (seq (with_night (\<lambda>nt. does (ovn_log (EvNight nt))))
         (with_night (\<lambda>nt. does (ovn_alert (SkipAlert (nt_entry_date nt) why)))))))"

definition stopped_out :: "'b ovn_env \<Rightarrow> ('b, unit) ovn_act" where
  "stopped_out env =
     seq (with_night (\<lambda>nt. does (ovn_alert (StopHit (nt_entry_date nt) (nt_stop_price nt)))))
         (ovn_finalize env StoppedOut)"

subsection \<open>Waiting\<close>

definition slept :: "'b ovn_env \<Rightarrow> int \<Rightarrow> 'b ovn \<Rightarrow> 'b ovn" where
  "slept env d s = s\<lparr>on_clock := on_clock s + d + int (oe_late env (on_clock s))\<rparr>"

definition holding :: "'b ovn \<Rightarrow> bool" where
  "holding s = (case on_night s of Some nt \<Rightarrow> nt_phase nt = Holding | None \<Rightarrow> False)"

lemma poll_clock [simp]: "on_clock (snd (poll_broker env s)) = on_clock s"
  by (simp add: poll_broker_def bind_def call_def ret_def split: prod.splits sum.splits)

function wait_until :: "'b ovn_env \<Rightarrow> datetime \<Rightarrow> bool \<Rightarrow> ('b, unit) ovn_act" where
  "wait_until env t hold s =
     (if t \<le> on_clock s then (Inr (), s)
      else
        (let s1 = slept env (min (t - on_clock s) (us (if hold then 60 else 30))) s
         in if hold \<and> holding s1
            then (case poll_broker env s1 of
                    (Inl e, s2) \<Rightarrow> (Inl e, s2)
                  | (Inr _, s2) \<Rightarrow> if position_qty env s2 = 0 then stopped_out env s2
                                  else wait_until env t hold s2)
            else wait_until env t hold s1))"
  by pat_completeness auto
termination
proof (relation "measure (\<lambda>(env, t, hold, s). nat (t - on_clock s))")
  show "wf (measure (\<lambda>(env, t, hold, s). nat (t - on_clock s)))" by simp
next
  fix env :: "'b ovn_env" and t hold s x xa xb y
  assume a: "\<not> t \<le> on_clock s" "x = slept env (min (t - on_clock s) (us (if hold then 60 else 30))) s"
    "hold \<and> holding x" "(xa, xb) = poll_broker env x" "xa = Inr y"
  have "on_clock xb = on_clock x" using poll_clock [of env x] unfolding a(4) [symmetric] by simp
  then show "((env, t, hold, xb), (env, t, hold, s)) \<in> measure (\<lambda>(env, t, hold, s). nat (t - on_clock s))"
    using a(1,2) by (auto simp: slept_def us_def min_def)
qed (auto simp: slept_def us_def min_def)

declare wait_until.simps [simp del]

function watch_order :: "'b ovn_env \<Rightarrow> order \<Rightarrow> datetime \<Rightarrow> ('b, unit) ovn_act" where
  "watch_order env ord t s =
     (if order_open env s (Some ord) \<and> on_clock s < t
      then (case poll_broker env (slept env (us 1) s) of
              (Inl e, s2) \<Rightarrow> (Inl e, s2)
            | (Inr _, s2) \<Rightarrow> watch_order env ord t s2)
      else (Inr (), s))"
  by pat_completeness auto
termination
proof (relation "measure (\<lambda>(env, ord, t, s). nat (t - on_clock s))")
  show "wf (measure (\<lambda>(env, ord, t, s). nat (t - on_clock s)))" by simp
next
  fix env :: "'b ovn_env" and ord t s xa xb y
  assume a: "order_open env s (Some ord) \<and> on_clock s < t" "(xa, xb) = poll_broker env (slept env (us 1) s)"
  have "on_clock xb = on_clock (slept env (us 1) s)"
    using poll_clock [of env "slept env (us 1) s"] unfolding a(2) [symmetric] by simp
  then show "((env, ord, t, xb), (env, ord, t, s)) \<in> measure (\<lambda>(env, ord, t, s). nat (t - on_clock s))"
    using a(1) by (auto simp: slept_def us_def)
qed

declare watch_order.simps [simp del]

subsection \<open>Health\<close>

definition age_s :: "datetime \<Rightarrow> datetime \<Rightarrow> real" where
  "age_s now ts = of_int (now - ts) / 1000000"

definition healthy :: "'b ovn_env \<Rightarrow> ('b, bool) ovn_act" where
  "healthy env s =
     (case (case oe_health env of None \<Rightarrow> Inr (None, None) | Some f \<Rightarrow> f (on_clock s)) of
        Inl e \<Rightarrow> (Inl (Raise e), s)
      | Inr (offset, age) \<Rightarrow>
          (case oe_book env (on_clock s) of
             None \<Rightarrow> (Inr False, snd (halt_with env (HaltedBy ''no market data'') s))
           | Some b \<Rightarrow>
               (let a = (case age of Some a \<Rightarrow> a | None \<Rightarrow> age_s (on_clock s) (bt_ts b));
                    s1 = s\<lparr>on_guard := guard_check_health (on_clock s) (oe_kill env (on_clock s)) offset
                             (Some a) (on_guard s)\<rparr>
                in (Inr (r_status (g_state (on_guard s1)) \<noteq> Halted), s1))))"

definition may_enter :: "'b ovn_env \<Rightarrow> ('b, bool) ovn_act" where
  "may_enter env s =
     (case guard_can_enter (on_clock s) (oe_kill env (on_clock s)) (on_guard s) of
        (c, g) \<Rightarrow> (Inr c, s\<lparr>on_guard := g\<rparr>))"

subsection \<open>Working an order\<close>

definition best_price :: "'b ovn_env \<Rightarrow> side \<Rightarrow> 'b ovn \<Rightarrow> real option" where
  "best_price env sd s =
     map_option (\<lambda>b. if sd = BUY then best_bid b else best_ask b) (oe_book env (on_clock s))"

definition fills_in :: "'b ovn_env \<Rightarrow> string list \<Rightarrow> 'b ovn \<Rightarrow> fill list" where
  "fills_in env ids s = filter (\<lambda>f. f_client_id f \<in> set ids) (all_fills env s)"

definition filled_in :: "'b ovn_env \<Rightarrow> string list \<Rightarrow> 'b ovn \<Rightarrow> real" where
  "filled_in env ids s = fills_qty (fills_in env ids s)"

definition ovn_decision :: "'b ovn_env \<Rightarrow> string \<Rightarrow> ab option \<Rightarrow> datetime \<Rightarrow> ('b, unit) ovn_act" where
  "ovn_decision env leg m scheduled =
     with_night (\<lambda>nt. reads (\<lambda>s. does (ovn_log (EvDecision (nt_entry_date nt) leg m scheduled
       (map_option (\<lambda>b. (best_bid b, best_ask b, bt_ts b)) (oe_book env (on_clock s)))))))"

definition cancel_quietly :: "'b ovn_env \<Rightarrow> string \<Rightarrow> ('b, unit) ovn_act" where
  "cancel_quietly env cid =
     seq (on_rejected (bind (call env (\<lambda>_ _ ops. guard_cancel ops cid)) (\<lambda>_. ret ())) (\<lambda>_. ret ()))
         (poll_broker env)"

definition night_cid :: "string \<Rightarrow> nat \<Rightarrow> ('b, string) ovn_act" where
  "night_cid leg n = with_night (\<lambda>nt. ret (leg_cid (nt_entry_date nt) leg n))"

record job =
  jb_side :: side
  jb_qty :: real
  jb_market_at :: datetime
  jb_reduce :: bool
  jb_leg :: string

text \<open>The repricing step after an order was placed or kept.\<close>

definition reprice :: "'b ovn_env \<Rightarrow> job \<Rightarrow> order \<Rightarrow> ('b, unit) ovn_act" where
  "reprice env jb ord =
     reads (\<lambda>s. seq (watch_order env ord
                (min (on_clock s + py_round (oe_reprice env * 1000000)) (jb_market_at jb)))
       (reads (\<lambda>s1. if order_open env s1 (Some ord) \<and> on_clock s1 < jb_market_at jb
                       \<and> best_price env (jb_side jb) s1 \<noteq> o_price (live_order env s1 ord)
                    then cancel_quietly env (o_client_id ord) else ret ())))"

fun work_loop :: "nat \<Rightarrow> 'b ovn_env \<Rightarrow> job \<Rightarrow> string list \<Rightarrow> order option \<Rightarrow> ('b, string list \<times> order option) ovn_act"
where
  "work_loop 0 env jb ids ord s = (Inl Spinning, s)"
| "work_loop (Suc n) env jb ids ord s =
     (if \<not> (on_clock s < jb_market_at jb \<and> 1 / 10 ^ 9 < jb_qty jb - filled_in env ids s)
      then (Inr (ids, ord), s)
      else if order_open env s ord
      then seq (reprice env jb (the ord)) (work_loop n env jb ids ord) s
      else
        (case best_price env (jb_side jb) s of
           None \<Rightarrow> (Inr (ids, ord), s)
         | Some px \<Rightarrow>
             bind (night_cid (jb_leg jb) (length ids)) (\<lambda>cid.
               bind (place_gtx env (jb_side jb) (round8 (jb_qty jb - filled_in env (ids @ [cid]) s)) px cid
                       (jb_reduce jb)) (\<lambda>o1.
                 if o_status o1 = EXPIRED
                 then seq (does (slept env (us 1))) (work_loop n env jb (ids @ [cid]) (Some o1))
                 else seq (reprice env jb o1) (work_loop n env jb (ids @ [cid]) (Some o1)))) s))"

definition work_limit :: "nat \<Rightarrow> 'b ovn_env \<Rightarrow> job \<Rightarrow> ('b, string list) ovn_act" where
  "work_limit fuel env jb =
     bind (work_loop fuel env jb [] None) (\<lambda>(ids, ord).
       reads (\<lambda>s. if order_open env s ord
                  then seq (cancel_quietly env (o_client_id (the ord))) (ret ids) else ret ids))"

text \<open>What is left goes out as a market order, unless the exchange would refuse it as too small.\<close>

definition work_rest :: "'b ovn_env \<Rightarrow> job \<Rightarrow> string list \<Rightarrow> ('b, fill list) ovn_act" where
  "work_rest env jb ids =
     reads (\<lambda>s. let got = filled_in env ids s; rest = round8 (jb_qty jb - got);
                    px = (case best_price env (jb_side jb) s of Some p \<Rightarrow> p | None \<Rightarrow> 0)
       in if 1 / 10 ^ 9 < rest \<and> \<not> jb_reduce jb \<and> 0 < got \<and> oe_min_notional env \<noteq> 0
             \<and> rest * px < oe_min_notional env
          then seq (set_night (\<lambda>n. n\<lparr>nt_notes := nt_notes n @ [(None, SmallRest rest (rest * px) (oe_min_notional env))]\<rparr>))
                   (reads (\<lambda>s1. ret (fills_in env ids s1)))
          else if 1 / 10 ^ 9 < rest
          then bind (night_cid (jb_leg jb) 99) (\<lambda>cid.
                 bind (place_market env (jb_side jb) rest cid (jb_reduce jb)) (\<lambda>_.
                   seq (poll_broker env) (reads (\<lambda>s1. ret (fills_in env (ids @ [cid]) s1)))))
          else ret (fills_in env ids s))"

definition ovn_work :: "nat \<Rightarrow> 'b ovn_env \<Rightarrow> ab option \<Rightarrow> datetime option \<Rightarrow> job \<Rightarrow> ('b, fill list) ovn_act" where
  "ovn_work fuel env m limit_from jb =
     (let by_limit = (m = Some MethodB \<and> limit_from \<noteq> None);
          start = (if by_limit then the limit_from else jb_market_at jb)
      in seq (wait_until env start False)
        (seq (ovn_decision env (jb_leg jb) m start)
        (bind (if by_limit then work_limit fuel env jb else ret []) (\<lambda>ids.
         seq (wait_until env (jb_market_at jb) False) (work_rest env jb ids)))))"

subsection \<open>The phases of a night\<close>

definition times_of :: "'b ovn_env \<Rightarrow> night \<Rightarrow> (order_times \<Rightarrow> ('b, 'a) ovn_act) \<Rightarrow> ('b, 'a) ovn_act" where
  "times_of env n f =
     (case order_times_of (oe_spec env) n of Inl _ \<Rightarrow> throw NightSpecError | Inr t \<Rightarrow> f t)"

definition place_night_stop :: "'b ovn_env \<Rightarrow> ('b, unit) ovn_act" where
  "place_night_stop env =
     with_night (\<lambda>nt.
       let px = round_dec 2 (nt_entry_price nt * (1 + oe_stop_pct env / 100));
           cid = leg_cid (nt_entry_date nt) ''s'' (nt_stop_seq nt)
       in seq (set_night (\<lambda>n. n\<lparr>nt_stop_id := Some cid, nt_stop_price := Some px,
                               nt_stop_seq := nt_stop_seq n + 1\<rparr>))
         (seq (on_rejected (bind (place_stop env SELL (nt_qty nt) px cid) (\<lambda>_. ret ()))
                (\<lambda>e. does (ovn_alert (StopFailed e))))
              (does ovn_save)))"

definition account_bad :: "'b ovn_env \<Rightarrow> ('b, bool) ovn_act" where
  "account_bad env s =
     (case oe_verify env of
        Some f \<Rightarrow> (if oe_live env then (map_sum Raise (\<lambda>xs. xs \<noteq> []) (f (on_clock s) (the_broker s)), s)
                  else (Inr False, s))
      | None \<Rightarrow> (Inr False, s))"

definition open_night :: "night \<Rightarrow> ('b, unit) ovn_act" where
  "open_night n = does (\<lambda>s. s\<lparr>on_night :=
     Some (new_night (n_entry_date n) (n_exit_date n) (n_method n) (on_clock s))\<rparr>)"

definition maker_qty :: "fill list \<Rightarrow> real" where
  "maker_qty fs = fills_qty (filter (\<lambda>f. f_liquidity f = MAKER) fs)"

definition entered :: "'b ovn_env \<Rightarrow> fill list \<Rightarrow> ('b, unit) ovn_act" where
  "entered env fs =
     (let q = fills_qty fs
      in if q \<le> 1 / 10 ^ 9 then ovn_skip NoEntryFill
         else
           seq (set_night (\<lambda>n. n\<lparr>nt_qty := q, nt_entry_price := amount_of fs / q,
                               nt_fees := nt_fees n + fees_of fs\<rparr>))
          (seq (place_night_stop env)
          (seq (with_night (\<lambda>nt. ovn_phase Holding (Some (EnteredAt q (nt_entry_price nt) (maker_qty fs)))))
               (with_night (\<lambda>nt. does (ovn_alert (EnteredAlert (nt_entry_date nt) q (nt_entry_price nt)
                                        (nt_method nt) (nt_stop_price nt))))))))"

definition enter_orders :: "nat \<Rightarrow> 'b ovn_env \<Rightarrow> night \<Rightarrow> order_times \<Rightarrow> ('b, unit) ovn_act" where
  "enter_orders fuel env n t =
     seq (ovn_phase Entering (Some (EnterBy (n_method n))))
    (bind (on_rejected
        (ovn_work fuel env (n_method n) (map_option us (ot_entry_limit t))
           \<lparr>jb_side = BUY, jb_qty = oe_qty env, jb_market_at = us (ot_entry_market t),
            jb_reduce = False, jb_leg = ''e''\<rparr>)
        (\<lambda>e. bind (night_cid ''e'' 0) (\<lambda>cid. reads (\<lambda>s.
               seq (does (ovn_alert (EntryRejected e)))
                   (ret (filter (\<lambda>f. starts_with (f_client_id f) (butlast cid)) (all_fills env s)))))))
      (entered env))"

definition ovn_enter :: "nat \<Rightarrow> 'b ovn_env \<Rightarrow> night \<Rightarrow> ('b, unit) ovn_act" where
  "ovn_enter fuel env n =
     seq (open_night n)
    (times_of env n (\<lambda>t.
     seq (wait_until env (us (case ot_entry_limit t of Some l \<Rightarrow> l | None \<Rightarrow> ot_entry_market t)) False)
    (bind (healthy env) (\<lambda>h. bind (if h then may_enter env else ret False) (\<lambda>c.
     if \<not> c
     then reads (\<lambda>s. ovn_skip (CannotEnter (r_status (g_state (on_guard s))) (r_reason (g_state (on_guard s)))))
     else reads (\<lambda>s.
       if position_qty env s \<noteq> 0
       then seq (halt_with env (HaltedPosition ''before the entry'' (position_qty env s)))
                (ovn_skip UnexpectedPosition)
       else bind (account_bad env) (\<lambda>bad.
         if bad then seq (halt_with env (HaltedBy ''account'')) (ovn_skip AccountMismatch)
         else enter_orders fuel env n t)))))))"

definition flatten_rest :: "'b ovn_env \<Rightarrow> ('b, unit) ovn_act" where
  "flatten_rest env =
     reads (\<lambda>s. let left = position_qty env s
       in if left \<noteq> 0
          then seq (does (ovn_alert (ForcedExit left)))
              (bind (night_cid ''f'' 0) (\<lambda>cid.
               bind (place_market env (if 0 < left then SELL else BUY) \<bar>left\<bar> cid True) (\<lambda>_. poll_broker env)))
          else ret ())"

definition exit_work :: "nat \<Rightarrow> 'b ovn_env \<Rightarrow> night \<Rightarrow> order_times \<Rightarrow> ('b, unit) ovn_act" where
  "exit_work fuel env n t =
     seq (ovn_phase Exiting None)
    (seq (reads (\<lambda>s. if 0 < position_qty env s
            then on_rejected
              (bind (ovn_work fuel env (n_method n) (map_option us (ot_exit_limit t))
                 \<lparr>jb_side = SELL, jb_qty = position_qty env s, jb_market_at = us (ot_exit_market t),
                  jb_reduce = True, jb_leg = ''x''\<rparr>) (\<lambda>_. ret ()))
              (\<lambda>e. does (ovn_alert (ExitRejected e)))
            else ret ()))
    (seq (flatten_rest env) (ovn_finalize env Exited)))"

definition ended :: "night_state \<Rightarrow> bool" where
  "ended nt \<longleftrightarrow> nt_phase nt \<in> {Done, Skipped}"

definition ovn_exit :: "nat \<Rightarrow> 'b ovn_env \<Rightarrow> night \<Rightarrow> ('b, unit) ovn_act" where
  "ovn_exit fuel env n =
     times_of env n (\<lambda>t.
     seq (with_night (\<lambda>nt. if nt_phase nt = Holding
            then wait_until env (us (case ot_exit_limit t of Some l \<Rightarrow> l | None \<Rightarrow> ot_exit_market t)) True
            else ret ()))
         (with_night (\<lambda>nt. if ended nt then ret () else exit_work fuel env n t)))"

definition residual_check :: "'b ovn_env \<Rightarrow> night \<Rightarrow> ('b, unit) ovn_act" where
  "residual_check env n =
     seq (if n_method n = None then ret ()
          else times_of env n (\<lambda>t. wait_until env (us (ot_residual_check t)) False))
    (reads (\<lambda>s. let pos = position_qty env s
       in if pos \<noteq> 0
          then seq (halt_with env (HaltedPosition ''after the open'' pos))
              (bind (night_cid ''r'' 0) (\<lambda>cid.
               bind (place_market env (if 0 < pos then SELL else BUY) \<bar>pos\<bar> cid True) (\<lambda>_.
               does (ovn_alert (Residual pos)))))
          else ret ()))"

subsection \<open>Recovery and the loop over the nights\<close>

definition night_active :: "'b ovn \<Rightarrow> bool" where
  "night_active s = (case on_night s of Some nt \<Rightarrow> nt_phase nt \<in> {Entering, Holding, Exiting} | None \<Rightarrow> False)"

definition has_stop :: "order list \<Rightarrow> bool" where
  "has_stop os = list_ex (\<lambda>x. o_type x = STOP_MARKET \<and> is_open (o_status x)) os"

definition ovn_recover :: "'b ovn_env \<Rightarrow> ('b, unit) ovn_act" where
  "ovn_recover env =
     reads (\<lambda>s. let pos = position_qty env s; os = b_open_orders (the_ops env s) (the_broker s)
       in if night_active s \<and> 0 < pos
          then seq (set_night (\<lambda>n. n\<lparr>nt_qty := pos\<rparr>))
              (seq (if has_stop os then ret ()
                    else seq (does (ovn_alert StopMissing)) (place_night_stop env))
                   (ovn_phase Holding (Some Recovered)))
          else if night_active s \<and> pos = 0
          then with_night (\<lambda>nt. if nt_phase nt = Entering then ovn_skip RestartFlat
                               else ovn_finalize env RecoveredFlat)
          else if pos \<noteq> 0
          then seq (halt_with env (HaltedPosition ''not on record'' pos))
                   (does (ovn_alert (UnknownPosition pos)))
          else if os \<noteq> []
          then seq (does (ovn_alert (UnknownOrders (length os)))) (cancel_everything env)
          else ret ())"

definition next_in :: "history \<Rightarrow> datetime \<Rightarrow> night list \<Rightarrow> night option" where
  "next_in h now xs = find (\<lambda>n. n_entry_date n \<notin> fst ` set h \<and> now < us (n_exit_open n)) xs"

definition next_night :: "'b ovn_env \<Rightarrow> 'b ovn \<Rightarrow> exn + night option" where
  "next_night env s =
     (case nights (oe_spec env) of
        Inl _ \<Rightarrow> Inl NightSpecError
      | Inr xs \<Rightarrow> Inr (next_in (on_history s) (on_clock s) xs))"

definition skip_open_night :: "night \<Rightarrow> night_skip_why \<Rightarrow> ('b, unit) ovn_act" where
  "skip_open_night n why = seq (open_night n) (ovn_skip why)"

definition resuming :: "night \<Rightarrow> 'b ovn \<Rightarrow> bool" where
  "resuming n s = (case on_night s of
     Some nt \<Rightarrow> nt_entry_date nt = n_entry_date n \<and> nt_phase nt = Holding | None \<Rightarrow> False)"

definition exit_and_check :: "nat \<Rightarrow> 'b ovn_env \<Rightarrow> night \<Rightarrow> ('b, unit) ovn_act" where
  "exit_and_check fuel env n =
     with_night (\<lambda>nt. if nt_phase nt = Holding then seq (ovn_exit fuel env n) (residual_check env n) else ret ())"

definition run_night :: "nat \<Rightarrow> 'b ovn_env \<Rightarrow> night \<Rightarrow> ('b, unit) ovn_act" where
  "run_night fuel env n =
     reads (\<lambda>s. case n_skip n of
        Some why \<Rightarrow> skip_open_night n (CalendarSkip why)
      | None \<Rightarrow>
          (if n_entry_date n \<in> set (on_bad s) \<or> n_exit_date n \<in> set (on_bad s)
           then skip_open_night n CalendarMismatch
           else if resuming n s then exit_and_check fuel env n
           else times_of env n (\<lambda>t.
             if us (ot_entry_give_up t) < on_clock s then skip_open_night n LateStart
             else seq (ovn_enter fuel env n) (exit_and_check fuel env n))))"

text \<open>The loop of \<open>run_forever\<close>; \<open>todo\<close> is \<open>max_nights\<close>.\<close>

fun night_loop :: "nat \<Rightarrow> nat \<Rightarrow> 'b ovn_env \<Rightarrow> nat option \<Rightarrow> ('b, unit) ovn_act" where
  "night_loop 0 fuel env todo s = (Inl OutOfRounds, s)"
| "night_loop (Suc k) fuel env todo s =
     (if todo = Some 0 then (Inr (), s)
      else case next_night env s of
        Inl _ \<Rightarrow> (Inr (), ovn_alert CalendarEnd s)
      | Inr None \<Rightarrow> (Inr (), ovn_alert NoNightLeft s)
      | Inr (Some n) \<Rightarrow>
          seq (run_night fuel env n) (night_loop k fuel env (map_option (\<lambda>m. m - 1) todo)) s)"

definition run_forever :: "nat \<Rightarrow> nat \<Rightarrow> 'b ovn_env \<Rightarrow> nat option \<Rightarrow> ('b, unit) ovn_act" where
  "run_forever k fuel env todo = seq (ovn_recover env) (night_loop k fuel env todo)"

end
