(* ===== verification/Overnight_Correct.thy ===== *)
theory Overnight_Correct
  imports Overnight_Runner
begin

text \<open>
  The overnight scheduler settles what it starts: every action keeps the history and the
  night it works on, a night that was run to its end is in the history, so the loop over
  the nights never runs a night twice and ends; and which night comes next.
\<close>

subsection \<open>A logic for actions\<close>

text \<open>Every state an action reaches is related to the one it started in.\<close>

definition acts :: "('s \<Rightarrow> 's \<Rightarrow> bool) \<Rightarrow> ('s, 'a) act \<Rightarrow> bool" where
  "acts R m \<longleftrightarrow> (\<forall>s. R s (snd (m s)) \<and> fst (m s) \<noteq> Inl OutOfRounds)"

text \<open>When the action returns from a state in \<open>P\<close>, its result and state satisfy \<open>Q\<close>.\<close>

definition gives :: "('s \<Rightarrow> bool) \<Rightarrow> ('s, 'a) act \<Rightarrow> ('a \<Rightarrow> 's \<Rightarrow> bool) \<Rightarrow> bool" where
  "gives P m Q \<longleftrightarrow> (\<forall>s. P s \<longrightarrow> (case m s of (Inl _, _) \<Rightarrow> True | (Inr x, s1) \<Rightarrow> Q x s1))"

locale act_relation =
  fixes R :: "'s \<Rightarrow> 's \<Rightarrow> bool"
  assumes rel_refl: "R s s"
    and rel_trans: "R s t \<Longrightarrow> R t u \<Longrightarrow> R s u"
begin

lemma acts_ret: "acts R (ret x)"
  by (simp add: acts_def ret_def rel_refl)

lemma acts_throw: "acts R (throw e)"
  by (simp add: acts_def throw_def rel_refl)

lemma acts_does: "(\<And>s. R s (f s)) \<Longrightarrow> acts R (does f)"
  by (simp add: acts_def does_def)

lemma acts_reads: "(\<And>s. acts R (f s)) \<Longrightarrow> acts R (reads f)"
  by (simp add: acts_def reads_def)

lemma acts_bind: "acts R m \<Longrightarrow> (\<And>x. acts R (f x)) \<Longrightarrow> acts R (bind m f)"
  unfolding acts_def bind_def
proof (intro allI)
  fix s
  assume m: "\<forall>s. R s (snd (m s)) \<and> fst (m s) \<noteq> Inl OutOfRounds"
    and f: "\<And>x. \<forall>s. R s (snd (f x s)) \<and> fst (f x s) \<noteq> Inl OutOfRounds"
  obtain r t where ms: "m s = (r, t)" by (cases "m s")
  have "R s t" "r \<noteq> Inl OutOfRounds" using m [rule_format, of s] ms by simp_all
  then show "R s (snd (case m s of (Inl e, s1) \<Rightarrow> (Inl e, s1) | (Inr x, s1) \<Rightarrow> f x s1))
    \<and> fst (case m s of (Inl e, s1) \<Rightarrow> (Inl e, s1) | (Inr x, s1) \<Rightarrow> f x s1) \<noteq> Inl OutOfRounds"
    using f rel_trans ms by (cases r) auto
qed

lemma acts_seq: "acts R m \<Longrightarrow> acts R f \<Longrightarrow> acts R (seq m f)"
  unfolding seq_def by (rule acts_bind)

lemma acts_on_rejected: "acts R m \<Longrightarrow> (\<And>e. acts R (h e)) \<Longrightarrow> acts R (on_rejected m h)"
  unfolding acts_def on_rejected_def
proof (intro allI)
  fix s
  assume m: "\<forall>s. R s (snd (m s)) \<and> fst (m s) \<noteq> Inl OutOfRounds"
    and h: "\<And>e. \<forall>s. R s (snd (h e s)) \<and> fst (h e s) \<noteq> Inl OutOfRounds"
  obtain r t where ms: "m s = (r, t)" by (cases "m s")
  have "R s t" "r \<noteq> Inl OutOfRounds" using m [rule_format, of s] ms by simp_all
  then show "R s (snd (case m s of
        (Inl (Raise (OrderRejected r)), s1) \<Rightarrow> h (OrderRejected r) s1
      | (Inl (Raise (RiskHalt r)), s1) \<Rightarrow> h (RiskHalt r) s1 | x \<Rightarrow> x))
    \<and> fst (case m s of
        (Inl (Raise (OrderRejected r)), s1) \<Rightarrow> h (OrderRejected r) s1
      | (Inl (Raise (RiskHalt r)), s1) \<Rightarrow> h (RiskHalt r) s1 | x \<Rightarrow> x) \<noteq> Inl OutOfRounds"
    using h rel_trans ms by (auto split: sum.split stop.split exn.split)
qed

lemmas acts_rules = acts_ret acts_throw acts_does acts_reads acts_bind acts_seq acts_on_rejected

end

lemma gives_ret: "(\<And>s. P s \<Longrightarrow> Q x s) \<Longrightarrow> gives P (ret x) Q"
  by (simp add: gives_def ret_def)

lemma gives_does: "(\<And>s. P s \<Longrightarrow> Q () (f s)) \<Longrightarrow> gives P (does f) Q"
  by (simp add: gives_def does_def)

lemma gives_throw: "gives P (throw e) Q"
  by (simp add: gives_def throw_def)

lemma gives_reads: "(\<And>s. gives (\<lambda>t. t = s \<and> P t) (f s) Q) \<Longrightarrow> gives P (reads f) Q"
  by (auto simp: gives_def reads_def)

lemma gives_bind:
  assumes "gives P m M" "\<And>x. gives (M x) (f x) Q" shows "gives P (bind m f) Q"
  unfolding gives_def bind_def
proof (intro allI impI)
  fix s assume "P s"
  then show "case (case m s of (Inl e, s1) \<Rightarrow> (Inl e, s1) | (Inr x, s1) \<Rightarrow> f x s1) of
      (Inl x, xa) \<Rightarrow> True | (Inr x, xa) \<Rightarrow> Q x xa"
    using assms unfolding gives_def by (cases "m s"; cases "fst (m s)") fastforce+
qed

lemma gives_seq: "gives P m (\<lambda>_. M) \<Longrightarrow> gives M f Q \<Longrightarrow> gives P (seq m f) Q"
  unfolding seq_def by (rule gives_bind)

lemma gives_weaken: "gives P m Q \<Longrightarrow> (\<And>s. P' s \<Longrightarrow> P s) \<Longrightarrow> (\<And>x s. Q x s \<Longrightarrow> Q' x s) \<Longrightarrow> gives P' m Q'"
  unfolding gives_def by (fastforce split: prod.splits sum.splits)

lemma gives_trivial: "gives P m (\<lambda>_ _. True)"
  by (auto simp: gives_def split: prod.splits sum.splits)

lemma gives_with_night:
  assumes "\<And>nt. gives (\<lambda>s. P s \<and> on_night s = Some nt) (f nt) Q" shows "gives P (with_night f) Q"
  using assms by (auto simp: gives_def with_night_def split: option.splits)

text \<open>An action that keeps a relation keeps what the relation carries over.\<close>

lemma gives_acts:
  assumes "acts R m" "\<And>s t. P s \<Longrightarrow> R s t \<Longrightarrow> Q t" shows "gives P m (\<lambda>_. Q)"
  unfolding gives_def
proof (intro allI impI)
  fix s assume "P s"
  moreover have "R s (snd (m s))" using assms(1) by (simp add: acts_def)
  ultimately have "Q (snd (m s))" by (rule assms(2))
  then show "case m s of (Inl x, xa) \<Rightarrow> True | (Inr x, xa) \<Rightarrow> Q xa" by (cases "m s"; cases "fst (m s)") auto
qed

subsection \<open>The night and the history\<close>

definition night_date :: "'b ovn \<Rightarrow> int option" where
  "night_date s = map_option nt_entry_date (on_night s)"

definition booked_days :: "'b ovn \<Rightarrow> int set" where
  "booked_days s = fst ` set (on_history s)"

definition same_night :: "'b ovn \<Rightarrow> 'b ovn \<Rightarrow> bool" where
  "same_night s t \<longleftrightarrow> night_date t = night_date s \<and> booked_days s \<subseteq> booked_days t"

interpretation nr: act_relation same_night
  by unfold_locales (auto simp: same_night_def)

lemma booked_update [simp]: "fst ` set (AList.update d nt h) = insert d (fst ` set h)"
  by (induction h) auto

lemma same_night_update:
  "on_night t = on_night s \<Longrightarrow> on_history t = on_history s \<Longrightarrow> same_night s t"
  by (simp add: same_night_def night_date_def booked_days_def)


lemma acts_with_night:
  "(\<And>nt. acts same_night (f nt)) \<Longrightarrow> acts same_night (with_night f)"
  by (auto simp: acts_def with_night_def nr.rel_refl split: option.splits)

lemma acts_set_night [intro]:
  "(\<And>nt. nt_entry_date (f nt) = nt_entry_date nt) \<Longrightarrow> acts same_night (set_night f)"
  by (auto simp: acts_def set_night_def with_night_def does_def same_night_def night_date_def booked_days_def
      split: option.splits)

lemma map_sum_raise [simp]: "map_sum Raise f r \<noteq> Inl OutOfRounds"
  by (cases r) simp_all

lemma acts_call [intro]: "acts same_night (call env f)"
  by (auto simp: acts_def call_def same_night_update split: prod.splits)

lemma log_fields [simp]:
  "on_night (ovn_log ev s) = on_night s" "on_history (ovn_log ev s) = on_history s"
  "on_night (ovn_alert a s) = on_night s" "on_history (ovn_alert a s) = on_history s"
  "on_night (ovn_save s) = on_night s" "on_history (ovn_save s) = on_history s"
  "on_night (slept env d s) = on_night s" "on_history (slept env d s) = on_history s"
  by (simp_all add: ovn_log_def ovn_alert_def ovn_save_def slept_def)

lemma acts_does_frame:
  "(\<And>s. on_night (f s) = on_night s) \<Longrightarrow> (\<And>s. on_history (f s) = on_history s) \<Longrightarrow> acts same_night (does f)"
  by (simp add: acts_def does_def same_night_update)

lemma acts_book [intro]:
  "acts same_night (with_night (\<lambda>nt. does (\<lambda>s. s\<lparr>on_history := AList.update (nt_entry_date nt) nt (on_history s)\<rparr>)))"
  by (auto simp: acts_def with_night_def does_def same_night_def night_date_def booked_days_def
      split: option.splits)

lemma acts_if: "acts R a \<Longrightarrow> acts R b \<Longrightarrow> acts R (if c then a else b)"
  by simp

lemmas acts_intros = acts_if acts_book acts_does_frame nr.acts_ret nr.acts_throw nr.acts_bind nr.acts_seq
  nr.acts_on_rejected nr.acts_reads acts_with_night acts_set_night acts_call

lemma acts_halt_with: "acts same_night (halt_with env why)"
  unfolding halt_with_def by (rule acts_does_frame) simp_all

lemma acts_phase: "acts same_night (ovn_phase ph nt)"
  unfolding ovn_phase_def by (intro acts_intros) simp_all

lemma acts_skip: "acts same_night (ovn_skip why)"
  unfolding ovn_skip_def by (intro acts_intros) simp_all

lemma acts_funding: "acts same_night (funding_of env a b q)"
  by (auto simp: acts_def funding_of_def nr.rel_refl split: option.splits)

lemma acts_after_night: "acts same_night (after_night env)"
  unfolding after_night_def by (cases "oe_report env") (auto intro!: acts_intros)

lemma acts_book_night: "acts same_night (book_night env how)"
  unfolding book_night_def by (intro acts_intros acts_after_night) simp_all

lemma acts_cancel_all: "acts same_night (cancel_everything env)"
  unfolding cancel_everything_def by (intro acts_intros)

lemma acts_finalize: "acts same_night (ovn_finalize env how)"
  unfolding ovn_finalize_def Let_def
  by (intro acts_intros acts_cancel_all acts_phase acts_book_night acts_funding)
    (auto simp: priced_night_def settled_night_def Let_def intro!: acts_intros acts_phase acts_book_night acts_funding
      split: option.split)

lemma acts_stopped_out: "acts same_night (stopped_out env)"
  unfolding stopped_out_def by (intro acts_intros acts_finalize) simp_all

lemma acts_poll: "acts same_night (poll_broker env)"
  unfolding poll_broker_def by (intro acts_intros)

lemma acts_orders: "acts same_night (place_market env sd q cid ro)"
  "acts same_night (place_gtx env sd q px cid ro)" "acts same_night (place_stop env sd q px cid)"
  unfolding place_market_def place_gtx_def place_stop_def by (rule acts_call)+

lemma same_night_slept [simp]: "same_night s (slept env d s)"
  by (simp add: same_night_update)

text \<open>A poll step inside a waiting loop: what it keeps, and that its answer is the broker's.\<close>

lemma poll_step:
  assumes "poll_broker env s1 = (r, s2)" "same_night s s1"
  shows "same_night s s2 \<and> r \<noteq> Inl OutOfRounds"
proof -
  have "same_night s1 (snd (poll_broker env s1)) \<and> fst (poll_broker env s1) \<noteq> Inl OutOfRounds"
    using acts_poll unfolding acts_def by blast
  with assms show ?thesis using nr.rel_trans by simp blast
qed

lemma wait_until_late:
  assumes "\<not> t \<le> on_clock s" "s1 = slept env (min (t - on_clock s) (us (if hold then 60 else 30))) s"
  shows "wait_until env t hold s =
    (if hold \<and> holding s1
     then (case poll_broker env s1 of
             (Inl e, s2) \<Rightarrow> (Inl e, s2)
           | (Inr _, s2) \<Rightarrow> if position_qty env s2 = 0 then stopped_out env s2 else wait_until env t hold s2)
     else wait_until env t hold s1)"
  using assms(1) unfolding assms(2) by (subst wait_until.simps) (simp only: Let_def if_False)

lemma acts_wait_until_at:
  "same_night s (snd (wait_until env t hold s)) \<and> fst (wait_until env t hold s) \<noteq> Inl OutOfRounds"
proof (induction env t hold s rule: wait_until.induct)
  case (1 env t hold s)
  define s1 where "s1 = slept env (min (t - on_clock s) (us (if hold then 60 else 30))) s"
  have s1: "same_night s s1" by (simp add: s1_def)
  show ?case
  proof (cases "t \<le> on_clock s")
    case True
    then show ?thesis by (simp add: wait_until.simps [of env t hold s] nr.rel_refl)
  next
    case late: False
    show ?thesis
    proof (cases "hold \<and> holding s1")
      case False
      then have "wait_until env t hold s = wait_until env t hold s1"
        using wait_until_late [OF late s1_def] by (simp only: if_False)
      then show ?thesis
        using "1.IH"(2) [OF late s1_def False] nr.rel_trans [OF s1] by simp
    next
      case True
      obtain r s2 where p: "poll_broker env s1 = (r, s2)" by (cases "poll_broker env s1")
      note st = poll_step [OF p s1]
      have w: "wait_until env t hold s = (case r of Inl e \<Rightarrow> (Inl e, s2)
          | Inr _ \<Rightarrow> if position_qty env s2 = 0 then stopped_out env s2 else wait_until env t hold s2)"
        using wait_until_late [OF late s1_def] True p by (simp only: if_True prod.case simp_thms)
      show ?thesis
      proof (cases r)
        case (Inl e)
        then show ?thesis using w st by simp
      next
        case (Inr u)
        have so: "same_night s2 (snd (stopped_out env s2)) \<and> fst (stopped_out env s2) \<noteq> Inl OutOfRounds"
          using acts_stopped_out unfolding acts_def by blast
        show ?thesis
        proof (cases "position_qty env s2 = 0")
          case True
          then show ?thesis using w st so nr.rel_trans Inr by simp blast
        next
          case False
          then show ?thesis
            using "1.IH"(1) [OF late s1_def True p [symmetric] Inr False] w st nr.rel_trans Inr by simp blast
        qed
      qed
    qed
  qed
qed

lemma acts_wait_until: "acts same_night (wait_until env t hold)"
  unfolding acts_def using acts_wait_until_at by blast

lemma acts_watch_order: "acts same_night (watch_order env ord t)"
  unfolding acts_def
proof
  show "same_night s (snd (watch_order env ord t s)) \<and> fst (watch_order env ord t s) \<noteq> Inl OutOfRounds" for s
  proof (induction env ord t s rule: watch_order.induct)
    case (1 env ord t s)
    show ?case
    proof (cases "order_open env s (Some ord) \<and> on_clock s < t")
      case False
      then have "watch_order env ord t s = (Inr (), s)" by (subst watch_order.simps) (simp only: if_False)
      then show ?thesis by (simp add: nr.rel_refl)
    next
      case True
      obtain r s2 where p: "poll_broker env (slept env (us 1) s) = (r, s2)"
        by (cases "poll_broker env (slept env (us 1) s)")
      note st = poll_step [OF p same_night_slept]
      have w: "watch_order env ord t s = (case r of Inl e \<Rightarrow> (Inl e, s2) | Inr _ \<Rightarrow> watch_order env ord t s2)"
        using True p by (subst watch_order.simps) simp
      show ?thesis
      proof (cases r)
        case (Inl e)
        then show ?thesis using w st by simp
      next
        case (Inr u)
        then show ?thesis using "1.IH" [OF True p [symmetric] Inr] w st nr.rel_trans by simp blast
      qed
    qed
  qed
qed

lemma acts_pure_result: "(\<And>s. snd (m s) = s) \<Longrightarrow> (\<And>s. fst (m s) \<noteq> Inl OutOfRounds) \<Longrightarrow> acts same_night m"
  by (simp add: acts_def nr.rel_refl)

lemma acts_healthy: "acts same_night (healthy env)"
  by (auto simp: acts_def healthy_def Let_def halt_with_def does_def nr.rel_refl same_night_update
      split: option.splits sum.splits)

lemma acts_may_enter: "acts same_night (may_enter env)"
  by (auto simp: acts_def may_enter_def same_night_update split: prod.splits)

lemma acts_account_bad: "acts same_night (account_bad env)"
  by (auto simp: acts_def account_bad_def nr.rel_refl split: option.splits)

lemma acts_night_cid: "acts same_night (night_cid leg n)"
  unfolding night_cid_def by (intro acts_intros)

lemma acts_cancel_quietly: "acts same_night (cancel_quietly env cid)"
  unfolding cancel_quietly_def by (intro acts_intros acts_poll)

lemma acts_reprice: "acts same_night (reprice env jb ord)"
  unfolding reprice_def by (intro acts_intros acts_watch_order acts_cancel_quietly)

lemma acts_at: "(\<And>s. same_night s (snd (m s)) \<and> fst (m s) \<noteq> Inl OutOfRounds) \<Longrightarrow> acts same_night m"
  by (simp add: acts_def)

lemma acts_here: "acts same_night m \<Longrightarrow> same_night s (snd (m s)) \<and> fst (m s) \<noteq> Inl OutOfRounds"
  by (simp add: acts_def)

lemma acts_slept: "acts same_night (does (slept env d))"
  by (rule acts_does_frame) simp_all

lemma acts_work_loop: "acts same_night (work_loop fuel env jb ids ord)"
proof (induction fuel arbitrary: ids ord)
  case 0
  show ?case by (rule acts_at) (simp add: nr.rel_refl)
next
  case (Suc n)
  note step = nr.acts_seq [OF acts_reprice Suc] nr.acts_seq [OF acts_slept Suc]
  have go: "acts same_night (bind (night_cid (jb_leg jb) k) (\<lambda>cid.
      bind (place_gtx env (jb_side jb) (q cid) px cid (jb_reduce jb)) (\<lambda>o1.
        if o_status o1 = EXPIRED
        then seq (does (slept env (us 1))) (work_loop n env jb (ids @ [cid]) (Some o1))
        else seq (reprice env jb o1) (work_loop n env jb (ids @ [cid]) (Some o1)))))" for k q px
    by (intro nr.acts_bind acts_night_cid acts_orders acts_if step)
  show ?case
  proof (rule acts_at)
    fix s
    show "same_night s (snd (work_loop (Suc n) env jb ids ord s))
      \<and> fst (work_loop (Suc n) env jb ids ord s) \<noteq> Inl OutOfRounds"
      using acts_here [OF step(1)] acts_here [OF go]
      by (auto simp: nr.rel_refl split: option.split)
  qed
qed

lemma acts_work_limit: "acts same_night (work_limit fuel env jb)"
  unfolding work_limit_def
  by (rule nr.acts_bind [OF acts_work_loop]) (auto intro!: acts_intros acts_cancel_quietly split: prod.split)

lemma acts_work_rest: "acts same_night (work_rest env jb ids)"
  unfolding work_rest_def Let_def
  by (intro acts_intros acts_night_cid acts_orders acts_poll) simp_all

lemma acts_decision: "acts same_night (ovn_decision env leg m t)"
  unfolding ovn_decision_def by (intro acts_intros) simp_all

lemma acts_work: "acts same_night (ovn_work fuel env m lf jb)"
  unfolding ovn_work_def Let_def
  by (intro acts_intros acts_wait_until acts_decision acts_work_limit acts_work_rest)

lemma acts_times_of: "(\<And>t. acts same_night (f t)) \<Longrightarrow> acts same_night (times_of env n f)"
  by (auto simp: times_of_def intro: nr.acts_throw split: sum.split)

lemma acts_place_night_stop: "acts same_night (place_night_stop env)"
  unfolding place_night_stop_def Let_def by (intro acts_intros acts_orders) simp_all

lemma acts_entered: "acts same_night (entered env fs)"
  unfolding entered_def Let_def
  by (intro acts_intros acts_skip acts_place_night_stop acts_phase) simp_all

lemma acts_enter_orders: "acts same_night (enter_orders fuel env n t)"
  unfolding enter_orders_def
  by (intro acts_intros acts_phase acts_work acts_night_cid acts_entered) simp_all

lemma acts_flatten: "acts same_night (flatten_rest env)"
  unfolding flatten_rest_def Let_def by (intro acts_intros acts_night_cid acts_orders acts_poll) simp_all

lemma acts_exit_work: "acts same_night (exit_work fuel env n t)"
  unfolding exit_work_def
  by (intro acts_intros acts_phase acts_work acts_flatten acts_finalize) simp_all

lemma acts_exit: "acts same_night (ovn_exit fuel env n)"
  unfolding ovn_exit_def by (intro acts_times_of acts_intros acts_wait_until acts_exit_work)

lemma acts_residual: "acts same_night (residual_check env n)"
  unfolding residual_check_def Let_def
  by (intro acts_intros acts_times_of acts_wait_until acts_halt_with acts_night_cid acts_orders) simp_all

lemma acts_recover: "acts same_night (ovn_recover env)"
  unfolding ovn_recover_def Let_def
  by (intro acts_intros acts_place_night_stop acts_phase acts_skip acts_finalize acts_halt_with acts_cancel_all)
    simp_all

subsection \<open>What a night that ran to its end leaves\<close>

definition at_night :: "int \<Rightarrow> 'b ovn \<Rightarrow> bool" where
  "at_night d s \<longleftrightarrow> night_date s = Some d"

definition booked :: "int \<Rightarrow> 'b ovn \<Rightarrow> bool" where
  "booked d s \<longleftrightarrow> d \<in> booked_days s"

definition in_hand :: "int \<Rightarrow> 'b ovn \<Rightarrow> bool" where
  "in_hand d s \<longleftrightarrow> at_night d s \<and> (holding s \<or> booked d s)"

lemma in_handI: "at_night d s \<Longrightarrow> booked d s \<Longrightarrow> in_hand d s"
  by (simp add: in_hand_def)

lemma keeps_at: "acts same_night m \<Longrightarrow> gives (at_night d) m (\<lambda>_. at_night d)"
  by (rule gives_acts [where R = same_night]) (simp_all add: same_night_def at_night_def)

lemma keeps_booked:
  "acts same_night m \<Longrightarrow> gives (\<lambda>s. at_night d s \<and> booked d s) m (\<lambda>_ s. at_night d s \<and> booked d s)"
  by (rule gives_acts [where R = same_night]) (auto simp: same_night_def at_night_def booked_def)

text \<open>Steps that leave the night record alone.\<close>

definition night_kept :: "'b ovn \<Rightarrow> 'b ovn \<Rightarrow> bool" where
  "night_kept s t \<longleftrightarrow> on_night t = on_night s \<and> booked_days s \<subseteq> booked_days t"

interpretation nk: act_relation night_kept
  by unfold_locales (auto simp: night_kept_def)

lemma kept_in_hand: "in_hand d s \<Longrightarrow> night_kept s t \<Longrightarrow> in_hand d t"
  by (auto simp: in_hand_def at_night_def night_date_def holding_def booked_def night_kept_def)

lemma acts_poll_kept: "acts night_kept (poll_broker env)"
  by (auto simp: acts_def poll_broker_def bind_def call_def ret_def night_kept_def booked_days_def
      split: prod.splits sum.splits)

lemma skip_books: "gives (at_night d) (ovn_skip why) (\<lambda>_ s. at_night d s \<and> booked d s)"
  by (auto simp: gives_def ovn_skip_def seq_def bind_def set_night_def with_night_def does_def at_night_def
      night_date_def booked_def booked_days_def)

lemma phase_at:
  "gives (at_night d) (ovn_phase ph nt) (\<lambda>_ s. at_night d s \<and> (\<exists>n. on_night s = Some n \<and> nt_phase n = ph))"
  by (auto simp: gives_def ovn_phase_def reads_def seq_def bind_def set_night_def with_night_def does_def
      at_night_def night_date_def)

lemma history_books:
  "gives (at_night d)
     (with_night (\<lambda>nt. does (\<lambda>s. s\<lparr>on_history := AList.update (nt_entry_date nt) nt (on_history s)\<rparr>)))
     (\<lambda>_ s. at_night d s \<and> booked d s)"
  by (auto simp: gives_def with_night_def does_def at_night_def night_date_def booked_def booked_days_def)

lemma book_night_books: "gives (at_night d) (book_night env how) (\<lambda>_ s. at_night d s \<and> booked d s)"
  unfolding book_night_def
  by (rule gives_seq [OF keeps_at], (intro acts_intros; simp),
      rule gives_seq [OF keeps_at], (intro acts_intros; simp),
      rule gives_seq [OF history_books], rule keeps_booked, intro acts_intros acts_after_night) simp_all

lemma finalize_books: "gives (at_night d) (ovn_finalize env how) (\<lambda>_ s. at_night d s \<and> booked d s)"
  unfolding ovn_finalize_def Let_def
proof (rule gives_seq [OF keeps_at])
  show "acts same_night (reads (\<lambda>s. if b_open_orders (the_ops env s) (the_broker s) \<noteq> []
      then cancel_everything env else ret ()))"
    by (intro acts_intros acts_cancel_all)
next
  let ?rest = "\<lambda>nt s mine fund. seq (set_night (settled_night mine fund (on_clock s)))
      (seq (with_night (\<lambda>n. ovn_phase Done
              (Some (ClosedAt how (fills_qty (of_side SELL mine)) (nt_exit_price n) (pnl_of n)))))
           (book_night env how))"
  have rest: "gives (at_night d) (?rest nt s mine fund) (\<lambda>_ s. at_night d s \<and> booked d s)" for nt s mine fund
    by (rule gives_seq [OF keeps_at], rule acts_set_night, simp add: settled_night_def,
        rule gives_seq [OF keeps_at], intro acts_intros acts_phase, rule book_night_books)
  show "gives (at_night d) (with_night (\<lambda>nt. case nt_started nt of None \<Rightarrow> throw TypeError
      | Some start \<Rightarrow> reads (\<lambda>s.
          seq (set_night (priced_night (night_fills (nt_entry_date nt) (b_fills_since (the_ops env s) start (the_broker s)))))
           (bind (funding_of env start (on_clock s) (nt_qty nt)) (?rest nt s
             (night_fills (nt_entry_date nt) (b_fills_since (the_ops env s) start (the_broker s))))))))
      (\<lambda>_ s. at_night d s \<and> booked d s)" (is "gives _ (with_night ?f) _")
  proof (rule gives_with_night)
    fix nt
    have "gives (at_night d) (?f nt) (\<lambda>_ s. at_night d s \<and> booked d s)"
    proof (cases "nt_started nt")
      case None
      then show ?thesis by (simp add: gives_throw)
    next
      case (Some start)
      have "gives (\<lambda>t. t = s \<and> at_night d t)
          (seq (set_night (priced_night (night_fills (nt_entry_date nt) (b_fills_since (the_ops env s) start (the_broker s)))))
           (bind (funding_of env start (on_clock s) (nt_qty nt)) (?rest nt s
             (night_fills (nt_entry_date nt) (b_fills_since (the_ops env s) start (the_broker s))))))
          (\<lambda>_ s. at_night d s \<and> booked d s)" for s
      proof (rule gives_weaken [where P = "at_night d"])
        show "gives (at_night d)
          (seq (set_night (priced_night (night_fills (nt_entry_date nt) (b_fills_since (the_ops env s) start (the_broker s)))))
           (bind (funding_of env start (on_clock s) (nt_qty nt)) (?rest nt s
             (night_fills (nt_entry_date nt) (b_fills_since (the_ops env s) start (the_broker s))))))
          (\<lambda>_ s. at_night d s \<and> booked d s)"
          by (rule gives_seq [OF keeps_at], rule acts_set_night, simp add: priced_night_def Let_def,
              rule gives_bind [OF keeps_at [OF acts_funding]], rule rest)
      qed simp_all
      then show ?thesis using Some by (simp add: gives_reads)
    qed
    then show "gives (\<lambda>s. at_night d s \<and> on_night s = Some nt) (?f nt) (\<lambda>_ s. at_night d s \<and> booked d s)"
      by (rule gives_weaken) simp_all
  qed
qed

lemma stopped_out_books: "gives (at_night d) (stopped_out env) (\<lambda>_ s. at_night d s \<and> booked d s)"
  unfolding stopped_out_def
  by (rule gives_seq [OF keeps_at], (intro acts_intros; simp), rule finalize_books)

lemma gives_here: "gives P m Q \<Longrightarrow> P s \<Longrightarrow> m s = (Inr x, t) \<Longrightarrow> Q x t"
  unfolding gives_def by fastforce

lemma in_hand_pair: "gives P m (\<lambda>_ s. at_night d s \<and> booked d s) \<Longrightarrow> gives P m (\<lambda>_. in_hand d)"
  by (erule gives_weaken) (simp_all add: in_handI)

lemma wait_in_hand: "in_hand d s \<Longrightarrow> wait_until env t hold s = (Inr x, s') \<Longrightarrow> in_hand d s'"
proof (induction env t hold s rule: wait_until.induct)
  case (1 env t hold s)
  define s1 where "s1 = slept env (min (t - on_clock s) (us (if hold then 60 else 30))) s"
  have h1: "in_hand d s1"
    by (rule kept_in_hand [OF "1.prems"(1)]) (simp add: s1_def night_kept_def booked_days_def)
  show ?case
  proof (cases "t \<le> on_clock s")
    case True
    then show ?thesis using "1.prems" by (simp add: wait_until.simps [of env t hold s])
  next
    case late: False
    show ?thesis
    proof (cases "hold \<and> holding s1")
      case False
      then have "wait_until env t hold s1 = (Inr x, s')"
        using wait_until_late [OF late s1_def] "1.prems"(2) by (simp only: if_False)
      then show ?thesis by (rule "1.IH"(2) [OF late s1_def False h1])
    next
      case True
      obtain r s2 where p: "poll_broker env s1 = (r, s2)" by (cases "poll_broker env s1")
      have "night_kept s1 s2" using acts_poll_kept [of env] p unfolding acts_def by (metis snd_conv)
      then have h2: "in_hand d s2" by (rule kept_in_hand [OF h1])
      have w: "(case r of Inl e \<Rightarrow> (Inl e, s2)
          | Inr _ \<Rightarrow> if position_qty env s2 = 0 then stopped_out env s2 else wait_until env t hold s2) = (Inr x, s')"
        using wait_until_late [OF late s1_def] True p "1.prems"(2) by (simp only: if_True prod.case simp_thms)
      then obtain u where r: "r = Inr u" by (cases r) simp_all
      show ?thesis
      proof (cases "position_qty env s2 = 0")
        case True
        then have so: "stopped_out env s2 = (Inr x, s')" using w r by simp
        have "at_night d s2" using h2 by (simp add: in_hand_def)
        then show ?thesis by (rule gives_here [OF in_hand_pair [OF stopped_out_books] _ so])
      next
        case False
        then have "wait_until env t hold s2 = (Inr x, s')" using w r by simp
        then show ?thesis by (rule "1.IH"(1) [OF late s1_def True p [symmetric] r False h2])
      qed
    qed
  qed
qed

lemma wait_gives: "gives (in_hand d) (wait_until env t hold) (\<lambda>_. in_hand d)"
  unfolding gives_def
proof (intro allI impI)
  fix s :: "'a ovn" assume "in_hand d s"
  then show "case wait_until env t hold s of (Inl x, xa) \<Rightarrow> True | (Inr x, xa) \<Rightarrow> in_hand d xa"
    using wait_in_hand [of d s env t hold] by (cases "wait_until env t hold s"; cases "fst (wait_until env t hold s)") auto
qed

lemma kept_gives: "acts night_kept m \<Longrightarrow> gives (in_hand d) m (\<lambda>_. in_hand d)"
  by (rule gives_acts [where R = night_kept]) (simp_all add: kept_in_hand)

lemma gives_if: "gives P a Q \<Longrightarrow> gives P b Q \<Longrightarrow> gives P (if c then a else b) Q"
  by simp

lemma gives_times_of: "(\<And>t. gives P (f t) Q) \<Longrightarrow> gives P (times_of env n f) Q"
  by (auto simp: times_of_def intro: gives_throw split: sum.split)

lemma gives_reads_at: "(\<And>s. gives P (f s) Q) \<Longrightarrow> gives P (reads f) Q"
  by (rule gives_reads, rule gives_weaken [where P = P and Q = Q]) simp_all

lemma gives_night_at: "(\<And>nt. gives P (f nt) Q) \<Longrightarrow> gives P (with_night f) Q"
  by (rule gives_with_night, rule gives_weaken [where P = P and Q = Q]) simp_all

lemma entered_hand: "gives (at_night d) (entered env fs) (\<lambda>_. in_hand d)"
proof -
  have hold: "gives (at_night d) (with_night (\<lambda>nt. ovn_phase Holding (g nt))) (\<lambda>_. in_hand d)" for g
    by (rule gives_night_at, rule gives_weaken [OF phase_at]) (auto simp: in_hand_def holding_def)
  have say: "gives (in_hand d) (with_night (\<lambda>nt. does (ovn_alert (g nt)))) (\<lambda>_. in_hand d)" for g
    by (rule gives_night_at, rule gives_does, erule kept_in_hand) (simp add: night_kept_def booked_days_def)
  show ?thesis
    unfolding entered_def Let_def
    by (rule gives_if, rule in_hand_pair [OF skip_books],
        rule gives_seq [OF keeps_at], rule acts_set_night, simp,
        rule gives_seq [OF keeps_at [OF acts_place_night_stop]],
        rule gives_seq [OF hold say])
qed

lemma enter_orders_hand: "gives (at_night d) (enter_orders fuel env n t) (\<lambda>_. in_hand d)"
  unfolding enter_orders_def
proof (rule gives_seq [OF keeps_at [OF acts_phase]], rule gives_bind [OF keeps_at entered_hand])
  show "acts same_night (on_rejected
      (ovn_work fuel env (n_method n) (map_option us (ot_entry_limit t))
         \<lparr>jb_side = BUY, jb_qty = oe_qty env, jb_market_at = us (ot_entry_market t),
          jb_reduce = False, jb_leg = ''e''\<rparr>)
      (\<lambda>e. bind (night_cid ''e'' 0) (\<lambda>cid. reads (\<lambda>s.
             seq (does (ovn_alert (EntryRejected e)))
                 (ret (filter (\<lambda>f. starts_with (f_client_id f) (butlast cid)) (all_fills env s)))))))"
    by (intro acts_intros acts_work acts_night_cid) simp_all
qed

lemma open_night_at: "gives (\<lambda>_. True) (open_night n) (\<lambda>_. at_night (n_entry_date n))"
  unfolding open_night_def by (rule gives_does) (simp add: at_night_def night_date_def new_night_def)

lemma enter_hand: "gives (\<lambda>_. True) (ovn_enter fuel env n) (\<lambda>_. in_hand (n_entry_date n))"
proof -
  let ?d = "n_entry_date n"
  have halted: "gives (at_night ?d) (seq (halt_with env why) (ovn_skip w)) (\<lambda>_. in_hand ?d)" for why w
    by (rule gives_seq [OF keeps_at [OF acts_halt_with] in_hand_pair [OF skip_books]])
  show ?thesis
    unfolding ovn_enter_def
    apply (rule gives_seq [OF open_night_at])
    apply (rule gives_times_of)
    apply (rule gives_seq [OF keeps_at [OF acts_wait_until]])
    apply (rule gives_bind [OF keeps_at [OF acts_healthy]])
    apply (rule gives_bind [OF keeps_at [OF acts_if [OF acts_may_enter nr.acts_ret]]])
    apply (rule gives_if)
     apply (rule gives_reads_at, rule in_hand_pair [OF skip_books])
    apply (rule gives_reads_at, rule gives_if, rule halted)
    apply (rule gives_bind [OF keeps_at [OF acts_account_bad]])
    apply (rule gives_if [OF halted enter_orders_hand])
    done
qed

lemma exit_work_books: "gives (at_night d) (exit_work fuel env n t) (\<lambda>_ s. at_night d s \<and> booked d s)"
  unfolding exit_work_def
  by (rule gives_seq [OF keeps_at [OF acts_phase]],
      rule gives_seq [OF keeps_at], intro acts_intros acts_work, simp_all,
      rule gives_seq [OF keeps_at [OF acts_flatten] finalize_books])

lemma exit_books: "gives (\<lambda>s. at_night d s \<and> holding s) (ovn_exit fuel env n) (\<lambda>_ s. at_night d s \<and> booked d s)"
  unfolding ovn_exit_def
proof (rule gives_times_of, rule gives_seq)
  fix t :: order_times
  show "gives (\<lambda>s. at_night d s \<and> holding s) (with_night (\<lambda>nt. if nt_phase nt = Holding
      then wait_until env (us (case ot_exit_limit t of None \<Rightarrow> ot_exit_market t | Some l \<Rightarrow> l)) True else ret ()))
      (\<lambda>_. in_hand d)"
    by (rule gives_night_at, rule gives_if,
        rule gives_weaken [OF wait_gives], simp_all add: in_hand_def, rule gives_ret, simp add: in_hand_def)
  show "gives (in_hand d) (with_night (\<lambda>nt. if ended nt then ret () else exit_work fuel env n t))
      (\<lambda>_ s. at_night d s \<and> booked d s)"
  proof (rule gives_with_night)
    fix nt
    show "gives (\<lambda>s. in_hand d s \<and> on_night s = Some nt) (if ended nt then ret () else exit_work fuel env n t)
        (\<lambda>_ s. at_night d s \<and> booked d s)"
    proof (cases "ended nt")
      case True
      then show ?thesis by (auto intro!: gives_ret simp: in_hand_def holding_def ended_def)
    next
      case False
      then show ?thesis by (auto intro: gives_weaken [OF exit_work_books] simp: in_hand_def)
    qed
  qed
qed

lemma exit_and_check_books: "gives (in_hand d) (exit_and_check fuel env n) (\<lambda>_. booked d)"
  unfolding exit_and_check_def
proof (rule gives_with_night)
  fix nt
  have run: "gives (\<lambda>s. at_night d s \<and> holding s) (seq (ovn_exit fuel env n) (residual_check env n)) (\<lambda>_. booked d)"
    by (rule gives_seq [OF exit_books], rule gives_weaken [OF keeps_booked [OF acts_residual, of d]]) simp_all
  show "gives (\<lambda>s. in_hand d s \<and> on_night s = Some nt)
      (if nt_phase nt = Holding then seq (ovn_exit fuel env n) (residual_check env n) else ret ()) (\<lambda>_. booked d)"
  proof (cases "nt_phase nt = Holding")
    case True
    have "gives (\<lambda>s. in_hand d s \<and> on_night s = Some nt)
        (seq (ovn_exit fuel env n) (residual_check env n)) (\<lambda>_. booked d)"
      by (rule gives_weaken [OF run]) (simp_all add: in_hand_def holding_def True)
    then show ?thesis using True by simp
  next
    case False
    then show ?thesis by (auto intro!: gives_ret simp: in_hand_def holding_def)
  qed
qed

lemma run_night_books: "gives (\<lambda>_. True) (run_night fuel env n) (\<lambda>_. booked (n_entry_date n))"
proof -
  let ?d = "n_entry_date n"
  have skip: "gives (\<lambda>_. True) (skip_open_night n why) (\<lambda>_. booked ?d)" for why
    unfolding skip_open_night_def
    by (rule gives_seq [OF open_night_at], rule gives_weaken [OF skip_books [of ?d]]) simp_all
  have go: "gives (\<lambda>_. True) (seq (ovn_enter fuel env n) (exit_and_check fuel env n)) (\<lambda>_. booked ?d)"
    by (rule gives_seq [OF enter_hand exit_and_check_books])
  have fresh: "gives (\<lambda>_. True) (times_of env n (\<lambda>t. if us (ot_entry_give_up t) < on_clock s
      then skip_open_night n LateStart else seq (ovn_enter fuel env n) (exit_and_check fuel env n))) (\<lambda>_. booked ?d)" for s
    by (rule gives_times_of, rule gives_if [OF skip go])
  have res: "gives (\<lambda>t. t = s \<and> True) (exit_and_check fuel env n) (\<lambda>_. booked ?d)" if "resuming n s" for s :: "'a ovn"
    by (rule gives_weaken [OF exit_and_check_books])
      (use that in \<open>auto simp: resuming_def in_hand_def at_night_def night_date_def holding_def split: option.splits\<close>)
  show ?thesis
    unfolding run_night_def
  proof (rule gives_reads)
    fix s :: "'a ovn"
    have all: "gives (\<lambda>t. t = s \<and> True) m (\<lambda>_. booked ?d)" if "gives (\<lambda>_. True) m (\<lambda>_. booked ?d)" for m :: "('a, unit) ovn_act"
      by (rule gives_weaken [OF that]) simp_all
    show "gives (\<lambda>t. t = s \<and> True)
      (case n_skip n of None \<Rightarrow>
          if n_entry_date n \<in> set (on_bad s) \<or> n_exit_date n \<in> set (on_bad s) then skip_open_night n CalendarMismatch
          else if resuming n s then exit_and_check fuel env n
          else times_of env n (\<lambda>t. if us (ot_entry_give_up t) < on_clock s then skip_open_night n LateStart
                 else seq (ovn_enter fuel env n) (exit_and_check fuel env n))
        | Some why \<Rightarrow> skip_open_night n (CalendarSkip why)) (\<lambda>_. booked ?d)"
      using all [OF skip] all [OF fresh [of s]] res [of s] by (auto split: option.split)
  qed
qed

subsection \<open>The loop over the nights\<close>

definition hist_kept :: "'b ovn \<Rightarrow> 'b ovn \<Rightarrow> bool" where
  "hist_kept s t \<longleftrightarrow> booked_days s \<subseteq> booked_days t"

interpretation hk: act_relation hist_kept
  by unfold_locales (auto simp: hist_kept_def)

lemma acts_hist: "acts same_night m \<Longrightarrow> acts hist_kept m"
  by (auto simp: acts_def same_night_def hist_kept_def)

lemma acts_open_night: "acts hist_kept (open_night n)"
  by (simp add: acts_def open_night_def does_def hist_kept_def booked_days_def)

lemma acts_times_hist: "(\<And>t. acts hist_kept (f t)) \<Longrightarrow> acts hist_kept (times_of env n f)"
  by (auto simp: times_of_def intro: hk.acts_throw split: sum.split)

lemma acts_enter: "acts hist_kept (ovn_enter fuel env n)"
  unfolding ovn_enter_def
  by (intro hk.acts_seq acts_open_night acts_times_hist acts_hist nr.acts_bind nr.acts_seq acts_if nr.acts_ret
      nr.acts_reads acts_wait_until acts_healthy acts_may_enter acts_skip acts_halt_with acts_account_bad
      acts_enter_orders)

lemma acts_exit_and_check: "acts same_night (exit_and_check fuel env n)"
  unfolding exit_and_check_def by (intro acts_intros acts_exit acts_residual)

lemma acts_run_night: "acts hist_kept (run_night fuel env n)"
proof -
  have skip: "acts hist_kept (skip_open_night n why)" for why
    unfolding skip_open_night_def by (intro hk.acts_seq acts_open_night acts_hist acts_skip)
  show ?thesis
    unfolding run_night_def
    by (rule hk.acts_reads)
      (auto intro!: acts_if skip acts_hist [OF acts_exit_and_check] acts_times_hist hk.acts_seq acts_enter
        split: option.split)
qed

definition nights_left :: "night list \<Rightarrow> 'b ovn \<Rightarrow> int set" where
  "nights_left xs s = n_entry_date ` set xs - booked_days s"

lemma next_night_left:
  assumes "next_night env s = Inr (Some n)" "nights (oe_spec env) = Inr xs"
  shows "n \<in> set xs" "n_entry_date n \<notin> booked_days s" "on_clock s < us (n_exit_open n)"
proof -
  have f: "find (\<lambda>n. n_entry_date n \<notin> fst ` set (on_history s) \<and> on_clock s < us (n_exit_open n)) xs = Some n"
    using assms by (simp add: next_night_def next_in_def)
  then show "n \<in> set xs" "n_entry_date n \<notin> booked_days s" "on_clock s < us (n_exit_open n)"
    using find_Some_iff [THEN iffD1, OF f] by (auto simp: booked_days_def)
qed

lemma run_night_left:
  assumes "next_night env s = Inr (Some n)" "nights (oe_spec env) = Inr xs"
    and "run_night fuel env n s = (Inr u, t)"
  shows "card (nights_left xs t) < card (nights_left xs s)"
proof -
  note nx = next_night_left [OF assms(1,2)]
  have "booked_days s \<subseteq> booked_days t"
    using acts_run_night assms(3) unfolding acts_def hist_kept_def by (metis snd_conv)
  moreover have "n_entry_date n \<in> booked_days t"
    using gives_here [OF run_night_books _ assms(3)] by (simp add: booked_def)
  ultimately have "nights_left xs t \<subset> nights_left xs s"
    using nx(1,2) by (auto simp: nights_left_def)
  then show ?thesis by (intro psubset_card_mono) (simp_all add: nights_left_def)
qed

lemma night_loop_rounds:
  "nights (oe_spec env) = Inr xs \<Longrightarrow> card (nights_left xs s) < k
    \<Longrightarrow> fst (night_loop k fuel env todo s) \<noteq> Inl OutOfRounds"
proof (induction k arbitrary: s todo)
  case (Suc k)
  show ?case
  proof (cases "todo = Some 0")
    case True
    then show ?thesis by simp
  next
    case False
    show ?thesis
    proof (cases "next_night env s")
      case (Inl e)
      then show ?thesis using False by simp
    next
      case (Inr r)
      show ?thesis
      proof (cases r)
        case None
        then show ?thesis using Inr False by simp
      next
        case (Some n)
        obtain x t where rn: "run_night fuel env n s = (x, t)" by (cases "run_night fuel env n s")
        have "x \<noteq> Inl OutOfRounds" using acts_run_night rn unfolding acts_def by (metis fst_conv)
        moreover have "fst (night_loop k fuel env td t) \<noteq> Inl OutOfRounds" if "x = Inr u" for td u
        proof (rule Suc.IH [OF Suc.prems(1)])
          have "next_night env s = Inr (Some n)" using Inr Some by simp
          from run_night_left [OF this Suc.prems(1), of fuel u t] rn that
          show "card (nights_left xs t) < k" using Suc.prems(2) by simp
        qed
        ultimately show ?thesis
          using Inr Some False rn by (cases x) (simp_all add: seq_def bind_def)
      qed
    qed
  qed
qed simp

text \<open>C25: The overnight scheduler ends: with \<open>max_nights\<close> left out, the loop of
  \<open>run_forever\<close> needs no more rounds than there are nights in the calendar, because a night
  that was run without an exception is in the history and is never taken up again, in
  whatever state the state file was and whatever the broker, the book and the clock do.\<close>

theorem overnight_rounds:
  "case nights (oe_spec env) of
     Inl _ \<Rightarrow> False
   | Inr xs \<Rightarrow> fst (run_forever (length xs + k + 1) fuel env todo s) \<noteq> Inl OutOfRounds
       \<and> (case next_night env s of
            Inr (Some n) \<Rightarrow>
              n_entry_date n \<notin> booked_days s
              \<and> (case run_night fuel env n s of
                   (Inr _, t) \<Rightarrow> booked_days t \<supseteq> insert (n_entry_date n) (booked_days s)
                 | (Inl _, t) \<Rightarrow> booked_days t \<supseteq> booked_days s)
          | _ \<Rightarrow> True)"
proof -
  obtain xs where xs: "nights (oe_spec env) = Inr xs" using nights_eq by blast
  have "fst (run_forever (length xs + k + 1) fuel env todo s) \<noteq> Inl OutOfRounds"
  proof -
    obtain r t where rc: "ovn_recover env s = (r, t)" by (cases "ovn_recover env s")
    have "r \<noteq> Inl OutOfRounds" using acts_recover rc unfolding acts_def by (metis fst_conv)
    moreover have "card (nights_left xs t) \<le> length xs"
      by (rule order.trans [OF card_mono, of "n_entry_date ` set xs"])
        (auto simp: nights_left_def intro: order.trans [OF card_image_le card_length])
    then have "fst (night_loop (length xs + k + 1) fuel env todo t) \<noteq> Inl OutOfRounds"
      by (intro night_loop_rounds [OF xs]) simp
    ultimately show ?thesis by (cases r) (simp_all add: run_forever_def seq_def bind_def rc)
  qed
  moreover have rn: "case run_night fuel env n s of
        (Inr _, t) \<Rightarrow> booked_days t \<supseteq> insert (n_entry_date n) (booked_days s)
      | (Inl _, t) \<Rightarrow> booked_days t \<supseteq> booked_days s" for n
  proof -
    obtain r t where rn: "run_night fuel env n s = (r, t)" by (cases "run_night fuel env n s")
    have h: "booked_days s \<subseteq> booked_days t"
      using acts_run_night rn unfolding acts_def hist_kept_def by (metis snd_conv)
    show ?thesis
    proof (cases r)
      case (Inr u)
      then have "n_entry_date n \<in> booked_days t"
        using gives_here [OF run_night_books _ rn [unfolded Inr]] by (simp add: booked_def)
      then show ?thesis using h rn Inr by simp
    qed (use h rn in simp)
  qed
  moreover have "case next_night env s of
            Inr (Some n) \<Rightarrow>
              n_entry_date n \<notin> booked_days s
              \<and> (case run_night fuel env n s of
                   (Inr _, t) \<Rightarrow> booked_days t \<supseteq> insert (n_entry_date n) (booked_days s)
                 | (Inl _, t) \<Rightarrow> booked_days t \<supseteq> booked_days s)
          | _ \<Rightarrow> True" (is "case _ of Inr (Some n) \<Rightarrow> ?P n | _ \<Rightarrow> True")
  proof (cases "\<exists>n. next_night env s = Inr (Some n)")
    case True
    then obtain n where n: "next_night env s = Inr (Some n)" by blast
    have "?P n" using next_night_left(2) [OF n xs] rn [of n] by blast
    then show ?thesis unfolding n by simp
  qed (simp split: sum.split option.split)
  ultimately show ?thesis using xs by simp
qed

subsection \<open>A night that is still held after its exit time\<close>

text \<open>The night on record is held and its exit day has opened.\<close>

definition overdue :: "'b ovn_env \<Rightarrow> 'b ovn \<Rightarrow> bool" where
  "overdue env s =
     (case (nights (oe_spec env), on_night s) of
        (Inr xs, Some nt) \<Rightarrow> nt_phase nt = Holding
          \<and> list_all (\<lambda>n. n_entry_date n = nt_entry_date nt \<longrightarrow> us (n_exit_open n) \<le> on_clock s) xs
      | _ \<Rightarrow> False)"

lemma overdue_not_resumed:
  assumes "next_night env s = Inr (Some n)" "overdue env s" shows "\<not> resuming n s"
proof -
  obtain xs where xs: "nights (oe_spec env) = Inr xs" using nights_eq by blast
  show ?thesis
    using assms(2) next_night_left [OF assms(1) xs] xs
    by (auto simp: overdue_def resuming_def list_all_iff split: option.splits)
qed

definition same_broker :: "'b \<Rightarrow> 'b ovn \<Rightarrow> 'b ovn \<Rightarrow> bool" where
  "same_broker b s t \<longleftrightarrow> (the_broker s = b \<longrightarrow> the_broker t = b)"

interpretation sb: act_relation "same_broker b"
  by unfold_locales (auto simp: same_broker_def)

lemma broker_updates [simp]:
  "the_broker (ovn_log ev s) = the_broker s" "the_broker (ovn_alert a s) = the_broker s"
  "the_broker (ovn_save s) = the_broker s" "the_broker (slept env d s) = the_broker s"
  by (simp_all add: the_broker_def ovn_log_def ovn_alert_def ovn_save_def slept_def)

lemma guard_set_broker [simp]: "g_broker (guard_set now st why g) = g_broker g"
  by (simp add: guard_set_def guard_alert_def guard_save_def)

lemma guard_halt_broker [simp]: "g_broker (guard_halt now why g) = g_broker g"
  by (simp add: guard_halt_def)

lemma guard_checks_broker [simp]:
  "g_broker (guard_check_kill now kill g) = g_broker g"
  "g_broker (guard_check_health now kill offset age g) = g_broker g"
  "g_broker (snd (guard_can_enter now kill g)) = g_broker g"
  by (simp_all add: guard_check_kill_def guard_check_health_def guard_can_enter_def Let_def split: option.split)

lemma wait_broker: "the_broker (snd (wait_until env t False s)) = the_broker s"
proof (induction "nat (t - on_clock s)" arbitrary: s rule: less_induct)
  case less
  show ?case
  proof (cases "t \<le> on_clock s")
    case True
    then show ?thesis by (simp add: wait_until.simps [of env t False s])
  next
    case late: False
    define s1 where "s1 = slept env (min (t - on_clock s) (us 30)) s"
    have "wait_until env t False s = wait_until env t False s1"
      using wait_until_late [of t s s1 env False] late by (simp add: s1_def)
    moreover have "nat (t - on_clock s1) < nat (t - on_clock s)"
      using late by (auto simp: s1_def slept_def us_def min_def)
    ultimately show ?thesis using less [of s1] by (simp add: s1_def)
  qed
qed

lemma sb_wait: "acts (same_broker b) (wait_until env t False)"
  unfolding acts_def using acts_here [OF acts_wait_until] wait_broker [of env t]
  by (auto simp: same_broker_def)

lemma sb_healthy: "acts (same_broker b) (healthy env)"
  by (auto simp: acts_def healthy_def Let_def halt_with_def does_def same_broker_def the_broker_def
      split: option.splits sum.splits)

lemma sb_may_enter: "acts (same_broker b) (may_enter env)"
  unfolding acts_def
proof
  fix s :: "'a ovn"
  obtain c g where g: "guard_can_enter (on_clock s) (oe_kill env (on_clock s)) (on_guard s) = (c, g)"
    by (cases "guard_can_enter (on_clock s) (oe_kill env (on_clock s)) (on_guard s)")
  have "g_broker g = g_broker (on_guard s)"
    using guard_checks_broker(3) [of "on_clock s" "oe_kill env (on_clock s)" "on_guard s"] unfolding g by simp
  then show "same_broker b s (snd (may_enter env s)) \<and> fst (may_enter env s) \<noteq> Inl OutOfRounds"
    by (simp add: may_enter_def g same_broker_def the_broker_def)
qed

lemma sb_does: "(\<And>s. the_broker (f s) = the_broker s) \<Longrightarrow> acts (same_broker b) (does f)"
  by (simp add: acts_def does_def same_broker_def)

lemma sb_with_night: "(\<And>nt. acts (same_broker b) (f nt)) \<Longrightarrow> acts (same_broker b) (with_night f)"
  by (auto simp: acts_def with_night_def sb.rel_refl split: option.splits)

lemma sb_set_night: "acts (same_broker b) (set_night f)"
  unfolding set_night_def by (intro sb_with_night sb_does) (simp add: the_broker_def)

lemma sb_skip: "acts (same_broker b) (ovn_skip why)"
  unfolding ovn_skip_def
  by (intro sb.acts_seq sb_set_night sb_with_night sb_does) (simp_all add: the_broker_def ovn_log_def ovn_alert_def ovn_save_def)

lemma sb_halt: "acts (same_broker b) (halt_with env why)"
  unfolding halt_with_def by (rule sb_does) (simp add: the_broker_def)

lemma sb_open: "acts (same_broker b) (open_night n)"
  unfolding open_night_def by (rule sb_does) (simp add: the_broker_def)

text \<open>The branch at the position check: with a position there, only the refusing one is taken.\<close>

lemma sb_position_check:
  assumes "\<And>t. p_qty (b_position (oe_ops env t) b) \<noteq> 0"
    and "\<And>s. acts (same_broker b) (refuse s)" and "\<And>s. acts same_night (go s)"
  shows "acts (same_broker b) (reads (\<lambda>s. if position_qty env s \<noteq> 0 then refuse s else go s))"
  unfolding acts_def
proof
  fix s
  show "same_broker b s (snd (reads (\<lambda>s. if position_qty env s \<noteq> 0 then refuse s else go s) s))
    \<and> fst (reads (\<lambda>s. if position_qty env s \<noteq> 0 then refuse s else go s) s) \<noteq> Inl OutOfRounds"
  proof (cases "the_broker s = b")
    case True
    then have "position_qty env s \<noteq> 0" using assms(1) by (simp add: position_qty_def the_ops_def)
    then show ?thesis using assms(2) [of s] by (simp add: reads_def acts_def)
  next
    case False
    then show ?thesis
      using assms(2) [of s] acts_here [OF assms(3)] by (auto simp: reads_def acts_def same_broker_def)
  qed
qed

lemma sb_times_of: "(\<And>t. acts (same_broker b) (f t)) \<Longrightarrow> acts (same_broker b) (times_of env n f)"
  by (auto simp: times_of_def intro: sb.acts_throw split: sum.split)

lemma sb_enter:
  assumes "\<And>t. p_qty (b_position (oe_ops env t) b) \<noteq> 0"
  shows "acts (same_broker b) (ovn_enter fuel env n)"
  unfolding ovn_enter_def
  by (intro sb.acts_seq sb_open sb_times_of sb_wait sb.acts_bind sb_healthy acts_if sb_may_enter sb.acts_ret)
    (intro sb.acts_reads sb_skip sb_position_check [OF assms] sb.acts_seq sb_halt nr.acts_bind acts_account_bad
      acts_if nr.acts_seq acts_halt_with acts_skip acts_enter_orders)+

definition with_broker :: "'b \<Rightarrow> 'b ovn \<Rightarrow> bool" where
  "with_broker b s \<longleftrightarrow> the_broker s = b"

lemma keeps_broker: "acts (same_broker b) m \<Longrightarrow> gives (with_broker b) m (\<lambda>_. with_broker b)"
  by (rule gives_acts [where R = "same_broker b"]) (simp_all add: same_broker_def with_broker_def)

lemma skip_lets_go: "gives P (ovn_skip why) (\<lambda>_ s. \<not> holding s)"
  by (auto simp: gives_def ovn_skip_def seq_def bind_def set_night_def with_night_def does_def holding_def
      split: option.splits)

lemma enter_lets_go:
  assumes "\<And>t. p_qty (b_position (oe_ops env t) b) \<noteq> 0"
  shows "gives (with_broker b) (ovn_enter fuel env n) (\<lambda>_ s. \<not> holding s)"
proof -
  have check: "gives (with_broker b) (reads (\<lambda>s. if position_qty env s \<noteq> 0 then refuse s else go s)) (\<lambda>_ s. \<not> holding s)"
    if "\<And>s. gives (with_broker b) (refuse s) (\<lambda>_ s. \<not> holding s)"
    for refuse :: "'a ovn \<Rightarrow> ('a, unit) ovn_act" and go
  proof (rule gives_reads)
    fix s
    show "gives (\<lambda>t. t = s \<and> with_broker b t) (if position_qty env s \<noteq> 0 then refuse s else go s) (\<lambda>_ s. \<not> holding s)"
    proof (cases "with_broker b s")
      case True
      then have "position_qty env s \<noteq> 0" using assms by (simp add: position_qty_def the_ops_def with_broker_def)
      then show ?thesis by (simp, intro gives_weaken [OF that [of s]]) simp_all
    next
      case False
      then show ?thesis by (simp add: gives_def)
    qed
  qed
  show ?thesis
    unfolding ovn_enter_def
    apply (rule gives_seq [OF keeps_broker [OF sb_open]])
    apply (rule gives_times_of)
    apply (rule gives_seq [OF keeps_broker [OF sb_wait]])
    apply (rule gives_bind [OF keeps_broker [OF sb_healthy]])
    apply (rule gives_bind [OF keeps_broker [OF acts_if [OF sb_may_enter sb.acts_ret]]])
    apply (rule gives_if [OF gives_reads_at [OF skip_lets_go]])
    apply (rule check)
    apply (rule gives_seq [OF keeps_broker [OF sb_halt] skip_lets_go])
    done
qed

text \<open>A run that leaves the broker alone and, when it returns, ends on a night not held.\<close>

definition turned_away :: "int \<Rightarrow> ('b, unit) ovn_act \<Rightarrow> 'b ovn \<Rightarrow> bool" where
  "turned_away d m s \<longleftrightarrow> the_broker (snd (m s)) = the_broker s
     \<and> (\<forall>t. m s = (Inr (), t) \<longrightarrow> at_night d t \<and> \<not> holding t)"

lemma turned_awayI:
  assumes "acts (same_broker (the_broker s)) m" "gives (\<lambda>_. True) m (\<lambda>_. at_night d)"
    "gives (\<lambda>_. True) m (\<lambda>_ s. \<not> holding s)"
  shows "turned_away d m s"
  using assms(1) gives_here [OF assms(2)] gives_here [OF assms(3)]
  by (simp add: turned_away_def acts_def same_broker_def)

lemma skip_turned_away: "turned_away (n_entry_date n) (skip_open_night n why) s"
proof (rule turned_awayI)
  show "acts (same_broker (the_broker s)) (skip_open_night n why)"
    unfolding skip_open_night_def by (intro sb.acts_seq sb_open sb_skip)
  show "gives (\<lambda>_. True) (skip_open_night n why) (\<lambda>_. at_night (n_entry_date n))"
    unfolding skip_open_night_def
    by (rule gives_seq [OF open_night_at], rule gives_weaken [OF skip_books [of "n_entry_date n"]]) simp_all
  show "gives (\<lambda>_. True) (skip_open_night n why) (\<lambda>_ s. \<not> holding s)"
    unfolding skip_open_night_def by (rule gives_seq [OF gives_trivial skip_lets_go])
qed

lemma enter_turned_away:
  assumes "\<And>t. p_qty (b_position (oe_ops env t) (the_broker s)) \<noteq> 0"
  shows "turned_away (n_entry_date n) (seq (ovn_enter fuel env n) (exit_and_check fuel env n)) s"
proof -
  obtain r t where e: "ovn_enter fuel env n s = (r, t)" by (cases "ovn_enter fuel env n s")
  have "the_broker (snd (ovn_enter fuel env n s)) = the_broker s"
    using sb_enter [OF assms, of fuel n] by (simp add: acts_def same_broker_def)
  then have b: "the_broker t = the_broker s" by (simp add: e)
  show ?thesis
  proof (cases r)
    case (Inl x)
    then show ?thesis using e b by (simp add: turned_away_def seq_def bind_def)
  next
    case (Inr u)
    have h: "\<not> holding t"
      using gives_here [OF enter_lets_go [OF assms] _ e [unfolded Inr]] by (simp add: with_broker_def)
    have "in_hand (n_entry_date n) t" by (rule gives_here [OF enter_hand _ e [unfolded Inr]]) simp
    then obtain nt where nt: "on_night t = Some nt" "at_night (n_entry_date n) t"
      by (auto simp: in_hand_def at_night_def night_date_def)
    then have "exit_and_check fuel env n t = (Inr (), t)"
      using h by (simp add: exit_and_check_def with_night_def holding_def ret_def)
    then show ?thesis using e b h nt Inr by (simp add: turned_away_def seq_def bind_def)
  qed
qed

lemma run_turned_away:
  assumes "\<not> resuming n s" "\<And>t. p_qty (b_position (oe_ops env t) (the_broker s)) \<noteq> 0"
  shows "turned_away (n_entry_date n) (run_night fuel env n) s"
proof -
  note go = enter_turned_away [OF assms(2), of n fuel, unfolded turned_away_def]
  note skip = skip_turned_away [of n, unfolded turned_away_def]
  show ?thesis
  proof (cases "n_skip n")
    case (Some why)
    then show ?thesis using skip [of "CalendarSkip why" s] by (simp add: run_night_def reads_def turned_away_def)
  next
    case None
    have "turned_away (n_entry_date n) (times_of env n (\<lambda>t. if us (ot_entry_give_up t) < on_clock s
        then skip_open_night n LateStart else seq (ovn_enter fuel env n) (exit_and_check fuel env n))) s"
    proof (cases "order_times_of (oe_spec env) n")
      case (Inl e)
      then show ?thesis by (simp add: times_of_def turned_away_def throw_def)
    next
      case (Inr t)
      then show ?thesis using skip [of LateStart s] go by (simp add: times_of_def turned_away_def)
    qed
    then show ?thesis
      using None assms(1) skip [of CalendarMismatch s] by (simp add: run_night_def reads_def turned_away_def)
  qed
qed

text \<open>C26: A night that is still held when its exit day opens is never exited: when the scheduler
  takes up its next night, that night is refused because of the position, the broker stays
  as it is, no order is placed, and the record of the held night is replaced by the
  refused one.\<close>

theorem overnight_orphan:
  assumes "next_night env s = Inr (Some n)" and "overdue env s"
    and "\<And>t. p_qty (b_position (oe_ops env t) (the_broker s)) \<noteq> 0"
  shows "the_broker (snd (run_night fuel env n s)) = the_broker s
    \<and> (case run_night fuel env n s of
         (Inr _, t) \<Rightarrow> night_date t = Some (n_entry_date n) \<and> \<not> holding t
           \<and> booked_days t \<supseteq> insert (n_entry_date n) (booked_days s)
       | (Inl _, _) \<Rightarrow> True)"
proof -
  have nres: "\<not> resuming n s" by (rule overdue_not_resumed [OF assms(1,2)])
  have away: "turned_away (n_entry_date n) (run_night fuel env n) s"
    by (rule run_turned_away [OF nres assms(3)])
  obtain r t where rn: "run_night fuel env n s = (r, t)" by (cases "run_night fuel env n s")
  have h: "booked_days s \<subseteq> booked_days t"
    using acts_run_night rn unfolding acts_def hist_kept_def by (metis snd_conv)
  show ?thesis
  proof (cases r)
    case (Inl e)
    then show ?thesis using away rn by (simp add: turned_away_def)
  next
    case (Inr u)
    have "n_entry_date n \<in> booked_days t"
      using gives_here [OF run_night_books _ rn [unfolded Inr]] by (simp add: booked_def)
    then show ?thesis using away rn h Inr by (simp add: turned_away_def at_night_def)
  qed
qed

end
