(* ===== verification/Overnight_Examples.thy ===== *)
theory Overnight_Examples
  imports Overnight_Correct
begin

text \<open>
  A small calendar (three sessions, two nights) and a broker whose state is its position, on
  which the hypotheses of the overnight properties hold.
\<close>

definition small_calendar :: night_spec where
  "small_calendar =
     \<lparr>ns_first = 4, ns_last = 6, ns_holidays = [], ns_special = [], ns_open = 32400, ns_close = 55800,
      ns_offset = (\<lambda>_. 32400), ns_coin = (\<lambda>_. False), ns_skip_days = 4, ns_ex_dividend = [],
      ns_require_ex = 100,
      ns_method = (\<lambda>_. \<lparr>mt_entry_market = 0, mt_exit_market = - 60, mt_entry_limit = 0, mt_exit_limit = - 180\<rparr>),
      ns_give_up = 600, ns_flat_deadline = - 10, ns_residual = 300\<rparr>"

text \<open>A market order moves the position by its quantity; nothing else does.\<close>

definition plain_position :: "real \<Rightarrow> position" where
  "plain_position q = \<lparr>p_symbol = ''EWYUSDT'', p_qty = q, p_entry_price = 100, p_realized_pnl = 0, p_fees = 0\<rparr>"

definition plain_ops :: "real broker_ops" where
  "plain_ops =
     \<lparr>b_position = plain_position, b_open_orders = (\<lambda>_. []), b_get_order = (\<lambda>cid _. Inl (KeyError cid)),
      b_fills = (\<lambda>_. []), b_fills_since = (\<lambda>_ _. []),
      b_place_market = (\<lambda>sd q cid ro b. (Inr (new_order cid ''EWYUSDT'' sd MARKET q), b + side_sign sd * q)),
      b_place_limit_gtx = (\<lambda>sd q px cid ro b. (Inl (OrderRejected NoReason), b)),
      b_place_stop_market = (\<lambda>sd q px cid b. (Inl (OrderRejected NoReason), b)),
      b_cancel = (\<lambda>cid b. (Inl (KeyError cid), b)), b_cancel_all = (\<lambda>b. (Inr [], b)),
      b_poll = (\<lambda>b. (Inr [], b))\<rparr>"

definition small_env :: "real ovn_env" where
  "small_env =
     \<lparr>oe_spec = small_calendar, oe_live = False, oe_qty = 1, oe_reprice = 10, oe_min_notional = 0,
      oe_stop_pct = - 12, oe_kill = (\<lambda>_. False), oe_ops = (\<lambda>_. plain_ops),
      oe_book = (\<lambda>t. Some \<lparr>bt_ts = t, bids = [(100, 1)], asks = [(101, 1)]\<rparr>), oe_late = (\<lambda>_. 0),
      oe_health = None, oe_verify = None, oe_funding = None, oe_report = None\<rparr>"

definition small_limits :: risk_limits where
  "small_limits = \<lparr>max_abs_position = 1, test_stop_cumulative_usd = - 37, pause_after_consecutive_losses = 8,
     max_clock_offset_ms = 1000, max_data_stale_s = 30, max_consecutive_rejects = 2\<rparr>"

definition held_night :: night_state where
  "held_night = (new_night 4 5 (Some MethodA) 368000000000)\<lparr>nt_phase := Holding, nt_qty := 1, nt_entry_price := 100\<rparr>"

text \<open>Restarted an hour after the open with the position still there.\<close>

definition late_restart :: "real ovn" where
  "late_restart = ovn_init (guard_init 1 small_limits None) (Some (Some held_night, [])) [] 435600000000"

definition second_night :: night where
  "second_night = \<lparr>n_entry_date = 5, n_exit_date = 6, n_entry_close = 455400, n_exit_open = 518400,
     n_skip = None, n_method = Some MethodB\<rparr>"

lemma small_sessions: "sessions small_calendar = [4, 5, 6]"
  by (simp add: sessions_eq small_calendar_def open_day_def weekday_def upto.simps)

lemma small_times:
  "session_times small_calendar 4 = Inr (345600, 369000)"
  "session_times small_calendar 5 = Inr (432000, 455400)"
  "session_times small_calendar 6 = Inr (518400, 541800)"
  by (simp_all add: session_times_def is_session_def check_covered_def open_day_def weekday_def small_calendar_def)

lemma small_skips: "skip_night_reason small_calendar 4 5 = None" "skip_night_reason small_calendar 5 6 = None"
  by (simp_all add: skip_night_reason_def small_calendar_def)

lemma small_methods:
  "method_of small_calendar 4 = Some MethodA" "method_of small_calendar 5 = Some MethodB"
  by (simp_all add: method_of_def traded_days_def night_pairs_def small_sessions small_skips method_at_def)
    (simp_all add: small_calendar_def)

lemma small_nights: "nights small_calendar =
  Inr [\<lparr>n_entry_date = 4, n_exit_date = 5, n_entry_close = 369000, n_exit_open = 432000,
         n_skip = None, n_method = Some MethodA\<rparr>, second_night]"
  by (simp add: nights_def night_pairs_def small_sessions night_of_def small_times small_skips small_methods
      second_night_def)

lemma late_fields:
  "on_night late_restart = Some held_night" "on_history late_restart = []"
  "on_clock late_restart = 435600000000" "the_broker late_restart = 1"
  by (simp_all add: late_restart_def ovn_init_def ovn_load_def the_broker_def guard_init_def)

lemma late_next: "next_night small_env late_restart = Inr (Some second_night)"
  by (simp add: next_night_def next_in_def small_env_def small_nights late_fields us_def second_night_def)

lemma late_overdue: "overdue small_env late_restart"
  by (simp add: overdue_def small_env_def small_nights late_fields us_def second_night_def held_night_def new_night_def)

theorem overnight_orphan_witness:
  "the_broker (snd (run_night 0 small_env second_night late_restart)) = 1"
proof -
  have "p_qty (b_position (oe_ops small_env t) (the_broker late_restart)) \<noteq> 0" for t
    by (simp add: small_env_def plain_ops_def plain_position_def late_fields)
  then show ?thesis
    using overnight_orphan [OF late_next late_overdue, of 0] by (simp add: late_fields)
qed

end
