(* ===== verification/Pg_Sink.thy ===== *)
theory Pg_Sink
  imports Autocoin_Prelude
begin

text \<open>
  The database sink of the collector, \<open>storage/pg_sink.py\<close>: the conversion of a received record
  into the row of its table, the buffers, the flush with its retry delay, the overflow into a
  spill file, and the reload of such a file.  The database is one outcome per attempt (the
  transaction of a flush is committed or it fails); the rows handed to committed transactions
  and the records written to spill files are kept, in order, in \<open>pk_chunks\<close>.
\<close>

subsection \<open>Records and rows\<close>

text \<open>What \<open>conv(r[k])\<close> meets: no such key, None, a value that \<open>conv\<close> refuses, or a value.\<close>

datatype 'a field = Absent | Null | Unreadable | Value 'a

datatype conv_error = NoKey | NoneValue | BadValue

definition need :: "'a field \<Rightarrow> conv_error + 'a" where
  "need f = (case f of Absent \<Rightarrow> Inl NoKey | Null \<Rightarrow> Inl NoneValue | Unreadable \<Rightarrow> Inl BadValue | Value x \<Rightarrow> Inr x)"

text \<open>\<open>_ts(r[k])\<close> and \<open>_ts(r.get(k))\<close>: milliseconds to microseconds; None stays None.\<close>

definition ts_of :: "int field \<Rightarrow> conv_error + int option" where
  "ts_of f =
     (case f of Absent \<Rightarrow> Inl NoKey | Null \<Rightarrow> Inr None | Unreadable \<Rightarrow> Inl BadValue | Value ms \<Rightarrow> Inr (Some (ms * 1000)))"

definition ts_get :: "int field \<Rightarrow> conv_error + int option" where
  "ts_get f = (if f = Absent then Inr None else ts_of f)"

definition bind_sum :: "'e + 'a \<Rightarrow> ('a \<Rightarrow> 'e + 'b) \<Rightarrow> 'e + 'b" where
  "bind_sum m f = (case m of Inl e \<Rightarrow> Inl e | Inr x \<Rightarrow> f x)"

record agg_msg =
  tm_T :: "int field"
  tm_symbol :: "string option"
  tm_s :: "string field"
  tm_a :: "int field"
  tm_p :: "real field"
  tm_q :: "real field"
  tm_f :: "int field"
  tm_l :: "int field"
  tm_m :: "bool field"
  tm_E :: "int field"
  tm_recv :: "int field"

record trade_cols =
  tc_ts :: "int option"
  tc_symbol :: string
  tc_agg_id :: int
  tc_price :: real
  tc_qty :: real
  tc_first :: int
  tc_last :: int
  tc_maker :: bool
  tc_event :: "int option"
  tc_recv :: "int option"
  tc_source :: string

text \<open>\<open>symbol or r.get("symbol") or r["s"]\<close>.\<close>

definition trade_symbol :: "string option \<Rightarrow> agg_msg \<Rightarrow> conv_error + string" where
  "trade_symbol symbol r =
     (case symbol of Some (c # cs) \<Rightarrow> Inr (c # cs)
      | _ \<Rightarrow> (case tm_symbol r of Some (c # cs) \<Rightarrow> Inr (c # cs) | _ \<Rightarrow> need (tm_s r)))"

text \<open>\<open>bool(r["m"])\<close> takes every value: None is false.\<close>

definition truth_of :: "bool field \<Rightarrow> conv_error + bool" where
  "truth_of f = (case f of Absent \<Rightarrow> Inl NoKey | Null \<Rightarrow> Inr False | Unreadable \<Rightarrow> Inr True | Value b \<Rightarrow> Inr b)"

definition trade_row :: "string option \<Rightarrow> string \<Rightarrow> agg_msg \<Rightarrow> conv_error + trade_cols" where
  "trade_row symbol source r =
     bind_sum (ts_of (tm_T r)) (\<lambda>T. bind_sum (trade_symbol symbol r) (\<lambda>sm. bind_sum (need (tm_a r)) (\<lambda>a.
     bind_sum (need (tm_p r)) (\<lambda>p. bind_sum (need (tm_q r)) (\<lambda>q. bind_sum (need (tm_f r)) (\<lambda>f.
     bind_sum (need (tm_l r)) (\<lambda>l. bind_sum (truth_of (tm_m r)) (\<lambda>m. bind_sum (ts_get (tm_E r)) (\<lambda>E.
     bind_sum (ts_get (tm_recv r)) (\<lambda>recv.
       Inr \<lparr>tc_ts = T, tc_symbol = sm, tc_agg_id = a, tc_price = p, tc_qty = q, tc_first = f, tc_last = l,
            tc_maker = m, tc_event = E, tc_recv = recv, tc_source = source\<rparr>))))))))))"

record top_msg =
  pm_T :: "int field"
  pm_E :: "int field"
  pm_symbol :: "string field"
  pm_u :: "int field"
  pm_recv :: "int field"
  pm_bids :: "(real field \<times> real field) list field"
  pm_asks :: "(real field \<times> real field) list field"

record top_cols =
  pc_ts :: "int option"
  pc_symbol :: string
  pc_update_id :: int
  pc_event :: "int option"
  pc_recv :: "int option"
  pc_bids :: "real option list \<times> real option list"
  pc_asks :: "real option list \<times> real option list"

definition top_levels :: nat where
  "top_levels = 5"

fun read_all :: "'a field list \<Rightarrow> conv_error + 'a list" where
  "read_all [] = Inr []"
| "read_all (f # fs) = bind_sum (need f) (\<lambda>x. bind_sum (read_all fs) (\<lambda>xs. Inr (x # xs)))"

definition padded :: "real list \<Rightarrow> real option list" where
  "padded xs = map Some xs @ replicate (top_levels - length xs) None"

definition levels_of :: "(real field \<times> real field) list \<Rightarrow> conv_error + real option list \<times> real option list" where
  "levels_of lv =
     bind_sum (read_all (map fst (take top_levels lv))) (\<lambda>px.
     bind_sum (read_all (map snd (take top_levels lv))) (\<lambda>q. Inr (padded px, padded q)))"

text \<open>\<open>r.get("T") or r["E"]\<close>: a missing, None or zero \<open>T\<close> falls back to \<open>E\<close>.\<close>

definition exchange_ts :: "top_msg \<Rightarrow> conv_error + int option" where
  "exchange_ts r = (if pm_T r \<in> {Absent, Null, Value 0} then ts_of (pm_E r) else ts_of (pm_T r))"

definition top_row :: "top_msg \<Rightarrow> conv_error + top_cols" where
  "top_row r =
     bind_sum (need (pm_bids r)) (\<lambda>bl. bind_sum (levels_of bl) (\<lambda>b.
     bind_sum (need (pm_asks r)) (\<lambda>al. bind_sum (levels_of al) (\<lambda>a.
     bind_sum (exchange_ts r) (\<lambda>T. bind_sum (need (pm_symbol r)) (\<lambda>sm. bind_sum (need (pm_u r)) (\<lambda>u.
     bind_sum (ts_of (pm_E r)) (\<lambda>E. bind_sum (ts_of (pm_recv r)) (\<lambda>recv.
       Inr \<lparr>pc_ts = T, pc_symbol = sm, pc_update_id = u, pc_event = E, pc_recv = recv,
            pc_bids = b, pc_asks = a\<rparr>)))))))))"

text \<open>An event: its entries other than the columns and the levels, each with its JSON text.\<close>

record note_msg =
  nm_kind :: string
  nm_recv :: "int field"
  nm_symbol :: "string option"
  nm_stream :: "string option"
  nm_rest :: "(string \<times> string) list"
  nm_bids :: "nat option"
  nm_asks :: "nat option"

datatype detail = Text string | Levels nat

record note_cols =
  nc_recv :: "int option"
  nc_kind :: string
  nc_symbol :: "string option"
  nc_stream :: "string option"
  nc_detail :: "(string \<times> detail) list"

definition level_count :: "nat option \<Rightarrow> detail" where
  "level_count n = Levels (case n of None \<Rightarrow> 0 | Some k \<Rightarrow> k)"

definition event_row :: "note_msg \<Rightarrow> conv_error + note_cols" where
  "event_row r =
     bind_sum (ts_of (nm_recv r)) (\<lambda>recv.
       let base = map (\<lambda>(k, v). (k, Text v)) (nm_rest r);
           full = (if nm_kind r = ''snapshot''
                   then AList.update ''ask_levels'' (level_count (nm_asks r))
                          (AList.update ''bid_levels'' (level_count (nm_bids r)) base)
                   else base)
       in Inr \<lparr>nc_recv = recv, nc_kind = nm_kind r, nc_symbol = nm_symbol r, nc_stream = nm_stream r, nc_detail = full\<rparr>)"

definition event_kinds :: "string list" where
  "event_kinds = [''gap'', ''conn'', ''snapshot'', ''clock'', ''sink_error'', ''power'']"

subsection \<open>The sink\<close>

datatype pg_rec = PTrade agg_msg | PTop top_msg | PNote note_msg

datatype pg_chunk =
    Commit "trade_cols list" "top_cols list" "note_cols list"
  | Spill "pg_rec list"

record pg_sink =
  pk_flush_rows :: nat
  pk_flush_s :: real
  pk_max :: nat
  pk_trades :: "agg_msg list"
  pk_tops :: "top_msg list"
  pk_notes :: "note_msg list"
  pk_last :: real
  pk_retry_at :: real
  pk_fails :: nat
  pk_inserted :: "nat \<times> nat \<times> nat"
  pk_failures :: nat
  pk_spills :: nat
  pk_dropped :: nat
  pk_connected :: bool
  pk_chunks :: "pg_chunk list"

text \<open>What one call reads from outside: the clock (at the check, at the start of a flush, after a
  failure), whether the transaction is committed, and whether a spill file can be written.\<close>

record pg_env =
  pe_now :: real
  pe_start :: real
  pe_failed :: real
  pe_db :: bool
  pe_disk :: bool

definition pg_init :: "nat \<Rightarrow> real \<Rightarrow> nat \<Rightarrow> real \<Rightarrow> pg_sink" where
  "pg_init rows secs maxb now =
     \<lparr>pk_flush_rows = rows, pk_flush_s = secs, pk_max = maxb, pk_trades = [], pk_tops = [], pk_notes = [],
      pk_last = now, pk_retry_at = 0, pk_fails = 0, pk_inserted = (0, 0, 0), pk_failures = 0, pk_spills = 0,
      pk_dropped = 0, pk_connected = False, pk_chunks = []\<rparr>"

definition pg_pending :: "pg_sink \<Rightarrow> nat" where
  "pg_pending s = length (pk_trades s) + length (pk_tops s) + length (pk_notes s)"

definition readable :: "('r \<Rightarrow> conv_error + 'c) \<Rightarrow> 'r list \<Rightarrow> 'c list" where
  "readable conv rs = map (projr \<circ> conv) (filter (\<lambda>r. \<not> isl (conv r)) rs)"

definition unreadable :: "('r \<Rightarrow> conv_error + 'c) \<Rightarrow> 'r list \<Rightarrow> nat" where
  "unreadable conv rs = length (filter (\<lambda>r. isl (conv r)) rs)"

abbreviation ws_row :: "agg_msg \<Rightarrow> conv_error + trade_cols" where
  "ws_row \<equiv> trade_row None ''ws''"

definition pg_cleared :: "pg_sink \<Rightarrow> pg_sink" where
  "pg_cleared s = s\<lparr>pk_trades := [], pk_tops := [], pk_notes := []\<rparr>"

definition retry_wait :: "nat \<Rightarrow> real" where
  "retry_wait n = min 30 (2 ^ n)"

definition pg_flush :: "pg_env \<Rightarrow> pg_sink \<Rightarrow> bool \<times> pg_sink" where
  "pg_flush e s =
     (let s1 = s\<lparr>pk_last := pe_start e\<rparr>
      in if pg_pending s1 = 0 then (True, s1)
         else
           (let ts = readable ws_row (pk_trades s1); tp = readable top_row (pk_tops s1); ns = readable event_row (pk_notes s1);
                s2 = s1\<lparr>pk_dropped := pk_dropped s1 + unreadable ws_row (pk_trades s1) + unreadable top_row (pk_tops s1)
                          + unreadable event_row (pk_notes s1)\<rparr>
            in if pe_db e
               then (True, pg_cleared (s2\<lparr>pk_inserted := (case pk_inserted s2 of (a, b, c) \<Rightarrow>
                         (a + length ts, b + length tp, c + length ns)),
                       pk_fails := 0, pk_retry_at := 0, pk_connected := True, pk_chunks := pk_chunks s2 @ [Commit ts tp ns]\<rparr>))
               else (False, s2\<lparr>pk_failures := pk_failures s2 + 1, pk_fails := pk_fails s2 + 1,
                       pk_retry_at := pe_failed e + retry_wait (pk_fails s2 + 1), pk_connected := False\<rparr>)))"

datatype spill_error = SpillFailed

definition buffered :: "pg_sink \<Rightarrow> pg_rec list" where
  "buffered s = map PTrade (pk_trades s) @ map PTop (pk_tops s) @ map PNote (pk_notes s)"

definition pg_spill :: "pg_env \<Rightarrow> pg_sink \<Rightarrow> (spill_error + unit) \<times> pg_sink" where
  "pg_spill e s =
     (if pe_disk e
      then (Inr (), pg_cleared (s\<lparr>pk_spills := pk_spills s + 1, pk_chunks := pk_chunks s @ [Spill (buffered s)]\<rparr>))
      else (Inl SpillFailed, s))"

text \<open>The routing of a record; None: a kind that is not stored.\<close>

definition routed :: "pg_rec \<Rightarrow> bool" where
  "routed r = (case r of PNote n \<Rightarrow> nm_kind n \<in> set event_kinds | _ \<Rightarrow> True)"

fun pg_buffer :: "pg_rec \<Rightarrow> pg_sink \<Rightarrow> pg_sink" where
  "pg_buffer (PTrade t) s = s\<lparr>pk_trades := pk_trades s @ [t]\<rparr>"
| "pg_buffer (PTop t) s = s\<lparr>pk_tops := pk_tops s @ [t]\<rparr>"
| "pg_buffer (PNote n) s = s\<lparr>pk_notes := pk_notes s @ [n]\<rparr>"

definition pg_write :: "pg_env \<Rightarrow> pg_rec \<Rightarrow> pg_sink \<Rightarrow> (spill_error + unit) \<times> pg_sink" where
  "pg_write e r s =
     (if \<not> routed r then (Inr (), s)
      else
        (let s1 = pg_buffer r s
         in if pk_max s1 < pg_pending s1 then pg_spill e s1
            else if pk_retry_at s1 \<le> pe_now e
                    \<and> (pk_flush_rows s1 \<le> pg_pending s1 \<or> pk_flush_s s1 \<le> pe_now e - pk_last s1)
            then (Inr (), snd (pg_flush e s1))
            else (Inr (), s1)))"

definition pg_close :: "pg_env \<Rightarrow> pg_sink \<Rightarrow> (spill_error + unit) \<times> pg_sink" where
  "pg_close e s =
     (let (r, s1) = (if pg_pending s \<noteq> 0
            then (case pg_flush e s of (True, s1) \<Rightarrow> (Inr (), s1) | (False, s1) \<Rightarrow> pg_spill e s1) else (Inr (), s))
      in case r of Inl x \<Rightarrow> (Inl x, s1) | Inr _ \<Rightarrow> (Inr (), s1\<lparr>pk_connected := False\<rparr>))"

text \<open>The reload of a spill file: the number of records, or the failure.\<close>

datatype reload_error = WriteFailed | ReloadFailed

fun pg_write_all :: "(pg_env \<times> pg_rec) list \<Rightarrow> pg_sink \<Rightarrow> (spill_error + unit) \<times> pg_sink" where
  "pg_write_all [] s = (Inr (), s)"
| "pg_write_all ((e, r) # rs) s =
     (case pg_write e r s of (Inl x, s1) \<Rightarrow> (Inl x, s1) | (Inr _, s1) \<Rightarrow> pg_write_all rs s1)"

definition replay_spill :: "nat \<Rightarrow> real \<Rightarrow> (pg_env \<times> pg_rec) list \<Rightarrow> pg_env \<Rightarrow> (reload_error + nat) \<times> pg_sink" where
  "replay_spill maxb now rs e =
     (case pg_write_all rs (pg_init (10 ^ 9) (10 ^ 9) maxb now) of
        (Inl _, s) \<Rightarrow> (Inl WriteFailed, s)
      | (Inr _, s) \<Rightarrow>
          (case pg_flush e s of
             (False, s1) \<Rightarrow> (Inl ReloadFailed, s1)
           | (True, s1) \<Rightarrow> (Inr (length rs), s1\<lparr>pk_connected := False\<rparr>)))"

end
