(* ===== verification/Pg_Correct.thy ===== *)
theory Pg_Correct
  imports Pg_Sink
begin

text \<open>
  The database sink loses nothing: whatever the database and the disk do, every record is, once
  and in order, in a committed transaction (or counted as unreadable there), in a spill file, or
  still in the buffer.  And the one place where the way back is broken: the file of an
  overflow has one record more than the buffer of the reload takes.
\<close>

subsection \<open>Sessions\<close>

datatype pg_input = DbWrite pg_env pg_rec | DbFlush pg_env | DbClose pg_env

fun pg_do :: "pg_input \<Rightarrow> pg_sink \<Rightarrow> pg_sink" where
  "pg_do (DbWrite e r) s = snd (pg_write e r s)"
| "pg_do (DbFlush e) s = snd (pg_flush e s)"
| "pg_do (DbClose e) s = snd (pg_close e s)"

fun written :: "pg_input list \<Rightarrow> pg_rec list" where
  "written [] = []"
| "written (DbWrite e r # ins) = (if routed r then [r] else []) @ written ins"
| "written (i # ins) = written ins"

fun disk_ok :: "pg_input \<Rightarrow> bool" where
  "disk_ok (DbWrite e r) = pe_disk e"
| "disk_ok (DbFlush e) = pe_disk e"
| "disk_ok (DbClose e) = pe_disk e"

definition trades_of :: "pg_rec list \<Rightarrow> agg_msg list" where
  "trades_of rs = concat (map (\<lambda>r. case r of PTrade t \<Rightarrow> [t] | _ \<Rightarrow> []) rs)"

definition tops_of :: "pg_rec list \<Rightarrow> top_msg list" where
  "tops_of rs = concat (map (\<lambda>r. case r of PTop t \<Rightarrow> [t] | _ \<Rightarrow> []) rs)"

definition notes_of :: "pg_rec list \<Rightarrow> note_msg list" where
  "notes_of rs = concat (map (\<lambda>r. case r of PNote n \<Rightarrow> [n] | _ \<Rightarrow> []) rs)"

lemmas by_route = trades_of_def tops_of_def notes_of_def

lemma route_append [simp]:
  "trades_of (a @ b) = trades_of a @ trades_of b"
  "tops_of (a @ b) = tops_of a @ tops_of b"
  "notes_of (a @ b) = notes_of a @ notes_of b"
  by (simp_all add: by_route)

lemma route_Nil [simp]: "trades_of [] = []" "tops_of [] = []" "notes_of [] = []"
  by (simp_all add: by_route)

definition by_table :: "pg_rec list \<Rightarrow> pg_rec list" where
  "by_table rs = map PTrade (trades_of rs) @ map PTop (tops_of rs) @ map PNote (notes_of rs)"

text \<open>What became of the records of a piece of the input.\<close>

fun fate :: "pg_rec list \<Rightarrow> pg_chunk \<Rightarrow> bool" where
  "fate seg (Commit ts tp ns) =
     (ts = readable ws_row (trades_of seg) \<and> tp = readable top_row (tops_of seg) \<and> ns = readable event_row (notes_of seg))"
| "fate seg (Spill rs) = (rs = by_table seg)"

fun commit_sizes :: "pg_chunk list \<Rightarrow> nat \<times> nat \<times> nat" where
  "commit_sizes [] = (0, 0, 0)"
| "commit_sizes (Commit ts tp ns # cs) =
     (case commit_sizes cs of (a, b, c) \<Rightarrow> (length ts + a, length tp + b, length ns + c))"
| "commit_sizes (Spill rs # cs) = commit_sizes cs"

lemma commit_sizes_snoc [simp]:
  "commit_sizes (cs @ [Commit ts tp ns]) =
     (case commit_sizes cs of (a, b, c) \<Rightarrow> (a + length ts, b + length tp, c + length ns))"
  "commit_sizes (cs @ [Spill rs]) = commit_sizes cs"
  by (induction cs rule: commit_sizes.induct) (auto split: prod.split)

definition accounted :: "pg_rec list \<Rightarrow> pg_rec list list \<Rightarrow> pg_rec list \<Rightarrow> pg_sink \<Rightarrow> bool" where
  "accounted ws segs cur s \<longleftrightarrow>
     ws = concat segs @ cur \<and> list_all2 fate segs (pk_chunks s)
     \<and> pk_trades s = trades_of cur \<and> pk_tops s = tops_of cur \<and> pk_notes s = notes_of cur
     \<and> pk_inserted s = commit_sizes (pk_chunks s)"

definition sink_ok :: "pg_rec list \<Rightarrow> pg_sink \<Rightarrow> bool" where
  "sink_ok ws s \<longleftrightarrow> (\<exists>segs cur. accounted ws segs cur s)"

lemma accounted_buffered: "accounted ws segs cur s \<Longrightarrow> buffered s = by_table cur"
  by (simp add: accounted_def buffered_def by_table_def)

lemma accounted_quiet:
  assumes "accounted ws segs cur s"
    and "pk_trades s' = pk_trades s" "pk_tops s' = pk_tops s" "pk_notes s' = pk_notes s"
    "pk_inserted s' = pk_inserted s" "pk_chunks s' = pk_chunks s"
  shows "accounted ws segs cur s'"
  using assms by (simp add: accounted_def)

lemma all2_snoc: "list_all2 P xs ys \<Longrightarrow> P x y \<Longrightarrow> list_all2 P (xs @ [x]) (ys @ [y])"
  by (rule list_all2_appendI) simp_all

lemma flush_ok: "sink_ok ws s \<Longrightarrow> sink_ok ws (snd (pg_flush e s))"
proof -
  assume "sink_ok ws s"
  then obtain segs cur where a: "accounted ws segs cur s" unfolding sink_ok_def by blast
  show ?thesis
  proof (cases "pg_pending s \<noteq> 0 \<and> pe_db e")
    case True
    then have "accounted ws (segs @ [cur]) [] (snd (pg_flush e s))"
      using a by (auto simp: accounted_def pg_flush_def pg_pending_def pg_cleared_def Let_def intro!: all2_snoc split: prod.split)
    then show ?thesis unfolding sink_ok_def by blast
  next
    case False
    then have "accounted ws segs cur (snd (pg_flush e s))"
      by (intro accounted_quiet [OF a]) (auto simp: pg_flush_def pg_pending_def Let_def)
    then show ?thesis unfolding sink_ok_def by blast
  qed
qed

lemma spill_ok: "sink_ok ws s \<Longrightarrow> sink_ok ws (snd (pg_spill e s))"
proof -
  assume "sink_ok ws s"
  then obtain segs cur where a: "accounted ws segs cur s" unfolding sink_ok_def by blast
  have "accounted ws (segs @ [cur]) [] (snd (pg_spill e s))" if "pe_disk e"
    using that a accounted_buffered [OF a]
    by (auto simp: accounted_def pg_spill_def pg_cleared_def intro!: all2_snoc)
  then show ?thesis using a unfolding sink_ok_def by (cases "pe_disk e") (auto simp: pg_spill_def)
qed

lemma buffer_ok: "sink_ok ws s \<Longrightarrow> sink_ok (ws @ [r]) (pg_buffer r s)"
proof -
  assume "sink_ok ws s"
  then obtain segs cur where a: "accounted ws segs cur s" unfolding sink_ok_def by blast
  have "accounted (ws @ [r]) segs (cur @ [r]) (pg_buffer r s)"
    using a by (cases r) (simp_all add: accounted_def by_route)
  then show ?thesis unfolding sink_ok_def by blast
qed

lemma write_ok: "sink_ok ws s \<Longrightarrow> sink_ok (ws @ (if routed r then [r] else [])) (snd (pg_write e r s))"
  using buffer_ok [of ws s r] by (simp add: pg_write_def Let_def spill_ok flush_ok)

lemma close_ok': "sink_ok ws s \<Longrightarrow> sink_ok ws (snd (pg_close e s))"
proof -
  assume s: "sink_ok ws s"
  have unplug: "sink_ok ws (t\<lparr>pk_connected := x\<rparr>)" if "sink_ok ws t" for t x
    using that by (simp add: sink_ok_def accounted_def)
  show ?thesis
    using s flush_ok [OF s, of e] spill_ok [OF flush_ok [OF s], of e e]
    by (auto simp: pg_close_def Let_def unplug split: prod.split sum.split bool.split)
qed

lemma session_ok: "sink_ok ws s \<Longrightarrow> sink_ok (ws @ written ins) (fold pg_do ins s)"
proof (induction ins arbitrary: ws s)
  case (Cons i ins)
  show ?case
  proof (cases i)
    case (DbWrite e r)
    then show ?thesis using Cons.IH [OF write_ok [OF Cons.prems]] by simp
  next
    case (DbFlush e)
    then show ?thesis using Cons.IH [OF flush_ok [OF Cons.prems]] by simp
  next
    case (DbClose e)
    then show ?thesis using Cons.IH [OF close_ok' [OF Cons.prems]] by simp
  qed
qed simp

lemma sink_start: "sink_ok [] (pg_init rows secs maxb t0)"
  by (auto simp: sink_ok_def accounted_def pg_init_def)


subsection \<open>The file of an overflow\<close>

lemma pending_buffer: "pg_pending (pg_buffer r s) = pg_pending s + 1"
  by (cases r) (simp_all add: pg_pending_def)

lemma buffer_frame:
  "pk_max (pg_buffer r s) = pk_max s" "pk_chunks (pg_buffer r s) = pk_chunks s" "pk_inserted (pg_buffer r s) = pk_inserted s"
  "pk_flush_rows (pg_buffer r s) = pk_flush_rows s" "pk_flush_s (pg_buffer r s) = pk_flush_s s"
  "pk_last (pg_buffer r s) = pk_last s" "pk_retry_at (pg_buffer r s) = pk_retry_at s"
  by (cases r; simp)+

lemma pending_clear: "pg_pending (pg_cleared s) = 0" "pk_max (pg_cleared s) = pk_max s"
  by (simp_all add: pg_cleared_def pg_pending_def)

lemma flush_bounded: "pg_pending (snd (pg_flush e s)) \<le> pg_pending s \<and> pk_max (snd (pg_flush e s)) = pk_max s"
  by (auto simp: pg_flush_def pending_clear Let_def split: prod.split) (simp_all add: pg_pending_def)

lemma write_bounded:
  assumes "pg_pending s \<le> pk_max s" "pe_disk e"
  shows "pg_pending (snd (pg_write e r s)) \<le> pk_max s \<and> pk_max (snd (pg_write e r s)) = pk_max s"
  using assms flush_bounded [of e "pg_buffer r s"]
  by (simp add: pg_write_def pg_spill_def Let_def pending_buffer buffer_frame pending_clear)

lemma close_bounded:
  assumes "pg_pending s \<le> pk_max s"
  shows "pg_pending (snd (pg_close e s)) \<le> pk_max s \<and> pk_max (snd (pg_close e s)) = pk_max s"
proof -
  have p: "pg_pending (t\<lparr>pk_connected := x\<rparr>) = pg_pending t" for t x by (simp add: pg_pending_def)
  obtain ok t where f: "pg_flush e s = (ok, t)" by (cases "pg_flush e s")
  then have "pg_pending t \<le> pk_max s \<and> pk_max t = pk_max s" using flush_bounded [of e s] assms by simp
  then show ?thesis using assms f
    by (cases ok) (simp_all add: pg_close_def pg_spill_def pending_clear p Let_def)
qed

lemma session_bounded:
  "pg_pending s \<le> pk_max s \<Longrightarrow> list_all disk_ok ins \<Longrightarrow>
   pg_pending (fold pg_do ins s) \<le> pk_max s \<and> pk_max (fold pg_do ins s) = pk_max s"
proof (induction ins arbitrary: s)
  case (Cons i ins)
  have "pg_pending (pg_do i s) \<le> pk_max s \<and> pk_max (pg_do i s) = pk_max s"
    using Cons.prems write_bounded [OF Cons.prems(1)] order.trans [OF conjunct1 [OF flush_bounded] Cons.prems(1)]
      flush_bounded [of _ s] close_bounded [OF Cons.prems(1)]
    by (cases i) simp_all
  then show ?case using Cons.IH [of "pg_do i s"] Cons.prems by simp
qed simp

lemma routed_written: "r \<in> set (written ins) \<Longrightarrow> routed r"
  by (induction ins rule: written.induct) (auto split: if_splits)

lemma by_table_set: "set (by_table rs) \<subseteq> set rs"
  by (auto simp: by_table_def by_route split: pg_rec.splits)

lemma session_routed:
  assumes "s = fold pg_do ins (pg_init rows secs maxb t0)" shows "list_all routed (buffered s)"
proof -
  obtain segs cur where a: "accounted (written ins) segs cur s"
    using session_ok [OF sink_start, of ins rows secs maxb t0] assms unfolding sink_ok_def by auto
  then have "set cur \<subseteq> set (written ins)" by (auto simp: accounted_def)
  then show ?thesis
    using accounted_buffered [OF a] by_table_set [of cur] routed_written by (auto simp: list_all_iff)
qed

text \<open>Writes that only fill the buffer.\<close>

lemma reload_fill:
  assumes "pk_flush_rows s = 10 ^ 9" "pk_flush_s s = 10 ^ 9" "pk_last s = now"
    and "pg_pending s + length inp \<le> pk_max s" "pk_max s < 10 ^ 9"
    and "list_all (\<lambda>(e, r). pe_now e < now + 10 ^ 9 \<and> routed r) inp"
  shows "pg_write_all inp s = (Inr (), fold (pg_buffer \<circ> snd) inp s)"
  using assms
proof (induction inp arbitrary: s)
  case (Cons x inp)
  obtain e r where x: "x = (e, r)" by (cases x)
  have "pg_write e r s = (Inr (), pg_buffer r s)"
    using Cons.prems x by (simp add: pg_write_def Let_def pending_buffer buffer_frame)
  then show ?case using Cons.IH [of "pg_buffer r s"] Cons.prems x by (simp add: pending_buffer buffer_frame)
qed simp

lemma write_all_append:
  "pg_write_all (a @ b) s = (case pg_write_all a s of (Inl x, s1) \<Rightarrow> (Inl x, s1) | (Inr _, s1) \<Rightarrow> pg_write_all b s1)"
  by (induction a s rule: pg_write_all.induct) (auto split: prod.split sum.split)

lemma fold_buffer_frame:
  "pk_max (fold pg_buffer rs s) = pk_max s" "pk_chunks (fold pg_buffer rs s) = pk_chunks s"
  "pk_inserted (fold pg_buffer rs s) = pk_inserted s" "pg_pending (fold pg_buffer rs s) = pg_pending s + length rs"
  by (induction rs arbitrary: s) (simp_all add: buffer_frame pending_buffer)

lemma fold_buffer_lists:
  "pk_trades (fold pg_buffer rs s) = pk_trades s @ trades_of rs \<and> pk_tops (fold pg_buffer rs s) = pk_tops s @ tops_of rs
   \<and> pk_notes (fold pg_buffer rs s) = pk_notes s @ notes_of rs"
proof (induction rs arbitrary: s)
  case (Cons r rs)
  show ?case using Cons [of "pg_buffer r s"] by (cases r) (simp_all add: by_route)
qed simp

lemma route_map [simp]:
  "trades_of (map PTrade xs) = xs" "tops_of (map PTrade xs) = []" "notes_of (map PTrade xs) = []"
  "trades_of (map PTop ys) = []" "tops_of (map PTop ys) = ys" "notes_of (map PTop ys) = []"
  "trades_of (map PNote zs) = []" "tops_of (map PNote zs) = []" "notes_of (map PNote zs) = zs"
proof -
  show "trades_of (map PTrade xs) = xs" "tops_of (map PTrade xs) = []" "notes_of (map PTrade xs) = []"
    by (induction xs) (simp_all add: by_route)
  show "trades_of (map PTop ys) = []" "tops_of (map PTop ys) = ys" "notes_of (map PTop ys) = []"
    by (induction ys) (simp_all add: by_route)
  show "trades_of (map PNote zs) = []" "tops_of (map PNote zs) = []" "notes_of (map PNote zs) = zs"
    by (induction zs) (simp_all add: by_route)
qed

lemma buffered_table: "by_table (buffered s) = buffered s"
  by (simp add: buffered_def by_table_def)

lemma fold_buffer_buffered:
  "buffered s = [] \<Longrightarrow> buffered (fold pg_buffer rs s) = by_table rs"
  using fold_buffer_lists [of rs s] by (simp add: buffered_def by_table_def)

text \<open>A reload of one record more than the buffer takes: nothing reaches the database.\<close>

lemma reload_overflow:
  assumes "length inp = maxb + 1" "maxb < 10 ^ 9" "by_table (map snd inp) = map snd inp"
    and "list_all (\<lambda>(e, r). pe_now e < now + 10 ^ 9 \<and> pe_disk e \<and> routed r) inp"
  shows "\<exists>s2. replay_spill maxb now inp e2 = (Inr (maxb + 1), s2)
    \<and> pk_inserted s2 = (0, 0, 0) \<and> pk_chunks s2 = [Spill (map snd inp)]"
proof -
  obtain a x where inp: "inp = a @ [x]" using assms(1) by (cases inp rule: rev_cases) auto
  obtain e r where x: "x = (e, r)" by (cases x)
  let ?s0 = "pg_init (10 ^ 9) (10 ^ 9) maxb now"
  let ?s1 = "fold (pg_buffer \<circ> snd) a ?s0"
  have s0: "pg_pending ?s0 = 0" "pk_max ?s0 = maxb" "buffered ?s0 = []" "pk_chunks ?s0 = []" "pk_inserted ?s0 = (0, 0, 0)"
    by (simp_all add: pg_init_def pg_pending_def buffered_def)
  have f: "?s1 = fold pg_buffer (map snd a) ?s0" by (simp add: fold_map)
  have len: "length a = maxb" using assms(1) inp by simp
  have fill: "pg_write_all a ?s0 = (Inr (), ?s1)"
  proof (rule reload_fill [of _ now])
    show "list_all (\<lambda>(e, r). pe_now e < now + 10 ^ 9 \<and> routed r) a"
      using assms(4) by (auto simp: inp list_all_iff)
    show "pk_flush_rows ?s0 = 10 ^ 9" "pk_flush_s ?s0 = 10 ^ 9" "pk_last ?s0 = now" by (simp_all add: pg_init_def)
    show "pg_pending ?s0 + length a \<le> pk_max ?s0" "pk_max ?s0 < 10 ^ 9" unfolding s0 using len assms(2) by simp_all
  qed
  have top: "pg_buffer r ?s1 = fold pg_buffer (map snd inp) ?s0" by (simp add: inp x fold_map)
  have r: "routed r" "pe_disk e" using assms(4) by (simp_all add: inp x)
  have b: "pk_max (pg_buffer r ?s1) < pg_pending (pg_buffer r ?s1)"
    unfolding top fold_buffer_frame s0 using assms(1) by simp
  have buf: "buffered (pg_buffer r ?s1) = map snd inp"
    unfolding top using fold_buffer_buffered [OF s0(3)] assms(3) by simp
  have ch: "pk_chunks (pg_buffer r ?s1) = []" "pk_inserted (pg_buffer r ?s1) = (0, 0, 0)"
    unfolding top fold_buffer_frame s0 by (rule refl)+
  let ?s2 = "snd (pg_spill e (pg_buffer r ?s1))"
  have w: "pg_write e r ?s1 = (Inr (), ?s2)" using r b by (simp add: pg_write_def pg_spill_def Let_def)
  have s2: "pg_pending ?s2 = 0" "pk_chunks ?s2 = [Spill (map snd inp)]" "pk_inserted ?s2 = (0, 0, 0)"
    using r ch buf by (simp_all add: pg_spill_def pending_clear) (simp_all add: pg_cleared_def)
  have "pg_write_all inp ?s0 = (Inr (), ?s2)"
    unfolding inp x write_all_append fill by (simp only: prod.case sum.case pg_write_all.simps w)
  then show ?thesis
    using s2 assms(1) by (simp add: replay_spill_def pg_flush_def pg_pending_def Let_def)
qed

text \<open>A spill file that was written because the buffer overflowed cannot be reloaded: it has
  one record more than the buffer of the reload holds, so the reload writes all of them to a
  new spill file, commits nothing, and still reports every record as reloaded.\<close>

theorem pg_overflow_not_reloaded:
  assumes "s = fold pg_do ins (pg_init rows secs maxb t0)" and "list_all disk_ok ins" and "maxb < 10 ^ 9"
    and "routed r" and "pg_pending s = maxb" and "pe_disk e"
    and "map snd inp = buffered (pg_buffer r s)"
    and "list_all (\<lambda>(e, _). pe_now e < now + 10 ^ 9 \<and> pe_disk e) inp"
  shows "pk_chunks (snd (pg_write e r s)) = pk_chunks s @ [Spill (map snd inp)]
    \<and> (\<exists>s2. replay_spill maxb now inp e2 = (Inr (maxb + 1), s2)
        \<and> pk_inserted s2 = (0, 0, 0) \<and> pk_chunks s2 = [Spill (map snd inp)])"
proof -
  have "pk_max s = maxb" using session_bounded [of "pg_init rows secs maxb t0" ins] assms(1,2)
    by (simp add: pg_init_def pg_pending_def)
  then have w: "pk_chunks (snd (pg_write e r s)) = pk_chunks s @ [Spill (map snd inp)]"
    using assms(4-7) by (simp add: pg_write_def pg_spill_def Let_def pending_buffer buffer_frame pg_cleared_def)
  have all: "list_all routed (buffered (pg_buffer r s))"
    using session_routed [OF assms(1)] assms(4) by (cases r) (auto simp: buffered_def list_all_iff)
  have len: "length inp = maxb + 1"
  proof -
    have "length (buffered (pg_buffer r s)) = pg_pending (pg_buffer r s)" by (simp add: buffered_def pg_pending_def)
    then show ?thesis using assms(5,7) by (metis length_map pending_buffer)
  qed
  have "list_all (\<lambda>(e, r). pe_now e < now + 10 ^ 9 \<and> pe_disk e \<and> routed r) inp"
  proof -
    have "routed (snd y)" if "y \<in> set inp" for y
    proof -
      have "snd y \<in> set (buffered (pg_buffer r s))" using that assms(7) by (metis image_eqI list.set_map)
      then show ?thesis using all by (simp add: list_all_iff)
    qed
    then show ?thesis using assms(8) by (auto simp: list_all_iff)
  qed
  moreover have "by_table (map snd inp) = map snd inp"
    unfolding assms(7) by (rule buffered_table)
  ultimately show ?thesis using w reload_overflow [OF len assms(3)] by blast
qed

text \<open>A buffer of one record and two conn events, the second of which overflows it.\<close>

definition example_note :: pg_rec where
  "example_note = PNote \<lparr>nm_kind = ''conn'', nm_recv = Value 1, nm_symbol = None, nm_stream = Some ''trade'',
     nm_rest = [], nm_bids = None, nm_asks = None\<rparr>"

definition example_call :: pg_env where
  "example_call = \<lparr>pe_now = 0, pe_start = 0, pe_failed = 0, pe_db = False, pe_disk = True\<rparr>"

theorem pg_overflow_not_reloaded_witness:
  "\<exists>s2. replay_spill 1 0 [(example_call, example_note), (example_call, example_note)] example_call = (Inr 2, s2)
     \<and> pk_inserted s2 = (0, 0, 0) \<and> pk_chunks s2 = [Spill [example_note, example_note]]"
proof -
  let ?s = "fold pg_do [DbWrite example_call example_note] (pg_init 500 1 1 0)"
  have s: "pk_trades ?s = []" "pk_tops ?s = []" "map PNote (pk_notes ?s) = [example_note]"
    by (simp_all add: pg_init_def pg_write_def routed_def event_kinds_def pg_pending_def example_note_def example_call_def Let_def)
  have "map snd [(example_call, example_note), (example_call, example_note)] = buffered (pg_buffer example_note ?s)"
  proof -
    obtain n where n: "example_note = PNote n" by (simp add: example_note_def)
    have "buffered (pg_buffer example_note ?s) = map PTrade (pk_trades ?s) @ map PTop (pk_tops ?s) @ map PNote (pk_notes ?s) @ [example_note]"
      unfolding n by (simp add: buffered_def)
    then show ?thesis unfolding s by simp
  qed
  moreover have "routed example_note" by (simp add: routed_def event_kinds_def example_note_def)
  moreover have "pg_pending ?s = 1" using s by (simp add: pg_pending_def flip: length_map [of PNote])
  ultimately show ?thesis
    using pg_overflow_not_reloaded [of ?s "[DbWrite example_call example_note]" 500 1 1 0 example_note example_call
        "[(example_call, example_note), (example_call, example_note)]" 0 example_call]
    by (simp add: numeral_2_eq_2 example_call_def [THEN arg_cong [of _ _ pe_disk]] example_call_def [THEN arg_cong [of _ _ pe_now]])
qed

end
