(* ===== verification/Text_Tools.thy ===== *)
theory Text_Tools
  imports Main
begin

text \<open>
  The string operations that several modules use: prefix and substring tests, the decimal value
  of a digit run, \<open>str.lower\<close> and \<open>str.strip\<close>, over ASCII text.
\<close>

definition starts_text :: "string \<Rightarrow> string \<Rightarrow> bool" where
  "starts_text pat s \<longleftrightarrow> take (length pat) s = pat"

fun has_text :: "string \<Rightarrow> string \<Rightarrow> bool" where
  "has_text pat [] = (pat = [])"
| "has_text pat (c # cs) = (starts_text pat (c # cs) \<or> has_text pat cs)"

definition is_digit :: "char \<Rightarrow> bool" where
  "is_digit c \<longleftrightarrow> of_char c \<in> {48..57::nat}"

definition digits_value :: "string \<Rightarrow> int" where
  "digits_value ds = fold (\<lambda>c n. 10 * n + (of_char c - 48)) ds 0"

definition lower_char :: "char \<Rightarrow> char" where
  "lower_char c = (if of_char c \<in> {65..90::nat} then char_of ((of_char c :: nat) + 32) else c)"

definition strip_text :: "string \<Rightarrow> string" where
  "strip_text s =
     (let sp = (\<lambda>c. of_char c \<in> {9..13::nat} \<or> of_char c \<in> {28..32::nat})
      in rev (dropWhile sp (rev (dropWhile sp s))))"

definition lower_text :: "string \<Rightarrow> string" where
  "lower_text s = map lower_char s"

end
