(* ===== verification/Collection_Watch.thy ===== *)
theory Collection_Watch
  imports Book_Sync Text_Tools
begin

text \<open>
  The two watchers that run beside the collector: the sleep guard of \<open>power.py\<close> (which holds a
  \<open>caffeinate\<close> process while the policy says so) and the collection monitor of \<open>monitor.py\<close>
  (which turns silence, recorded outages and power changes into messages and sends them).
\<close>

subsection \<open>The power state\<close>

record power_state =
  pw_on_ac :: bool
  pw_pct :: "int option"

text \<open>\<open>re.search(r"drawing from '([^']+)'", text)\<close>: the first position where the pattern matches.\<close>

definition quoted_after :: "string \<Rightarrow> string \<Rightarrow> string option" where
  "quoted_after pat s =
     (if starts_text pat s
      then (let rest = drop (length pat) s; run = takeWhile (\<lambda>c. c \<noteq> CHR 0x27) rest
            in if run \<noteq> [] \<and> length run < length rest then Some run else None)
      else None)"

fun search_quoted :: "string \<Rightarrow> string \<Rightarrow> string option" where
  "search_quoted pat [] = None"
| "search_quoted pat (c # cs) =
     (case quoted_after pat (c # cs) of Some r \<Rightarrow> Some r | None \<Rightarrow> search_quoted pat cs)"

text \<open>\<open>re.search(r"(\d+)%", text)\<close>.\<close>

fun search_percent :: "string \<Rightarrow> int option" where
  "search_percent [] = None"
| "search_percent (c # cs) =
     (let run = takeWhile is_digit (c # cs); rest = dropWhile is_digit (c # cs)
      in if run \<noteq> [] \<and> take 1 rest = ''%'' then Some (digits_value run) else search_percent cs)"

definition parse_pmset_batt :: "string \<Rightarrow> power_state" where
  "parse_pmset_batt s =
     \<lparr>pw_on_ac = (case search_quoted (''drawing from '' @ [CHR 0x27]) s of None \<Rightarrow> True | Some src \<Rightarrow> has_text ''AC'' src),
      pw_pct = search_percent s\<rparr>"

definition network_up :: "int \<Rightarrow> string \<Rightarrow> bool" where
  "network_up returncode out \<longleftrightarrow> returncode = 0 \<and> has_text ''interface:'' out"

subsection \<open>The policy\<close>

record sleep_policy =
  sl_floor :: int
  sl_grace :: real

datatype hold_code = OnAc | BatteryLow | NetDown | NetGrace | BatteryOk

text \<open>The state code; the human-readable reason is a function of it and the arguments.\<close>

definition should_hold :: "sleep_policy \<Rightarrow> power_state \<Rightarrow> bool \<Rightarrow> real \<Rightarrow> bool \<times> hold_code" where
  "should_hold p pw net_ok down_for =
     (if pw_on_ac pw then (True, OnAc)
      else if (case pw_pct pw of Some pct \<Rightarrow> pct < sl_floor p | None \<Rightarrow> False) then (False, BatteryLow)
      else if \<not> net_ok \<and> sl_grace p \<le> down_for then (False, NetDown)
      else if \<not> net_ok then (True, NetGrace)
      else (True, BatteryOk))"

subsection \<open>The guard\<close>

datatype guard_act = Spawned | Terminated | Killed | Emitted bool hold_code power_state bool

record sleep_guard =
  sg_policy :: sleep_policy
  sg_proc :: bool
  sg_down_since :: "real option"
  sg_last_code :: "hold_code option"
  sg_acts :: "guard_act list"

definition sleep_init :: "sleep_policy \<Rightarrow> sleep_guard" where
  "sleep_init p = \<lparr>sg_policy = p, sg_proc = False, sg_down_since = None, sg_last_code = None, sg_acts = []\<rparr>"

text \<open>What a tick reads: the clock, the power and network state (None: the query failed), whether the
  process it started is still alive, and whether that process ends within the wait.\<close>

record tick_env =
  tk_now :: real
  tk_read :: "(power_state \<times> bool) option"
  tk_alive :: bool
  tk_ends :: bool

definition sg_holding :: "tick_env \<Rightarrow> sleep_guard \<Rightarrow> bool" where
  "sg_holding e g \<longleftrightarrow> sg_proc g \<and> tk_alive e"

definition sg_act :: "guard_act \<Rightarrow> sleep_guard \<Rightarrow> sleep_guard" where
  "sg_act x g = g\<lparr>sg_acts := sg_acts g @ [x]\<rparr>"

definition sg_release :: "tick_env \<Rightarrow> sleep_guard \<Rightarrow> sleep_guard" where
  "sg_release e g =
     (let g1 = (if sg_holding e g
                then (let g' = sg_act Terminated g in if tk_ends e then g' else sg_act Killed g')
                else g)
      in g1\<lparr>sg_proc := False\<rparr>)"

definition sg_tick :: "tick_env \<Rightarrow> sleep_guard \<Rightarrow> bool \<times> sleep_guard" where
  "sg_tick e g =
     (case tk_read e of
        None \<Rightarrow> (sg_holding e g, g)
      | Some (pw, net_ok) \<Rightarrow>
          (let since = (if net_ok then None
                        else case sg_down_since g of Some t \<Rightarrow> Some t | None \<Rightarrow> Some (tk_now e));
               g1 = g\<lparr>sg_down_since := since\<rparr>;
               down_for = (case since of None \<Rightarrow> 0 | Some t \<Rightarrow> tk_now e - t);
               (hold, code) = should_hold (sg_policy g1) pw net_ok down_for;
               g2 = (if hold \<and> \<not> sg_holding e g1 then (sg_act Spawned g1)\<lparr>sg_proc := True\<rparr>
                     else if \<not> hold \<and> sg_holding e g1 then sg_release e g1 else g1);
               g3 = (if sg_last_code g2 \<noteq> Some code then sg_act (Emitted hold code pw net_ok) g2 else g2)
           in (hold, g3\<lparr>sg_last_code := Some code\<rparr>)))"

text \<open>\<open>run\<close> over the ticks until the stop: the process is released at the end.\<close>

definition sg_run :: "tick_env list \<Rightarrow> tick_env \<Rightarrow> sleep_guard \<Rightarrow> sleep_guard" where
  "sg_run es e g = sg_release e (fold (\<lambda>x h. snd (sg_tick x h)) es g)"

subsection \<open>The monitor\<close>

datatype watch_msg =
    SleepAllowed hold_code
  | SleepHeld hold_code
  | Recovered real real
  | Silent real "real option"
  | Final string

record monitor =
  mo_after :: real
  mo_started :: real
  mo_alerted :: bool
  mo_last_power :: "hold_code option"
  mo_max :: nat
  mo_queue :: "watch_msg list"
  mo_sent :: "watch_msg list"

definition monitor_init :: "real \<Rightarrow> nat \<Rightarrow> real \<Rightarrow> monitor" where
  "monitor_init after maxq now =
     \<lparr>mo_after = after, mo_started = now, mo_alerted = False, mo_last_power = None, mo_max = maxq, mo_queue = [], mo_sent = []\<rparr>"

text \<open>\<open>deque(maxlen=max_queue)\<close>: a full queue drops its oldest message.\<close>

definition mo_append :: "watch_msg \<Rightarrow> monitor \<Rightarrow> monitor" where
  "mo_append x m = (let q = mo_queue m @ [x] in m\<lparr>mo_queue := drop (length q - mo_max m) q\<rparr>)"

definition bad_power :: "hold_code option \<Rightarrow> bool" where
  "bad_power c \<longleftrightarrow> c \<in> {Some BatteryLow, Some NetDown}"

definition mo_on_power :: "hold_code \<Rightarrow> monitor \<Rightarrow> monitor" where
  "mo_on_power code m =
     (let m1 = (if bad_power (Some code) \<and> \<not> bad_power (mo_last_power m) then mo_append (SleepAllowed code) m
                else if code \<in> {OnAc, BatteryOk} \<and> bad_power (mo_last_power m) then mo_append (SleepHeld code) m
                else m)
      in m1\<lparr>mo_last_power := Some code\<rparr>)"

fun mo_outages :: "(real \<times> real) list \<Rightarrow> monitor \<Rightarrow> monitor" where
  "mo_outages [] m = m"
| "mo_outages ((s, t) # os) m = mo_outages os ((mo_append (Recovered s t) m)\<lparr>mo_alerted := False\<rparr>)"

definition mo_check :: "real \<Rightarrow> collector \<Rightarrow> monitor \<Rightarrow> collector \<times> monitor" where
  "mo_check now c m =
     (let m1 = mo_outages (co_outages c) m; c1 = c\<lparr>co_outages := []\<rparr>;
          last = co_last_depth_at c1;
          silent = now - (case last of Some t \<Rightarrow> t | None \<Rightarrow> mo_started m1)
      in (c1, if mo_after m1 \<le> silent \<and> \<not> mo_alerted m1
              then mo_append (Silent silent last) (m1\<lparr>mo_alerted := True\<rparr>) else m1))"

text \<open>\<open>flush\<close>: \<open>send i x\<close> tells whether the i-th transmission succeeds.\<close>

fun mo_send :: "(nat \<Rightarrow> watch_msg \<Rightarrow> bool) \<Rightarrow> nat \<Rightarrow> watch_msg list \<Rightarrow> watch_msg list \<times> watch_msg list" where
  "mo_send send i [] = ([], [])"
| "mo_send send i (x # q) =
     (if send i x then (case mo_send send (Suc i) q of (ok, left) \<Rightarrow> (x # ok, left)) else ([], x # q))"

definition mo_flush :: "(nat \<Rightarrow> watch_msg \<Rightarrow> bool) \<Rightarrow> monitor \<Rightarrow> monitor" where
  "mo_flush send m =
     (case mo_send send 0 (mo_queue m) of (ok, left) \<Rightarrow> m\<lparr>mo_queue := left, mo_sent := mo_sent m @ ok\<rparr>)"

definition mo_final :: "real \<Rightarrow> string \<Rightarrow> (nat \<Rightarrow> watch_msg \<Rightarrow> bool) \<Rightarrow> collector \<Rightarrow> monitor \<Rightarrow> collector \<times> monitor" where
  "mo_final now txt send c m = (case mo_check now c m of (c1, m1) \<Rightarrow> (c1, mo_flush send (mo_append (Final txt) m1)))"

end
