(* ===== verification/Watch_Correct.thy ===== *)
theory Watch_Correct
  imports Collection_Watch "HOL-Library.Sublist"
begin

text \<open>
  What the watchers promise: the sleep guard holds the process exactly when the policy says so,
  with the grace counted from the first tick of the current network loss; the monitor reports
  each silence once, between recoveries, and every recorded outage, in order.
\<close>

subsection \<open>The sleep guard\<close>

definition read_ok :: "tick_env \<Rightarrow> bool" where
  "read_ok e \<longleftrightarrow> tk_read e \<noteq> None"

definition net_lost :: "tick_env \<Rightarrow> bool" where
  "net_lost e \<longleftrightarrow> (case tk_read e of Some (_, ok) \<Rightarrow> \<not> ok | None \<Rightarrow> False)"

text \<open>The ticks of the current network loss, latest first, and when it began.\<close>

definition loss_run :: "tick_env list \<Rightarrow> tick_env list" where
  "loss_run es = takeWhile net_lost (rev (filter read_ok es))"

definition loss_began :: "tick_env list \<Rightarrow> real option" where
  "loss_began es = (if loss_run es = [] then None else Some (tk_now (last (loss_run es))))"

definition lost_for :: "tick_env list \<Rightarrow> tick_env \<Rightarrow> real" where
  "lost_for es e = (case loss_began (es @ [e]) of None \<Rightarrow> 0 | Some t \<Rightarrow> tk_now e - t)"

definition verdict :: "sleep_policy \<Rightarrow> tick_env list \<Rightarrow> tick_env \<Rightarrow> bool \<times> hold_code" where
  "verdict p es e = (case tk_read e of Some (pw, ok) \<Rightarrow> should_hold p pw ok (lost_for es e) | None \<Rightarrow> (False, OnAc))"

fun verdicts :: "sleep_policy \<Rightarrow> tick_env list \<Rightarrow> tick_env list \<Rightarrow> hold_code list" where
  "verdicts p past [] = []"
| "verdicts p past (e # es) =
     (if read_ok e then [snd (verdict p past e)] else []) @ verdicts p (past @ [e]) es"

fun emitted :: "guard_act list \<Rightarrow> hold_code list" where
  "emitted [] = []"
| "emitted (Emitted h c pw ok # xs) = c # emitted xs"
| "emitted (_ # xs) = emitted xs"

lemma emitted_append [simp]: "emitted (a @ b) = emitted a @ emitted b"
  by (induction a rule: emitted.induct) simp_all

lemma loss_unread: "\<not> read_ok e \<Longrightarrow> loss_began (es @ [e]) = loss_began es"
  by (simp add: loss_began_def loss_run_def)

lemma loss_read:
  "tk_read e = Some (pw, ok) \<Longrightarrow> loss_began (es @ [e]) =
     (if ok then None else case loss_began es of Some t \<Rightarrow> Some t | None \<Rightarrow> Some (tk_now e))"
  by (simp add: loss_began_def loss_run_def read_ok_def net_lost_def)

lemma release_fields [simp]:
  "sg_policy (sg_release e g) = sg_policy g" "sg_down_since (sg_release e g) = sg_down_since g"
  "sg_last_code (sg_release e g) = sg_last_code g" "\<not> sg_proc (sg_release e g)"
  "emitted (sg_acts (sg_release e g)) = emitted (sg_acts g)"
  by (simp_all add: sg_release_def sg_act_def Let_def)

definition guard_fits :: "sleep_policy \<Rightarrow> tick_env list \<Rightarrow> hold_code list \<Rightarrow> sleep_guard \<Rightarrow> bool" where
  "guard_fits p es cs g \<longleftrightarrow>
     sg_policy g = p \<and> sg_down_since g = loss_began es
     \<and> sg_last_code g = (if cs = [] then None else Some (last cs)) \<and> emitted (sg_acts g) = remdups_adj cs"

lemma remdups_adj_snoc: "remdups_adj (cs @ [c]) = (if cs \<noteq> [] \<and> last cs = c then remdups_adj cs else remdups_adj cs @ [c])"
proof (induction cs rule: remdups_adj.induct)
  case (3 x y xs)
  then show ?case by (simp split: if_splits)
qed simp_all

lemma tick_fits:
  assumes "guard_fits p es cs g" "read_ok e"
  shows "guard_fits p (es @ [e]) (cs @ [snd (verdict p es e)]) (snd (sg_tick e g))
    \<and> fst (sg_tick e g) = fst (verdict p es e)
    \<and> (sg_proc (snd (sg_tick e g)) \<and> (tk_alive e \<or> fst (verdict p es e))) = fst (verdict p es e)"
proof -
  obtain pw ok where r: "tk_read e = Some (pw, ok)" using assms(2) by (auto simp: read_ok_def)
  let ?since = "if ok then None else case sg_down_since g of Some t \<Rightarrow> Some t | None \<Rightarrow> Some (tk_now e)"
  have since: "?since = loss_began (es @ [e])" using assms(1) loss_read [OF r] by (simp add: guard_fits_def)
  obtain h c where v: "verdict p es e = (h, c)" by (cases "verdict p es e")
  have d: "should_hold p pw ok (case loss_began (es @ [e]) of None \<Rightarrow> 0 | Some t \<Rightarrow> tk_now e - t) = (h, c)"
    using v r by (simp add: verdict_def lost_for_def)
  let ?g1 = "g\<lparr>sg_down_since := loss_began (es @ [e])\<rparr>"
  let ?g2 = "if h \<and> \<not> sg_holding e ?g1 then (sg_act Spawned ?g1)\<lparr>sg_proc := True\<rparr>
      else if \<not> h \<and> sg_holding e ?g1 then sg_release e ?g1 else ?g1"
  let ?g3 = "if sg_last_code ?g2 \<noteq> Some c then sg_act (Emitted h c pw ok) ?g2 else ?g2"
  have t: "sg_tick e g = (h, ?g3\<lparr>sg_last_code := Some c\<rparr>)"
    using d assms(1) by (simp add: sg_tick_def r since Let_def guard_fits_def)
  have g2: "sg_policy ?g2 = p" "sg_down_since ?g2 = loss_began (es @ [e])"
    "sg_last_code ?g2 = (if cs = [] then None else Some (last cs))" "emitted (sg_acts ?g2) = remdups_adj cs"
    "(sg_proc ?g2 \<and> (tk_alive e \<or> h)) = h"
    using assms(1) by (auto simp: guard_fits_def sg_act_def sg_holding_def)
  show ?thesis
    using g2 by (auto simp: t v guard_fits_def sg_act_def remdups_adj_snoc simp del: if_split_asm split: if_split)
qed

lemma tick_unread: "\<not> read_ok e \<Longrightarrow> sg_tick e g = (sg_holding e g, g)"
  unfolding read_ok_def sg_tick_def by (cases "tk_read e") simp_all

lemma ticks_fit:
  "guard_fits p past cs g \<Longrightarrow>
   guard_fits p (past @ es) (cs @ verdicts p past es) (fold (\<lambda>x h. snd (sg_tick x h)) es g)"
proof (induction es arbitrary: past cs g)
  case (Cons e es)
  show ?case
  proof (cases "read_ok e")
    case True
    then show ?thesis using Cons.IH [OF conjunct1 [OF tick_fits [OF Cons.prems True]]] by simp
  next
    case False
    have "guard_fits p (past @ [e]) cs g" using Cons.prems by (simp add: guard_fits_def loss_unread False)
    then show ?thesis using Cons.IH [of "past @ [e]" cs g] False by (simp add: tick_unread)
  qed
qed simp

text \<open>The sleep guard follows its policy: at every tick whose power and network queries succeed
  it decides by the policy, with the network loss counted from the first tick of the current
  loss (failed queries in between do not restart it); afterwards the process is held exactly
  when the policy says so, and a record is emitted at every change of the state code and only
  then.\<close>

theorem sleep_guard_policy:
  assumes "tk_read e = Some (pw, ok)"
  shows "let g = fold (\<lambda>x h. snd (sg_tick x h)) es (sleep_init p); (h, g') = sg_tick e g
    in (h, snd (verdict p es e)) = should_hold p pw ok (lost_for es e)
       \<and> (sg_proc g' \<and> (tk_alive e \<or> h)) = h
       \<and> emitted (sg_acts g') = remdups_adj (verdicts p [] (es @ [e]))"
proof -
  let ?g = "fold (\<lambda>x h. snd (sg_tick x h)) es (sleep_init p)"
  have r: "read_ok e" using assms by (simp add: read_ok_def)
  have "guard_fits p [] [] (sleep_init p)"
    by (simp add: guard_fits_def sleep_init_def loss_began_def loss_run_def)
  then have g: "guard_fits p es (verdicts p [] es) ?g" using ticks_fit [of p "[]" "[]" "sleep_init p" es] by simp
  have vs: "verdicts p past (xs @ [e]) = verdicts p past xs @ [snd (verdict p (past @ xs) e)]" for past xs
    by (induction xs arbitrary: past) (simp_all add: r)
  obtain h g' where t: "sg_tick e ?g = (h, g')" by (cases "sg_tick e ?g")
  have "verdict p es e = should_hold p pw ok (lost_for es e)" by (simp add: verdict_def assms)
  then show ?thesis
    using tick_fits [OF g r] vs [of "[]" es] by (simp add: t Let_def guard_fits_def)
qed

theorem sleep_guard_policy_witness:
  "let p = \<lparr>sl_floor = 30, sl_grace = 300\<rparr>; pw = \<lparr>pw_on_ac = False, pw_pct = Some 80\<rparr>;
       tick = (\<lambda>t. \<lparr>tk_now = t, tk_read = Some (pw, False), tk_alive = True, tk_ends = True\<rparr>)
   in fst (sg_tick (tick 330) (fold (\<lambda>x h. snd (sg_tick x h)) [tick 0, tick 30] (sleep_init p))) = False"
proof -
  let ?p = "\<lparr>sl_floor = 30, sl_grace = 300\<rparr>" and ?pw = "\<lparr>pw_on_ac = False, pw_pct = Some 80\<rparr>"
  let ?tick = "\<lambda>t. \<lparr>tk_now = t, tk_read = Some (?pw, False), tk_alive = True, tk_ends = True\<rparr>"
  have "lost_for [?tick 0, ?tick 30] (?tick 330) = 330"
    by (simp add: lost_for_def loss_began_def loss_run_def read_ok_def net_lost_def)
  then have v: "should_hold ?p ?pw False (lost_for [?tick 0, ?tick 30] (?tick 330)) = (False, NetDown)"
    by (simp add: should_hold_def)
  show ?thesis
    using sleep_guard_policy [of "?tick 330" ?pw False "[?tick 0, ?tick 30]" ?p]
    unfolding Let_def v by (auto split: prod.splits)
qed

subsection \<open>The monitor\<close>

datatype mo_input =
    Checked real collector
  | PowerNote hold_code
  | Flushed "nat \<Rightarrow> watch_msg \<Rightarrow> bool"
  | Told watch_msg

text \<open>\<open>Told\<close>: another component's message on the same queue (the backfill's).\<close>

fun mo_do :: "mo_input \<Rightarrow> monitor \<Rightarrow> monitor" where
  "mo_do (Checked now c) m = snd (mo_check now c m)"
| "mo_do (PowerNote code) m = mo_on_power code m"
| "mo_do (Flushed send) m = mo_flush send m"
| "mo_do (Told x) m = mo_append x m"

fun mo_foreign :: "mo_input \<Rightarrow> bool" where
  "mo_foreign (Told (Final _)) = True"
| "mo_foreign (Told _) = False"
| "mo_foreign _ = True"

fun outages_in :: "mo_input list \<Rightarrow> (real \<times> real) list" where
  "outages_in [] = []"
| "outages_in (Checked now c # ins) = co_outages c @ outages_in ins"
| "outages_in (_ # ins) = outages_in ins"

fun recoveries :: "watch_msg list \<Rightarrow> (real \<times> real) list" where
  "recoveries [] = []"
| "recoveries (Recovered s t # xs) = (s, t) # recoveries xs"
| "recoveries (_ # xs) = recoveries xs"

text \<open>No two silences without a recovery between them.\<close>

fun one_silence :: "bool \<Rightarrow> watch_msg list \<Rightarrow> bool" where
  "one_silence al [] = True"
| "one_silence al (Silent d l # xs) = (\<not> al \<and> one_silence True xs)"
| "one_silence al (Recovered s t # xs) = one_silence False xs"
| "one_silence al (_ # xs) = one_silence al xs"

fun silent_after :: "bool \<Rightarrow> watch_msg list \<Rightarrow> bool" where
  "silent_after al [] = al"
| "silent_after al (Silent d l # xs) = silent_after True xs"
| "silent_after al (Recovered s t # xs) = silent_after False xs"
| "silent_after al (_ # xs) = silent_after al xs"

lemma silence_append:
  "one_silence al (a @ b) = (one_silence al a \<and> one_silence (silent_after al a) b)"
  "silent_after al (a @ b) = silent_after (silent_after al a) b"
  by (induction al a rule: one_silence.induct) simp_all

lemma recoveries_append [simp]: "recoveries (a @ b) = recoveries a @ recoveries b"
  by (induction a rule: recoveries.induct) simp_all

definition told :: "watch_msg list \<Rightarrow> monitor \<Rightarrow> bool" where
  "told made m \<longleftrightarrow>
     one_silence False made \<and> silent_after False made = mo_alerted m
     \<and> subseq (mo_sent m @ mo_queue m) made \<and> (mo_sent m @ mo_queue m = made \<or> mo_max m < length made)"

lemma subseq_queue:
  assumes "subseq (a @ q) made" shows "subseq (a @ drop n (q @ [x])) (made @ [x])"
proof -
  have "subseq (a @ drop n (q @ [x])) (a @ q @ [x])"
    by (rule list_emb_append_mono [OF subseq_order.order_refl suffix_imp_subseq [OF suffix_drop]])
  moreover have "subseq (a @ q @ [x]) (made @ [x])" using assms by (simp flip: append_assoc)
  ultimately show ?thesis by (rule subseq_order.order_trans)
qed

lemma told_append:
  assumes "told made m" "al = silent_after (mo_alerted m) [x]" "one_silence (mo_alerted m) [x]"
  shows "told (made @ [x]) ((mo_append x m)\<lparr>mo_alerted := al\<rparr>)"
proof -
  have keep: "mo_sent m @ drop (length (mo_queue m @ [x]) - mo_max m) (mo_queue m @ [x]) = made @ [x] \<or> mo_max m < length (made @ [x])"
    using assms(1) by (cases "mo_max m < length (mo_queue m) + 1") (auto simp: told_def)
  show ?thesis
    using assms subseq_queue [of "mo_sent m" "mo_queue m" made] keep
    by (simp add: told_def mo_append_def silence_append Let_def del: drop_append subseq_append)
qed

lemma told_outages:
  "told made m \<Longrightarrow> \<exists>made'. told (made @ made') (mo_outages os m) \<and> recoveries made' = os"
proof (induction os m arbitrary: made rule: mo_outages.induct)
  case (1 m)
  then show ?case by (intro exI [of _ "[]"]) simp
next
  case (2 s t os m)
  have "told (made @ [Recovered s t]) ((mo_append (Recovered s t) m)\<lparr>mo_alerted := False\<rparr>)"
    by (rule told_append [OF 2(2)]) simp_all
  then obtain made' where "told ((made @ [Recovered s t]) @ made') (mo_outages ((s, t) # os) m)" "recoveries made' = os"
    using 2(1) [of "made @ [Recovered s t]"] by auto
  then show ?case by (intro exI [of _ "Recovered s t # made'"]) simp
qed

lemma told_plain:
  assumes "told made m" "\<And>al. one_silence al [x]" "\<And>al. silent_after al [x] = al"
  shows "told (made @ [x]) (mo_append x m)"
proof -
  have "(mo_append x m)\<lparr>mo_alerted := mo_alerted m\<rparr> = mo_append x m" by (simp add: mo_append_def Let_def)
  then show ?thesis using told_append [OF assms(1), of "mo_alerted m" x] assms(2,3) by simp
qed

lemma told_cong:
  "mo_sent m' @ mo_queue m' = mo_sent m @ mo_queue m \<Longrightarrow> mo_alerted m' = mo_alerted m \<Longrightarrow> mo_max m' = mo_max m
   \<Longrightarrow> told made m \<Longrightarrow> told made m'"
  by (simp add: told_def)

lemma send_split: "mo_send send i q = (ok, left) \<Longrightarrow> ok @ left = q"
  by (induction send i q arbitrary: ok rule: mo_send.induct) (auto split: if_splits prod.splits)

lemma max_kept: "mo_max (mo_append x m) = mo_max m"
  by (simp add: mo_append_def Let_def)

lemma told_step:
  assumes "told made m" "mo_foreign i"
  shows "\<exists>new. told (made @ new) (mo_do i m) \<and> recoveries new = outages_in [i]"
proof (cases i)
  case (Checked now c)
  obtain new where n: "told (made @ new) (mo_outages (co_outages c) m)" "recoveries new = co_outages c"
    using told_outages [OF assms(1)] by blast
  let ?m1 = "mo_outages (co_outages c) m"
  let ?silent = "now - (case co_last_depth_at c of Some t \<Rightarrow> t | None \<Rightarrow> mo_started ?m1)"
  show ?thesis
  proof (cases "mo_after ?m1 \<le> ?silent \<and> \<not> mo_alerted ?m1")
    case True
    have a: "mo_append x (?m1\<lparr>mo_alerted := True\<rparr>) = (mo_append x ?m1)\<lparr>mo_alerted := True\<rparr>" for x
      by (simp add: mo_append_def Let_def)
    have "told ((made @ new) @ [Silent ?silent (co_last_depth_at c)]) (mo_do i m)"
      using told_append [OF n(1), of True "Silent ?silent (co_last_depth_at c)"] True
      by (simp add: Checked mo_check_def Let_def a)
    then show ?thesis using n(2) Checked by (intro exI [of _ "new @ [Silent ?silent (co_last_depth_at c)]"]) simp
  next
    case False
    then have "mo_do i m = ?m1" by (simp add: Checked mo_check_def Let_def) blast
    then show ?thesis using n Checked by auto
  qed
next
  case (PowerNote code)
  have k: "told made' (m'\<lparr>mo_last_power := x\<rparr>) = told made' m'" for made' m' x by (simp add: told_def)
  have "told (made @ [SleepAllowed code]) (mo_append (SleepAllowed code) m)"
    "told (made @ [SleepHeld code]) (mo_append (SleepHeld code) m)"
    by (rule told_plain [OF assms(1)]; simp)+
  then show ?thesis using assms(1) PowerNote by (auto simp: mo_on_power_def Let_def k intro: exI [of _ "[]"])
next
  case (Flushed send)
  obtain ok left where s: "mo_send send 0 (mo_queue m) = (ok, left)" by (cases "mo_send send 0 (mo_queue m)")
  have "told made (mo_flush send m)"
    by (rule told_cong [OF _ _ _ assms(1)]) (use send_split [OF s] in \<open>simp_all add: mo_flush_def s\<close>)
  then show ?thesis using Flushed by (intro exI [of _ "[]"]) simp
next
  case (Told x)
  then obtain y where x: "x = Final y" using assms(2) by (cases x) simp_all
  have "told (made @ [x]) (mo_append x m)" by (rule told_plain [OF assms(1)]) (simp_all add: x)
  then show ?thesis using Told x by (intro exI [of _ "[x]"]) simp
qed

lemma told_session:
  "told made m \<Longrightarrow> list_all mo_foreign ins \<Longrightarrow>
   \<exists>new. told (made @ new) (fold mo_do ins m) \<and> recoveries new = outages_in ins"
proof (induction ins arbitrary: made m)
  case Nil
  then show ?case by (intro exI [of _ "[]"]) simp
next
  case (Cons i ins)
  obtain n1 where n1: "told (made @ n1) (mo_do i m)" "recoveries n1 = outages_in [i]"
    using told_step [OF Cons.prems(1)] Cons.prems(2) by auto
  obtain n2 where n2: "told ((made @ n1) @ n2) (fold mo_do ins (mo_do i m))" "recoveries n2 = outages_in ins"
    using Cons.IH [OF n1(1)] Cons.prems(2) by auto
  have "outages_in (i # ins) = outages_in [i] @ outages_in ins" by (cases i) simp_all
  then show ?case using n1 n2 by (intro exI [of _ "n1 @ n2"]) simp
qed

text \<open>Over any session of checks, power changes, other messages and partly failing transmissions:
  the monitor announces a silence at most once until the next recovery, every outage the
  collector recorded is announced exactly once and in order, and what was sent and is queued
  is in the order of the announcements, with none missing unless there were more than the
  queue holds.\<close>

theorem monitor_protocol:
  assumes "list_all mo_foreign ins"
  shows "let m = fold mo_do ins (monitor_init after maxq t0)
    in \<exists>made. one_silence False made \<and> recoveries made = outages_in ins
         \<and> subseq (mo_sent m @ mo_queue m) made \<and> (mo_sent m @ mo_queue m = made \<or> maxq < length made)"
proof -
  have max: "mo_max (fold mo_do ins m) = mo_max m" for m
  proof (induction ins arbitrary: m)
    case (Cons i ins)
    have o: "mo_max (mo_outages os k) = mo_max k" for os k
      by (induction os k rule: mo_outages.induct) (simp_all add: max_kept)
    have "mo_max (mo_do i m) = mo_max m"
      by (cases i) (simp_all add: mo_check_def mo_on_power_def mo_flush_def Let_def max_kept o split: prod.split)
    then show ?case using Cons by simp
  qed simp
  have "told [] (monitor_init after maxq t0)" by (simp add: told_def monitor_init_def)
  from told_session [OF this assms] obtain made where
    "told made (fold mo_do ins (monitor_init after maxq t0))" "recoveries made = outages_in ins" by auto
  moreover have "mo_max (fold mo_do ins (monitor_init after maxq t0)) = maxq"
    by (simp add: max) (simp add: monitor_init_def)
  ultimately show ?thesis unfolding Let_def by (intro exI [of _ made]) (simp add: told_def)
qed

definition example_gap :: collector where
  "example_gap = (collector_init 5 180 [''EWYUSDT''])\<lparr>co_outages := [(100, 400)], co_last_depth_at := Some 400\<rparr>"

theorem monitor_protocol_witness:
  "let m = fold mo_do [Checked 410 example_gap, PowerNote BatteryLow] (monitor_init 180 50 0)
   in \<exists>made. one_silence False made \<and> recoveries made = [(100, 400)]
        \<and> subseq (mo_sent m @ mo_queue m) made \<and> (mo_sent m @ mo_queue m = made \<or> 50 < length made)"
proof -
  have o: "outages_in [Checked 410 example_gap, PowerNote BatteryLow] = [(100, 400)]" by (simp add: example_gap_def)
  have "list_all mo_foreign [Checked 410 example_gap, PowerNote BatteryLow]" by simp
  from monitor_protocol [OF this, of 180 50 0] show ?thesis unfolding o .
qed

text \<open>C0: The blind spot of the monitor: when it has reported that nothing was received since the
  start, the first depth record ends that silence without a recovery message, because the
  collector records no outage for it; the next silence, however long, is not reported.\<close>

theorem monitor_first_silence_masks:
  assumes "co_last_depth_at c = None" and "co_outages c = []" and "map_of (co_syncs c) sm \<noteq> None"
    and "t0 + after \<le> t1"
  shows "let (c1, m1) = mo_check t1 c (monitor_init after 50 t0);
             c2 = co_handle_message recv (MDepth sm e ev) c1
    in mo_queue m1 = [Silent (t1 - t0) None] \<and> co_last_depth_at c2 = Some (of_int recv / 1000)
       \<and> mo_queue (snd (mo_check t2 c2 m1)) = mo_queue m1"
proof -
  let ?m0 = "monitor_init after 50 t0"
  let ?m1 = "mo_append (Silent (t1 - t0) None) (?m0\<lparr>mo_alerted := True\<rparr>)"
  have c1: "mo_check t1 c ?m0 = (c\<lparr>co_outages := []\<rparr>, ?m1)"
    using assms by (simp add: mo_check_def monitor_init_def Let_def)
  have m1: "mo_queue ?m1 = [Silent (t1 - t0) None]" "mo_alerted ?m1"
    by (simp_all add: mo_append_def monitor_init_def Let_def)
  let ?c2 = "co_handle_message recv (MDepth sm e ev) (c\<lparr>co_outages := []\<rparr>)"
  obtain sy where sy: "map_of (co_syncs c) sm = Some sy" using assms(3) by blast
  have w: "co_outages (co_write rs d) = co_outages d \<and> co_last_depth_at (co_write rs d) = co_last_depth_at d"
    "co_outages (co_count s k d) = co_outages d \<and> co_last_depth_at (co_count s k d) = co_last_depth_at d" for rs s k d
    by (simp_all add: co_write_def co_count_def Let_def)
  have t: "co_outages (co_emit_top s b x y z d) = co_outages d \<and> co_last_depth_at (co_emit_top s b x y z d) = co_last_depth_at d"
    for s b x y z d by (simp add: co_emit_top_def w Let_def)
  have c2: "co_outages ?c2 = [] \<and> co_last_depth_at ?c2 = Some (of_int recv / 1000)"
    using assms(1) sy by (simp add: co_handle_message_def co_note_outage_def w t Let_def split: prod.split)
  then have "mo_check t2 ?c2 ?m1 = (?c2\<lparr>co_outages := []\<rparr>, ?m1)"
    using m1(2) by (simp add: mo_check_def Let_def)
  then show ?thesis using c1 c2 m1(1) by (simp add: Let_def)
qed

theorem monitor_first_silence_masks_witness:
  "\<forall>e. mo_queue (snd (mo_check 100000
       (co_handle_message 200000 (MDepth ''EWYUSDT'' e None) (fst (mo_check 180 (collector_init 5 180 [''EWYUSDT'']) (monitor_init 180 50 0))))
       (snd (mo_check 180 (collector_init 5 180 [''EWYUSDT'']) (monitor_init 180 50 0))))) = [Silent 180 None]"
proof
  fix e
  let ?c = "collector_init 5 180 [''EWYUSDT'']"
  have c: "co_last_depth_at ?c = None" "co_outages ?c = []" "map_of (co_syncs ?c) ''EWYUSDT'' \<noteq> None"
    by (simp_all add: collector_init_def)
  obtain c1 m1 where k: "mo_check 180 ?c (monitor_init 180 50 0) = (c1, m1)" by (cases "mo_check 180 ?c (monitor_init 180 50 0)")
  show "mo_queue (snd (mo_check 100000 (co_handle_message 200000 (MDepth ''EWYUSDT'' e None)
      (fst (mo_check 180 ?c (monitor_init 180 50 0)))) (snd (mo_check 180 ?c (monitor_init 180 50 0))))) = [Silent 180 None]"
    using monitor_first_silence_masks [OF c, of 0 180 180 200000 e None 100000] unfolding k by (simp add: Let_def)
qed

end
