(* ===== verification/Backfill.thy ===== *)
theory Backfill
  imports Pg_Sink Text_Tools
begin

text \<open>
  The search for missing trades and their recovery: \<open>find_agg_gaps\<close> and \<open>backfill_agg_gaps\<close> of
  \<open>integrity.py\<close>, the daily files of \<open>archive.py\<close>, and the jobs of \<open>autobackfill.py\<close>.  The table is
  the list of its rows; the two places where PostgreSQL may choose are parameters: \<open>pick\<close> (which
  of several rows with the latest time is returned) and the order of equal ids (here: stable).
\<close>

subsection \<open>The gaps of the trade ids\<close>

text \<open>A row as the query sees it: its id and its exchange time.\<close>

type_synonym id_row = "int \<times> int"

record id_gap =
  ga_from :: int
  ga_to :: int
  ga_prev_ts :: int
  ga_next_ts :: int

definition in_window :: "int \<Rightarrow> int \<Rightarrow> id_row \<Rightarrow> bool" where
  "in_window start stop r \<longleftrightarrow> start \<le> snd r \<and> snd r < stop"

definition before_window :: "int \<Rightarrow> id_row list \<Rightarrow> id_row list" where
  "before_window start rows = filter (\<lambda>r. snd r < start) rows"

definition window_rows :: "(id_row list \<Rightarrow> id_row) \<Rightarrow> int \<Rightarrow> int \<Rightarrow> id_row list \<Rightarrow> id_row list" where
  "window_rows pick start stop rows =
     sort_key fst (filter (in_window start stop) rows
       @ (if before_window start rows = [] then [] else [pick (before_window start rows)]))"

fun lag_gaps :: "id_row list \<Rightarrow> id_gap list" where
  "lag_gaps (p # a # rest) =
     (if fst a \<noteq> fst p + 1
      then [\<lparr>ga_from = fst p + 1, ga_to = fst a - 1, ga_prev_ts = snd p, ga_next_ts = snd a\<rparr>] else [])
     @ lag_gaps (a # rest)"
| "lag_gaps _ = []"

definition find_agg_gaps :: "(id_row list \<Rightarrow> id_row) \<Rightarrow> int \<Rightarrow> int \<Rightarrow> id_row list \<Rightarrow> id_gap list" where
  "find_agg_gaps pick start stop rows = sort_key ga_from (lag_gaps (window_rows pick start stop rows))"

text \<open>The other counts of \<open>run_checks\<close> over one table, in the order its query sorts the rows.\<close>

fun inversions :: "int list \<Rightarrow> nat" where
  "inversions (p # t # ts) = (if t < p then 1 else 0) + inversions (t # ts)"
| "inversions _ = 0"

definition ts_inversions :: "int \<Rightarrow> int \<Rightarrow> id_row list \<Rightarrow> nat" where
  "ts_inversions start stop rows = inversions (map snd (sort_key fst (filter (in_window start stop) rows)))"

definition missing_ids :: "id_gap list \<Rightarrow> int" where
  "missing_ids gs = (\<Sum>g\<leftarrow>gs. max 0 (ga_to g - ga_from g + 1))"

subsection \<open>The table\<close>

text \<open>\<open>INSERT ... ON CONFLICT DO NOTHING\<close> on the key (symbol, exchange time, id).\<close>

definition row_key :: "trade_cols \<Rightarrow> string \<times> int option \<times> int" where
  "row_key r = (tc_symbol r, tc_ts r, tc_agg_id r)"

definition insert_row :: "trade_cols \<Rightarrow> trade_cols list \<Rightarrow> trade_cols list" where
  "insert_row r db = (if row_key r \<in> set (map row_key db) then db else db @ [r])"

definition insert_rows :: "trade_cols list \<Rightarrow> trade_cols list \<Rightarrow> trade_cols list" where
  "insert_rows rs db = fold insert_row rs db"

definition ids_in :: "string \<Rightarrow> trade_cols list \<Rightarrow> id_row list" where
  "ids_in symbol db =
     List.map_filter (\<lambda>r. if tc_symbol r = symbol then map_option (\<lambda>t. (tc_agg_id r, t)) (tc_ts r) else None) db"

subsection \<open>The recovery\<close>

datatype fill_error = RestFailed "int option" | BadRow conv_error

definition trades_between :: "int \<Rightarrow> int \<Rightarrow> agg_msg list \<Rightarrow> conv_error + agg_msg list" where
  "trades_between from_id to_id batch =
     bind_sum (read_all (map tm_a batch)) (\<lambda>ids. Inr (map snd (filter (\<lambda>(a, t). from_id \<le> a \<and> a \<le> to_id) (zip ids batch))))"

fun rows_for :: "string \<Rightarrow> string \<Rightarrow> agg_msg list \<Rightarrow> conv_error + trade_cols list" where
  "rows_for symbol source [] = Inr []"
| "rows_for symbol source (t # ts) =
     bind_sum (trade_row (Some symbol) source t) (\<lambda>r. bind_sum (rows_for symbol source ts) (\<lambda>rs. Inr (r # rs)))"

text \<open>\<open>get i\<close>: the answer of the exchange to \<open>fromId = i, limit = 1000\<close>.\<close>

definition rows_between :: "string \<Rightarrow> string \<Rightarrow> int \<Rightarrow> int \<Rightarrow> agg_msg list \<Rightarrow> conv_error + trade_cols list" where
  "rows_between symbol source from_id to_id batch =
     bind_sum (trades_between from_id to_id batch) (rows_for symbol source)"

definition last_id :: "agg_msg list \<Rightarrow> conv_error + int" where
  "last_id batch = need (tm_a (last batch))"

function backfill_rest ::
    "(int \<Rightarrow> fill_error + agg_msg list) \<Rightarrow> string \<Rightarrow> int \<Rightarrow> int \<Rightarrow> int \<Rightarrow> nat \<times> trade_cols list
     \<Rightarrow> (fill_error + nat) \<times> trade_cols list" where
  "backfill_rest get symbol from_id to_id cur_id (n, db) =
     (if to_id < cur_id then (Inr n, db)
      else case get cur_id of
             Inl e \<Rightarrow> (Inl e, db)
           | Inr [] \<Rightarrow> (Inr n, db)
           | Inr (b # bs) \<Rightarrow>
               (case rows_between symbol ''rest_backfill'' from_id to_id (b # bs) of
                  Inl e \<Rightarrow> (Inl (BadRow e), db)
                | Inr rows \<Rightarrow>
                    (case last_id (b # bs) of
                       Inl e \<Rightarrow> (Inl (BadRow e), insert_rows rows db)
                     | Inr lst \<Rightarrow>
                         if to_id \<le> lst \<or> lst < cur_id then (Inr (n + length rows), insert_rows rows db)
                         else backfill_rest get symbol from_id to_id (lst + 1) (n + length rows, insert_rows rows db))))"
  by pat_completeness auto
termination
  by (relation "measure (\<lambda>(get, symbol, from_id, to_id, cur_id, s). nat (to_id + 1 - cur_id))") auto

declare backfill_rest.simps [simp del]

text \<open>The archive: one file per UTC day; \<open>daily d\<close> has the trades of its lines (empty: no file).\<close>

datatype csv_row = EmptyRow | HeaderRow | DataRow int "real field" "real field" int int int string

definition parse_rows :: "csv_row list \<Rightarrow> agg_msg list" where
  "parse_rows rows =
     List.map_filter (\<lambda>r. case r of
         DataRow a p q f l t m \<Rightarrow> Some \<lparr>tm_T = Value t, tm_symbol = None, tm_s = Absent, tm_a = Value a, tm_p = p,
           tm_q = q, tm_f = Value f, tm_l = Value l, tm_m = Value (lower_text (strip_text m) = ''true''),
           tm_E = Absent, tm_recv = Absent\<rparr>
       | _ \<Rightarrow> None) rows"

definition us_day :: int where
  "us_day = 86400000000"

definition utc_days :: "int \<Rightarrow> int \<Rightarrow> int list" where
  "utc_days start stop = [start div us_day .. stop div us_day]"

definition archive_gap ::
    "(int \<Rightarrow> csv_row list) \<Rightarrow> string \<Rightarrow> id_gap \<Rightarrow> trade_cols list \<Rightarrow> (fill_error + nat) \<times> trade_cols list" where
  "archive_gap daily symbol g db =
     (case rows_between symbol ''archive'' (ga_from g) (ga_to g)
             (concat (map (parse_rows \<circ> daily) (utc_days (ga_prev_ts g) (ga_next_ts g)))) of
        Inl e \<Rightarrow> (Inl (BadRow e), db)
      | Inr rows \<Rightarrow> (Inr (length rows), insert_rows rows db))"

definition too_old :: "int option \<Rightarrow> bool" where
  "too_old code \<longleftrightarrow> code = Some (- 4166)"

definition fill_gap ::
    "nat \<Rightarrow> (int \<Rightarrow> fill_error + agg_msg list) \<Rightarrow> (int \<Rightarrow> csv_row list) \<Rightarrow> string \<Rightarrow> id_gap \<Rightarrow> trade_cols list
     \<Rightarrow> (fill_error + nat) \<times> trade_cols list" where
  "fill_gap max_ids get daily symbol g db =
     (if int max_ids < ga_to g - ga_from g + 1 then archive_gap daily symbol g db
      else case backfill_rest get symbol (ga_from g) (ga_to g) (ga_from g) (0, db) of
             (Inl (RestFailed code), db1) \<Rightarrow>
               (if too_old code then archive_gap daily symbol g db1 else (Inl (RestFailed code), db1))
           | r \<Rightarrow> r)"

text \<open>Every gap is its own transaction: on an error the rows of that gap are rolled back.\<close>

fun backfill_agg_gaps ::
    "nat \<Rightarrow> (int \<Rightarrow> fill_error + agg_msg list) \<Rightarrow> (int \<Rightarrow> csv_row list) \<Rightarrow> string \<Rightarrow> id_gap list \<Rightarrow> trade_cols list
     \<Rightarrow> (fill_error + nat) \<times> trade_cols list" where
  "backfill_agg_gaps max_ids get daily symbol [] db = (Inr 0, db)"
| "backfill_agg_gaps max_ids get daily symbol (g # gs) db =
     (case fill_gap max_ids get daily symbol g db of
        (Inl e, _) \<Rightarrow> (Inl e, db)
      | (Inr n, db1) \<Rightarrow>
          (case backfill_agg_gaps max_ids get daily symbol gs db1 of
             (Inl e, db2) \<Rightarrow> (Inl e, db2)
           | (Inr k, db2) \<Rightarrow> (Inr (n + k), db2)))"

subsection \<open>The jobs\<close>

datatype job_why = Resumed | Sweep

record backfiller =
  bf_settle :: real
  bf_interval :: real
  bf_hours :: real
  bf_lead :: real
  bf_pending :: "(real \<times> real) list"
  bf_next_sweep :: real

definition backfiller_init :: "real \<Rightarrow> real \<Rightarrow> real \<Rightarrow> real \<Rightarrow> real \<Rightarrow> real \<Rightarrow> backfiller" where
  "backfiller_init settle startup interval hours lead now =
     \<lparr>bf_settle = settle, bf_interval = interval, bf_hours = hours, bf_lead = lead, bf_pending = [],
      bf_next_sweep = now + startup\<rparr>"

definition bf_on_outage :: "real \<Rightarrow> real \<Rightarrow> backfiller \<Rightarrow> backfiller" where
  "bf_on_outage start stop b = b\<lparr>bf_pending := bf_pending b @ [(start, stop + bf_settle b)]\<rparr>"

definition due_jobs :: "real \<Rightarrow> backfiller \<Rightarrow> (real \<times> real \<times> job_why) list \<times> backfiller" where
  "due_jobs now b =
     (let jobs = filter (\<lambda>(s, due). due \<le> now) (bf_pending b);
          keep = filter (\<lambda>(s, due). \<not> due \<le> now) (bf_pending b);
          out = map (\<lambda>(s, _). (s - bf_lead b, now, Resumed)) jobs;
          b1 = b\<lparr>bf_pending := keep\<rparr>
      in if bf_next_sweep b1 \<le> now
         then (out @ [(now - bf_hours b1 * 3600, now, Sweep)], b1\<lparr>bf_next_sweep := now + bf_interval b1\<rparr>)
         else (out, b1))"

record fill_report =
  fr_gaps :: nat
  fr_missing :: int
  fr_filled :: nat
  fr_remaining :: int

definition gap_ids :: "id_gap list \<Rightarrow> int" where
  "gap_ids gs = (\<Sum>g\<leftarrow>gs. ga_to g - ga_from g + 1)"

text \<open>One job over \<open>[start, stop]\<close> in seconds.\<close>

definition run_once ::
    "(id_row list \<Rightarrow> id_row) \<Rightarrow> nat \<Rightarrow> (int \<Rightarrow> fill_error + agg_msg list) \<Rightarrow> (int \<Rightarrow> csv_row list) \<Rightarrow> string
     \<Rightarrow> real \<Rightarrow> real \<Rightarrow> trade_cols list \<Rightarrow> (fill_error + fill_report) \<times> trade_cols list" where
  "run_once pick max_ids get daily symbol start stop db =
     (let s = py_round (start * 1000000); e = py_round (stop * 1000000) + 1000000;
          gaps = find_agg_gaps pick s e (ids_in symbol db)
      in case (if gaps = [] then (Inr 0, db) else backfill_agg_gaps max_ids get daily symbol gaps db) of
           (Inl x, db1) \<Rightarrow> (Inl x, db1)
         | (Inr n, db1) \<Rightarrow>
             (Inr \<lparr>fr_gaps = length gaps, fr_missing = gap_ids gaps, fr_filled = n,
                   fr_remaining = (if gaps = [] then 0 else gap_ids (find_agg_gaps pick s e (ids_in symbol db1)))\<rparr>, db1))"

datatype fill_notice =
    FillNotice job_why int nat int
  | FillFailed job_why

definition fill_notices :: "job_why \<Rightarrow> (fill_error + fill_report) \<Rightarrow> fill_notice list" where
  "fill_notices why res =
     (case res of
        Inl _ \<Rightarrow> [FillFailed why]
      | Inr r \<Rightarrow> if fr_missing r = 0 then [] else [FillNotice why (fr_missing r) (fr_filled r) (fr_remaining r)])"

text \<open>One turn of \<open>run\<close>: the due jobs, one after the other; a failing job does not stop the others.\<close>

fun run_jobs ::
    "(id_row list \<Rightarrow> id_row) \<Rightarrow> nat \<Rightarrow> (int \<Rightarrow> fill_error + agg_msg list) \<Rightarrow> (int \<Rightarrow> csv_row list) \<Rightarrow> string
     \<Rightarrow> (real \<times> real \<times> job_why) list \<Rightarrow> trade_cols list \<Rightarrow> fill_notice list \<times> trade_cols list" where
  "run_jobs pick max_ids get daily symbol [] db = ([], db)"
| "run_jobs pick max_ids get daily symbol ((s, e, why) # js) db =
     (case run_once pick max_ids get daily symbol s e db of
        (res, db1) \<Rightarrow>
          (case run_jobs pick max_ids get daily symbol js db1 of (ns, db2) \<Rightarrow> (fill_notices why res @ ns, db2)))"

end
