(* ===== verification/Backfill_Correct.thy ===== *)
theory Backfill_Correct
  imports Backfill "HOL-Library.Multiset"
begin

text \<open>
  The gap search reports exactly the ids missing between those it sees; the recovery loop ends
  and stores exactly the exchange's trades of the gap; every recorded outage becomes one job.
\<close>

subsection \<open>The gap search\<close>

definition in_gap :: "int \<Rightarrow> id_gap \<Rightarrow> bool" where
  "in_gap x g \<longleftrightarrow> ga_from g \<le> x \<and> x \<le> ga_to g"

definition inside :: "int set \<Rightarrow> int \<Rightarrow> bool" where
  "inside ids x \<longleftrightarrow> (\<exists>lo\<in>ids. \<exists>hi\<in>ids. lo < x \<and> x < hi)"

lemma lag_gaps_exact:
  "sorted_wrt (<) (map fst rows) \<Longrightarrow>
   (\<exists>g\<in>set (lag_gaps rows). in_gap x g) \<longleftrightarrow> x \<notin> fst ` set rows \<and> inside (fst ` set rows) x"
proof (induction rows rule: lag_gaps.induct)
  case (1 p a rest)
  let ?S = "fst ` set (a # rest)"
  have a: "fst p < fst a" "\<forall>y\<in>?S. fst a \<le> y" "\<forall>y\<in>?S. fst p < y"
    using 1(2) by auto
  have first: "(\<exists>g\<in>set (if fst a \<noteq> fst p + 1
      then [\<lparr>ga_from = fst p + 1, ga_to = fst a - 1, ga_prev_ts = snd p, ga_next_ts = snd a\<rparr>] else []). in_gap x g)
      \<longleftrightarrow> fst p < x \<and> x < fst a"
    using a(1) by (auto simp: in_gap_def)
  have IH: "(\<exists>g\<in>set (lag_gaps (a # rest)). in_gap x g) \<longleftrightarrow> x \<notin> ?S \<and> inside ?S x"
    using 1 by simp
  have "inside (insert (fst p) ?S) x \<longleftrightarrow> inside ?S x \<or> (fst p < x \<and> (\<exists>hi\<in>?S. x < hi))"
    using a(3) by (auto simp: inside_def)
  moreover have "fst p < x \<and> x < fst a \<Longrightarrow> x \<notin> insert (fst p) ?S" using a(2) by force
  moreover have "x \<notin> ?S \<Longrightarrow> fst p < x \<Longrightarrow> hi \<in> ?S \<Longrightarrow> x < hi \<Longrightarrow> x < fst a \<or> inside ?S x" for hi
    unfolding inside_def by (metis image_insert insertCI linorder_neqE list.set(2))
  moreover have "x \<notin> ?S \<and> inside ?S x \<Longrightarrow> x \<noteq> fst p" using a(3) by (auto simp: inside_def)
  moreover have "x < fst a \<Longrightarrow> \<exists>hi\<in>?S. x < hi" by auto
  ultimately have "(fst p < x \<and> x < fst a) \<or> (x \<notin> ?S \<and> inside ?S x)
      \<longleftrightarrow> x \<notin> insert (fst p) ?S \<and> inside (insert (fst p) ?S) x"
    by blast
  then show ?case using first IH by (simp only: lag_gaps.simps set_append bex_Un list.set image_insert)
qed (auto simp: inside_def)

text \<open>The gap search finds exactly what is missing: over rows with distinct ids, an id lies in a
  reported gap precisely when no row of the window (with the row before it) has it although
  rows on both sides do; the reported gaps come in the order of the ids.\<close>

theorem agg_gaps_exact:
  assumes "distinct (map fst rows)" and "\<And>rs. rs \<noteq> [] \<Longrightarrow> pick rs \<in> set rs"
  shows "((\<exists>g\<in>set (find_agg_gaps pick start stop rows). in_gap x g) \<longleftrightarrow>
      x \<notin> fst ` set (window_rows pick start stop rows) \<and> inside (fst ` set (window_rows pick start stop rows)) x)
    \<and> sorted (map ga_from (find_agg_gaps pick start stop rows))"
proof -
  let ?w = "filter (in_window start stop) rows" and ?b = "before_window start rows"
  have inj: "inj_on fst (set rows)" using assms(1) by (simp add: distinct_map)
  have "distinct (map fst (?w @ (if ?b = [] then [] else [pick ?b])))"
  proof -
    have w: "distinct (map fst ?w)" using assms(1) by (simp add: distinct_map_filter)
    have "fst (pick ?b) \<notin> fst ` set ?w" if "?b \<noteq> []"
    proof
      assume "fst (pick ?b) \<in> fst ` set ?w"
      moreover have p: "pick ?b \<in> set rows" "snd (pick ?b) < start"
        using assms(2) [OF that] by (auto simp: before_window_def)
      ultimately have "pick ?b \<in> set ?w" using inj by (auto dest: inj_onD)
      then show False using p by (simp add: in_window_def)
    qed
    then show ?thesis using w by simp
  qed
  then have "distinct (map fst (window_rows pick start stop rows))"
    unfolding window_rows_def by (metis distinct_map distinct_sort set_sort)
  moreover have "sorted (map fst (window_rows pick start stop rows))" by (simp add: window_rows_def)
  ultimately have "sorted_wrt (<) (map fst (window_rows pick start stop rows))"
    by (simp add: strict_sorted_iff)
  then show ?thesis using lag_gaps_exact [of "window_rows pick start stop rows" x] by (simp add: find_agg_gaps_def)
qed

text \<open>The row before the window is ambiguous when several trades have the latest time: with the
  wrong one of them, ids that are in the table are reported as missing.\<close>

lemma gap_check_tie:
  "hd [(7, 10), (8, 10)] \<in> set [(7 :: int, 10 :: int), (8, 10)]"
  "find_agg_gaps hd 15 100 [(7, 10), (8, 10), (9, 20)] =
     [\<lparr>ga_from = 8, ga_to = 8, ga_prev_ts = 10, ga_next_ts = 20\<rparr>]"
  "find_agg_gaps last 15 100 [(7, 10), (8, 10), (9, 20)] = []"
  by (simp_all add: find_agg_gaps_def window_rows_def before_window_def in_window_def insort_key_def)

subsection \<open>The recovery loop\<close>

definition the_id :: "agg_msg \<Rightarrow> int" where
  "the_id t = (case tm_a t of Value a \<Rightarrow> a | _ \<Rightarrow> 0)"

text \<open>A trade history as the exchange documents it: every trade readable, ids increasing.\<close>

definition history_ok :: "string \<Rightarrow> agg_msg list \<Rightarrow> bool" where
  "history_ok symbol hist \<longleftrightarrow>
     sorted_wrt (\<lambda>a b. the_id a < the_id b) hist
     \<and> list_all (\<lambda>t. tm_a t = Value (the_id t) \<and> \<not> isl (trade_row (Some symbol) ''rest_backfill'' t)) hist"

definition serves :: "agg_msg list \<Rightarrow> (int \<Rightarrow> fill_error + agg_msg list) \<Rightarrow> bool" where
  "serves hist get \<longleftrightarrow> (\<forall>i. get i = Inr (take 1000 (filter (\<lambda>t. i \<le> the_id t) hist)))"

definition rest_rows :: "string \<Rightarrow> agg_msg list \<Rightarrow> int \<Rightarrow> int \<Rightarrow> trade_cols list" where
  "rest_rows symbol hist lo hi =
     map (\<lambda>t. projr (trade_row (Some symbol) ''rest_backfill'' t)) (filter (\<lambda>t. lo \<le> the_id t \<and> the_id t \<le> hi) hist)"

lemma rows_for_readable:
  "list_all (\<lambda>t. \<not> isl (trade_row (Some symbol) src t)) ts \<Longrightarrow>
   rows_for symbol src ts = Inr (map (\<lambda>t. projr (trade_row (Some symbol) src t)) ts)"
  by (induction ts) (auto simp: bind_sum_def split: sum.split)

lemma read_ids: "list_all (\<lambda>t. tm_a t = Value (the_id t)) ts \<Longrightarrow> read_all (map tm_a ts) = Inr (map the_id ts)"
  by (induction ts) (auto simp: bind_sum_def need_def)

lemma zip_filter: "map snd (filter (\<lambda>(a, t). P a) (zip (map f ts) ts)) = filter (P \<circ> f) ts"
  by (induction ts) simp_all

lemma batch_rows:
  assumes "list_all (\<lambda>t. tm_a t = Value (the_id t) \<and> \<not> isl (trade_row (Some symbol) ''rest_backfill'' t)) B"
  shows "rows_between symbol ''rest_backfill'' lo hi B = Inr (rest_rows symbol B lo hi)"
proof -
  have "read_all (map tm_a B) = Inr (map the_id B)" using assms by (intro read_ids) (simp add: list_all_iff)
  moreover have "list_all (\<lambda>t. \<not> isl (trade_row (Some symbol) ''rest_backfill'' t)) (filter (\<lambda>t. lo \<le> the_id t \<and> the_id t \<le> hi) B)"
    using assms by (simp add: list_all_iff)
  ultimately show ?thesis
    by (simp add: rows_between_def trades_between_def bind_sum_def zip_filter comp_def rows_for_readable rest_rows_def)
qed

lemma take_last_drop:
  assumes "sorted_wrt (\<lambda>a b. f a < f b) ys" "take n ys \<noteq> []"
  shows "filter (\<lambda>y. f (last (take n ys)) + 1 \<le> (f y :: int)) ys = drop n ys"
proof -
  have s: "sorted_wrt (\<lambda>a b. f a < f b) (take n ys @ drop n ys)" using assms(1) by simp
  let ?l = "f (last (take n ys))"
  have hi: "\<forall>y\<in>set (drop n ys). ?l + 1 \<le> f y"
    using s assms(2) by (simp only: sorted_wrt_append) (metis add1_zle_eq last_in_set)
  have lo: "\<forall>y\<in>set (take n ys). f y \<le> ?l"
  proof
    fix y assume y: "y \<in> set (take n ys)"
    have "take n ys = butlast (take n ys) @ [last (take n ys)]" using assms(2) by simp
    moreover have "sorted_wrt (\<lambda>a b. f a < f b) (take n ys)" using s by (simp only: sorted_wrt_append)
    ultimately have "\<forall>z\<in>set (butlast (take n ys)). f z < ?l" by (metis list.set_intros(1) sorted_wrt_append)
    moreover have "y \<in> set (butlast (take n ys)) \<or> y = last (take n ys)"
      using y assms(2) by (metis append_butlast_last_id rotate1.simps(2) set_ConsD set_rotate1)
    ultimately show "f y \<le> ?l" by auto
  qed
  have "filter (\<lambda>y. ?l + 1 \<le> f y) (take n ys @ drop n ys) = drop n ys"
    using hi lo by (simp only: filter_append) (force simp: filter_True filter_empty_conv)
  then show ?thesis by simp
qed

lemma insert_rows_append: "insert_rows (a @ b) db = insert_rows b (insert_rows a db)"
  by (simp add: insert_rows_def)

lemma rest_rows_split:
  assumes "sorted_wrt (\<lambda>a b. the_id a < the_id b) hist" "take 1000 (filter (\<lambda>t. cur \<le> the_id t) hist) = b # bs"
    "cur \<le> the_id (last (b # bs))" "lo \<le> cur"
  shows "rest_rows symbol hist cur hi = rest_rows symbol (b # bs) lo hi @ rest_rows symbol hist (the_id (last (b # bs)) + 1) hi"
proof -
  let ?ys = "filter (\<lambda>t. cur \<le> the_id t) hist" and ?l = "the_id (last (b # bs))"
  have s: "sorted_wrt (\<lambda>a b. the_id a < the_id b) ?ys" using assms(1) by (rule sorted_wrt_filter)
  have "filter (\<lambda>y. ?l + 1 \<le> the_id y) ?ys = drop 1000 ?ys"
    using take_last_drop [OF s, of 1000] unfolding assms(2) by simp
  moreover have "filter (\<lambda>y. ?l + 1 \<le> the_id y) ?ys = filter (\<lambda>y. ?l + 1 \<le> the_id y) hist"
    using assms(3) by (auto intro: filter_cong)
  ultimately have d: "?ys = (b # bs) @ filter (\<lambda>y. ?l + 1 \<le> the_id y) hist"
    using append_take_drop_id [of 1000 ?ys] unfolding assms(2) by simp
  have low: "\<forall>t\<in>set (b # bs). cur \<le> the_id t"
    using set_take_subset [of 1000 ?ys] unfolding assms(2) by auto
  have r: "filter (\<lambda>t. c \<le> the_id t \<and> the_id t \<le> hi) xs = filter (\<lambda>t. the_id t \<le> hi) (filter (\<lambda>t. c \<le> the_id t) xs)" for c xs
    by (simp add: conj_commute)
  have "filter (\<lambda>t. cur \<le> the_id t \<and> the_id t \<le> hi) hist
      = filter (\<lambda>t. the_id t \<le> hi) (b # bs) @ filter (\<lambda>t. the_id t \<le> hi) (filter (\<lambda>y. ?l + 1 \<le> the_id y) hist)"
    unfolding r d by (rule filter_append)
  also have "filter (\<lambda>t. the_id t \<le> hi) (b # bs) = filter (\<lambda>t. lo \<le> the_id t \<and> the_id t \<le> hi) (b # bs)"
    using low assms(4) by (intro filter_cong) auto
  finally show ?thesis by (simp only: rest_rows_def map_append r)
qed

lemma backfill_from:
  assumes "history_ok symbol hist" "serves hist get"
  shows "from_id \<le> cur_id \<Longrightarrow> backfill_rest get symbol from_id to_id cur_id (n, db) =
    (Inr (n + length (rest_rows symbol hist cur_id to_id)), insert_rows (rest_rows symbol hist cur_id to_id) db)"
proof (induction "nat (to_id + 1 - cur_id)" arbitrary: cur_id n db rule: less_induct)
  case less
  have sorted: "sorted_wrt (\<lambda>a b. the_id a < the_id b) hist"
    and all: "list_all (\<lambda>t. tm_a t = Value (the_id t) \<and> \<not> isl (trade_row (Some symbol) ''rest_backfill'' t)) hist"
    using assms(1) by (simp_all add: history_ok_def)
  let ?ys = "filter (\<lambda>t. cur_id \<le> the_id t) hist"
  have get: "get cur_id = Inr (take 1000 ?ys)" using assms(2) by (simp add: serves_def)
  show ?case
  proof (cases "to_id < cur_id")
    case True
    then have "rest_rows symbol hist cur_id to_id = []" by (auto simp: rest_rows_def filter_empty_conv)
    then show ?thesis using True by (simp add: backfill_rest.simps insert_rows_def)
  next
    case False
    show ?thesis
    proof (cases "take 1000 ?ys")
      case Nil
      then have "?ys = []" by simp
      then have "rest_rows symbol hist cur_id to_id = []" by (auto simp: rest_rows_def filter_empty_conv)
      then show ?thesis using False Nil get by (simp add: backfill_rest.simps insert_rows_def)
    next
      case (Cons b bs)
      let ?l = "the_id (last (b # bs))"
      have sub: "set (b # bs) \<subseteq> set ?ys" using set_take_subset [of 1000 ?ys] unfolding Cons .
      have B: "list_all (\<lambda>t. tm_a t = Value (the_id t) \<and> \<not> isl (trade_row (Some symbol) ''rest_backfill'' t)) (b # bs)"
        using all sub by (auto simp: list_all_iff)
      have lst: "last_id (b # bs) = Inr ?l" "cur_id \<le> ?l"
      proof -
        have "last (b # bs) \<in> set (b # bs)" by (rule last_in_set) simp
        then have m: "last (b # bs) \<in> set ?ys" using sub by blast
        then show "last_id (b # bs) = Inr ?l" using all by (simp add: last_id_def need_def list_all_iff split: if_splits)
        show "cur_id \<le> ?l" using m by simp
      qed
      have split: "rest_rows symbol hist cur_id to_id =
          rest_rows symbol (b # bs) from_id to_id @ rest_rows symbol hist (?l + 1) to_id"
        by (rule rest_rows_split [OF sorted Cons lst(2) less.prems])
      let ?rows = "rest_rows symbol (b # bs) from_id to_id"
      have step: "backfill_rest get symbol from_id to_id cur_id (n, db) =
          (if to_id \<le> ?l then (Inr (n + length ?rows), insert_rows ?rows db)
           else backfill_rest get symbol from_id to_id (?l + 1) (n + length ?rows, insert_rows ?rows db))"
        using False lst by (subst backfill_rest.simps) (simp add: get Cons batch_rows [OF B] del: last.simps)
      show ?thesis
      proof (cases "to_id \<le> ?l")
        case True
        then have "rest_rows symbol hist (?l + 1) to_id = []" by (auto simp: rest_rows_def filter_empty_conv)
        then show ?thesis using True step split by simp
      next
        case ff: False
        have "nat (to_id + 1 - (?l + 1)) < nat (to_id + 1 - cur_id)" "from_id \<le> ?l + 1"
          using False lst(2) less.prems by linarith+
        from less.hyps [OF this] ff show ?thesis
          unfolding step split by (simp add: insert_rows_append add.assoc del: last.simps)
      qed
    qed
  qed
qed

text \<open>C30: The recovery of a gap over REST ends and is complete: when the exchange answers each query
  with the next thousand trades of its history, the loop stops after finitely many queries,
  and it has counted and inserted exactly the trades of the history with ids in the gap, in
  their order, however many pages that takes.\<close>

theorem backfill_rest_complete:
  assumes "history_ok symbol hist" and "serves hist get"
  shows "backfill_rest get symbol from_id to_id from_id (0, db) =
    (Inr (length (rest_rows symbol hist from_id to_id)), insert_rows (rest_rows symbol hist from_id to_id) db)"
  using backfill_from [OF assms, of from_id from_id to_id 0 db] by simp

subsection \<open>The jobs\<close>

datatype bf_input = OutageAt real real | DueAt real

fun bf_run :: "bf_input list \<Rightarrow> backfiller \<Rightarrow> (real \<times> real \<times> job_why) list \<times> backfiller" where
  "bf_run [] b = ([], b)"
| "bf_run (OutageAt s e # ins) b = bf_run ins (bf_on_outage s e b)"
| "bf_run (DueAt now # ins) b =
     (case due_jobs now b of (js, b1) \<Rightarrow> (case bf_run ins b1 of (js', b2) \<Rightarrow> (js @ js', b2)))"

fun outages_of :: "bf_input list \<Rightarrow> (real \<times> real) list" where
  "outages_of [] = []"
| "outages_of (OutageAt s e # ins) = (s, e) # outages_of ins"
| "outages_of (DueAt now # ins) = outages_of ins"

definition resumed_jobs :: "(real \<times> real \<times> job_why) list \<Rightarrow> (real \<times> real) list" where
  "resumed_jobs js = map (\<lambda>(s, now, _). (s, now)) (filter (\<lambda>(_, _, why). why = Resumed) js)"

lemma resumed_append [simp]: "resumed_jobs (a @ b) = resumed_jobs a @ resumed_jobs b"
  by (simp add: resumed_jobs_def)

lemma due_resumed:
  "resumed_jobs (fst (due_jobs now b)) = map (\<lambda>(s, _). (s - bf_lead b, now)) (filter (\<lambda>(s, due). due \<le> now) (bf_pending b))"
  by (simp add: due_jobs_def resumed_jobs_def Let_def comp_def case_prod_beta)

lemma due_fields:
  "bf_pending (snd (due_jobs now b)) = filter (\<lambda>(s, due). \<not> due \<le> now) (bf_pending b)"
  "bf_lead (snd (due_jobs now b)) = bf_lead b" "bf_settle (snd (due_jobs now b)) = bf_settle b"
  by (simp_all add: due_jobs_def Let_def)

lemma jobs_balance:
  "\<exists>handled. mset (map (\<lambda>(s, e). (s, e + bf_settle b)) (outages_of ins)) + mset (bf_pending b)
       = mset (map fst handled) + mset (bf_pending (snd (bf_run ins b)))
     \<and> resumed_jobs (fst (bf_run ins b)) = map (\<lambda>((s, due), now). (s - bf_lead b, now)) handled
     \<and> list_all (\<lambda>((s, due), now). due \<le> now) handled"
proof (induction ins b rule: bf_run.induct)
  case (1 b)
  show ?case by (intro exI [of _ "[]"]) (simp add: resumed_jobs_def)
next
  case (2 s e ins b)
  then show ?case by (simp add: bf_on_outage_def)
next
  case (3 now ins b)
  obtain js b1 where d: "due_jobs now b = (js, b1)" by (cases "due_jobs now b")
  obtain js' b2 where r: "bf_run ins b1 = (js', b2)" by (cases "bf_run ins b1")
  have f: "bf_pending b1 = filter (\<lambda>(s, due). \<not> due \<le> now) (bf_pending b)" "bf_lead b1 = bf_lead b" "bf_settle b1 = bf_settle b"
    "resumed_jobs js = map (\<lambda>(s, _). (s - bf_lead b, now)) (filter (\<lambda>(s, due). due \<le> now) (bf_pending b))"
    using due_fields [of now b] due_resumed [of now b] d by simp_all
  obtain h where h: "mset (map (\<lambda>(s, e). (s, e + bf_settle b)) (outages_of ins)) + mset (bf_pending b1)
       = mset (map fst h) + mset (bf_pending b2)"
     "resumed_jobs js' = map (\<lambda>((s, due), now). (s - bf_lead b, now)) h" "list_all (\<lambda>((s, due), now). due \<le> now) h"
    using 3 [OF d [symmetric]] unfolding r f(2) f(3) fst_conv snd_conv by blast
  let ?done = "map (\<lambda>x. (x, now)) (filter (\<lambda>(s, due). due \<le> now) (bf_pending b))"
  have part: "mset (bf_pending b) = mset (filter (\<lambda>(s, due). due \<le> now) (bf_pending b)) + mset (bf_pending b1)"
    unfolding f(1) by (simp add: multiset_partition case_prod_beta)
  have "mset (map (\<lambda>(s, e). (s, e + bf_settle b)) (outages_of ins)) + mset (bf_pending b)
      = mset (map fst (?done @ h)) + mset (bf_pending b2)"
  proof -
    let ?X = "mset (map (\<lambda>(s, e). (s, e + bf_settle b)) (outages_of ins))"
      and ?A = "mset (filter (\<lambda>(s, due). due \<le> now) (bf_pending b))"
    have "map fst ?done = filter (\<lambda>(s, due). due \<le> now) (bf_pending b)" by (simp add: comp_def)
    then have "mset (map fst (?done @ h)) = ?A + mset (map fst h)" by (simp only: map_append mset_append)
    moreover have "?X + (?A + mset (bf_pending b1)) = ?A + (?X + mset (bf_pending b1))" by (rule add.left_commute)
    ultimately show ?thesis unfolding part by (simp only: h(1) add.assoc)
  qed
  moreover have "resumed_jobs (js @ js') = map (\<lambda>((s, due), now). (s - bf_lead b, now)) (?done @ h)"
    by (simp add: f(4) h(2) comp_def case_prod_beta)
  moreover have "list_all (\<lambda>((s, due), now). due \<le> now) (?done @ h)" using h(3) by (auto simp: list_all_iff)
  ultimately show ?case by (intro exI [of _ "?done @ h"]) (simp add: d r)
qed

text \<open>Every recorded outage becomes exactly one recovery job, over any sequence of outages and
  polls: the outages are the ones of the resumption jobs handed out plus the ones pending; a
  job covers its outage from the lead time before it to the poll that handed it out, and that
  poll is not before the settling time has passed.\<close>

theorem backfill_jobs_once:
  "let b0 = backfiller_init settle startup interval hours lead t0; (js, b) = bf_run ins b0
   in \<exists>handled. mset (map (\<lambda>(s, e). (s, e + settle)) (outages_of ins)) = mset (map fst handled) + mset (bf_pending b)
        \<and> resumed_jobs js = map (\<lambda>((s, due), now). (s - lead, now)) handled
        \<and> list_all (\<lambda>((s, due), now). due \<le> now) handled"
proof -
  let ?b0 = "backfiller_init settle startup interval hours lead t0"
  have f: "bf_settle ?b0 = settle" "bf_pending ?b0 = []" "bf_lead ?b0 = lead" by (simp_all add: backfiller_init_def)
  obtain js b where r: "bf_run ins ?b0 = (js, b)" by (cases "bf_run ins ?b0")
  show ?thesis using jobs_balance [of ?b0 ins] unfolding f r Let_def prod.case fst_conv snd_conv by (simp only: mset.simps add_0_right)
qed

text \<open>A history of three trades, served page by page.\<close>

definition example_trade :: "int \<Rightarrow> agg_msg" where
  "example_trade i = \<lparr>tm_T = Value (1000 * i), tm_symbol = None, tm_s = Absent, tm_a = Value i, tm_p = Value 80,
     tm_q = Value 1, tm_f = Value i, tm_l = Value i, tm_m = Value False, tm_E = Absent, tm_recv = Absent\<rparr>"

definition example_history :: "agg_msg list" where
  "example_history = map example_trade [7, 8, 9]"

theorem backfill_rest_complete_witness:
  "backfill_rest (\<lambda>i. Inr (take 1000 (filter (\<lambda>t. i \<le> the_id t) example_history))) ''EWYUSDT'' 8 9 8 (0, [])
     = (Inr 2, rest_rows ''EWYUSDT'' example_history 8 9)"
proof -
  have id: "the_id (example_trade i) = i" for i by (simp add: the_id_def example_trade_def)
  have "\<not> isl (trade_row (Some ''EWYUSDT'') ''rest_backfill'' (example_trade i))" for i
    by (simp add: trade_row_def trade_symbol_def bind_sum_def need_def ts_of_def ts_get_def truth_of_def example_trade_def)
  moreover have "tm_a (example_trade i) = Value i" for i by (simp add: example_trade_def)
  ultimately have h: "history_ok ''EWYUSDT'' example_history" by (simp add: history_ok_def example_history_def id)
  have s: "serves example_history (\<lambda>i. Inr (take 1000 (filter (\<lambda>t. i \<le> the_id t) example_history)))"
    by (simp add: serves_def)
  have n: "length (rest_rows ''EWYUSDT'' example_history 8 9) = 2" by (simp add: rest_rows_def example_history_def id)
  have "insert_rows (rest_rows ''EWYUSDT'' example_history 8 9) [] = rest_rows ''EWYUSDT'' example_history 8 9"
    by (simp add: rest_rows_def example_history_def id insert_rows_def insert_row_def row_key_def trade_row_def
        trade_symbol_def bind_sum_def need_def ts_of_def ts_get_def truth_of_def example_trade_def)
  then show ?thesis using backfill_rest_complete [OF h s, of 8 9 "[]"] n by simp
qed

theorem agg_gaps_exact_witness:
  "\<exists>g\<in>set (find_agg_gaps last 15 100 [(7, 10), (9, 20)]). in_gap 8 g"
  using agg_gaps_exact [of "[(7, 10), (9, 20)]" last 15 100 8]
  by (simp add: window_rows_def before_window_def in_window_def insort_key_def inside_def)

end
