(* ===== verification/Straddle.thy ===== *)
theory Straddle
  imports Autocoin_Prelude Text_Tools
begin

text \<open>
  The straddle replication of \<open>legacy/straddle\<close> with its configuration (\<open>config.py\<close>) and its
  simulated broker (\<open>broker.py\<close>): the Black-Scholes formulas over the error function, the cycle
  engine \<open>StraddleReplicator\<close>, the broker, and the simulation loop of the backtest.  Instants are
  microseconds; the time zone is a pair of conversions (\<open>ast\<close> to local wall time and back).
\<close>

subsection \<open>Configuration\<close>

datatype config_error = AssertionFailed | BadConfigValue

definition drop_space :: "string \<Rightarrow> string" where
  "drop_space s = dropWhile (\<lambda>c. of_char c \<in> {9..13::nat} \<or> of_char c \<in> {28..32::nat}) s"

fun unit_seconds :: "string \<Rightarrow> int option" where
  "unit_seconds u =
     (if u = ''s'' then Some 1 else if u = ''m'' then Some 60 else if u = ''h'' then Some 3600
      else if u = ''d'' then Some 86400 else None)"

definition parse_interval :: "string \<Rightarrow> config_error + int" where
  "parse_interval txt =
     (let s = strip_text (lower_text txt); ds = takeWhile is_digit s
      in case unit_seconds (drop_space (dropWhile is_digit s)) of
           Some u \<Rightarrow> if ds = [] then Inl BadConfigValue else Inr (digits_value ds * u)
         | None \<Rightarrow> Inl BadConfigValue)"

text \<open>A time of day, in minutes.\<close>

definition parse_hhmm :: "string \<Rightarrow> config_error + int" where
  "parse_hhmm txt =
     (let s = strip_text txt; hs = takeWhile is_digit s; rest = dropWhile is_digit s; ms = tl rest
      in if length hs \<in> {1, 2} \<and> take 1 rest = '':'' \<and> length ms = 2 \<and> list_all is_digit ms
         then (let h = digits_value hs; m = digits_value ms
               in if h < 24 \<and> m < 60 then Inr (60 * h + m) else Inl BadConfigValue)
         else Inl BadConfigValue)"

record raw_config =
  rc_strike_time :: string
  rc_expiry_time :: string
  rc_offset_days :: int
  rc_zone_known :: bool
  rc_interval :: string
  rc_bt_interval :: string
  rc_band :: real
  rc_vol_mode :: string
  rc_vol_value :: real
  rc_vol_window :: int
  rc_rate :: real
  rc_contracts :: real
  rc_tau_floor :: real
  rc_taker_bps :: real
  rc_slippage_bps :: real
  rc_mode :: string

text \<open>\<open>Config.validate\<close>, check after check; its result is what the derived properties return.\<close>

record straddle_cfg =
  sc_strike :: int
  sc_expiry :: int
  sc_offset :: int
  sc_rebalance_s :: int

definition check :: "bool \<Rightarrow> config_error + unit" where
  "check b = (if b then Inr () else Inl AssertionFailed)"

fun all_checks :: "(config_error + unit) list \<Rightarrow> config_error + unit" where
  "all_checks [] = Inr ()"
| "all_checks (c # cs) = (case c of Inl e \<Rightarrow> Inl e | Inr _ \<Rightarrow> all_checks cs)"

definition checked :: "config_error + 'a \<Rightarrow> config_error + unit" where
  "checked x = map_sum id (\<lambda>_. ()) x"

definition validate :: "raw_config \<Rightarrow> config_error + straddle_cfg" where
  "validate c =
     (case all_checks
        [check (0 \<le> rc_offset_days c),
         (if rc_offset_days c = 0
          then (case parse_hhmm (rc_expiry_time c) of
                  Inl e \<Rightarrow> Inl e
                | Inr e \<Rightarrow> (case parse_hhmm (rc_strike_time c) of Inl x \<Rightarrow> Inl x | Inr s \<Rightarrow> check (s < e)))
          else Inr ()),
         check (rc_vol_mode c \<in> {''realized'', ''fixed''}), check (0 < rc_vol_value c), check (2 \<le> rc_vol_window c),
         check (0 < rc_contracts c), check (0 < rc_tau_floor c), check (rc_mode c \<in> {''paper'', ''live''}),
         checked (parse_hhmm (rc_strike_time c)), checked (parse_hhmm (rc_expiry_time c)),
         checked (parse_interval (rc_interval c)), checked (parse_interval (rc_bt_interval c)),
         (if rc_zone_known c then Inr () else Inl BadConfigValue)] of
        Inl e \<Rightarrow> Inl e
      | Inr _ \<Rightarrow> Inr \<lparr>sc_strike = projr (parse_hhmm (rc_strike_time c)), sc_expiry = projr (parse_hhmm (rc_expiry_time c)),
          sc_offset = rc_offset_days c, sc_rebalance_s = projr (parse_interval (rc_interval c))\<rparr>)"

subsection \<open>The formulas\<close>

text \<open>\<open>math.erf\<close> as its power series.\<close>

definition erf_term :: "real \<Rightarrow> nat \<Rightarrow> real" where
  "erf_term x n = (- 1) ^ n * x ^ (2 * n + 1) / (fact n * real (2 * n + 1))"

definition erf :: "real \<Rightarrow> real" where
  "erf x = 2 / sqrt pi * (\<Sum>n. erf_term x n)"

definition norm_cdf :: "real \<Rightarrow> real" where
  "norm_cdf x = (1 / 2) * (1 + erf (x / sqrt 2))"

datatype formula_error = NotPositive | NotSet

definition bs_d1 :: "real \<Rightarrow> real \<Rightarrow> real \<Rightarrow> real \<Rightarrow> real \<Rightarrow> formula_error + real" where
  "bs_d1 S K \<tau> \<sigma> r =
     (if \<tau> \<le> 0 \<or> \<sigma> \<le> 0 \<or> S \<le> 0 \<or> K \<le> 0 then Inl NotPositive
      else Inr ((ln (S / K) + (r + (1 / 2) * \<sigma> * \<sigma>) * \<tau>) / (\<sigma> * sqrt \<tau>)))"

definition straddle_delta :: "real \<Rightarrow> real \<Rightarrow> real \<Rightarrow> real \<Rightarrow> real \<Rightarrow> formula_error + real" where
  "straddle_delta S K \<tau> \<sigma> r =
     (if \<tau> \<le> 0 then Inr (if K < S then 1 else if S < K then - 1 else 0)
      else map_sum id (\<lambda>d. 2 * norm_cdf d - 1) (bs_d1 S K \<tau> \<sigma> r))"

definition call_price :: "real \<Rightarrow> real \<Rightarrow> real \<Rightarrow> real \<Rightarrow> real \<Rightarrow> formula_error + real" where
  "call_price S K \<tau> \<sigma> r =
     (if \<tau> \<le> 0 then Inr (max (S - K) 0)
      else map_sum id (\<lambda>d. S * norm_cdf d - K * exp (- r * \<tau>) * norm_cdf (d - \<sigma> * sqrt \<tau>)) (bs_d1 S K \<tau> \<sigma> r))"

definition put_price :: "real \<Rightarrow> real \<Rightarrow> real \<Rightarrow> real \<Rightarrow> real \<Rightarrow> formula_error + real" where
  "put_price S K \<tau> \<sigma> r =
     (if \<tau> \<le> 0 then Inr (max (K - S) 0)
      else map_sum id (\<lambda>d. K * exp (- r * \<tau>) * norm_cdf (- (d - \<sigma> * sqrt \<tau>)) - S * norm_cdf (- d)) (bs_d1 S K \<tau> \<sigma> r))"

definition straddle_price :: "real \<Rightarrow> real \<Rightarrow> real \<Rightarrow> real \<Rightarrow> real \<Rightarrow> formula_error + real" where
  "straddle_price S K \<tau> \<sigma> r =
     (case call_price S K \<tau> \<sigma> r of
        Inl e \<Rightarrow> Inl e
      | Inr c \<Rightarrow> map_sum id (\<lambda>p. c + p) (put_price S K \<tau> \<sigma> r))"

definition straddle_payoff :: "real \<Rightarrow> real \<Rightarrow> real" where
  "straddle_payoff S K = \<bar>S - K\<bar>"

subsection \<open>The engine\<close>

text \<open>What the engine reads of the configuration, and the zone.\<close>

record sr_env =
  se_local :: "int \<Rightarrow> int"
  se_utc :: "int \<Rightarrow> int"
  se_cfg :: straddle_cfg
  se_rate :: real
  se_contracts :: real
  se_floor :: real

record replicator =
  sr_K :: "real option"
  sr_anchor :: "int option"
  sr_expiry :: "int option"
  sr_active :: bool
  sr_last :: "int option"

definition sr_init :: replicator where
  "sr_init = \<lparr>sr_K = None, sr_anchor = None, sr_expiry = None, sr_active = False, sr_last = None\<rparr>"

record decision =
  de_ts :: int
  de_price :: real
  de_active :: bool
  de_new :: bool
  de_settled :: bool
  de_K :: "real option"
  de_tau :: real
  de_sigma :: real
  de_delta :: real
  de_target :: real
  de_rebalance :: bool
  de_prev_K :: "real option"

definition day_us :: int where
  "day_us = 86400000000"

definition minute_us :: int where
  "minute_us = 60000000"

definition active_window :: "sr_env \<Rightarrow> int \<Rightarrow> (int \<times> int) option" where
  "active_window v ts =
     (let l = se_local v ts; c = se_cfg v; day = l div day_us;
          today = day * day_us + sc_strike c * minute_us;
          anchor = (if today \<le> l then today else today - day_us);
          expiry = (anchor div day_us + sc_offset c) * day_us + sc_expiry c * minute_us
      in if anchor \<le> l \<and> l < expiry then Some (se_utc v anchor, se_utc v expiry) else None)"

definition sr_seed :: "int \<Rightarrow> int \<Rightarrow> real \<Rightarrow> replicator \<Rightarrow> replicator" where
  "sr_seed anchor expiry K r =
     r\<lparr>sr_anchor := Some anchor, sr_expiry := Some expiry, sr_K := Some K, sr_active := True, sr_last := None\<rparr>"

definition year_us :: real where
  "year_us = 365 * 24 * 3600 * 1000000"

definition sr_tau :: "sr_env \<Rightarrow> int \<Rightarrow> int \<Rightarrow> real" where
  "sr_tau v ts expiry = max (of_int (expiry - ts) / year_us) (se_floor v)"

definition rebalance_time :: "sr_env \<Rightarrow> int \<Rightarrow> replicator \<Rightarrow> bool" where
  "rebalance_time v ts r =
     (case sr_last r of None \<Rightarrow> True | Some l \<Rightarrow> sc_rebalance_s (se_cfg v) * 1000000 \<le> ts - l)"

text \<open>The end of \<open>step\<close>: the rebalancing flag and the decision.\<close>

definition sr_decide ::
    "sr_env \<Rightarrow> int \<Rightarrow> real \<Rightarrow> real \<Rightarrow> bool \<Rightarrow> bool \<Rightarrow> real option \<Rightarrow> real \<Rightarrow> real \<Rightarrow> real \<Rightarrow> replicator \<Rightarrow> decision \<times> replicator" where
  "sr_decide v ts price \<sigma> new settled prev \<tau> delta target r =
     (let reb = new \<or> settled \<or> (sr_active r \<and> rebalance_time v ts r);
          r1 = (if reb \<and> sr_active r then r\<lparr>sr_last := Some ts\<rparr> else r)
      in (\<lparr>de_ts = ts, de_price = price, de_active = sr_active r1, de_new = new, de_settled = settled,
           de_K = (if sr_active r1 then sr_K r1 else None), de_tau = \<tau>, de_sigma = \<sigma>, de_delta = delta,
           de_target = target, de_rebalance = reb, de_prev_K = prev\<rparr>, r1))"

text \<open>Delta and target against the current strike, or the error of the formulas.\<close>

definition sr_hold ::
    "sr_env \<Rightarrow> int \<Rightarrow> real \<Rightarrow> real \<Rightarrow> bool \<Rightarrow> bool \<Rightarrow> real option \<Rightarrow> replicator
     \<Rightarrow> (formula_error + decision) \<times> replicator" where
  "sr_hold v ts price \<sigma> new settled prev r =
     (case (sr_expiry r, sr_K r) of
        (Some expiry, Some K) \<Rightarrow>
          (let \<tau> = sr_tau v ts expiry
           in case straddle_delta price K \<tau> \<sigma> (se_rate v) of
                Inl e \<Rightarrow> (Inl e, r)
              | Inr d \<Rightarrow> apfst Inr (sr_decide v ts price \<sigma> new settled prev \<tau> d (d * se_contracts v) r))
      | _ \<Rightarrow> (Inl NotSet, r))"

text \<open>A window that starts before the last expiry would overlap the cycle that just ended.\<close>

definition free_window :: "sr_env \<Rightarrow> int \<Rightarrow> replicator \<Rightarrow> (int \<times> int) option" where
  "free_window v ts r =
     (case active_window v ts of
        None \<Rightarrow> None
      | Some (anchor, expiry) \<Rightarrow>
          (case sr_expiry r of Some x \<Rightarrow> if anchor < x then None else Some (anchor, expiry) | None \<Rightarrow> Some (anchor, expiry)))"

definition sr_enter :: "sr_env \<Rightarrow> int \<Rightarrow> real \<Rightarrow> real \<Rightarrow> bool \<Rightarrow> real option \<Rightarrow> replicator
     \<Rightarrow> (formula_error + decision) \<times> replicator" where
  "sr_enter v ts price \<sigma> settled prev r =
     (case free_window v ts r of
        None \<Rightarrow> apfst Inr (sr_decide v ts price \<sigma> False settled prev 0 0 0 r)
      | Some (anchor, expiry) \<Rightarrow>
          if sr_anchor r \<noteq> Some anchor
          then sr_hold v ts price \<sigma> True (settled \<or> sr_active r) (if sr_active r then sr_K r else prev)
                 \<lparr>sr_K = Some price, sr_anchor = Some anchor, sr_expiry = Some expiry, sr_active = True, sr_last = Some ts\<rparr>
          else sr_hold v ts price \<sigma> False settled prev r)"

definition sr_step :: "sr_env \<Rightarrow> int \<Rightarrow> real \<Rightarrow> real \<Rightarrow> replicator \<Rightarrow> (formula_error + decision) \<times> replicator" where
  "sr_step v ts price \<sigma> r =
     (case (if sr_active r then sr_expiry r else None) of
        Some x \<Rightarrow>
          if ts < x then sr_hold v ts price \<sigma> False False None r
          else sr_enter v ts price \<sigma> True (sr_K r) (r\<lparr>sr_active := False\<rparr>)
      | None \<Rightarrow> sr_enter v ts price \<sigma> False None r)"

definition entry_premium :: "sr_env \<Rightarrow> real \<Rightarrow> real \<Rightarrow> replicator \<Rightarrow> formula_error + real" where
  "entry_premium v S \<sigma> r =
     (case (sr_K r, sr_expiry r, sr_anchor r) of
        (Some K, Some expiry, Some anchor) \<Rightarrow>
          map_sum id (\<lambda>p. p * se_contracts v) (straddle_price S K (sr_tau v anchor expiry) \<sigma> (se_rate v))
      | _ \<Rightarrow> Inl NotSet)"

subsection \<open>The simulated broker\<close>

datatype trade_why = Reset | Settle | Rebal

record legacy_trade =
  lt_ts :: int
  lt_qty :: real
  lt_price :: real
  lt_fee :: real
  lt_reason :: trade_why

record sim_broker =
  br_taker_bps :: real
  br_slip_bps :: real
  br_step :: real
  br_min_qty :: real
  br_min_notional :: real
  br_position :: real
  br_cash :: real
  br_fees :: real
  br_trades :: "legacy_trade list"

definition broker_init :: "real \<Rightarrow> real \<Rightarrow> sim_broker" where
  "broker_init taker slip =
     \<lparr>br_taker_bps = taker, br_slip_bps = slip, br_step = 1 / 100, br_min_qty = 1 / 100, br_min_notional = 5,
      br_position = 0, br_cash = 0, br_fees = 0, br_trades = []\<rparr>"

definition round_qty :: "sim_broker \<Rightarrow> real \<Rightarrow> real" where
  "round_qty b q = of_int (py_round (q / br_step b)) * br_step b"

definition rebalance_to ::
    "int \<Rightarrow> real \<Rightarrow> real \<Rightarrow> real \<Rightarrow> trade_why \<Rightarrow> sim_broker \<Rightarrow> legacy_trade option \<times> sim_broker" where
  "rebalance_to ts target px band why b =
     (let d = round_qty b (target - br_position b)
      in if \<bar>d\<bar> < br_min_qty b then (None, b)
         else if \<bar>target - br_position b\<bar> \<le> band then (None, b)
         else if \<bar>d * px\<bar> < br_min_notional b then (None, b)
         else
           (let sd = (if 0 < d then 1 else - 1);
                fill = px * (1 + sd * br_slip_bps b / 10000);
                fee = \<bar>d\<bar> * fill * br_taker_bps b / 10000;
                t = \<lparr>lt_ts = ts, lt_qty = d, lt_price = fill, lt_fee = fee, lt_reason = why\<rparr>
            in (Some t, b\<lparr>br_cash := br_cash b - d * fill - fee, br_fees := br_fees b + fee,
                  br_position := br_position b + d, br_trades := br_trades b @ [t]\<rparr>)))"

definition br_equity :: "sim_broker \<Rightarrow> real \<Rightarrow> real" where
  "br_equity b mark = br_position b * mark + br_cash b"

subsection \<open>The simulation\<close>

text \<open>The volatility of the last full day before \<open>ts\<close>; \<open>None\<close> is NaN.\<close>

definition sigma_lookup :: "string \<Rightarrow> real \<Rightarrow> (int \<times> real option) list \<Rightarrow> int \<Rightarrow> real" where
  "sigma_lookup mode value series ts =
     (if mode = ''fixed'' then value
      else (let prior = filter (\<lambda>(d, _). d < ts div day_us * day_us) series
            in if prior = [] then value else case snd (last prior) of Some x \<Rightarrow> x | None \<Rightarrow> value))"

record open_cycle =
  oc_anchor :: "int option"
  oc_K :: "real option"
  oc_premium :: real
  oc_equity :: real

record cycle_result =
  cy_anchor :: "int option"
  cy_K :: "real option"
  cy_S :: real
  cy_premium :: real
  cy_payoff :: real
  cy_opt_pnl :: real
  cy_repl_pnl :: real

record sim_record =
  rd_decision :: decision
  rd_position :: real
  rd_equity :: real
  rd_theo :: real

record sim =
  sm_engine :: replicator
  sm_broker :: sim_broker
  sm_cur :: "open_cycle option"
  sm_theo :: real
  sm_cycles :: "cycle_result list"
  sm_records :: "sim_record list"

definition or_strike :: "real option \<Rightarrow> real" where
  "or_strike k = (case k of Some x \<Rightarrow> x | None \<Rightarrow> 0)"

definition settle_cycle :: "sr_env \<Rightarrow> real \<Rightarrow> decision \<Rightarrow> sim \<Rightarrow> sim" where
  "settle_cycle v price d s =
     (case sm_cur s of
        Some c \<Rightarrow>
          if de_settled d
          then (let payoff = \<bar>price - or_strike (oc_K c)\<bar> * se_contracts v; opt = payoff - oc_premium c
                in s\<lparr>sm_theo := sm_theo s + opt, sm_cur := None,
                     sm_cycles := sm_cycles s @ [\<lparr>cy_anchor = oc_anchor c, cy_K = oc_K c, cy_S = price,
                       cy_premium = oc_premium c, cy_payoff = payoff, cy_opt_pnl = opt,
                       cy_repl_pnl = br_equity (sm_broker s) price - oc_equity c\<rparr>]\<rparr>)
          else s
      | None \<Rightarrow> s)"

definition start_cycle :: "sr_env \<Rightarrow> real \<Rightarrow> real \<Rightarrow> decision \<Rightarrow> sim \<Rightarrow> formula_error + sim" where
  "start_cycle v price \<sigma> d s =
     (if de_new d
      then map_sum id (\<lambda>p. s\<lparr>sm_cur := Some \<lparr>oc_anchor = sr_anchor (sm_engine s), oc_K = sr_K (sm_engine s), oc_premium = p,
             oc_equity = br_equity (sm_broker s) price\<rparr>\<rparr>) (entry_premium v price \<sigma> (sm_engine s))
      else Inr s)"

definition follow_target :: "real \<Rightarrow> int \<Rightarrow> real \<Rightarrow> decision \<Rightarrow> sim \<Rightarrow> sim" where
  "follow_target band ts price d s =
     (if de_rebalance d
      then s\<lparr>sm_broker := snd (rebalance_to ts (de_target d) price band
             (if de_new d then Reset else if de_settled d then Settle else Rebal) (sm_broker s))\<rparr>
      else s)"

definition record_tick :: "sr_env \<Rightarrow> real \<Rightarrow> decision \<Rightarrow> sim \<Rightarrow> sim" where
  "record_tick v price d s =
     (let unreal = (case sm_cur s of
            Some c \<Rightarrow> if de_active d then \<bar>price - or_strike (oc_K c)\<bar> * se_contracts v - oc_premium c else 0
          | None \<Rightarrow> 0)
      in s\<lparr>sm_records := sm_records s @ [\<lparr>rd_decision = d, rd_position = br_position (sm_broker s),
           rd_equity = br_equity (sm_broker s) price, rd_theo = sm_theo s + unreal\<rparr>]\<rparr>)"

text \<open>One bar: time, close and the volatility in force.\<close>

definition sim_tick :: "sr_env \<Rightarrow> real \<Rightarrow> int \<times> real \<times> real \<Rightarrow> sim \<Rightarrow> formula_error + sim" where
  "sim_tick v band tick s =
     (case tick of (ts, price, \<sigma>) \<Rightarrow>
        (case sr_step v ts price \<sigma> (sm_engine s) of
           (Inl e, _) \<Rightarrow> Inl e
         | (Inr d, r) \<Rightarrow>
             (case start_cycle v price \<sigma> d (settle_cycle v price d (s\<lparr>sm_engine := r\<rparr>)) of
                Inl e \<Rightarrow> Inl e
              | Inr s1 \<Rightarrow> Inr (record_tick v price d (follow_target band ts price d s1)))))"

fun sim_run :: "sr_env \<Rightarrow> real \<Rightarrow> (int \<times> real \<times> real) list \<Rightarrow> sim \<Rightarrow> formula_error + sim" where
  "sim_run v band [] s = Inr s"
| "sim_run v band (t # ts) s = (case sim_tick v band t s of Inl e \<Rightarrow> Inl e | Inr s1 \<Rightarrow> sim_run v band ts s1)"

definition sim_start :: "real \<Rightarrow> real \<Rightarrow> sim" where
  "sim_start taker slip =
     \<lparr>sm_engine = sr_init, sm_broker = broker_init taker slip, sm_cur = None, sm_theo = 0, sm_cycles = [], sm_records = []\<rparr>"

definition simulate ::
    "sr_env \<Rightarrow> real \<Rightarrow> real \<Rightarrow> real \<Rightarrow> string \<Rightarrow> real \<Rightarrow> (int \<times> real option) list \<Rightarrow> (int \<times> real) list
     \<Rightarrow> formula_error + sim" where
  "simulate v band taker slip mode value series bars =
     sim_run v band (map (\<lambda>(ts, px). (ts, px, sigma_lookup mode value series ts)) bars) (sim_start taker slip)"

end
