(* ===== verification/Straddle_Correct.thy ===== *)
theory Straddle_Correct
  imports Straddle
begin

text \<open>
  The straddle replication: put-call parity of the formulas as coded, the life of the cycles, and
  what the rebalancing band does to the position at the end of a cycle.
\<close>

subsection \<open>The error function\<close>

lemma erf_term_minus: "erf_term (- x) n = - erf_term x n"
  by (simp add: erf_term_def)

lemma erf_term_bound: "\<bar>erf_term x n\<bar> \<le> \<bar>x\<bar> * ((x\<^sup>2) ^ n / fact n)"
proof -
  have "\<bar>erf_term x n\<bar> = \<bar>x\<bar> * (x\<^sup>2) ^ n / (fact n * real (2 * n + 1))"
    by (simp add: erf_term_def abs_mult power_abs power_mult [symmetric] power_even_abs flip: power_mult)
  also have "\<dots> \<le> \<bar>x\<bar> * (x\<^sup>2) ^ n / (fact n * 1)"
    by (intro divide_left_mono mult_left_mono mult_pos_pos) simp_all
  finally show ?thesis by simp
qed

lemma erf_summable: "summable (erf_term x)"
proof (rule summable_comparison_test')
  show "summable (\<lambda>n. \<bar>x\<bar> * ((x\<^sup>2) ^ n / fact n))"
    using summable_exp [of "x\<^sup>2"] by (intro summable_mult) (simp add: divide_inverse mult.commute)
  show "norm (erf_term x n) \<le> \<bar>x\<bar> * ((x\<^sup>2) ^ n / fact n)" if "n \<ge> 0" for n
    using erf_term_bound [of x n] by simp
qed

lemma erf_minus: "erf (- x) = - erf x"
  using suminf_minus [OF erf_summable, of x] by (simp add: erf_def erf_term_minus)

lemma norm_cdf_minus: "norm_cdf (- x) = 1 - norm_cdf x"
  by (simp add: norm_cdf_def erf_minus field_simps)

text \<open>Put-call parity of the formulas as coded: for every input the put price is the call price
  less the asset plus the discounted strike (both refuse the same inputs), also at and after
  the expiry, where both fall back to their payoffs.\<close>

theorem put_call_parity:
  "put_price S K \<tau> \<sigma> r = map_sum id (\<lambda>c. c - S + K * (if \<tau> \<le> 0 then 1 else exp (- r * \<tau>))) (call_price S K \<tau> \<sigma> r)"
proof (cases "\<tau> \<le> 0")
  case True
  then show ?thesis by (simp add: put_price_def call_price_def max_def)
next
  case False
  show ?thesis
  proof (cases "bs_d1 S K \<tau> \<sigma> r")
    case (Inr d)
    then show ?thesis
      using False by (simp add: put_price_def call_price_def norm_cdf_minus algebra_simps del: minus_diff_eq)
  qed (use False in \<open>simp add: put_price_def call_price_def\<close>)
qed

subsection \<open>Cycles\<close>

definition fixed_zone :: "int \<Rightarrow> sr_env \<Rightarrow> bool" where
  "fixed_zone off v \<longleftrightarrow> (\<forall>t. se_local v t = t + off) \<and> (\<forall>t. se_utc v t = t - off)"

definition no_cycle :: "replicator \<Rightarrow> bool" where
  "no_cycle r \<longleftrightarrow> \<not> sr_active r \<and> sr_anchor r = None \<and> sr_expiry r = None \<and> sr_K r = None"

definition in_cycle :: "int \<Rightarrow> int \<Rightarrow> real \<Rightarrow> replicator \<Rightarrow> bool" where
  "in_cycle a e K r \<longleftrightarrow> a < e \<and> sr_anchor r = Some a \<and> sr_expiry r = Some e \<and> sr_K r = Some K"

definition rep_ok :: "replicator \<Rightarrow> bool" where
  "rep_ok r \<longleftrightarrow> no_cycle r \<or> (\<exists>a e K. in_cycle a e K r)"

definition same_cycle :: "replicator \<Rightarrow> replicator \<Rightarrow> bool" where
  "same_cycle r r1 \<longleftrightarrow> sr_anchor r1 = sr_anchor r \<and> sr_expiry r1 = sr_expiry r \<and> sr_K r1 = sr_K r"

lemma window_in:
  assumes "fixed_zone off v" "active_window v ts = Some (a, e)" shows "a \<le> ts \<and> ts < e"
  using assms by (simp add: active_window_def fixed_zone_def Let_def split: if_splits)

text \<open>What a decision says against the state it leaves.\<close>

definition decided :: "int \<Rightarrow> replicator \<Rightarrow> decision \<Rightarrow> bool" where
  "decided ts r d \<longleftrightarrow>
     de_ts d = ts \<and> de_active d = sr_active r
     \<and> (if sr_active r then (\<exists>a e K. in_cycle a e K r \<and> ts < e \<and> de_K d = Some K) else de_K d = None \<and> de_target d = 0)"

definition result_ok :: "int \<Rightarrow> (formula_error + decision) \<times> replicator \<Rightarrow> bool" where
  "result_ok ts x \<longleftrightarrow> (case fst x of Inl _ \<Rightarrow> True | Inr d \<Rightarrow> decided ts (snd x) d)"

lemma decide_keeps:
  "sr_decide v ts price \<sigma> new settled prev \<tau> dl target r = (d, r1) \<Longrightarrow>
   same_cycle r r1 \<and> sr_active r1 = sr_active r \<and> de_active d = sr_active r \<and> de_ts d = ts \<and> de_target d = target
   \<and> de_K d = (if sr_active r then sr_K r else None)"
  by (auto simp: sr_decide_def same_cycle_def Let_def)

lemma hold_ok:
  assumes "in_cycle a e K r" "sr_active r" "ts < e"
  shows "same_cycle r (snd (sr_hold v ts price \<sigma> new settled prev r)) \<and> sr_active (snd (sr_hold v ts price \<sigma> new settled prev r))
    \<and> result_ok ts (sr_hold v ts price \<sigma> new settled prev r)"
proof (cases "straddle_delta price K (sr_tau v ts e) \<sigma> (se_rate v)")
  case (Inl x)
  then show ?thesis using assms by (simp add: sr_hold_def in_cycle_def same_cycle_def result_ok_def Let_def)
next
  case (Inr dl)
  obtain d r2 where dec: "sr_decide v ts price \<sigma> new settled prev (sr_tau v ts e) dl (dl * se_contracts v) r = (d, r2)"
    by (cases "sr_decide v ts price \<sigma> new settled prev (sr_tau v ts e) dl (dl * se_contracts v) r")
  have h: "sr_hold v ts price \<sigma> new settled prev r = (Inr d, r2)"
    using assms(1) Inr dec by (simp add: sr_hold_def in_cycle_def Let_def)
  have k: "in_cycle a e K r2" using decide_keeps [OF dec] assms(1) by (simp add: in_cycle_def same_cycle_def)
  have "decided ts r2 d"
    unfolding decided_def using decide_keeps [OF dec] assms(1,2,3) k by (auto simp: in_cycle_def)
  then show ?thesis using decide_keeps [OF dec] assms(2) by (simp add: h result_ok_def)
qed

lemma idle_ok:
  assumes "\<not> sr_active r" "x = apfst Inr (sr_decide v ts price \<sigma> False settled prev 0 0 0 r)"
  shows "same_cycle r (snd x) \<and> \<not> sr_active (snd x) \<and> result_ok ts x"
proof -
  obtain d r2 where dec: "sr_decide v ts price \<sigma> False settled prev 0 0 0 r = (d, r2)"
    by (cases "sr_decide v ts price \<sigma> False settled prev 0 0 0 r")
  then show ?thesis using decide_keeps [OF dec] assms by (simp add: result_ok_def decided_def)
qed

text \<open>A step ends with the same cycle or with a later one, opened at this tick and price.\<close>

definition moves :: "int \<Rightarrow> real \<Rightarrow> replicator \<Rightarrow> replicator \<Rightarrow> bool" where
  "moves ts price r r1 \<longleftrightarrow>
     (same_cycle r r1 \<and> (sr_active r1 \<longrightarrow> sr_active r))
     \<or> (\<exists>a e. in_cycle a e price r1 \<and> a \<le> ts \<and> ts < e \<and> (\<forall>x. sr_expiry r = Some x \<longrightarrow> x \<le> a))"

lemma rep_ok_moves: "rep_ok r \<Longrightarrow> moves ts price r r1 \<Longrightarrow> rep_ok r1"
  by (auto simp: rep_ok_def moves_def same_cycle_def no_cycle_def in_cycle_def)

lemma enter_moves:
  assumes "fixed_zone off v" "rep_ok r" "\<not> sr_active r"
  shows "moves ts price r (snd (sr_enter v ts price \<sigma> settled prev r)) \<and> result_ok ts (sr_enter v ts price \<sigma> settled prev r)"
proof (cases "free_window v ts r")
  case None
  then show ?thesis using idle_ok [OF assms(3) refl] by (simp add: sr_enter_def moves_def)
next
  case (Some w)
  obtain a e where w: "w = (a, e)" by (cases w)
  have aw: "active_window v ts = Some (a, e)" "\<forall>x. sr_expiry r = Some x \<longrightarrow> x \<le> a"
    using Some w by (auto simp: free_window_def split: option.splits if_splits)
  have t: "a \<le> ts" "ts < e" using window_in [OF assms(1) aw(1)] by simp_all
  have new: "sr_anchor r \<noteq> Some a"
    using assms(2) aw(2) by (auto simp: rep_ok_def no_cycle_def in_cycle_def)
  let ?r0 = "\<lparr>sr_K = Some price, sr_anchor = Some a, sr_expiry = Some e, sr_active = True, sr_last = Some ts\<rparr>"
  have h: "sr_enter v ts price \<sigma> settled prev r = sr_hold v ts price \<sigma> True settled prev ?r0"
    using assms(3) Some w new by (simp add: sr_enter_def)
  have c: "in_cycle a e price ?r0" using t by (simp add: in_cycle_def)
  have "same_cycle ?r0 (snd (sr_hold v ts price \<sigma> True settled prev ?r0))"
    "result_ok ts (sr_hold v ts price \<sigma> True settled prev ?r0)"
    using hold_ok [OF c _ t(2)] by simp_all
  then show ?thesis unfolding h moves_def using c t aw(2) by (auto simp: in_cycle_def same_cycle_def)
qed

lemma step_moves:
  assumes "fixed_zone off v" "rep_ok r"
  shows "moves ts price r (snd (sr_step v ts price \<sigma> r)) \<and> result_ok ts (sr_step v ts price \<sigma> r)"
proof (cases "sr_active r")
  case False
  then show ?thesis using enter_moves [OF assms] by (simp add: sr_step_def)
next
  case True
  then obtain a e K where c: "in_cycle a e K r" using assms(2) by (auto simp: rep_ok_def no_cycle_def)
  then have e: "sr_expiry r = Some e" by (simp add: in_cycle_def)
  show ?thesis
  proof (cases "ts < e")
    case lt: True
    then show ?thesis using hold_ok [OF c True lt] True e by (simp add: sr_step_def moves_def)
  next
    case False
    let ?r = "r\<lparr>sr_active := False\<rparr>"
    have "rep_ok ?r" using c by (auto simp: rep_ok_def in_cycle_def)
    from enter_moves [OF assms(1) this, of ts price \<sigma> True "sr_K r"]
    have "moves ts price ?r (snd (sr_step v ts price \<sigma> r)) \<and> result_ok ts (sr_step v ts price \<sigma> r)"
      using True e False by (simp add: sr_step_def)
    then show ?thesis by (auto simp: moves_def same_cycle_def)
  qed
qed

fun sr_trace :: "sr_env \<Rightarrow> (int \<times> real \<times> real) list \<Rightarrow> replicator \<Rightarrow> ((formula_error + decision) \<times> replicator) list" where
  "sr_trace v [] r = []"
| "sr_trace v ((ts, p, \<sigma>) # ticks) r = sr_step v ts p \<sigma> r # sr_trace v ticks (snd (sr_step v ts p \<sigma> r))"

definition cycle_of :: "replicator \<Rightarrow> (int \<times> int \<times> real) list" where
  "cycle_of r = (case (sr_anchor r, sr_expiry r, sr_K r) of (Some a, Some e, Some K) \<Rightarrow> [(a, e, K)] | _ \<Rightarrow> [])"

definition trace_cycles :: "((formula_error + decision) \<times> replicator) list \<Rightarrow> (int \<times> int \<times> real) list" where
  "trace_cycles tr = concat (map (cycle_of \<circ> snd) tr)"

text \<open>The same cycle, or one that starts when the other has expired.\<close>

definition then_cycle :: "int \<times> int \<times> real \<Rightarrow> int \<times> int \<times> real \<Rightarrow> bool" where
  "then_cycle c c' \<longleftrightarrow> c' = c \<or> fst (snd c) \<le> fst c'"

text \<open>A cycle opened by one of the ticks, inside its window and at its price.\<close>

definition opened_by :: "(int \<times> real \<times> real) list \<Rightarrow> int \<times> int \<times> real \<Rightarrow> bool" where
  "opened_by ticks c = list_ex (\<lambda>(ts, p, _). fst c \<le> ts \<and> ts < fst (snd c) \<and> p = snd (snd c)) ticks"

lemma cycle_cases: "rep_ok r \<Longrightarrow> cycle_of r = [] \<and> no_cycle r \<or> (\<exists>a e K. cycle_of r = [(a, e, K)] \<and> in_cycle a e K r)"
  by (auto simp: rep_ok_def cycle_of_def no_cycle_def in_cycle_def)

lemma cycle_moves:
  assumes "moves ts price r r1" "rep_ok r"
  shows "cycle_of r1 = cycle_of r \<or> (\<exists>a e. cycle_of r1 = [(a, e, price)] \<and> a \<le> ts \<and> ts < e \<and> list_all (\<lambda>c. fst (snd c) \<le> a) (cycle_of r))"
  using assms by (auto simp: moves_def cycle_of_def same_cycle_def in_cycle_def split: option.split)

lemma then_trans: "fst c' < fst (snd c') \<Longrightarrow> then_cycle c c' \<Longrightarrow> then_cycle c' d \<Longrightarrow> then_cycle c d"
  by (auto simp: then_cycle_def)

definition cycles_ok :: "(int \<times> int \<times> real) list \<Rightarrow> (int \<times> real \<times> real) list \<Rightarrow> (int \<times> int \<times> real) list \<Rightarrow> bool" where
  "cycles_ok cur ticks cs \<longleftrightarrow>
     sorted_wrt then_cycle cs \<and> list_all (\<lambda>d. list_all (\<lambda>c. then_cycle c d) cur) cs
     \<and> list_all (\<lambda>d. d \<in> set cur \<or> opened_by ticks d) cs \<and> list_all (\<lambda>d. fst d < fst (snd d)) cs"

lemma cycles_ok_step:
  assumes "moves ts price r r1" "rep_ok r" "cycles_ok (cycle_of r1) ticks cs"
  shows "cycles_ok (cycle_of r) ((ts, price, \<sigma>) # ticks) (cycle_of r1 @ cs)"
proof -
  have r1: "rep_ok r1" by (rule rep_ok_moves [OF assms(2,1)])
  have later: "opened_by ((ts, price, \<sigma>) # ticks) d" if "opened_by ticks d" for d
    using that by (simp add: opened_by_def)
  show ?thesis
  proof (cases "cycle_of r1 = []")
    case True
    then have "cycle_of r = []" using cycle_moves [OF assms(1,2)] by auto
    then show ?thesis using assms(3) True later by (auto simp: cycles_ok_def list_all_iff)
  next
    case False
    then obtain a e K where c1: "cycle_of r1 = [(a, e, K)]" "a < e"
      using cycle_cases [OF r1] by (auto simp: in_cycle_def)
    have first: "(a, e, K) \<in> set (cycle_of r) \<or> opened_by ((ts, price, \<sigma>) # ticks) (a, e, K)"
      "list_all (\<lambda>c. then_cycle c (a, e, K)) (cycle_of r)"
      using cycle_moves [OF assms(1,2)] cycle_cases [OF assms(2)] c1(1)
      by (auto simp: opened_by_def then_cycle_def list_all_iff)
    have all: "\<forall>d\<in>set cs. then_cycle (a, e, K) d" using assms(3) c1(1) by (auto simp: cycles_ok_def list_all_iff)
    have "list_all (\<lambda>d. list_all (\<lambda>c. then_cycle c d) (cycle_of r)) cs"
      using first(2) all c1(2) then_trans [of "(a, e, K)"] by (auto simp: list_all_iff)
    moreover have "list_all (\<lambda>d. d \<in> set (cycle_of r) \<or> opened_by ((ts, price, \<sigma>) # ticks) d) cs"
      using assms(3) first(1) later c1(1) by (auto simp: cycles_ok_def list_all_iff)
    ultimately show ?thesis
      using assms(3) first all c1 by (simp add: cycles_ok_def list_all_iff)
  qed
qed

lemma trace_ok:
  assumes "fixed_zone off v"
  shows "rep_ok r \<Longrightarrow> cycles_ok (cycle_of r) ticks (trace_cycles (sr_trace v ticks r))
    \<and> list_all2 (\<lambda>t x. result_ok (fst t) x) ticks (sr_trace v ticks r)"
proof (induction ticks arbitrary: r)
  case Nil
  then show ?case by (simp add: trace_cycles_def cycles_ok_def)
next
  case (Cons t ticks)
  obtain ts p \<sigma> where t: "t = (ts, p, \<sigma>)" by (cases t)
  have m: "moves ts p r (snd (sr_step v ts p \<sigma> r))" "result_ok ts (sr_step v ts p \<sigma> r)"
    using step_moves [OF assms Cons.prems] by simp_all
  have r1: "rep_ok (snd (sr_step v ts p \<sigma> r))" by (rule rep_ok_moves [OF Cons.prems m(1)])
  show ?case
    using cycles_ok_step [OF m(1) Cons.prems, of ticks _ \<sigma>] Cons.IH [OF r1] m(2)
    by (simp add: t trace_cycles_def)
qed

text \<open>C31: The life of the cycles, over any ticks in a zone of fixed offset: a cycle starts at a tick
  inside its window, its strike is the price of that tick, no two cycles overlap (the later
  one never starts before the expiry of the earlier), and every decision is either active,
  before the expiry of the current cycle and with its strike, or flat with target zero.\<close>

theorem straddle_cycles:
  assumes "fixed_zone off v"
  shows "let tr = sr_trace v ticks sr_init
    in sorted_wrt then_cycle (trace_cycles tr) \<and> list_all (opened_by ticks) (trace_cycles tr)
       \<and> list_all2 (\<lambda>t x. result_ok (fst t) x) ticks tr"
proof -
  have "rep_ok sr_init" "cycle_of sr_init = []" by (simp_all add: rep_ok_def no_cycle_def sr_init_def cycle_of_def)
  from trace_ok [OF assms this(1), of ticks] this(2) show ?thesis by (simp add: cycles_ok_def Let_def)
qed

text \<open>Korea standard time, 08:00 to 15:30 on the same day; a tick an hour after the start.\<close>

definition kst_cfg :: straddle_cfg where
  "kst_cfg = \<lparr>sc_strike = 480, sc_expiry = 930, sc_offset = 0, sc_rebalance_s = 300\<rparr>"

definition kst_env :: sr_env where
  "kst_env = \<lparr>se_local = (\<lambda>t. t + 32400000000), se_utc = (\<lambda>t. t - 32400000000), se_cfg = kst_cfg,
     se_rate = 0, se_contracts = 1, se_floor = 1 / 8760\<rparr>"

lemma kst_validate:
  "validate \<lparr>rc_strike_time = ''08:00'', rc_expiry_time = ''15:30'', rc_offset_days = 0, rc_zone_known = True,
     rc_interval = ''5m'', rc_bt_interval = ''1m'', rc_band = 0, rc_vol_mode = ''realized'', rc_vol_value = 3 / 5,
     rc_vol_window = 20, rc_rate = 0, rc_contracts = 1, rc_tau_floor = 1 / 8760, rc_taker_bps = 5, rc_slippage_bps = 1,
     rc_mode = ''paper''\<rparr> = Inr kst_cfg"
proof -
  have "parse_hhmm ''08:00'' = Inr 480" "parse_hhmm ''15:30'' = Inr 930" "parse_interval ''5m'' = Inr 300"
    "parse_interval ''1m'' = Inr 60" by code_simp+
  then show ?thesis by (simp add: validate_def check_def checked_def kst_cfg_def)
qed

theorem straddle_cycles_witness:
  "let tr = sr_trace kst_env [(0, 100, 1 / 2), (3600000000, 110, 1 / 2)] sr_init
   in sorted_wrt then_cycle (trace_cycles tr) \<and> trace_cycles tr \<noteq> []"
proof -
  let ?ticks = "[(0, 100, 1 / 2), (3600000000, 110, 1 / 2)] :: (int \<times> real \<times> real) list"
  have z: "fixed_zone 32400000000 kst_env" by (simp add: fixed_zone_def kst_env_def)
  have w: "active_window kst_env 0 = Some (- 3600000000, 23400000000)"
    by (simp add: active_window_def kst_env_def kst_cfg_def day_us_def minute_us_def)
  have "cycle_of (snd (sr_step kst_env 0 100 (1 / 2) sr_init)) = [(- 3600000000, 23400000000, 100)]"
  proof -
    let ?r = "\<lparr>sr_K = Some 100, sr_anchor = Some (- 3600000000), sr_expiry = Some 23400000000, sr_active = True, sr_last = Some 0\<rparr>"
    have "sr_step kst_env 0 100 (1 / 2) sr_init = sr_hold kst_env 0 100 (1 / 2) True False None ?r"
      by (simp add: sr_step_def sr_enter_def free_window_def w sr_init_def)
    moreover have "in_cycle (- 3600000000) 23400000000 100 ?r" by (simp add: in_cycle_def)
    ultimately show ?thesis
      using hold_ok [of "- 3600000000" 23400000000 100 ?r 0 kst_env 100 "1 / 2" True False None]
      by (simp add: same_cycle_def cycle_of_def)
  qed
  then have "trace_cycles (sr_trace kst_env ?ticks sr_init) \<noteq> []" by (simp add: trace_cycles_def)
  then show ?thesis using straddle_cycles [OF z, of ?ticks] unfolding Let_def by blast
qed

subsection \<open>The band at the end of a cycle\<close>

lemma band_keeps: "\<bar>br_position b\<bar> \<le> band \<Longrightarrow> rebalance_to ts 0 px band why b = (None, b)"
  by (simp add: rebalance_to_def Let_def)

definition expired_at :: "int \<Rightarrow> replicator \<Rightarrow> bool" where
  "expired_at ts r \<longleftrightarrow> sr_active r \<longrightarrow> (\<exists>x. sr_expiry r = Some x \<and> x \<le> ts)"

definition flat_tick :: "sr_env \<Rightarrow> int \<times> real \<times> real \<Rightarrow> bool" where
  "flat_tick v t \<longleftrightarrow> active_window v (fst t) = None"

lemma flat_step:
  assumes "active_window v ts = None" "expired_at ts r"
  obtains d r1 where "sr_step v ts px \<sigma> r = (Inr d, r1)" "\<not> sr_active r1" "\<not> de_active d" "\<not> de_new d" "de_target d = 0"
proof -
  have e: "sr_enter v ts px \<sigma> settled prev q = apfst Inr (sr_decide v ts px \<sigma> False settled prev 0 0 0 q)" for settled prev q
    using assms(1) by (simp add: sr_enter_def free_window_def)
  obtain settled prev q where q: "sr_step v ts px \<sigma> r = sr_enter v ts px \<sigma> settled prev q" "\<not> sr_active q"
  proof (cases "sr_active r")
    case True
    then show ?thesis using assms(2) that [of True "sr_K r" "r\<lparr>sr_active := False\<rparr>"] by (auto simp: sr_step_def expired_at_def)
  next
    case False
    then show ?thesis using that [of False None r] by (simp add: sr_step_def)
  qed
  then show ?thesis using that by (simp add: e sr_decide_def Let_def)
qed

lemma flat_sim_tick:
  assumes "flat_tick v (ts, px, \<sigma>)" "expired_at ts (sm_engine s)" "\<bar>br_position (sm_broker s)\<bar> \<le> band"
  obtains s1 rec where "sim_tick v band (ts, px, \<sigma>) s = Inr s1" "sm_broker s1 = sm_broker s" "\<not> sr_active (sm_engine s1)"
    "sm_records s1 = sm_records s @ [rec]" "\<not> de_active (rd_decision rec)" "rd_position rec = br_position (sm_broker s)"
proof -
  obtain d r1 where st: "sr_step v ts px \<sigma> (sm_engine s) = (Inr d, r1)" "\<not> sr_active r1" "\<not> de_active d" "\<not> de_new d"
    "de_target d = 0"
    using flat_step [of v ts "sm_engine s" px \<sigma>] assms(1,2) by (auto simp: flat_tick_def)
  let ?s0 = "settle_cycle v px d (s\<lparr>sm_engine := r1\<rparr>)"
  have s0: "sm_broker ?s0 = sm_broker s" "sm_engine ?s0 = r1" "sm_records ?s0 = sm_records s"
    by (simp_all add: settle_cycle_def Let_def split: option.split)
  have f: "follow_target band ts px d ?s0 = ?s0"
    using assms(3) st(5) band_keeps [of "sm_broker ?s0" band] by (simp add: follow_target_def s0)
  show ?thesis
    by (rule that [of "record_tick v px d ?s0" "last (sm_records (record_tick v px d ?s0))"])
      (simp_all add: sim_tick_def st start_cycle_def f record_tick_def s0 Let_def)
qed

text \<open>C0: The rebalancing band also holds back the closing trade: a position within the band at the
  end of a cycle is not closed, and stays open through every following tick outside the
  windows, although each of those ticks decides for a flat target of zero.\<close>

theorem straddle_band_keeps_position:
  assumes "sr_active (sm_engine s)" and "sr_expiry (sm_engine s) = Some x"
    and "list_all (\<lambda>t. x \<le> fst t \<and> flat_tick v t) ticks" and "\<bar>br_position (sm_broker s)\<bar> \<le> band"
  shows "\<exists>s1 new. sim_run v band ticks s = Inr s1 \<and> sm_broker s1 = sm_broker s \<and> sm_records s1 = sm_records s @ new
    \<and> length new = length ticks
    \<and> list_all (\<lambda>r. \<not> de_active (rd_decision r) \<and> rd_position r = br_position (sm_broker s)) new"
proof -
  have flat: "\<exists>s1 new. sim_run v band ticks s = Inr s1 \<and> sm_broker s1 = sm_broker s \<and> sm_records s1 = sm_records s @ new
      \<and> length new = length ticks
      \<and> list_all (\<lambda>r. \<not> de_active (rd_decision r) \<and> rd_position r = br_position (sm_broker s)) new"
    if "list_all (\<lambda>t. expired_at (fst t) (sm_engine s) \<and> flat_tick v t) ticks" "\<bar>br_position (sm_broker s)\<bar> \<le> band" for s ticks
    using that
  proof (induction ticks arbitrary: s)
    case (Cons t ticks)
    obtain ts px \<sigma> where t: "t = (ts, px, \<sigma>)" by (cases t)
    obtain s1 rec where s1: "sim_tick v band t s = Inr s1" "sm_broker s1 = sm_broker s" "\<not> sr_active (sm_engine s1)"
      "sm_records s1 = sm_records s @ [rec]" "\<not> de_active (rd_decision rec)" "rd_position rec = br_position (sm_broker s)"
      using flat_sim_tick [of v ts px \<sigma> s band] Cons.prems t by auto
    have "list_all (\<lambda>t. expired_at (fst t) (sm_engine s1) \<and> flat_tick v t) ticks"
      using Cons.prems(1) s1(3) by (simp add: expired_at_def list_all_iff)
    then obtain s2 new where "sim_run v band ticks s1 = Inr s2" "sm_broker s2 = sm_broker s1" "sm_records s2 = sm_records s1 @ new"
      "length new = length ticks" "list_all (\<lambda>r. \<not> de_active (rd_decision r) \<and> rd_position r = br_position (sm_broker s1)) new"
      using Cons.IH [of s1] Cons.prems(2) s1(2) by auto
    then show ?case using s1 by (intro exI [of _ s2] exI [of _ "rec # new"]) simp
  qed simp
  show ?thesis by (rule flat) (use assms in \<open>auto simp: expired_at_def list_all_iff\<close>)
qed

theorem straddle_band_keeps_position_witness:
  "\<exists>s1. sim_run kst_env (1 / 2) [(25200000000, 100, 1 / 2)]
       ((sim_start 5 1)\<lparr>sm_engine := sr_seed (- 3600000000) 23400000000 100 sr_init,
          sm_broker := (broker_init 5 1)\<lparr>br_position := 2 / 5\<rparr>\<rparr>) = Inr s1
     \<and> br_position (sm_broker s1) = 2 / 5"
proof -
  let ?s = "(sim_start 5 1)\<lparr>sm_engine := sr_seed (- 3600000000) 23400000000 100 sr_init,
      sm_broker := (broker_init 5 1)\<lparr>br_position := 2 / 5\<rparr>\<rparr>"
  have w: "flat_tick kst_env (25200000000, 100, 1 / 2)"
    by (simp add: flat_tick_def active_window_def kst_env_def kst_cfg_def day_us_def minute_us_def)
  have "sr_active (sm_engine ?s)" "sr_expiry (sm_engine ?s) = Some 23400000000" by (simp_all add: sr_seed_def)
  from straddle_band_keeps_position [OF this, of kst_env "[(25200000000, 100, 1 / 2)]" "1 / 2"] w
  show ?thesis by auto
qed

end
