(* ===== verification/Replay.thy ===== *)
theory Replay
  imports Feed_Correct "HOL-Library.Char_ord" "HOL-Library.List_Lexorder" "HOL-Library.Product_Lexorder"
begin

text \<open>
  The daily comparison of the strategy with its own backtest: the replay of a recorded day through
  the live feed (\<open>strategies/pastofi_crypto/replay.py\<close>), the journals (\<open>store.py\<close>), and the
  reconciliation of the two (\<open>reconcile.py\<close>).  The database rows of the day are arguments.
\<close>

subsection \<open>The replay of a day\<close>

datatype rp_event = Quote int l1 | Print int real bool

fun ev_ts :: "rp_event \<Rightarrow> int" where
  "ev_ts (Quote ts l) = ts"
| "ev_ts (Print ts q m) = ts"

fun ev_in :: "rp_event \<Rightarrow> feed_in" where
  "ev_in (Quote ts l) = InL1 ts l"
| "ev_in (Print ts q m) = InTrade ts q m"

text \<open>\<open>heapq.merge\<close> by (time, kind): the quote first at equal times.\<close>

fun merge_events :: "rp_event list \<Rightarrow> rp_event list \<Rightarrow> rp_event list" where
  "merge_events [] ts = ts"
| "merge_events qs [] = qs"
| "merge_events (q # qs) (t # ts) =
     (if ev_ts q \<le> ev_ts t then q # merge_events qs (t # ts) else t # merge_events (q # qs) ts)"

datatype replay_error = ReplaySpec spec_error | ReplayEngine

text \<open>A call on the feed; an assertion of the engine ends the replay.\<close>

definition feed_broken :: "int \<Rightarrow> feed \<Rightarrow> bool" where
  "feed_broken day fd = (case map_of (fd_days fd) day of Some st \<Rightarrow> e_err (ds_engine st) | None \<Rightarrow> False)"

definition replay_step :: "int \<Rightarrow> feed_in \<Rightarrow> feed \<Rightarrow> replay_error + feed" where
  "replay_step day i fd =
     (case (case i of InL1 ts l \<Rightarrow> fst (feed_on_l1 ts l fd) | _ \<Rightarrow> Inr ()) of
        Inl e \<Rightarrow> Inl (ReplaySpec e)
      | Inr _ \<Rightarrow> if feed_broken day (feed_do i fd) then Inl ReplayEngine else Inr (feed_do i fd))"

definition tick_ms :: "int \<Rightarrow> int \<Rightarrow> int \<Rightarrow> int" where
  "tick_ms day delay T = day * day_len * 1000 + T * 1000 + delay"

function replay_ticks :: "(int \<Rightarrow> bool) \<Rightarrow> int \<Rightarrow> int \<Rightarrow> feed \<Rightarrow> replay_error + int \<times> feed" where
  "replay_ticks due day nxt fd =
     (if nxt < day_len \<and> due nxt
      then (case replay_step day (InTick day nxt) fd of Inl e \<Rightarrow> Inl e | Inr fd1 \<Rightarrow> replay_ticks due day (nxt + 1) fd1)
      else Inr (nxt, fd))"
  by pat_completeness auto
termination
  by (relation "measure (\<lambda>(due, day, nxt, fd). nat (day_len - nxt))") auto

declare replay_ticks.simps [simp del]

fun replay_events :: "int \<Rightarrow> int \<Rightarrow> rp_event list \<Rightarrow> int \<Rightarrow> feed \<Rightarrow> replay_error + int \<times> feed" where
  "replay_events day delay [] nxt fd = Inr (nxt, fd)"
| "replay_events day delay (e # es) nxt fd =
     (case replay_ticks (\<lambda>T. tick_ms day delay T \<le> ev_ts e) day nxt fd of
        Inl x \<Rightarrow> Inl x
      | Inr (n, fd1) \<Rightarrow>
          (case replay_step day (ev_in e) fd1 of Inl x \<Rightarrow> Inl x | Inr fd2 \<Rightarrow> replay_events day delay es n fd2))"

definition exits_of :: "feed \<Rightarrow> eng_trade list" where
  "exits_of fd = List.map_filter (\<lambda>x. case x of OutExit e \<Rightarrow> Some (xs_trade e) | OutEntry s \<Rightarrow> None) (fd_out fd)"

definition run_day ::
    "spec \<Rightarrow> string \<Rightarrow> int \<Rightarrow> int \<Rightarrow> rp_event list \<Rightarrow> rp_event list \<Rightarrow> replay_error + eng_trade list" where
  "run_day sp sm day delay quotes trades =
     (case feed_init sp sm of
        Inl e \<Rightarrow> Inl (ReplaySpec e)
      | Inr fd0 \<Rightarrow>
          (case replay_events day delay (merge_events quotes trades) 0 fd0 of
             Inl x \<Rightarrow> Inl x
           | Inr (n, fd1) \<Rightarrow>
               (case replay_ticks (\<lambda>_. True) day n fd1 of
                  Inl x \<Rightarrow> Inl x
                | Inr (_, fd2) \<Rightarrow>
                    (case replay_step day (InFinish day) fd2 of Inl x \<Rightarrow> Inl x | Inr fd3 \<Rightarrow> Inr (exits_of fd3)))))"

text \<open>A day with fewer than a thousand quotes is skipped.\<close>

definition replay_day ::
    "spec \<Rightarrow> string \<Rightarrow> int \<Rightarrow> int \<Rightarrow> rp_event list \<times> rp_event list \<Rightarrow> replay_error + eng_trade list" where
  "replay_day sp sm day delay rows =
     (if length (fst rows) < 1000 then Inr [] else run_day sp sm day delay (fst rows) (snd rows))"

text \<open>\<open>compare\<close>: two trade lists by (symbol, day, second), as the consistency check does it; the day
  is its number where the code compares its ISO text.\<close>

type_synonym trade_key = "string \<times> int \<times> int"

definition close_to :: "real \<Rightarrow> real \<Rightarrow> bool" where
  "close_to x y \<longleftrightarrow> \<bar>x - y\<bar> < 1 / 10 ^ 9"

definition same_trade :: "eng_trade \<Rightarrow> eng_trade \<Rightarrow> bool" where
  "same_trade a b \<longleftrightarrow>
     tr_t_sig a = tr_t_sig b \<and> close_to (tr_p_in a) (tr_p_in b) \<and> close_to (tr_p_out a) (tr_p_out b) \<and> tr_reason a = tr_reason b"

definition by_key :: "('a \<Rightarrow> 'k) \<Rightarrow> 'a list \<Rightarrow> ('k \<times> 'a) list" where
  "by_key f xs = fold (\<lambda>x m. AList.update (f x) x m) xs []"

record check_result =
  ck_expected :: nat
  ck_got :: nat
  ck_match :: nat
  ck_missing :: "trade_key list"
  ck_extra :: "trade_key list"
  ck_diff :: "trade_key list"
  ck_ok :: bool

definition compare_trades :: "(trade_key \<times> eng_trade) list \<Rightarrow> (trade_key \<times> eng_trade) list \<Rightarrow> check_result" where
  "compare_trades expd got =
     (let ex = map (\<lambda>(k, p). (k, snd p)) (by_key fst expd); gt = map (\<lambda>(k, p). (k, snd p)) (by_key fst got);
          both = filter (\<lambda>k. map_of gt k \<noteq> None) (map fst ex);
          hit = filter (\<lambda>k. same_trade (the (map_of ex k)) (the (map_of gt k))) both
      in \<lparr>ck_expected = length ex, ck_got = length gt, ck_match = length hit,
          ck_missing = sort (filter (\<lambda>k. map_of gt k = None) (map fst ex)),
          ck_extra = sort (filter (\<lambda>k. map_of ex k = None) (map fst gt)),
          ck_diff = sort (filter (\<lambda>k. \<not> same_trade (the (map_of ex k)) (the (map_of gt k))) both),
          ck_ok = (length hit = length ex \<and> length ex = length gt)\<rparr>)"

subsection \<open>The journals\<close>

text \<open>\<open>read_jsonl\<close>: a line is blank, not parseable (a write cut short), or a record; the last record of
  a key wins, at the place of the first.\<close>

datatype 'r line = Blank | Torn | Line 'r

definition line_records :: "'r line list \<Rightarrow> 'r list" where
  "line_records ls = List.map_filter (\<lambda>l. case l of Line r \<Rightarrow> Some r | _ \<Rightarrow> None) ls"

definition read_jsonl :: "('r \<Rightarrow> 'k) \<Rightarrow> 'r line list \<Rightarrow> 'r list" where
  "read_jsonl key ls = map snd (by_key key (line_records ls))"

subsection \<open>The reconciliation\<close>

text \<open>What the journals hold of a signal and of an event.\<close>

record journal_signal =
  js_symbol :: string
  js_t_sig :: int
  js_p_in :: "real option"
  js_p_out :: "real option"
  js_reason :: "exit_reason option"

record journal_trade =
  jt_id :: string
  jt_t_sig :: int
  jt_net :: "real option"

datatype conn_what = Connected | OtherConn string

datatype journal_event =
    EvStart real
  | EvStop real
  | EvConn real string conn_what
  | EvGap real string string
  | EvOther real string

definition warmup :: real where
  "warmup = 662"

text \<open>\<open>marks.sort()\<close> compares the time, then the name of the event: start before stop.\<close>

definition mark_le :: "real \<times> bool \<Rightarrow> real \<times> bool \<Rightarrow> bool" where
  "mark_le a b \<longleftrightarrow> fst a < fst b \<or> (fst a = fst b \<and> (\<not> snd a \<or> snd b))"

fun insert_mark :: "real \<times> bool \<Rightarrow> (real \<times> bool) list \<Rightarrow> (real \<times> bool) list" where
  "insert_mark x [] = [x]"
| "insert_mark x (y # ys) = (if mark_le x y then x # y # ys else y # insert_mark x ys)"

text \<open>The marks of the start and stop events; \<open>True\<close>: a stop.\<close>

definition marks_in :: "journal_event list \<Rightarrow> (real \<times> bool) list" where
  "marks_in evs = List.map_filter (\<lambda>e. case e of EvStart t \<Rightarrow> Some (t, False) | EvStop t \<Rightarrow> Some (t, True) | _ \<Rightarrow> None) evs"

definition sort_marks :: "(real \<times> bool) list \<Rightarrow> (real \<times> bool) list" where
  "sort_marks ms = foldr insert_mark ms []"

fun cover_from :: "real \<Rightarrow> real \<Rightarrow> (real \<times> bool) list \<Rightarrow> (real \<times> real) list" where
  "cover_from day0 day1 [] = []"
| "cover_from day0 day1 ((t, stop) # ms) =
     (let e = (case ms of [] \<Rightarrow> day1 | (t', _) # _ \<Rightarrow> t'); a = max (t + warmup) day0; b = min e day1
      in (if \<not> stop \<and> a < b then [(a, b)] else []) @ cover_from day0 day1 ms)"

definition coverage :: "journal_event list \<Rightarrow> real \<Rightarrow> real \<Rightarrow> (real \<times> real) list" where
  "coverage evs day0 day1 = cover_from day0 day1 (sort_marks (marks_in evs))"

definition covered_at :: "(real \<times> real) list \<Rightarrow> real \<Rightarrow> bool" where
  "covered_at cov t = list_ex (\<lambda>(a, b). a \<le> t \<and> t < b) cov"

datatype cause =
    StartCause real
  | ConnCause real string
  | GapCause real string
  | DbCause real string
  | UnknownCause

definition near :: "real \<Rightarrow> real \<Rightarrow> bool" where
  "near t et \<longleftrightarrow> t - warmup - 300 \<le> et \<and> et \<le> t + 300"

text \<open>The causes as a duplicate-free list; the order of their texts is not modelled.\<close>

fun event_cause :: "string \<Rightarrow> real \<Rightarrow> journal_event \<Rightarrow> cause option" where
  "event_cause sm t (EvStart et) = (if near t et then Some (StartCause et) else None)"
| "event_cause sm t (EvConn et st w) = (if near t et \<and> w \<noteq> Connected then Some (ConnCause et st) else None)"
| "event_cause sm t (EvGap et st s) = (if near t et \<and> s = sm then Some (GapCause et st) else None)"
| "event_cause sm t _ = None"

definition explain :: "string \<Rightarrow> real \<Rightarrow> journal_event list \<Rightarrow> (real \<times> string) list \<Rightarrow> cause list" where
  "explain sm t evs gaps =
     (let why = List.map_filter (event_cause sm t) evs @ map (\<lambda>(g, st). DbCause g st) (filter (\<lambda>(g, _). near t g) gaps)
      in if why = [] then [UnknownCause] else remdups why)"

datatype row_result = Match | Differs | LiveMissing | Uncovered | LiveOnly

record rec_row =
  rr_t :: int
  rr_replay :: "eng_trade option"
  rr_live :: "journal_signal option"
  rr_result :: row_result
  rr_why :: "cause list"

definition or_0 :: "real option \<Rightarrow> real" where
  "or_0 x = (case x of Some y \<Rightarrow> y | None \<Rightarrow> 0)"

definition same_values :: "eng_trade \<Rightarrow> journal_signal \<Rightarrow> bool" where
  "same_values e l \<longleftrightarrow>
     close_to (tr_p_in e) (or_0 (js_p_in l))
     \<and> (case js_p_out l of None \<Rightarrow> False | Some x \<Rightarrow> close_to (tr_p_out e) x)
     \<and> js_reason l = Some (tr_reason e)"

definition row_of ::
    "(real \<Rightarrow> bool) \<Rightarrow> eng_trade option \<Rightarrow> journal_signal option \<Rightarrow> int \<Rightarrow> row_result" where
  "row_of cov e l t =
     (case (e, l) of
        (Some x, Some y) \<Rightarrow> if same_values x y then Match else Differs
      | (Some x, None) \<Rightarrow> if cov (of_int t) then LiveMissing else Uncovered
      | (None, _) \<Rightarrow> LiveOnly)"

definition rows_of ::
    "(real \<Rightarrow> bool) \<Rightarrow> (int \<Rightarrow> cause list) \<Rightarrow> (int \<times> eng_trade) list \<Rightarrow> (int \<times> journal_signal) list \<Rightarrow> rec_row list" where
  "rows_of cov why expd live =
     map (\<lambda>t. let e = map_of expd t; l = map_of live t; r = row_of cov e l t
              in \<lparr>rr_t = t, rr_replay = e, rr_live = l, rr_result = r,
                  rr_why = (if r = Match \<or> r = Uncovered then [] else why t)\<rparr>)
       (sort (remdups (map fst expd @ map fst live)))"

record sym_result =
  sy_replay :: nat
  sy_live :: nat
  sy_match :: nat
  sy_uncovered :: nat
  sy_rows :: "rec_row list"

definition sym_counts :: "rec_row list \<Rightarrow> sym_result" where
  "sym_counts rows =
     \<lparr>sy_replay = length (filter (\<lambda>r. rr_replay r \<noteq> None \<and> rr_result r \<noteq> Uncovered) rows),
      sy_live = length (filter (\<lambda>r. rr_live r \<noteq> None) rows),
      sy_match = length (filter (\<lambda>r. rr_result r = Match) rows),
      sy_uncovered = length (filter (\<lambda>r. rr_result r = Uncovered) rows), sy_rows = rows\<rparr>"

text \<open>\<open>expd s\<close>: the replay of the symbol; the gaps of the database are per symbol, \<open>*\<close> for all.\<close>

definition reconcile_symbol ::
    "int \<Rightarrow> journal_event list \<Rightarrow> (real \<times> real) list \<Rightarrow> journal_signal list \<Rightarrow> eng_trade list \<Rightarrow> (string \<Rightarrow> (real \<times> string) list)
     \<Rightarrow> string \<Rightarrow> sym_result" where
  "reconcile_symbol day0 evs cov signals expd gaps sm =
     sym_counts (rows_of (covered_at cov) (\<lambda>t. explain sm (of_int t) evs (gaps sm @ gaps ''*''))
       (by_key (\<lambda>e. day0 + tr_t_sig e) expd)
       (by_key js_t_sig (filter (\<lambda>s. js_symbol s = sm) signals)))"

record reconciliation =
  re_symbols :: "(string \<times> sym_result) list"
  re_replay :: nat
  re_live :: nat
  re_match :: nat
  re_uncovered :: nat
  re_rate :: "real option"
  re_ok :: bool
  re_traded :: nat
  re_net :: real

definition total :: "(sym_result \<Rightarrow> nat) \<Rightarrow> (string \<times> sym_result) list \<Rightarrow> nat" where
  "total f rs = (\<Sum>r\<leftarrow>rs. f (snd r))"

definition summarised :: "(string \<times> sym_result) list \<Rightarrow> journal_trade list \<Rightarrow> reconciliation" where
  "summarised rs trades =
     (let nr = total sy_replay rs; nl = total sy_live rs; nm = total sy_match rs; d = max nr nl
      in \<lparr>re_symbols = rs, re_replay = nr, re_live = nl, re_match = nm, re_uncovered = total sy_uncovered rs,
          re_rate = (if d = 0 then None else Some (real nm / real d)), re_ok = (nm = nr \<and> nr = nl),
          re_traded = length trades, re_net = (\<Sum>t\<leftarrow>trades. or_0 (jt_net t))\<rparr>)"

definition reconcile ::
    "spec \<Rightarrow> int \<Rightarrow> int \<Rightarrow> journal_event line list \<Rightarrow> journal_signal line list \<Rightarrow> journal_trade line list \<Rightarrow> (string \<Rightarrow> rp_event list \<times> rp_event list)
     \<Rightarrow> (string \<Rightarrow> (real \<times> string) list) \<Rightarrow> replay_error + reconciliation" where
  "reconcile sp day delay ev_lines sig_lines trade_lines rows gaps =
     (let day0 = day * day_len; day1 = day0 + day_len;
          evs = read_jsonl (\<lambda>e. e) ev_lines;
          signals = filter (\<lambda>s. day0 \<le> js_t_sig s \<and> js_t_sig s < day1) (read_jsonl (\<lambda>s. (js_symbol s, js_t_sig s)) sig_lines);
          trades = filter (\<lambda>t. day0 \<le> jt_t_sig t \<and> jt_t_sig t < day1) (read_jsonl jt_id trade_lines);
          cov = coverage evs (of_int day0) (of_int day1)
      in case all_ok (map (\<lambda>sm. map_sum id (\<lambda>e. (sm, reconcile_symbol day0 evs cov signals e gaps sm))
               (replay_day sp sm day delay (rows sm))) (sp_symbols sp)) of
           Inl e \<Rightarrow> Inl e
         | Inr rs \<Rightarrow> Inr (summarised (fold (\<lambda>(k, v) m. AList.update k v m) rs []) trades))"

end
