(* ===== verification/Replay_Correct.thy ===== *)
theory Replay_Correct
  imports Replay
begin

text \<open>
  The replay asks the feed in the order of the clock, each second once; the journals return the
  last record of every key; the reconciliation is all right exactly when every decision the
  process could have taken is in both lists with the same values.
\<close>

subsection \<open>The order of the replay\<close>

fun run_script :: "int \<Rightarrow> feed_in list \<Rightarrow> feed \<Rightarrow> replay_error + feed" where
  "run_script day [] fd = Inr fd"
| "run_script day (i # is) fd = (case replay_step day i fd of Inl x \<Rightarrow> Inl x | Inr fd1 \<Rightarrow> run_script day is fd1)"

definition due_ticks :: "(int \<Rightarrow> bool) \<Rightarrow> int \<Rightarrow> int list" where
  "due_ticks due nxt = takeWhile due [nxt .. day_len - 1]"

fun replay_body :: "int \<Rightarrow> int \<Rightarrow> rp_event list \<Rightarrow> int \<Rightarrow> feed_in list" where
  "replay_body day delay [] nxt = map (InTick day) [nxt .. day_len - 1]"
| "replay_body day delay (e # es) nxt =
     (let L = due_ticks (\<lambda>T. tick_ms day delay T \<le> ev_ts e) nxt
      in map (InTick day) L @ ev_in e # replay_body day delay es (nxt + int (length L)))"

definition replay_script :: "int \<Rightarrow> int \<Rightarrow> rp_event list \<Rightarrow> feed_in list" where
  "replay_script day delay es = replay_body day delay es 0 @ [InFinish day]"

lemma run_append:
  "run_script day (a @ b) fd = (case run_script day a fd of Inl x \<Rightarrow> Inl x | Inr fd1 \<Rightarrow> run_script day b fd1)"
  by (induction day a fd rule: run_script.induct) (auto split: sum.split)

lemma ticks_script:
  "replay_ticks due day nxt fd =
     (case run_script day (map (InTick day) (due_ticks due nxt)) fd of
        Inl x \<Rightarrow> Inl x | Inr fd1 \<Rightarrow> Inr (nxt + int (length (due_ticks due nxt)), fd1))"
proof (induction due day nxt fd rule: replay_ticks.induct)
  case (1 due day nxt fd)
  show ?case
  proof (cases "nxt < day_len \<and> due nxt")
    case True
    then have d: "due_ticks due nxt = nxt # due_ticks due (nxt + 1)"
      by (simp add: due_ticks_def upto_rec1)
    show ?thesis
      using 1 [OF True] True by (subst replay_ticks.simps) (simp add: d split: sum.split)
  next
    case False
    have "due_ticks due nxt = []"
    proof (cases "nxt < day_len")
      case True
      then show ?thesis using False by (simp add: due_ticks_def upto_rec1)
    next
      case no: False
      then show ?thesis by (simp add: due_ticks_def)
    qed
    then show ?thesis using False by (subst replay_ticks.simps) auto
  qed
qed

lemma all_ticks: "due_ticks (\<lambda>_. True) nxt = [nxt .. day_len - 1]"
  by (simp add: due_ticks_def takeWhile_eq_all_conv)

lemma events_script:
  "(case replay_events day delay es nxt fd of Inl x \<Rightarrow> Inl x
    | Inr (n, fd1) \<Rightarrow> run_script day (map (InTick day) [n .. day_len - 1] @ rest) fd1)
   = run_script day (replay_body day delay es nxt @ rest) fd"
proof (induction day delay es nxt fd rule: replay_events.induct)
  case (2 day delay e es nxt fd)
  then show ?case
    by (simp add: ticks_script run_append Let_def split: sum.split)
qed simp

lemma run_day_script:
  "run_day sp sm day delay qs ts =
     (case feed_init sp sm of
        Inl e \<Rightarrow> Inl (ReplaySpec e)
      | Inr fd0 \<Rightarrow> map_sum id exits_of (run_script day (replay_script day delay (merge_events qs ts)) fd0))"
proof (cases "feed_init sp sm")
  case (Inr fd0)
  have "run_script day (replay_script day delay es) fd =
      (case replay_events day delay es 0 fd of Inl x \<Rightarrow> Inl x
       | Inr (n, fd1) \<Rightarrow> (case replay_ticks (\<lambda>_. True) day n fd1 of Inl x \<Rightarrow> Inl x
           | Inr (_, fd2) \<Rightarrow> replay_step day (InFinish day) fd2))" for es fd
    unfolding replay_script_def events_script [symmetric]
    by (auto simp: run_append ticks_script all_ticks split: sum.split)
  then show ?thesis using Inr by (simp add: run_day_def split: sum.split)
qed (simp add: run_day_def)

subsection \<open>The times\<close>

fun in_ms :: "int \<Rightarrow> feed_in \<Rightarrow> int" where
  "in_ms delay (InTick day T) = tick_ms day delay T"
| "in_ms delay (InL1 ts l) = ts"
| "in_ms delay (InTrade ts q m) = ts"
| "in_ms delay (InFinish day) = (day + 1) * day_len * 1000"

fun is_tick :: "feed_in \<Rightarrow> bool" where
  "is_tick (InTick day T) = True"
| "is_tick _ = False"

text \<open>In the order of the clock; a tick that is due comes before the data of the same time.\<close>

definition clock_before :: "int \<Rightarrow> feed_in \<Rightarrow> feed_in \<Rightarrow> bool" where
  "clock_before delay a b \<longleftrightarrow> in_ms delay a < in_ms delay b \<or> (in_ms delay a = in_ms delay b \<and> \<not> is_tick b)"

lemma ev_in_simps [simp]: "in_ms delay (ev_in e) = ev_ts e" "\<not> is_tick (ev_in e)"
  by (cases e; simp)+

lemma tick_mono: "tick_ms day delay a < tick_ms day delay b \<longleftrightarrow> a < b"
  by (simp add: tick_ms_def)

lemma upto_split: "[n .. m] = take k [n .. m] @ [n + int k .. m]" if "k \<le> length [n .. m]"
  using that
proof (induction k arbitrary: n)
  case (Suc k)
  then have "n \<le> m" by simp
  then show ?case using Suc.IH [of "n + 1"] Suc.prems by (simp add: upto_rec1 add.assoc)
qed simp

lemma due_split: "[n .. day_len - 1] = due_ticks due n @ [n + int (length (due_ticks due n)) .. day_len - 1]"
proof -
  have "due_ticks due n = take (length (due_ticks due n)) [n .. day_len - 1]"
    unfolding due_ticks_def by (metis takeWhile_eq_take)
  moreover have "length (due_ticks due n) \<le> length [n .. day_len - 1]"
    unfolding due_ticks_def by (rule length_takeWhile_le)
  ultimately show ?thesis using upto_split by metis
qed

lemma due_stops:
  assumes "n + int (length (due_ticks due n)) < day_len"
  shows "\<not> due (n + int (length (due_ticks due n)))"
proof -
  let ?k = "length (due_ticks due n)"
  have k: "?k < length [n .. day_len - 1]" using assms by simp
  have "\<not> due ([n .. day_len - 1] ! ?k)" using k unfolding due_ticks_def by (rule nth_length_takeWhile)
  then show ?thesis using k by (simp add: nth_upto)
qed

lemma body_ticks:
  "List.map_filter (\<lambda>i. case i of InTick d T \<Rightarrow> Some T | _ \<Rightarrow> None) (replay_body day delay es nxt) = [nxt .. day_len - 1]
   \<and> filter (\<lambda>i. \<not> is_tick i) (replay_body day delay es nxt) = map ev_in es"
proof (induction es arbitrary: nxt)
  case Nil
  then show ?case by (simp add: List.map_filter_def comp_def)
next
  case (Cons e es)
  let ?L = "due_ticks (\<lambda>T. tick_ms day delay T \<le> ev_ts e) nxt"
  have e: "List.map_filter (\<lambda>i. case i of InTick d T \<Rightarrow> Some T | _ \<Rightarrow> None) (map (InTick day) ?L @ ev_in e # r)
      = ?L @ List.map_filter (\<lambda>i. case i of InTick d T \<Rightarrow> Some T | _ \<Rightarrow> None) r" for r
    by (cases e) (simp_all add: List.map_filter_def comp_def)
  have "filter (\<lambda>i. \<not> is_tick i) (map (InTick day) ?L) = []" by (simp add: filter_empty_conv)
  then show ?case using Cons.IH [of "nxt + int (length ?L)"] due_split [of nxt "\<lambda>T. tick_ms day delay T \<le> ev_ts e"]
    by (simp add: Let_def e)
qed

lemma sorted_ticks:
  "sorted_wrt (clock_before delay) (map (InTick day) [n .. m])"
proof -
  have "sorted_wrt (<) [n .. m]" by (simp add: sorted_wrt_upto)
  then have "sorted_wrt (\<lambda>a b. clock_before delay (InTick day a) (InTick day b)) [n .. m]"
    by (rule sorted_wrt_mono_rel [rotated]) (simp add: clock_before_def tick_mono)
  then show ?thesis by (simp add: sorted_wrt_map)
qed

lemma body_order:
  assumes "sorted (map ev_ts es)" "\<forall>e\<in>set es. lo \<le> ev_ts e" "nxt < day_len \<longrightarrow> lo < tick_ms day delay nxt"
  shows "sorted_wrt (clock_before delay) (replay_body day delay es nxt)
    \<and> (\<forall>i\<in>set (replay_body day delay es nxt). lo < in_ms delay i \<or> (lo = in_ms delay i \<and> \<not> is_tick i))"
  using assms
proof (induction es arbitrary: lo nxt)
  case Nil
  have "lo < tick_ms day delay T" if "nxt \<le> T" "T \<le> day_len - 1" for T
    using Nil(3) that by (simp add: tick_ms_def)
  then show ?case using sorted_ticks by auto
next
  case (Cons e es)
  let ?due = "\<lambda>T. tick_ms day delay T \<le> ev_ts e"
  let ?L = "due_ticks ?due nxt"
  let ?n = "nxt + int (length ?L)"
  have n: "?n < day_len \<longrightarrow> ev_ts e < tick_ms day delay ?n" using due_stops [of nxt ?due] by auto
  have IH: "sorted_wrt (clock_before delay) (replay_body day delay es ?n)"
    "\<forall>i\<in>set (replay_body day delay es ?n). ev_ts e < in_ms delay i \<or> (ev_ts e = in_ms delay i \<and> \<not> is_tick i)"
    using Cons.IH [of "ev_ts e" ?n] Cons.prems n by auto
  have L: "\<forall>T\<in>set ?L. nxt \<le> T \<and> T < day_len \<and> tick_ms day delay T \<le> ev_ts e"
    by (auto simp: due_ticks_def dest: set_takeWhileD)
  have lo: "\<forall>T\<in>set ?L. lo < tick_ms day delay T"
    using L Cons.prems(3) by (force simp: tick_ms_def)
  have "?L = take (length ?L) [nxt .. day_len - 1]" unfolding due_ticks_def by (metis takeWhile_eq_take)
  then have ticks: "sorted_wrt (clock_before delay) (map (InTick day) ?L)"
    by (metis sorted_ticks sorted_wrt_take take_map)
  have "clock_before delay (InTick day T) i" if "T \<in> set ?L" "i \<in> set (ev_in e # replay_body day delay es ?n)" for T i
    using that L IH(2) by (force simp: clock_before_def)
  moreover have "clock_before delay (ev_in e) i" if "i \<in> set (replay_body day delay es ?n)" for i
    using that IH(2) by (auto simp: clock_before_def)
  moreover have "lo \<le> ev_ts e" using Cons.prems(2) by simp
  ultimately show ?case
    using IH ticks lo by (fastforce simp: Let_def sorted_wrt_append)
qed

lemma merge_set: "set (merge_events qs ts) = set qs \<union> set ts"
  by (induction qs ts rule: merge_events.induct) auto

lemma merge_sorted: "sorted (map ev_ts qs) \<Longrightarrow> sorted (map ev_ts ts) \<Longrightarrow> sorted (map ev_ts (merge_events qs ts))"
proof (induction qs ts rule: merge_events.induct)
  case (3 q qs t ts)
  then show ?case by (auto simp: merge_set intro: order.trans)
qed simp_all

lemma merge_parts:
  "list_all P qs \<Longrightarrow> list_all (\<lambda>e. \<not> P e) ts \<Longrightarrow>
   filter P (merge_events qs ts) = qs \<and> filter (\<lambda>e. \<not> P e) (merge_events qs ts) = ts"
  by (induction qs ts rule: merge_events.induct) (auto simp: filter_empty_conv list_all_iff filter_id_conv)

text \<open>The recorded events in the order of their times, a quote before a print of the same time.\<close>

fun is_quote :: "rp_event \<Rightarrow> bool" where
  "is_quote (Quote ts l) = True"
| "is_quote (Print ts q m) = False"

definition event_before :: "rp_event \<Rightarrow> rp_event \<Rightarrow> bool" where
  "event_before a b \<longleftrightarrow> ev_ts a < ev_ts b \<or> (ev_ts a = ev_ts b \<and> (is_quote a \<or> \<not> is_quote b))"

lemma merge_before:
  assumes "sorted (map ev_ts qs)" "sorted (map ev_ts ts)" "list_all is_quote qs" "list_all (\<lambda>e. \<not> is_quote e) ts"
  shows "sorted_wrt event_before (merge_events qs ts)"
  using assms
proof (induction qs ts rule: merge_events.induct)
  case (1 ts)
  then show ?case
    by (induction ts) (auto simp: event_before_def list_all_iff order.order_iff_strict)
next
  case (2 q qs)
  then show ?case
    by (induction qs arbitrary: q) (auto simp: event_before_def list_all_iff order.order_iff_strict)
next
  case (3 q qs t ts)
  then show ?case by (auto simp: merge_set event_before_def list_all_iff order.order_iff_strict)
qed

definition replay_result :: "spec \<Rightarrow> string \<Rightarrow> int \<Rightarrow> feed_in list \<Rightarrow> replay_error + eng_trade list" where
  "replay_result sp sm day calls =
     (case feed_init sp sm of
        Inl e \<Rightarrow> Inl (ReplaySpec e)
      | Inr fd0 \<Rightarrow> map_sum id exits_of (run_script day (calls @ [InFinish day]) fd0))"

lemma lower_bound: "\<exists>lo. (\<forall>x\<in>set xs. lo \<le> x) \<and> lo < y" for y :: int
proof (induction xs)
  case (Cons x xs)
  then obtain lo where "\<forall>z\<in>set xs. lo \<le> z" "lo < y" by blast
  then show ?case by (intro exI [of _ "min lo x"]) auto
qed (auto intro: exI [of _ "y - 1"])

text \<open>C32: the replay of a day calls the feed in the order of the clock.  Its result is that of a list of
  calls in which every second of the day is asked exactly once, in order, the recorded quotes and prints
  appear all and in their order, a quote before a print of the same millisecond, and a second is asked
  before everything recorded at or after the moment it is due, and the day is closed at the end.\<close>

theorem replay_order:
  assumes "sorted (map ev_ts qs)" "sorted (map ev_ts ts)" "list_all is_quote qs" "list_all (\<lambda>e. \<not> is_quote e) ts"
  shows "\<exists>calls es. run_day sp sm day delay qs ts = replay_result sp sm day calls
    \<and> List.map_filter (\<lambda>i. case i of InTick d T \<Rightarrow> Some T | _ \<Rightarrow> None) calls = [0 .. day_len - 1]
    \<and> filter (\<lambda>i. \<not> is_tick i) calls = map ev_in es
    \<and> filter is_quote es = qs \<and> filter (\<lambda>e. \<not> is_quote e) es = ts \<and> sorted_wrt event_before es
    \<and> sorted_wrt (clock_before delay) calls"
proof (intro exI conjI)
  let ?es = "merge_events qs ts"
  show "run_day sp sm day delay qs ts = replay_result sp sm day (replay_body day delay ?es 0)"
    unfolding run_day_script replay_result_def replay_script_def ..
  show "List.map_filter (\<lambda>i. case i of InTick d T \<Rightarrow> Some T | _ \<Rightarrow> None) (replay_body day delay ?es 0) = [0 .. day_len - 1]"
    "filter (\<lambda>i. \<not> is_tick i) (replay_body day delay ?es 0) = map ev_in ?es"
    using body_ticks by blast+
  show "filter is_quote ?es = qs" "filter (\<lambda>e. \<not> is_quote e) ?es = ts"
    using merge_parts [of is_quote qs ts] assms by simp_all
  show "sorted_wrt event_before ?es" using assms by (rule merge_before)
  show "sorted_wrt (clock_before delay) (replay_body day delay ?es 0)"
    using lower_bound [of "map ev_ts ?es" "tick_ms day delay 0"]
      body_order [of ?es _ 0 day delay] merge_sorted [OF assms(1,2)] by fastforce
qed

lemma replay_order_witness:
  "\<forall>sp sm day delay l. \<exists>calls es.
     run_day sp sm day delay [Quote 1 l, Quote 1500 l] [Print 1500 1 True] = replay_result sp sm day calls
    \<and> List.map_filter (\<lambda>i. case i of InTick d T \<Rightarrow> Some T | _ \<Rightarrow> None) calls = [0 .. day_len - 1]
    \<and> filter (\<lambda>i. \<not> is_tick i) calls = map ev_in es
    \<and> filter is_quote es = [Quote 1 l, Quote 1500 l] \<and> filter (\<lambda>e. \<not> is_quote e) es = [Print 1500 1 True]
    \<and> sorted_wrt event_before es \<and> sorted_wrt (clock_before delay) calls"
  by (intro allI replay_order) simp_all

subsection \<open>The journals\<close>

lemma by_key_snoc: "by_key f (xs @ [x]) = AList.update (f x) x (by_key f xs)"
  by (simp add: by_key_def)

lemma map_fst_update:
  "map fst (AList.update k v m) = (if k \<in> set (map fst m) then map fst m else map fst m @ [k])"
  by (induction m) auto

lemma by_key_keys: "distinct (map fst (by_key f xs)) \<and> set (map fst (by_key f xs)) = f ` set xs"
proof (induction xs rule: rev_induct)
  case (snoc x xs)
  then show ?case by (auto simp only: by_key_snoc map_fst_update set_append image_Un split: if_splits) auto
qed (simp add: by_key_def)

lemma by_key_last: "map_of (by_key f xs) k = find (\<lambda>x. f x = k) (rev xs)"
  by (induction xs rule: rev_induct) (simp_all add: by_key_snoc update_conv' by_key_def)

lemma update_member: "(k, x) \<in> set (AList.update a b m) \<Longrightarrow> (k, x) = (a, b) \<or> (k, x) \<in> set m"
  by (induction m) (auto split: if_splits)

lemma by_key_own: "(k, x) \<in> set (by_key f xs) \<Longrightarrow> f x = k"
proof (induction xs rule: rev_induct)
  case (snoc y xs)
  then have "(k, x) = (f y, y) \<or> (k, x) \<in> set (by_key f xs)"
    by (simp only: by_key_snoc update_member)
  then show ?case
  proof
    assume "(k, x) \<in> set (by_key f xs)"
    then show ?thesis by (rule snoc.IH)
  qed simp
qed (simp add: by_key_def)

lemma by_key_map: "map (\<lambda>x. (f x, x)) (map snd (by_key f xs)) = by_key f xs"
  unfolding map_map by (rule map_idI) (auto dest: by_key_own)

lemma update_fresh: "k \<notin> fst ` set m \<Longrightarrow> AList.update k v m = m @ [(k, v)]"
  by (induction m) auto

lemma by_key_distinct: "distinct (map f xs) \<Longrightarrow> by_key f xs = map (\<lambda>x. (f x, x)) xs"
proof (induction xs rule: rev_induct)
  case (snoc x xs)
  then have e: "by_key f xs = map (\<lambda>x. (f x, x)) xs" and f: "f x \<notin> f ` set xs" by simp_all
  have "f x \<notin> fst ` set (map (\<lambda>x. (f x, x)) xs)" using f by (simp add: image_image)
  then show ?case by (simp add: by_key_snoc e update_fresh)
qed (simp add: by_key_def)

lemma line_records_Line: "line_records (map Line xs) = xs"
  by (simp add: line_records_def List.map_filter_def comp_def)

lemma read_keys: "map key (read_jsonl key ls) = map fst (by_key key (line_records ls))"
proof -
  let ?xs = "line_records ls"
  have "map fst (by_key key ?xs) = map fst (map (\<lambda>x. (key x, x)) (map snd (by_key key ?xs)))"
    by (simp only: by_key_map)
  also have "\<dots> = map key (map snd (by_key key ?xs))" by (induction "by_key key ?xs") auto
  finally show ?thesis by (simp only: read_jsonl_def)
qed

lemma read_distinct: "distinct (map key (read_jsonl key ls))"
  unfolding read_keys by (rule conjunct1 [OF by_key_keys])

lemma read_find: "find (\<lambda>r. key r = k) (read_jsonl key ls) = find (\<lambda>r. key r = k) (rev (line_records ls))"
proof -
  have find_map: "find (\<lambda>r. key r = k) ys = map_of (map (\<lambda>x. (key x, x)) ys) k" for ys
    by (induction ys) auto
  have "find (\<lambda>r. key r = k) (read_jsonl key ls) = map_of (by_key key (line_records ls)) k"
    unfolding find_map by (simp only: read_jsonl_def by_key_map)
  then show ?thesis by (simp only: by_key_last)
qed

lemma by_key_members: "snd ` set (by_key f xs) \<subseteq> set xs"
proof (induction xs rule: rev_induct)
  case (snoc x xs)
  have u: "snd ` set (AList.update a b m) \<subseteq> insert b (snd ` set m)" for a b m
    by (induction m) auto
  have "snd ` set (by_key f (xs @ [x])) \<subseteq> insert x (snd ` set (by_key f xs))"
    unfolding by_key_snoc by (rule u)
  also have "\<dots> \<subseteq> set (xs @ [x])" using snoc by auto
  finally show ?case .
qed (simp add: by_key_def)

lemma read_members: "set (read_jsonl key ls) \<subseteq> set (line_records ls)"
  using by_key_members by (simp add: read_jsonl_def)

text \<open>a journal may hold the same record several times, blank lines and lines cut short.  Reading it
  returns one record per key, the last one written, and every key that was written; appending lines that
  are not whole records changes nothing, and a journal rewritten from what was read reads the same.\<close>

theorem journal_last_wins:
  "distinct (map key (read_jsonl key ls))
   \<and> set (map key (read_jsonl key ls)) = key ` set (line_records ls)
   \<and> find (\<lambda>r. key r = k) (read_jsonl key ls) = find (\<lambda>r. key r = k) (rev (line_records ls))
   \<and> read_jsonl key (ls @ [Torn, Blank]) = read_jsonl key ls
   \<and> read_jsonl key (map Line (read_jsonl key ls)) = read_jsonl key ls"
proof (intro conjI)
  show "distinct (map key (read_jsonl key ls))" by (rule read_distinct)
  show "set (map key (read_jsonl key ls)) = key ` set (line_records ls)"
    unfolding read_keys by (rule conjunct2 [OF by_key_keys])
  show "find (\<lambda>r. key r = k) (read_jsonl key ls) = find (\<lambda>r. key r = k) (rev (line_records ls))" by (rule read_find)
  show "read_jsonl key (ls @ [Torn, Blank]) = read_jsonl key ls"
    by (simp add: read_jsonl_def line_records_def List.map_filter_def)
  show "read_jsonl key (map Line (read_jsonl key ls)) = read_jsonl key ls"
    unfolding read_jsonl_def [of key "map Line _"] line_records_Line by_key_distinct [OF read_distinct [of key ls]] by (simp add: comp_def)
qed

subsection \<open>The reconciliation\<close>

text \<open>What the replay and the journal say of one second, when they are reconciled.\<close>

fun in_accord :: "bool \<Rightarrow> eng_trade option \<Rightarrow> journal_signal option \<Rightarrow> bool" where
  "in_accord cov None None = True"
| "in_accord cov (Some e) (Some l) = same_values e l"
| "in_accord cov (Some e) None = (\<not> cov)"
| "in_accord cov None (Some l) = False"

definition fine_row :: "rec_row \<Rightarrow> bool" where
  "fine_row r \<longleftrightarrow> rr_result r = Match \<or> rr_result r = Uncovered"

text \<open>A row as \<open>rows_of\<close> makes it.\<close>

definition row_shaped :: "rec_row \<Rightarrow> bool" where
  "row_shaped r \<longleftrightarrow>
     (case rr_result r of
        Match \<Rightarrow> rr_replay r \<noteq> None \<and> rr_live r \<noteq> None
      | Differs \<Rightarrow> rr_replay r \<noteq> None \<and> rr_live r \<noteq> None
      | LiveMissing \<Rightarrow> rr_replay r \<noteq> None \<and> rr_live r = None
      | Uncovered \<Rightarrow> rr_replay r \<noteq> None \<and> rr_live r = None
      | LiveOnly \<Rightarrow> rr_replay r = None \<and> rr_live r \<noteq> None)"

lemma rows_shaped: "list_all row_shaped (rows_of cov why expd live)"
proof -
  have "row_shaped \<lparr>rr_t = t, rr_replay = e, rr_live = l, rr_result = row_of cov e l t, rr_why = w\<rparr>"
    if "e \<noteq> None \<or> l \<noteq> None" for e l t w
    using that by (cases e; cases l) (auto simp: row_shaped_def row_of_def)
  moreover have "map_of expd t \<noteq> None \<or> map_of live t \<noteq> None"
    if "t \<in> set (sort (remdups (map fst expd @ map fst live)))" for t
    using that by (auto simp: map_of_eq_None_iff)
  ultimately show ?thesis unfolding rows_of_def Let_def list_all_iff by (simp add: image_iff)
qed

lemma counts_fine:
  assumes "list_all row_shaped rows"
  shows "sy_match (sym_counts rows) \<le> sy_replay (sym_counts rows) \<and> sy_match (sym_counts rows) \<le> sy_live (sym_counts rows)
    \<and> (list_all fine_row rows \<longleftrightarrow>
         sy_match (sym_counts rows) = sy_replay (sym_counts rows) \<and> sy_match (sym_counts rows) = sy_live (sym_counts rows))"
  using assms
proof (induction rows)
  case (Cons r rows)
  then show ?case
    by (cases "rr_result r") (auto simp: sym_counts_def row_shaped_def fine_row_def)
qed (simp add: sym_counts_def)

lemma rows_fine:
  "list_all fine_row (rows_of cov why expd live)
   \<longleftrightarrow> (\<forall>t. in_accord (cov (of_int t)) (map_of expd t) (map_of live t))"
proof -
  let ?T = "fst ` set expd \<union> fst ` set live"
  let ?row = "\<lambda>t. let e = map_of expd t; l = map_of live t; r = row_of cov e l t
      in \<lparr>rr_t = t, rr_replay = e, rr_live = l, rr_result = r, rr_why = (if r = Match \<or> r = Uncovered then [] else why t)\<rparr>"
  have T: "t \<in> ?T \<longleftrightarrow> map_of expd t \<noteq> None \<or> map_of live t \<noteq> None" for t
    by (simp add: map_of_eq_None_iff)
  have row: "fine_row (?row t) \<longleftrightarrow> in_accord (cov (of_int t)) (map_of expd t) (map_of live t)" if "t \<in> ?T" for t
    using that unfolding T by (cases "map_of expd t"; cases "map_of live t") (auto simp: fine_row_def row_of_def Let_def)
  have "list_all fine_row (rows_of cov why expd live) \<longleftrightarrow> (\<forall>t\<in>?T. fine_row (?row t))"
    unfolding rows_of_def list_all_iff by simp
  also have "\<dots> \<longleftrightarrow> (\<forall>t\<in>?T. in_accord (cov (of_int t)) (map_of expd t) (map_of live t))"
    by (rule ball_cong [OF refl row])
  also have "\<dots> \<longleftrightarrow> (\<forall>t. in_accord (cov (of_int t)) (map_of expd t) (map_of live t))"
  proof -
    have "in_accord (cov (of_int t)) (map_of expd t) (map_of live t)" if "t \<notin> ?T" for t
      using that unfolding T by simp
    then show ?thesis by blast
  qed
  finally show ?thesis .
qed

lemma total_equal:
  assumes "\<forall>r\<in>set rs. f (snd r) \<le> g (snd r)"
  shows "total f rs \<le> total g rs \<and> (total f rs = total g rs \<longleftrightarrow> (\<forall>r\<in>set rs. f (snd r) = g (snd r)))"
  using assms by (induction rs) (auto simp: total_def)

lemma rate_fine:
  "m \<le> n \<Longrightarrow> m \<le> l \<Longrightarrow>
   (case if max n l = 0 then None else Some (real m / real (max n l)) of
      None \<Rightarrow> m = n \<and> n = l
    | Some x \<Rightarrow> 0 \<le> x \<and> x \<le> 1 \<and> ((m = n \<and> n = l) \<longleftrightarrow> x = 1))"
  by (auto simp: max_def divide_simps)

text \<open>The symbols of the specification, each with its result.\<close>

lemma keyed_fold:
  "set (fold (\<lambda>(k, v) m. AList.update k v m) (map (\<lambda>k. (k, f k)) ks) []) = (\<lambda>k. (k, f k)) ` set ks"
proof (induction ks rule: rev_induct)
  case (snoc k ks)
  let ?m = "fold (\<lambda>(k, v) m. AList.update k v m) (map (\<lambda>k. (k, f k)) ks) []"
  have "set (AList.update k (f k) m) = insert (k, f k) (set m)" if "set m \<subseteq> range (\<lambda>k. (k, f k))" for m
    using that by (induction m) auto
  moreover have "set ?m \<subseteq> range (\<lambda>k. (k, f k))" using snoc by auto
  ultimately show ?case using snoc by simp
qed simp

text \<open>The two lists that the reconciliation compares for a symbol: the replay and the journal, by second.\<close>

definition replayed_at :: "int \<Rightarrow> eng_trade list \<Rightarrow> int \<Rightarrow> eng_trade option" where
  "replayed_at day0 trades t = map_of (by_key (\<lambda>e. day0 + tr_t_sig e) trades) t"

definition journal_at :: "int \<Rightarrow> journal_signal line list \<Rightarrow> string \<Rightarrow> int \<Rightarrow> journal_signal option" where
  "journal_at day0 sig_lines sm t =
     find (\<lambda>s. js_t_sig s = t) (rev (filter (\<lambda>s. js_symbol s = sm)
       (filter (\<lambda>s. day0 \<le> js_t_sig s \<and> js_t_sig s < day0 + day_len) (read_jsonl (\<lambda>s. (js_symbol s, js_t_sig s)) sig_lines))))"

lemma all_ok_keyed:
  "all_ok (map (\<lambda>x. map_sum id (\<lambda>e. (x, f x e)) (g x)) xs) = Inr rs \<Longrightarrow>
   (\<forall>x\<in>set xs. g x = Inr (projr (g x))) \<and> rs = map (\<lambda>x. (x, f x (projr (g x)))) xs"
proof (induction xs arbitrary: rs)
  case (Cons x xs)
  let ?rest = "all_ok (map (\<lambda>x. map_sum id (\<lambda>e. (x, f x e)) (g x)) xs)"
  obtain e where e: "g x = Inr e" using Cons.prems by (cases "g x") auto
  obtain rs' where r: "?rest = Inr rs'" "rs = (x, f x e) # rs'" using Cons.prems e by (cases ?rest) (auto simp: id_def)
  show ?case using Cons.IH [OF r(1)] e r(2) by simp
qed simp



end
