(* ===== verification/Klines.thy ===== *)
theory Klines
  imports Straddle
begin

text \<open>
  The historical data of \<open>binance_data.py\<close>: the paged download of candles and funding rates, the
  candle cache, the gaps, the realised volatility and the price lookups.  The answers of the
  exchange are functions of the start of the page; numbers are what \<open>pd.to_numeric\<close> makes of them
  (\<open>None\<close>: not a number).
\<close>

record candle =
  ca_t :: int
  ca_open :: "real option"
  ca_high :: "real option"
  ca_low :: "real option"
  ca_close :: "real option"
  ca_volume :: "real option"

datatype data_error = BadInterval | NoAnswer

fun interval_ms :: "string \<Rightarrow> int option" where
  "interval_ms i =
     (if i = ''1m'' then Some 60000 else if i = ''3m'' then Some 180000 else if i = ''5m'' then Some 300000
      else if i = ''15m'' then Some 900000 else if i = ''30m'' then Some 1800000 else if i = ''1h'' then Some 3600000
      else if i = ''4h'' then Some 14400000 else if i = ''1d'' then Some 86400000 else None)"

text \<open>The answer to a query that starts at the given time, up to the fixed end.\<close>

type_synonym 'r pages = "int \<Rightarrow> data_error + 'r list"

function fetch_pages :: "('r \<Rightarrow> int) \<Rightarrow> nat \<Rightarrow> int \<Rightarrow> 'r pages \<Rightarrow> int \<Rightarrow> int \<Rightarrow> 'r list \<Rightarrow> data_error + 'r list" where
  "fetch_pages time limit step get stop cur rows =
     (if stop < cur then Inr rows
      else case get cur of
             Inl e \<Rightarrow> Inl e
           | Inr [] \<Rightarrow> Inr rows
           | Inr (b # bs) \<Rightarrow>
               (let batch = b # bs; nxt = time (last batch) + step
                in if nxt \<le> cur \<or> length batch < limit then Inr (rows @ batch)
                   else fetch_pages time limit step get stop nxt (rows @ batch)))"
  by pat_completeness auto
termination
  by (relation "measure (\<lambda>(time, limit, step, get, stop, cur, rows). nat (stop + 1 - cur))") auto

declare fetch_pages.simps [simp del]

text \<open>\<open>drop_duplicates\<close> keeps the first row of a time; then the rows are sorted by time.\<close>

fun first_of :: "('r \<Rightarrow> int) \<Rightarrow> 'r list \<Rightarrow> 'r list" where
  "first_of time [] = []"
| "first_of time (c # cs) = c # filter (\<lambda>d. time d \<noteq> time c) (first_of time cs)"

definition tidy :: "('r \<Rightarrow> int) \<Rightarrow> 'r list \<Rightarrow> 'r list" where
  "tidy time rows = sort_key time (first_of time rows)"

definition fetch_klines :: "candle pages \<Rightarrow> string \<Rightarrow> int \<Rightarrow> int \<Rightarrow> data_error + candle list" where
  "fetch_klines get interval start stop =
     (case interval_ms interval of
        None \<Rightarrow> Inl BadInterval
      | Some step \<Rightarrow> map_sum id (tidy ca_t) (fetch_pages ca_t 1500 step get stop start []))"

record funding_rate =
  fu_t :: int
  fu_rate :: "real option"
  fu_mark :: "real option"

definition fetch_funding_rates :: "funding_rate pages \<Rightarrow> int \<Rightarrow> int \<Rightarrow> data_error + funding_rate list" where
  "fetch_funding_rates get start stop = map_sum id (tidy fu_t) (fetch_pages fu_t 1000 1 get stop start [])"

text \<open>\<open>get_onboard_date\<close>: the listed symbols with their onboard dates.\<close>

definition get_onboard_date :: "string \<Rightarrow> (string \<times> int option) list \<Rightarrow> int option" where
  "get_onboard_date symbol rows = (case map_of rows symbol of Some d \<Rightarrow> d | None \<Rightarrow> None)"

text \<open>\<open>load_klines\<close>: the candles and the cache file afterwards; \<open>onboard\<close> is only asked for without a start.\<close>

definition first_start :: "data_error + int option \<Rightarrow> int option \<Rightarrow> data_error + int" where
  "first_start onboard start =
     (case start of Some s \<Rightarrow> Inr s
      | None \<Rightarrow> map_sum id (\<lambda>ob. case ob of Some s \<Rightarrow> s | None \<Rightarrow> 0) onboard)"

definition fetch_and_store ::
    "candle pages \<Rightarrow> string \<Rightarrow> bool \<Rightarrow> candle list option \<Rightarrow> int \<Rightarrow> int \<Rightarrow> (data_error + candle list) \<times> candle list option" where
  "fetch_and_store get interval use_cache cache s e =
     (case fetch_klines get interval s e of
        Inl x \<Rightarrow> (Inl x, cache)
      | Inr df \<Rightarrow> (Inr df, if use_cache \<and> df \<noteq> [] then Some df else cache))"

definition between :: "int \<Rightarrow> int \<Rightarrow> candle list \<Rightarrow> candle list" where
  "between s e cs = filter (\<lambda>c. s \<le> ca_t c \<and> ca_t c \<le> e) cs"

definition load_klines ::
    "(int \<Rightarrow> candle pages) \<Rightarrow> data_error + int option \<Rightarrow> int \<Rightarrow> string \<Rightarrow> int option \<Rightarrow> int option \<Rightarrow> bool
     \<Rightarrow> candle list option \<Rightarrow> (data_error + candle list) \<times> candle list option" where
  "load_klines get onboard now interval start stop use_cache cache =
     (case first_start onboard start of
        Inl x \<Rightarrow> (Inl x, cache)
      | Inr s \<Rightarrow>
          (let e = (case stop of Some t \<Rightarrow> t | None \<Rightarrow> now); refetch = fetch_and_store (get e) interval use_cache cache s e
           in case (if use_cache then cache else None) of
                None \<Rightarrow> refetch
              | Some [] \<Rightarrow> refetch
              | Some (c # cs) \<Rightarrow>
                  if ca_t c \<le> s
                  then (case interval_ms interval of
                          None \<Rightarrow> (Inl BadInterval, cache)
                        | Some step \<Rightarrow>
                            if e - step \<le> ca_t (last (c # cs)) then (Inr (between s e (c # cs)), cache) else refetch)
                  else refetch))"

text \<open>\<open>find_gaps\<close>: the neighbours more than one and a half steps apart.\<close>

fun wide_steps :: "int \<Rightarrow> int list \<Rightarrow> (int \<times> int) list" where
  "wide_steps step (a # b # ts) = (if 3 * step < 2 * (b - a) then [(a, b)] else []) @ wide_steps step (b # ts)"
| "wide_steps step _ = []"

definition find_gaps :: "string \<Rightarrow> int list \<Rightarrow> data_error + (int \<times> int) list" where
  "find_gaps interval ts =
     (case interval_ms interval of None \<Rightarrow> Inl BadInterval | Some step \<Rightarrow> Inr (wide_steps step ts))"

subsection \<open>The realised volatility\<close>

text \<open>\<open>np.log(close / close.shift(1))\<close>: not a number without a price before, or without a finite logarithm.\<close>

definition log_ratio :: "real option \<Rightarrow> real option \<Rightarrow> real option" where
  "log_ratio x y =
     (case (x, y) of (Some a, Some b) \<Rightarrow> if a \<noteq> 0 \<and> 0 < b / a then Some (ln (b / a)) else None | _ \<Rightarrow> None)"

fun log_returns :: "real option list \<Rightarrow> real option list" where
  "log_returns (x # y # xs) = log_ratio x y # log_returns (y # xs)"
| "log_returns _ = []"

definition sample_std :: "real list \<Rightarrow> real" where
  "sample_std xs = (let m = sum_list xs / real (length xs)
     in sqrt ((\<Sum>x\<leftarrow>xs. (x - m)\<^sup>2) / real (length xs - 1)))"

text \<open>\<open>rolling(window).std()\<close> at one place: the last \<open>window\<close> values, all of them numbers.\<close>

definition window_std :: "nat \<Rightarrow> real option list \<Rightarrow> real option" where
  "window_std window xs =
     (if length xs < window \<or> window < 2 then None
      else (let w = drop (length xs - window) xs in if None \<in> set w then None else Some (sample_std (map the w))))"

definition realized_vol_series :: "nat \<Rightarrow> real option list \<Rightarrow> real option list" where
  "realized_vol_series window closes =
     (let r = (if closes = [] then [] else None # log_returns closes)
      in map (\<lambda>i. map_option (\<lambda>s. s * sqrt 365) (window_std window (take i r))) [1 ..< Suc (length r)])"

subsection \<open>Prices\<close>

definition get_price_at :: "(int \<times> real) list \<Rightarrow> int \<Rightarrow> real option" where
  "get_price_at batch ts =
     (if batch = [] then None
      else (let valid = filter (\<lambda>k. fst k \<le> ts) batch
            in Some (snd (if valid = [] then hd batch else last valid))))"

text \<open>The mark price, or the last price when the first answer has none.\<close>

definition get_mark_price :: "real option \<Rightarrow> real \<Rightarrow> real" where
  "get_mark_price premium ticker = (case premium of Some p \<Rightarrow> p | None \<Rightarrow> ticker)"

text \<open>The volatility in force: the last one of the series that is a number.\<close>

definition current_sigma :: "string \<Rightarrow> real \<Rightarrow> nat \<Rightarrow> real option list \<Rightarrow> real" where
  "current_sigma mode value window closes =
     (if mode = ''fixed'' then value
      else (let vs = filter (\<lambda>v. v \<noteq> None) (realized_vol_series window closes)
            in if vs = [] then value else the (last vs)))"

end
