(* ===== verification/Klines_Correct.thy ===== *)
theory Klines_Correct
  imports Klines
begin

text \<open>
  The paged download ends and is complete, the cache returns what the exchange would, up to the
  candle at the very end, and the volatility of a day depends on the days before it only.
\<close>

subsection \<open>Tidying\<close>

lemma first_of_set: "set (first_of time rows) \<subseteq> set rows"
  by (induction rows) auto

lemma first_of_distinct: "distinct (map time rows) \<Longrightarrow> first_of time rows = rows"
proof (induction rows)
  case (Cons c cs)
  then have "filter (\<lambda>d. time d \<noteq> time c) cs = cs" by (simp add: filter_id_conv image_iff) metis
  then show ?case using Cons by simp
qed simp

text \<open>Rows in the order of their times, each time at least a step after the one before.\<close>

definition spaced :: "('r \<Rightarrow> int) \<Rightarrow> int \<Rightarrow> 'r list \<Rightarrow> bool" where
  "spaced time step rows = sorted_wrt (\<lambda>a b. time a + step \<le> time b) rows"

lemma spaced_sorted: "0 < step \<Longrightarrow> spaced time step rows \<Longrightarrow> sorted_wrt (<) (map time rows)"
  unfolding spaced_def sorted_wrt_map by (erule sorted_wrt_mono_rel [rotated]) auto

lemma spaced_filter: "spaced time step rows \<Longrightarrow> spaced time step (filter P rows)"
  unfolding spaced_def by (rule sorted_wrt_filter)

lemma tidy_spaced: "0 < step \<Longrightarrow> spaced time step rows \<Longrightarrow> tidy time rows = rows"
proof -
  assume a: "0 < step" "spaced time step rows"
  then have s: "sorted_wrt (<) (map time rows)" by (rule spaced_sorted)
  then have "distinct (map time rows)" "sorted (map time rows)"
    by (auto simp: strict_sorted_iff)
  then show ?thesis by (simp add: tidy_def first_of_distinct sort_key_id_if_sorted)
qed

subsection \<open>The download\<close>

text \<open>The exchange answers with the next rows of its history, a page at most.\<close>

definition window_of :: "('r \<Rightarrow> int) \<Rightarrow> 'r list \<Rightarrow> int \<Rightarrow> int \<Rightarrow> 'r list" where
  "window_of time hist s e = filter (\<lambda>c. s \<le> time c \<and> time c \<le> e) hist"

definition serves_pages :: "('r \<Rightarrow> int) \<Rightarrow> nat \<Rightarrow> 'r list \<Rightarrow> int \<Rightarrow> 'r pages \<Rightarrow> bool" where
  "serves_pages time limit hist e get \<longleftrightarrow> (\<forall>s. get s = Inr (take limit (window_of time hist s e)))"

text \<open>After a full page the rows left are the window that starts a step after its last row.\<close>

lemma window_rest:
  assumes "spaced time step hist" "0 < step" "0 < n" "n \<le> length (window_of time hist s e)"
  shows "window_of time hist s e =
    take n (window_of time hist s e) @ window_of time hist (time (last (take n (window_of time hist s e))) + step) e"
  using assms(1,3,4)
proof (induction hist arbitrary: n)
  case Nil
  then show ?case by (simp add: window_of_def)
next
  case (Cons c cs)
  have sp: "spaced time step cs" and c: "\<forall>d\<in>set cs. time c + step \<le> time d"
    using Cons.prems(1) by (simp_all add: spaced_def)
  show ?case
  proof (cases "s \<le> time c \<and> time c \<le> e")
    case False
    let ?w = "window_of time cs s e"
    have w: "window_of time (c # cs) s e = ?w" using False by (simp add: window_of_def)
    have n: "0 < n" "n \<le> length ?w" using Cons.prems w by simp_all
    have "last (take n ?w) \<in> set (take n ?w)" using n by (intro last_in_set) auto
    then have "last (take n ?w) \<in> set cs" by (metis in_set_takeD window_of_def filter_is_subset subsetD)
    then have "time c < time (last (take n ?w)) + step" using c assms(2) by force
    then have "window_of time (c # cs) (time (last (take n ?w)) + step) e = window_of time cs (time (last (take n ?w)) + step) e"
      by (simp add: window_of_def)
    then show ?thesis using Cons.IH [OF sp n] w by simp
  next
    case True
    let ?w = "window_of time cs s e"
    have w: "window_of time (c # cs) s e = c # ?w" using True by (simp add: window_of_def)
    have in_s: "s \<le> time d" if "d \<in> set cs" for d using c that True assms(2) by force
    show ?thesis
    proof (cases "n = 1")
      case one: True
      have "window_of time (c # cs) (time c + step) e = filter (\<lambda>d. time d \<le> e) cs"
        using c assms(2) by (auto simp: window_of_def intro: filter_cong)
      also have "\<dots> = ?w" using in_s by (auto simp: window_of_def intro: filter_cong)
      finally show ?thesis using one w by simp
    next
      case False
      then obtain m where m: "n = Suc m" "0 < m" using Cons.prems(2) by (cases n) auto
      have n: "0 < m" "m \<le> length ?w" using m Cons.prems w by simp_all
      have "last (take m ?w) \<in> set (take m ?w)" using n by (intro last_in_set) auto
      then have l: "last (take m ?w) \<in> set cs" by (metis in_set_takeD window_of_def filter_is_subset subsetD)
      have ne: "take m ?w \<noteq> []" using n by auto
      have "time c < time (last (take m ?w)) + step" using c l assms(2) by force
      then have "window_of time (c # cs) (time (last (take m ?w)) + step) e = window_of time cs (time (last (take m ?w)) + step) e"
        by (simp add: window_of_def)
      then show ?thesis using Cons.IH [OF sp n] w m ne by simp
    qed
  qed
qed

lemma window_take_all: "length (window_of time hist s e) \<le> n \<Longrightarrow> take n (window_of time hist s e) = window_of time hist s e"
  by simp

lemma fetch_complete:
  assumes "serves_pages time limit hist e get" "spaced time step hist" "0 < step" "0 < limit"
  shows "fetch_pages time limit step get e cur rows = Inr (rows @ window_of time hist cur e)"
proof (induction "nat (e + 1 - cur)" arbitrary: cur rows rule: less_induct)
  case less
  let ?w = "window_of time hist cur e"
  have get: "get cur = Inr (take limit ?w)" using assms(1) by (simp add: serves_pages_def)
  show ?case
  proof (cases "e < cur")
    case True
    then have "?w = []" by (auto simp: window_of_def filter_empty_conv)
    then show ?thesis using True by (simp add: fetch_pages.simps)
  next
    case le: False
    show ?thesis
    proof (cases "take limit ?w")
      case Nil
      then have "?w = []" using assms(4) by simp
      then show ?thesis using le get Nil by (simp add: fetch_pages.simps)
    next
      case (Cons b bs)
      let ?l = "time (last (b # bs))"
      have "last (b # bs) \<in> set ?w" using Cons by (metis in_set_takeD last_in_set list.distinct(1))
      then have l: "cur \<le> ?l" by (simp add: window_of_def)
      show ?thesis
      proof (cases "length (b # bs) < limit")
        case True
        then have "length (take limit ?w) < limit" unfolding Cons .
        then have "length ?w < limit" by (simp add: min_less_iff_disj)
        then have w: "?w = b # bs" using Cons by simp
        have get': "get cur = Inr (b # bs)" using get Cons by simp
        show ?thesis unfolding w using le get' True by (subst fetch_pages.simps) (simp add: Let_def)
      next
        case False
        then have "limit \<le> length (take limit ?w)" unfolding Cons by simp
        then have n: "limit \<le> length ?w" by simp
        have rest: "?w = (b # bs) @ window_of time hist (?l + step) e"
          using window_rest [OF assms(2,3,4) n] Cons by simp
        have IH: "fetch_pages time limit step get e (?l + step) (rows @ b # bs)
            = Inr ((rows @ b # bs) @ window_of time hist (?l + step) e)"
          using less [of "?l + step" "rows @ b # bs"] l le assms(3) by simp
        have "fetch_pages time limit step get e cur rows = fetch_pages time limit step get e (?l + step) (rows @ b # bs)"
          using le get Cons False l assms(3) by (subst fetch_pages.simps) (simp add: Let_def)
        then show ?thesis using IH rest by simp
      qed
    qed
  qed
qed

lemma fetch_klines_complete:
  assumes "serves_pages ca_t 1500 hist e get" "spaced ca_t step hist" "interval_ms interval = Some step"
  shows "fetch_klines get interval s e = Inr (between s e hist)"
proof -
  have p: "0 < step" using assms(3) by (auto split: if_splits)
  have "fetch_pages ca_t 1500 step get e s [] = Inr (window_of ca_t hist s e)"
    using fetch_complete [OF assms(1,2) p] by simp
  moreover have "tidy ca_t (window_of ca_t hist s e) = window_of ca_t hist s e"
    using p spaced_filter [OF assms(2)] unfolding window_of_def by (rule tidy_spaced)
  ultimately show ?thesis using assms(3) by (simp add: fetch_klines_def between_def window_of_def)
qed

lemma funding_complete:
  assumes "serves_pages fu_t 1000 hist e get" "spaced fu_t 1 hist"
  shows "fetch_funding_rates get s e = Inr (window_of fu_t hist s e)"
proof -
  have "fetch_pages fu_t 1000 1 get e s [] = Inr (window_of fu_t hist s e)"
    using fetch_complete [OF assms] by simp
  moreover have "tidy fu_t (window_of fu_t hist s e) = window_of fu_t hist s e"
    using spaced_filter [OF assms(2)] unfolding window_of_def by (rule tidy_spaced [rotated]) simp
  ultimately show ?thesis by (simp add: fetch_funding_rates_def)
qed

subsection \<open>The cache\<close>

lemma filter_split:
  "sorted_wrt (<) (map time rows) \<Longrightarrow>
   filter P rows = filter (\<lambda>c. P c \<and> time c \<le> L) rows @ filter (\<lambda>c. P c \<and> L < time c) rows"
  for time :: "'r \<Rightarrow> int"
proof (induction rows)
  case (Cons c cs)
  show ?case
  proof (cases "time c \<le> L")
    case False
    then have "filter (\<lambda>c. P c \<and> time c \<le> L) cs = []" using Cons.prems by (auto simp: filter_empty_conv)
    then show ?thesis using Cons False by simp
  qed (use Cons in auto)
qed simp

lemma one_time:
  "sorted_wrt (<) (map time rows) \<Longrightarrow> \<forall>c\<in>set rows. time c = e \<Longrightarrow> rows = [] \<or> (\<exists>c. rows = [c] \<and> time c = e)"
  for time :: "'r \<Rightarrow> int"
  by (cases rows; cases "tl rows") (auto simp: neq_Nil_conv)

lemma sorted_le_last: "sorted (map f xs) \<Longrightarrow> x \<in> set xs \<Longrightarrow> f x \<le> f (last xs)"
  by (induction xs) auto

lemma spaced_after:
  "spaced time step rows \<Longrightarrow> x \<in> set rows \<Longrightarrow> y \<in> set rows \<Longrightarrow> 0 < step \<Longrightarrow> time x < time y \<Longrightarrow> time x + step \<le> time y"
  by (induction rows) (force simp: spaced_def)+

text \<open>A cached stretch of a history, read again when the history has grown.\<close>

lemma cached_window:
  assumes sp: "spaced ca_t step (hist @ new)" and p: "0 < step"
    and c: "between s0 e0 hist = c # cs" and s: "ca_t c \<le> s" and L: "e - step \<le> ca_t (last (c # cs))"
  shows "between s e (hist @ new) = between s e (c # cs)
    \<or> (\<exists>x. between s e (hist @ new) = between s e (c # cs) @ [x] \<and> ca_t x = e)"
proof -
  let ?H = "hist @ new" and ?L = "ca_t (last (c # cs))"
  let ?P = "\<lambda>x. s \<le> ca_t x \<and> ca_t x \<le> e"
  have sorted: "sorted_wrt (<) (map ca_t ?H)" using p sp by (rule spaced_sorted)
  have lc: "last (c # cs) \<in> set (between s0 e0 hist)" unfolding c by (rule last_in_set) simp
  then have lh: "last (c # cs) \<in> set hist" "?L \<le> e0" by (simp_all add: between_def)
  have s0: "s0 \<le> ca_t c" using c by (metis between_def filter_eq_ConsD)
  have top: "ca_t x \<le> ?L" if "x \<in> set (c # cs)" for x
  proof -
    have "sorted (map ca_t (c # cs))"
      using sorted unfolding c [symmetric] between_def
      by (auto simp: strict_sorted_iff sorted_append intro: sorted_filter)
    then show ?thesis using that by (rule sorted_le_last)
  qed
  have new: "?L < ca_t x" if "x \<in> set new" for x
    using sp that lh(1) p by (force simp: spaced_def sorted_wrt_append)
  have in_window: "s0 \<le> ca_t x \<and> ca_t x \<le> e0 \<longleftrightarrow> x \<in> set (c # cs)" if "x \<in> set hist" for x
    using that unfolding c [symmetric] by (simp add: between_def)
  have "filter (\<lambda>x. ?P x \<and> ca_t x \<le> ?L) ?H = filter (\<lambda>x. ?P x \<and> ca_t x \<le> ?L) hist"
    using new by (auto simp: filter_empty_conv dest: leD)
  also have "\<dots> = filter ?P (between s0 e0 hist)"
  proof -
    have same: "?P x \<and> ca_t x \<le> ?L \<longleftrightarrow> ?P x \<and> s0 \<le> ca_t x \<and> ca_t x \<le> e0" if x: "x \<in> set hist" for x
      using in_window [OF x] top [of x] s s0 lh(2) by auto
    show ?thesis unfolding between_def filter_filter
      by (rule filter_cong [OF refl]) (use same in blast)
  qed
  finally have low: "filter (\<lambda>x. ?P x \<and> ca_t x \<le> ?L) ?H = between s e (c # cs)"
    unfolding c by (simp add: between_def)
  let ?hi = "filter (\<lambda>x. ?P x \<and> ?L < ca_t x) ?H"
  have "\<forall>x\<in>set ?hi. ca_t x = e"
  proof
    fix x assume x: "x \<in> set ?hi"
    then have "?L + step \<le> ca_t x"
      using x lh(1) by (intro spaced_after [OF sp _ _ p]) (auto simp del: last.simps)
    then show "ca_t x = e" using x L by (auto simp del: last.simps)
  qed
  moreover have "sorted_wrt (<) (map ca_t ?hi)" using p spaced_filter [OF sp] by (rule spaced_sorted)
  ultimately have "?hi = [] \<or> (\<exists>x. ?hi = [x] \<and> ca_t x = e)" by (intro one_time)
  moreover have "between s e ?H = between s e (c # cs) @ ?hi"
    using filter_split [OF sorted, of ?P ?L] low by (simp add: between_def)
  ultimately show ?thesis by auto
qed


text \<open>Three minutes in the file, a fourth at the exchange; the window ends at its opening.\<close>

definition minute_candle :: "int \<Rightarrow> candle" where
  "minute_candle i = \<lparr>ca_t = 60000 * i, ca_open = Some 80, ca_high = None, ca_low = None, ca_close = Some 81, ca_volume = Some 1\<rparr>"


subsection \<open>No look ahead\<close>

lemma log_returns_prefix: "xs \<noteq> [] \<Longrightarrow> take (length xs - 1) (log_returns (xs @ ys)) = log_returns xs"
proof (induction xs rule: log_returns.induct)
  case (1 x y xs)
  then show ?case by simp
qed simp_all

lemma log_returns_length: "length (log_returns xs) = length xs - 1"
  by (induction xs rule: log_returns.induct) auto

lemma vol_prefix: "take (length xs) (realized_vol_series w (xs @ ys)) = realized_vol_series w xs"
proof (cases "xs = []")
  case False
  let ?r = "None # log_returns xs" and ?q = "None # log_returns (xs @ ys)"
  have q: "take (length xs) ?q = ?r"
    using log_returns_prefix [OF False, of ys] False by (cases "length xs") auto
  have lr: "length ?r = length xs" using False by (simp add: log_returns_length)
  have lq: "length ?q = length (xs @ ys)" using False by (simp add: log_returns_length)
  have pre: "take i ?q = take i ?r" if "i \<le> length xs" for i
    using that unfolding q [symmetric] by (simp only: take_take min_absorb1)
  have "take (length xs) [1 ..< Suc (length ?q)] = [1 ..< Suc (length xs)]"
    unfolding lq by (simp add: take_upt del: upt_Suc)
  then have "take (length xs) (map (\<lambda>i. map_option (\<lambda>s. s * sqrt 365) (window_std w (take i ?q))) [1 ..< Suc (length ?q)])
      = map (\<lambda>i. map_option (\<lambda>s. s * sqrt 365) (window_std w (take i ?q))) [1 ..< Suc (length xs)]"
    unfolding take_map by (simp only:)
  also have "\<dots> = map (\<lambda>i. map_option (\<lambda>s. s * sqrt 365) (window_std w (take i ?r))) [1 ..< Suc (length ?r)]"
    unfolding lr by (rule map_cong [OF refl]) (simp only: set_upt atLeastLessThan_iff less_Suc_eq_le pre)
  finally show ?thesis using False unfolding realized_vol_series_def Let_def by (simp only: append_is_Nil_conv simp_thms if_False)
qed (simp add: realized_vol_series_def)

text \<open>The volatility of the backtest does not look ahead: at any moment it is a function of the closes
  of the days before that moment only, whatever the closes of that day and later are.\<close>

theorem sigma_no_lookahead:
  assumes "length days = length closes" and "\<forall>d\<in>set later_days. ts div day_us * day_us \<le> d"
  shows "sigma_lookup mode value (zip (days @ later_days) (realized_vol_series w (closes @ later))) ts
    = sigma_lookup mode value (zip days (realized_vol_series w closes)) ts"
proof -
  let ?v = "realized_vol_series w (closes @ later)"
  let ?P = "\<lambda>(d :: int, v :: real option). d < ts div day_us * day_us"
  have "zip (days @ later_days) ?v = zip days (take (length days) ?v) @ zip later_days (drop (length days) ?v)"
    by (rule zip_append1)
  also have "take (length days) ?v = realized_vol_series w closes" unfolding assms(1) by (rule vol_prefix)
  finally have z: "zip (days @ later_days) ?v = zip days (realized_vol_series w closes) @ zip later_days (drop (length days) ?v)" .
  have "filter ?P (zip later_days (drop (length days) ?v)) = []"
    using assms(2) by (fastforce simp: filter_empty_conv dest: set_zip_leftD)
  then have "filter ?P (zip (days @ later_days) ?v) = filter ?P (zip days (realized_vol_series w closes))"
    unfolding z by simp
  then show ?thesis unfolding sigma_lookup_def Let_def by (simp only:)
qed

lemma sigma_no_lookahead_witness:
  "sigma_lookup ''realized'' (3 / 5) (zip ([0, day_us] @ [2 * day_us]) (realized_vol_series 2 ([Some 80, Some 81] @ [Some 200]))) (2 * day_us)
    = sigma_lookup ''realized'' (3 / 5) (zip [0, day_us] (realized_vol_series 2 [Some 80, Some 81])) (2 * day_us)"
  by (rule sigma_no_lookahead) (simp_all add: day_us_def)

end
