(* ===== verification/Straddle_Live.thy ===== *)
theory Straddle_Live
  imports Klines Straddle_Correct
begin

text \<open>
  The live loop of the straddle replication, \<open>legacy/straddle/live.py\<close>: the state file, the
  resumption after a restart and the polling loop over the same engine and simulated broker as the
  backtest.  A turn of the loop reads the clock, the price and, when the last one is over an hour
  old, the volatility; each query may fail, and a failing turn is retried at the next.
\<close>

subsection \<open>The state file\<close>

record saved_state =
  sv_position :: real
  sv_cash :: real
  sv_fees :: real
  sv_trades :: nat
  sv_K :: "real option"
  sv_anchor :: "int option"
  sv_expiry :: "int option"

datatype state_file = NoFile | BrokenFile | StateFile saved_state

definition saved_of :: "sim_broker \<Rightarrow> replicator \<Rightarrow> saved_state" where
  "saved_of b r =
     \<lparr>sv_position = br_position b, sv_cash = br_cash b, sv_fees = br_fees b, sv_trades = length (br_trades b),
      sv_K = sr_K r, sv_anchor = sr_anchor r, sv_expiry = sr_expiry r\<rparr>"

text \<open>\<open>_resume_or_seed\<close>: \<open>at a\<close> is the price at the start of the window, asked for only without a fitting file.\<close>

definition seed_at :: "(int \<Rightarrow> data_error + real option) \<Rightarrow> int \<Rightarrow> int \<Rightarrow> sim_broker \<Rightarrow> replicator
    \<Rightarrow> data_error + sim_broker \<times> replicator" where
  "seed_at price_at anchor expiry b r =
     map_sum id (\<lambda>kp. (b, if kp \<noteq> None \<and> kp \<noteq> Some 0 then sr_seed anchor expiry (the kp) r else r)) (price_at anchor)"

definition resume_or_seed ::
    "sr_env \<Rightarrow> int \<Rightarrow> state_file \<Rightarrow> (int \<Rightarrow> data_error + real option) \<Rightarrow> sim_broker \<Rightarrow> replicator
     \<Rightarrow> data_error + sim_broker \<times> replicator" where
  "resume_or_seed v now file price_at b r =
     (case active_window v now of
        None \<Rightarrow> Inr (b, r)
      | Some (anchor, expiry) \<Rightarrow>
          (case file of
             StateFile s \<Rightarrow>
               (case sv_K s of
                  Some K \<Rightarrow>
                    if sv_anchor s = Some anchor
                    then Inr (b\<lparr>br_position := sv_position s, br_cash := sv_cash s, br_fees := sv_fees s\<rparr>, sr_seed anchor expiry K r)
                    else seed_at price_at anchor expiry b r
                | None \<Rightarrow> seed_at price_at anchor expiry b r)
           | _ \<Rightarrow> seed_at price_at anchor expiry b r))"

subsection \<open>The loop\<close>

record live_sim =
  lv_engine :: replicator
  lv_broker :: sim_broker
  lv_sigma :: real
  lv_sigma_at :: real
  lv_file :: state_file

text \<open>What a turn reads.\<close>

record live_turn =
  lt_now :: int
  lt_mark :: "data_error + real"
  lt_clock :: real
  lt_vol :: "data_error + real"

datatype turn_error = DataError data_error | FormulaError formula_error

definition fresh_sigma :: "live_turn \<Rightarrow> live_sim \<Rightarrow> turn_error + live_sim" where
  "fresh_sigma t s =
     (if 3600 < lt_clock t - lv_sigma_at s
      then map_sum DataError (\<lambda>x. s\<lparr>lv_sigma := x, lv_sigma_at := lt_clock t\<rparr>) (lt_vol t)
      else Inr s)"

definition save_turn :: "live_sim \<Rightarrow> live_sim" where
  "save_turn s = s\<lparr>lv_file := StateFile (saved_of (lv_broker s) (lv_engine s))\<rparr>"

definition trade_turn :: "real \<Rightarrow> int \<Rightarrow> real \<Rightarrow> decision \<Rightarrow> live_sim \<Rightarrow> live_sim" where
  "trade_turn band ts price d s =
     (if de_rebalance d
      then save_turn (s\<lparr>lv_broker := snd (rebalance_to ts (de_target d) price band
             (if de_new d then Reset else if de_settled d then Settle else Rebal) (lv_broker s))\<rparr>)
      else s)"

definition live_step :: "sr_env \<Rightarrow> real \<Rightarrow> live_turn \<Rightarrow> live_sim \<Rightarrow> (turn_error + decision) \<times> live_sim" where
  "live_step v band t s =
     (case lt_mark t of
        Inl e \<Rightarrow> (Inl (DataError e), s)
      | Inr price \<Rightarrow>
          (case fresh_sigma t s of
             Inl e \<Rightarrow> (Inl e, s)
           | Inr s1 \<Rightarrow>
               (case sr_step v (lt_now t) price (lv_sigma s1) (lv_engine s1) of
                  (Inl e, r) \<Rightarrow> (Inl (FormulaError e), s1\<lparr>lv_engine := r\<rparr>)
                | (Inr d, r) \<Rightarrow> (Inr d, trade_turn band (lt_now t) price d (s1\<lparr>lv_engine := r\<rparr>)))))"

text \<open>The turns until the stop; with \<open>once\<close> there is one, and its error is raised.\<close>

fun live_turns :: "sr_env \<Rightarrow> real \<Rightarrow> live_turn list \<Rightarrow> live_sim \<Rightarrow> live_sim" where
  "live_turns v band [] s = s"
| "live_turns v band (t # ts) s = live_turns v band ts (snd (live_step v band t s))"

text \<open>The start: only the simulated broker can be made (the module of the other one does not exist).\<close>

datatype live_start_error = StartData data_error | NoLiveBroker

definition live_start ::
    "sr_env \<Rightarrow> bool \<Rightarrow> string \<Rightarrow> real \<Rightarrow> real \<Rightarrow> int \<Rightarrow> state_file \<Rightarrow> (int \<Rightarrow> data_error + real option)
     \<Rightarrow> data_error + real \<Rightarrow> real \<Rightarrow> live_start_error + live_sim" where
  "live_start v paper mode taker slip now file price_at vol clock =
     (if paper \<or> mode = ''paper''
      then (case resume_or_seed v now file price_at (broker_init taker slip) sr_init of
              Inl e \<Rightarrow> Inl (StartData e)
            | Inr (b, r) \<Rightarrow>
                map_sum StartData (\<lambda>x. \<lparr>lv_engine = r, lv_broker = b, lv_sigma = x, lv_sigma_at = clock, lv_file = file\<rparr>) vol)
      else Inl NoLiveBroker)"

definition run_live ::
    "sr_env \<Rightarrow> real \<Rightarrow> bool \<Rightarrow> string \<Rightarrow> real \<Rightarrow> real \<Rightarrow> int \<Rightarrow> state_file \<Rightarrow> (int \<Rightarrow> data_error + real option)
     \<Rightarrow> data_error + real \<Rightarrow> real \<Rightarrow> live_turn list \<Rightarrow> live_start_error + live_sim" where
  "run_live v band paper mode taker slip now file price_at vol clock turns =
     map_sum id (live_turns v band turns) (live_start v paper mode taker slip now file price_at vol clock)"

end
