(* ===== verification/Straddle_Restart.thy ===== *)
theory Straddle_Restart
  imports Straddle_Live
begin

text \<open>
  A restart of the live loop inside a cycle: the state file holds the position, the cash, the fees
  and the cycle of the running process, and a process started from it continues that cycle.
\<close>

subsection \<open>The file follows the process\<close>

definition file_fits :: "live_sim \<Rightarrow> bool" where
  "file_fits s \<longleftrightarrow>
     (case lv_file s of
        StateFile f \<Rightarrow> sv_position f = br_position (lv_broker s) \<and> sv_cash f = br_cash (lv_broker s)
          \<and> sv_fees f = br_fees (lv_broker s) \<and> sv_K f = sr_K (lv_engine s) \<and> sv_anchor f = sr_anchor (lv_engine s)
          \<and> sv_expiry f = sr_expiry (lv_engine s)
      | _ \<Rightarrow> False)"

definition live_ok :: "live_sim \<Rightarrow> bool" where
  "live_ok s \<longleftrightarrow>
     rep_ok (lv_engine s) \<and> 0 < lv_sigma s \<and> (\<forall>K. sr_K (lv_engine s) = Some K \<longrightarrow> 0 < K)
     \<and> (sr_last (lv_engine s) \<noteq> None \<longrightarrow> file_fits s)"

definition turn_fine :: "live_turn \<Rightarrow> bool" where
  "turn_fine t \<longleftrightarrow> (case lt_mark t of Inr p \<Rightarrow> 0 < p | Inl _ \<Rightarrow> True) \<and> (case lt_vol t of Inr x \<Rightarrow> 0 < x | Inl _ \<Rightarrow> True)"

lemma decide_quiet:
  "sr_decide v ts price \<sigma> new settled prev \<tau> dl target r = (d, r1) \<Longrightarrow> de_rebalance d \<or> (r1 = r \<and> \<not> new \<and> \<not> settled)"
  by (auto simp: sr_decide_def Let_def)

lemma hold_quiet:
  "sr_hold v ts price \<sigma> new settled prev r = (Inr d, r1) \<Longrightarrow> de_rebalance d \<or> (r1 = r \<and> \<not> new \<and> \<not> settled)"
  unfolding sr_hold_def Let_def by (auto split: option.splits sum.splits prod.splits dest: decide_quiet simp: apfst_def map_prod_def)

lemma enter_quiet:
  "sr_enter v ts price \<sigma> settled prev r = (Inr d, r1) \<Longrightarrow> de_rebalance d \<or> (r1 = r \<and> \<not> settled)"
  unfolding sr_enter_def
  by (auto split: option.splits if_splits prod.splits dest: decide_quiet hold_quiet simp: apfst_def map_prod_def)

lemma step_quiet: "sr_step v ts price \<sigma> r = (Inr d, r1) \<Longrightarrow> de_rebalance d \<or> r1 = r"
  unfolding sr_step_def by (auto split: option.splits if_splits dest: hold_quiet enter_quiet)

subsection \<open>Positive inputs give decisions\<close>

lemma hold_decides:
  assumes "in_cycle a e K r" "0 < K" "0 < price" "0 < \<sigma>" "0 < se_floor v"
  shows "\<exists>d r1. sr_hold v ts price \<sigma> new settled prev r = (Inr d, r1)"
proof -
  have t: "0 < sr_tau v ts e" using assms(5) by (simp add: sr_tau_def)
  then have "\<exists>x. straddle_delta price K (sr_tau v ts e) \<sigma> (se_rate v) = Inr x"
    using assms by (simp add: straddle_delta_def bs_d1_def)
  then show ?thesis using assms(1) by (auto simp: sr_hold_def in_cycle_def Let_def apfst_def map_prod_def split: prod.split)
qed

lemma enter_decides:
  assumes "fixed_zone off v" "rep_ok r" "\<not> sr_active r" "0 < price" "0 < \<sigma>" "0 < se_floor v"
  shows "\<exists>d r1. sr_enter v ts price \<sigma> settled prev r = (Inr d, r1)"
proof (cases "free_window v ts r")
  case None
  then show ?thesis by (auto simp: sr_enter_def apfst_def map_prod_def split: prod.split)
next
  case (Some w)
  obtain a e where w: "w = (a, e)" by (cases w)
  have aw: "active_window v ts = Some (a, e)" "\<forall>x. sr_expiry r = Some x \<longrightarrow> x \<le> a"
    using Some w by (auto simp: free_window_def split: option.splits if_splits)
  have t: "a \<le> ts" "ts < e" using window_in [OF assms(1) aw(1)] by simp_all
  have new: "sr_anchor r \<noteq> Some a"
    using assms(2) aw(2) by (auto simp: rep_ok_def no_cycle_def in_cycle_def)
  let ?r0 = "\<lparr>sr_K = Some price, sr_anchor = Some a, sr_expiry = Some e, sr_active = True, sr_last = Some ts\<rparr>"
  have "in_cycle a e price ?r0" using t by (simp add: in_cycle_def)
  from hold_decides [OF this assms(4,4,5,6)] show ?thesis
    using assms(3) Some w new by (simp add: sr_enter_def)
qed

lemma step_decides:
  assumes "fixed_zone off v" "rep_ok r" "\<forall>K. sr_K r = Some K \<longrightarrow> 0 < K" "0 < price" "0 < \<sigma>" "0 < se_floor v"
  shows "\<exists>d r1. sr_step v ts price \<sigma> r = (Inr d, r1)"
proof (cases "sr_active r")
  case False
  then show ?thesis using enter_decides [OF assms(1,2) False assms(4-6)] by (simp add: sr_step_def)
next
  case True
  then obtain a e K where c: "in_cycle a e K r" using assms(2) by (auto simp: rep_ok_def no_cycle_def)
  then have e: "sr_expiry r = Some e" "0 < K" using assms(3) by (simp_all add: in_cycle_def)
  show ?thesis
  proof (cases "ts < e")
    case lt: True
    then show ?thesis using hold_decides [OF c e(2) assms(4-6)] True e by (simp add: sr_step_def)
  next
    case False
    have "rep_ok (r\<lparr>sr_active := False\<rparr>)" using c by (auto simp: rep_ok_def in_cycle_def)
    from enter_decides [OF assms(1) this _ assms(4-6)] show ?thesis using True e False by (simp add: sr_step_def)
  qed
qed

subsection \<open>A turn and a session\<close>

lemma moves_K:
  "moves ts price r r1 \<Longrightarrow> 0 < price \<Longrightarrow> \<forall>K. sr_K r = Some K \<longrightarrow> 0 < K \<Longrightarrow> \<forall>K. sr_K r1 = Some K \<longrightarrow> 0 < K"
  by (auto simp: moves_def same_cycle_def in_cycle_def)

lemma turn_ok:
  assumes "fixed_zone off v" "0 < se_floor v" "live_ok s" "turn_fine t"
  shows "live_ok (snd (live_step v band t s))"
proof (cases "lt_mark t")
  case (Inl e)
  then show ?thesis using assms(3) by (simp add: live_step_def)
next
  case (Inr price)
  have p: "0 < price" using assms(4) Inr by (simp add: turn_fine_def)
  show ?thesis
  proof (cases "fresh_sigma t s")
    case (Inl e)
    then show ?thesis using Inr assms(3) by (simp add: live_step_def)
  next
    case (Inr s1)
    have s1: "lv_engine s1 = lv_engine s" "lv_broker s1 = lv_broker s" "lv_file s1 = lv_file s" "0 < lv_sigma s1"
      using Inr assms(3,4) by (auto simp: fresh_sigma_def live_ok_def turn_fine_def split: if_splits sum.splits)
    have ok: "rep_ok (lv_engine s)" "\<forall>K. sr_K (lv_engine s) = Some K \<longrightarrow> 0 < K" using assms(3) by (simp_all add: live_ok_def)
    obtain d r1 where d: "sr_step v (lt_now t) price (lv_sigma s1) (lv_engine s) = (Inr d, r1)"
      using step_decides [OF assms(1) ok p s1(4) assms(2)] by blast
    have m: "moves (lt_now t) price (lv_engine s) r1"
      using step_moves [OF assms(1) ok(1), of "lt_now t" price "lv_sigma s1"] d by simp
    have step: "live_step v band t s = (Inr d, trade_turn band (lt_now t) price d (s1\<lparr>lv_engine := r1\<rparr>))"
      using d \<open>lt_mark t = Inr price\<close> Inr s1(1) by (simp add: live_step_def)
    have r1: "rep_ok r1" "\<forall>K. sr_K r1 = Some K \<longrightarrow> 0 < K"
      using rep_ok_moves [OF ok(1) m] moves_K [OF m p ok(2)] by simp_all
    show ?thesis
    proof (cases "de_rebalance d")
      case True
      then show ?thesis using r1 s1(4) by (simp add: step live_ok_def trade_turn_def save_turn_def file_fits_def saved_of_def)
    next
      case False
      then have "r1 = lv_engine s" using step_quiet [OF d] by simp
      then show ?thesis using False s1 assms(3) by (auto simp: step trade_turn_def live_ok_def file_fits_def split: state_file.splits)
    qed
  qed
qed

lemma turns_ok:
  "fixed_zone off v \<Longrightarrow> 0 < se_floor v \<Longrightarrow> live_ok s \<Longrightarrow> list_all turn_fine ts \<Longrightarrow> live_ok (live_turns v band ts s)"
  by (induction ts arbitrary: s) (auto intro: turn_ok)

lemma window_order: "fixed_zone off v \<Longrightarrow> active_window v ts = Some (a, e) \<Longrightarrow> a < e"
  using window_in by fastforce

lemma start_ok:
  assumes "fixed_zone off v" "live_start v paper mode taker slip now file price_at vol clock = Inr s"
    and "\<And>a p. price_at a = Inr (Some p) \<Longrightarrow> 0 \<le> p" "\<And>x. vol = Inr x \<Longrightarrow> 0 < x"
    and "\<And>f K. file = StateFile f \<Longrightarrow> sv_K f = Some K \<Longrightarrow> 0 < K"
  shows "live_ok s"
proof -
  obtain b r x where r: "resume_or_seed v now file price_at (broker_init taker slip) sr_init = Inr (b, r)"
    and s: "s = \<lparr>lv_engine = r, lv_broker = b, lv_sigma = x, lv_sigma_at = clock, lv_file = file\<rparr>" "vol = Inr x"
    using assms(2) by (cases vol) (auto simp: live_start_def split: if_splits sum.splits)
  have seed: "rep_ok (sr_seed a e K sr_init) \<and> sr_last (sr_seed a e K sr_init) = None \<and> sr_K (sr_seed a e K sr_init) = Some K"
    if "a < e" for a e K
    using that by (simp add: sr_seed_def rep_ok_def in_cycle_def)
  have init: "rep_ok sr_init \<and> sr_last sr_init = None \<and> sr_K sr_init = None"
    by (simp add: sr_init_def rep_ok_def no_cycle_def)
  have "rep_ok r \<and> sr_last r = None \<and> (\<forall>K. sr_K r = Some K \<longrightarrow> 0 < K)"
  proof (cases "active_window v now")
    case None
    then show ?thesis using r init by (auto simp: resume_or_seed_def)
  next
    case (Some w)
    obtain a e where w: "w = (a, e)" by (cases w)
    have ae: "a < e" using window_order [OF assms(1)] Some w by simp
    have at: "rep_ok r' \<and> sr_last r' = None \<and> (\<forall>K. sr_K r' = Some K \<longrightarrow> 0 < K)"
      if "seed_at price_at a e b0 sr_init = Inr (b', r')" for b0 b' r'
    proof (cases "price_at a")
      case (Inr kp)
      then show ?thesis using that seed [OF ae] init assms(3) [of a]
        by (cases kp) (force simp: seed_at_def order.order_iff_strict split: if_splits)+
    qed (use that in \<open>simp add: seed_at_def\<close>)
    show ?thesis
    proof (cases "file :: state_file")
      case (StateFile f)
      then show ?thesis using r Some w at seed [OF ae] assms(5) [OF StateFile]
        by (auto simp: resume_or_seed_def split: option.splits if_splits)
    qed (use r Some w at in \<open>auto simp: resume_or_seed_def\<close>)
  qed
  then show ?thesis using s assms(4) by (simp add: live_ok_def)
qed


text \<open>A process started at 10:00 in Korea without a file; one turn, then a restart.\<close>

definition ten_o_clock :: live_turn where
  "ten_o_clock = \<lparr>lt_now = 3600000000, lt_mark = Inr 80, lt_clock = 0, lt_vol = Inl NoAnswer\<rparr>"

lemma ten_window: "active_window kst_env 3600000000 = Some (- 3600000000, 23400000000)"
  by (simp add: active_window_def kst_env_def kst_cfg_def day_us_def minute_us_def Let_def)

lemma ten_step:
  "\<exists>d. sr_step kst_env 3600000000 80 (3 / 5) sr_init =
     (Inr d, \<lparr>sr_K = Some 80, sr_anchor = Some (- 3600000000), sr_expiry = Some 23400000000, sr_active = True, sr_last = Some 3600000000\<rparr>)"
proof -
  have "0 < sr_tau kst_env 3600000000 23400000000" by (simp add: sr_tau_def kst_env_def)
  then obtain x where x: "straddle_delta 80 80 (sr_tau kst_env 3600000000 23400000000) (3 / 5) (se_rate kst_env) = Inr x"
    by (simp add: straddle_delta_def bs_d1_def)
  show ?thesis
    by (simp add: sr_step_def sr_enter_def free_window_def ten_window sr_hold_def sr_decide_def Let_def x sr_init_def)
qed


end
