(* ===== verification/Journal_Store.thy ===== *)
theory Journal_Store
  imports Replay
begin

text \<open>
  The trade, signal and event journals with their copy in the database: \<open>Store\<close> of
  \<open>strategies/pastofi_crypto/store.py\<close>.  A record is a dict; a file is the list of its lines, with
  a flag for a last line that was cut short before its end of line.  The database thread takes one
  record at a time from the queue; the outcome of every access to the database is an argument.
\<close>

subsection \<open>Records and rows\<close>

text \<open>A value: null, a number, a text that is not a number, an instant.\<close>

datatype jval = JNull | JNum real | JText string | JTime real

type_synonym jrec = "(string \<times> jval) list"

definition rget :: "jrec \<Rightarrow> string \<Rightarrow> jval" where
  "rget r k = (case map_of r k of Some x \<Rightarrow> x | None \<Rightarrow> JNull)"

datatype row_error = MissingKey | BadTime

fun as_time :: "jval \<Rightarrow> row_error + jval" where
  "as_time JNull = Inr JNull"
| "as_time (JTime t) = Inr (JTime t)"
| "as_time (JNum t) = Inr (JTime t)"
| "as_time (JText s) = Inl BadTime"

datatype cell = Cell jval | Rest jrec

definition trade_columns :: "string list" where
  "trade_columns = [''mode'', ''trade_id'', ''symbol'', ''day'', ''t_sig'', ''entry_ts'', ''exit_ts'', ''side'', ''qty'', ''entry_px'',
     ''exit_px'', ''assumed_in'', ''assumed_out'', ''reason'', ''gross_usd'', ''fees_usd'', ''net_usd'', ''pnl_bp'', ''assumed_bp'',
     ''slip_in_bp'', ''slip_out_bp'', ''past_bp'', ''ofi_ratio'', ''entry_cid'', ''exit_cid'', ''spec_version'', ''detail'']"

definition signal_columns :: "string list" where
  "signal_columns = [''mode'', ''symbol'', ''t_sig'', ''day'', ''status'', ''skip_reason'', ''p_in'', ''t_out'', ''p_out'', ''reason'',
     ''engine_bp'', ''past_bp'', ''ofi_ratio'', ''detail'']"

text \<open>The columns of a record with its times converted; what is not a column goes into the detail.\<close>

fun with_times :: "string list \<Rightarrow> jrec \<Rightarrow> row_error + (string \<times> jval) list" where
  "with_times [] r = Inr []"
| "with_times (k # ks) r =
     (case as_time (rget r k) of
        Inl e \<Rightarrow> Inl e
      | Inr t \<Rightarrow> map_sum id (\<lambda>ts. (k, t) # ts) (with_times ks r))"

definition row_cells :: "string list \<Rightarrow> (string \<times> jval) list \<Rightarrow> jrec \<Rightarrow> cell list" where
  "row_cells cols tms r =
     map (\<lambda>c. if c = ''detail'' then Rest (filter (\<lambda>(k, _). k \<notin> set cols) r)
              else Cell (case map_of tms c of Some t \<Rightarrow> t | None \<Rightarrow> rget r c)) cols"

definition trade_cells :: "jrec \<Rightarrow> row_error + cell list" where
  "trade_cells r =
     (if map_of r ''t_sig'' = None then Inl MissingKey
      else map_sum id (\<lambda>ts. row_cells trade_columns ts r) (with_times [''t_sig'', ''entry_ts'', ''exit_ts''] r))"

definition signal_cells :: "jrec \<Rightarrow> row_error + cell list" where
  "signal_cells r =
     (if map_of r ''t_sig'' = None then Inl MissingKey
      else map_sum id (\<lambda>ts. row_cells signal_columns ts r) (with_times [''t_sig'', ''t_out''] r))"

subsection \<open>The store\<close>

datatype jkind = TradeRec | SignalRec

text \<open>The keys of the journal and of the table; both tables start with the columns of their key.\<close>

fun journal_key :: "jkind \<Rightarrow> jrec \<Rightarrow> jval list" where
  "journal_key TradeRec r = [rget r ''trade_id'']"
| "journal_key SignalRec r = [rget r ''symbol'', rget r ''t_sig'']"

fun cells_of :: "jkind \<Rightarrow> jrec \<Rightarrow> row_error + cell list" where
  "cells_of TradeRec r = trade_cells r"
| "cells_of SignalRec r = signal_cells r"

fun table_key :: "jkind \<Rightarrow> cell list \<Rightarrow> cell list" where
  "table_key TradeRec row = take 2 row"
| "table_key SignalRec row = take 3 row"

text \<open>\<open>INSERT ... ON CONFLICT (key) DO UPDATE\<close>: the row replaces the one of its key.\<close>

type_synonym jtable = "(cell list \<times> cell list) list"

definition upsert :: "jkind \<Rightarrow> cell list \<Rightarrow> jtable \<Rightarrow> jtable" where
  "upsert kind row t = AList.update (table_key kind row) row t"

record jfile =
  jf_lines :: "jrec line list"
  jf_cut :: bool

record jstore =
  so_mode :: string
  so_journal :: "jkind \<Rightarrow> jfile"
  so_events :: jfile
  so_queue :: "(jkind \<times> jrec) list option"
  so_thread :: bool
  so_connected :: bool
  so_errors :: nat
  so_table :: "jkind \<Rightarrow> jtable"

definition store_open :: "string \<Rightarrow> bool \<Rightarrow> (jkind \<Rightarrow> jfile) \<Rightarrow> jfile \<Rightarrow> (jkind \<Rightarrow> jtable) \<Rightarrow> jstore" where
  "store_open mode use_db journal events tables =
     \<lparr>so_mode = mode, so_journal = journal, so_events = events, so_queue = (if use_db then Some [] else None),
      so_thread = use_db, so_connected = False, so_errors = 0, so_table = tables\<rparr>"

text \<open>\<open>_append\<close>: the record and its end of line; after a line that was cut short it is part of that line.\<close>

definition append_line :: "jrec \<Rightarrow> jfile \<Rightarrow> jfile" where
  "append_line r f = (if jf_cut f then f\<lparr>jf_cut := False\<rparr> else f\<lparr>jf_lines := jf_lines f @ [Line r]\<rparr>)"

text \<open>\<open>{"mode": self.mode, **rec}\<close>: an own mode of the record stays.\<close>

definition with_mode :: "string \<Rightarrow> jrec \<Rightarrow> jrec" where
  "with_mode mode r = (if map_of r ''mode'' = None then (''mode'', JText mode) # r else r)"

definition store_rec :: "jkind \<Rightarrow> jrec \<Rightarrow> jstore \<Rightarrow> jstore" where
  "store_rec kind r s =
     (let r1 = with_mode (so_mode s) r
      in s\<lparr>so_journal := (so_journal s)(kind := append_line r1 (so_journal s kind)),
           so_queue := map_option (\<lambda>q. q @ [(kind, r1)]) (so_queue s)\<rparr>)"

definition store_event :: "string \<Rightarrow> jrec \<Rightarrow> jstore \<Rightarrow> jstore" where
  "store_event logged_at r s =
     s\<lparr>so_events := append_line (AList.merge [(''logged_at'', JText logged_at), (''mode'', JText (so_mode s))] r) (so_events s)\<rparr>"

definition store_read :: "jkind \<Rightarrow> jstore \<Rightarrow> jrec list" where
  "store_read kind s = read_jsonl (journal_key kind) (jf_lines (so_journal s kind))"

text \<open>One turn of the database thread: the statement is executed, or fails with a message.  A failure with
  an empty message ends the thread, because the handler takes the first line of the message.\<close>

datatype db_outcome = DbDone | DbFailed bool

definition db_error :: "bool \<Rightarrow> jstore \<Rightarrow> jstore" where
  "db_error blank s =
     (if blank then s\<lparr>so_errors := so_errors s + 1, so_thread := False\<rparr>
      else s\<lparr>so_errors := so_errors s + 1, so_connected := False\<rparr>)"

definition db_turn :: "db_outcome \<Rightarrow> jstore \<Rightarrow> jstore" where
  "db_turn out s =
     (case so_queue s of
        Some ((kind, r) # q) \<Rightarrow>
          if \<not> so_thread s then s
          else
            (let s1 = s\<lparr>so_queue := Some q\<rparr>
             in case out of
                  DbFailed blank \<Rightarrow> db_error blank s1
                | DbDone \<Rightarrow>
                    (case cells_of kind r of
                       Inl _ \<Rightarrow> db_error False (s1\<lparr>so_connected := True\<rparr>)
                     | Inr row \<Rightarrow>
                         s1\<lparr>so_connected := True, so_table := (so_table s1)(kind := upsert kind row (so_table s1 kind))\<rparr>))
      | _ \<Rightarrow> s)"

text \<open>\<open>sync_all\<close>: everything that the journals hold, in one transaction.\<close>

fun all_cells :: "jkind \<Rightarrow> jrec list \<Rightarrow> row_error + cell list list" where
  "all_cells kind [] = Inr []"
| "all_cells kind (r # rs) =
     (case cells_of kind r of
        Inl e \<Rightarrow> Inl e
      | Inr row \<Rightarrow> map_sum id (\<lambda>rows. row # rows) (all_cells kind rs))"

datatype sync_error = SyncDb | SyncRow row_error

definition sync_all :: "bool \<Rightarrow> jstore \<Rightarrow> (sync_error + nat) \<times> jstore" where
  "sync_all db_ok s =
     (if \<not> db_ok then (Inl SyncDb, s)
      else
        (let tr = store_read TradeRec s; sg = store_read SignalRec s
         in case all_cells TradeRec tr of
              Inl e \<Rightarrow> (Inl (SyncRow e), s)
            | Inr trows \<Rightarrow>
                (case all_cells SignalRec sg of
                   Inl e \<Rightarrow> (Inl (SyncRow e), s)
                 | Inr srows \<Rightarrow>
                     (Inr (length tr + length sg),
                      s\<lparr>so_table := (so_table s)(TradeRec := fold (upsert TradeRec) trows (so_table s TradeRec),
                                                SignalRec := fold (upsert SignalRec) srows (so_table s SignalRec))\<rparr>))))"

end
