(* ===== verification/Journal_Correct.thy ===== *)
theory Journal_Correct
  imports Journal_Store Replay_Correct
begin

text \<open>
  After a synchronisation the tables hold the last record of every key of the journals, and keep
  doing so while the database takes the records of the queue; a line that was cut short by a
  crash costs the first record of the next process.
\<close>

subsection \<open>Keys\<close>

text \<open>A record as the process writes it: with its identity, a numeric second and no mode of its own.\<close>

definition plain_rec :: "jrec \<Rightarrow> bool" where
  "plain_rec r \<longleftrightarrow> map_of r ''mode'' = None \<and> (\<exists>t. map_of r ''t_sig'' = Some (JNum t))
     \<and> (\<forall>k\<in>{''entry_ts'', ''exit_ts'', ''t_out''}. \<forall>x. rget r k \<noteq> JText x)"

definition journal_rec :: "string \<Rightarrow> jrec \<Rightarrow> bool" where
  "journal_rec mode r \<longleftrightarrow> (\<exists>r0. plain_rec r0 \<and> r = with_mode mode r0)"

lemma as_time_ok: "\<forall>x. v \<noteq> JText x \<Longrightarrow> \<exists>t. as_time v = Inr t"
  by (cases v) auto

lemma journal_rec_get:
  assumes "journal_rec mode r"
  shows "rget r ''mode'' = JText mode" "\<exists>t. map_of r ''t_sig'' = Some (JNum t)"
    "\<forall>x. rget r ''entry_ts'' \<noteq> JText x" "\<forall>x. rget r ''exit_ts'' \<noteq> JText x" "\<forall>x. rget r ''t_out'' \<noteq> JText x"
  using assms by (auto simp: journal_rec_def plain_rec_def with_mode_def rget_def)

lemma cells_ok:
  assumes "journal_rec mode r"
  shows "\<exists>row. cells_of kind r = Inr row
    \<and> table_key kind row = (case kind of TradeRec \<Rightarrow> [Cell (JText mode), Cell (rget r ''trade_id'')]
        | SignalRec \<Rightarrow> [Cell (JText mode), Cell (rget r ''symbol''), Cell (case rget r ''t_sig'' of JNum t \<Rightarrow> JTime t | x \<Rightarrow> x)])"
proof -
  note g = journal_rec_get [OF assms]
  obtain t where t: "map_of r ''t_sig'' = Some (JNum t)" using g(2) by blast
  obtain a b c where abc: "as_time (rget r ''entry_ts'') = Inr a" "as_time (rget r ''exit_ts'') = Inr b" "as_time (rget r ''t_out'') = Inr c"
    using as_time_ok g(3-5) by metis
  have ts: "rget r ''t_sig'' = JNum t" using t by (simp add: rget_def)
  show ?thesis
    by (cases kind) (simp_all add: trade_cells_def signal_cells_def t ts abc g(1) row_cells_def trade_columns_def signal_columns_def)
qed

text \<open>The key of the table says the same as the key of the journal.\<close>

definition row_of_rec :: "jkind \<Rightarrow> jrec \<Rightarrow> cell list" where
  "row_of_rec kind r = projr (cells_of kind r)"

definition key_of_rec :: "jkind \<Rightarrow> jrec \<Rightarrow> cell list" where
  "key_of_rec kind r = table_key kind (row_of_rec kind r)"

lemma cells_row: "journal_rec mode r \<Longrightarrow> cells_of kind r = Inr (row_of_rec kind r)"
  using cells_ok [of mode r kind] by (auto simp: row_of_rec_def)

lemma same_key:
  assumes "journal_rec mode r" "journal_rec mode r'"
  shows "key_of_rec kind r = key_of_rec kind r' \<longleftrightarrow> journal_key kind r = journal_key kind r'"
proof -
  obtain t t' where t: "rget r ''t_sig'' = JNum t" "rget r' ''t_sig'' = JNum t'"
    using journal_rec_get(2) [OF assms(1)] journal_rec_get(2) [OF assms(2)] by (auto simp: rget_def)
  have "key_of_rec kind x = (case kind of TradeRec \<Rightarrow> [Cell (JText mode), Cell (rget x ''trade_id'')]
        | SignalRec \<Rightarrow> [Cell (JText mode), Cell (rget x ''symbol''), Cell (case rget x ''t_sig'' of JNum t \<Rightarrow> JTime t | x \<Rightarrow> x)])"
    if "journal_rec mode x" for x
    using cells_ok [OF that, of kind] by (auto simp: key_of_rec_def row_of_rec_def)
  then show ?thesis using assms t by (cases kind) auto
qed

subsection \<open>The last record of every key\<close>

definition last_rec :: "jkind \<Rightarrow> cell list \<Rightarrow> jrec list \<Rightarrow> jrec option" where
  "last_rec kind k rs = find (\<lambda>r. key_of_rec kind r = k) (rev rs)"

lemma last_rec_snoc: "last_rec kind k (rs @ [r]) = (if key_of_rec kind r = k then Some r else last_rec kind k rs)"
  by (simp add: last_rec_def)

lemma upserts:
  assumes "list_all (journal_rec mode) rs"
  shows "map_of (fold (upsert kind) (map (row_of_rec kind) rs) t) k
    = (case last_rec kind k rs of Some r \<Rightarrow> Some (row_of_rec kind r) | None \<Rightarrow> map_of t k)"
  using assms
proof (induction rs rule: rev_induct)
  case (snoc r rs)
  then show ?case by (simp add: upsert_def update_conv' last_rec_snoc key_of_rec_def)
qed (simp add: last_rec_def)

lemma all_rows: "list_all (journal_rec mode) rs \<Longrightarrow> all_cells kind rs = Inr (map (row_of_rec kind) rs)"
  by (induction rs) (auto simp: cells_row)

text \<open>Reading the journal keeps the last record of every key.\<close>

lemma find_cong_set: "(\<And>x. x \<in> set xs \<Longrightarrow> P x = Q x) \<Longrightarrow> find P xs = find Q xs"
  by (induction xs) auto

lemma find_rev_unique:
  assumes "\<And>x y. x \<in> set xs \<Longrightarrow> y \<in> set xs \<Longrightarrow> P x \<Longrightarrow> P y \<Longrightarrow> x = y"
  shows "find P (rev xs) = find P xs"
  using assms
proof (induction xs)
  case (Cons x xs)
  have app: "find P (ys @ [x]) = (case find P ys of Some z \<Rightarrow> Some z | None \<Rightarrow> if P x then Some x else None)" for ys
    by (induction ys) auto
  have IH: "find P (rev xs) = find P xs" using Cons by auto
  show ?case
  proof (cases "find P xs")
    case (Some z)
    then have "z \<in> set xs" "P z" by (auto simp: find_Some_iff)
    then show ?thesis using Cons.prems [of x z] Some by (auto simp: app IH)
  qed (simp add: app IH)
qed simp

lemma read_last:
  assumes "list_all (journal_rec mode) (line_records ls)"
  shows "last_rec kind k (read_jsonl (journal_key kind) ls) = last_rec kind k (line_records ls)"
proof -
  let ?rs = "line_records ls" and ?rd = "read_jsonl (journal_key kind) ls"
  have mem: "x \<in> set ?rs" if "x \<in> set ?rd" for x using that read_members by fastforce
  have rec: "journal_rec mode x" if "x \<in> set ?rs" for x using assms that by (simp add: list_all_iff)
  show ?thesis
  proof (cases "\<exists>r0\<in>set ?rs. key_of_rec kind r0 = k")
    case False
    then have "last_rec kind k ?rs = None" "last_rec kind k ?rd = None"
      using mem by (auto simp: last_rec_def find_None_iff)
    then show ?thesis by simp
  next
    case True
    then obtain r0 where r0: "r0 \<in> set ?rs" "key_of_rec kind r0 = k" by blast
    let ?P = "\<lambda>r. journal_key kind r = journal_key kind r0"
    have P: "key_of_rec kind x = k \<longleftrightarrow> ?P x" if "x \<in> set ?rs" for x
      using same_key [OF rec [OF that] rec [OF r0(1)]] r0(2) by auto
    have "last_rec kind k ?rd = find ?P (rev ?rd)"
      unfolding last_rec_def using P mem by (intro find_cong_set) auto
    also have "\<dots> = find ?P ?rd"
      using read_distinct [of "journal_key kind" ls] by (intro find_rev_unique) (metis distinct_map inj_onD)
    also have "\<dots> = find ?P (rev ?rs)" by (rule read_find)
    also have "\<dots> = last_rec kind k ?rs"
      unfolding last_rec_def using P by (intro find_cong_set) auto
    finally show ?thesis .
  qed
qed

lemma read_recs:
  "list_all (journal_rec mode) (line_records ls) \<Longrightarrow> list_all (journal_rec mode) (read_jsonl key ls)"
  using read_members by (fastforce simp: list_all_iff)

subsection \<open>Sessions\<close>

datatype store_input = StWrite jkind jrec | StEvent string jrec | StDb db_outcome | StSync bool | StRestart bool

fun store_do :: "store_input \<Rightarrow> jstore \<Rightarrow> jstore" where
  "store_do (StWrite kind r) s = store_rec kind r s"
| "store_do (StEvent t r) s = store_event t r s"
| "store_do (StDb out) s = db_turn out s"
| "store_do (StSync ok) s = snd (sync_all ok s)"
| "store_do (StRestart use_db) s = store_open (so_mode s) use_db (so_journal s) (so_events s) (so_table s)"

fun store_plain :: "store_input \<Rightarrow> bool" where
  "store_plain (StWrite kind r) = plain_rec r"
| "store_plain _ = True"

text \<open>Inputs of a process whose database takes every record.\<close>

fun store_smooth :: "store_input \<Rightarrow> bool" where
  "store_smooth (StDb out) = (out = DbDone)"
| "store_smooth (StRestart u) = False"
| "store_smooth _ = True"

definition written_recs :: "jkind \<Rightarrow> jstore \<Rightarrow> jrec list" where
  "written_recs kind s = line_records (jf_lines (so_journal s kind))"

definition queued :: "jkind \<Rightarrow> jstore \<Rightarrow> jrec list" where
  "queued kind s = map snd (filter (\<lambda>x. fst x = kind) (case so_queue s of Some q \<Rightarrow> q | None \<Rightarrow> []))"

text \<open>The journals are whole, and the queue is the end of what was written.\<close>

definition store_ok :: "jstore \<Rightarrow> bool" where
  "store_ok s \<longleftrightarrow>
     (\<forall>kind. \<not> jf_cut (so_journal s kind) \<and> list_all (journal_rec (so_mode s)) (written_recs kind s)
        \<and> (\<exists>pre. written_recs kind s = pre @ queued kind s))"

text \<open>Outside the queue the tables have the last record of every key.\<close>

definition tables_follow :: "jstore \<Rightarrow> bool" where
  "tables_follow s \<longleftrightarrow>
     (\<forall>kind k r. last_rec kind k (written_recs kind s) = Some r \<longrightarrow> k \<notin> key_of_rec kind ` set (queued kind s)
        \<longrightarrow> map_of (so_table s kind) k = Some (row_of_rec kind r))"

lemma last_rec_key: "last_rec kind k rs = Some r \<Longrightarrow> key_of_rec kind r = k \<and> r \<in> set rs"
  by (auto simp: last_rec_def find_Some_iff) (metis length_rev nth_mem set_rev)

lemma last_rec_append: "last_rec kind k (a @ b) = (case last_rec kind k b of Some r \<Rightarrow> Some r | None \<Rightarrow> last_rec kind k a)"
  by (induction b rule: rev_induct) (simp_all add: last_rec_def flip: append_assoc split: option.split)

lemma last_rec_None: "last_rec kind k rs = None \<longleftrightarrow> k \<notin> key_of_rec kind ` set rs"
  by (auto simp: last_rec_def find_None_iff)

lemma line_snoc: "line_records (ls @ [Line r]) = line_records ls @ [r]"
  by (simp add: line_records_def List.map_filter_def)

lemma with_mode_rec: "plain_rec r \<Longrightarrow> journal_rec mode (with_mode mode r)"
  by (auto simp: journal_rec_def)

subsection \<open>A write\<close>

lemma write_recs:
  assumes "store_ok s"
  shows "written_recs kind' (store_rec kind r s)
      = written_recs kind' s @ (if kind' = kind then [with_mode (so_mode s) r] else [])"
    and "so_queue s \<noteq> None \<Longrightarrow> queued kind' (store_rec kind r s)
      = queued kind' s @ (if kind' = kind then [with_mode (so_mode s) r] else [])"
  using assms
  by (auto simp: store_rec_def Let_def written_recs_def queued_def store_ok_def append_line_def line_snoc)

lemma store_write_ok:
  assumes "store_ok s" "plain_rec r"
  shows "store_ok (store_rec kind r s)"
proof -
  let ?s = "store_rec kind r s"
  have m: "so_mode ?s = so_mode s" by (simp add: store_rec_def Let_def)
  have cut: "\<not> jf_cut (so_journal ?s k)" for k
    using assms(1) by (simp add: store_rec_def Let_def store_ok_def append_line_def)
  have recs: "list_all (journal_rec (so_mode s)) (written_recs k ?s)" for k
    using assms(1) with_mode_rec [OF assms(2)] unfolding write_recs(1) [OF assms(1)] by (simp add: store_ok_def)
  have suffix: "\<exists>pre. written_recs k ?s = pre @ queued k ?s" for k
  proof (cases "so_queue s")
    case None
    then have "queued k ?s = []" by (simp add: queued_def store_rec_def Let_def)
    then show ?thesis by simp
  next
    case (Some q)
    obtain pre where "written_recs k s = pre @ queued k s" using assms(1) by (auto simp: store_ok_def)
    then show ?thesis using Some write_recs [OF assms(1)] by simp
  qed
  show ?thesis unfolding store_ok_def m using cut recs suffix by blast
qed

lemma write_follows:
  assumes "store_ok s" "tables_follow s" "so_queue s \<noteq> None"
  shows "tables_follow (store_rec kind r s)"
proof -
  have t: "so_table (store_rec kind r s) = so_table s" by (simp add: store_rec_def Let_def)
  show ?thesis
    using assms(2) unfolding tables_follow_def t write_recs(1) [OF assms(1)] write_recs(2) [OF assms(1,3)]
    by (auto simp: last_rec_snoc split: if_splits)
qed

subsection \<open>A turn of the database thread\<close>

lemma turn_recs: "written_recs kind (db_turn out s) = written_recs kind s" "so_mode (db_turn out s) = so_mode s"
    "so_journal (db_turn out s) = so_journal s"
  by (simp_all add: db_turn_def db_error_def Let_def written_recs_def split: option.split list.split prod.split db_outcome.split sum.split)

lemma turn_queue:
  "queued kind (db_turn out s) = queued kind s \<or> (\<exists>r. queued kind s = r # queued kind (db_turn out s))"
  by (auto simp: db_turn_def db_error_def Let_def queued_def split: option.split list.split prod.split db_outcome.split sum.split)

lemma turn_store_ok: "store_ok s \<Longrightarrow> store_ok (db_turn out s)"
  unfolding store_ok_def turn_recs
  by (metis turn_queue append_Cons append_Nil append_assoc)

lemma turn_follows:
  assumes "store_ok s" "tables_follow s"
  shows "tables_follow (db_turn DbDone s)"
proof (cases "\<exists>kind r q. so_queue s = Some ((kind, r) # q) \<and> so_thread s")
  case False
  then have "db_turn DbDone s = s"
    by (auto simp: db_turn_def split: option.split list.split prod.split)
  then show ?thesis using assms(2) by simp
next
  case True
  then obtain kind r q where q: "so_queue s = Some ((kind, r) # q)" "so_thread s" by blast
  have qs: "queued kind s = r # map snd (filter (\<lambda>x. fst x = kind) q)" using q by (simp add: queued_def)
  obtain pre where pre: "written_recs kind s = pre @ queued kind s" using assms(1) by (auto simp: store_ok_def)
  have rec: "list_all (journal_rec (so_mode s)) (written_recs kind s)" using assms(1) by (simp add: store_ok_def)
  then have "journal_rec (so_mode s) r" using pre qs by simp
  then have c: "cells_of kind r = Inr (row_of_rec kind r)" by (rule cells_row)
  have turn: "db_turn DbDone s = s\<lparr>so_queue := Some q, so_connected := True,
      so_table := (so_table s)(kind := upsert kind (row_of_rec kind r) (so_table s kind))\<rparr>"
    using q c by (simp add: db_turn_def Let_def)
  have q': "queued k (db_turn DbDone s) = map snd (filter (\<lambda>x. fst x = k) q)" for k by (simp add: turn queued_def)
  have other: "queued k s = queued k (db_turn DbDone s)" if "k \<noteq> kind" for k
    using that q(1) unfolding q' by (simp add: queued_def)
  show ?thesis
    unfolding tables_follow_def
  proof (intro allI impI)
    fix k key x
    assume l: "last_rec k key (written_recs k (db_turn DbDone s)) = Some x"
      and nq: "key \<notin> key_of_rec k ` set (queued k (db_turn DbDone s))"
    have l': "last_rec k key (written_recs k s) = Some x" using l by (simp only: turn_recs)
    show "map_of (so_table (db_turn DbDone s) k) key = Some (row_of_rec k x)"
    proof (cases "k = kind")
      case False
      then show ?thesis using assms(2) l' nq other [OF False] by (simp add: tables_follow_def turn)
    next
      case same: True
      show ?thesis
      proof (cases "key_of_rec kind r = key")
        case True
        have "last_rec kind key (queued kind (db_turn DbDone s)) = None" using nq same by (simp add: last_rec_None)
        then have "last_rec kind key (written_recs kind s) = Some r"
          unfolding pre qs q' using True last_rec_append [of kind key "[r]" "map snd (filter (\<lambda>x. fst x = kind) q)"]
          by (simp add: last_rec_append) (simp add: last_rec_def)
        then have "x = r" using l' same by simp
        then show ?thesis using True same by (simp add: turn upsert_def update_conv' key_of_rec_def)
      next
        case False
        then have "key \<notin> key_of_rec kind ` set (queued kind s)" using nq same qs q' by auto
        then have "map_of (so_table s kind) key = Some (row_of_rec kind x)"
          using assms(2) l' same by (auto simp: tables_follow_def)
        then show ?thesis using False same by (simp add: turn upsert_def update_conv' key_of_rec_def)
      qed
    qed
  qed
qed

subsection \<open>A synchronisation\<close>

lemma sync_result:
  assumes "store_ok s"
  shows "sync_all True s = (Inr (length (store_read TradeRec s) + length (store_read SignalRec s)),
    s\<lparr>so_table := (\<lambda>kind. fold (upsert kind) (map (row_of_rec kind) (store_read kind s)) (so_table s kind))\<rparr>)"
proof -
  have "list_all (journal_rec (so_mode s)) (store_read kind s)" for kind
    using assms by (simp add: store_read_def read_recs store_ok_def written_recs_def)
  then have rows: "all_cells kind (store_read kind s) = Inr (map (row_of_rec kind) (store_read kind s))" for kind
    by (rule all_rows)
  have "(so_table s)(TradeRec := f TradeRec, SignalRec := f SignalRec) = f" for f :: "jkind \<Rightarrow> jtable"
  proof
    fix kind show "((so_table s)(TradeRec := f TradeRec, SignalRec := f SignalRec)) kind = f kind" by (cases kind) simp_all
  qed
  from this [of "\<lambda>kind. fold (upsert kind) (map (row_of_rec kind) (store_read kind s)) (so_table s kind)"]
  show ?thesis by (simp add: sync_all_def Let_def rows)
qed

lemma store_sync_frame:
  "so_mode (snd (sync_all ok s)) = so_mode s" "so_journal (snd (sync_all ok s)) = so_journal s"
  "so_queue (snd (sync_all ok s)) = so_queue s"
  by (simp_all add: sync_all_def Let_def split: sum.split)

lemma sync_store_ok: "store_ok s \<Longrightarrow> store_ok (snd (sync_all ok s))"
  by (simp add: store_ok_def written_recs_def queued_def store_sync_frame)

lemma sync_follows:
  assumes "store_ok s"
  shows "tables_follow (snd (sync_all True s))"
proof -
  have "list_all (journal_rec (so_mode s)) (store_read kind s)" for kind
    using assms by (simp add: store_read_def read_recs store_ok_def written_recs_def)
  note up = upserts [OF this]
  have last: "last_rec kind k (store_read kind s) = last_rec kind k (written_recs kind s)" for kind k
    using assms read_last [of "so_mode s"] by (simp add: store_read_def store_ok_def written_recs_def)
  have w: "written_recs kind (snd (sync_all True s)) = written_recs kind s" for kind
    by (simp add: written_recs_def store_sync_frame)
  have t: "so_table (snd (sync_all True s)) kind = fold (upsert kind) (map (row_of_rec kind) (store_read kind s)) (so_table s kind)" for kind
    using sync_result [OF assms] by simp
  show ?thesis unfolding tables_follow_def w t by (simp add: up last)
qed

lemma failed_sync: "snd (sync_all False s) = s"
  by (simp add: sync_all_def)

subsection \<open>The whole session\<close>

lemma event_frame:
  "so_mode (store_event t r s) = so_mode s" "so_journal (store_event t r s) = so_journal s"
  "so_queue (store_event t r s) = so_queue s" "so_table (store_event t r s) = so_table s"
  by (simp_all add: store_event_def)

lemma do_ok: "store_ok s \<Longrightarrow> store_plain i \<Longrightarrow> store_ok (store_do i s)"
proof (cases i)
  case (StRestart u)
  assume "store_ok s"
  then show ?thesis
    by (auto simp: StRestart store_ok_def store_open_def written_recs_def queued_def)
qed (auto simp: store_write_ok turn_store_ok sync_store_ok, simp add: store_ok_def written_recs_def queued_def event_frame)

lemma session_store_ok: "store_ok s \<Longrightarrow> list_all store_plain ins \<Longrightarrow> store_ok (fold store_do ins s)"
  by (induction ins arbitrary: s) (auto simp: do_ok)

lemma write_needs_queue: "so_queue (store_do i s) = None \<longleftrightarrow> so_queue s = None" if "store_smooth i"
  using that
  by (cases i) (auto simp: store_rec_def store_event_def store_sync_frame db_turn_def db_error_def Let_def
      split: option.splits list.splits prod.splits sum.splits)

lemma do_follows:
  assumes "store_ok s" "tables_follow s" "so_queue s \<noteq> None" "store_plain i" "store_smooth i"
  shows "tables_follow (store_do i s)"
proof (cases i)
  case (StEvent t r)
  then show ?thesis using assms(2) by (simp add: tables_follow_def written_recs_def queued_def event_frame)
next
  case (StSync ok)
  then show ?thesis using assms(1,2) sync_follows failed_sync by (cases ok) simp_all
qed (use assms in \<open>auto simp: write_follows turn_follows\<close>)

lemma smooth_session:
  "store_ok s \<Longrightarrow> tables_follow s \<Longrightarrow> so_queue s \<noteq> None \<Longrightarrow> list_all store_plain ins \<Longrightarrow> list_all store_smooth ins
   \<Longrightarrow> store_ok (fold store_do ins s) \<and> tables_follow (fold store_do ins s)"
proof (induction ins arbitrary: s)
  case (Cons i ins)
  have "so_queue (store_do i s) \<noteq> None" using Cons.prems(3,5) write_needs_queue [of i s] by simp
  then show ?case using Cons do_ok do_follows by simp
qed simp

text \<open>C36: The database copy of the journals is repaired by a synchronisation and then kept.  Over any
  session of writes, database failures, a dead database thread and restarts, on journals that were not
  cut short, the synchronisation accepts every record of both journals; from then on, while the
  database takes what it is given, as soon as the queue is empty both tables have, for every key, exactly
  the row of the last record that the journal holds for it.\<close>

theorem store_sync_repairs:
  assumes "\<forall>kind. \<not> jf_cut (journal kind) \<and> list_all (journal_rec mode) (line_records (jf_lines (journal kind)))"
    and "s = fold store_do ins (store_open mode use_db journal events tables)" "list_all store_plain ins"
    and "so_queue s \<noteq> None" "list_all store_plain ins2" "list_all store_smooth ins2"
    and "s2 = fold store_do ins2 (snd (sync_all True s))" "so_queue s2 = Some []"
  shows "fst (sync_all True s) = Inr (length (store_read TradeRec s) + length (store_read SignalRec s))
    \<and> (\<forall>kind. \<forall>r\<in>set (store_read kind s2). map_of (so_table s2 kind) (key_of_rec kind r) = Some (row_of_rec kind r))"
proof -
  have "store_ok (store_open mode use_db journal events tables)"
    using assms(1) by (auto simp: store_ok_def store_open_def written_recs_def queued_def)
  then have ok: "store_ok s" unfolding assms(2) using session_store_ok assms(3) by blast
  have "so_queue (snd (sync_all True s)) \<noteq> None" using assms(4) by (simp add: store_sync_frame)
  then have s2: "store_ok s2" "tables_follow s2"
    unfolding assms(7) using smooth_session sync_store_ok [OF ok] sync_follows [OF ok] assms(5,6) by blast+
  have "map_of (so_table s2 kind) (key_of_rec kind r) = Some (row_of_rec kind r)" if r: "r \<in> set (store_read kind s2)" for kind r
  proof -
    let ?k = "key_of_rec kind r"
    have recs: "list_all (journal_rec (so_mode s2)) (written_recs kind s2)" using s2(1) by (simp add: store_ok_def)
    have same: "x = r" if "x \<in> set (store_read kind s2)" "key_of_rec kind x = ?k" for x
    proof -
      have "journal_rec (so_mode s2) x" "journal_rec (so_mode s2) r"
        using that(1) r read_recs [of "so_mode s2"] recs by (auto simp: store_read_def written_recs_def list_all_iff)
      then have "journal_key kind x = journal_key kind r" using that(2) same_key by blast
      then show ?thesis using that(1) r read_distinct unfolding store_read_def by (metis distinct_map inj_onD)
    qed
    have "last_rec kind ?k (store_read kind s2) \<noteq> None" using r by (simp add: last_rec_None)
    then have "last_rec kind ?k (store_read kind s2) = Some r" using same last_rec_key by (metis not_None_eq)
    then have "last_rec kind ?k (written_recs kind s2) = Some r"
      using read_last recs by (simp add: store_read_def written_recs_def)
    moreover have "queued kind s2 = []" using assms(8) by (simp add: queued_def)
    ultimately show ?thesis using s2(2) by (simp add: tables_follow_def)
  qed
  then show ?thesis using sync_result [OF ok] by simp
qed

text \<open>A trade that the database refused, then a synchronisation.\<close>

definition example_rec :: jrec where
  "example_rec = [(''trade_id'', JText ''BTC-1''), (''t_sig'', JNum 5), (''net_usd'', JNum 2)]"

lemma store_sync_repairs_witness:
  "let s = fold store_do [StWrite TradeRec example_rec, StDb (DbFailed False)]
             (store_open ''paper'' True (\<lambda>_. \<lparr>jf_lines = [], jf_cut = False\<rparr>) \<lparr>jf_lines = [], jf_cut = False\<rparr> (\<lambda>_. []));
       s2 = snd (sync_all True s)
   in fst (sync_all True s) = Inr (length (store_read TradeRec s) + length (store_read SignalRec s))
      \<and> list_all (\<lambda>r. map_of (so_table s2 TradeRec) (key_of_rec TradeRec r) = Some (row_of_rec TradeRec r)) (store_read TradeRec s2)
      \<and> store_read TradeRec s2 \<noteq> []"
proof -
  let ?j = "\<lambda>_ :: jkind. \<lparr>jf_lines = [], jf_cut = False\<rparr>"
  let ?s0 = "store_open ''paper'' True ?j \<lparr>jf_lines = [], jf_cut = False\<rparr> (\<lambda>_. [])"
  let ?ins = "[StWrite TradeRec example_rec, StDb (DbFailed False)]"
  let ?s = "fold store_do ?ins ?s0"
  have j: "\<forall>kind. \<not> jf_cut (?j kind) \<and> list_all (journal_rec ''paper'') (line_records (jf_lines (?j kind)))"
    by (simp add: line_records_def List.map_filter_def)
  have p: "list_all store_plain ?ins" by (simp add: plain_rec_def example_rec_def rget_def)
  have q: "so_queue ?s = Some []"
    by (simp add: store_open_def store_rec_def Let_def db_turn_def db_error_def)
  have r: "store_read TradeRec ?s \<noteq> []"
    by (simp add: store_read_def store_open_def store_rec_def Let_def db_turn_def db_error_def append_line_def
        read_jsonl_def line_records_def List.map_filter_def by_key_def)
  have e: "store_read TradeRec (snd (sync_all True ?s)) = store_read TradeRec ?s"
    by (simp add: store_read_def store_sync_frame)
  have s2: "snd (sync_all True ?s) = fold store_do [] (snd (sync_all True ?s))" by simp
  show ?thesis
    using store_sync_repairs [OF j refl p _ _ _ s2] q r
    unfolding Let_def e by (simp add: list_all_iff store_sync_frame e del: fold.simps)
qed

subsection \<open>A line that was cut short\<close>

text \<open>The first record that is written after a crash in the middle of a line becomes part of that line and
  is not in the journal: neither it nor the broken line is ever read again.\<close>

lemma cut_line_swallows:
  assumes "jf_cut f" "jf_lines f = ls @ [Torn]"
  shows "read_jsonl key (jf_lines (append_line r f)) = read_jsonl key ls
    \<and> read_jsonl key (jf_lines (append_line r2 (append_line r f))) = read_jsonl key (ls @ [Line r2])"
  using assms by (simp add: append_line_def read_jsonl_def line_records_def List.map_filter_def)

end
