(* ===== verification/Night_Report.thy ===== *)
theory Night_Report
  imports Overnight_Runner Klines Replay
begin

text \<open>
  The report on the nights, \<open>src/overnight/report.py\<close>: the journal of the scheduler is loaded into
  the tables of the schema \<open>exec\<close>, and every closed night gets its cost figures.  The tables hold the
  rows of one mode.  The connection commits every statement by itself; \<open>ok no i\<close> says whether the
  \<open>i\<close>-th statement of line \<open>no\<close> is executed (a refused or broken statement raises); \<open>dt\<close> is how the
  database reads the text of a date, as a day number.
\<close>

subsection \<open>The journal\<close>

type_synonym event_rec = "(string \<times> json) list"

datatype ingest_error = BadLine | BadClientId | NoKey string | DbRefused

fun split_on :: "char \<Rightarrow> string \<Rightarrow> string list" where
  "split_on c [] = [[]]"
| "split_on c (x # xs) =
     (if x = c then [] # split_on c xs
      else (case split_on c xs of [] \<Rightarrow> [[x]] | w # ws \<Rightarrow> (x # w) # ws))"

text \<open>The date and the leg that a client id names.\<close>

definition leg_of :: "string option \<Rightarrow> ingest_error + (string \<times> char) option" where
  "leg_of cid =
     (case cid of
        None \<Rightarrow> Inr None
      | Some c \<Rightarrow>
          if c = [] \<or> \<not> starts_text ''on-'' c then Inr None
          else (case split_on (CHR ''-'') c of
                  _ # d # (l # _) # _ \<Rightarrow> Inr (Some (take 4 d @ ''-'' @ take 2 (drop 4 d) @ ''-'' @ drop 6 d, l))
                | _ \<Rightarrow> Inl BadClientId))"

fun read_events :: "nat \<Rightarrow> event_rec line list \<Rightarrow> ingest_error + (nat \<times> event_rec) list" where
  "read_events no [] = Inr []"
| "read_events no (Blank # ls) = read_events (Suc no) ls"
| "read_events no (Torn # ls) = Inl BadLine"
| "read_events no (Line r # ls) = map_sum id (\<lambda>rs. (no, r) # rs) (read_events (Suc no) ls)"

subsection \<open>The tables\<close>

record fill_row =
  fr_cid :: string
  fr_ts :: datetime
  fr_date :: "int option"
  fr_leg :: "char option"
  fr_side :: string
  fr_qty :: real
  fr_price :: real
  fr_fee :: real
  fr_liquidity :: string

record decision_row =
  dr_method :: "string option"
  dr_scheduled :: datetime
  dr_decided :: "datetime option"
  dr_bid :: "real option"
  dr_ask :: "real option"
  dr_book_ts :: "datetime option"

record night_row =
  nr_exit_date :: "int option"
  nr_method :: "string option"
  nr_phase :: string
  nr_version :: "int option"
  nr_qty :: "real option"
  nr_entry_price :: "real option"
  nr_exit_price :: "real option"
  nr_stop_price :: "real option"
  nr_fees :: "real option"
  nr_funding :: "real option"
  nr_pnl :: "real option"
  nr_started :: "datetime option"
  nr_ended :: "datetime option"
  nr_notes :: json

text \<open>The figures of a night, in basis points; \<open>nm_stopped\<close> is how it ended.\<close>

record night_metric =
  nm_method :: ab
  nm_stopped :: bool
  nm_ref_entry :: "real option"
  nm_ref_exit :: "real option"
  nm_bt_entry :: "real option"
  nm_bt_exit :: "real option"
  nm_slip_entry :: "real option"
  nm_slip_exit :: "real option"
  nm_slip_entry_mid :: "real option"
  nm_slip_exit_mid :: "real option"
  nm_fee :: "real option"
  nm_cost_rt :: "real option"
  nm_maker_entry :: "real option"
  nm_maker_exit :: "real option"
  nm_gross :: "real option"
  nm_bt_gross :: "real option"
  nm_tracking :: "real option"
  nm_on_time :: bool
  nm_pnl :: "real option"

type_synonym event_values = "datetime \<times> string \<times> string option \<times> int option \<times> event_rec"

record exec_db =
  xd_events :: "(nat \<times> event_values) list"
  xd_fills :: "(nat \<times> fill_row) list"
  xd_decisions :: "((int \<times> string) \<times> decision_row) list"
  xd_nights :: "(int \<times> night_row) list"
  xd_metrics :: "(int \<times> night_metric) list"

text \<open>A value as the type of its column takes it; null is refused where the column has \<open>NOT NULL\<close>.\<close>

fun as_text :: "json \<Rightarrow> string option" where
  "as_text (JStr s) = Some s" | "as_text _ = None"

fun as_num :: "json \<Rightarrow> real option" where
  "as_num (JNum x) = Some x" | "as_num (JInt i) = Some (of_int i)" | "as_num _ = None"

fun as_ts :: "json \<Rightarrow> datetime option" where
  "as_ts (JTime t) = Some t" | "as_ts _ = None"

fun as_int :: "json \<Rightarrow> int option" where
  "as_int (JInt i) = Some i" | "as_int _ = None"

definition or_null :: "(json \<Rightarrow> 'a option) \<Rightarrow> json \<Rightarrow> 'a option option" where
  "or_null f j = (if j = JNull then Some None else map_option Some (f j))"

definition as_date :: "(string \<Rightarrow> int option) \<Rightarrow> json \<Rightarrow> int option" where
  "as_date dt j = Option.bind (as_text j) dt"

definition jget :: "event_rec \<Rightarrow> string \<Rightarrow> json" where
  "jget e k = (case map_of e k of Some x \<Rightarrow> x | None \<Rightarrow> JNull)"

text \<open>The parameters of a statement: a missing key raises before the statement is sent.\<close>

definition with_keys :: "string list \<Rightarrow> event_rec \<Rightarrow> 'a option \<Rightarrow> ingest_error + 'a" where
  "with_keys ks e row =
     (case find (\<lambda>k. map_of e k = None) ks of
        Some k \<Rightarrow> Inl (NoKey k)
      | None \<Rightarrow> (case row of Some x \<Rightarrow> Inr x | None \<Rightarrow> Inl DbRefused))"

definition fill_row_of :: "event_rec \<Rightarrow> int option \<Rightarrow> char option \<Rightarrow> ingest_error + fill_row" where
  "fill_row_of e ed leg =
     with_keys [''client_id'', ''ts'', ''side'', ''qty'', ''price'', ''fee'', ''liquidity''] e
      (Option.bind (as_text (jget e ''client_id'')) (\<lambda>cid.
       Option.bind (as_ts (jget e ''ts'')) (\<lambda>ts.
       Option.bind (as_text (jget e ''side'')) (\<lambda>sd.
       Option.bind (as_num (jget e ''qty'')) (\<lambda>q.
       Option.bind (as_num (jget e ''price'')) (\<lambda>px.
       Option.bind (as_num (jget e ''fee'')) (\<lambda>fee.
       Option.bind (as_text (jget e ''liquidity'')) (\<lambda>lq.
         Some \<lparr>fr_cid = cid, fr_ts = ts, fr_date = ed, fr_leg = leg, fr_side = sd, fr_qty = q, fr_price = px,
               fr_fee = fee, fr_liquidity = lq\<rparr>))))))))"

definition decision_row_of :: "(string \<Rightarrow> int option) \<Rightarrow> event_rec \<Rightarrow> ingest_error + (int \<times> string) \<times> decision_row" where
  "decision_row_of dt e =
     with_keys [''entry_date'', ''leg'', ''method'', ''scheduled_at''] e
      (Option.bind (as_date dt (jget e ''entry_date'')) (\<lambda>d.
       Option.bind (as_text (jget e ''leg'')) (\<lambda>leg.
       Option.bind (or_null as_text (jget e ''method'')) (\<lambda>m.
       Option.bind (as_ts (jget e ''scheduled_at'')) (\<lambda>sch.
       Option.bind (or_null as_ts (jget e ''decided_at'')) (\<lambda>dec.
       Option.bind (or_null as_num (jget e ''bid'')) (\<lambda>bid.
       Option.bind (or_null as_num (jget e ''ask'')) (\<lambda>ask.
       Option.bind (or_null as_ts (jget e ''book_ts'')) (\<lambda>bts.
         Some ((d, leg), \<lparr>dr_method = m, dr_scheduled = sch, dr_decided = dec, dr_bid = bid, dr_ask = ask,
                 dr_book_ts = bts\<rparr>))))))))))"

definition night_row_of :: "(string \<Rightarrow> int option) \<Rightarrow> event_rec \<Rightarrow> ingest_error + int \<times> night_row" where
  "night_row_of dt e =
     with_keys [''entry_date'', ''phase''] e
      (Option.bind (as_date dt (jget e ''entry_date'')) (\<lambda>d.
       Option.bind (or_null (as_date dt) (jget e ''exit_date'')) (\<lambda>xd.
       Option.bind (or_null as_text (jget e ''method'')) (\<lambda>m.
       Option.bind (as_text (jget e ''phase'')) (\<lambda>ph.
       Option.bind (or_null as_int (jget e ''spec_version'')) (\<lambda>ver.
       Option.bind (or_null as_num (jget e ''qty'')) (\<lambda>q.
       Option.bind (or_null as_num (jget e ''entry_price'')) (\<lambda>ep.
       Option.bind (or_null as_num (jget e ''exit_price'')) (\<lambda>xp.
       Option.bind (or_null as_num (jget e ''stop_price'')) (\<lambda>sp.
       Option.bind (or_null as_num (jget e ''fees'')) (\<lambda>fees.
       Option.bind (or_null as_num (jget e ''funding'')) (\<lambda>fund.
       Option.bind (or_null as_num (jget e ''pnl'')) (\<lambda>pnl.
       Option.bind (or_null as_ts (jget e ''started_at'')) (\<lambda>st.
       Option.bind (or_null as_ts (jget e ''ended_at'')) (\<lambda>en.
         Some (d, \<lparr>nr_exit_date = xd, nr_method = m, nr_phase = ph, nr_version = ver, nr_qty = q,
           nr_entry_price = ep, nr_exit_price = xp, nr_stop_price = sp, nr_fees = fees, nr_funding = fund,
           nr_pnl = pnl, nr_started = st, nr_ended = en,
           nr_notes = (case map_of e ''notes'' of Some x \<Rightarrow> x | None \<Rightarrow> JList [])\<rparr>))))))))))))))))"

text \<open>\<open>ON CONFLICT DO NOTHING\<close>, and the two updates.\<close>

definition insert_new :: "'k \<Rightarrow> 'v \<Rightarrow> ('k \<times> 'v) list \<Rightarrow> ('k \<times> 'v) list" where
  "insert_new k v t = (if map_of t k = None then t @ [(k, v)] else t)"

definition merge_night :: "night_row \<Rightarrow> night_row \<Rightarrow> night_row" where
  "merge_night old new =
     old\<lparr>nr_phase := nr_phase new, nr_qty := nr_qty new, nr_entry_price := nr_entry_price new,
         nr_exit_price := nr_exit_price new, nr_fees := nr_fees new, nr_funding := nr_funding new,
         nr_pnl := nr_pnl new, nr_ended := nr_ended new, nr_notes := nr_notes new\<rparr>"

definition upsert_night :: "int \<Rightarrow> night_row \<Rightarrow> (int \<times> night_row) list \<Rightarrow> (int \<times> night_row) list" where
  "upsert_night d new t = AList.update d (case map_of t d of None \<Rightarrow> new | Some old \<Rightarrow> merge_night old new) t"

subsection \<open>Loading\<close>

definition truthy_text :: "json \<Rightarrow> string option" where
  "truthy_text j = (case as_text j of Some s \<Rightarrow> if s = [] then None else Some s | None \<Rightarrow> None)"

definition event_row_of :: "event_rec \<Rightarrow> int option \<Rightarrow> ingest_error + event_values" where
  "event_row_of e ed =
     with_keys [''logged_at'', ''event''] e
      (Option.bind (as_ts (jget e ''logged_at'')) (\<lambda>t.
       Option.bind (as_text (jget e ''event'')) (\<lambda>ev.
       Option.bind (or_null as_text (jget e ''client_id'')) (\<lambda>cid. Some (t, ev, cid, ed, e)))))"

text \<open>The second statement of a line: the table that its event belongs to.\<close>

definition second_statement ::
    "(string \<Rightarrow> int option) \<Rightarrow> bool \<Rightarrow> nat \<Rightarrow> event_rec \<Rightarrow> int option \<Rightarrow> char option \<Rightarrow> exec_db
     \<Rightarrow> (ingest_error + unit) \<times> exec_db" where
  "second_statement dt executed no e ed leg db =
     (if jget e ''event'' = JStr ''filled'' \<and> map_of e ''side'' \<noteq> None
      then (case fill_row_of e ed leg of
              Inl x \<Rightarrow> (Inl x, db)
            | Inr r \<Rightarrow> if executed then (Inr (), db\<lparr>xd_fills := insert_new no r (xd_fills db)\<rparr>) else (Inl DbRefused, db))
      else if jget e ''event'' = JStr ''decision''
      then (case decision_row_of dt e of
              Inl x \<Rightarrow> (Inl x, db)
            | Inr (k, r) \<Rightarrow>
                if executed then (Inr (), db\<lparr>xd_decisions := AList.update k r (xd_decisions db)\<rparr>) else (Inl DbRefused, db))
      else if jget e ''event'' = JStr ''night''
      then (case night_row_of dt e of
              Inl x \<Rightarrow> (Inl x, db)
            | Inr (d, r) \<Rightarrow>
                if executed then (Inr (), db\<lparr>xd_nights := upsert_night d r (xd_nights db)\<rparr>) else (Inl DbRefused, db))
      else (Inr (), db))"

text \<open>A date text that the database cannot read makes the first statement fail.\<close>

definition line_date :: "(string \<Rightarrow> int option) \<Rightarrow> event_rec \<Rightarrow> (string \<times> char) option \<Rightarrow> ingest_error + int option" where
  "line_date dt e dl =
     (case (case truthy_text (jget e ''entry_date'') of Some d \<Rightarrow> Some d | None \<Rightarrow> map_option fst dl) of
        None \<Rightarrow> Inr None
      | Some d \<Rightarrow> (case dt d of Some x \<Rightarrow> Inr (Some x) | None \<Rightarrow> Inl DbRefused))"

definition ingest_line ::
    "(string \<Rightarrow> int option) \<Rightarrow> (nat \<Rightarrow> bool) \<Rightarrow> nat \<Rightarrow> event_rec \<Rightarrow> exec_db \<Rightarrow> (ingest_error + unit) \<times> exec_db" where
  "ingest_line dt ok no e db =
     (case leg_of (truthy_text (jget e ''client_id'')) of
        Inl x \<Rightarrow> (Inl x, db)
      | Inr dl \<Rightarrow>
          (case line_date dt e dl of
             Inl x \<Rightarrow> (Inl x, db)
           | Inr ed \<Rightarrow>
               (case event_row_of e ed of
                  Inl x \<Rightarrow> (Inl x, db)
                | Inr r \<Rightarrow>
                    if ok 0
                    then second_statement dt (ok 1) no e ed (map_option snd dl)
                           (db\<lparr>xd_events := insert_new no r (xd_events db)\<rparr>)
                    else (Inl DbRefused, db))))"

text \<open>The lines that were not done when the loading began; the count of the new ones.\<close>

fun ingest_rows ::
    "(string \<Rightarrow> int option) \<Rightarrow> (nat \<Rightarrow> nat \<Rightarrow> bool) \<Rightarrow> (nat \<Rightarrow> bool) \<Rightarrow> (nat \<times> event_rec) list \<Rightarrow> exec_db
     \<Rightarrow> (ingest_error + nat) \<times> exec_db" where
  "ingest_rows dt ok seen [] db = (Inr 0, db)"
| "ingest_rows dt ok seen ((no, e) # rows) db =
     (if seen no then ingest_rows dt ok seen rows db
      else (case ingest_line dt (ok no) no e db of
              (Inl x, db1) \<Rightarrow> (Inl x, db1)
            | (Inr _, db1) \<Rightarrow> apfst (map_sum id Suc) (ingest_rows dt ok seen rows db1)))"

definition done_line :: "exec_db \<Rightarrow> nat \<Rightarrow> bool" where
  "done_line db no = (map_of (xd_events db) no \<noteq> None)"

definition ingest ::
    "(string \<Rightarrow> int option) \<Rightarrow> (nat \<Rightarrow> nat \<Rightarrow> bool) \<Rightarrow> event_rec line list \<Rightarrow> exec_db \<Rightarrow> (ingest_error + nat) \<times> exec_db" where
  "ingest dt ok lines db =
     (case read_events 0 lines of
        Inl x \<Rightarrow> (Inl x, db)
      | Inr rows \<Rightarrow> ingest_rows dt ok (done_line db) rows db)"

subsection \<open>The figures of a night\<close>

datatype metric_error =
    NoSpecFile int | NightNotFound night_error | UnknownMethod string | NoneArithmetic | NoQuantity
  | PriceError data_error

definition vwap :: "fill_row list \<Rightarrow> real option" where
  "vwap fs = (let q = (\<Sum>f\<leftarrow>fs. fr_qty f)
     in if q \<noteq> 0 then Some ((\<Sum>f\<leftarrow>fs. fr_qty f * fr_price f) / q) else None)"

definition bp :: "real option \<Rightarrow> real option \<Rightarrow> real option" where
  "bp a b =
     (case (a, b) of
        (Some x, Some y) \<Rightarrow> if x \<noteq> 0 \<and> y \<noteq> 0 then Some ((x / y - 1) * 10000) else None
      | _ \<Rightarrow> None)"

text \<open>The middle of the recorded quote of a leg; a bid without an ask cannot be added.\<close>

definition mid_of :: "(string \<times> decision_row) list \<Rightarrow> string \<Rightarrow> metric_error + real option" where
  "mid_of ds leg =
     (case map_of ds leg of
        None \<Rightarrow> Inr None
      | Some d \<Rightarrow>
          (case dr_bid d of
             None \<Rightarrow> Inr None
           | Some b \<Rightarrow>
               if b = 0 then Inr None
               else (case dr_ask d of None \<Rightarrow> Inl NoneArithmetic | Some a \<Rightarrow> Inr (Some ((b + a) / 2)))))"

definition maker_share :: "fill_row list \<Rightarrow> metric_error + real option" where
  "maker_share fs =
     (if fs = [] then Inr None
      else (let q = (\<Sum>f\<leftarrow>fs. fr_qty f)
            in if q = 0 then Inl NoQuantity
               else Inr (Some ((\<Sum>f\<leftarrow>filter (\<lambda>f. fr_liquidity f = ''MAKER'') fs. fr_qty f) / q))))"

text \<open>The exit against the middle of the recorded quote: the sign of a missing number is an error.\<close>

definition exit_mid_slip :: "bool \<Rightarrow> real option \<Rightarrow> real option \<Rightarrow> metric_error + real option" where
  "exit_mid_slip stopped vx m =
     (if stopped \<or> m = None \<or> m = Some 0 then Inr None
      else (case bp vx m of Some s \<Rightarrow> Inr (Some (- s)) | None \<Rightarrow> Inl NoneArithmetic))"

definition plus3 :: "real option \<Rightarrow> real option \<Rightarrow> real option \<Rightarrow> real option" where
  "plus3 a b c = (case (a, b, c) of (Some x, Some y, Some z) \<Rightarrow> Some (x + y + z) | _ \<Rightarrow> None)"

definition minus2 :: "real option \<Rightarrow> real option \<Rightarrow> real option" where
  "minus2 a b = (case (a, b) of (Some x, Some y) \<Rightarrow> Some (x - y) | _ \<Rightarrow> None)"

definition is_leg :: "char list \<Rightarrow> fill_row \<Rightarrow> bool" where
  "is_leg ls f \<longleftrightarrow> (case fr_leg f of Some l \<Rightarrow> l \<in> set ls | None \<Rightarrow> False)"

definition exit_legs :: "char list" where
  "exit_legs = [CHR ''x'', CHR ''f'', CHR ''r'', CHR ''s'']"

definition entry_fills :: "fill_row list \<Rightarrow> fill_row list" where
  "entry_fills fs = filter (is_leg [CHR ''e'']) fs"

definition exit_fills :: "fill_row list \<Rightarrow> fill_row list" where
  "exit_fills fs = filter (is_leg exit_legs) fs"

definition stopped_by :: "fill_row list \<Rightarrow> bool" where
  "stopped_by fs \<longleftrightarrow> (\<exists>f\<in>set (exit_fills fs). is_leg [CHR ''s''] f)"

definition fee_bp :: "fill_row list \<Rightarrow> metric_error + real option" where
  "fee_bp fs =
     (let qe = (\<Sum>f\<leftarrow>entry_fills fs. fr_qty f)
      in case vwap (entry_fills fs) of
           Some ve \<Rightarrow> if qe * ve = 0 then Inl NoQuantity else Inr (Some ((\<Sum>f\<leftarrow>fs. fr_fee f) / (qe * ve) * 10000))
         | None \<Rightarrow> Inr None)"

text \<open>The first entry at most ten seconds late, the last exit before the deadline unless stopped out.\<close>

definition on_time :: "order_times \<Rightarrow> bool \<Rightarrow> fill_row list \<Rightarrow> bool" where
  "on_time t stopped fs \<longleftrightarrow>
     entry_fills fs \<noteq> [] \<and> Min (fr_ts ` set (entry_fills fs)) \<le> us (ot_entry_market t + 10)
     \<and> (stopped \<or> (exit_fills fs \<noteq> [] \<and> Max (fr_ts ` set (exit_fills fs)) \<le> us (ot_exit_flat_deadline t)))"

fun method_of_text :: "string option \<Rightarrow> metric_error + ab option" where
  "method_of_text None = Inr None"
| "method_of_text (Some m) =
     (if m = ''A'' then Inr (Some MethodA) else if m = ''B'' then Inr (Some MethodB) else Inl (UnknownMethod m))"

text \<open>Everything but the reference prices: the night of the calendar, its times, its method.\<close>

definition night_frame :: "night_spec \<Rightarrow> int \<Rightarrow> night_row \<Rightarrow> metric_error + night \<times> order_times \<times> ab" where
  "night_frame ns d nr =
     (case night_for_entry ns d of
        Inl e \<Rightarrow> Inl (NightNotFound e)
      | Inr n \<Rightarrow>
          (case method_of_text (nr_method nr) of
             Inl e \<Rightarrow> Inl e
           | Inr None \<Rightarrow> Inl (NightNotFound (SkippedNight d))
           | Inr (Some m) \<Rightarrow>
               (case order_times_of ns (n\<lparr>n_method := Some m\<rparr>) of
                  Inl e \<Rightarrow> Inl (NightNotFound e)
                | Inr t \<Rightarrow> Inr (n, t, m))))"

definition limit_or :: "int option \<Rightarrow> int \<Rightarrow> int" where
  "limit_or l m = (case l of Some x \<Rightarrow> x | None \<Rightarrow> m)"

text \<open>The four reference prices: the openings of the minutes of the two orders, of the close and of the opening.\<close>

definition ref_prices :: "(int \<Rightarrow> data_error + real option) \<Rightarrow> night \<Rightarrow> order_times
    \<Rightarrow> data_error + real option \<times> real option \<times> real option \<times> real option" where
  "ref_prices ref n t =
     (case ref (limit_or (ot_entry_limit t) (ot_entry_market t)) of Inl e \<Rightarrow> Inl e
      | Inr re \<Rightarrow> (case ref (limit_or (ot_exit_limit t) (ot_exit_market t)) of Inl e \<Rightarrow> Inl e
      | Inr rx \<Rightarrow> (case ref (n_entry_close n) of Inl e \<Rightarrow> Inl e
      | Inr be \<Rightarrow> (case ref (n_exit_open n) of Inl e \<Rightarrow> Inl e
      | Inr bx \<Rightarrow> Inr (re, rx, be, bx)))))"

definition night_metrics ::
    "night_spec \<Rightarrow> (int \<Rightarrow> data_error + real option) \<Rightarrow> int \<Rightarrow> night_row \<Rightarrow> fill_row list
     \<Rightarrow> (string \<times> decision_row) list \<Rightarrow> metric_error + night_metric" where
  "night_metrics ns ref d nr fs ds =
     (case night_frame ns d nr of Inl e \<Rightarrow> Inl e
      | Inr (n, t, m) \<Rightarrow>
     (case ref_prices ref n t of Inl e \<Rightarrow> Inl (PriceError e)
      | Inr (re, rx, be, bx) \<Rightarrow>
     (case mid_of ds ''e'' of Inl e \<Rightarrow> Inl e
      | Inr me \<Rightarrow>
     (case (if stopped_by fs then Inr None else mid_of ds ''x'') of Inl e \<Rightarrow> Inl e
      | Inr mx \<Rightarrow>
          (let ve = vwap (entry_fills fs); vx = vwap (exit_fills fs); stopped = stopped_by fs;
               slip_e = bp ve re; slip_x = (if stopped then None else map_option uminus (bp vx rx));
               gross = bp vx ve; bt_gross = bp bx be
           in case fee_bp fs of Inl e \<Rightarrow> Inl e
      | Inr fee \<Rightarrow>
     (case exit_mid_slip stopped vx mx of Inl e \<Rightarrow> Inl e
      | Inr sm \<Rightarrow>
     (case maker_share (entry_fills fs) of Inl e \<Rightarrow> Inl e
      | Inr mke \<Rightarrow>
     (case maker_share (exit_fills fs) of Inl e \<Rightarrow> Inl e
      | Inr mkx \<Rightarrow>
          Inr \<lparr>nm_method = m, nm_stopped = stopped, nm_ref_entry = re, nm_ref_exit = rx, nm_bt_entry = be,
               nm_bt_exit = bx, nm_slip_entry = slip_e, nm_slip_exit = slip_x, nm_slip_entry_mid = bp ve me,
               nm_slip_exit_mid = sm, nm_fee = fee, nm_cost_rt = plus3 slip_e slip_x fee,
               nm_maker_entry = mke, nm_maker_exit = mkx, nm_gross = gross, nm_bt_gross = bt_gross,
               nm_tracking = minus2 gross bt_gross, nm_on_time = on_time t stopped fs, nm_pnl = nr_pnl nr\<rparr>))))))))"

subsection \<open>The reference price\<close>

text \<open>\<open>kline_ref\<close>: the opening of the minute of an instant, each minute asked for once; a price that is not a
  number counts as missing.\<close>

definition kline_ref :: "(int \<Rightarrow> candle pages) \<Rightarrow> (int \<times> real option) list \<Rightarrow> int
    \<Rightarrow> (data_error + real option) \<times> (int \<times> real option) list" where
  "kline_ref get cache t =
     (let m = t div 60 * 60
      in case map_of cache m of
           Some p \<Rightarrow> (Inr p, cache)
         | None \<Rightarrow>
             (case fetch_klines (get (m * 1000)) ''1m'' (m * 1000) (m * 1000) of
                Inl e \<Rightarrow> (Inl e, cache)
              | Inr df \<Rightarrow> (let p = (case df of [] \<Rightarrow> None | c # _ \<Rightarrow> ca_open c) in (Inr p, (m, p) # cache))))"

subsection \<open>All closed nights\<close>

definition spec_for :: "(int \<Rightarrow> night_spec option) \<Rightarrow> int option \<Rightarrow> metric_error + night_spec" where
  "spec_for files version =
     (let v = (case version of Some x \<Rightarrow> if x = 0 then 1 else x | None \<Rightarrow> 1)
      in case files v of Some ns \<Rightarrow> Inr ns | None \<Rightarrow> Inl (NoSpecFile v))"

definition fills_of_night :: "int \<Rightarrow> exec_db \<Rightarrow> fill_row list" where
  "fills_of_night d db = sort_key fr_ts (filter (\<lambda>f. fr_date f = Some d) (map snd (xd_fills db)))"

definition decisions_of :: "int \<Rightarrow> exec_db \<Rightarrow> (string \<times> decision_row) list" where
  "decisions_of d db = map (\<lambda>((_, leg), r). (leg, r)) (filter (\<lambda>((e, _), _). e = d) (xd_decisions db))"

definition metric_of ::
    "(int \<Rightarrow> night_spec option) \<Rightarrow> (int \<Rightarrow> data_error + real option) \<Rightarrow> exec_db \<Rightarrow> int \<times> night_row \<Rightarrow> metric_error + night_metric" where
  "metric_of files ref db n =
     (case spec_for files (nr_version (snd n)) of
        Inl e \<Rightarrow> Inl e
      | Inr ns \<Rightarrow> night_metrics ns ref (fst n) (snd n) (fills_of_night (fst n) db) (decisions_of (fst n) db))"

text \<open>The metrics of one night after the other are stored; an error leaves the ones before it.\<close>

fun compute_nights ::
    "(int \<Rightarrow> night_spec option) \<Rightarrow> (int \<Rightarrow> data_error + real option) \<Rightarrow> (int \<times> night_row) list \<Rightarrow> exec_db
     \<Rightarrow> (metric_error + (int \<times> night_metric) list) \<times> exec_db" where
  "compute_nights files ref [] db = (Inr [], db)"
| "compute_nights files ref (n # ns) db =
     (case metric_of files ref db n of
        Inl e \<Rightarrow> (Inl e, db)
      | Inr m \<Rightarrow>
          apfst (map_sum id (Cons (fst n, m)))
            (compute_nights files ref ns (db\<lparr>xd_metrics := AList.update (fst n) m (xd_metrics db)\<rparr>)))"

definition closed_nights :: "int option \<Rightarrow> exec_db \<Rightarrow> (int \<times> night_row) list" where
  "closed_nights only db =
     filter (\<lambda>(d, r). nr_phase r = ''done'' \<and> (case only of None \<Rightarrow> True | Some x \<Rightarrow> d = x)) (xd_nights db)"

definition compute ::
    "(int \<Rightarrow> night_spec option) \<Rightarrow> (int \<Rightarrow> data_error + real option) \<Rightarrow> int option \<Rightarrow> exec_db
     \<Rightarrow> (metric_error + (int \<times> night_metric) list) \<times> exec_db" where
  "compute files ref only db = compute_nights files ref (closed_nights only db) db"

definition load_metrics :: "exec_db \<Rightarrow> (int \<times> night_metric) list" where
  "load_metrics db = sort_key fst (xd_metrics db)"

subsection \<open>The summary\<close>

record judgement =
  ju_on_time :: real
  ju_market_slip :: real
  ju_tracking_std :: real
  ju_b_cost :: real

definition mean :: "real list \<Rightarrow> real option" where
  "mean xs = (if xs = [] then None else Some (sum_list xs / real (length xs)))"

definition stdev :: "real list \<Rightarrow> real option" where
  "stdev xs = (if 2 \<le> length xs then Some (sample_std xs) else None)"

datatype check_name = OnTimeRatio | MarketSlip | TrackingStd | BCost

record judged =
  jd_value :: "real option"
  jd_limit :: real
  jd_ok :: "bool option"

record night_summary =
  sm_nights :: nat
  sm_stopped :: nat
  sm_a_nights :: nat
  sm_b_nights :: nat
  sm_b_maker :: "real option"
  sm_tracking_mean :: "real option"
  sm_pnl :: real
  sm_checks :: "(check_name \<times> judged) list"

definition judged_by :: "(real \<Rightarrow> real \<Rightarrow> bool) \<Rightarrow> real option \<Rightarrow> real \<Rightarrow> judged" where
  "judged_by ok v lm = \<lparr>jd_value = v, jd_limit = lm, jd_ok = map_option (\<lambda>x. ok x lm) v\<rparr>"

definition present :: "real option list \<Rightarrow> real list" where
  "present = List.map_filter id"

definition summarize :: "judgement \<Rightarrow> night_metric list \<Rightarrow> night_summary" where
  "summarize j rows =
     (let dn = filter (\<lambda>r. nm_pnl r \<noteq> None) rows;
          exits = filter (\<lambda>r. \<not> nm_stopped r) dn;
          as = filter (\<lambda>r. nm_method r = MethodA) exits;
          bs = filter (\<lambda>r. nm_method r = MethodB) exits;
          a_slips = present (concat (map (\<lambda>r. [nm_slip_entry r, nm_slip_exit r]) as));
          te = present (map nm_tracking exits);
          b_cost = present (map nm_cost_rt bs);
          b_maker = present (concat (map (\<lambda>r. [nm_maker_entry r, nm_maker_exit r]) bs))
      in \<lparr>sm_nights = length dn, sm_stopped = length (filter nm_stopped dn), sm_a_nights = length as, sm_b_nights = length bs,
          sm_b_maker = mean b_maker, sm_tracking_mean = mean te, sm_pnl = sum_list (map (\<lambda>r. the (nm_pnl r)) dn),
          sm_checks =
            [(OnTimeRatio, judged_by (\<ge>) (mean (map (\<lambda>r. if nm_on_time r then 1 else 0) dn)) (ju_on_time j)),
             (MarketSlip, judged_by (\<le>) (mean a_slips) (ju_market_slip j)),
             (TrackingStd, judged_by (\<le>) (stdev te) (ju_tracking_std j)),
             (BCost, judged_by (\<le>) (mean b_cost) (ju_b_cost j))]\<rparr>)"

text \<open>What the scheduler calls after a night: load, compute that night, summarise; nothing without the night.\<close>

datatype hook_error = IngestFailed ingest_error | MetricFailed metric_error

definition night_hook ::
    "(string \<Rightarrow> int option) \<Rightarrow> (nat \<Rightarrow> nat \<Rightarrow> bool) \<Rightarrow> (int \<Rightarrow> night_spec option) \<Rightarrow> (int \<Rightarrow> data_error + real option)
     \<Rightarrow> judgement \<Rightarrow> event_rec line list \<Rightarrow> int \<Rightarrow> exec_db
     \<Rightarrow> (hook_error + ((int \<times> night_metric) \<times> night_summary) option) \<times> exec_db" where
  "night_hook dt ok files ref j lines d db =
     (case ingest dt ok lines db of
        (Inl e, db1) \<Rightarrow> (Inl (IngestFailed e), db1)
      | (Inr _, db1) \<Rightarrow>
          (case compute files ref (Some d) db1 of
             (Inl e, db2) \<Rightarrow> (Inl (MetricFailed e), db2)
           | (Inr [], db2) \<Rightarrow> (Inr None, db2)
           | (Inr (m # _), db2) \<Rightarrow> (Inr (Some (m, summarize j (map snd (load_metrics db2)))), db2)))"

end
