(* ===== verification/Night_Report_Correct.thy ===== *)
theory Night_Report_Correct
  imports Night_Report
begin

text \<open>
  What the report keeps of the journal and of the nights: loading a growing journal step by step is
  loading it once, every record has its row, and the figures of a night add up to the result that
  the scheduler booked.
\<close>

subsection \<open>Client ids\<close>

lemma digit_not_dash: "n < 10 \<Longrightarrow> char_of (48 + n) \<noteq> CHR ''-''" for n :: nat
proof
  assume n: "n < 10" and "char_of (48 + n) = CHR ''-''"
  then have "(of_char (char_of (48 + n)) :: nat) = of_char CHR ''-''" by simp
  then show False using n by simp
qed

lemma digits_plain: "length (digits w n) = w \<and> CHR ''-'' \<notin> set (digits w n)"
  by (induction w n rule: digits.induct) (auto simp: digit_not_dash dest!: sym [of _ "char_of _"])

lemma split_plain: "c \<notin> set xs \<Longrightarrow> split_on c (xs @ c # ys) = xs # split_on c ys"
  by (induction xs) auto

lemma split_some: "\<exists>w ws. split_on c xs = w # ws"
  by (induction xs) (auto split: list.split)

lemma split_head: "x \<noteq> c \<Longrightarrow> \<exists>w ws. split_on c (x # xs) = (x # w) # ws"
  using split_some [of c xs] by (auto split: list.split)

lemma leg_of_leg_cid:
  assumes "leg = l # ls" "l \<noteq> CHR ''-''"
  shows "leg_of (Some (leg_cid d leg n)) = Inr (Some (iso_date d, l))"
proof -
  obtain y m dd where c: "civil d = (y, m, dd)" by (cases "civil d")
  define a where "a = digits 4 (nat y)"
  define b where "b = digits 2 (nat m)"
  define e where "e = digits 2 (nat dd)"
  have len: "length a = 4" "length b = 2" "length e = 2"
    and nd: "CHR ''-'' \<notin> set a" "CHR ''-'' \<notin> set b" "CHR ''-'' \<notin> set e"
    using digits_plain unfolding a_def b_def e_def by auto
  have iso: "iso_date d = a @ ''-'' @ b @ ''-'' @ e" by (simp add: iso_date_def c a_def b_def e_def)
  have f: "filter (\<lambda>x. x \<noteq> CHR ''-'') w = w" if "CHR ''-'' \<notin> set w" for w
    using that by (auto simp: filter_id_conv)
  have cid: "leg_cid d leg n = ''on-'' @ (a @ b @ e) @ CHR ''-'' # l # (ls @ show_nat n)"
    by (simp add: leg_cid_def day_tag_def iso f nd assms(1))
  have p: "CHR ''-'' \<notin> set (a @ b @ e)" using nd by simp
  obtain w ws where w: "split_on (CHR ''-'') (l # (ls @ show_nat n)) = (l # w) # ws"
    using split_head [OF assms(2)] by blast
  have "split_on (CHR ''-'') (leg_cid d leg n) = ''on'' # (a @ b @ e) # (l # w) # ws"
    unfolding cid using split_plain [OF p] w by simp
  then show ?thesis
    by (simp add: leg_of_def starts_text_def cid iso len)
qed

subsection \<open>A growing journal\<close>

lemma read_append:
  "read_events no (ls @ ms) =
     (case read_events no ls of Inl e \<Rightarrow> Inl e
      | Inr rs \<Rightarrow> map_sum id ((@) rs) (read_events (no + length ls) ms))"
proof (induction no ls rule: read_events.induct)
  case (4 no r ls)
  show ?case
  proof (cases "read_events (Suc no) ls")
    case (Inr rs)
    then have "read_events (Suc no) (ls @ ms) = map_sum id ((@) rs) (read_events (Suc (no + length ls)) ms)"
      using 4 by simp
    then show ?thesis using Inr by (cases "read_events (Suc (no + length ls)) ms") simp_all
  next
    case (Inl e)
    then show ?thesis using 4 by simp
  qed
next
  case (2 no ls)
  then show ?case by (cases "read_events (Suc no) ls") simp_all
next
  case (1 no)
  have "(@) ([] :: (nat \<times> event_rec) list) = id" by auto
  then show ?case by (simp add: sum.map_id0)
qed simp_all

lemma untorn_reads: "Torn \<notin> set ls \<Longrightarrow> \<exists>rs. read_events no ls = Inr rs"
proof (induction no ls rule: read_events.induct)
  case (4 no r ls)
  then obtain rs where "read_events (Suc no) ls = Inr rs" by auto
  then show ?case by simp
qed simp_all

lemma read_lines_from: "read_events no ls = Inr rs \<Longrightarrow> (k, e) \<in> set rs \<Longrightarrow> no \<le> k \<and> k < no + length ls"
proof (induction no ls arbitrary: rs rule: read_events.induct)
  case (4 no r ls)
  then obtain rs' where r: "read_events (Suc no) ls = Inr rs'" "rs = (no, r) # rs'"
    by (cases "read_events (Suc no) ls") auto
  then show ?case using "4.IH" [OF r(1)] "4.prems"(2) by auto
next
  case (2 no ls)
  then have "Suc no \<le> k \<and> k < Suc no + length ls" by simp
  then show ?case by simp
qed simp_all

lemma torn_blocks: "Torn \<in> set ls \<Longrightarrow> \<exists>x. read_events no ls = Inl x"
  by (induction no ls rule: read_events.induct) auto

lemma torn_line_blocks: "Torn \<in> set ls \<Longrightarrow> \<exists>x. ingest dt ok ls db = (Inl x, db)"
  using torn_blocks [of ls 0] by (auto simp: ingest_def)

text \<open>A line that was loaded is in the table of the events, and no other line number appears there.\<close>

lemma second_events: "xd_events (snd (second_statement dt x no e ed leg db)) = xd_events db"
  by (simp add: second_statement_def split: sum.split prod.split)

lemma line_step:
  assumes "ingest_line dt ok no e db = (r, db1)"
  shows "db1 = db \<and> r \<noteq> Inr ()
    \<or> (\<exists>dl ed row. leg_of (truthy_text (jget e ''client_id'')) = Inr dl \<and> line_date dt e dl = Inr ed
        \<and> event_row_of e ed = Inr row \<and> ok 0
        \<and> (r, db1) = second_statement dt (ok 1) no e ed (map_option snd dl) (db\<lparr>xd_events := insert_new no row (xd_events db)\<rparr>))"
proof (cases "leg_of (truthy_text (jget e ''client_id''))")
  case (Inr dl)
  show ?thesis
  proof (cases "line_date dt e dl")
    case l: (Inr ed)
    show ?thesis
    proof (cases "event_row_of e ed")
      case w: (Inr row)
      show ?thesis
      proof (cases "ok 0")
        case True
        then have "(r, db1) = second_statement dt (ok 1) no e ed (map_option snd dl) (db\<lparr>xd_events := insert_new no row (xd_events db)\<rparr>)"
          using assms Inr l w unfolding ingest_line_def by (simp only: sum.case if_True)
        then show ?thesis using Inr l w True by (intro disjI2 exI conjI)
      qed (use assms Inr l w in \<open>auto simp: ingest_line_def\<close>)
    qed (use assms Inr l in \<open>auto simp: ingest_line_def\<close>)
  qed (use assms Inr in \<open>auto simp: ingest_line_def\<close>)
qed (use assms in \<open>auto simp: ingest_line_def\<close>)

lemma insert_new_dom: "dom (map_of (insert_new k v t)) = insert k (dom (map_of t))"
  by (cases "map_of t k") (auto simp: insert_new_def map_add_def dom_def split: option.splits)

lemma line_events:
  assumes "ingest_line dt ok no e db = (r, db1)"
  shows "dom (map_of (xd_events db1)) = (if db1 = db \<and> r \<noteq> Inr () then dom (map_of (xd_events db)) else insert no (dom (map_of (xd_events db))))"
  using line_step [OF assms]
proof
  assume "\<exists>dl ed row. leg_of (truthy_text (jget e ''client_id'')) = Inr dl \<and> line_date dt e dl = Inr ed
        \<and> event_row_of e ed = Inr row \<and> ok 0
        \<and> (r, db1) = second_statement dt (ok 1) no e ed (map_option snd dl) (db\<lparr>xd_events := insert_new no row (xd_events db)\<rparr>)"
  then obtain dl :: "(string \<times> char) option" and ed row where s: "(r, db1) = second_statement dt (ok 1) no e ed (map_option snd dl) (db\<lparr>xd_events := insert_new no row (xd_events db)\<rparr>)"
    by (elim exE conjE) (rule that)
  have "xd_events db1 = insert_new no row (xd_events db)"
    using second_events [of dt "ok 1" no e ed "map_option snd dl" "db\<lparr>xd_events := insert_new no row (xd_events db)\<rparr>"]
    unfolding s [symmetric] by simp
  then have d: "dom (map_of (xd_events db1)) = insert no (dom (map_of (xd_events db)))" by (simp add: insert_new_dom)
  then show ?thesis by (cases "db1 = db") auto
qed simp

lemma rows_append:
  "ingest_rows dt ok seen (rs @ ss) db =
     (case ingest_rows dt ok seen rs db of
        (Inl x, db1) \<Rightarrow> (Inl x, db1)
      | (Inr n, db1) \<Rightarrow> apfst (map_sum id ((+) n)) (ingest_rows dt ok seen ss db1))"
proof (induction rs arbitrary: db)
  case Nil
  have "(+) (0::nat) = id" by auto
  then show ?case by (simp add: sum.map_id0)
next
  case (Cons p rs)
  obtain no e where p: "p = (no, e)" by (cases p)
  show ?case
  proof (cases "seen no")
    case False
    obtain r db1 where l: "ingest_line dt (ok no) no e db = (r, db1)" by fastforce
    show ?thesis
    proof (cases r)
      case (Inr u)
      obtain q db2 where q: "ingest_rows dt ok seen rs db1 = (q, db2)" by fastforce
      show ?thesis
      proof (cases q)
        case (Inr n)
        have "map_sum id Suc (map_sum id ((+) n) x) = map_sum id ((+) (Suc n)) x" for x :: "ingest_error + nat"
          by (cases x) simp_all
        then have s: "apfst (map_sum id Suc) (apfst (map_sum id ((+) n)) y) = apfst (map_sum id ((+) (Suc n))) y"
          for y :: "(ingest_error + nat) \<times> exec_db" by (cases y) (simp only: apfst_conv)
        have "ingest_rows dt ok seen (rs @ ss) db1 = apfst (map_sum id ((+) n)) (ingest_rows dt ok seen ss db2)"
          using Cons.IH [of db1] q Inr by simp
        then show ?thesis using False p l q \<open>r = Inr u\<close> Inr by (simp add: s)
      qed (use Cons False p l q \<open>r = Inr u\<close> in simp)
    qed (use False p l in simp)
  qed (use Cons p in simp)
qed

lemma rows_done:
  "ingest_rows dt ok seen rs db = (Inr n, db1) \<Longrightarrow>
     dom (map_of (xd_events db)) \<subseteq> dom (map_of (xd_events db1))
     \<and> dom (map_of (xd_events db1)) \<subseteq> dom (map_of (xd_events db)) \<union> fst ` set rs
     \<and> (\<forall>no\<in>fst ` set rs. seen no \<or> no \<in> dom (map_of (xd_events db1)))"
proof (induction rs arbitrary: n db)
  case (Cons p rs)
  obtain no e where p: "p = (no, e)" by (cases p)
  show ?case
  proof (cases "seen no")
    case True
    then have "ingest_rows dt ok seen rs db = (Inr n, db1)" using Cons.prems p by simp
    from Cons.IH [OF this] show ?thesis using True p by (simp only: list.set image_insert fst_conv ball_simps) blast
  next
    case False
    obtain r db' where l: "ingest_line dt (ok no) no e db = (r, db')" by fastforce
    obtain q db'' where q: "ingest_rows dt ok seen rs db' = (q, db'')" by fastforce
    have r: "r = Inr ()" using Cons.prems p False l by (cases r) simp_all
    then have e: "map_sum id Suc q = Inr n" "db'' = db1" using Cons.prems p False l q by simp_all
    then obtain m where m: "q = Inr m" by (cases q) simp_all
    have d: "dom (map_of (xd_events db')) = insert no (dom (map_of (xd_events db)))" using line_events [OF l] r by simp
    have q': "ingest_rows dt ok seen rs db' = (Inr m, db1)" using q m e by simp
    have "dom (map_of (xd_events db')) \<subseteq> dom (map_of (xd_events db1))
     \<and> dom (map_of (xd_events db1)) \<subseteq> dom (map_of (xd_events db')) \<union> fst ` set rs
     \<and> (\<forall>no\<in>fst ` set rs. seen no \<or> no \<in> dom (map_of (xd_events db1)))" by (rule Cons.IH [OF q'])
    then show ?thesis unfolding d p by (simp only: list.set image_insert fst_conv ball_simps) blast
  qed
qed simp

lemma apfst_zero: "apfst (map_sum id ((+) (0::nat))) x = x"
proof -
  have "(+) (0::nat) = id" by auto
  then show ?thesis by (simp add: sum.map_id0)
qed

lemma rows_cong:
  "\<forall>no\<in>fst ` set rs. seen no = seen' no \<Longrightarrow> ingest_rows dt ok seen rs db = ingest_rows dt ok seen' rs db"
proof (induction rs arbitrary: db)
  case (Cons p rs)
  obtain no e where p: "p = (no, e)" by (cases p)
  have IH: "ingest_rows dt ok seen rs x = ingest_rows dt ok seen' rs x" for x
    by (rule Cons.IH) (use Cons.prems in simp)
  have "seen no = seen' no" using Cons.prems p by simp
  then show ?case unfolding p ingest_rows.simps IH by simp
qed simp

lemma rows_all_seen: "\<forall>no\<in>fst ` set rs. seen no \<Longrightarrow> ingest_rows dt ok seen rs db = (Inr 0, db)"
proof (induction rs)
  case (Cons p rs)
  then show ?case by (cases p) simp
qed simp

text \<open>C37: The journal may be loaded at any time and as often as one likes: after a successful load, a load
  of the same journal adds nothing, and loading the journal when it has grown gives the same tables, the
  same error if there is one, and together the same count as one load of the whole journal.\<close>

theorem ingest_incremental:
  assumes "ingest dt ok ls db = (Inr n, db1)" "Torn \<notin> set ms"
  shows "ingest dt ok ls db1 = (Inr 0, db1)
    \<and> ingest dt ok (ls @ ms) db = apfst (map_sum id ((+) n)) (ingest dt ok (ls @ ms) db1)"
proof -
  obtain rs where rs: "read_events 0 ls = Inr rs" and l: "ingest_rows dt ok (done_line db) rs db = (Inr n, db1)"
    using assms(1) by (cases "read_events 0 ls") (simp_all add: ingest_def)
  obtain ss where ss: "read_events (length ls) ms = Inr ss" using untorn_reads [OF assms(2)] by blast
  have all: "read_events 0 (ls @ ms) = Inr (rs @ ss)" using rs ss by (simp add: read_append)
  note d = rows_done [OF l]
  have low: "no < length ls" if "no \<in> fst ` set rs" for no using that read_lines_from [OF rs] by force
  have high: "length ls \<le> no" if "no \<in> fst ` set ss" for no using that read_lines_from [OF ss] by force
  have "\<forall>no\<in>fst ` set rs. done_line db1 no" using d unfolding done_line_def domIff [symmetric] by blast
  then have seen: "ingest_rows dt ok (done_line db1) rs db1 = (Inr 0, db1)" by (rule rows_all_seen)
  have "\<forall>no\<in>fst ` set ss. done_line db no = done_line db1 no"
  proof
    fix no assume "no \<in> fst ` set ss"
    then have "no \<notin> fst ` set rs" using low high by (meson leD)
    then show "done_line db no = done_line db1 no" using d unfolding done_line_def domIff [symmetric] by blast
  qed
  then have same: "ingest_rows dt ok (done_line db) ss db1 = ingest_rows dt ok (done_line db1) ss db1" by (rule rows_cong)
  have "ingest dt ok (ls @ ms) db = apfst (map_sum id ((+) n)) (ingest_rows dt ok (done_line db) ss db1)"
    by (simp add: ingest_def all rows_append l)
  moreover have "ingest dt ok (ls @ ms) db1 = ingest_rows dt ok (done_line db1) ss db1"
    by (simp add: ingest_def all rows_append seen apfst_zero)
  ultimately show ?thesis using same seen rs by (simp add: ingest_def)
qed

subsection \<open>What a load leaves in the tables\<close>

text \<open>The row that a line of the journal stands for, read off the line alone.\<close>

definition line_key :: "(string \<Rightarrow> int option) \<Rightarrow> event_rec \<Rightarrow> (int option \<times> char option) option" where
  "line_key dt e =
     (case leg_of (truthy_text (jget e ''client_id'')) of
        Inl _ \<Rightarrow> None
      | Inr dl \<Rightarrow> (case line_date dt e dl of Inl _ \<Rightarrow> None | Inr ed \<Rightarrow> Some (ed, map_option snd dl)))"

definition is_fill :: "event_rec \<Rightarrow> bool" where
  "is_fill e \<longleftrightarrow> jget e ''event'' = JStr ''filled'' \<and> map_of e ''side'' \<noteq> None"

fun the_row :: "ingest_error + 'a \<Rightarrow> 'a option" where
  "the_row (Inr x) = Some x" | "the_row (Inl _) = None"

definition line_fill :: "(string \<Rightarrow> int option) \<Rightarrow> event_rec \<Rightarrow> fill_row option" where
  "line_fill dt e =
     (if is_fill e then (case line_key dt e of Some (ed, leg) \<Rightarrow> the_row (fill_row_of e ed leg) | None \<Rightarrow> None) else None)"

definition line_decision :: "(string \<Rightarrow> int option) \<Rightarrow> event_rec \<Rightarrow> ((int \<times> string) \<times> decision_row) option" where
  "line_decision dt e = (if jget e ''event'' = JStr ''decision'' then the_row (decision_row_of dt e) else None)"

definition line_night :: "(string \<Rightarrow> int option) \<Rightarrow> event_rec \<Rightarrow> (int \<times> night_row) option" where
  "line_night dt e = (if jget e ''event'' = JStr ''night'' then the_row (night_row_of dt e) else None)"

lemma second_done_ok:
  assumes "second_statement dt x no e ed leg db = (Inr (), db1)"
  shows "xd_fills db1 = (if is_fill e then insert_new no (projr (fill_row_of e ed leg)) (xd_fills db) else xd_fills db)"
    and "is_fill e \<longrightarrow> the_row (fill_row_of e ed leg) = Some (projr (fill_row_of e ed leg))"
    and "xd_decisions db1 = (case line_decision dt e of Some (k, r) \<Rightarrow> AList.update k r (xd_decisions db) | None \<Rightarrow> xd_decisions db)"
    and "xd_nights db1 = (case line_night dt e of Some (d, r) \<Rightarrow> upsert_night d r (xd_nights db) | None \<Rightarrow> xd_nights db)"
proof -
  consider (f) "is_fill e" | (d) "\<not> is_fill e" "jget e ''event'' = JStr ''decision''"
    | (n) "\<not> is_fill e" "jget e ''event'' = JStr ''night''"
    | (o) "\<not> is_fill e" "jget e ''event'' \<noteq> JStr ''decision''" "jget e ''event'' \<noteq> JStr ''night''" by blast
  then have "(xd_fills db1 = (if is_fill e then insert_new no (projr (fill_row_of e ed leg)) (xd_fills db) else xd_fills db))
    \<and> (is_fill e \<longrightarrow> the_row (fill_row_of e ed leg) = Some (projr (fill_row_of e ed leg)))
    \<and> (xd_decisions db1 = (case line_decision dt e of Some (k, r) \<Rightarrow> AList.update k r (xd_decisions db) | None \<Rightarrow> xd_decisions db))
    \<and> (xd_nights db1 = (case line_night dt e of Some (d, r) \<Rightarrow> upsert_night d r (xd_nights db) | None \<Rightarrow> xd_nights db))"
  proof cases
    case f
    then show ?thesis using assms
      by (cases "fill_row_of e ed leg"; cases x) (auto simp: second_statement_def is_fill_def line_decision_def line_night_def)
  next
    case d
    then have s: "second_statement dt x no e ed leg db = (case decision_row_of dt e of Inl x \<Rightarrow> (Inl x, db)
            | Inr (k, r) \<Rightarrow> if x then (Inr (), db\<lparr>xd_decisions := AList.update k r (xd_decisions db)\<rparr>) else (Inl DbRefused, db))"
      by (simp add: second_statement_def is_fill_def)
    show ?thesis using assms d unfolding s
      by (cases "decision_row_of dt e"; cases x) (auto simp: line_decision_def line_night_def)
  next
    case n
    then have s: "second_statement dt x no e ed leg db = (case night_row_of dt e of Inl x \<Rightarrow> (Inl x, db)
            | Inr (d, r) \<Rightarrow> if x then (Inr (), db\<lparr>xd_nights := upsert_night d r (xd_nights db)\<rparr>) else (Inl DbRefused, db))"
      by (simp add: second_statement_def is_fill_def)
    show ?thesis using assms n unfolding s
      by (cases "night_row_of dt e"; cases x) (auto simp: line_decision_def line_night_def)
  next
    case o
    then have "second_statement dt x no e ed leg db = (Inr (), db)" by (auto simp: second_statement_def is_fill_def)
    then show ?thesis using assms o by (simp add: line_decision_def line_night_def)
  qed
  then show "xd_fills db1 = (if is_fill e then insert_new no (projr (fill_row_of e ed leg)) (xd_fills db) else xd_fills db)"
    and "is_fill e \<longrightarrow> the_row (fill_row_of e ed leg) = Some (projr (fill_row_of e ed leg))"
    and "xd_decisions db1 = (case line_decision dt e of Some (k, r) \<Rightarrow> AList.update k r (xd_decisions db) | None \<Rightarrow> xd_decisions db)"
    and "xd_nights db1 = (case line_night dt e of Some (d, r) \<Rightarrow> upsert_night d r (xd_nights db) | None \<Rightarrow> xd_nights db)"
    by blast+
qed

lemma line_ok:
  assumes "ingest_line dt ok no e db = (Inr (), db1)"
  shows "xd_fills db1 = (case line_fill dt e of Some r \<Rightarrow> insert_new no r (xd_fills db) | None \<Rightarrow> xd_fills db)"
    and "xd_decisions db1 = (case line_decision dt e of Some (k, r) \<Rightarrow> AList.update k r (xd_decisions db) | None \<Rightarrow> xd_decisions db)"
    and "xd_nights db1 = (case line_night dt e of Some (d, r) \<Rightarrow> upsert_night d r (xd_nights db) | None \<Rightarrow> xd_nights db)"
proof -
  obtain dl :: "(string \<times> char) option" and ed row where
    k: "leg_of (truthy_text (jget e ''client_id'')) = Inr dl" "line_date dt e dl = Inr ed"
    and s: "second_statement dt (ok 1) no e ed (map_option snd dl) (db\<lparr>xd_events := insert_new no row (xd_events db)\<rparr>) = (Inr (), db1)"
    using line_step [OF assms] by (elim disjE) (simp, metis)
  have key: "line_key dt e = Some (ed, map_option snd dl)" by (simp add: line_key_def k)
  note o = second_done_ok [OF s]
  show "xd_fills db1 = (case line_fill dt e of Some r \<Rightarrow> insert_new no r (xd_fills db) | None \<Rightarrow> xd_fills db)"
    using o(1,2) by (cases "is_fill e") (simp_all add: line_fill_def key)
  show "xd_decisions db1 = (case line_decision dt e of Some (k, r) \<Rightarrow> AList.update k r (xd_decisions db) | None \<Rightarrow> xd_decisions db)"
    using o(3) by (cases "line_decision dt e") (simp_all add: case_prod_unfold)
  show "xd_nights db1 = (case line_night dt e of Some (d, r) \<Rightarrow> upsert_night d r (xd_nights db) | None \<Rightarrow> xd_nights db)"
    using o(4) by (cases "line_night dt e") (simp_all add: case_prod_unfold)
qed

text \<open>Line after line.\<close>

definition put_decision :: "(string \<Rightarrow> int option) \<Rightarrow> event_rec \<Rightarrow> ((int \<times> string) \<times> decision_row) list \<Rightarrow> ((int \<times> string) \<times> decision_row) list" where
  "put_decision dt e t = (case line_decision dt e of Some (k, r) \<Rightarrow> AList.update k r t | None \<Rightarrow> t)"

definition put_night :: "(string \<Rightarrow> int option) \<Rightarrow> event_rec \<Rightarrow> (int \<times> night_row) list \<Rightarrow> (int \<times> night_row) list" where
  "put_night dt e t = (case line_night dt e of Some (d, r) \<Rightarrow> upsert_night d r t | None \<Rightarrow> t)"

definition put_fill :: "(string \<Rightarrow> int option) \<Rightarrow> nat \<times> event_rec \<Rightarrow> (nat \<times> fill_row) list \<Rightarrow> (nat \<times> fill_row) list" where
  "put_fill dt p t = (case line_fill dt (snd p) of Some r \<Rightarrow> insert_new (fst p) r t | None \<Rightarrow> t)"

lemma rows_ok:
  "ingest_rows dt ok seen rs db = (Inr n, db1) \<Longrightarrow> \<forall>no. \<not> seen no \<Longrightarrow>
     xd_fills db1 = fold (put_fill dt) rs (xd_fills db)
     \<and> xd_decisions db1 = fold (put_decision dt) (map snd rs) (xd_decisions db)
     \<and> xd_nights db1 = fold (put_night dt) (map snd rs) (xd_nights db)"
proof (induction rs arbitrary: n db)
  case (Cons p rs)
  obtain no e where p: "p = (no, e)" by (cases p)
  obtain r db' where l: "ingest_line dt (ok no) no e db = (r, db')" by fastforce
  obtain q db'' where q: "ingest_rows dt ok seen rs db' = (q, db'')" by fastforce
  have ns: "\<not> seen no" using Cons.prems(2) by blast
  have r: "r = Inr ()" using Cons.prems(1) ns p l by (cases r) simp_all
  then have e: "map_sum id Suc q = Inr n" "db'' = db1" using Cons.prems(1) ns p l q by simp_all
  then obtain m where "q = Inr m" by (cases q) simp_all
  then have q': "ingest_rows dt ok seen rs db' = (Inr m, db1)" using q e by simp
  have l': "ingest_line dt (ok no) no e db = (Inr (), db')" using l r by simp
  have "xd_fills db' = put_fill dt p (xd_fills db)" "xd_decisions db' = put_decision dt e (xd_decisions db)"
    "xd_nights db' = put_night dt e (xd_nights db)"
    using line_ok [OF l'] p by (simp_all only: put_fill_def put_decision_def put_night_def fst_conv snd_conv)
  then show ?case using Cons.IH [OF q' Cons.prems(2)] p by simp
qed simp

lemma fills_loaded:
  assumes "distinct (map fst rs)" "\<forall>no\<in>fst ` set rs. map_of t no = None"
  shows "fold (put_fill dt) rs t = t @ List.map_filter (\<lambda>(no, e). map_option (Pair no) (line_fill dt e)) rs"
  using assms
proof (induction rs arbitrary: t)
  case (Cons p rs)
  obtain no e where p: "p = (no, e)" by (cases p)
  have fresh: "no \<notin> fst ` set rs" "map_of t no = None" using Cons.prems p by simp_all
  show ?case
  proof (cases "line_fill dt e")
    case None
    have st: "put_fill dt p t = t" using None p by (simp add: put_fill_def)
    have "fold (put_fill dt) rs t = t @ List.map_filter (\<lambda>(no, e). map_option (Pair no) (line_fill dt e)) rs"
      using Cons.prems by (intro Cons.IH) auto
    then show ?thesis using p None st by (simp add: List.map_filter_simps)
  next
    case (Some r)
    have "\<forall>k\<in>fst ` set rs. map_of (t @ [(no, r)]) k = None"
      using Cons.prems p fresh by (auto simp: map_add_def)
    then have "fold (put_fill dt) rs (t @ [(no, r)]) = (t @ [(no, r)]) @ List.map_filter (\<lambda>(no, e). map_option (Pair no) (line_fill dt e)) rs"
      using Cons.prems by (intro Cons.IH) auto
    moreover have "put_fill dt p t = t @ [(no, r)]" using Some p fresh(2) by (simp add: put_fill_def insert_new_def)
    ultimately show ?thesis using p Some by (simp add: List.map_filter_simps)
  qed
qed (simp add: List.map_filter_simps)

lemma decisions_loaded:
  "map_of (fold (put_decision dt) es t) k =
     (case find (\<lambda>x. fst x = k) (rev (List.map_filter (line_decision dt) es)) of Some x \<Rightarrow> Some (snd x) | None \<Rightarrow> map_of t k)"
proof (induction es arbitrary: t)
  case (Cons e es)
  have f: "find P (xs @ [x]) = (case find P xs of Some z \<Rightarrow> Some z | None \<Rightarrow> if P x then Some x else None)"
    for P xs and x :: "(int \<times> string) \<times> decision_row"
    by (induction xs) auto
  show ?case
  proof (cases "line_decision dt e")
    case None
    then have st: "put_decision dt e t = t" by (simp add: put_decision_def)
    show ?thesis using None Cons [of t] st by (simp add: List.map_filter_simps)
  next
    case (Some x)
    then have st: "put_decision dt e t = AList.update (fst x) (snd x) t" by (simp add: put_decision_def case_prod_unfold)
    show ?thesis using Some Cons [of "AList.update (fst x) (snd x) t"] st
      by (simp add: List.map_filter_simps f update_conv' split: option.split)
  qed
qed (simp add: List.map_filter_simps)

text \<open>The first record of a night gives its method, version, exit day and start, the last one the rest.\<close>

definition night_records :: "(string \<Rightarrow> int option) \<Rightarrow> event_rec list \<Rightarrow> int \<Rightarrow> night_row list" where
  "night_records dt es d = map snd (filter (\<lambda>x. fst x = d) (List.map_filter (line_night dt) es))"

lemma nights_loaded:
  "map_of (fold (put_night dt) es t) d =
     (case (case map_of t d of None \<Rightarrow> [] | Some r \<Rightarrow> [r]) @ night_records dt es d of
        [] \<Rightarrow> None | r # rs \<Rightarrow> Some (foldl merge_night r rs))"
proof (induction es arbitrary: t)
  case (Cons e es)
  show ?case
  proof (cases "line_night dt e")
    case None
    then have "put_night dt e t = t" "night_records dt (e # es) d = night_records dt es d"
      by (simp_all add: put_night_def night_records_def List.map_filter_simps)
    then show ?thesis using Cons [of t] by simp
  next
    case (Some x)
    obtain d' r where x: "x = (d', r)" by (cases x)
    have st: "put_night dt e t = upsert_night d' r t"
      and rec: "night_records dt (e # es) d = (if d' = d then [r] else []) @ night_records dt es d"
      using Some x by (simp_all add: put_night_def night_records_def List.map_filter_simps)
    have up: "map_of (upsert_night d' r t) d = (if d' = d then Some (case map_of t d of None \<Rightarrow> r | Some r0 \<Rightarrow> merge_night r0 r) else map_of t d)"
      by (simp add: upsert_night_def update_conv')
    note c = Cons [of "upsert_night d' r t", unfolded up]
    show ?thesis
      using c by (cases "map_of t d"; cases "d' = d") (simp_all add: st rec)
  qed
qed (simp add: night_records_def List.map_filter_simps split: option.split)

lemma merged_fields:
  "nr_method (foldl merge_night r rs) = nr_method r \<and> nr_version (foldl merge_night r rs) = nr_version r
   \<and> nr_phase (foldl merge_night r rs) = nr_phase (last (r # rs)) \<and> nr_pnl (foldl merge_night r rs) = nr_pnl (last (r # rs))"
  by (induction rs rule: rev_induct) (simp_all add: merge_night_def)

lemma read_numbers: "read_events no ls = Inr rs \<Longrightarrow> sorted_wrt (<) (map fst rs)"
proof (induction no ls arbitrary: rs rule: read_events.induct)
  case (4 no r ls)
  then obtain rs' where r: "read_events (Suc no) ls = Inr rs'" "rs = (no, r) # rs'"
    by (cases "read_events (Suc no) ls") auto
  then show ?case using "4.IH" [OF r(1)] read_lines_from [OF r(1)] by fastforce
qed simp_all

text \<open>A complete load puts the journal into the tables.  Every fill record has exactly one row, in the
  order of the journal; the decision of a night and leg is the last one recorded; a night has a row
  exactly when the journal has a record of it, and the row shows the phase and the result of the last
  record, but the method and the version of the first.\<close>

theorem ingest_complete:
  assumes "ingest dt ok ls \<lparr>xd_events = [], xd_fills = [], xd_decisions = [], xd_nights = [], xd_metrics = []\<rparr> = (Inr n, db1)"
  shows "\<exists>rs. read_events 0 ls = Inr rs \<and> (let es = map snd rs in
      xd_fills db1 = List.map_filter (\<lambda>(no, e). map_option (Pair no) (line_fill dt e)) rs
    \<and> (\<forall>k. map_of (xd_decisions db1) k
          = map_option snd (find (\<lambda>x. fst x = k) (rev (List.map_filter (line_decision dt) es))))
    \<and> (\<forall>d. case night_records dt es d of
              [] \<Rightarrow> map_of (xd_nights db1) d = None
            | r # rest \<Rightarrow> (\<exists>row. map_of (xd_nights db1) d = Some row
                \<and> nr_phase row = nr_phase (last (r # rest)) \<and> nr_pnl row = nr_pnl (last (r # rest))
                \<and> nr_method row = nr_method r \<and> nr_version row = nr_version r)))"
proof -
  let ?db = "\<lparr>xd_events = [], xd_fills = [], xd_decisions = [], xd_nights = [], xd_metrics = []\<rparr> :: exec_db"
  obtain rs where rs: "read_events 0 ls = Inr rs" and l: "ingest_rows dt ok (done_line ?db) rs ?db = (Inr n, db1)"
    using assms by (cases "read_events 0 ls") (simp_all add: ingest_def)
  have "\<forall>no. \<not> done_line ?db no" by (simp add: done_line_def)
  note r = rows_ok [OF l this]
  have "distinct (map fst rs)" using read_numbers [OF rs] by (simp add: strict_sorted_iff)
  then have f: "xd_fills db1 = List.map_filter (\<lambda>(no, e). map_option (Pair no) (line_fill dt e)) rs"
    using r fills_loaded [of rs "[]"] by simp
  have d: "map_of (xd_decisions db1) k = map_option snd (find (\<lambda>x. fst x = k) (rev (List.map_filter (line_decision dt) (map snd rs))))" for k
    using r decisions_loaded [of dt "map snd rs" "[]" k] by (cases "find (\<lambda>x. fst x = k) (rev (List.map_filter (line_decision dt) (map snd rs)))") simp_all
  have n: "map_of (xd_nights db1) x = (case night_records dt (map snd rs) x of [] \<Rightarrow> None | r # rest \<Rightarrow> Some (foldl merge_night r rest))" for x
    using r nights_loaded [of dt "map snd rs" "[]" x] by simp
  have "case night_records dt (map snd rs) x of
              [] \<Rightarrow> map_of (xd_nights db1) x = None
            | r # rest \<Rightarrow> (\<exists>row. map_of (xd_nights db1) x = Some row
                \<and> nr_phase row = nr_phase (last (r # rest)) \<and> nr_pnl row = nr_pnl (last (r # rest))
                \<and> nr_method row = nr_method r \<and> nr_version row = nr_version r)" for x
    using n [of x] merged_fields by (cases "night_records dt (map snd rs) x") (simp_all del: last.simps)
  then show ?thesis using rs f d by (intro exI [of _ rs]) (simp add: Let_def)
qed

subsection \<open>A fill that is lost\<close>

lemma second_keeps_other: "k \<noteq> no \<Longrightarrow> map_of (xd_fills (snd (second_statement dt x no e ed leg db))) k = map_of (xd_fills db) k"
  by (auto simp: second_statement_def insert_new_def map_add_def split: sum.split prod.split option.split)

lemma line_keeps_other:
  assumes "ingest_line dt ok no e db = (r, db1)" "k \<noteq> no"
  shows "map_of (xd_fills db1) k = map_of (xd_fills db) k"
  using line_step [OF assms(1)]
proof
  assume "\<exists>dl ed row. leg_of (truthy_text (jget e ''client_id'')) = Inr dl \<and> line_date dt e dl = Inr ed
        \<and> event_row_of e ed = Inr row \<and> ok 0
        \<and> (r, db1) = second_statement dt (ok 1) no e ed (map_option snd dl) (db\<lparr>xd_events := insert_new no row (xd_events db)\<rparr>)"
  then obtain dl :: "(string \<times> char) option" and ed row where s: "(r, db1) = second_statement dt (ok 1) no e ed (map_option snd dl) (db\<lparr>xd_events := insert_new no row (xd_events db)\<rparr>)"
    by (elim exE conjE) (rule that)
  from second_keeps_other [OF assms(2), of dt "ok 1" e ed "map_option snd dl" "db\<lparr>xd_events := insert_new no row (xd_events db)\<rparr>"]
  show ?thesis unfolding s [symmetric] by simp
qed simp

text \<open>Once the events have the line, no load looks at it again.\<close>

lemma rows_keep_lost:
  "seen k \<Longrightarrow> done_line db k \<Longrightarrow>
     map_of (xd_fills (snd (ingest_rows dt ok seen rs db))) k = map_of (xd_fills db) k
     \<and> done_line (snd (ingest_rows dt ok seen rs db)) k"
proof (induction rs arbitrary: db)
  case (Cons p rs)
  obtain no e where p: "p = (no, e)" by (cases p)
  show ?case
  proof (cases "seen no")
    case True
    then show ?thesis using Cons p by simp
  next
    case False
    then have k: "k \<noteq> no" using Cons.prems(1) by auto
    obtain r db' where l: "ingest_line dt (ok no) no e db = (r, db')" by fastforce
    have f: "map_of (xd_fills db') k = map_of (xd_fills db) k" by (rule line_keeps_other [OF l k])
    have d: "done_line db' k" using line_events [OF l] Cons.prems(2)
      unfolding done_line_def domIff [symmetric] by (auto split: if_splits)
    show ?thesis
    proof (cases r)
      case (Inl x)
      then show ?thesis using False p l f d by simp
    next
      case (Inr u)
      then have "snd (ingest_rows dt ok seen (p # rs) db) = snd (ingest_rows dt ok seen rs db')"
        using False p l by simp
      then show ?thesis using Cons.IH [OF Cons.prems(1) d] f by simp
    qed
  qed
qed simp

lemma load_keeps_lost:
  assumes "done_line db k"
  shows "map_of (xd_fills (snd (ingest dt ok ls db))) k = map_of (xd_fills db) k \<and> done_line (snd (ingest dt ok ls db)) k"
  using rows_keep_lost [where seen = "done_line db" and k = k and db = db, OF assms assms] assms by (cases "read_events 0 ls") (simp_all add: ingest_def)

lemma loads_keep_lost:
  "done_line db k \<Longrightarrow> map_of (xd_fills (fold (\<lambda>(ok, ls) db. snd (ingest dt ok ls db)) later db)) k = map_of (xd_fills db) k"
proof (induction later arbitrary: db)
  case (Cons x later)
  obtain ok ls where x: "x = (ok, ls)" by (cases x)
  note k = load_keeps_lost [OF Cons.prems, of dt ok ls]
  show ?case using Cons.IH [of "snd (ingest dt ok ls db)"] k x by simp
qed simp

lemma rows_keep_other:
  "k \<notin> fst ` set rs \<Longrightarrow> map_of (xd_fills (snd (ingest_rows dt ok seen rs db))) k = map_of (xd_fills db) k"
proof (induction rs arbitrary: db)
  case (Cons p rs)
  obtain no e where p: "p = (no, e)" by (cases p)
  have k: "k \<noteq> no" "k \<notin> fst ` set rs" using Cons.prems p by auto
  show ?case
  proof (cases "seen no")
    case True
    then show ?thesis using Cons.IH [OF k(2)] p by simp
  next
    case False
    obtain r db' where l: "ingest_line dt (ok no) no e db = (r, db')" by fastforce
    have "map_of (xd_fills db') k = map_of (xd_fills db) k" by (rule line_keeps_other [OF l k(1)])
    then show ?thesis using Cons.IH [OF k(2), of db'] False p l by (cases r) simp_all
  qed
qed simp

text \<open>C38: A load that breaks between the two statements of a fill loses the fill for good.  The connection
  commits the row of the event first; when the statement of the fill then fails, the load raises, and no
  later load, of whatever journal and however it goes, ever writes the row of that fill: the line counts as done.\<close>

theorem ingest_loses_fill:
  assumes "ingest dt ok ls db = (Inr n, db1)" "map_of (xd_fills db) (length ls) = None" "\<not> done_line db (length ls)"
    and "line_fill dt e = Some row" "event_row_of e (fst (the (line_key dt e))) = Inr ev"
    and "ok2 (length ls) 0" "\<not> ok2 (length ls) 1"
  shows "\<exists>db2. ingest dt ok2 (ls @ [Line e]) db1 = (Inl DbRefused, db2) \<and> done_line db2 (length ls)
    \<and> map_of (xd_fills (fold (\<lambda>(ok, ls) db. snd (ingest dt ok ls db)) later db2)) (length ls) = None"
proof -
  obtain rs where rs: "read_events 0 ls = Inr rs" and l: "ingest_rows dt ok (done_line db) rs db = (Inr n, db1)"
    using assms(1) by (cases "read_events 0 ls") (simp_all add: ingest_def)
  have last: "length ls \<notin> fst ` set rs" using read_lines_from [OF rs] by force
  note d = rows_done [OF l]
  have "\<forall>no\<in>fst ` set rs. done_line db1 no" using d unfolding done_line_def domIff [symmetric] by blast
  then have old: "ingest_rows dt ok2 (done_line db1) rs db1 = (Inr 0, db1)" by (rule rows_all_seen)
  have new: "\<not> done_line db1 (length ls)" using d last assms(3) unfolding done_line_def domIff [symmetric] by blast
  have none: "map_of (xd_fills db1) (length ls) = None" using rows_keep_other [OF last, of dt ok "done_line db" db] l assms(2) by simp
  obtain dl :: "(string \<times> char) option" and ed where
    k: "leg_of (truthy_text (jget e ''client_id'')) = Inr dl" "line_date dt e dl = Inr ed" "line_key dt e = Some (ed, map_option snd dl)"
    using assms(4) by (cases "leg_of (truthy_text (jget e ''client_id''))"; cases "line_date dt e (projr (leg_of (truthy_text (jget e ''client_id''))))")
      (auto simp: line_fill_def line_key_def split: if_splits)
  have fill: "is_fill e" "fill_row_of e ed (map_option snd dl) = Inr row"
    using assms(4) k(3) by (cases "fill_row_of e ed (map_option snd dl)"; simp add: line_fill_def split: if_splits)+
  let ?db2 = "db1\<lparr>xd_events := insert_new (length ls) ev (xd_events db1)\<rparr>"
  have "ingest_line dt (ok2 (length ls)) (length ls) e db1 = (Inl DbRefused, ?db2)"
    using k assms(5-7) fill by (simp add: ingest_line_def second_statement_def is_fill_def)
  then have "ingest_rows dt ok2 (done_line db1) (rs @ [(length ls, e)]) db1 = (Inl DbRefused, ?db2)"
    using old new by (simp add: rows_append)
  then have "ingest dt ok2 (ls @ [Line e]) db1 = (Inl DbRefused, ?db2)" by (simp add: ingest_def read_append rs)
  moreover have d2: "done_line ?db2 (length ls)" unfolding done_line_def domIff [symmetric] by (simp add: insert_new_dom)
  moreover have "map_of (xd_fills (fold (\<lambda>(ok, ls) db. snd (ingest dt ok ls db)) later ?db2)) (length ls) = None"
    using loads_keep_lost [OF d2, of dt later] none by simp
  ultimately show ?thesis by blast
qed

end
