(* ===== verification/Night_Figures.thy ===== *)
theory Night_Figures
  imports Night_Report_Correct "HOL-Library.Multiset"
begin

text \<open>
  From the fills of a night over their records in the journal to the figures of the report: the
  figures add up to the result that the scheduler booked.
\<close>

subsection \<open>A fill in the journal\<close>

text \<open>The record that the scheduler logs for a fill event of its broker.\<close>

definition fill_event :: "datetime \<Rightarrow> string \<Rightarrow> fill \<Rightarrow> event_rec" where
  "fill_event now mode f =
     [(''logged_at'', JTime now), (''mode'', JStr mode), (''event'', JStr ''filled''), (''client_id'', JStr (f_client_id f)),
      (''ts'', JTime (f_ts f)), (''side'', JStr (side_value (f_side f))), (''qty'', JNum (f_qty f)),
      (''price'', JNum (f_price f)), (''fee'', JNum (f_fee f)), (''liquidity'', JStr (liquidity_value (f_liquidity f)))]"

definition fill_as_row :: "int \<Rightarrow> char \<Rightarrow> fill \<Rightarrow> fill_row" where
  "fill_as_row d l f =
     \<lparr>fr_cid = f_client_id f, fr_ts = f_ts f, fr_date = Some d, fr_leg = Some l, fr_side = side_value (f_side f),
      fr_qty = f_qty f, fr_price = f_price f, fr_fee = f_fee f, fr_liquidity = liquidity_value (f_liquidity f)\<rparr>"

lemma leg_cid_ne: "leg_cid d leg n \<noteq> []"
  by (simp add: leg_cid_def day_tag_def)

lemma fill_in_journal:
  assumes "f_client_id f = leg_cid d [l] k" "l \<noteq> CHR ''-''" "dt (iso_date d) = Some d"
  shows "line_fill dt (fill_event now mode f) = Some (fill_as_row d l f)"
proof -
  have "truthy_text (jget (fill_event now mode f) ''client_id'') = Some (leg_cid d [l] k)"
    using assms(1) by (simp add: truthy_text_def jget_def fill_event_def leg_cid_ne)
  moreover have "truthy_text (jget (fill_event now mode f) ''entry_date'') = None"
    by (simp add: truthy_text_def jget_def fill_event_def)
  ultimately have "line_key dt (fill_event now mode f) = Some (Some d, Some l)"
    using assms(3) leg_of_leg_cid [of "[l]" l "[]" d k] assms(2) by (simp add: line_key_def line_date_def)
  then show ?thesis
    by (simp add: line_fill_def is_fill_def fill_row_of_def with_keys_def jget_def fill_event_def fill_as_row_def)
qed

text \<open>The fills of a closed night: bought under the entry leg, sold under an exit leg.\<close>

definition night_fill :: "int \<Rightarrow> fill \<Rightarrow> bool" where
  "night_fill d f \<longleftrightarrow> 0 < f_qty f \<and> 0 < f_price f
     \<and> (if f_side f = BUY then \<exists>k. f_client_id f = leg_cid d ''e'' k
        else \<exists>l k. l \<in> set exit_legs \<and> f_client_id f = leg_cid d [l] k)"

lemma night_fill_row:
  assumes "night_fill d f" "dt (iso_date d) = Some d"
  shows "\<exists>l. line_fill dt (fill_event now mode f) = Some (fill_as_row d l f)
    \<and> (if f_side f = BUY then l = CHR ''e'' else l \<in> set exit_legs)"
proof (cases "f_side f = BUY")
  case True
  then obtain k where k: "f_client_id f = leg_cid d [CHR ''e''] k" using assms(1) by (auto simp: night_fill_def)
  show ?thesis using fill_in_journal [where dt = dt and now = now and mode = mode, OF k _ assms(2)] True by auto
next
  case False
  then obtain l k where k: "l \<in> set exit_legs" "f_client_id f = leg_cid d [l] k" using assms(1) by (auto simp: night_fill_def)
  have "l \<noteq> CHR ''-''" using k(1) by (auto simp: exit_legs_def)
  then show ?thesis using fill_in_journal [where dt = dt and now = now and mode = mode, OF k(2) _ assms(2)] False k(1) by auto
qed

definition journal_rows :: "(string \<Rightarrow> int option) \<Rightarrow> datetime \<Rightarrow> string \<Rightarrow> fill list \<Rightarrow> fill_row list" where
  "journal_rows dt now mode fs = List.map_filter (\<lambda>f. line_fill dt (fill_event now mode f)) fs"

lemma sold: "f_side f = SELL \<longleftrightarrow> f_side f \<noteq> BUY"
  by (cases "f_side f") auto

lemma leg_sums:
  assumes "list_all (night_fill d) fs" "dt (iso_date d) = Some d"
    and "\<And>l f. g (fill_as_row d l f) = h f"
  shows "(\<Sum>r\<leftarrow>entry_fills (journal_rows dt now mode fs). g r) = (\<Sum>f\<leftarrow>of_side BUY fs. h f)"
    and "(\<Sum>r\<leftarrow>exit_fills (journal_rows dt now mode fs). g r) = (\<Sum>f\<leftarrow>of_side SELL fs. h f)"
    and "(\<Sum>r\<leftarrow>journal_rows dt now mode fs. g r) = (\<Sum>f\<leftarrow>fs. h f)"
proof -
  have "(\<Sum>r\<leftarrow>entry_fills (journal_rows dt now mode fs). g r) = (\<Sum>f\<leftarrow>of_side BUY fs. h f)
    \<and> (\<Sum>r\<leftarrow>exit_fills (journal_rows dt now mode fs). g r) = (\<Sum>f\<leftarrow>of_side SELL fs. h f)
    \<and> (\<Sum>r\<leftarrow>journal_rows dt now mode fs. g r) = (\<Sum>f\<leftarrow>fs. h f)"
    using assms(1)
  proof (induction fs)
    case (Cons f fs)
    obtain l where l: "line_fill dt (fill_event now mode f) = Some (fill_as_row d l f)"
      "if f_side f = BUY then l = CHR ''e'' else l \<in> set exit_legs"
      using night_fill_row [of d f dt now mode] Cons.prems assms(2) by auto
    have rows: "journal_rows dt now mode (f # fs) = fill_as_row d l f # journal_rows dt now mode fs"
      by (simp add: journal_rows_def List.map_filter_simps l(1))
    have e: "is_leg [CHR ''e''] (fill_as_row d l f) \<longleftrightarrow> f_side f = BUY"
      using l(2) by (auto simp: is_leg_def fill_as_row_def exit_legs_def split: if_splits)
    have x: "is_leg exit_legs (fill_as_row d l f) \<longleftrightarrow> f_side f \<noteq> BUY"
      using l(2) by (auto simp: is_leg_def fill_as_row_def exit_legs_def split: if_splits)
    show ?case using Cons e x by (simp add: rows entry_fills_def exit_fills_def of_side_def assms(3) sold)
  qed (simp add: journal_rows_def List.map_filter_simps entry_fills_def exit_fills_def of_side_def)
  then show "(\<Sum>r\<leftarrow>entry_fills (journal_rows dt now mode fs). g r) = (\<Sum>f\<leftarrow>of_side BUY fs. h f)"
    and "(\<Sum>r\<leftarrow>exit_fills (journal_rows dt now mode fs). g r) = (\<Sum>f\<leftarrow>of_side SELL fs. h f)"
    and "(\<Sum>r\<leftarrow>journal_rows dt now mode fs. g r) = (\<Sum>f\<leftarrow>fs. h f)" by blast+
qed

lemma sum_same: "mset xs = mset ys \<Longrightarrow> (\<Sum>x\<leftarrow>xs. g x) = (\<Sum>x\<leftarrow>ys. (g x :: real))"
  by (metis mset_map sum_mset_sum_list)

lemma sum_filter_same: "mset xs = mset ys \<Longrightarrow> (\<Sum>x\<leftarrow>filter P xs. g x) = (\<Sum>x\<leftarrow>filter P ys. (g x :: real))"
  by (intro sum_same) simp

lemma amount_pos: "list_all (night_fill d) fs \<Longrightarrow> of_side sd fs \<noteq> [] \<Longrightarrow> 0 < amount_of (of_side sd fs)"
proof -
  have *: "list_all (\<lambda>f. 0 < f_qty f * f_price f) xs \<Longrightarrow> xs \<noteq> [] \<Longrightarrow> 0 < amount_of xs" for xs
    by (induction xs) (fastforce simp: amount_of_def)+
  assume "list_all (night_fill d) fs" "of_side sd fs \<noteq> []"
  then show ?thesis by (intro *) (auto simp: of_side_def list_all_iff night_fill_def)
qed

lemma metrics_fields:
  assumes "night_metrics ns ref d nr rows ds = Inr m"
  shows "nm_gross m = bp (vwap (exit_fills rows)) (vwap (entry_fills rows))"
    "nm_slip_entry m = bp (vwap (entry_fills rows)) (nm_ref_entry m)"
    "nm_slip_exit m = (if stopped_by rows then None else map_option uminus (bp (vwap (exit_fills rows)) (nm_ref_exit m)))"
    "fee_bp rows = Inr (nm_fee m)"
    "nm_cost_rt m = plus3 (nm_slip_entry m) (nm_slip_exit m) (nm_fee m)"
    "nm_pnl m = nr_pnl nr"
  using assms by (auto simp: night_metrics_def Let_def split: sum.splits prod.splits if_splits)

lemma loaded_sums:
  assumes "list_all (night_fill d) fs" "dt (iso_date d) = Some d" "mset rows = mset (journal_rows dt now mode fs)"
  shows "(\<Sum>r\<leftarrow>entry_fills rows. fr_qty r) = fills_qty (of_side BUY fs)"
    and "(\<Sum>r\<leftarrow>exit_fills rows. fr_qty r) = fills_qty (of_side SELL fs)"
    and "(\<Sum>r\<leftarrow>entry_fills rows. fr_qty r * fr_price r) = amount_of (of_side BUY fs)"
    and "(\<Sum>r\<leftarrow>exit_fills rows. fr_qty r * fr_price r) = amount_of (of_side SELL fs)"
    and "(\<Sum>r\<leftarrow>rows. fr_fee r) = fees_of fs"
proof -
  have row: "fr_qty (fill_as_row d l x) = f_qty x" "fr_fee (fill_as_row d l x) = f_fee x"
    "fr_qty (fill_as_row d l x) * fr_price (fill_as_row d l x) = f_qty x * f_price x" for l x
    by (simp_all add: fill_as_row_def)
  note sq = leg_sums [where g = fr_qty and h = f_qty and dt = dt and now = now and mode = mode, OF assms(1,2) row(1)]
  note sa = leg_sums [where g = "\<lambda>r. fr_qty r * fr_price r" and h = "\<lambda>x. f_qty x * f_price x" and dt = dt and now = now and mode = mode, OF assms(1,2) row(3)]
  note sf = leg_sums [where g = fr_fee and h = f_fee and dt = dt and now = now and mode = mode, OF assms(1,2) row(2)]
  show "(\<Sum>r\<leftarrow>entry_fills rows. fr_qty r) = fills_qty (of_side BUY fs)"
    "(\<Sum>r\<leftarrow>exit_fills rows. fr_qty r) = fills_qty (of_side SELL fs)"
    "(\<Sum>r\<leftarrow>entry_fills rows. fr_qty r * fr_price r) = amount_of (of_side BUY fs)"
    "(\<Sum>r\<leftarrow>exit_fills rows. fr_qty r * fr_price r) = amount_of (of_side SELL fs)"
    "(\<Sum>r\<leftarrow>rows. fr_fee r) = fees_of fs"
    using sq sa sf sum_filter_same [OF assms(3), where P = "is_leg [CHR ''e'']"] sum_filter_same [OF assms(3), where P = "is_leg exit_legs"]
      sum_same [OF assms(3), of fr_fee]
    by (simp_all add: fills_qty_def amount_of_def fees_of_def entry_fills_def exit_fills_def)
qed

lemma night_amounts_pos:
  assumes "list_all (night_fill d) fs" "fs \<noteq> []" "fills_qty (of_side BUY fs) = fills_qty (of_side SELL fs)"
  shows "0 < fills_qty (of_side BUY fs)" "0 < amount_of (of_side BUY fs)" "0 < amount_of (of_side SELL fs)"
proof -
  have qpos: "0 < fills_qty (of_side sd fs)" if "of_side sd fs \<noteq> []" for sd
  proof -
    have *: "list_all (\<lambda>f. 0 < f_qty f) xs \<Longrightarrow> xs \<noteq> [] \<Longrightarrow> 0 < fills_qty xs" for xs
      by (induction xs) (fastforce simp: fills_qty_def)+
    show ?thesis using that assms(1) by (intro *) (auto simp: of_side_def list_all_iff night_fill_def)
  qed
  have zero: "fills_qty (of_side sd fs) = 0" if "of_side sd fs = []" for sd using that by (simp add: fills_qty_def)
  obtain x xs where "fs = x # xs" using assms(2) by (cases fs) auto
  then have "of_side BUY fs \<noteq> [] \<or> of_side SELL fs \<noteq> []" by (cases "f_side x") (simp_all add: of_side_def)
  then have ne: "of_side BUY fs \<noteq> []" "of_side SELL fs \<noteq> []" using qpos zero assms(3) by (metis less_irrefl)+
  show "0 < fills_qty (of_side BUY fs)" "0 < amount_of (of_side BUY fs)" "0 < amount_of (of_side SELL fs)"
    using qpos [OF ne(1)] amount_pos [OF assms(1) ne(1)] amount_pos [OF assms(1) ne(2)] by simp_all
qed

text \<open>The slippages against two reference prices and the gross return.\<close>

lemma slips_fit:
  assumes "bp (Some ve) re = Some se" "map_option uminus (bp (Some vx) rx) = Some sx" "0 < ve" "0 < vx"
  shows "vx / ve * (1 + se / 10000) = (1 - sx / 10000) * (the rx / the re)"
proof -
  obtain r where r: "re = Some r" "r \<noteq> 0" "se = (ve / r - 1) * 10000"
    using assms(1) unfolding bp_def by (auto split: option.splits if_splits)
  obtain q where q: "rx = Some q" "q \<noteq> 0" "sx = - ((vx / q - 1) * 10000)"
    using assms(2) unfolding bp_def by (auto split: option.splits if_splits)
  show ?thesis using assms(3,4) r(2) q(2) by (simp add: r(1,3) q(1,3) field_simps)
qed


end
