(* ===== verification/Night_Examples.thy ===== *)
theory Night_Examples
  imports Night_Figures Overnight_Examples
begin

text \<open>
  A night of the small calendar, bought and sold once, on which the hypotheses of the properties of
  the report hold; and a night whose figures cannot be computed.
\<close>

definition buy_fill :: fill where
  "buy_fill = \<lparr>f_client_id = leg_cid 4 ''e'' 0, f_ts = 369000000000, f_side = BUY, f_qty = 1, f_price = 100,
     f_fee = 1, f_liquidity = TAKER\<rparr>"

definition sell_fill :: fill where
  "sell_fill = \<lparr>f_client_id = leg_cid 4 ''x'' 0, f_ts = 431940000000, f_side = SELL, f_qty = 1, f_price = 110,
     f_fee = 1, f_liquidity = TAKER\<rparr>"

definition day_four :: "string \<Rightarrow> int option" where
  "day_four s = (if s = iso_date 4 then Some 4 else None)"

definition empty_db :: exec_db where
  "empty_db = \<lparr>xd_events = [], xd_fills = [], xd_decisions = [], xd_nights = [], xd_metrics = []\<rparr>"

definition buy_event :: event_rec where
  "buy_event = fill_event 369000000000 ''paper'' buy_fill"

lemma buy_key: "leg_of (truthy_text (jget buy_event ''client_id'')) = Inr (Some (iso_date 4, CHR ''e''))"
  "truthy_text (jget buy_event ''entry_date'') = None"
  using leg_of_leg_cid [of "''e''" "CHR ''e''" "[]" 4 0]
  by (simp_all add: truthy_text_def jget_def buy_event_def fill_event_def buy_fill_def leg_cid_ne)

lemma buy_row: "fill_row_of buy_event (Some 4) (Some (CHR ''e'')) = Inr (fill_as_row 4 (CHR ''e'') buy_fill)"
  by (simp add: fill_row_of_def with_keys_def jget_def buy_event_def fill_event_def buy_fill_def fill_as_row_def)

lemma buy_date: "line_date day_four buy_event (Some (iso_date 4, l)) = Inr (Some 4)"
  by (simp add: line_date_def buy_key(2) day_four_def)

lemma buy_event_row: "event_row_of buy_event ed = Inr (369000000000, ''filled'', Some (leg_cid 4 ''e'' 0), ed, buy_event)"
  by (simp add: event_row_of_def with_keys_def jget_def buy_event_def fill_event_def buy_fill_def or_null_def)

lemma buy_kind: "jget buy_event ''event'' = JStr ''filled''" "map_of buy_event ''side'' = Some (JStr ''BUY'')"
  by (simp_all add: jget_def buy_event_def fill_event_def buy_fill_def)

lemma buy_loaded: "\<exists>db1. ingest day_four (\<lambda>_ _. True) [Line buy_event] empty_db = (Inr 1, db1)"
  by (simp add: ingest_def done_line_def empty_db_def ingest_line_def buy_key buy_date buy_event_row
      second_statement_def buy_kind buy_row)

lemma ingest_incremental_witness:
  "\<exists>db1. ingest day_four (\<lambda>_ _. True) [Line buy_event] empty_db = (Inr 1, db1)
    \<and> ingest day_four (\<lambda>_ _. True) [Line buy_event] db1 = (Inr 0, db1)
    \<and> ingest day_four (\<lambda>_ _. True) ([Line buy_event] @ [Blank, Line [(''event'', JStr ''start'')]]) empty_db
      = apfst (map_sum id ((+) 1)) (ingest day_four (\<lambda>_ _. True) ([Line buy_event] @ [Blank, Line [(''event'', JStr ''start'')]]) db1)"
proof -
  obtain db1 where l: "ingest day_four (\<lambda>_ _. True) [Line buy_event] empty_db = (Inr 1, db1)" using buy_loaded by blast
  from ingest_incremental [OF l, of "[Blank, Line [(''event'', JStr ''start'')]]"] l show ?thesis
    by (intro exI [of _ db1]) simp
qed

lemma ingest_complete_witness:
  "\<exists>db1. ingest day_four (\<lambda>_ _. True) [Line buy_event] empty_db = (Inr 1, db1)
    \<and> xd_fills db1 = [(0, fill_as_row 4 (CHR ''e'') buy_fill)]"
proof -
  obtain db1 where l: "ingest day_four (\<lambda>_ _. True) [Line buy_event] empty_db = (Inr 1, db1)" using buy_loaded by blast
  have f: "line_fill day_four buy_event = Some (fill_as_row 4 (CHR ''e'') buy_fill)"
    by (simp add: line_fill_def is_fill_def buy_kind line_key_def buy_key buy_date buy_row)
  have "xd_fills db1 = List.map_filter (\<lambda>(no, e). map_option (Pair no) (line_fill day_four e)) [(0, buy_event)]"
    using ingest_complete [OF l [unfolded empty_db_def]] by (simp add: Let_def)
  then show ?thesis using l f by (simp add: List.map_filter_simps)
qed

lemma ingest_loses_fill_witness:
  "\<exists>db2. ingest day_four (\<lambda>_ i. i = 0) ([] @ [Line buy_event]) empty_db = (Inl DbRefused, db2) \<and> done_line db2 0
    \<and> map_of (xd_fills (fold (\<lambda>(ok, ls) db. snd (ingest day_four ok ls db)) [(\<lambda>_ _. True, [Line buy_event])] db2)) 0 = None"
proof -
  have e: "ingest day_four (\<lambda>_ _. True) [] empty_db = (Inr 0, empty_db)" by (simp add: ingest_def)
  have f: "line_fill day_four buy_event = Some (fill_as_row 4 (CHR ''e'') buy_fill)"
    by (simp add: line_fill_def is_fill_def buy_kind line_key_def buy_key buy_date buy_row)
  show ?thesis
    using ingest_loses_fill [OF e _ _ f buy_event_row, of "\<lambda>_ i. i = 0" "[(\<lambda>_ _. True, [Line buy_event])]"]
    by (simp add: empty_db_def done_line_def)
qed

subsection \<open>The figures\<close>

definition both_rows :: "fill_row list" where
  "both_rows = [fill_as_row 4 (CHR ''e'') buy_fill, fill_as_row 4 (CHR ''x'') sell_fill]"

definition done_night :: night_row where
  "done_night = \<lparr>nr_exit_date = Some 5, nr_method = Some ''A'', nr_phase = ''done'', nr_version = None, nr_qty = Some 1,
     nr_entry_price = Some 100, nr_exit_price = Some 110, nr_stop_price = None, nr_fees = Some 2, nr_funding = Some 0,
     nr_pnl = Some 8, nr_started = None, nr_ended = None, nr_notes = JList []\<rparr>"

lemma both_journal: "journal_rows day_four 0 ''paper'' [buy_fill, sell_fill] = both_rows"
proof -
  have d: "day_four (iso_date 4) = Some 4" by (simp add: day_four_def)
  have "line_fill day_four (fill_event 0 ''paper'' buy_fill) = Some (fill_as_row 4 (CHR ''e'') buy_fill)"
    using d by (intro fill_in_journal [where k = 0]) (simp_all add: buy_fill_def)
  moreover have "line_fill day_four (fill_event 0 ''paper'' sell_fill) = Some (fill_as_row 4 (CHR ''x'') sell_fill)"
    using d by (intro fill_in_journal [where k = 0]) (simp_all add: sell_fill_def)
  ultimately show ?thesis by (simp add: journal_rows_def List.map_filter_simps both_rows_def)
qed

lemma small_frame: "\<exists>n t. night_frame small_calendar 4 done_night = Inr (n, t, MethodA)"
  by (simp add: night_frame_def night_for_entry_def small_nights done_night_def order_times_of_def Let_def)

lemma both_figures: "\<exists>m. night_metrics small_calendar (\<lambda>_. Inr (Some 105)) 4 done_night both_rows [] = Inr m"
proof -
  obtain n t where f: "night_frame small_calendar 4 done_night = Inr (n, t, MethodA)" using small_frame by blast
  show ?thesis
    by (simp add: night_metrics_def f ref_prices_def mid_of_def stopped_by_def Let_def both_rows_def entry_fills_def
        exit_fills_def is_leg_def fill_as_row_def exit_legs_def buy_fill_def sell_fill_def fee_bp_def vwap_def
        exit_mid_slip_def maker_share_def)
qed


subsection \<open>A night without figures\<close>

text \<open>A closed night without a loaded exit fill, but with the recorded quote of its exit: the figures of that
  night raise, and with them every report on all nights; the nights before it in the table keep theirs.\<close>

lemma report_stuck:
  assumes "night_frame ns d nr = Inr (n, t, m)" "ref_prices ref n t = Inr refs" "mid_of ds ''e'' = Inr me"
    and "exit_fills fs = []" "mid_of ds ''x'' = Inr (Some q)" "q \<noteq> 0"
  shows "\<exists>e. night_metrics ns ref d nr fs ds = Inl e"
proof -
  obtain re rx be bx where r: "refs = (re, rx, be, bx)" by (cases refs) auto
  have "\<not> stopped_by fs" using assms(4) by (simp add: stopped_by_def)
  then show ?thesis
    using assms by (cases "fee_bp fs") (simp_all add: night_metrics_def r Let_def exit_mid_slip_def vwap_def bp_def)
qed

lemma report_stuck_all:
  assumes "n \<in> set (closed_nights None db)"
    and "\<And>ms. \<exists>e. metric_of files ref (db\<lparr>xd_metrics := ms\<rparr>) n = Inl e"
  shows "\<exists>e db1. compute files ref None db = (Inl e, db1)"
proof -
  have "n \<in> set ns \<Longrightarrow> \<exists>e db1. compute_nights files ref ns (db\<lparr>xd_metrics := ms\<rparr>) = (Inl e, db1)" for ns ms
  proof (induction ns arbitrary: ms)
    case (Cons x ns)
    show ?case
    proof (cases "metric_of files ref (db\<lparr>xd_metrics := ms\<rparr>) x")
      case (Inr m)
      then have "x \<noteq> n" using assms(2) [of ms] by auto
      then have "n \<in> set ns" using Cons.prems by auto
      from Cons.IH [OF this, of "AList.update (fst x) m ms"]
      obtain e db1 where "compute_nights files ref ns (db\<lparr>xd_metrics := AList.update (fst x) m ms\<rparr>) = (Inl e, db1)" by blast
      then show ?thesis using Inr by simp
    qed simp
  qed simp
  from this [of "closed_nights None db" "xd_metrics db"] show ?thesis using assms(1) by (simp add: compute_def)
qed

end
