(* ===== verification/Trade_Report.thy ===== *)
theory Trade_Report
  imports Autocoin_Prelude Text_Tools "HOL-Library.List_Lexorder" "HOL-Library.Char_ord"
begin

text \<open>
  The performance report of the strategy, \<open>strategies/pastofi_crypto/report.py\<close>: totals, averages,
  the results by symbol and day, the largest losing stretch and the skipped signals, from the trades
  and signals of the journal, the state file and the daily reconciliations.  Amounts that the journal
  may leave empty are options; days are day numbers of UTC, reasons are their texts.
\<close>

record report_trade =
  rt_symbol :: string
  rt_t_sig :: real
  rt_exit_ts :: "real option"
  rt_reason :: string
  rt_gross :: "real option"
  rt_fees :: "real option"
  rt_net :: "real option"
  rt_pnl_bp :: "real option"
  rt_assumed_bp :: "real option"
  rt_slip_in :: "real option"
  rt_slip_out :: "real option"

record report_signal =
  rs_status :: "string option"
  rs_skip_reason :: "string option"
  rs_engine_bp :: "real option"

text \<open>The totals of a reconciled day.\<close>

record day_total =
  dt_day :: string
  dt_replay :: nat
  dt_live :: nat
  dt_match :: nat

definition zero_or :: "real option \<Rightarrow> real" where
  "zero_or x = (case x of Some v \<Rightarrow> v | None \<Rightarrow> 0)"

definition avg :: "real option list \<Rightarrow> real option" where
  "avg xs = (let ys = List.map_filter id xs
     in if ys = [] then None else Some (sum_list ys / real (length ys)))"

definition day_number :: "real \<Rightarrow> int" where
  "day_number ts = \<lfloor>ts / 86400\<rfloor>"

subsection \<open>The largest losing stretch\<close>

record drawdown =
  dd_usd :: real
  dd_from :: "real option"
  dd_to :: "real option"

record dd_loop =
  dl_cum :: real
  dl_peak :: real
  dl_peak_t :: "real option"
  dl_worst :: drawdown

definition dd_step :: "report_trade \<Rightarrow> dd_loop \<Rightarrow> dd_loop" where
  "dd_step t s =
     (let cum = dl_cum s + zero_or (rt_net t);
          (peak, peak_t) = (if dl_peak s < cum \<or> dl_peak_t s = None then (max cum (dl_peak s), rt_exit_ts t)
                            else (dl_peak s, dl_peak_t s));
          dd = cum - peak
      in \<lparr>dl_cum = cum, dl_peak = peak, dl_peak_t = peak_t,
          dl_worst = (if dd < dd_usd (dl_worst s) then \<lparr>dd_usd = dd, dd_from = peak_t, dd_to = rt_exit_ts t\<rparr>
                      else dl_worst s)\<rparr>)"

definition dd_start :: dd_loop where
  "dd_start = \<lparr>dl_cum = 0, dl_peak = 0, dl_peak_t = None, dl_worst = \<lparr>dd_usd = 0, dd_from = None, dd_to = None\<rparr>\<rparr>"

definition by_exit :: "report_trade list \<Rightarrow> report_trade list" where
  "by_exit trades = sort_key (\<lambda>t. zero_or (rt_exit_ts t)) trades"

definition max_drawdown :: "report_trade list \<Rightarrow> drawdown" where
  "max_drawdown trades = dl_worst (fold dd_step (by_exit trades) dd_start)"

subsection \<open>Groups\<close>

text \<open>A \<open>defaultdict(list)\<close>: the elements of each key in their order, the keys in the order of their first element.\<close>

fun group_by :: "('a \<Rightarrow> 'k) \<Rightarrow> 'a list \<Rightarrow> ('k \<times> 'a list) list" where
  "group_by key [] = []"
| "group_by key (x # xs) =
     (key x, x # filter (\<lambda>y. key y = key x) xs) # filter (\<lambda>g. fst g \<noteq> key x) (group_by key xs)"

text \<open>The text before the first \<open>" ("\<close>.\<close>

fun before_paren :: "string \<Rightarrow> string" where
  "before_paren (c # d # cs) = (if c = CHR '' '' \<and> d = CHR ''('' then [] else c # before_paren (d # cs))"
| "before_paren cs = cs"

record group_result =
  gr_n :: nat
  gr_net :: real
  gr_gross :: real
  gr_avg_bp :: "real option"

definition net_sum :: "report_trade list \<Rightarrow> real" where
  "net_sum ts = (\<Sum>t\<leftarrow>ts. zero_or (rt_net t))"

definition gross_sum :: "report_trade list \<Rightarrow> real" where
  "gross_sum ts = (\<Sum>t\<leftarrow>ts. zero_or (rt_gross t))"

definition fees_sum :: "report_trade list \<Rightarrow> real" where
  "fees_sum ts = (\<Sum>t\<leftarrow>ts. zero_or (rt_fees t))"

definition group_of :: "report_trade list \<Rightarrow> group_result" where
  "group_of ts = \<lparr>gr_n = length ts, gr_net = net_sum ts, gr_gross = gross_sum ts, gr_avg_bp = avg (map rt_pnl_bp ts)\<rparr>"

definition trade_day :: "report_trade \<Rightarrow> int" where
  "trade_day t = day_number (case rt_exit_ts t of Some x \<Rightarrow> if x = 0 then rt_t_sig t else x | None \<Rightarrow> rt_t_sig t)"

definition skip_key :: "report_signal \<Rightarrow> string" where
  "skip_key s = before_paren (case rs_skip_reason s of Some r \<Rightarrow> if r = [] then ''?'' else r | None \<Rightarrow> ''?'')"

subsection \<open>The report\<close>

record recon_summary =
  rn_days :: nat
  rn_replay :: nat
  rn_live :: nat
  rn_match :: nat
  rn_rate :: "real option"

record pastofi_report =
  rp_n :: nat
  rp_gross :: real
  rp_fees :: real
  rp_net :: real
  rp_win_rate :: "real option"
  rp_avg_pnl_bp :: "real option"
  rp_avg_assumed_bp :: "real option"
  rp_avg_slip_in :: "real option"
  rp_avg_slip_out :: "real option"
  rp_reasons :: "(string \<times> nat) list"
  rp_mdd :: drawdown
  rp_by_symbol :: "(string \<times> group_result) list"
  rp_by_day :: "(int \<times> nat \<times> real) list"
  rp_reconcile :: recon_summary
  rp_skipped :: "(string \<times> nat \<times> real) list"

definition recon_of :: "day_total list \<Rightarrow> recon_summary" where
  "recon_of recs =
     (let rep = sum_list (map dt_replay recs); live = sum_list (map dt_live recs); mt = sum_list (map dt_match recs)
      in \<lparr>rn_days = length recs, rn_replay = rep, rn_live = live, rn_match = mt,
          rn_rate = (if max rep live \<noteq> 0 then Some (real mt / real (max rep live)) else None)\<rparr>)"

definition win_rate :: "report_trade list \<Rightarrow> real option" where
  "win_rate ts =
     (if ts = [] then None
      else Some (real (length (filter (\<lambda>t. 0 < zero_or (rt_net t)) ts)) / real (length ts)))"

definition build_report :: "report_trade list \<Rightarrow> report_signal list \<Rightarrow> day_total list \<Rightarrow> pastofi_report" where
  "build_report journal signals recs =
     (let trades = sort_key rt_t_sig journal;
          skipped = filter (\<lambda>s. rs_status s = Some ''skipped'') signals
      in \<lparr>rp_n = length trades, rp_gross = gross_sum trades, rp_fees = fees_sum trades, rp_net = net_sum trades,
          rp_win_rate = win_rate trades,
          rp_avg_pnl_bp = avg (map rt_pnl_bp trades), rp_avg_assumed_bp = avg (map rt_assumed_bp trades),
          rp_avg_slip_in = avg (map rt_slip_in trades), rp_avg_slip_out = avg (map rt_slip_out trades),
          rp_reasons = map (\<lambda>(k, ts). (k, length ts)) (group_by rt_reason trades),
          rp_mdd = max_drawdown trades,
          rp_by_symbol = map (\<lambda>(k, ts). (k, group_of ts)) (sort_key fst (group_by rt_symbol trades)),
          rp_by_day = map (\<lambda>(k, ts). (k, length ts, net_sum ts)) (sort_key fst (group_by trade_day trades)),
          rp_reconcile = recon_of recs,
          rp_skipped = map (\<lambda>(k, ss). (k, length ss, \<Sum>s\<leftarrow>ss. zero_or (rs_engine_bp s))) (group_by skip_key skipped)\<rparr>)"

end
