(* ===== verification/Trade_Report_Correct.thy ===== *)
theory Trade_Report_Correct
  imports Trade_Report "HOL-Library.Multiset"
begin

text \<open>
  The largest losing stretch is the largest loss over any run of trades, and every trade is counted
  exactly once in each of the breakdowns of the report.
\<close>

subsection \<open>The losing stretch\<close>

definition nets :: "report_trade list \<Rightarrow> real list" where
  "nets ts = map (\<lambda>t. zero_or (rt_net t)) ts"

definition upto_sum :: "report_trade list \<Rightarrow> nat \<Rightarrow> real" where
  "upto_sum ts i = sum_list (take i (nets ts))"

lemma upto_sum_snoc:
  "i \<le> length ts \<Longrightarrow> upto_sum (ts @ [t]) i = upto_sum ts i"
  "upto_sum (ts @ [t]) (Suc (length ts)) = upto_sum ts (length ts) + zero_or (rt_net t)"
  by (simp_all add: upto_sum_def nets_def)

lemma run_sum: "sum_list (take k (drop i (nets ts))) = upto_sum ts (i + k) - upto_sum ts i"
proof -
  have "take (i + k) (nets ts) = take i (nets ts) @ take k (drop i (nets ts))" by (simp add: take_add)
  then show ?thesis by (simp add: upto_sum_def)
qed

text \<open>What the loop knows after some trades: the balance, its peak and where it was, the worst fall so far.\<close>

definition peak_ok :: "report_trade list \<Rightarrow> dd_loop \<Rightarrow> bool" where
  "peak_ok ts s \<longleftrightarrow>
     (\<forall>i\<le>length ts. upto_sum ts i \<le> dl_peak s)
     \<and> (ts = [] \<longrightarrow> dl_peak_t s = None)
     \<and> (\<exists>i\<le>length ts. dl_peak s = upto_sum ts i \<and> (ts \<noteq> [] \<longrightarrow> dl_peak_t s = rt_exit_ts (ts ! (i - 1))))"

text \<open>The fall from the balance after \<open>i\<close> trades to the one after \<open>j\<close>.\<close>

definition fall :: "report_trade list \<Rightarrow> drawdown \<Rightarrow> nat \<Rightarrow> nat \<Rightarrow> bool" where
  "fall ts w i j \<longleftrightarrow> i < j \<and> j \<le> length ts \<and> dd_usd w = upto_sum ts j - upto_sum ts i \<and> dd_usd w < 0
     \<and> dd_from w = rt_exit_ts (ts ! (i - 1)) \<and> dd_to w = rt_exit_ts (ts ! (j - 1))"

lemma fall_snoc:
  assumes "fall ts w i j"
  shows "fall (ts @ [t]) w i j"
proof -
  have l: "i < j" "j \<le> length ts" using assms by (simp_all add: fall_def)
  have "(ts @ [t]) ! (i - 1) = ts ! (i - 1)" "(ts @ [t]) ! (j - 1) = ts ! (j - 1)"
    using l by (simp_all add: nth_append)
  moreover have "upto_sum (ts @ [t]) i = upto_sum ts i" "upto_sum (ts @ [t]) j = upto_sum ts j"
    using l by (simp_all add: upto_sum_snoc(1))
  ultimately show ?thesis using assms l unfolding fall_def by simp
qed

definition worst_ok :: "report_trade list \<Rightarrow> drawdown \<Rightarrow> bool" where
  "worst_ok ts w \<longleftrightarrow>
     (\<forall>j\<le>length ts. \<forall>i\<le>j. dd_usd w \<le> upto_sum ts j - upto_sum ts i)
     \<and> (w = \<lparr>dd_usd = 0, dd_from = None, dd_to = None\<rparr>
        \<or> (\<exists>i j. fall ts w i j))"

lemma peak_step:
  assumes "peak_ok ts s" "dl_cum s = upto_sum ts (length ts)" "rt_exit_ts t \<noteq> None" "list_all (\<lambda>t. rt_exit_ts t \<noteq> None) ts"
  shows "peak_ok (ts @ [t]) (dd_step t s)"
proof -
  define c where "c = dl_cum s + zero_or (rt_net t)"
  have c: "upto_sum (ts @ [t]) (Suc (length ts)) = c" by (simp add: upto_sum_snoc(2) assms(2) c_def)
  obtain i where i: "i \<le> length ts" "dl_peak s = upto_sum ts i" "ts \<noteq> [] \<longrightarrow> dl_peak_t s = rt_exit_ts (ts ! (i - 1))"
    using assms(1) by (auto simp: peak_ok_def)
  have peak: "dl_peak (dd_step t s) = max c (dl_peak s)" by (auto simp: dd_step_def Let_def c_def)
  have bound: "upto_sum (ts @ [t]) k \<le> max c (dl_peak s)" if "k \<le> length (ts @ [t])" for k
  proof (cases "k = Suc (length ts)")
    case False
    then have "k \<le> length ts" using that by simp
    then have "upto_sum ts k \<le> dl_peak s" "upto_sum (ts @ [t]) k = upto_sum ts k"
      using assms(1) by (simp_all add: peak_ok_def upto_sum_snoc(1))
    then show ?thesis by simp
  qed (simp add: c)
  have at: "\<exists>k\<le>length (ts @ [t]). max c (dl_peak s) = upto_sum (ts @ [t]) k \<and> dl_peak_t (dd_step t s) = rt_exit_ts ((ts @ [t]) ! (k - 1))"
  proof (cases "dl_peak s < c")
    case True
    then have "dl_peak_t (dd_step t s) = rt_exit_ts t" by (simp add: dd_step_def Let_def c_def)
    then show ?thesis using True c by (intro exI [of _ "Suc (length ts)"]) simp
  next
    case False
    have keep: "max c (dl_peak s) = upto_sum (ts @ [t]) i" using False i upto_sum_snoc(1) [OF i(1), of t] by simp
    show ?thesis
    proof (cases "ts = []")
      case True
      then have "i = 0" using i(1) by simp
      have "dl_peak_t (dd_step t s) = rt_exit_ts t" using assms(1) True by (simp add: dd_step_def Let_def peak_ok_def)
      then show ?thesis using keep True \<open>i = 0\<close> by (intro exI [of _ 0]) simp
    next
      case ne: False
      then have "ts ! (i - 1) \<in> set ts" using i(1) by (intro nth_mem) (cases ts; auto)
      then obtain y where "dl_peak_t s = Some y" using i(3) ne assms(4) by (auto simp: list_all_iff)
      then have "dl_peak_t (dd_step t s) = dl_peak_t s" using False by (simp add: dd_step_def Let_def c_def)
      moreover have "i - 1 < length ts" using i(1) ne by (cases ts) auto
      then have "(ts @ [t]) ! (i - 1) = ts ! (i - 1)" by (simp only: nth_append if_True)
      ultimately show ?thesis using keep i ne by (intro exI [of _ i]) simp
    qed
  qed
  show ?thesis unfolding peak_ok_def peak using bound at by blast
qed

lemma worst_step:
  assumes "worst_ok ts (dl_worst s)" "peak_ok (ts @ [t]) (dd_step t s)" "dl_cum s = upto_sum ts (length ts)"
  shows "worst_ok (ts @ [t]) (dl_worst (dd_step t s))"
proof -
  let ?ts = "ts @ [t]" and ?n = "Suc (length ts)" and ?s = "dd_step t s"
  let ?dd = "upto_sum ?ts ?n - dl_peak ?s"
  have cum: "dl_cum s + zero_or (rt_net t) = upto_sum ?ts ?n" by (simp add: upto_sum_snoc(2) assms(3))
  have worst: "dl_worst ?s = (if ?dd < dd_usd (dl_worst s) then \<lparr>dd_usd = ?dd, dd_from = dl_peak_t ?s, dd_to = rt_exit_ts t\<rparr>
      else dl_worst s)"
    by (simp add: dd_step_def Let_def cum [symmetric] case_prod_unfold)
  obtain i where i: "i \<le> ?n" "dl_peak ?s = upto_sum ?ts i" "dl_peak_t ?s = rt_exit_ts (?ts ! (i - 1))"
    using assms(2) by (auto simp: peak_ok_def)
  have old: "dd_usd (dl_worst s) \<le> upto_sum ?ts j - upto_sum ?ts k" if "j \<le> length ts" "k \<le> j" for j k
    using that assms(1) by (simp add: worst_ok_def upto_sum_snoc(1))
  have le0: "dd_usd (dl_worst s) \<le> 0" using old [of 0 0] by simp
  have below: "dd_usd (dl_worst ?s) \<le> upto_sum ?ts j - upto_sum ?ts k" if "j \<le> ?n" "k \<le> j" for j k
  proof (cases "j = ?n")
    case True
    have "upto_sum ?ts k \<le> dl_peak ?s" using assms(2) that by (simp add: peak_ok_def)
    then show ?thesis using True by (auto simp: worst)
  next
    case False
    then show ?thesis using old [of j k] that by (auto simp: worst)
  qed
  show ?thesis
  proof (cases "?dd < dd_usd (dl_worst s)")
    case True
    then have neg: "?dd < 0" using le0 by simp
    then have "i \<noteq> ?n" using i(2) by auto
    then have "i < ?n" using i(1) by simp
    then have "fall ?ts (dl_worst ?s) i ?n" using True neg i by (simp add: fall_def worst)
    then show ?thesis using below unfolding worst_ok_def by auto
  next
    case False
    then have w: "dl_worst ?s = dl_worst s" by (simp add: worst)
    have "dl_worst s = \<lparr>dd_usd = 0, dd_from = None, dd_to = None\<rparr> \<or> (\<exists>i j. fall ts (dl_worst s) i j)"
      using assms(1) unfolding worst_ok_def by (rule conjunct2)
    then have "dl_worst s = \<lparr>dd_usd = 0, dd_from = None, dd_to = None\<rparr> \<or> (\<exists>i j. fall ?ts (dl_worst s) i j)"
      using fall_snoc by blast
    then show ?thesis using below unfolding worst_ok_def w by simp
  qed
qed

lemma loop_ok:
  "list_all (\<lambda>t. rt_exit_ts t \<noteq> None) ts \<Longrightarrow>
     let s = fold dd_step ts dd_start in dl_cum s = upto_sum ts (length ts) \<and> peak_ok ts s \<and> worst_ok ts (dl_worst s)"
proof (induction ts rule: rev_induct)
  case Nil
  show ?case by (simp add: dd_start_def peak_ok_def worst_ok_def upto_sum_def)
next
  case (snoc t ts)
  let ?s = "fold dd_step ts dd_start"
  have IH: "dl_cum ?s = upto_sum ts (length ts)" "peak_ok ts ?s" "worst_ok ts (dl_worst ?s)"
    using snoc by (simp_all add: Let_def)
  have p: "peak_ok (ts @ [t]) (dd_step t ?s)" using peak_step [OF IH(2,1)] snoc.prems by simp
  have "worst_ok (ts @ [t]) (dl_worst (dd_step t ?s))" by (rule worst_step [OF IH(3) p IH(1)])
  moreover have "dl_cum (dd_step t ?s) = upto_sum (ts @ [t]) (length (ts @ [t]))"
    by (simp add: dd_step_def Let_def IH(1) upto_sum_snoc(2) case_prod_unfold)
  ultimately show ?case using p by (simp add: Let_def)
qed

text \<open>C40: The reported losing stretch is the worst one: for trades with an exit time, no run of consecutive
  trades, in the order of their exits, lost more than the reported amount; the amount is zero with no
  trades named when no run lost, and otherwise it is the loss of the run that ends with the named trade
  and begins after the named one, or at the first trade.\<close>

theorem drawdown_exact:
  assumes "list_all (\<lambda>t. rt_exit_ts t \<noteq> None) trades"
  shows "let d = max_drawdown trades; ts = by_exit trades; xs = map (\<lambda>t. zero_or (rt_net t)) ts
    in (\<forall>i k. dd_usd d \<le> sum_list (take k (drop i xs)))
     \<and> (d = \<lparr>dd_usd = 0, dd_from = None, dd_to = None\<rparr>
        \<or> (\<exists>i k. i + k \<le> length ts \<and> 0 < k \<and> dd_usd d = sum_list (take k (drop i xs)) \<and> dd_usd d < 0
             \<and> dd_from d = rt_exit_ts (ts ! (i - 1)) \<and> dd_to d = rt_exit_ts (ts ! (i + k - 1))))"
proof -
  let ?d = "max_drawdown trades" and ?ts = "by_exit trades"
  have "list_all (\<lambda>t. rt_exit_ts t \<noteq> None) ?ts" using assms by (simp add: by_exit_def list_all_iff)
  then have w: "worst_ok ?ts ?d" using loop_ok [of ?ts] by (simp add: max_drawdown_def Let_def)
  have low: "dd_usd ?d \<le> sum_list (take k (drop i (nets ?ts)))" for i k
  proof (cases "i \<le> length ?ts")
    case True
    define j where "j = min (i + k) (length ?ts)"
    have "upto_sum ?ts (i + k) = upto_sum ?ts j"
      by (cases "i + k \<le> length ?ts") (simp_all add: j_def upto_sum_def nets_def)
    moreover have "dd_usd ?d \<le> upto_sum ?ts j - upto_sum ?ts i" using w True by (simp add: worst_ok_def j_def)
    ultimately show ?thesis by (simp add: run_sum)
  next
    case False
    moreover have "dd_usd ?d \<le> 0" using w by (force simp: worst_ok_def)
    ultimately show ?thesis by (simp add: nets_def)
  qed
  have at: "?d = \<lparr>dd_usd = 0, dd_from = None, dd_to = None\<rparr>
        \<or> (\<exists>i k. i + k \<le> length ?ts \<and> 0 < k \<and> dd_usd ?d = sum_list (take k (drop i (nets ?ts))) \<and> dd_usd ?d < 0
             \<and> dd_from ?d = rt_exit_ts (?ts ! (i - 1)) \<and> dd_to ?d = rt_exit_ts (?ts ! (i + k - 1)))"
  proof (cases "?d = \<lparr>dd_usd = 0, dd_from = None, dd_to = None\<rparr>")
    case False
    then obtain i j where f: "fall ?ts ?d i j" using w by (auto simp: worst_ok_def)
    have "i + (j - i) = j" using f by (simp add: fall_def)
    then have "dd_usd ?d = sum_list (take (j - i) (drop i (nets ?ts)))" using f by (simp add: run_sum fall_def)
    then show ?thesis using f by (intro disjI2 exI [of _ i] exI [of _ "j - i"]) (auto simp: fall_def)
  qed simp
  show ?thesis unfolding Let_def nets_def [symmetric] using low at by blast
qed

text \<open>Two trades: a gain and, later, a loss.\<close>

definition sample_trade :: "real \<Rightarrow> real \<Rightarrow> report_trade" where
  "sample_trade ts net =
     \<lparr>rt_symbol = ''BTCUSDT'', rt_t_sig = ts, rt_exit_ts = Some (ts + 60), rt_reason = ''tp'', rt_gross = Some net, rt_fees = Some 0,
      rt_net = Some net, rt_pnl_bp = Some 1, rt_assumed_bp = None, rt_slip_in = None, rt_slip_out = None\<rparr>"

lemma drawdown_exact_witness:
  "let d = max_drawdown [sample_trade 100 5, sample_trade 200 (- 3)]; ts = by_exit [sample_trade 100 5, sample_trade 200 (- 3)];
       xs = map (\<lambda>t. zero_or (rt_net t)) ts
    in (\<forall>i k. dd_usd d \<le> sum_list (take k (drop i xs)))
     \<and> (d = \<lparr>dd_usd = 0, dd_from = None, dd_to = None\<rparr>
        \<or> (\<exists>i k. i + k \<le> length ts \<and> 0 < k \<and> dd_usd d = sum_list (take k (drop i xs)) \<and> dd_usd d < 0
             \<and> dd_from d = rt_exit_ts (ts ! (i - 1)) \<and> dd_to d = rt_exit_ts (ts ! (i + k - 1))))"
  by (rule drawdown_exact) (simp add: sample_trade_def)

subsection \<open>The breakdowns\<close>

lemma group_members: "(k, ys) \<in> set (group_by key xs) \<Longrightarrow> ys = filter (\<lambda>x. key x = k) xs"
  by (induction xs arbitrary: ys) auto

lemma group_distinct: "distinct (map fst (group_by key xs))"
  by (induction xs) (auto simp: distinct_map_filter)

lemma concat_groups:
  "list_all (\<lambda>g. list_all (\<lambda>y. key y = fst g) (snd g)) G \<Longrightarrow>
   concat (map snd (filter (\<lambda>g. fst g \<noteq> k) G)) = filter (\<lambda>y. key y \<noteq> k) (concat (map snd G))"
proof (induction G)
  case (Cons g G)
  have "filter (\<lambda>y. key y \<noteq> k) (snd g) = (if fst g = k then [] else snd g)"
    using Cons.prems by (auto simp: list_all_iff filter_empty_conv intro!: filter_True)
  then show ?case using Cons by simp
qed simp

lemma group_mset: "mset (concat (map snd (group_by key xs))) = mset xs"
proof (induction xs)
  case (Cons x xs)
  have h: "list_all (\<lambda>g. list_all (\<lambda>y. key y = fst g) (snd g)) (group_by key xs)"
    using group_members [of _ _ key xs] by (fastforce simp: list_all_iff)
  have "mset (concat (map snd (group_by key (x # xs))))
      = {#x#} + filter_mset (\<lambda>y. key y = key x) (mset xs) + filter_mset (\<lambda>y. key y \<noteq> key x) (mset (concat (map snd (group_by key xs))))"
    by (simp add: concat_groups [OF h])
  also have "\<dots> = {#x#} + (filter_mset (\<lambda>y. key y = key x) (mset xs) + filter_mset (\<lambda>y. \<not> key y = key x) (mset xs))"
    using Cons by simp
  finally show ?case by (simp only: multiset_partition [symmetric]) simp
qed simp

lemma sum_list_mset: "mset xs = mset ys \<Longrightarrow> sum_list (map g xs) = sum_list (map g ys)"
  for g :: "_ \<Rightarrow> 'b :: comm_monoid_add"
  by (metis mset_map sum_mset_sum_list)

lemma group_sum: "(\<Sum>g\<leftarrow>group_by key xs. \<Sum>x\<leftarrow>snd g. f x) = (\<Sum>x\<leftarrow>xs. f x)"
  for f :: "'x \<Rightarrow> 'b :: comm_monoid_add" and key :: "'x \<Rightarrow> 'k"
proof -
  have "(\<Sum>g\<leftarrow>G. \<Sum>x\<leftarrow>snd g. f x) = (\<Sum>x\<leftarrow>concat (map snd G). f x)" for G :: "('k \<times> 'x list) list" by (induction G) auto
  then show ?thesis using sum_list_mset [OF group_mset [of key xs], of f] by simp
qed

lemma group_count: "(\<Sum>g\<leftarrow>group_by key xs. length (snd g)) = length xs"
proof -
  have ones: "length ys = (\<Sum>x\<leftarrow>ys. 1)" for ys :: "'c list" by (induction ys) auto
  show ?thesis using group_sum [of "\<lambda>_. 1 :: nat" key xs] by (simp only: ones)
qed

lemma sorted_sum: "(\<Sum>g\<leftarrow>sort_key h G. f g) = (\<Sum>g\<leftarrow>G. f g)"
  for f :: "_ \<Rightarrow> 'b :: comm_monoid_add"
  by (rule sum_list_mset) simp

lemmas group_sums = group_sum group_count sorted_sum

text \<open>Every trade is counted once in each breakdown.  The numbers, the net and the gross results of the
  symbols add up to the totals, so do the numbers and net results of the days and the numbers of the
  exit reasons; no symbol and no day appears twice, they come in order, the figures of a symbol are those
  of exactly its trades; the win rate is a proportion.\<close>

theorem report_totals:
  "let r = build_report journal signals recs
   in rp_n r = length journal \<and> rp_net r = net_sum journal \<and> rp_fees r = fees_sum journal
    \<and> (\<Sum>g\<leftarrow>rp_by_symbol r. gr_n (snd g)) = rp_n r \<and> (\<Sum>g\<leftarrow>rp_by_symbol r. gr_net (snd g)) = rp_net r
    \<and> (\<Sum>g\<leftarrow>rp_by_symbol r. gr_gross (snd g)) = rp_gross r
    \<and> (\<Sum>g\<leftarrow>rp_by_day r. fst (snd g)) = rp_n r \<and> (\<Sum>g\<leftarrow>rp_by_day r. snd (snd g)) = rp_net r
    \<and> (\<Sum>g\<leftarrow>rp_reasons r. snd g) = rp_n r
    \<and> sorted_wrt (<) (map fst (rp_by_symbol r)) \<and> sorted_wrt (<) (map fst (rp_by_day r))
    \<and> list_all (\<lambda>(k, g). g = group_of (filter (\<lambda>t. rt_symbol t = k) (sort_key rt_t_sig journal))) (rp_by_symbol r)
    \<and> (case rp_win_rate r of Some w \<Rightarrow> 0 \<le> w \<and> w \<le> 1 | None \<Rightarrow> journal = [])"
proof -
  let ?ts = "sort_key rt_t_sig journal" and ?r = "build_report journal signals recs"
  have totals: "rp_n ?r = length journal" "rp_net ?r = net_sum journal" "rp_fees ?r = fees_sum journal"
    by (simp_all add: build_report_def Let_def net_sum_def fees_sum_def sorted_sum)
  have sums: "(\<Sum>g\<leftarrow>rp_by_symbol ?r. gr_n (snd g)) = rp_n ?r" "(\<Sum>g\<leftarrow>rp_by_symbol ?r. gr_net (snd g)) = rp_net ?r"
    "(\<Sum>g\<leftarrow>rp_by_symbol ?r. gr_gross (snd g)) = rp_gross ?r"
    "(\<Sum>g\<leftarrow>rp_by_day ?r. fst (snd g)) = rp_n ?r" "(\<Sum>g\<leftarrow>rp_by_day ?r. snd (snd g)) = rp_net ?r"
    "(\<Sum>g\<leftarrow>rp_reasons ?r. snd g) = rp_n ?r"
    by (simp_all add: build_report_def Let_def case_prod_unfold comp_def group_of_def net_sum_def gross_sum_def group_sums
        del: length_sort)
  have sorted: "sorted_wrt (<) (map fst (sort_key fst (group_by key ?ts)))" for key :: "report_trade \<Rightarrow> 'k :: linorder"
  proof -
    have "distinct (map fst (sort_key fst (group_by key ?ts)))"
      using group_distinct [of key ?ts] by (metis distinct_map distinct_sort set_sort)
    then show ?thesis by (simp add: strict_sorted_iff)
  qed
  have fst_map: "map fst (map (\<lambda>(k, ts). (k, f ts)) G) = map fst G" for f :: "report_trade list \<Rightarrow> 'x" and G :: "('k \<times> report_trade list) list"
    by (simp add: case_prod_unfold comp_def)
  have order: "sorted_wrt (<) (map fst (rp_by_symbol ?r))" "sorted_wrt (<) (map fst (rp_by_day ?r))"
    using sorted [of rt_symbol] sorted [of trade_day] by (simp_all add: build_report_def Let_def case_prod_unfold comp_def)
  have own: "list_all (\<lambda>(k, g). g = group_of (filter (\<lambda>t. rt_symbol t = k) ?ts)) (rp_by_symbol ?r)"
    using group_members [of _ _ rt_symbol ?ts] by (fastforce simp: build_report_def Let_def list_all_iff)
  have "case rp_win_rate ?r of Some w \<Rightarrow> 0 \<le> w \<and> w \<le> 1 | None \<Rightarrow> journal = []"
  proof (cases "journal = []")
    case False
    have "length (filter (\<lambda>t. 0 < zero_or (rt_net t)) ?ts) \<le> length ?ts" by (rule length_filter_le)
    moreover have "?ts \<noteq> []" using False by (metis length_sort length_0_conv)
    ultimately show ?thesis by (simp add: build_report_def Let_def win_rate_def divide_le_eq_1 del: length_filter_le)
  qed (simp add: build_report_def Let_def win_rate_def)
  then show ?thesis unfolding Let_def using totals sums order own by simp
qed

end
