(* ===== verification/Notify.thy ===== *)
theory Notify
  imports Text_Tools
begin

text \<open>
  The alerts: \<open>src/notify.py\<close> sends one text to Telegram and judges the answer, and
  \<open>strategies/pastofi_crypto/notify.py\<close> does it from a thread of its own with one retry.  The
  network is the answer to every request; time is not modelled (the pause before the retry is where
  the second answer is read).
\<close>

subsection \<open>One text\<close>

datatype answer = NetworkError | Http int

definition max_len :: nat where
  "max_len = 4000"

definition message_body :: "string \<Rightarrow> string \<Rightarrow> string" where
  "message_body prefix txt = take max_len (prefix @ '' '' @ txt)"

text \<open>\<open>send\<close>: delivered or refused for good is \<open>True\<close>, a passing failure \<open>False\<close>.\<close>

fun send_result :: "answer \<Rightarrow> bool" where
  "send_result NetworkError = False"
| "send_result (Http c) = (if c = 200 then True else if c = 429 \<or> 500 \<le> c then False else True)"

text \<open>\<open>from_env\<close>: the token (of the new variable, or else the old one) and the chat, both not blank.\<close>

definition env_or :: "string option \<Rightarrow> string \<Rightarrow> string" where
  "env_or x y = (case x of Some s \<Rightarrow> if s = [] then y else s | None \<Rightarrow> y)"

definition credentials :: "string option \<Rightarrow> string option \<Rightarrow> string option \<Rightarrow> (string \<times> string) option" where
  "credentials token_var old_var chat_var =
     (let token = strip_text (env_or token_var (env_or old_var []));
          chat = strip_text (env_or chat_var [])
      in if token \<noteq> [] \<and> chat \<noteq> [] then Some (token, chat) else None)"

subsection \<open>The thread\<close>

datatype outcome = Answered answer | SendRaised

fun try_result :: "outcome \<Rightarrow> bool" where
  "try_result (Answered a) = send_result a"
| "try_result SendRaised = False"

record notifier =
  no_sends :: bool
  no_queue :: "string list"
  no_sent :: nat
  no_failed :: nat
  no_tries :: "string list"
  no_dropped :: "string list"
  no_printed :: "string list"

definition notifier_init :: "bool \<Rightarrow> notifier" where
  "notifier_init sends = \<lparr>no_sends = sends, no_queue = [], no_sent = 0, no_failed = 0, no_tries = [], no_dropped = [], no_printed = []\<rparr>"

definition notify :: "string \<Rightarrow> notifier \<Rightarrow> notifier" where
  "notify txt s = (if no_sends s then s\<lparr>no_queue := no_queue s @ [txt]\<rparr> else s\<lparr>no_printed := no_printed s @ [txt]\<rparr>)"

text \<open>One turn of the thread: the first text, tried once or, after a failure, twice.\<close>

definition notify_turn :: "outcome \<Rightarrow> outcome \<Rightarrow> notifier \<Rightarrow> notifier" where
  "notify_turn first second s =
     (case no_queue s of
        [] \<Rightarrow> s
      | txt # q \<Rightarrow>
          if try_result first
          then s\<lparr>no_queue := q, no_tries := no_tries s @ [txt], no_sent := no_sent s + 1\<rparr>
          else if try_result second
          then s\<lparr>no_queue := q, no_tries := no_tries s @ [txt, txt], no_sent := no_sent s + 1\<rparr>
          else s\<lparr>no_queue := q, no_tries := no_tries s @ [txt, txt], no_failed := no_failed s + 1,
                 no_dropped := no_dropped s @ [txt]\<rparr>)"

subsection \<open>Every alert once, in order\<close>

datatype notify_in = Alert string | Turn outcome outcome

fun notify_do :: "notify_in \<Rightarrow> notifier \<Rightarrow> notifier" where
  "notify_do (Alert t) = notify t"
| "notify_do (Turn a b) = notify_turn a b"

fun alerts :: "notify_in list \<Rightarrow> string list" where
  "alerts [] = []"
| "alerts (Alert t # xs) = t # alerts xs"
| "alerts (Turn a b # xs) = alerts xs"

text \<open>The tries of a list of texts, each tried once or twice.\<close>

inductive tried :: "string list \<Rightarrow> string list \<Rightarrow> bool" where
  none: "tried [] []"
| once: "tried ts xs \<Longrightarrow> tried (ts @ [t]) (xs @ [t])"
| twice: "tried ts xs \<Longrightarrow> tried (ts @ [t, t]) (xs @ [t])"

text \<open>For any alerts and answers: the texts taken from the queue are the first ones given, in their order;
  each was tried once, or twice after a failure; each is counted as sent or, after two failures, as failed,
  and the others wait.\<close>

theorem alerts_in_order:
  assumes "s = fold notify_do ins (notifier_init True)"
  shows "\<exists>taken. alerts ins = taken @ no_queue s \<and> tried (no_tries s) taken
    \<and> no_sent s + no_failed s = length taken \<and> no_failed s = length (no_dropped s) \<and> no_printed s = []"
proof -
  have "no_sends s \<and> (\<exists>taken. alerts ins = taken @ no_queue s \<and> tried (no_tries s) taken
    \<and> no_sent s + no_failed s = length taken \<and> no_failed s = length (no_dropped s) \<and> no_printed s = [])"
    using assms
  proof (induction ins arbitrary: s rule: rev_induct)
    case Nil
    then show ?case by (simp add: notifier_init_def tried.none)
  next
    case (snoc i ins)
    let ?s = "fold notify_do ins (notifier_init True)"
    obtain taken where IH: "no_sends ?s" "alerts ins = taken @ no_queue ?s" "tried (no_tries ?s) taken"
      "no_sent ?s + no_failed ?s = length taken" "no_failed ?s = length (no_dropped ?s)" "no_printed ?s = []"
      using snoc.IH by blast
    have app: "alerts (xs @ ys) = alerts xs @ alerts ys" for xs ys
      by (induction xs rule: alerts.induct) auto
    show ?case
    proof (cases i)
      case (Alert t)
      then show ?thesis using IH snoc.prems by (auto simp: app notify_def)
    next
      case (Turn a b)
      show ?thesis
      proof (cases "no_queue ?s")
        case Nil
        then show ?thesis using Turn IH snoc.prems by (auto simp: app notify_turn_def)
      next
        case (Cons t q)
        have "tried (no_tries ?s @ [t]) (taken @ [t])" "tried (no_tries ?s @ [t, t]) (taken @ [t])"
          using IH(3) by (auto intro: tried.intros)
        then show ?thesis using Turn Cons IH snoc.prems
          by (intro conjI exI [of _ "taken @ [t]"]) (auto simp: app notify_turn_def)
      qed
    qed
  qed
  then show ?thesis by blast
qed

end
