(* ===== verification/Record_Sinks.thy ===== *)
theory Record_Sinks
  imports Main "HOL-Library.AList"
begin

text \<open>
  The record stores of \<open>exchange/sinks.py\<close>: hourly files per symbol, the fan-out to several stores and
  the store of the tests.  A file is the list of the records in it; the records that an open handle
  holds back are its buffer.
\<close>

record 'r sink_record =
  sk_symbol :: "string option"
  sk_recv_ts :: "int option"
  sk_body :: 'r

record path =
  pa_key :: string
  pa_day :: int
  pa_hour :: int

record 'r jsonl_sink =
  js_files :: "path \<Rightarrow> 'r sink_record list"
  js_handles :: "(string \<times> (path \<times> 'r sink_record list)) list"

definition sink_key :: "'r sink_record \<Rightarrow> string" where
  "sink_key r = (case sk_symbol r of None \<Rightarrow> ''_system'' | Some s \<Rightarrow> if s = [] then ''_system'' else s)"

definition sink_ts :: "int \<Rightarrow> 'r sink_record \<Rightarrow> int" where
  "sink_ts now r = (case sk_recv_ts r of None \<Rightarrow> now | Some t \<Rightarrow> if t = 0 then now else t)"

definition path_of :: "string \<Rightarrow> int \<Rightarrow> path" where
  "path_of key ts = \<lparr>pa_key = key, pa_day = ts div 86400000, pa_hour = ts mod 86400000 div 3600000\<rparr>"

definition put_file :: "path \<Rightarrow> 'r sink_record list \<Rightarrow> 'r jsonl_sink \<Rightarrow> 'r jsonl_sink" where
  "put_file p rs s = s\<lparr>js_files := (js_files s)(p := js_files s p @ rs)\<rparr>"

text \<open>Another hour closes the handle of the key, which writes what it holds back.\<close>

definition record_write :: "int \<Rightarrow> 'r sink_record \<Rightarrow> 'r jsonl_sink \<Rightarrow> 'r jsonl_sink" where
  "record_write now r s =
     (let key = sink_key r; p = path_of key (sink_ts now r)
      in case map_of (js_handles s) key of
           None \<Rightarrow> s\<lparr>js_handles := AList.update key (p, [r]) (js_handles s)\<rparr>
         | Some (cur, buf) \<Rightarrow>
             if cur = p then s\<lparr>js_handles := AList.update key (p, buf @ [r]) (js_handles s)\<rparr>
             else (put_file cur buf s)\<lparr>js_handles := AList.update key (p, [r]) (js_handles s)\<rparr>)"

definition write_buffers :: "'r jsonl_sink \<Rightarrow> 'r jsonl_sink" where
  "write_buffers s = fold (\<lambda>(_, p, buf). put_file p buf) (js_handles s) s"

definition sink_flush :: "'r jsonl_sink \<Rightarrow> 'r jsonl_sink" where
  "sink_flush s = (write_buffers s)\<lparr>js_handles := map (\<lambda>(k, p, _). (k, p, [])) (js_handles s)\<rparr>"

definition sink_close :: "'r jsonl_sink \<Rightarrow> 'r jsonl_sink" where
  "sink_close s = (write_buffers s)\<lparr>js_handles := []\<rparr>"

definition sink_open :: "'r jsonl_sink" where
  "sink_open = \<lparr>js_files = (\<lambda>_. []), js_handles = []\<rparr>"

text \<open>The fan-out gives the record to one store after the other; a store that raises ends it.\<close>

fun fan_write :: "('r \<Rightarrow> 's \<Rightarrow> (string + unit) \<times> 's) \<Rightarrow> 'r \<Rightarrow> 's list \<Rightarrow> (string + unit) \<times> 's list" where
  "fan_write wr r [] = (Inr (), [])"
| "fan_write wr r (s # ss) =
     (case wr r s of
        (Inl e, s1) \<Rightarrow> (Inl e, s1 # ss)
      | (Inr _, s1) \<Rightarrow> apsnd (Cons s1) (fan_write wr r ss))"

definition memory_write :: "'r \<Rightarrow> 'r list \<Rightarrow> 'r list" where
  "memory_write r rs = rs @ [r]"

definition of_kind :: "('r \<Rightarrow> string option) \<Rightarrow> string \<Rightarrow> 'r list \<Rightarrow> 'r list" where
  "of_kind kind k rs = filter (\<lambda>r. kind r = Some k) rs"

subsection \<open>Every record in the file of its hour\<close>

definition held_lines :: "path \<Rightarrow> 'r jsonl_sink \<Rightarrow> 'r sink_record list" where
  "held_lines p s = (case map_of (js_handles s) (pa_key p) of Some (q, buf) \<Rightarrow> if q = p then buf else [] | None \<Rightarrow> [])"

definition handles_ok :: "'r jsonl_sink \<Rightarrow> bool" where
  "handles_ok s \<longleftrightarrow> distinct (map fst (js_handles s)) \<and> list_all (\<lambda>(k, p, _). pa_key p = k) (js_handles s)"

definition file_of :: "int \<times> 'r sink_record \<Rightarrow> path" where
  "file_of w = path_of (sink_key (snd w)) (sink_ts (fst w) (snd w))"

datatype 'r sink_in = SkWrite int "'r sink_record" | SkFlush | SkClose

fun sink_do :: "'r sink_in \<Rightarrow> 'r jsonl_sink \<Rightarrow> 'r jsonl_sink" where
  "sink_do (SkWrite now r) = record_write now r"
| "sink_do SkFlush = sink_flush"
| "sink_do SkClose = sink_close"

fun writes :: "'r sink_in list \<Rightarrow> (int \<times> 'r sink_record) list" where
  "writes [] = []"
| "writes (SkWrite now r # xs) = (now, r) # writes xs"
| "writes (SkFlush # xs) = writes xs"
| "writes (SkClose # xs) = writes xs"

lemma writes_append: "writes (xs @ ys) = writes xs @ writes ys"
  by (induction xs rule: writes.induct) auto

lemma buffers_written:
  "distinct (map fst hs) \<Longrightarrow> list_all (\<lambda>(k, p, _). pa_key p = k) hs \<Longrightarrow>
   js_files (fold (\<lambda>(_, p, buf). put_file p buf) hs s) p
     = js_files s p @ (case map_of hs (pa_key p) of Some (q, buf) \<Rightarrow> if q = p then buf else [] | None \<Rightarrow> [])"
proof (induction hs arbitrary: s)
  case (Cons h hs)
  obtain k q buf where h: "h = (k, q, buf)" by (cases h) auto
  have fresh: "k \<notin> fst ` set hs" "pa_key q = k" using Cons.prems h by auto
  then have "map_of hs k = None" by (simp add: map_of_eq_None_iff)
  moreover have "js_files (put_file q buf s) p = js_files s p @ (if q = p then buf else [])"
    by (simp add: put_file_def)
  ultimately show ?case using Cons h fresh by auto
qed simp

lemma written: "handles_ok s \<Longrightarrow> js_files (write_buffers s) p = js_files s p @ held_lines p s"
  unfolding write_buffers_def held_lines_def by (rule buffers_written) (simp_all add: handles_ok_def)

lemma map_cleared:
  "map_of (map (\<lambda>(k, p, _). (k, p, [])) hs) k = map_option (\<lambda>x. (fst x, [])) (map_of hs k)"
  by (induction hs) auto

lemma held_flush: "held_lines p (sink_flush s) = []" "held_lines p (sink_close s) = []"
  by (simp_all add: held_lines_def sink_flush_def sink_close_def map_cleared split: option.split)

lemma write_content:
  assumes "handles_ok s"
  shows "js_files (record_write now r s) p @ held_lines p (record_write now r s)
    = js_files s p @ held_lines p s @ (if path_of (sink_key r) (sink_ts now r) = p then [r] else [])"
    and "handles_ok (record_write now r s)"
proof -
  let ?k = "sink_key r" and ?p = "path_of (sink_key r) (sink_ts now r)"
  have k: "pa_key ?p = ?k" by (simp add: path_of_def)
  have upd: "map_of (AList.update ?k x hs) j = (if j = ?k then Some x else map_of hs j)" for x j and hs :: "(string \<times> path \<times> 'a sink_record list) list"
    by (simp add: update_conv')
  have cur: "pa_key q = ?k" if "map_of (js_handles s) ?k = Some (q, buf)" for q buf
    using that assms map_of_SomeD [OF that] by (force simp: handles_ok_def list_all_iff)
  show "js_files (record_write now r s) p @ held_lines p (record_write now r s)
    = js_files s p @ held_lines p s @ (if ?p = p then [r] else [])"
  proof (cases "map_of (js_handles s) ?k")
    case None
    then show ?thesis using k by (auto simp: record_write_def held_lines_def Let_def upd)
  next
    case (Some x)
    obtain q buf where x: "x = (q, buf)" by (cases x)
    show ?thesis
      using Some x k cur [of q buf] by (auto simp: record_write_def held_lines_def Let_def upd put_file_def)
  qed
  have upd_ok: "list_all (\<lambda>(k, p, _). pa_key p = k) (AList.update ?k (?p, b) hs)"
    if "list_all (\<lambda>(k, p, _). pa_key p = k) hs" for b and hs :: "(string \<times> path \<times> 'a sink_record list) list"
    using that k by (induction hs) auto
  show "handles_ok (record_write now r s)"
    using assms by (auto simp: handles_ok_def record_write_def Let_def put_file_def distinct_update upd_ok split: option.split)
qed

text \<open>Whatever is written, flushed and closed: the file of a symbol and hour together with what its handle
  holds back has exactly the records of that symbol and hour in the order of writing, and after a flush or
  a close nothing is held_lines back.\<close>

theorem jsonl_content:
  assumes "s = fold sink_do ins sink_open"
  shows "js_files s p @ held_lines p s = map snd (filter (\<lambda>w. file_of w = p) (writes ins))
    \<and> js_files (sink_flush s) p = map snd (filter (\<lambda>w. file_of w = p) (writes ins))"
proof -
  have "handles_ok s \<and> (\<forall>p. js_files s p @ held_lines p s = map snd (filter (\<lambda>w. file_of w = p) (writes ins)))"
    using assms
  proof (induction ins arbitrary: s rule: rev_induct)
    case Nil
    then show ?case by (simp add: sink_open_def handles_ok_def held_lines_def)
  next
    case (snoc i ins)
    let ?s = "fold sink_do ins sink_open"
    have IH: "handles_ok ?s" "js_files ?s p @ held_lines p ?s = map snd (filter (\<lambda>w. file_of w = p) (writes ins))" for p
      using snoc.IH [OF refl] by auto
    have s: "s = sink_do i ?s" using snoc.prems by simp
    show ?case
    proof (cases i)
      case (SkWrite now r)
      then show ?thesis using IH write_content [OF IH(1), of now r] s
        by (simp add: writes_append file_of_def)
    next
      case SkFlush
      have "handles_ok (sink_flush ?s)" using IH(1)
        by (simp add: handles_ok_def sink_flush_def list_all_iff comp_def case_prod_unfold)
      then show ?thesis using IH s SkFlush written [OF IH(1)] held_flush(1) [of _ ?s]
        by (simp add: writes_append) (simp add: sink_flush_def)
    next
      case SkClose
      have "handles_ok (sink_close ?s)" by (simp add: handles_ok_def sink_close_def)
      then show ?thesis using IH s SkClose written [OF IH(1)] held_flush(2) [of _ ?s]
        by (simp add: writes_append) (simp add: sink_close_def)
    qed
  qed
  then show ?thesis using written [of s] by (simp add: sink_flush_def)
qed

lemma fan_stops: "fan_write wr r (ss @ s # rest) = (Inl e, ss' @ s' # rest)"
  if "\<And>x. x \<in> set ss \<Longrightarrow> \<exists>y. wr r x = (Inr (), y)" "wr r s = (Inl e, s')" "ss' = map (\<lambda>x. snd (wr r x)) ss"
  using that by (induction ss arbitrary: ss') (fastforce+)

end
