(* ===== verification/Factors.thy ===== *)
theory Factors
  imports Klines_Correct
begin

text \<open>
  The short-term factors of \<open>src/factors.py\<close>: the outages of the collector, the one-second grid
  with the last value carried forward, the rolling imbalances and returns, and which seconds become
  samples.  Times are microseconds; second \<open>i\<close> of the grid is \<open>s0 + i\<close>.  A missing number is \<open>None\<close>;
  a rolling value is missing until its window is full.
\<close>

subsection \<open>Outages\<close>

datatype conn_kind = ConnDown | ConnUp | ConnOther

text \<open>The scan over the connection events: open since when, and the outages found.\<close>

fun outage_scan :: "int \<Rightarrow> (int \<times> conn_kind) list \<Rightarrow> int option \<Rightarrow> int option \<times> (int \<times> int) list" where
  "outage_scan start [] since = (since, [])"
| "outage_scan start ((ts, ConnDown) # evs) since = outage_scan start evs (if since = None then Some ts else since)"
| "outage_scan start ((ts, ConnUp) # evs) since =
     (case since of
        None \<Rightarrow> outage_scan start evs None
      | Some d \<Rightarrow> apsnd (\<lambda>out. (if start < ts then [(max d start, ts)] else []) @ out) (outage_scan start evs None))"
| "outage_scan start ((ts, ConnOther) # evs) since = outage_scan start evs since"

definition load_outages :: "(int \<times> conn_kind) list \<Rightarrow> int \<Rightarrow> int \<Rightarrow> (int \<times> int) list" where
  "load_outages evs start stop =
     (case outage_scan start (sort_key fst (filter (\<lambda>e. fst e < stop) evs)) None of
        (since, out) \<Rightarrow> out @ (case since of Some d \<Rightarrow> [(max d start, stop)] | None \<Rightarrow> []))"

subsection \<open>The grid\<close>

record quote_row =
  bo_ts :: int
  bo_bid :: real
  bo_ask :: real
  bo_bid_qty :: real
  bo_ask_qty :: real

record tick_row =
  tw_ts :: int
  tw_qty :: real
  tw_sell :: bool

definition mid_px :: "quote_row \<Rightarrow> real" where
  "mid_px r = (bo_bid r + bo_ask r) / 2"

definition book_imb :: "quote_row \<Rightarrow> real option" where
  "book_imb r = (let q = bo_bid_qty r + bo_ask_qty r in if q = 0 then None else Some ((bo_bid_qty r - bo_ask_qty r) / q))"

definition second_of :: "int \<Rightarrow> int" where
  "second_of ts = ts div 1000000"

text \<open>\<open>resample("1s").last()\<close>: the last value of each second, and \<open>ffill\<close>.\<close>

definition last_in :: "(quote_row \<Rightarrow> real option) \<Rightarrow> quote_row list \<Rightarrow> int \<Rightarrow> real option" where
  "last_in f rows s = (case List.map_filter f (filter (\<lambda>r. second_of (bo_ts r) = s) rows) of [] \<Rightarrow> None | vs \<Rightarrow> Some (last vs))"

fun ffill :: "'a option \<Rightarrow> 'a option list \<Rightarrow> 'a option list" where
  "ffill prev [] = []"
| "ffill prev (x # xs) = (let v = (if x = None then prev else x) in v # ffill v xs)"

definition grid_of :: "quote_row list \<Rightarrow> int list" where
  "grid_of rows = (if rows = [] then [] else [second_of (bo_ts (hd rows)) .. second_of (bo_ts (last rows))])"

text \<open>The seconds since the last fresh quote, per second of the grid.\<close>

definition last_fresh :: "bool list \<Rightarrow> nat \<Rightarrow> nat option" where
  "last_fresh fresh i = (case filter (\<lambda>j. fresh ! j) [0 ..< Suc i] of [] \<Rightarrow> None | js \<Rightarrow> Some (last js))"

definition sum_in :: "bool \<Rightarrow> tick_row list \<Rightarrow> int \<Rightarrow> real" where
  "sum_in sell ts s = (\<Sum>t\<leftarrow>filter (\<lambda>t. tw_sell t = sell \<and> second_of (tw_ts t) = s) ts. tw_qty t)"

text \<open>\<open>rolling(n)\<close> at place \<open>i\<close>: the last \<open>n\<close> values, all of them present.\<close>

definition window_at :: "nat \<Rightarrow> 'a list \<Rightarrow> nat \<Rightarrow> 'a list option" where
  "window_at n xs i = (if Suc i < n then None else Some (take n (drop (Suc i - n) xs)))"

definition rolling_sum :: "nat \<Rightarrow> real list \<Rightarrow> nat \<Rightarrow> real option" where
  "rolling_sum n xs i = map_option sum_list (window_at n xs i)"

definition rolling_mean :: "nat \<Rightarrow> real option list \<Rightarrow> nat \<Rightarrow> real option" where
  "rolling_mean n xs i =
     (case window_at n xs i of
        None \<Rightarrow> None
      | Some w \<Rightarrow> if None \<in> set w \<or> w = [] then None else Some (sum_list (map the w) / real (length w)))"

subsection \<open>The samples\<close>

record factor_row =
  fa_second :: int
  fa_mid :: real
  fa_txn :: real
  fa_lob :: real
  fa_past :: real
  fa_fwd :: real

record factor_grid =
  fg_secs :: "int list"
  fg_mid :: "real option list"
  fg_imb :: "real option list"
  fg_fresh :: "bool list"
  fg_buy :: "real list"
  fg_sell :: "real list"

definition factor_grid_of :: "quote_row list \<Rightarrow> tick_row list \<Rightarrow> factor_grid" where
  "factor_grid_of book trades =
     (let rows = sort_key bo_ts book; secs = grid_of rows; raw = map (last_in (Some \<circ> mid_px) rows) secs
      in \<lparr>fg_secs = secs, fg_mid = ffill None raw, fg_imb = ffill None (map (last_in book_imb rows) secs),
          fg_fresh = map (\<lambda>x. x \<noteq> None) raw,
          fg_buy = map (sum_in False trades) secs, fg_sell = map (sum_in True trades) secs\<rparr>)"

definition ratio :: "real option \<Rightarrow> real option \<Rightarrow> real option" where
  "ratio x y = (case (x, y) of (Some a, Some b) \<Rightarrow> if b = 0 then None else Some (a / b - 1) | _ \<Rightarrow> None)"

definition grid_mid :: "factor_grid \<Rightarrow> nat \<Rightarrow> real option" where
  "grid_mid g i = (if i < length (fg_mid g) then fg_mid g ! i else None)"

definition txn_imbalance :: "nat \<Rightarrow> factor_grid \<Rightarrow> nat \<Rightarrow> real option" where
  "txn_imbalance lookback g i =
     (case (rolling_sum lookback (fg_buy g) i, rolling_sum lookback (fg_sell g) i) of
        (Some b, Some s) \<Rightarrow> if 0 < b + s then Some ((b - s) / (b + s)) else None
      | _ \<Rightarrow> None)"

definition past_return :: "nat \<Rightarrow> factor_grid \<Rightarrow> nat \<Rightarrow> real option" where
  "past_return lookback g i = (if lookback \<le> i then ratio (grid_mid g i) (grid_mid g (i - lookback)) else None)"

definition fwd_return :: "nat \<Rightarrow> factor_grid \<Rightarrow> nat \<Rightarrow> real option" where
  "fwd_return horizon g i = ratio (grid_mid g (i + horizon)) (grid_mid g i)"

text \<open>A second is bad without a quote in the last \<open>max_stale\<close> seconds, or when its label lies in an outage.\<close>

definition bad_second :: "real \<Rightarrow> (int \<times> int) list \<Rightarrow> factor_grid \<Rightarrow> nat \<Rightarrow> bool" where
  "bad_second max_stale outages g i \<longleftrightarrow>
     (case last_fresh (fg_fresh g) i of None \<Rightarrow> True | Some j \<Rightarrow> max_stale < real (i - j))
     \<or> (\<exists>(a, z)\<in>set outages. a \<le> fg_secs g ! i * 1000000 \<and> fg_secs g ! i * 1000000 \<le> z)"

text \<open>\<open>bad.rolling(win + 1).max().shift(-horizon)\<close>, true where it is missing.\<close>

definition bad_window :: "nat \<Rightarrow> nat \<Rightarrow> real \<Rightarrow> (int \<times> int) list \<Rightarrow> factor_grid \<Rightarrow> nat \<Rightarrow> bool" where
  "bad_window lookback horizon max_stale outages g i \<longleftrightarrow>
     (let n = length (fg_secs g); j = i + horizon
      in n \<le> j \<or> Suc j < lookback + horizon + 1
         \<or> list_ex (bad_second max_stale outages g) [Suc j - (lookback + horizon + 1) ..< Suc j])"

definition factor_row_at ::
    "nat \<Rightarrow> nat \<Rightarrow> int \<Rightarrow> real \<Rightarrow> (int \<times> int) list \<Rightarrow> factor_grid \<Rightarrow> nat \<Rightarrow> factor_row option" where
  "factor_row_at lookback horizon grid max_stale outages g i =
     (if bad_window lookback horizon max_stale outages g i \<or> fg_secs g ! i mod grid \<noteq> 0 then None
      else (case (grid_mid g i, txn_imbalance lookback g i, rolling_mean lookback (fg_imb g) i,
                  past_return lookback g i, fwd_return horizon g i) of
              (Some m, Some t, Some l, Some p, Some f) \<Rightarrow>
                Some \<lparr>fa_second = fg_secs g ! i, fa_mid = m, fa_txn = t, fa_lob = l, fa_past = p, fa_fwd = f\<rparr>
            | _ \<Rightarrow> None))"

definition factors_build ::
    "nat \<Rightarrow> nat \<Rightarrow> int \<Rightarrow> (int \<times> int) list \<Rightarrow> real \<Rightarrow> quote_row list \<Rightarrow> tick_row list \<Rightarrow> factor_row list" where
  "factors_build lookback horizon grid outages max_stale book trades =
     (let g = factor_grid_of book trades
      in List.map_filter (factor_row_at lookback horizon grid max_stale outages g) [0 ..< length (fg_secs g)])"

subsection \<open>Correlation\<close>

definition pearson :: "(real \<times> real) list \<Rightarrow> real" where
  "pearson ps =
     (let n = real (length ps); mx = (\<Sum>p\<leftarrow>ps. fst p) / n; my = (\<Sum>p\<leftarrow>ps. snd p) / n;
          cov = (\<Sum>p\<leftarrow>ps. (fst p - mx) * (snd p - my));
          vx = (\<Sum>p\<leftarrow>ps. (fst p - mx)\<^sup>2); vy = (\<Sum>p\<leftarrow>ps. (snd p - my)\<^sup>2)
      in cov / sqrt (vx * vy))"

definition t_stat :: "nat \<Rightarrow> real \<Rightarrow> real" where
  "t_stat n r = r * sqrt (real (max (n - 2) 1) / max (1 - r * r) (1 / 10 ^ 12))"

end
