(* ===== verification/Factors_Correct.thy ===== *)
theory Factors_Correct
  imports Factors
begin

text \<open>
  A sample of the factors rests on fresh seconds only, and its factors depend on nothing after the
  second they are labelled with; an outage that begins inside a second leaves that second in use.
\<close>

subsection \<open>Outages\<close>

lemma scan_ordered:
  assumes "sorted (map fst evs)" "\<forall>e\<in>set evs. fst e < stop" "\<forall>d. since = Some d \<longrightarrow> d < stop \<and> (\<forall>e\<in>set evs. d \<le> fst e)"
  shows "list_all (\<lambda>(a, z). start \<le> a \<and> a \<le> z \<and> z < stop) (snd (outage_scan start evs since))
    \<and> (\<forall>d. fst (outage_scan start evs since) = Some d \<longrightarrow> d < stop)"
  using assms
proof (induction start evs since rule: outage_scan.induct)
  case (2 start ts evs since)
  then show ?case by (cases since) auto
next
  case (3 start ts evs since)
  have s: "sorted (map fst evs)" "\<forall>e\<in>set evs. fst e < stop" "ts < stop" using "3.prems" by auto
  show ?case
  proof (cases since)
    case None
    then show ?thesis using "3.IH"(1) s by simp
  next
    case (Some d)
    have IH: "list_all (\<lambda>(a, z). start \<le> a \<and> a \<le> z \<and> z < stop) (snd (outage_scan start evs None))
      \<and> (\<forall>d. fst (outage_scan start evs None) = Some d \<longrightarrow> d < stop)"
      using "3.IH"(2) [OF Some] s by simp
    have "d \<le> ts" using "3.prems"(3) Some by simp
    then show ?thesis using IH Some s(3) by (cases "outage_scan start evs None") auto
  qed
qed auto

text \<open>Every outage lies in the period asked for.\<close>

lemma outages_within:
  assumes "start \<le> stop"
  shows "list_all (\<lambda>(a, z). start \<le> a \<and> a \<le> z \<and> z \<le> stop) (load_outages evs start stop)"
proof -
  let ?evs = "sort_key fst (filter (\<lambda>e. fst e < stop) evs)"
  obtain since out where o: "outage_scan start ?evs None = (since, out)" by fastforce
  have "sorted (map fst ?evs)" "\<forall>e\<in>set ?evs. fst e < stop" by simp_all
  note scan = scan_ordered [OF this, of None start]
  have x: "list_all (\<lambda>(a, z). start \<le> a \<and> a \<le> z \<and> z < stop) out \<and> (\<forall>d. since = Some d \<longrightarrow> d < stop)"
    using scan [unfolded o fst_conv snd_conv] by blast
  have l: "list_all (\<lambda>(a, z). start \<le> a \<and> a \<le> z \<and> z \<le> stop) out"
    by (rule list.pred_mono_strong [OF conjunct1 [OF x]]) (simp split: prod.splits)
  have d: "d < stop" if "since = Some d" for d using x that by blast
  have e: "load_outages evs start stop = out @ (case since of Some d \<Rightarrow> [(max d start, stop)] | None \<Rightarrow> [])"
    by (simp only: load_outages_def o prod.case)
  show ?thesis
  proof (cases since)
    case None
    then show ?thesis using e l by simp
  next
    case (Some a)
    then show ?thesis using e l d [OF Some] assms by simp
  qed
qed

subsection \<open>Fresh windows\<close>

lemma sample_clean:
  assumes "factor_row_at lookback horizon grid max_stale outages g i = Some r"
  shows "lookback \<le> i \<and> i + horizon < length (fg_secs g)
    \<and> (\<forall>k. i - lookback \<le> k \<and> k \<le> i + horizon \<longrightarrow> \<not> bad_second max_stale outages g k)
    \<and> fa_second r = fg_secs g ! i \<and> fa_second r mod grid = 0"
proof -
  have w: "\<not> bad_window lookback horizon max_stale outages g i" "fg_secs g ! i mod grid = 0" "fa_second r = fg_secs g ! i"
    using assms by (auto simp: factor_row_at_def split: if_splits option.splits)
  have l: "lookback \<le> i" "i + horizon < length (fg_secs g)"
    and e: "\<not> list_ex (bad_second max_stale outages g) [Suc (i + horizon) - (lookback + horizon + 1) ..< Suc (i + horizon)]"
    using w(1) by (auto simp: bad_window_def Let_def)
  have "Suc (i + horizon) - (lookback + horizon + 1) = i - lookback" by simp
  then show ?thesis using l w e by (auto simp: list_ex_iff)
qed

subsection \<open>No look ahead\<close>

lemma ffill_take: "take k (ffill p xs) = ffill p (take k xs)"
proof (induction xs arbitrary: k p)
  case (Cons x xs)
  show ?case using Cons by (cases k) (simp_all add: Let_def)
qed simp

lemma ffill_length: "length (ffill p xs) = length xs"
  by (induction xs arbitrary: p) (simp_all add: Let_def)

lemma window_prefix: "window_at n xs i = map_option (\<lambda>_. drop (Suc i - n) (take (Suc i) xs)) (if Suc i < n then None else Some ())"
  by (simp add: window_at_def drop_take)

lemma window_agree: "take (Suc i) xs = take (Suc i) ys \<Longrightarrow> window_at n xs i = window_at n ys i"
  by (simp add: window_prefix)

lemma take_nth: "take (Suc i) xs = take (Suc i) ys \<Longrightarrow> k \<le> i \<Longrightarrow> i < length xs \<Longrightarrow> i < length ys \<Longrightarrow> xs ! k = ys ! k"
  by (metis le_imp_less_Suc nth_take)

definition upto_second :: "int \<Rightarrow> quote_row list \<Rightarrow> quote_row list" where
  "upto_second s rows = filter (\<lambda>r. second_of (bo_ts r) \<le> s) (sort_key bo_ts rows)"

lemma second_mono: "a \<le> b \<Longrightarrow> second_of a \<le> second_of b"
  by (simp add: second_of_def zdiv_mono1)

lemma grid_first:
  assumes "s \<in> set (grid_of (sort_key bo_ts book))"
  shows "upto_second s book \<noteq> [] \<and> hd (sort_key bo_ts book) = hd (upto_second s book)"
proof -
  let ?rows = "sort_key bo_ts book"
  have "?rows \<noteq> []" "second_of (bo_ts (hd ?rows)) \<le> s" using assms by (auto simp: grid_of_def split: if_splits)
  moreover obtain r rs where "?rows = r # rs" using calculation(1) by (cases ?rows) blast+
  ultimately show ?thesis unfolding upto_second_def by simp
qed

lemma last_in_upto: "x \<le> s \<Longrightarrow> last_in f (sort_key bo_ts book) x = last_in f (upto_second s book) x"
proof -
  assume "x \<le> s"
  then have "(second_of (bo_ts r) = x) = (second_of (bo_ts r) \<le> s \<and> second_of (bo_ts r) = x)" for r :: quote_row by linarith
  then have "filter (\<lambda>r. second_of (bo_ts r) = x) (sort_key bo_ts book) = filter (\<lambda>r. second_of (bo_ts r) = x) (upto_second s book)"
    unfolding upto_second_def filter_filter by (intro filter_cong refl)
  then show ?thesis by (simp add: last_in_def)
qed

lemma sum_in_upto:
  "x \<le> s \<Longrightarrow> filter (\<lambda>t. second_of (tw_ts t) \<le> s) ts = filter (\<lambda>t. second_of (tw_ts t) \<le> s) ts' \<Longrightarrow> sum_in sell ts x = sum_in sell ts' x"
proof -
  assume a: "x \<le> s" "filter (\<lambda>t. second_of (tw_ts t) \<le> s) ts = filter (\<lambda>t. second_of (tw_ts t) \<le> s) ts'"
  have e: "(tw_sell t = sell \<and> second_of (tw_ts t) = x)
      = (second_of (tw_ts t) \<le> s \<and> tw_sell t = sell \<and> second_of (tw_ts t) = x)" for t :: tick_row
    using a(1) by linarith
  have e2: "filter (\<lambda>t. tw_sell t = sell \<and> second_of (tw_ts t) = x) zs
      = filter (\<lambda>t. tw_sell t = sell \<and> second_of (tw_ts t) = x) (filter (\<lambda>t. second_of (tw_ts t) \<le> s) zs)" for zs :: "tick_row list"
    unfolding filter_filter by (rule filter_cong [OF refl]) (rule e)
  have "filter (\<lambda>t. tw_sell t = sell \<and> second_of (tw_ts t) = x) ts = filter (\<lambda>t. tw_sell t = sell \<and> second_of (tw_ts t) = x) ts'"
    using e2 [of ts] e2 [of ts'] unfolding a(2) by (rule HOL.trans [OF _ sym])
  then show ?thesis unfolding sum_in_def by (rule arg_cong)
qed

text \<open>The grids of two records of the market that agree up to a second agree up to its place.\<close>

lemma upto_prefix: "take (Suc i) [a .. b] = [a .. a + int i]" if "a + int i \<le> b" for a b :: int
  using that
proof (induction i arbitrary: a)
  case 0
  then show ?case by (simp add: upto_rec1)
next
  case (Suc i)
  have "[a .. b] = a # [a + 1 .. b]" using Suc.prems by (simp add: upto_rec1)
  then have "take (Suc (Suc i)) [a .. b] = a # [a + 1 .. a + 1 + int i]" using Suc.IH [of "a + 1"] Suc.prems by simp
  then show ?case by (simp add: upto_rec1 algebra_simps)
qed

lemma grid_prefix:
  assumes "i < length (grid_of (sort_key bo_ts book))" "grid_of (sort_key bo_ts book) ! i = s"
  shows "take (Suc i) (grid_of (sort_key bo_ts book)) = [second_of (bo_ts (hd (upto_second s book))) .. s]"
    and "list_all (\<lambda>x. x \<le> s) (take (Suc i) (grid_of (sort_key bo_ts book)))"
proof -
  let ?rows = "sort_key bo_ts book"
  have s: "s \<in> set (grid_of ?rows)" using assms nth_mem by blast
  have ne: "?rows \<noteq> []" using assms(1) by (auto simp: grid_of_def)
  define a where "a = second_of (bo_ts (hd ?rows))"
  define b where "b = second_of (bo_ts (last ?rows))"
  have g: "grid_of ?rows = [a .. b]" using ne by (simp add: grid_of_def a_def b_def)
  have i: "a + int i \<le> b" using assms(1) unfolding g by simp
  then have "s = a + int i" using assms(2) unfolding g by simp
  then have "take (Suc i) (grid_of ?rows) = [a .. s]" unfolding g using upto_prefix [OF i] by simp
  moreover have "a = second_of (bo_ts (hd (upto_second s book)))" using grid_first [OF s] by (simp add: a_def)
  ultimately show "take (Suc i) (grid_of ?rows) = [second_of (bo_ts (hd (upto_second s book))) .. s]" by simp
  show "list_all (\<lambda>x. x \<le> s) (take (Suc i) (grid_of ?rows))"
    using \<open>take (Suc i) (grid_of ?rows) = [a .. s]\<close> by (simp add: list_all_iff)
qed

lemma grids_agree:
  assumes "i < length (fg_secs (factor_grid_of book trades))" "i < length (fg_secs (factor_grid_of book' trades'))"
    and "fg_secs (factor_grid_of book trades) ! i = s" "fg_secs (factor_grid_of book' trades') ! i = s"
    and "upto_second s book = upto_second s book'"
    and "filter (\<lambda>t. second_of (tw_ts t) \<le> s) trades = filter (\<lambda>t. second_of (tw_ts t) \<le> s) trades'"
  shows "take (Suc i) (fg_mid (factor_grid_of book trades)) = take (Suc i) (fg_mid (factor_grid_of book' trades'))"
    "take (Suc i) (fg_imb (factor_grid_of book trades)) = take (Suc i) (fg_imb (factor_grid_of book' trades'))"
    "take (Suc i) (fg_buy (factor_grid_of book trades)) = take (Suc i) (fg_buy (factor_grid_of book' trades'))"
    "take (Suc i) (fg_sell (factor_grid_of book trades)) = take (Suc i) (fg_sell (factor_grid_of book' trades'))"
proof -
  let ?G = "grid_of (sort_key bo_ts book)" and ?H = "grid_of (sort_key bo_ts book')"
  have secs: "fg_secs (factor_grid_of book trades) = ?G" "fg_secs (factor_grid_of book' trades') = ?H"
    by (simp_all add: factor_grid_of_def Let_def)
  note a = assms(1,3) [unfolded secs] and b = assms(2,4) [unfolded secs]
  have g: "take (Suc i) ?G = take (Suc i) ?H" using grid_prefix(1) [OF a] grid_prefix(1) [OF b] assms(5) by simp
  have low: "x \<le> s" if "x \<in> set (take (Suc i) ?H)" for x using that grid_prefix(2) [OF b] by (simp add: list_all_iff)
  have l: "map (last_in f (sort_key bo_ts book)) (take (Suc i) ?G) = map (last_in f (sort_key bo_ts book')) (take (Suc i) ?H)" for f
    unfolding g by (rule map_cong [OF refl]) (simp add: last_in_upto [OF low] assms(5))
  have t: "map (sum_in sell trades) (take (Suc i) ?G) = map (sum_in sell trades') (take (Suc i) ?H)" for sell
    unfolding g by (rule map_cong [OF refl]) (rule sum_in_upto [OF low assms(6)])
  show "take (Suc i) (fg_mid (factor_grid_of book trades)) = take (Suc i) (fg_mid (factor_grid_of book' trades'))"
    "take (Suc i) (fg_imb (factor_grid_of book trades)) = take (Suc i) (fg_imb (factor_grid_of book' trades'))"
    "take (Suc i) (fg_buy (factor_grid_of book trades)) = take (Suc i) (fg_buy (factor_grid_of book' trades'))"
    "take (Suc i) (fg_sell (factor_grid_of book trades)) = take (Suc i) (fg_sell (factor_grid_of book' trades'))"
    unfolding factor_grid_of_def Let_def factor_grid.simps ffill_take take_map l t by (rule refl)+
qed

lemma grid_lengths:
  "length (fg_mid (factor_grid_of book trades)) = length (fg_secs (factor_grid_of book trades))"
  by (simp add: factor_grid_of_def Let_def ffill_length)

text \<open>Two records of the market that agree up to a second give that second the same three factors, whatever
  comes later: only the forward return looks ahead.\<close>

theorem factors_no_lookahead:
  fixes book book' :: "quote_row list" and trades trades' :: "tick_row list"
  defines "g \<equiv> factor_grid_of book trades" and "g' \<equiv> factor_grid_of book' trades'"
  assumes "i < length (fg_secs g)" "i < length (fg_secs g')" "fg_secs g ! i = s" "fg_secs g' ! i = s"
    and "upto_second s book = upto_second s book'"
    and "filter (\<lambda>t. second_of (tw_ts t) \<le> s) trades = filter (\<lambda>t. second_of (tw_ts t) \<le> s) trades'"
  shows "txn_imbalance lookback g i = txn_imbalance lookback g' i
    \<and> rolling_mean lookback (fg_imb g) i = rolling_mean lookback (fg_imb g') i
    \<and> past_return lookback g i = past_return lookback g' i"
proof -
  note a = grids_agree [OF assms(3-8) [unfolded g_def g'_def], folded g_def g'_def]
  have m: "grid_mid g k = grid_mid g' k" if "k \<le> i" for k
    using take_nth [OF a(1) that] assms(3,4) that unfolding grid_mid_def g_def g'_def grid_lengths by simp
  show ?thesis
    unfolding txn_imbalance_def rolling_sum_def rolling_mean_def past_return_def
      window_agree [OF a(2)] window_agree [OF a(3)] window_agree [OF a(4)]
    by (simp add: m)
qed

subsection \<open>An outage inside a second\<close>

text \<open>The label of a second is its start: an outage that begins after it does not mark that second.\<close>

lemma outage_second_used:
  "\<not> bad_second 30 [(10500000, 11400000)]
     \<lparr>fg_secs = [10, 11, 12], fg_mid = [Some 1, Some 1, Some 1], fg_imb = [None, None, None],
      fg_fresh = [True, True, True], fg_buy = [0, 0, 0], fg_sell = [0, 0, 0]\<rparr> 0"
  by (simp add: bad_second_def last_fresh_def)

end
