(* ===== verification/Integrity_Checks.thy ===== *)
theory Integrity_Checks
  imports Backfill_Correct
begin

text \<open>
  The checks of the stored data, \<open>run_checks\<close> of \<open>src/integrity.py\<close>: each query over the lists of rows
  of its table.  Times are microseconds.  Three orders belong to the database and are parameters or
  free: \<open>pick\<close> as in \<open>find_agg_gaps\<close>, \<open>coll\<close> for the order of texts, and rows that tie keep the
  order of the table.
\<close>

subsection \<open>The rows\<close>

record note_row =
  ne_recv :: int
  ne_kind :: string
  ne_symbol :: "string option"
  ne_stream :: "string option"
  ne_event :: "string option"
  ne_offset :: "real option"

record market_tables =
  mt_trades :: "trade_cols list"
  mt_book :: "top_cols list"
  mt_notes :: "note_row list"

definition window_trades :: "string \<Rightarrow> int \<Rightarrow> int \<Rightarrow> market_tables \<Rightarrow> trade_cols list" where
  "window_trades sm start stop db =
     filter (\<lambda>r. tc_symbol r = sm \<and> (case tc_ts r of Some t \<Rightarrow> start \<le> t \<and> t < stop | None \<Rightarrow> False)) (mt_trades db)"

definition window_book :: "string \<Rightarrow> int \<Rightarrow> int \<Rightarrow> market_tables \<Rightarrow> top_cols list" where
  "window_book sm start stop db =
     filter (\<lambda>r. pc_symbol r = sm \<and> (case pc_ts r of Some t \<Rightarrow> start \<le> t \<and> t < stop | None \<Rightarrow> False)) (mt_book db)"

definition book_ids :: "string \<Rightarrow> top_cols list \<Rightarrow> id_row list" where
  "book_ids sm rows =
     List.map_filter (\<lambda>r. if pc_symbol r = sm then map_option (\<lambda>t. (pc_update_id r, t)) (pc_ts r) else None) rows"

subsection \<open>The queries\<close>

definition span_of :: "int list \<Rightarrow> nat \<times> (int \<times> int) option" where
  "span_of ts = (length ts, if ts = [] then None else Some (Min (set ts), Max (set ts)))"

fun lags :: "int list \<Rightarrow> (int \<times> int) list" where
  "lags (p # t # ts) = (p, t) # lags (t # ts)"
| "lags _ = []"

definition silences :: "real \<Rightarrow> int list \<Rightarrow> (int \<times> int) list" where
  "silences gap_s ts = filter (\<lambda>(p, t). gap_s * 1000000 < of_int (t - p)) (lags (sort ts))"

definition longest :: "nat \<Rightarrow> (int \<times> int) list \<Rightarrow> (int \<times> int) list" where
  "longest limit sl = take limit (sort_key (\<lambda>(p, t). p - t) sl)"

definition crossed :: "top_cols \<Rightarrow> bool" where
  "crossed r \<longleftrightarrow> (case (hd (fst (pc_bids r)), hd (fst (pc_asks r))) of (Some b, Some a) \<Rightarrow> a \<le> b | _ \<Rightarrow> False)"

definition empty_top :: "top_cols \<Rightarrow> bool" where
  "empty_top r \<longleftrightarrow> hd (fst (pc_bids r)) = None \<or> hd (fst (pc_asks r)) = None"

text \<open>\<open>percentile_cont\<close>: linear between the two nearest ranks; null without a value.\<close>

definition percentile :: "real \<Rightarrow> real list \<Rightarrow> real option" where
  "percentile p xs =
     (if xs = [] then None
      else (let ys = sort xs; pos = p * real (length ys - 1); lo = nat \<lfloor>pos\<rfloor>; hi = nat \<lceil>pos\<rceil>
            in Some (ys ! lo + (pos - real lo) * (ys ! hi - ys ! lo))))"

definition latencies :: "trade_cols list \<Rightarrow> real list" where
  "latencies rows =
     List.map_filter (\<lambda>r. case (tc_recv r, tc_event r) of
         (Some a, Some b) \<Rightarrow> if tc_source r = ''ws'' then Some (of_int (a - b) / 1000) else None
       | _ \<Rightarrow> None) rows"

definition note_key :: "note_row \<Rightarrow> string \<times> string \<times> string" where
  "note_key n = (ne_kind n, case ne_stream n of Some s \<Rightarrow> s | None \<Rightarrow> [], case ne_event n of Some s \<Rightarrow> s | None \<Rightarrow> [])"

definition notes_in :: "string \<Rightarrow> int \<Rightarrow> int \<Rightarrow> note_row list \<Rightarrow> note_row list" where
  "notes_in sm start stop ns =
     filter (\<lambda>n. start \<le> ne_recv n \<and> ne_recv n < stop \<and> (ne_symbol n = Some sm \<or> ne_symbol n = None)) ns"

definition note_counts ::
    "(string \<times> string \<times> string \<Rightarrow> nat) \<Rightarrow> note_row list \<Rightarrow> ((string \<times> string \<times> string) \<times> nat) list" where
  "note_counts coll ns =
     map (\<lambda>k. (k, length (filter (\<lambda>n. note_key n = k) ns))) (sort_key coll (remdups (map note_key ns)))"

definition last_offset :: "int \<Rightarrow> note_row list \<Rightarrow> real option" where
  "last_offset stop ns =
     (case sort_key (\<lambda>n. - ne_recv n) (filter (\<lambda>n. ne_kind n = ''clock'' \<and> ne_recv n < stop) ns) of
        [] \<Rightarrow> None | n # _ \<Rightarrow> ne_offset n)"

record check_report =
  ck_trades :: "nat \<times> (int \<times> int) option"
  ck_book_rows :: "nat \<times> (int \<times> int) option"
  ck_agg_gaps :: "id_gap list"
  ck_missing_ids :: int
  ck_trade_inversions :: nat
  ck_trade_silences :: "nat \<times> (int \<times> int) list"
  ck_book_silences :: "nat \<times> (int \<times> int) list"
  ck_book_inversions :: nat
  ck_crossed :: nat
  ck_empty_top :: nat
  ck_latency :: "real option \<times> real option"
  ck_notes :: "((string \<times> string \<times> string) \<times> nat) list"
  ck_offset :: "real option"

definition run_checks ::
    "(id_row list \<Rightarrow> id_row) \<Rightarrow> (string \<times> string \<times> string \<Rightarrow> nat) \<Rightarrow> string \<Rightarrow> int \<Rightarrow> int \<Rightarrow> real \<Rightarrow> real \<Rightarrow> nat
     \<Rightarrow> market_tables \<Rightarrow> check_report" where
  "run_checks pick coll sm start stop trade_gap book_gap limit db =
     (let tr = window_trades sm start stop db; bk = window_book sm start stop db;
          tts = map snd (ids_in sm tr); bts = map snd (book_ids sm bk);
          gaps = find_agg_gaps pick start stop (ids_in sm (mt_trades db));
          tsil = silences trade_gap tts; bsil = silences book_gap bts; lat = latencies tr
      in \<lparr>ck_trades = span_of tts, ck_book_rows = span_of bts, ck_agg_gaps = gaps, ck_missing_ids = missing_ids gaps,
          ck_trade_inversions = ts_inversions start stop (ids_in sm (mt_trades db)),
          ck_trade_silences = (length tsil, longest limit tsil), ck_book_silences = (length bsil, longest limit bsil),
          ck_book_inversions = ts_inversions start stop (book_ids sm (mt_book db)),
          ck_crossed = length (filter crossed bk), ck_empty_top = length (filter empty_top bk),
          ck_latency = (percentile (1 / 2) lat, percentile (99 / 100) lat),
          ck_notes = note_counts coll (notes_in sm start stop (mt_notes db)),
          ck_offset = last_offset stop (mt_notes db)\<rparr>)"

subsection \<open>What the numbers mean\<close>

lemma inversions_zero: "inversions ts = 0 \<longleftrightarrow> sorted ts"
proof (induction ts rule: inversions.induct)
  case (1 p t ts)
  have "sorted (p # t # ts) \<longleftrightarrow> p \<le> t \<and> sorted (t # ts)" by (rule sorted2)
  then show ?case using 1 by (auto simp del: sorted_simps)
qed auto

text \<open>No silence: after every row but the last another one comes within the gap.\<close>

lemma lags_next:
  "sorted ts \<Longrightarrow> (p, t) \<in> set (lags ts) \<Longrightarrow> p \<le> t \<and> p \<in> set ts \<and> t \<in> set ts \<and> (\<forall>x\<in>set ts. x \<le> p \<or> t \<le> x)"
proof (induction ts rule: lags.induct)
  case (1 q u ts)
  have s: "q \<le> u" "sorted (u # ts)" "\<forall>x\<in>set (u # ts). q \<le> x \<and> u \<le> x" using "1.prems"(1) by auto
  show ?case
  proof (cases "(p, t) = (q, u)")
    case True
    then show ?thesis using s by simp
  next
    case False
    then have "(p, t) \<in> set (lags (u # ts))" using "1.prems"(2) by auto
    then have "p \<le> t \<and> p \<in> set (u # ts) \<and> t \<in> set (u # ts) \<and> (\<forall>x\<in>set (u # ts). x \<le> p \<or> t \<le> x)"
      using "1.IH" s(2) by blast
    then show ?thesis using s(3) by auto
  qed
qed auto

lemma lags_cover:
  "sorted ts \<Longrightarrow> x \<in> set ts \<Longrightarrow> x \<noteq> Max (set ts) \<Longrightarrow> \<exists>t. (x, t) \<in> set (lags ts) \<and> x < t"
proof (induction ts rule: lags.induct)
  case (1 q u ts)
  have mx: "Max (set (q # u # ts)) = Max (set (u # ts))"
    using "1.prems"(1) by (auto simp: max_def intro!: Max_eqI antisym) (meson List.finite_set Max_ge finite_insert insertI1 order_trans)
  show ?case
  proof (cases "x \<in> set (u # ts)")
    case True
    then show ?thesis using 1 mx by fastforce
  next
    case False
    then show ?thesis using "1.prems" by auto
  qed
qed auto

theorem silence_free_iff:
  assumes "ts \<noteq> []" "0 \<le> gap_s"
  shows "silences gap_s ts = [] \<longleftrightarrow>
    (\<forall>x\<in>set ts. x = Max (set ts) \<or> (\<exists>y\<in>set ts. x < y \<and> of_int (y - x) \<le> gap_s * 1000000))"
proof
  assume s: "silences gap_s ts = []"
  show "\<forall>x\<in>set ts. x = Max (set ts) \<or> (\<exists>y\<in>set ts. x < y \<and> of_int (y - x) \<le> gap_s * 1000000)"
  proof
    fix x assume x: "x \<in> set ts"
    show "x = Max (set ts) \<or> (\<exists>y\<in>set ts. x < y \<and> of_int (y - x) \<le> gap_s * 1000000)"
    proof (cases "x = Max (set ts)")
      case False
      then obtain t where t: "(x, t) \<in> set (lags (sort ts))" "x < t" using lags_cover [of "sort ts" x] x by auto
      have "t \<in> set ts" using lags_next [of "sort ts" x t] t by simp
      moreover have "of_int (t - x) \<le> gap_s * 1000000" using s t(1) by (fastforce simp: silences_def filter_empty_conv)
      ultimately show ?thesis using t(2) by blast
    qed simp
  qed
next
  assume a: "\<forall>x\<in>set ts. x = Max (set ts) \<or> (\<exists>y\<in>set ts. x < y \<and> of_int (y - x) \<le> gap_s * 1000000)"
  have "\<not> gap_s * 1000000 < of_int (t - p)" if l: "(p, t) \<in> set (lags (sort ts))" for p t
  proof -
    note n = lags_next [of "sort ts" p t, OF _ l]
    have pt: "p \<le> t" "p \<in> set ts" "t \<in> set ts" "\<forall>x\<in>set ts. x \<le> p \<or> t \<le> x" using n by simp_all
    show ?thesis
    proof (cases "p = Max (set ts)")
      case True
      then have "t \<le> p" using pt(3) by simp
      then have "of_int (t - p) \<le> (0::real)" by simp
      then show ?thesis using assms(2) by linarith
    next
      case False
      then obtain y where "y \<in> set ts" "p < y" "of_int (y - p) \<le> gap_s * 1000000" using a pt(2) by blast
      moreover have "t \<le> y" using pt(4) calculation(1,2) by fastforce
      moreover have "(of_int (t - p) :: real) \<le> of_int (y - p)" using calculation(4) by simp
      ultimately show ?thesis by linarith
    qed
  qed
  then show "silences gap_s ts = []" by (auto simp: silences_def filter_empty_conv)
qed

text \<open>The silences shown are the longest ones.\<close>

lemma longest_are:
  assumes "(p, t) \<in> set (longest limit sl)" "(q, u) \<in> set sl" "(q, u) \<notin> set (longest limit sl)"
  shows "u - q \<le> t - p"
proof -
  let ?k = "\<lambda>(p, t). p - (t::int)" and ?s = "sort_key (\<lambda>(p, t). p - t) sl"
  have "(q, u) \<in> set (drop limit ?s)"
    using assms(2,3) by (metis UnE append_take_drop_id longest_def set_append set_sort)
  moreover have "sorted (map ?k (take limit ?s) @ map ?k (drop limit ?s))"
    by (metis append_take_drop_id map_append sorted_sort_key)
  ultimately have "?k (p, t) \<le> ?k (q, u)" using assms(1) unfolding sorted_append longest_def by (metis (no_types, lifting) image_eqI list.set_map)
  then show ?thesis by simp
qed

lemma notes_counted: "(\<Sum>x\<leftarrow>note_counts coll ns. snd x) = length ns"
proof -
  have "(\<Sum>k\<leftarrow>ks. length (filter (\<lambda>n. note_key n = k) ns)) = length (filter (\<lambda>n. note_key n \<in> set ks) ns)"
    if "distinct ks" for ks
    using that
  proof (induction ks)
    case (Cons k ks)
    have "length (filter (\<lambda>n. note_key n \<in> set (k # ks)) ns)
        = length (filter (\<lambda>n. note_key n = k) ns) + length (filter (\<lambda>n. note_key n \<in> set ks) ns)"
      using Cons.prems by (induction ns) auto
    then show ?case using Cons by simp
  qed simp
  from this [of "sort_key coll (remdups (map note_key ns))"] show ?thesis
    by (simp add: note_counts_def comp_def)
qed

end
