(* ===== verification/Ledger_Migration.thy ===== *)
theory Ledger_Migration
  imports Trader Paper_Exchange
begin

text \<open>
  The conversion of the paper ledger from the first specification to the second,
  \<open>strategies/pastofi_crypto/migrate_v2.py\<close>: the trades at the new sizes, the state rebuilt from them,
  the paper exchanges rescaled, and \<open>main\<close> as the order in which the files are replaced.  The prices
  that the exchange answers are the parameter \<open>rest\<close>; the event and the database at the end of \<open>main\<close>
  are left out.
\<close>

subsection \<open>The trades\<close>

datatype mig_error =
    NoTradeAfter string int | SizeError spec_error | OtherVersion string | OpenPosition | ArchiveExists
  | PaperOpen string | DivByZero

record ledger_trade = trade_rec +
  lt_version :: string

record converted = ledger_trade +
  cv_old_qty :: real
  cv_old_gross :: real
  cv_old_fees :: real
  cv_old_net :: real
  cv_old_version :: string
  cv_prices :: "(string \<times> real) list"

definition price_at :: "(string \<Rightarrow> int \<Rightarrow> real list) \<Rightarrow> string \<Rightarrow> int \<Rightarrow> mig_error + real" where
  "price_at rest sm t = (case rest sm (t * 1000) of [] \<Rightarrow> Inl (NoTradeAfter sm t) | p # _ \<Rightarrow> Inr p)"

definition prices_for :: "(string \<Rightarrow> int \<Rightarrow> real list) \<Rightarrow> spec \<Rightarrow> ledger_trade \<Rightarrow> mig_error + (string \<times> real) list" where
  "prices_for rest sp t =
     map_sum id (zip (sp_symbols sp))
       (all_ok (map (\<lambda>s. if s = tx_sym t then Inr (tx_assumed_in t) else price_at rest s (tx_ep t)) (sp_symbols sp)))"

definition convert_one ::
    "(string \<Rightarrow> int \<Rightarrow> real list) \<Rightarrow> spec \<Rightarrow> (string \<times> sym_filters) list \<Rightarrow> real \<Rightarrow> ledger_trade \<Rightarrow> mig_error + converted" where
  "convert_one rest sp filters taker t =
     (case prices_for rest sp t of
        Inl e \<Rightarrow> Inl e
      | Inr prices \<Rightarrow>
          (case sized sp (tx_sym t) (map_of prices) filters of
             Inl e \<Rightarrow> Inl (SizeError e)
           | Inr q \<Rightarrow>
               (let gross = (tx_entry_px t - tx_exit_px t) * q;
                    fees = q * (tx_entry_px t + tx_exit_px t) * taker / 10000
                in Inr (ledger_trade.extend
                     (t\<lparr>tx_qty := q, tx_gross := gross, tx_fees := fees, tx_net := gross - fees, lt_version := sp_version sp\<rparr>)
                     \<lparr>cv_old_qty = tx_qty t, cv_old_gross = tx_gross t, cv_old_fees = tx_fees t, cv_old_net = tx_net t,
                      cv_old_version = lt_version t, cv_prices = prices\<rparr>))))"

definition convert ::
    "(string \<Rightarrow> int \<Rightarrow> real list) \<Rightarrow> spec \<Rightarrow> (string \<times> sym_filters) list \<Rightarrow> real \<Rightarrow> ledger_trade list
     \<Rightarrow> mig_error + converted list" where
  "convert rest sp filters taker trades = all_ok (map (convert_one rest sp filters taker) (sort_key tx_ep trades))"

subsection \<open>The state\<close>

definition add_day :: "'a trade_rec_scheme \<Rightarrow> (int \<Rightarrow> day_result option) \<Rightarrow> int \<Rightarrow> day_result option" where
  "add_day t days = days(tx_day t := Some (add_result (tx_net t) (days (tx_day t))))"

definition rebuild_state :: "trader_state \<Rightarrow> 'a trade_rec_scheme list \<Rightarrow> spec \<Rightarrow> trader_state" where
  "rebuild_state st trades sp =
     st\<lparr>ts_version := sp_version sp, ts_cum_net := (\<Sum>t\<leftarrow>trades. tx_net t), ts_cum_gross := (\<Sum>t\<leftarrow>trades. tx_gross t),
        ts_cum_fees := (\<Sum>t\<leftarrow>trades. tx_fees t), ts_n_trades := length trades,
        ts_realized := fold add_day trades (\<lambda>_. None)\<rparr>"

subsection \<open>The paper exchange\<close>

text \<open>\<open>rsplit("-", 1)[0]\<close>: the text before the last dash, or all of it.\<close>

definition base_of :: "string \<Rightarrow> string" where
  "base_of cid =
     (case dropWhile (\<lambda>c. c \<noteq> CHR ''-'') (rev cid) of [] \<Rightarrow> cid | _ # r \<Rightarrow> rev r)"

definition scale_of :: "(string \<times> real) list \<Rightarrow> string \<Rightarrow> real option" where
  "scale_of ratio cid = (case map_of ratio (base_of cid) of Some k \<Rightarrow> if k = 0 then None else Some k | None \<Rightarrow> None)"

definition rescale_order :: "(string \<times> real) list \<Rightarrow> order \<Rightarrow> order" where
  "rescale_order ratio ord =
     (case scale_of ratio (o_client_id ord) of
        None \<Rightarrow> ord
      | Some k \<Rightarrow> ord\<lparr>o_qty := round8 (o_qty ord * k), o_filled_qty := round8 (o_filled_qty ord * k)\<rparr>)"

definition rescale_fill :: "(string \<times> real) list \<Rightarrow> real \<Rightarrow> fill \<Rightarrow> fill" where
  "rescale_fill ratio taker f =
     (case scale_of ratio (f_client_id f) of
        None \<Rightarrow> f
      | Some k \<Rightarrow> (let q = round8 (f_qty f * k) in f\<lparr>f_qty := q, f_fee := q * f_price f * taker / 10000\<rparr>))"

definition rescale_paper_exchange :: "(string \<times> real) list \<Rightarrow> real \<Rightarrow> paper \<Rightarrow> mig_error + paper" where
  "rescale_paper_exchange ratio taker p =
     (if 1 / 10 ^ 12 < \<bar>p_qty (px_pos p)\<bar> then Inl (PaperOpen (px_symbol p))
      else (let fills = map (rescale_fill ratio taker) (px_fills p)
            in Inr (p\<lparr>px_orders := map (\<lambda>(k, ord). (k, rescale_order ratio ord)) (px_orders p), px_fills := fills,
                 px_pos := (px_pos p)
                   \<lparr>p_realized_pnl := (\<Sum>f\<leftarrow>fills. (if f_side f = SELL then 1 else - 1) * f_qty f * f_price f),
                    p_fees := (\<Sum>f\<leftarrow>fills. f_fee f)\<rparr>\<rparr>)))"

subsection \<open>The conversion of the directory\<close>

datatype ledger_file = V1 "ledger_trade list" | V2 "converted list"

fun ledger_rows :: "ledger_file \<Rightarrow> ledger_trade list" where
  "ledger_rows (V1 ts) = ts"
| "ledger_rows (V2 cs) = map ledger_trade.truncate cs"

record book_dir =
  bd_state :: trader_state
  bd_trades :: ledger_file
  bd_papers :: "(string \<times> paper) list"
  bd_recons :: "(int \<times> real) list"

record book_root =
  lr_dir :: book_dir
  lr_archive :: "book_dir option"

definition ratios :: "converted list \<Rightarrow> (string \<times> real) list" where
  "ratios cs = rev (map (\<lambda>t. (base_of (tx_entry_cid t), tx_qty t / cv_old_qty t)) cs)"

text \<open>One paper exchange after the other; an open position ends the program there.\<close>

fun rescale_papers ::
    "(string \<times> real) list \<Rightarrow> real \<Rightarrow> string list \<Rightarrow> book_dir \<Rightarrow> (mig_error + unit) \<times> book_dir" where
  "rescale_papers ratio taker [] d = (Inr (), d)"
| "rescale_papers ratio taker (s # ss) d =
     (case map_of (bd_papers d) s of
        None \<Rightarrow> rescale_papers ratio taker ss d
      | Some p \<Rightarrow>
          (case rescale_paper_exchange ratio taker p of
             Inl e \<Rightarrow> (Inl e, d)
           | Inr p1 \<Rightarrow> rescale_papers ratio taker ss (d\<lparr>bd_papers := AList.update s p1 (bd_papers d)\<rparr>)))"

definition recon_net :: "converted list \<Rightarrow> int \<times> real \<Rightarrow> int \<times> real" where
  "recon_net cs r = (fst r, \<Sum>t\<leftarrow>filter (\<lambda>t. tx_day t = fst r) cs. tx_net t)"

definition apply_migration ::
    "real \<Rightarrow> spec \<Rightarrow> converted list \<Rightarrow> book_root \<Rightarrow> (mig_error + unit) \<times> book_root" where
  "apply_migration taker sp cs books =
     (if lr_archive books \<noteq> None then (Inl ArchiveExists, books)
      else
        (let old = lr_dir books;
             d = old\<lparr>bd_trades := V2 cs, bd_state := rebuild_state (bd_state old) cs sp\<rparr>;
             finish = (\<lambda>d. \<lparr>lr_dir = d, lr_archive = Some old\<rparr>)
         in if list_ex (\<lambda>t. cv_old_qty t = 0) cs then (Inl DivByZero, finish d)
            else
              (case rescale_papers (ratios cs) taker (sp_symbols sp) d of
                 (Inl e, d1) \<Rightarrow> (Inl e, finish d1)
               | (Inr _, d1) \<Rightarrow> (Inr (), finish (d1\<lparr>bd_recons := map (recon_net cs) (bd_recons d1)\<rparr>)))))"

definition migrate ::
    "(string \<Rightarrow> int \<Rightarrow> real list) \<Rightarrow> (string \<times> sym_filters) list \<Rightarrow> string \<Rightarrow> spec \<Rightarrow> bool \<Rightarrow> book_root
     \<Rightarrow> (mig_error + converted list) \<times> book_root" where
  "migrate rest filters v1 sp applies books =
     (let st = bd_state (lr_dir books)
      in if ts_version st \<noteq> v1 then (Inl (OtherVersion (ts_version st)), books)
         else if list_ex (\<lambda>x. snd x \<noteq> None) (ts_positions st) then (Inl OpenPosition, books)
         else
           (case convert rest sp filters (sp_taker_bps sp) (ledger_rows (bd_trades (lr_dir books))) of
              Inl e \<Rightarrow> (Inl e, books)
            | Inr cs \<Rightarrow>
                if \<not> applies then (Inr cs, books)
                else (case apply_migration (sp_taker_bps sp) sp cs books of
                        (Inl e, r) \<Rightarrow> (Inl e, r) | (Inr _, r) \<Rightarrow> (Inr cs, r))))"

end
