(* ===== verification/Ledger_Correct.thy ===== *)
theory Ledger_Correct
  imports Ledger_Migration
begin

text \<open>
  The converted ledger: each trade at its new size with its old values kept, a state whose totals and
  days are those of the trades, paper exchanges whose result is that of their fills; and what a
  conversion that stops half way leaves behind.
\<close>

subsection \<open>The trades\<close>

lemma all_ok_Inl: "all_ok xs = Inl e \<Longrightarrow> Inl e \<in> set xs"
  by (induction xs rule: all_ok.induct) (auto split: sum.splits)

lemma converted_one:
  assumes "convert_one rest sp filters taker t = Inr c"
  shows "sized sp (tx_sym t) (map_of (cv_prices c)) filters = Inr (tx_qty c)
    \<and> prices_for rest sp t = Inr (cv_prices c)
    \<and> ledger_trade.truncate c = t\<lparr>tx_qty := tx_qty c, tx_gross := (tx_entry_px t - tx_exit_px t) * tx_qty c,
          tx_fees := tx_qty c * (tx_entry_px t + tx_exit_px t) * taker / 10000, tx_net := tx_gross c - tx_fees c,
          lt_version := sp_version sp\<rparr>
    \<and> (cv_old_qty c, cv_old_gross c, cv_old_fees c, cv_old_net c, cv_old_version c)
        = (tx_qty t, tx_gross t, tx_fees t, tx_net t, lt_version t)"
  using assms
  by (cases t) (auto simp: convert_one_def Let_def ledger_trade.defs split: sum.splits)

text \<open>The converted ledger has the trades of the old one in the order of their signals.\<close>

lemma convert_keeps:
  "convert rest sp filters taker ts = Inr cs \<Longrightarrow> map (convert_one rest sp filters taker) (sort_key tx_ep ts) = map Inr cs"
  unfolding convert_def by (rule all_ok_Inr)

lemma one_net: "convert_one rest sp filters taker t = Inr c \<Longrightarrow> tx_net c = tx_gross c - tx_fees c"
  by (auto simp: convert_one_def Let_def ledger_trade.defs split: sum.splits)

lemma convert_net: "convert rest sp filters taker ts = Inr cs \<Longrightarrow> list_all (\<lambda>c. tx_net c = tx_gross c - tx_fees c) cs"
proof -
  have "map (convert_one rest sp filters taker) xs = map Inr cs \<Longrightarrow> list_all (\<lambda>c. tx_net c = tx_gross c - tx_fees c) cs" for xs
  proof (induction xs arbitrary: cs)
    case (Cons x xs)
    then show ?case by (cases cs) (auto dest: one_net)
  qed simp
  then show "convert rest sp filters taker ts = Inr cs \<Longrightarrow> list_all (\<lambda>c. tx_net c = tx_gross c - tx_fees c) cs"
    using convert_keeps by blast
qed

subsection \<open>The state\<close>

lemma days_of:
  "fold add_day ts days d =
     (if d \<in> tx_day ` set ts
      then Some (fold (\<lambda>t r. add_result (tx_net t) (Some r)) (filter (\<lambda>t. tx_day t = d) ts)
             (case days d of Some r \<Rightarrow> r | None \<Rightarrow> \<lparr>dr_net = 0, dr_n = 0, dr_win = 0, dr_loss = 0\<rparr>))
      else days d)"
proof (induction ts arbitrary: days)
  case (Cons t ts)
  have r: "add_result x None = add_result x (Some \<lparr>dr_net = 0, dr_n = 0, dr_win = 0, dr_loss = 0\<rparr>)" for x
    by (simp add: add_result_def)
  have none: "filter (\<lambda>t. tx_day t = d) ts = []" if "d \<notin> tx_day ` set ts" using that by (auto simp: filter_empty_conv)
  show ?case
  proof (cases "tx_day t = d")
    case True
    then show ?thesis using Cons [of "add_day t days"] none by (auto simp: add_day_def r split: option.split)
  next
    case False
    then show ?thesis using Cons [of "add_day t days"] by (simp add: add_day_def)
  qed
qed simp

lemma day_sums:
  "let r' = fold (\<lambda>t r. add_result (tx_net t) (Some r)) ts r
   in dr_net r' = dr_net r + (\<Sum>t\<leftarrow>ts. tx_net t) \<and> dr_n r' = dr_n r + length ts
     \<and> dr_win r' = dr_win r + length (filter (\<lambda>t. 0 < tx_net t) ts)
     \<and> dr_loss r' = dr_loss r + length (filter (\<lambda>t. \<not> 0 < tx_net t) ts)"
  by (induction ts arbitrary: r) (auto simp: add_result_def Let_def)

text \<open>The rebuilt state: its net is gross less fees, and each day has exactly the results of its trades.\<close>

theorem rebuilt_balances:
  assumes "convert rest sp filters taker ts = Inr cs" "st' = rebuild_state st cs sp"
  shows "ts_cum_net st' = ts_cum_gross st' - ts_cum_fees st' \<and> ts_n_trades st' = length ts
    \<and> (case ts_realized st' d of
         None \<Rightarrow> d \<notin> tx_day ` set cs
       | Some r \<Rightarrow> dr_net r = (\<Sum>c\<leftarrow>filter (\<lambda>c. tx_day c = d) cs. tx_net c)
           \<and> dr_n r = length (filter (\<lambda>c. tx_day c = d) cs) \<and> dr_n r = dr_win r + dr_loss r)"
proof -
  have "list_all (\<lambda>c. tx_net c = tx_gross c - tx_fees c) cs" by (rule convert_net [OF assms(1)])
  then have "(\<Sum>c\<leftarrow>cs. tx_net c) = (\<Sum>c\<leftarrow>cs. tx_gross c) - (\<Sum>c\<leftarrow>cs. tx_fees c)" by (induction cs) auto
  moreover have "length cs = length ts" using arg_cong [OF convert_keeps [OF assms(1)], of length] by simp
  moreover have "length (filter (\<lambda>c. tx_day c = d) xs)
      = length (filter (\<lambda>c. tx_day c = d \<and> 0 < tx_net c) xs) + length (filter (\<lambda>c. tx_day c = d \<and> \<not> 0 < tx_net c) xs)"
    for xs :: "converted list" by (induction xs) auto
  ultimately show ?thesis
    using day_sums [of "filter (\<lambda>c. tx_day c = d) cs" "\<lparr>dr_net = 0, dr_n = 0, dr_win = 0, dr_loss = 0\<rparr>"]
    by (simp add: assms(2) rebuild_state_def days_of Let_def)
qed

subsection \<open>The paper exchanges\<close>

lemma rescaled_paper:
  assumes "rescale_paper_exchange ratio taker p = Inr p'"
  shows "p_realized_pnl (px_pos p') = (\<Sum>f\<leftarrow>px_fills p'. (if f_side f = SELL then 1 else - 1) * f_qty f * f_price f)
    \<and> p_fees (px_pos p') = (\<Sum>f\<leftarrow>px_fills p'. f_fee f) \<and> p_qty (px_pos p') = p_qty (px_pos p)
    \<and> map fst (px_orders p') = map fst (px_orders p) \<and> length (px_fills p') = length (px_fills p)"
  using assms by (auto simp: rescale_paper_exchange_def Let_def comp_def split: if_splits)

subsection \<open>A conversion that stops half way\<close>

text \<open>The state says that no position is open, but a paper exchange still has one: the conversion has
  replaced trades and state when it finds out, and cannot be run again.\<close>

lemma papers_keep:
  "bd_state (snd (rescale_papers ratio taker ss d)) = bd_state d \<and> bd_trades (snd (rescale_papers ratio taker ss d)) = bd_trades d"
proof (induction ratio taker ss d rule: rescale_papers.induct)
  case (2 ratio taker s ss d)
  show ?case
  proof (cases "map_of (bd_papers d) s")
    case None
    then show ?thesis using "2.IH"(1) by simp
  next
    case (Some p)
    then show ?thesis using "2.IH"(2) [OF Some] by (cases "rescale_paper_exchange ratio taker p") simp_all
  qed
qed simp

lemma convert_no_paper: "convert rest sp filters taker ts \<noteq> Inl (PaperOpen s)"
proof
  assume "convert rest sp filters taker ts = Inl (PaperOpen s)"
  then obtain t where t: "convert_one rest sp filters taker t = Inl (PaperOpen s)"
    using all_ok_Inl by (fastforce simp: convert_def)
  then have "prices_for rest sp t = Inl (PaperOpen s)" by (auto simp: convert_one_def Let_def split: sum.splits)
  then have "Inl (PaperOpen s) \<in> set (map (\<lambda>s. if s = tx_sym t then Inr (tx_assumed_in t) else price_at rest s (tx_ep t)) (sp_symbols sp))"
    unfolding prices_for_def by (intro all_ok_Inl) (auto simp: map_sum_def split: sum.splits)
  then show False by (auto simp: price_at_def split: if_splits list.splits)
qed

theorem migrate_half_applied:
  assumes "migrate rest filters v1 sp True books = (Inl (PaperOpen s), books')" "v1 \<noteq> sp_version sp"
  shows "ts_version (bd_state (lr_dir books')) = sp_version sp \<and> (\<exists>cs. bd_trades (lr_dir books') = V2 cs)
    \<and> migrate rest' filters' v1 sp True books' = (Inl (OtherVersion (sp_version sp)), books')"
proof -
  let ?c = "convert rest sp filters (sp_taker_bps sp) (ledger_rows (bd_trades (lr_dir books)))"
  have "ts_version (bd_state (lr_dir books)) = v1" "\<not> list_ex (\<lambda>x. snd x \<noteq> None) (ts_positions (bd_state (lr_dir books)))"
    using assms(1) by (auto simp: migrate_def Let_def split: if_splits)
  then have m: "migrate rest filters v1 sp True books
      = (case ?c of Inl e \<Rightarrow> (Inl e, books)
         | Inr cs \<Rightarrow> (case apply_migration (sp_taker_bps sp) sp cs books of (Inl e, r) \<Rightarrow> (Inl e, r) | (Inr _, r) \<Rightarrow> (Inr cs, r)))"
    unfolding migrate_def Let_def by (cases ?c) simp_all
  obtain cs where c: "?c = Inr cs" using m assms(1) convert_no_paper by (cases ?c) auto
  then have a: "apply_migration (sp_taker_bps sp) sp cs books = (Inl (PaperOpen s), books')"
    using m assms(1) by (auto split: prod.splits sum.splits)
  let ?d = "(lr_dir books)\<lparr>bd_trades := V2 cs, bd_state := rebuild_state (bd_state (lr_dir books)) cs sp\<rparr>"
  obtain d1 where d1: "rescale_papers (ratios cs) (sp_taker_bps sp) (sp_symbols sp) ?d = (Inl (PaperOpen s), d1)"
    "books' = \<lparr>lr_dir = d1, lr_archive = Some (lr_dir books)\<rparr>"
    using a by (auto simp: apply_migration_def Let_def split: if_splits prod.splits sum.splits)
  have "bd_state d1 = bd_state ?d" "bd_trades d1 = bd_trades ?d"
    using papers_keep [of "ratios cs" "sp_taker_bps sp" "sp_symbols sp" ?d] unfolding d1(1) by simp_all
  then have v: "ts_version (bd_state (lr_dir books')) = sp_version sp" "bd_trades (lr_dir books') = V2 cs"
    by (simp_all add: d1(2) rebuild_state_def)
  then show ?thesis using assms(2) unfolding migrate_def Let_def by auto
qed

end
