(* ===== verification/Night_Research.thy ===== *)
theory Night_Research
  imports Night_Report
begin

text \<open>
  The shared part of the overnight studies, \<open>research/overnight/common.py\<close>: the splitting of a price
  series into nights and days, the figures of a series of returns, the bull and bear labels, and the
  returns of holding from one session time to another.  A series is the list of its rows in the order
  of the index; days are day numbers, instants seconds; the loading of the files and the time zone
  (\<open>utc\<close>, from a local day and minute to an instant) are parameters.
\<close>

subsection \<open>Nights and days\<close>

record session_px =
  sx_day :: int
  sx_open :: real
  sx_close :: real

record split_row =
  sr_day :: int
  sr_overnight :: real
  sr_intraday :: real
  sr_whole :: real

fun gap_split :: "session_px list \<Rightarrow> split_row list" where
  "gap_split (p # d # ds) =
     \<lparr>sr_day = sx_day d, sr_overnight = sx_open d / sx_close p - 1, sr_intraday = sx_close d / sx_open d - 1,
      sr_whole = sx_close d / sx_close p - 1\<rparr> # gap_split (d # ds)"
| "gap_split _ = []"

text \<open>The adjusted close over the close, applied to the opening too.\<close>

definition div_adjusted :: "(session_px \<times> real) list \<Rightarrow> session_px list" where
  "div_adjusted rows = map (\<lambda>(d, adj). d\<lparr>sx_open := sx_open d * (adj / sx_close d), sx_close := adj\<rparr>) rows"

text \<open>The distribution of a day is received by who held over the night before.\<close>

definition etf_first_day :: int where
  "etf_first_day = 14608"

record etf_row = split_row +
  er_div :: real

definition dividend_on :: "(int \<times> real) list \<Rightarrow> real \<Rightarrow> int \<Rightarrow> real" where
  "dividend_on divs tax d = (case map_of divs d of Some x \<Rightarrow> x | None \<Rightarrow> 0) * (1 - tax)"

fun etf_rows :: "(int \<Rightarrow> real) \<Rightarrow> session_px list \<Rightarrow> etf_row list" where
  "etf_rows div_of (p # d # ds) =
     (let v = div_of (sx_day d)
      in \<lparr>sr_day = sx_day d, sr_overnight = (sx_open d + v) / sx_close p - 1, sr_intraday = sx_close d / sx_open d - 1,
          sr_whole = (sx_close d + v) / sx_close p - 1, er_div = v\<rparr>) # etf_rows div_of (d # ds)"
| "etf_rows div_of _ = []"

definition etf_returns :: "real \<Rightarrow> (int \<times> real) list \<Rightarrow> session_px list \<Rightarrow> etf_row list" where
  "etf_returns tax divs rows =
     etf_rows (dividend_on divs tax) (filter (\<lambda>d. etf_first_day \<le> sx_day d \<and> 0 < sx_open d) rows)"

subsection \<open>The figures\<close>

fun cumprod :: "real \<Rightarrow> real list \<Rightarrow> real list" where
  "cumprod c [] = []"
| "cumprod c (r # rs) = c * (1 + r) # cumprod (c * (1 + r)) rs"

fun cummax :: "real \<Rightarrow> real list \<Rightarrow> real list" where
  "cummax m [] = []"
| "cummax m (x # xs) = max m x # cummax (max m x) xs"

definition under_water :: "real list \<Rightarrow> real list" where
  "under_water eq = map2 (\<lambda>e m. e / m - 1) eq (case eq of [] \<Rightarrow> [] | e # es \<Rightarrow> e # cummax e es)"

record perf_result =
  pe_total :: real
  pe_cagr :: real
  pe_vol :: "real option"
  pe_sharpe :: "real option"
  pe_mdd :: real
  pe_wins :: real

definition perf :: "real \<Rightarrow> real list \<Rightarrow> perf_result option" where
  "perf ppy r =
     (if r = [] then None
      else (let eq = cumprod 1 r; years = real (length r) / ppy; sd = stdev r; mn = sum_list r / real (length r)
            in Some \<lparr>pe_total = last eq - 1, pe_cagr = last eq powr (1 / years) - 1,
                 pe_vol = map_option (\<lambda>s. s * sqrt ppy) sd,
                 pe_sharpe = (case sd of Some s \<Rightarrow> if 0 < s then Some (mn / s * sqrt ppy) else None | None \<Rightarrow> None),
                 pe_mdd = Min (set (under_water eq)),
                 pe_wins = real (length (filter (\<lambda>x. 0 < x) r)) / real (length r)\<rparr>))"

definition compound :: "(int \<Rightarrow> int) \<Rightarrow> (int \<times> real) list \<Rightarrow> (int \<times> real) list" where
  "compound grp rs =
     map (\<lambda>k. (k, prod_list (map (\<lambda>x. 1 + snd x) (filter (\<lambda>x. grp (fst x) = k) rs)) - 1))
       (sort (remdups (map (grp \<circ> fst) rs)))"

subsection \<open>Bull and bear\<close>

datatype regime = Bull | Bear

record swing_loop =
  sl_state :: regime
  sl_ext :: real
  sl_at :: nat
  sl_turns :: "(nat \<times> regime) list"

definition swing_step :: "real \<Rightarrow> nat \<Rightarrow> real \<Rightarrow> swing_loop \<Rightarrow> swing_loop" where
  "swing_step th i p s =
     (if sl_state s = Bull
      then (if sl_ext s < p then s\<lparr>sl_ext := p, sl_at := i\<rparr>
            else if p \<le> sl_ext s * (1 - th)
            then \<lparr>sl_state = Bear, sl_ext = p, sl_at = i, sl_turns = sl_turns s @ [(sl_at s, Bear)]\<rparr> else s)
      else (if p < sl_ext s then s\<lparr>sl_ext := p, sl_at := i\<rparr>
            else if sl_ext s * (1 + th) \<le> p
            then \<lparr>sl_state = Bull, sl_ext = p, sl_at = i, sl_turns = sl_turns s @ [(sl_at s, Bull)]\<rparr> else s))"

definition swing_start :: "real \<Rightarrow> swing_loop" where
  "swing_start p = \<lparr>sl_state = Bull, sl_ext = p, sl_at = 0, sl_turns = [(0, Bull)]\<rparr>"

definition swing_run :: "real \<Rightarrow> real list \<Rightarrow> swing_loop" where
  "swing_run th px = fold (\<lambda>(i, p). swing_step th i p) (enumerate 0 px) (swing_start (hd px))"

text \<open>The label of a place: that of the last turn at or before it whose segment holds it.\<close>

fun paint :: "nat \<Rightarrow> (nat \<times> regime) list \<Rightarrow> (nat \<Rightarrow> regime option) \<Rightarrow> nat \<Rightarrow> regime option" where
  "paint n [] lab = lab"
| "paint n [(i, r)] lab = (\<lambda>k. if i \<le> k \<and> k < n then Some r else lab k)"
| "paint n ((i, r) # (j, q) # ts) lab = paint n ((j, q) # ts) (\<lambda>k. if i \<le> k \<and> k < j then Some r else lab k)"

definition swings :: "real \<Rightarrow> real list \<Rightarrow> regime option list" where
  "swings th px = map (paint (length px) (sl_turns (swing_run th px)) (\<lambda>_. None)) [0 ..< length px]"

subsection \<open>Sessions\<close>

record hold_window =
  hw_day :: int
  hw_entry :: int
  hw_exit :: int

definition session_ts :: "(int \<Rightarrow> int \<Rightarrow> int) \<Rightarrow> int \<Rightarrow> int \<Rightarrow> int" where
  "session_ts utc day minute = utc day minute"

fun night_windows :: "(int \<Rightarrow> int \<Rightarrow> int) \<Rightarrow> int \<Rightarrow> int \<Rightarrow> int \<Rightarrow> int \<Rightarrow> int list \<Rightarrow> hold_window list" where
  "night_windows utc opens closes exit_off entry_off (d0 # d1 # ds) =
     \<lparr>hw_day = d1, hw_entry = session_ts utc d0 closes + 60 * entry_off, hw_exit = session_ts utc d1 opens + 60 * exit_off\<rparr>
     # night_windows utc opens closes exit_off entry_off (d1 # ds)"
| "night_windows utc opens closes exit_off entry_off _ = []"

definition day_windows :: "(int \<Rightarrow> int \<Rightarrow> int) \<Rightarrow> int \<Rightarrow> int \<Rightarrow> int list \<Rightarrow> hold_window list" where
  "day_windows utc opens closes days =
     map (\<lambda>d. \<lparr>hw_day = d, hw_entry = session_ts utc d opens, hw_exit = session_ts utc d closes\<rparr>) days"

record hold_row =
  hr_day :: int
  hr_ret :: real
  hr_funding :: real

definition hold_returns :: "(int \<times> real) list \<Rightarrow> hold_window list \<Rightarrow> (int \<times> real) list option \<Rightarrow> hold_row list" where
  "hold_returns px windows fund =
     List.map_filter (\<lambda>w. case (map_of px (hw_entry w), map_of px (hw_exit w)) of
         (Some a, Some b) \<Rightarrow>
           Some \<lparr>hr_day = hw_day w, hr_ret = b / a - 1,
             hr_funding = (case fund of None \<Rightarrow> 0
               | Some fs \<Rightarrow> \<Sum>f\<leftarrow>filter (\<lambda>f. hw_entry w < fst f \<and> fst f < hw_exit w) fs. snd f)\<rparr>
       | _ \<Rightarrow> None) windows"

end
