(* ===== verification/Night_Research_Correct.thy ===== *)
theory Night_Research_Correct
  imports Night_Research
begin

text \<open>
  What the figures of the overnight studies mean: nights and days compound to the whole, the drawdown is
  the worst fall from an earlier value of the series, and a turn of the market stands at an extreme.
\<close>

subsection \<open>Nights and days\<close>

text \<open>Each night and day compound to the hold, and the holds to the move from the first close to the last.\<close>

lemma split_compounds:
  assumes "list_all (\<lambda>d. sx_open d \<noteq> 0 \<and> sx_close d \<noteq> 0) ds" "ds \<noteq> []"
  shows "list_all (\<lambda>r. (1 + sr_overnight r) * (1 + sr_intraday r) = 1 + sr_whole r) (gap_split ds)
    \<and> prod_list (map (\<lambda>r. 1 + sr_whole r) (gap_split ds)) = sx_close (last ds) / sx_close (hd ds)
    \<and> map sr_day (gap_split ds) = tl (map sx_day ds)"
  using assms by (induction ds rule: gap_split.induct) (auto simp: field_simps)

lemma nights_and_days:
  assumes "list_all (\<lambda>d. sx_open d \<noteq> 0 \<and> sx_close d \<noteq> 0) ds" "ds \<noteq> []"
  shows "prod_list (map (\<lambda>r. 1 + sr_overnight r) (gap_split ds)) * prod_list (map (\<lambda>r. 1 + sr_intraday r) (gap_split ds))
    = sx_close (last ds) / sx_close (hd ds)"
proof -
  have "list_all (\<lambda>r. (1 + sr_overnight r) * (1 + sr_intraday r) = 1 + sr_whole r) rs \<Longrightarrow>
    prod_list (map (\<lambda>r. 1 + sr_overnight r) rs) * prod_list (map (\<lambda>r. 1 + sr_intraday r) rs)
      = prod_list (map (\<lambda>r. 1 + sr_whole r) rs)" for rs :: "split_row list"
  proof (induction rs)
    case (Cons r rs)
    let ?o = "\<lambda>r. 1 + sr_overnight r" and ?i = "\<lambda>r. 1 + sr_intraday r"
    have r: "?o r * ?i r = 1 + sr_whole r" using Cons.prems by simp
    have "prod_list (map ?o (r # rs)) * prod_list (map ?i (r # rs))
        = (?o r * ?i r) * (prod_list (map ?o rs) * prod_list (map ?i rs))" by (simp only: list.map prod_list.Cons mult_ac)
    also have "\<dots> = (1 + sr_whole r) * prod_list (map (\<lambda>r. 1 + sr_whole r) rs)" using Cons r by simp
    finally show ?case by simp
  qed simp
  then show ?thesis using split_compounds [OF assms] by simp
qed

subsection \<open>The drawdown\<close>

lemma cumprod_total: "cumprod c rs \<noteq> [] \<Longrightarrow> last (cumprod c rs) = c * prod_list (map (\<lambda>r. 1 + r) rs)"
  by (induction c rs rule: cumprod.induct) (case_tac rs; simp)+

lemma cummax_nth: "i < length xs \<Longrightarrow> cummax m xs ! i = Max (insert m (set (take (Suc i) xs)))"
proof (induction xs arbitrary: m i)
  case (Cons x xs)
  show ?case
  proof (cases i)
    case 0
    then show ?thesis by simp
  next
    case (Suc j)
    then have "cummax m (x # xs) ! i = Max (insert (max m x) (set (take (Suc j) xs)))" using Cons by simp
    also have "\<dots> = max (max m x) (Max (set (take (Suc j) xs)))" using Suc Cons.prems by (cases xs) auto
    also have "\<dots> = Max (insert m (insert x (set (take (Suc j) xs))))" using Suc Cons.prems by (cases xs) (auto simp: max.assoc)
    finally show ?thesis using Suc by simp
  qed
qed simp

lemma cummax_length: "length (cummax m xs) = length xs"
  by (induction xs arbitrary: m) auto

lemma under_water_nth: "i < length eq \<Longrightarrow> under_water eq ! i = eq ! i / Max (set (take (Suc i) eq)) - 1"
proof (cases eq)
  case (Cons e es)
  assume i: "i < length eq"
  have l: "length (e # cummax e es) = length eq" by (simp add: Cons cummax_length)
  have "(e # cummax e es) ! i = Max (set (take (Suc i) eq))"
    using i Cons cummax_nth [of "i - 1" es e] by (cases i) auto
  moreover have "under_water eq = map2 (\<lambda>x m. x / m - 1) eq (e # cummax e es)" by (simp add: under_water_def Cons)
  ultimately show ?thesis using i l by (simp only: nth_map nth_zip length_zip min.idem prod.case)
qed simp

lemma under_water_length: "length (under_water eq) = length eq"
  by (cases eq) (simp_all add: under_water_def cummax_length)

theorem mdd_exact:
  assumes "perf ppy r = Some p" "list_all (\<lambda>x. - 1 < x) r"
  shows "(\<exists>i j. i \<le> j \<and> j < length r \<and> pe_mdd p = cumprod 1 r ! j / cumprod 1 r ! i - 1)
    \<and> (\<forall>i j. i \<le> j \<longrightarrow> j < length r \<longrightarrow> pe_mdd p \<le> cumprod 1 r ! j / cumprod 1 r ! i - 1)"
proof -
  let ?eq = "cumprod 1 r"
  have len: "length (cumprod c rs) = length rs" for c rs by (induction c rs rule: cumprod.induct) auto
  have pos: "0 < c \<Longrightarrow> list_all (\<lambda>x. - 1 < x) rs \<Longrightarrow> list_all (\<lambda>e. 0 < e) (cumprod c rs)" for c rs
    by (induction c rs rule: cumprod.induct) auto
  have ne: "r \<noteq> []" and mdd: "pe_mdd p = Min (set (under_water ?eq))" using assms(1) by (auto simp: perf_def Let_def split: if_splits)
  have eq0: "0 < ?eq ! k" if "k < length r" for k using pos [of 1 r] assms(2) that len [of 1 r] by (simp add: list_all_length)
  have uw: "under_water ?eq ! j = ?eq ! j / Max (set (take (Suc j) ?eq)) - 1" if "j < length r" for j
    using that by (intro under_water_nth) (simp add: len)
  have nonempty: "set (under_water ?eq) \<noteq> {}" using ne under_water_length [of ?eq] len [of 1 r] by (metis length_0_conv set_empty)
  have "pe_mdd p \<in> set (under_water ?eq)" unfolding mdd by (rule Min_in [OF finite_set nonempty])
  then obtain j where j: "j < length r" "pe_mdd p = under_water ?eq ! j"
    by (auto simp: in_set_conv_nth under_water_length len)
  have "Max (set (take (Suc j) ?eq)) \<in> set (take (Suc j) ?eq)" using ne len [of 1 r] by (intro Max_in) auto
  then obtain i where i: "i < Suc j" "Max (set (take (Suc j) ?eq)) = ?eq ! i" by (auto simp: in_set_conv_nth)
  have ex: "\<exists>i j. i \<le> j \<and> j < length r \<and> pe_mdd p = ?eq ! j / ?eq ! i - 1"
    using i j uw [OF j(1)] by (intro exI [of _ i] exI [of _ j]) auto
  have all: "pe_mdd p \<le> ?eq ! b / ?eq ! a - 1" if ab: "a \<le> b" "b < length r" for a b
  proof -
    have "pe_mdd p \<le> under_water ?eq ! b"
      unfolding mdd using ab by (intro Min_le) (simp_all add: under_water_length len)
    also have "\<dots> = ?eq ! b / Max (set (take (Suc b) ?eq)) - 1" by (rule uw [OF ab(2)])
    also have "\<dots> \<le> ?eq ! b / ?eq ! a - 1"
    proof -
      have "?eq ! a \<in> set (take (Suc b) ?eq)" using ab len [of 1 r] by (auto simp: in_set_conv_nth intro!: exI [of _ a])
      then have "?eq ! a \<le> Max (set (take (Suc b) ?eq))" by simp
      then show ?thesis using eq0 [of a] eq0 [of b] ab by (simp add: frac_le)
    qed
    finally show ?thesis .
  qed
  show ?thesis using ex all by blast
qed

text \<open>The first value of the series is after the first return, so a loss of the first period is no drawdown.\<close>

lemma first_loss_unseen: "map_option pe_mdd (perf ppy [- 1 / 2, 0]) = Some 0"
  by (simp add: perf_def Let_def under_water_def)

subsection \<open>Bull and bear\<close>

text \<open>Between two turns the market is labelled by the first, and the second stands at the highest price of
  a bull or the lowest of a bear.\<close>

definition extreme :: "regime \<Rightarrow> real list \<Rightarrow> nat \<Rightarrow> nat \<Rightarrow> real \<Rightarrow> bool" where
  "extreme r px a b x \<longleftrightarrow> (\<forall>k. a \<le> k \<and> k < b \<longrightarrow> (if r = Bull then px ! k \<le> x else x \<le> px ! k))"

fun turns_ok :: "real list \<Rightarrow> (nat \<times> regime) list \<Rightarrow> bool" where
  "turns_ok px ((i, r) # (j, q) # ts) \<longleftrightarrow> i \<le> j \<and> q \<noteq> r \<and> extreme r px i (Suc j) (px ! j) \<and> turns_ok px ((j, q) # ts)"
| "turns_ok px _ \<longleftrightarrow> True"

lemma turns_snoc:
  "turns_ok px ts \<Longrightarrow> ts \<noteq> [] \<Longrightarrow> fst (last ts) \<le> j \<Longrightarrow> q \<noteq> snd (last ts) \<Longrightarrow> extreme (snd (last ts)) px (fst (last ts)) (Suc j) (px ! j)
   \<Longrightarrow> turns_ok px (ts @ [(j, q)])"
  by (induction px ts rule: turns_ok.induct) auto

definition swing_ok :: "real \<Rightarrow> real list \<Rightarrow> nat \<Rightarrow> swing_loop \<Rightarrow> bool" where
  "swing_ok th px n s \<longleftrightarrow>
     sl_turns s \<noteq> [] \<and> turns_ok px (sl_turns s) \<and> snd (last (sl_turns s)) = sl_state s
     \<and> fst (last (sl_turns s)) \<le> sl_at s \<and> sl_at s < n \<and> sl_ext s = px ! sl_at s
     \<and> extreme (sl_state s) px (fst (last (sl_turns s))) n (sl_ext s)
     \<and> (\<forall>k. sl_at s \<le> k \<and> k < n \<longrightarrow>
          (if sl_state s = Bull then px ! k = sl_ext s \<or> sl_ext s * (1 - th) < px ! k
           else px ! k = sl_ext s \<or> px ! k < sl_ext s * (1 + th)))"

lemma swing_step_ok:
  assumes "swing_ok th px n s" "n < length px" "0 \<le> th" "list_all (\<lambda>p. 0 < p) px"
  shows "swing_ok th px (Suc n) (swing_step th n (px ! n) s)"
proof -
  let ?p = "px ! n" and ?t = "last (sl_turns s)"
  have i: "sl_turns s \<noteq> []" "turns_ok px (sl_turns s)" "snd ?t = sl_state s" "fst ?t \<le> sl_at s" "sl_at s < n" "sl_ext s = px ! sl_at s"
    and e: "extreme (sl_state s) px (fst ?t) n (sl_ext s)"
    and k: "\<And>k. sl_at s \<le> k \<Longrightarrow> k < n \<Longrightarrow> (if sl_state s = Bull then px ! k = sl_ext s \<or> sl_ext s * (1 - th) < px ! k
           else px ! k = sl_ext s \<or> px ! k < sl_ext s * (1 + th))"
    using assms(1) unfolding swing_ok_def by blast+
  have pos: "0 < sl_ext s" using assms(2,4) i(5,6) by (simp add: list_all_length)
  have turn: "turns_ok px (sl_turns s @ [(sl_at s, q)])" if "q \<noteq> sl_state s" for q
  proof (rule turns_snoc)
    show "extreme (snd ?t) px (fst ?t) (Suc (sl_at s)) (px ! sl_at s)"
      using e i(3,5,6) unfolding extreme_def by (metis (full_types) Suc_leI less_le_trans)
  qed (use i that in simp_all)
  show ?thesis
  proof (cases "sl_state s")
    case Bull
    have down: "sl_ext s * (1 - th) \<le> sl_ext s" using pos assms(3) by (simp add: algebra_simps)
    consider (up) "sl_ext s < ?p" | (turn) "\<not> sl_ext s < ?p" "?p \<le> sl_ext s * (1 - th)"
      | (on) "\<not> sl_ext s < ?p" "\<not> ?p \<le> sl_ext s * (1 - th)" by blast
    then show ?thesis
    proof cases
      case up
      then show ?thesis using Bull i e
        by (auto simp: swing_ok_def swing_step_def extreme_def less_Suc_eq intro: order_trans less_imp_le)
    next
      case turn
      have "?p \<le> px ! j" if "sl_at s \<le> j" "j < n" for j
        using k [OF that] Bull turn(2) down by auto
      then show ?thesis using Bull i e turn(1,2) \<open>\<And>q. q \<noteq> sl_state s \<Longrightarrow> turns_ok px (sl_turns s @ [(sl_at s, q)])\<close>
        by (auto simp: swing_ok_def swing_step_def extreme_def less_Suc_eq)
    next
      case on
      then show ?thesis using Bull i e k
        by (auto simp: swing_ok_def swing_step_def extreme_def less_Suc_eq)
    qed
  next
    case Bear
    have up: "sl_ext s \<le> sl_ext s * (1 + th)" using pos assms(3) by (simp add: algebra_simps)
    consider (low) "?p < sl_ext s" | (turn) "\<not> ?p < sl_ext s" "sl_ext s * (1 + th) \<le> ?p"
      | (on) "\<not> ?p < sl_ext s" "\<not> sl_ext s * (1 + th) \<le> ?p" by blast
    then show ?thesis
    proof cases
      case low
      then show ?thesis using Bear i e
        by (auto simp: swing_ok_def swing_step_def extreme_def less_Suc_eq intro: order_trans less_imp_le)
    next
      case turn
      have "px ! j \<le> ?p" if "sl_at s \<le> j" "j < n" for j
        using k [OF that] Bear turn(2) up by auto
      then show ?thesis using Bear i e turn(1,2) \<open>\<And>q. q \<noteq> sl_state s \<Longrightarrow> turns_ok px (sl_turns s @ [(sl_at s, q)])\<close>
        by (auto simp: swing_ok_def swing_step_def extreme_def less_Suc_eq)
    next
      case on
      then show ?thesis using Bear i e k
        by (auto simp: swing_ok_def swing_step_def extreme_def less_Suc_eq)
    qed
  qed
qed

lemma swing_fold:
  assumes "0 \<le> th" "list_all (\<lambda>p. 0 < p) px" "swing_ok th px n s"
  shows "n + m \<le> length px \<Longrightarrow>
    swing_ok th px (n + m) (fold (\<lambda>(i, p). swing_step th i p) (enumerate n (take m (drop n px))) s)
    \<and> hd (sl_turns (fold (\<lambda>(i, p). swing_step th i p) (enumerate n (take m (drop n px))) s)) = hd (sl_turns s)"
proof (induction m)
  case 0
  then show ?case using assms(3) by simp
next
  case (Suc m)
  let ?f = "\<lambda>(i, p). swing_step th i p"
  let ?s = "fold ?f (enumerate n (take m (drop n px))) s"
  have IH: "swing_ok th px (n + m) ?s" "hd (sl_turns ?s) = hd (sl_turns s)" using Suc by simp_all
  have ne: "sl_turns ?s \<noteq> []" using IH(1) by (simp add: swing_ok_def)
  have "take (Suc m) (drop n px) = take m (drop n px) @ [px ! (n + m)]" using Suc.prems by (simp add: take_Suc_conv_app_nth)
  then have f: "fold ?f (enumerate n (take (Suc m) (drop n px))) s = swing_step th (n + m) (px ! (n + m)) ?s"
    using Suc.prems by (simp add: enumerate_append_eq)
  have "hd (sl_turns (swing_step th k p ?s)) = hd (sl_turns ?s)" for k p using ne by (simp add: swing_step_def)
  then show ?case using swing_step_ok [OF IH(1) _ assms(1,2)] Suc.prems IH(2) unfolding f by simp
qed

theorem swing_turns:
  assumes "px \<noteq> []" "0 < th" "list_all (\<lambda>p. 0 < p) px"
  shows "turns_ok px (sl_turns (swing_run th px)) \<and> hd (sl_turns (swing_run th px)) = (0, Bull)"
proof -
  obtain p ps where px: "px = p # ps" using assms(1) by (cases px) auto
  have p: "0 < p" using assms(3) px by simp
  then have "\<not> p \<le> p * (1 - th)" using mult_pos_pos [OF _ assms(2), of p] by (simp add: algebra_simps)
  then have first: "swing_step th 0 p (swing_start p) = swing_start p" by (simp add: swing_step_def swing_start_def)
  have ok: "swing_ok th px 1 (swing_start p)" by (simp add: swing_ok_def swing_start_def px extreme_def)
  have "swing_run th px = fold (\<lambda>(i, p). swing_step th i p) (enumerate 1 (take (length ps) (drop 1 px))) (swing_start p)"
    by (simp add: swing_run_def px first)
  then show ?thesis using swing_fold [OF less_imp_le [OF assms(2)] assms(3) ok, of "length ps"] px
    by (simp add: swing_ok_def swing_start_def)
qed

end
