(* ===== verification/Straddle_Report.thy ===== *)
theory Straddle_Report
  imports Straddle Klines Night_Research_Correct
begin

text \<open>
  The backtest around the simulation: \<open>load_data\<close>, \<open>run_backtest\<close> and \<open>run_compare_dte\<close> of
  \<open>legacy/straddle/backtest.py\<close> and the figures of \<open>src/metrics.py\<close>.  The two caches and the answers
  of the exchange are parameters; the files of the report are not modelled.  A ratio that is not a
  number is \<open>None\<close>.
\<close>

subsection \<open>The figures\<close>

definition falls :: "real list \<Rightarrow> real list" where
  "falls eq = map2 (\<lambda>e m. e - m) eq (case eq of [] \<Rightarrow> [] | e # es \<Rightarrow> e # cummax e es)"

definition equity_drawdown :: "real list \<Rightarrow> real" where
  "equity_drawdown eq = (if eq = [] then 0 else Min (set (falls eq)))"

fun diffs :: "real list \<Rightarrow> real list" where
  "diffs (x # y # ys) = (y - x) # diffs (y # ys)"
| "diffs _ = []"

definition sharpe :: "real list \<Rightarrow> real \<Rightarrow> real option" where
  "sharpe r periods =
     (if r = [] then Some 0
      else case stdev r of
             None \<Rightarrow> None
           | Some s \<Rightarrow> if s = 0 then Some 0 else Some (sum_list r / real (length r) / s * sqrt periods))"

record cycle_totals =
  ct_theory :: real
  ct_copied :: real
  ct_error :: real
  ct_premium :: real
  ct_payoff :: real

record straddle_summary =
  ss_total :: real
  ss_mdd :: real
  ss_sharpe :: "real option"
  ss_cycles :: nat
  ss_totals :: "cycle_totals option"
  ss_fees :: real
  ss_trades :: nat

definition avg_of :: "('a \<Rightarrow> real) \<Rightarrow> 'a list \<Rightarrow> real" where
  "avg_of f xs = (\<Sum>x\<leftarrow>xs. f x) / real (length xs)"

definition cycle_totals_of :: "cycle_result list \<Rightarrow> cycle_totals option" where
  "cycle_totals_of cs =
     (if cs = [] then None
      else (let th = (\<Sum>c\<leftarrow>cs. cy_opt_pnl c); rp = (\<Sum>c\<leftarrow>cs. cy_repl_pnl c)
            in Some \<lparr>ct_theory = th, ct_copied = rp, ct_error = rp - th, ct_premium = avg_of cy_premium cs, ct_payoff = avg_of cy_payoff cs\<rparr>))"

text \<open>\<open>summarize\<close>, with the fees and the number of trades that the callers add.\<close>

definition straddle_summary_of :: "real \<Rightarrow> sim \<Rightarrow> straddle_summary" where
  "straddle_summary_of bars_per_year s =
     (let eq = map rd_equity (sm_records s)
      in \<lparr>ss_total = (if eq = [] then 0 else last eq - hd eq), ss_mdd = equity_drawdown eq, ss_sharpe = sharpe (diffs eq) bars_per_year,
          ss_cycles = length (sm_cycles s), ss_totals = cycle_totals_of (sm_cycles s),
          ss_fees = br_fees (sm_broker s), ss_trades = length (br_trades (sm_broker s))\<rparr>)"

subsection \<open>The data\<close>

datatype load_error = Downloads data_error | NoData

text \<open>The candles and, for the realized mode, the volatility of each day.\<close>

definition load_data ::
    "(string \<Rightarrow> (data_error + candle list)) \<Rightarrow> string \<Rightarrow> string \<Rightarrow> nat \<Rightarrow> load_error + candle list \<times> (int \<times> real option) list" where
  "load_data load interval mode window =
     (case load interval of
        Inl e \<Rightarrow> Inl (Downloads e)
      | Inr [] \<Rightarrow> Inl NoData
      | Inr df \<Rightarrow>
          if mode = ''realized''
          then (case load ''1d'' of
                  Inl e \<Rightarrow> Inl (Downloads e)
                | Inr daily \<Rightarrow> Inr (df, zip (map (\<lambda>c. ca_t c * 1000 div day_us * day_us) daily) (realized_vol_series window (map ca_close daily))))
          else Inr (df, []))"

definition bars_per_year :: "string \<Rightarrow> real option" where
  "bars_per_year interval = map_option (\<lambda>ms. 86400000 / of_int ms * 365) (interval_ms interval)"

subsection \<open>The runs\<close>

definition run_backtest ::
    "sr_env \<Rightarrow> real \<Rightarrow> real \<Rightarrow> real \<Rightarrow> string \<Rightarrow> real \<Rightarrow> real \<Rightarrow> (int \<times> real option) list \<Rightarrow> (int \<times> real) list
     \<Rightarrow> formula_error + straddle_summary" where
  "run_backtest v band taker slip mode sigma periods series bars =
     map_sum id (straddle_summary_of periods) (simulate v band taker slip mode sigma series bars)"

text \<open>The same data for each number of days to the expiry; \<open>env_of\<close> is the configuration with that number.\<close>

definition run_compare_dte ::
    "(int \<Rightarrow> sr_env) \<Rightarrow> real \<Rightarrow> real \<Rightarrow> real \<Rightarrow> string \<Rightarrow> real \<Rightarrow> real \<Rightarrow> (int \<times> real option) list \<Rightarrow> (int \<times> real) list
     \<Rightarrow> int list \<Rightarrow> formula_error + (int \<times> straddle_summary) list" where
  "run_compare_dte env_of band taker slip mode sigma periods series bars dtes =
     fold (\<lambda>d acc. case acc of
         Inl e \<Rightarrow> Inl e
       | Inr rs \<Rightarrow> map_sum id (\<lambda>s. AList.update d s rs) (run_backtest (env_of d) band taker slip mode sigma periods series bars))
       dtes (Inr [])"

subsection \<open>What they say\<close>

lemma diffs_sum: "eq \<noteq> [] \<Longrightarrow> sum_list (diffs eq) = last eq - hd eq"
  by (induction eq rule: diffs.induct) auto

lemma falls_nth: "i < length eq \<Longrightarrow> falls eq ! i = eq ! i - Max (set (take (Suc i) eq))"
proof (cases eq)
  case (Cons e es)
  assume i: "i < length eq"
  have l: "length (e # cummax e es) = length eq" by (simp add: Cons cummax_length)
  have "(e # cummax e es) ! i = Max (set (take (Suc i) eq))"
    using i Cons cummax_nth [of "i - 1" es e] by (cases i) auto
  moreover have "falls eq = map2 (\<lambda>x m. x - m) eq (e # cummax e es)" by (simp add: falls_def Cons)
  ultimately show ?thesis using i l by (simp only: nth_map nth_zip length_zip min.idem prod.case)
qed simp

lemma falls_length: "length (falls eq) = length eq"
  by (cases eq) (simp_all add: falls_def cummax_length)

text \<open>The drawdown is the deepest fall from any earlier point of the equity to a later one.\<close>

theorem equity_drawdown_exact:
  assumes "eq \<noteq> []"
  shows "(\<exists>i j. i \<le> j \<and> j < length eq \<and> equity_drawdown eq = eq ! j - eq ! i)
    \<and> (\<forall>i j. i \<le> j \<longrightarrow> j < length eq \<longrightarrow> equity_drawdown eq \<le> eq ! j - eq ! i)"
proof -
  have ne: "set (falls eq) \<noteq> {}" using assms falls_length [of eq] by (metis length_0_conv set_empty)
  have dd: "equity_drawdown eq = Min (set (falls eq))" using assms by (simp add: equity_drawdown_def)
  have "equity_drawdown eq \<in> set (falls eq)" unfolding dd by (rule Min_in [OF finite_set ne])
  then obtain j where j: "j < length eq" "equity_drawdown eq = falls eq ! j" by (auto simp: in_set_conv_nth falls_length)
  have "Max (set (take (Suc j) eq)) \<in> set (take (Suc j) eq)" using assms by (intro Max_in) auto
  then obtain i where i: "i < Suc j" "Max (set (take (Suc j) eq)) = eq ! i" by (auto simp: in_set_conv_nth)
  have ex: "\<exists>i j. i \<le> j \<and> j < length eq \<and> equity_drawdown eq = eq ! j - eq ! i"
    using i j falls_nth [OF j(1)] by (intro exI [of _ i] exI [of _ j]) auto
  have all: "equity_drawdown eq \<le> eq ! b - eq ! a" if ab: "a \<le> b" "b < length eq" for a b
  proof -
    have "equity_drawdown eq \<le> falls eq ! b" unfolding dd using ab by (intro Min_le) (simp_all add: falls_length)
    moreover have "eq ! a \<le> Max (set (take (Suc b) eq))"
      using ab by (intro Max_ge) (auto simp: in_set_conv_nth intro!: exI [of _ a])
    ultimately show ?thesis using falls_nth [OF ab(2)] by simp
  qed
  show ?thesis using ex all by blast
qed

text \<open>Every comparison is the backtest of its own configuration over the same data.\<close>

lemma compare_each:
  assumes "run_compare_dte env_of band taker slip mode sigma periods series bars dtes = Inr rs"
  shows "\<forall>d. map_of rs d = (if d \<in> set dtes
    then (case run_backtest (env_of d) band taker slip mode sigma periods series bars of Inr s \<Rightarrow> Some s | Inl _ \<Rightarrow> None) else None)"
  using assms
proof (induction dtes arbitrary: rs rule: rev_induct)
  case Nil
  then show ?case by (simp add: run_compare_dte_def)
next
  case (snoc d ds)
  let ?run = "\<lambda>d. run_backtest (env_of d) band taker slip mode sigma periods series bars"
  obtain rs0 where r0: "run_compare_dte env_of band taker slip mode sigma periods series bars ds = Inr rs0"
    using snoc.prems by (cases "run_compare_dte env_of band taker slip mode sigma periods series bars ds") (auto simp: run_compare_dte_def)
  then obtain s where s: "?run d = Inr s" "rs = AList.update d s rs0"
    using snoc.prems by (cases "?run d") (auto simp: run_compare_dte_def)
  show ?case using snoc.IH [OF r0] s by (auto simp: update_conv')
qed

end
