(* ===== verification/Trade_Chart.thy ===== *)
theory Trade_Chart
  imports Replay
begin

text \<open>
  The chart of one trade, \<open>strategies/pastofi_crypto/chart.py\<close>: the feed is replayed over the seconds
  around the trade and sampled every second.  The rows of the window are a parameter (\<open>load_window\<close>);
  an exception of the feed is a \<open>replay_error\<close>.
\<close>

subsection \<open>The samples\<close>

record chart =
  ch_t :: "int list"
  ch_mid :: "real option list"
  ch_bid :: "real option list"
  ch_ask :: "real option list"
  ch_past :: "real option list"
  ch_ratio :: "real option list"

definition chart_before :: int where "chart_before = 900"
definition chart_after :: int where "chart_after = 900"
definition chart_pad :: int where "chart_pad = 700"

definition no_chart :: chart where
  "no_chart = \<lparr>ch_t = [], ch_mid = [], ch_bid = [], ch_ask = [], ch_past = [], ch_ratio = []\<rparr>"

definition at_second :: "eng option \<Rightarrow> int \<Rightarrow> (eng \<Rightarrow> real list) \<Rightarrow> real option" where
  "at_second eo T f =
     (case eo of None \<Rightarrow> None | Some e \<Rightarrow> map_option (\<lambda>i. f e ! i) (idx_upto (e_ts e) (of_int T)))"

definition chart_sample :: "feed \<Rightarrow> int \<Rightarrow> int \<Rightarrow> int \<Rightarrow> chart \<Rightarrow> chart" where
  "chart_sample fd day T E out =
     (let eo = feed_engine day fd;
          s = (case eo of None \<Rightarrow> None | Some _ \<Rightarrow> (case feed_snapshot day T fd of Some (Inr sn) \<Rightarrow> Some sn | _ \<Rightarrow> None))
      in \<lparr>ch_t = ch_t out @ [E], ch_mid = ch_mid out @ [at_second eo T e_mid], ch_bid = ch_bid out @ [at_second eo T e_bid],
          ch_ask = ch_ask out @ [at_second eo T e_ask],
          ch_past = ch_past out @ [map_option (\<lambda>sn. round_dec 2 (sn_past_bp sn)) s],
          ch_ratio = ch_ratio out @ [case s of
              Some sn \<Rightarrow> if sn_warm sn then map_option (round_dec 4) (sn_ofi_ratio sn) else None | None \<Rightarrow> None]\<rparr>)"

subsection \<open>The replay\<close>

text \<open>\<open>tick_to(E)\<close>: every second up to \<open>E\<close>, sampled from \<open>lo\<close> on.\<close>

function chart_ticks :: "int \<Rightarrow> int \<Rightarrow> int \<Rightarrow> feed \<Rightarrow> chart \<Rightarrow> replay_error + int \<times> feed \<times> chart" where
  "chart_ticks lo E nxt fd out =
     (if nxt \<le> E
      then (case replay_step (nxt div day_len) (InTick (nxt div day_len) (nxt mod day_len)) fd of
              Inl e \<Rightarrow> Inl e
            | Inr fd1 \<Rightarrow>
                chart_ticks lo E (nxt + 1) fd1
                  (if lo \<le> nxt then chart_sample fd1 (nxt div day_len) (nxt mod day_len) nxt out else out))
      else Inr (nxt, fd, out))"
  by pat_completeness auto
termination
  by (relation "measure (\<lambda>(lo, E, nxt, fd, out). nat (E + 1 - nxt))") auto

declare chart_ticks.simps [simp del]

fun chart_events :: "int \<Rightarrow> int \<Rightarrow> int \<Rightarrow> rp_event list \<Rightarrow> int \<Rightarrow> feed \<Rightarrow> chart \<Rightarrow> replay_error + int \<times> feed \<times> chart" where
  "chart_events delay lo hi [] nxt fd out = Inr (nxt, fd, out)"
| "chart_events delay lo hi (e # es) nxt fd out =
     (case chart_ticks lo (min ((ev_ts e - delay) div 1000) hi) nxt fd out of
        Inl x \<Rightarrow> Inl x
      | Inr (n, fd1, out1) \<Rightarrow>
          if hi < n then Inr (n, fd1, out1)
          else (case replay_step (ev_ts e div 1000 div day_len) (ev_in e) fd1 of
                  Inl x \<Rightarrow> Inl x | Inr fd2 \<Rightarrow> chart_events delay lo hi es n fd2 out1))"

definition chart_build ::
    "spec \<Rightarrow> string \<Rightarrow> int \<Rightarrow> int \<Rightarrow> int \<Rightarrow> rp_event list \<Rightarrow> rp_event list \<Rightarrow> replay_error + chart" where
  "chart_build sp sm delay lo hi quotes trades =
     (case feed_init sp sm of
        Inl e \<Rightarrow> Inl (ReplaySpec e)
      | Inr fd0 \<Rightarrow>
          (case chart_events delay lo hi (merge_events quotes trades) (lo - chart_pad) fd0 no_chart of
             Inl x \<Rightarrow> Inl x
           | Inr (n, fd1, out) \<Rightarrow>
               (case chart_ticks lo hi n fd1 out of Inl x \<Rightarrow> Inl x | Inr (_, _, out1) \<Rightarrow> Inr out1)))"

subsection \<open>The chart of a trade\<close>

record chart_trade =
  ct_symbol :: string
  ct_t_sig :: real
  ct_exit_ts :: "real option"
  ct_past :: "real option"
  ct_ratio :: "real option"

record chart_view =
  tv_lo :: int
  tv_hi :: int
  tv_final :: bool
  tv_ok :: bool
  tv_chart :: chart

definition near_value :: "real option \<Rightarrow> real option \<Rightarrow> bool" where
  "near_value got want \<longleftrightarrow> (case (got, want) of (Some x, Some y) \<Rightarrow> \<bar>x - y\<bar> < 1 / 100 | _ \<Rightarrow> False)"

definition trade_chart ::
    "spec \<Rightarrow> int \<Rightarrow> (string \<Rightarrow> int \<Rightarrow> int \<Rightarrow> rp_event list \<times> rp_event list) \<Rightarrow> real \<Rightarrow> chart_trade
     \<Rightarrow> (replay_error + unit) + chart_view" where
  "trade_chart sp delay window now tr =
     (case spec_params sp of
        Inl e \<Rightarrow> Inl (Inl (ReplaySpec e))
      | Inr p \<Rightarrow>
          (let t_sig = to_int (YFloat (ct_t_sig tr));
               t_end = (case ct_exit_ts tr of Some x \<Rightarrow> if x = 0 then t_sig + pm_hold p else to_int (YFloat x) | None \<Rightarrow> t_sig + pm_hold p);
               lo = t_sig - chart_before; hi = to_int (YFloat (min (of_int (t_end + chart_after)) (now - 2)));
               rows = window (ct_symbol tr) (lo - chart_pad) (hi + 1)
           in case chart_build sp (ct_symbol tr) delay lo hi (fst rows) (snd rows) of
                Inl e \<Rightarrow> Inl (Inl e)
              | Inr s \<Rightarrow>
                  (let k = nat (t_sig - lo); there = k < length (ch_t s)
                   in Inr \<lparr>tv_lo = lo, tv_hi = hi, tv_final = (t_end + chart_after \<le> hi),
                        tv_ok = (there \<and> near_value (ch_past s ! k) (ct_past tr) \<and> near_value (ch_ratio s ! k) (ct_ratio tr)),
                        tv_chart = s\<rparr>)))"

subsection \<open>One sample a second\<close>

definition chart_ok :: "int \<Rightarrow> int \<Rightarrow> chart \<Rightarrow> bool" where
  "chart_ok lo nxt c \<longleftrightarrow> ch_t c = [lo .. nxt - 1]
     \<and> length (ch_mid c) = length (ch_t c) \<and> length (ch_bid c) = length (ch_t c) \<and> length (ch_ask c) = length (ch_t c)
     \<and> length (ch_past c) = length (ch_t c) \<and> length (ch_ratio c) = length (ch_t c)"

lemma sample_ok: "chart_ok lo nxt c \<Longrightarrow> lo \<le> nxt \<Longrightarrow> chart_ok lo (nxt + 1) (chart_sample fd day T nxt c)"
  by (simp add: chart_ok_def chart_sample_def Let_def upto_rec2)

lemma before_ok: "chart_ok lo nxt c \<Longrightarrow> nxt < lo \<Longrightarrow> chart_ok lo (nxt + 1) c"
  by (simp add: chart_ok_def)

lemma ticks_ok:
  "chart_ticks lo E nxt fd out = Inr (n, fd1, out1) \<Longrightarrow> chart_ok lo nxt out \<Longrightarrow> chart_ok lo n out1 \<and> n = max nxt (E + 1)"
proof (induction lo E nxt fd out rule: chart_ticks.induct)
  case (1 lo E nxt fd out)
  let ?step = "replay_step (nxt div day_len) (InTick (nxt div day_len) (nxt mod day_len)) fd"
  show ?case
  proof (cases "nxt \<le> E")
    case True
    then obtain fd2 where s: "?step = Inr fd2" using "1.prems"(1) by (subst (asm) chart_ticks.simps) (auto split: sum.splits)
    let ?out = "if lo \<le> nxt then chart_sample fd2 (nxt div day_len) (nxt mod day_len) nxt out else out"
    have "chart_ticks lo E (nxt + 1) fd2 ?out = Inr (n, fd1, out1)"
      using "1.prems"(1) True s by (subst (asm) chart_ticks.simps) simp
    moreover have "chart_ok lo (nxt + 1) ?out" using "1.prems"(2) sample_ok before_ok by simp
    ultimately have "chart_ok lo n out1 \<and> n = max (nxt + 1) (E + 1)" using "1.IH" [OF True s] by blast
    then show ?thesis using True by auto
  next
    case False
    then show ?thesis using "1.prems" by (subst (asm) chart_ticks.simps) simp
  qed
qed

lemma events_ok:
  "chart_events delay lo hi es nxt fd out = Inr (n, fd1, out1) \<Longrightarrow> chart_ok lo nxt out \<Longrightarrow> nxt \<le> hi + 1
   \<Longrightarrow> chart_ok lo n out1 \<and> n \<le> hi + 1"
proof (induction es arbitrary: nxt fd out)
  case (Cons e es)
  let ?E = "min ((ev_ts e - delay) div 1000) hi"
  obtain n2 fd2 out2 where t: "chart_ticks lo ?E nxt fd out = Inr (n2, fd2, out2)"
    using Cons.prems(1) by (cases "chart_ticks lo ?E nxt fd out") auto
  have ok: "chart_ok lo n2 out2" "n2 = max nxt (?E + 1)" using ticks_ok [OF t Cons.prems(2)] by blast+
  have le: "n2 \<le> hi + 1" using ok(2) Cons.prems(3) by simp
  show ?case
  proof (cases "hi < n2")
    case True
    then show ?thesis using Cons.prems(1) t ok le by simp
  next
    case False
    then obtain fd3 where "replay_step (ev_ts e div 1000 div day_len) (ev_in e) fd2 = Inr fd3"
      using Cons.prems(1) t by (cases "replay_step (ev_ts e div 1000 div day_len) (ev_in e) fd2") auto
    then show ?thesis using Cons.IH [OF _ ok(1) le, of fd3] Cons.prems(1) t False by simp
  qed
qed simp

text \<open>A chart has exactly one sample for every second of its range, in order, in each of its columns.\<close>

theorem chart_seconds:
  assumes "chart_build sp sm delay lo hi quotes trades = Inr c" "lo - chart_pad \<le> hi + 1"
  shows "ch_t c = [lo .. hi] \<and> length (ch_past c) = length (ch_t c) \<and> length (ch_ratio c) = length (ch_t c)"
proof -
  obtain fd0 where f: "feed_init sp sm = Inr fd0" using assms(1) by (cases "feed_init sp sm") (auto simp: chart_build_def)
  obtain n fd1 out where e: "chart_events delay lo hi (merge_events quotes trades) (lo - chart_pad) fd0 no_chart = Inr (n, fd1, out)"
    using assms(1) f by (cases "chart_events delay lo hi (merge_events quotes trades) (lo - chart_pad) fd0 no_chart") (auto simp: chart_build_def)
  obtain m fd2 where t: "chart_ticks lo hi n fd1 out = Inr (m, fd2, c)"
    using assms(1) f e by (cases "chart_ticks lo hi n fd1 out") (auto simp: chart_build_def)
  have start: "chart_ok lo (lo - chart_pad) no_chart" by (simp add: chart_ok_def no_chart_def chart_pad_def)
  have "chart_ok lo n out" "n \<le> hi + 1" using events_ok [OF e start assms(2)] by simp_all
  then have "chart_ok lo (hi + 1) c" using ticks_ok [OF t] by auto
  then show ?thesis by (simp add: chart_ok_def)
qed

end
