(* ===== verification/Web_View.thy ===== *)
theory Web_View
  imports Trade_Chart Trade_Report_Correct
begin

text \<open>
  The monitoring pages, \<open>strategies/pastofi_crypto/web.py\<close>: the trades of a ledger from the database or,
  when it cannot be read, from the journal, the daily results, the charts with their cache, and which
  answer a request gets.  The files and the database are parameters; sockets are not modelled.
\<close>

datatype web_mode = PaperBooks | LiveBooks

definition web_mode_of :: "string list \<Rightarrow> web_mode" where
  "web_mode_of q = (case q of [] \<Rightarrow> PaperBooks | m # _ \<Rightarrow> if m = ''live'' then LiveBooks else PaperBooks)"

subsection \<open>The trades\<close>

record web_trade = chart_trade +
  wt_id :: string
  wt_version :: "string option"
  wt_gross :: "real option"
  wt_fees :: "real option"
  wt_net :: "real option"

text \<open>The version of the state file; nothing when the file is missing or cannot be read.\<close>

datatype 'a file_read = NoFile | Unreadable_file | Content 'a

definition ledger_version :: "string option file_read \<Rightarrow> string option" where
  "ledger_version f = (case f of Content v \<Rightarrow> v | _ \<Rightarrow> None)"

definition of_version :: "string option \<Rightarrow> web_trade list \<Rightarrow> web_trade list" where
  "of_version ver rows = filter (\<lambda>t. ver = None \<or> wt_version t = ver) rows"

definition web_trades :: "string option \<Rightarrow> web_trade list option \<Rightarrow> web_trade line list \<Rightarrow> web_trade list" where
  "web_trades ver db lines =
     sort_key ct_t_sig (of_version ver (case db of Some rows \<Rightarrow> rows | None \<Rightarrow> read_jsonl wt_id lines))"

definition web_signals :: "nat \<Rightarrow> journal_signal line list \<Rightarrow> journal_signal list" where
  "web_signals limit lines =
     (let rows = sort_key js_t_sig (read_jsonl (\<lambda>s. (js_symbol s, js_t_sig s)) lines) in drop (length rows - limit) rows)"

text \<open>The reconciled days; a file that cannot be read is passed over.\<close>

record recon_view =
  rw_day :: int
  rw_ok :: bool
  rw_issues :: "(string \<times> rec_row) list"

definition web_reconcile :: "(int \<times> reconciliation) option list \<Rightarrow> recon_view list" where
  "web_reconcile files =
     map (\<lambda>(d, r). \<lparr>rw_day = d, rw_ok = re_ok r,
            rw_issues = concat (map (\<lambda>(s, v). map (Pair s)
              (filter (\<lambda>row. rr_result row \<noteq> Match \<and> rr_result row \<noteq> Uncovered) (sy_rows v))) (re_symbols r))\<rparr>)
       (List.map_filter id files)"

record day_view =
  dv_n :: nat
  dv_net :: real
  dv_gross :: real
  dv_fees :: real
  dv_win :: nat

definition web_day :: "web_trade \<Rightarrow> int" where
  "web_day t = day_number (case ct_exit_ts t of Some x \<Rightarrow> if x = 0 then ct_t_sig t else x | None \<Rightarrow> ct_t_sig t)"

definition day_view_of :: "web_trade list \<Rightarrow> day_view" where
  "day_view_of ts =
     \<lparr>dv_n = length ts, dv_net = (\<Sum>t\<leftarrow>ts. zero_or (wt_net t)), dv_gross = (\<Sum>t\<leftarrow>ts. zero_or (wt_gross t)),
      dv_fees = (\<Sum>t\<leftarrow>ts. zero_or (wt_fees t)), dv_win = length (filter (\<lambda>t. 0 < zero_or (wt_net t)) ts)\<rparr>"

definition web_daily :: "web_trade list \<Rightarrow> (int \<times> day_view) list" where
  "web_daily rows = map (\<lambda>(d, ts). (d, day_view_of ts)) (sort_key fst (group_by web_day rows))"

subsection \<open>The charts\<close>

type_synonym chart_cache = "((web_mode \<times> string) \<times> chart_view) list"

datatype chart_answer = NoSuchTrade string | ChartFailed | Chart chart_view

text \<open>Only a trade of the list is charted; a chart that will not change any more is kept, and the cache
  is emptied when it has grown past two hundred.\<close>

definition web_chart ::
    "(web_trade \<Rightarrow> (replay_error + unit) + chart_view) \<Rightarrow> web_mode \<Rightarrow> string \<Rightarrow> web_trade list \<Rightarrow> chart_cache
     \<Rightarrow> chart_answer \<times> chart_cache" where
  "web_chart mk mode tid rows cache =
     (case map_of cache (mode, tid) of
        Some c \<Rightarrow> (Chart c, cache)
      | None \<Rightarrow>
          (case find (\<lambda>t. wt_id t = tid) rows of
             None \<Rightarrow> (NoSuchTrade tid, cache)
           | Some t \<Rightarrow>
               (case mk t of
                  Inl _ \<Rightarrow> (ChartFailed, cache)
                | Inr c \<Rightarrow>
                    (Chart c,
                     if tv_final c then AList.update (mode, tid) c (if 200 < length cache then [] else cache) else cache))))"

subsection \<open>The requests\<close>

datatype web_answer = PageAnswer | AllAnswer web_mode | ChartReply chart_answer | NotFound

definition web_get ::
    "(web_mode \<Rightarrow> web_trade list) \<Rightarrow> (web_trade \<Rightarrow> (replay_error + unit) + chart_view)
     \<Rightarrow> string \<Rightarrow> string list \<Rightarrow> string list \<Rightarrow> chart_cache \<Rightarrow> web_answer \<times> chart_cache" where
  "web_get rows mk url modes ids cache =
     (let mode = web_mode_of modes in
      if url = ''/'' \<or> url = ''/index.html'' then (PageAnswer, cache)
      else if url = ''/api/all'' then (AllAnswer mode, cache)
      else if url = ''/api/trade_chart''
      then apfst ChartReply (web_chart mk mode (case ids of [] \<Rightarrow> [] | i # _ \<Rightarrow> i) (rows mode) cache)
      else (NotFound, cache))"

subsection \<open>What a request can reach\<close>

text \<open>Whatever is asked for, in whatever order and while the trades change: a chart that is answered is the
  chart of a trade that was in the list of its ledger, the cache holds final charts only, at most 201.\<close>

type_synonym web_request = "(web_mode \<Rightarrow> web_trade list) \<times> (web_trade \<Rightarrow> (replay_error + unit) + chart_view) \<times> string \<times> string list \<times> string list"

definition known_chart :: "web_request list \<Rightarrow> web_mode \<Rightarrow> string \<Rightarrow> chart_view \<Rightarrow> bool" where
  "known_chart rqs mode tid c \<longleftrightarrow>
     (\<exists>(rows, mk, _)\<in>set rqs. \<exists>t\<in>set (rows mode). wt_id t = tid \<and> mk t = Inr c)"

definition cache_ok :: "web_request list \<Rightarrow> chart_cache \<Rightarrow> bool" where
  "cache_ok rqs cache \<longleftrightarrow> length cache \<le> 201 \<and> distinct (map fst cache)
     \<and> (\<forall>k c. map_of cache k = Some c \<longrightarrow> tv_final c \<and> known_chart rqs (fst k) (snd k) c)"

fun web_serve :: "web_request list \<Rightarrow> chart_cache \<Rightarrow> (web_answer list) \<times> chart_cache" where
  "web_serve [] cache = ([], cache)"
| "web_serve ((rows, mk, url, modes, ids) # rqs) cache =
     (case web_get rows mk url modes ids cache of (a, c1) \<Rightarrow> apfst (Cons a) (web_serve rqs c1))"

lemma known_more: "known_chart rqs m i c \<Longrightarrow> set rqs \<subseteq> set rqs' \<Longrightarrow> known_chart rqs' m i c"
  unfolding known_chart_def by blast

lemma cache_more: "cache_ok rqs c \<Longrightarrow> set rqs \<subseteq> set rqs' \<Longrightarrow> cache_ok rqs' c"
  unfolding cache_ok_def using known_more [where rqs = rqs and rqs' = rqs'] by presburger

lemma update_length: "length (AList.update k v xs) \<le> Suc (length xs)"
  by (induction xs) auto

lemma chart_cache_ok:
  assumes "cache_ok rqs cache" "(rows, mk, rest) \<in> set rqs"
    and "web_chart mk mode tid (rows mode) cache = (a, cache1)"
  shows "cache_ok rqs cache1 \<and> (\<forall>c. a = Chart c \<longrightarrow> known_chart rqs mode tid c)"
proof (cases "map_of cache (mode, tid)")
  case (Some c)
  then show ?thesis using assms by (auto simp: web_chart_def cache_ok_def)
next
  case None
  show ?thesis
  proof (cases "find (\<lambda>t. wt_id t = tid) (rows mode)")
    case None
    then show ?thesis using assms \<open>map_of cache (mode, tid) = None\<close> by (auto simp: web_chart_def)
  next
    case (Some t)
    then have t: "t \<in> set (rows mode)" "wt_id t = tid" by (auto simp: find_Some_iff)
    show ?thesis
    proof (cases "mk t")
      case (Inl e)
      then show ?thesis using assms Some \<open>map_of cache (mode, tid) = None\<close> by (auto simp: web_chart_def)
    next
      case (Inr c)
      have known: "known_chart rqs mode tid c" unfolding known_chart_def using assms(2) t Inr by blast
      let ?base = "if 200 < length cache then [] else cache"
      have a: "a = Chart c" "cache1 = (if tv_final c then AList.update (mode, tid) c ?base else cache)"
        using assms(3) Some Inr \<open>map_of cache (mode, tid) = None\<close> by (auto simp: web_chart_def)
      have "cache_ok rqs (AList.update (mode, tid) c ?base)" if "tv_final c"
        using assms(1) that known update_length [of "(mode, tid)" c ?base]
        by (auto simp: cache_ok_def update_conv' distinct_update split: if_splits)
      then show ?thesis using a known assms(1) by auto
    qed
  qed
qed

theorem web_charts_known:
  assumes "cache_ok old cache" "web_serve rqs cache = (answers, cache')"
  shows "cache_ok (old @ rqs) cache' \<and> (\<forall>c. ChartReply (Chart c) \<in> set answers \<longrightarrow> (\<exists>m i. known_chart (old @ rqs) m i c))"
  using assms
proof (induction rqs arbitrary: old cache answers)
  case Nil
  then show ?case by simp
next
  case (Cons rq rqs)
  obtain rows mk url modes ids where rq: "rq = (rows, mk, url, modes, ids)" by (cases rq)
  obtain a c1 where g: "web_get rows mk url modes ids cache = (a, c1)" by fastforce
  obtain as where s: "web_serve rqs c1 = (as, cache')" "answers = a # as"
    using Cons.prems(2) by (cases "web_serve rqs c1") (auto simp: rq g)
  have old: "cache_ok (old @ [rq]) cache" by (rule cache_more [OF Cons.prems(1)]) auto
  have c1: "cache_ok (old @ [rq]) c1 \<and> (\<forall>c. a = ChartReply (Chart c) \<longrightarrow> (\<exists>m i. known_chart (old @ [rq]) m i c))"
  proof (cases "url = ''/api/trade_chart''")
    case True
    let ?tid = "case ids of [] \<Rightarrow> [] | i # _ \<Rightarrow> i"
    obtain b where b: "web_chart mk (web_mode_of modes) ?tid (rows (web_mode_of modes)) cache = (b, c1)" "a = ChartReply b"
      using g True by (auto simp: web_get_def Let_def apfst_def map_prod_def split: prod.splits)
    have "cache_ok (old @ [rq]) c1 \<and> (\<forall>c. b = Chart c \<longrightarrow> known_chart (old @ [rq]) (web_mode_of modes) ?tid c)"
      by (rule chart_cache_ok [where rows = rows and mk = mk and rest = "(url, modes, ids)", OF old _ b(1)]) (simp add: rq)
    then show ?thesis using b(2) by blast
  next
    case False
    then show ?thesis using g old by (auto simp: web_get_def Let_def split: if_splits)
  qed
  have IH: "cache_ok ((old @ [rq]) @ rqs) cache' \<and> (\<forall>c. ChartReply (Chart c) \<in> set as \<longrightarrow> (\<exists>m i. known_chart ((old @ [rq]) @ rqs) m i c))"
    by (rule Cons.IH [OF conjunct1 [OF c1] s(1)])
  have first: "\<exists>m i. known_chart (old @ rq # rqs) m i c" if hit: "a = ChartReply (Chart c)" for c
  proof -
    obtain m i where "known_chart (old @ [rq]) m i c" using c1 hit by blast
    then have "known_chart (old @ rq # rqs) m i c" by (rule known_more) auto
    then show ?thesis by blast
  qed
  show ?case using IH first by (auto simp: s(2))
qed

text \<open>The daily results add up to the trades shown.\<close>

lemma web_days_sum:
  "(\<Sum>d\<leftarrow>web_daily rows. dv_n (snd d)) = length rows \<and> (\<Sum>d\<leftarrow>web_daily rows. dv_net (snd d)) = (\<Sum>t\<leftarrow>rows. zero_or (wt_net t))"
proof -
  have d: "(\<Sum>d\<leftarrow>web_daily rows. f (snd d)) = (\<Sum>g\<leftarrow>group_by web_day rows. f (day_view_of (snd g)))"
    for f :: "day_view \<Rightarrow> 'b :: comm_monoid_add"
    using sorted_sum [of "\<lambda>g. f (day_view_of (snd g))" fst "group_by web_day rows"]
    by (simp add: web_daily_def comp_def case_prod_beta)
  show ?thesis using group_count [of web_day rows] group_sum [of "\<lambda>t. zero_or (wt_net t)" web_day rows]
    by (simp add: d day_view_of_def)
qed

end
