(* ===== verification/Auth.thy ===== *)
theory Auth
  imports Text_Tools "HOL-Library.AList" "HOL-Library.Sublist"
begin

text \<open>
  Keys and signed queries, \<open>src/exchange/auth.py\<close>: where the file with the keys may lie, how the keys are
  taken from the environment, and the query with its signature.  A resolved path is the list of its
  parts; resolving a path, the URL encoding of a pair and the HMAC are parameters.
\<close>

subsection \<open>The keys\<close>

datatype auth_error = UnsafeSecretLocation "string list" | MissingCredentials

type_synonym environ = "(string \<times> string) list"

definition recv_window_default :: int where
  "recv_window_default = 5000"

text \<open>The path of the variable, or the usual one.\<close>

definition secrets_env_path :: "(string \<Rightarrow> string list) \<Rightarrow> string \<Rightarrow> environ \<Rightarrow> string list" where
  "secrets_env_path resolve usual env =
     resolve (case map_of env ''AUTOCOIN_ENV_FILE'' of Some p \<Rightarrow> p | None \<Rightarrow> usual)"

text \<open>\<open>load_dotenv(override=False)\<close>: a variable that is set already keeps its value.\<close>

definition load_dotenv :: "environ \<Rightarrow> environ \<Rightarrow> environ" where
  "load_dotenv content env = fold (\<lambda>(k, v) e. if map_of env k = None then AList.update k v e else e) content env"

definition load_secrets_env ::
    "(string \<Rightarrow> string list) \<Rightarrow> string \<Rightarrow> string list \<Rightarrow> (string list \<Rightarrow> environ option) \<Rightarrow> string option \<Rightarrow> environ
     \<Rightarrow> (auth_error + string list) \<times> environ" where
  "load_secrets_env resolve usual repo files path env =
     (let p = (case path of Some x \<Rightarrow> resolve x | None \<Rightarrow> secrets_env_path resolve usual env)
      in if prefix repo p then (Inl (UnsafeSecretLocation p), env)
         else (Inr p, case files p of Some content \<Rightarrow> load_dotenv content env | None \<Rightarrow> env))"

text \<open>The masked form that is shown: the first four characters and the length, or stars.\<close>

datatype masked = Stars | Head string nat

definition masked_of :: "string \<Rightarrow> masked" where
  "masked_of v = (if 4 < length v then Head (take 4 v) (length v) else Stars)"

record credentials_pair =
  cp_key :: string
  cp_secret :: string

definition from_env ::
    "(string \<Rightarrow> string list) \<Rightarrow> string \<Rightarrow> string list \<Rightarrow> (string list \<Rightarrow> environ option) \<Rightarrow> string \<Rightarrow> string \<Rightarrow> string option
     \<Rightarrow> environ \<Rightarrow> (auth_error + credentials_pair) \<times> environ" where
  "from_env resolve usual repo files key_var secret_var path env =
     (case load_secrets_env resolve usual repo files path env of
        (Inl e, env1) \<Rightarrow> (Inl e, env1)
      | (Inr _, env1) \<Rightarrow>
          (let val = (\<lambda>v. strip_text (case map_of env1 v of Some x \<Rightarrow> x | None \<Rightarrow> []));
               key = val key_var; secret = val secret_var
           in if key = [] \<or> secret = [] then (Inl MissingCredentials, env1)
              else (Inr \<lparr>cp_key = key, cp_secret = secret\<rparr>, env1)))"

subsection \<open>The query\<close>

fun joined :: "string \<Rightarrow> string list \<Rightarrow> string" where
  "joined sep [] = []"
| "joined sep [x] = x"
| "joined sep (x # xs) = x @ sep @ joined sep xs"

definition urlencode :: "('k \<times> 'v \<Rightarrow> string) \<Rightarrow> ('k \<times> 'v) list \<Rightarrow> string" where
  "urlencode enc p = joined ''&'' (map enc p)"

datatype 'v param = Given 'v | Number int

definition signed_params :: "(string \<times> 'v param) list \<Rightarrow> int \<Rightarrow> int \<Rightarrow> (string \<times> 'v param) list" where
  "signed_params ps recv_window ts =
     AList.update ''timestamp'' (Number ts) (AList.update ''recvWindow'' (Number recv_window) ps)"

definition sign_query :: "(string \<Rightarrow> string \<Rightarrow> string) \<Rightarrow> string \<Rightarrow> string \<Rightarrow> string" where
  "sign_query hmac secret query = hmac secret query"

text \<open>The timestamp given, or the clock in milliseconds.\<close>

definition build_signed_query ::
    "(string \<Rightarrow> string \<Rightarrow> string) \<Rightarrow> (string \<times> 'v param \<Rightarrow> string) \<Rightarrow> credentials_pair \<Rightarrow> (string \<times> 'v param) list \<Rightarrow> int
     \<Rightarrow> int option \<Rightarrow> int \<Rightarrow> string \<times> (string \<times> string) list" where
  "build_signed_query hmac enc creds ps recv_window given now_ms =
     (let query = urlencode enc (signed_params ps recv_window (case given of Some t \<Rightarrow> t | None \<Rightarrow> now_ms))
      in (query @ ''&signature='' @ sign_query hmac (cp_secret creds) query, [(''X-MBX-APIKEY'', cp_key creds)]))"

subsection \<open>What holds of them\<close>

definition set_unset :: "environ \<Rightarrow> environ \<Rightarrow> environ \<Rightarrow> environ" where
  "set_unset env content e = fold (\<lambda>(k, v) e. if map_of env k = None then AList.update k v e else e) content e"

lemma set_unset_Cons: "set_unset env ((k, v) # c) e = set_unset env c (if map_of env k = None then AList.update k v e else e)"
  by (simp add: set_unset_def)

lemma set_unset_keeps: "map_of env k \<noteq> None \<Longrightarrow> map_of (set_unset env content e) k = map_of e k"
proof (induction content arbitrary: e)
  case (Cons x xs)
  obtain k' v' where x: "x = (k', v')" by (cases x)
  show ?case using Cons.IH [OF Cons.prems] Cons.prems by (auto simp: x set_unset_Cons update_conv')
qed (simp add: set_unset_def)

lemma set_unset_source: "map_of (set_unset env content e) k = Some v \<Longrightarrow> map_of e k = Some v \<or> (k, v) \<in> set content"
proof (induction content arbitrary: e)
  case (Cons x xs)
  obtain k' v' where x: "x = (k', v')" by (cases x)
  show ?case using Cons.IH [of "if map_of env k' = None then AList.update k' v' e else e"] Cons.prems
    by (auto simp: x set_unset_Cons update_conv' split: if_splits)
qed (simp add: set_unset_def)

lemma dotenv_keeps: "map_of env k \<noteq> None \<Longrightarrow> map_of (load_dotenv content env) k = map_of env k"
  using set_unset_keeps [of env k content env] by (simp add: load_dotenv_def set_unset_def)

lemma dotenv_source: "map_of (load_dotenv content env) k = Some v \<Longrightarrow> map_of env k = Some v \<or> (k, v) \<in> set content"
  using set_unset_source [of env content env k v] by (simp add: load_dotenv_def set_unset_def)

text \<open>A file inside the repository is never read, and the variables that are set win over the file.\<close>

theorem secrets_outside:
  assumes "load_secrets_env resolve usual repo files path env = (r, env1)"
  shows "(case r of
       Inl _ \<Rightarrow> env1 = env
     | Inr p \<Rightarrow> \<not> prefix repo p \<and> (\<forall>k. map_of env k \<noteq> None \<longrightarrow> map_of env1 k = map_of env k)
         \<and> (\<forall>k v. map_of env1 k = Some v \<longrightarrow> map_of env k = Some v \<or> (\<exists>c. files p = Some c \<and> (k, v) \<in> set c)))"
proof -
  let ?p = "case path of Some x \<Rightarrow> resolve x | None \<Rightarrow> secrets_env_path resolve usual env"
  show ?thesis
  proof (cases "prefix repo ?p")
    case True
    then show ?thesis using assms by (auto simp: load_secrets_env_def Let_def)
  next
    case False
    then have r: "r = Inr ?p" and e: "env1 = (case files ?p of Some content \<Rightarrow> load_dotenv content env | None \<Rightarrow> env)"
      using assms by (simp_all add: load_secrets_env_def Let_def)
    show ?thesis
    proof (cases "files ?p")
      case None
      then show ?thesis using e False unfolding r by simp
    next
      case (Some c)
      then have "env1 = load_dotenv c env" using e by simp
      then show ?thesis using False dotenv_keeps [of env _ c] dotenv_source [of c env] Some unfolding r by auto
    qed
  qed
qed

text \<open>The signature covers the whole query before it, in which the window and the time are the given ones
  and every other parameter stands as it was.\<close>

lemma signed_covers:
  assumes "distinct (map fst ps)" "build_signed_query hmac enc creds ps w (Some t) now = (q, hs)"
  shows "\<exists>sent body. body = urlencode enc sent \<and> q = body @ ''&signature='' @ hmac (cp_secret creds) body
    \<and> distinct (map fst sent) \<and> map_of sent ''timestamp'' = Some (Number t) \<and> map_of sent ''recvWindow'' = Some (Number w)
    \<and> (\<forall>k. k \<notin> {''timestamp'', ''recvWindow''} \<longrightarrow> map_of sent k = map_of ps k) \<and> hs = [(''X-MBX-APIKEY'', cp_key creds)]"
  using assms by (intro exI [of _ "signed_params ps w t"])
    (auto simp: build_signed_query_def Let_def sign_query_def signed_params_def update_conv' distinct_update)

end
