(* ===== verification/Night_Status.thy ===== *)
theory Night_Status
  imports Overnight_Runner Klines
begin

text \<open>
  The status view of the overnight scheduler and the funding of a paper position, \<open>src/overnight/runner.py\<close>:
  \<open>public_funding\<close>, \<open>agent_info\<close> and \<open>collect_status\<close>.  The files, the agent and the exchange are
  parameters; the text of the view is not modelled.
\<close>

subsection \<open>The funding of a long position\<close>

text \<open>The rates strictly inside the holding time; a row with a missing number does not count.\<close>

definition public_funding :: "(int \<Rightarrow> int \<Rightarrow> data_error + funding_rate list) \<Rightarrow> datetime \<Rightarrow> datetime \<Rightarrow> real \<Rightarrow> data_error + real" where
  "public_funding fetch start stop q =
     map_sum id (\<lambda>rows. - (\<Sum>r\<leftarrow>filter (\<lambda>r. start < fu_t r * 1000 \<and> fu_t r * 1000 < stop) rows.
         (case (fu_rate r, fu_mark r) of (Some x, Some m) \<Rightarrow> x * m * q | _ \<Rightarrow> 0)))
       (fetch (start div 1000) (stop div 1000))"

subsection \<open>The agent\<close>

record agent_view =
  ag_loaded :: bool
  ag_info :: "(string \<times> string) list"

definition agent_keys :: "string list" where
  "agent_keys = [''state'', ''pid'', ''last exit code'']"

text \<open>Each key at its first line; the text behind the first \<open>=\<close>, stripped.\<close>

definition agent_line :: "string \<Rightarrow> (string \<times> string) list \<Rightarrow> (string \<times> string) list" where
  "agent_line line info =
     (let l = strip_text line
      in fold (\<lambda>key m. if starts_text (key @ '' ='') l \<and> map_of m key = None
                       then m @ [(key, strip_text (tl (dropWhile (\<lambda>c. c \<noteq> CHR ''='') l)))] else m) agent_keys info)"

definition agent_info :: "(int \<times> string list) \<Rightarrow> agent_view" where
  "agent_info answer =
     (if fst answer \<noteq> 0 then \<lparr>ag_loaded = False, ag_info = []\<rparr>
      else \<lparr>ag_loaded = True, ag_info = fold agent_line (snd answer) []\<rparr>)"

subsection \<open>The status\<close>

record upcoming_night =
  un_entry :: int
  un_exit :: int
  un_method :: "ab option"
  un_skip :: "skip_night option"
  un_entry_at :: "int option"
  un_exit_at :: "int option"

definition upcoming_of :: "night_spec \<Rightarrow> night \<Rightarrow> night_error + upcoming_night" where
  "upcoming_of ns n =
     (if n_skip n \<noteq> None
      then Inr \<lparr>un_entry = n_entry_date n, un_exit = n_exit_date n, un_method = n_method n, un_skip = n_skip n,
                un_entry_at = None, un_exit_at = None\<rparr>
      else map_sum id (\<lambda>t. \<lparr>un_entry = n_entry_date n, un_exit = n_exit_date n, un_method = n_method n, un_skip = None,
             un_entry_at = Some (case ot_entry_limit t of Some x \<Rightarrow> x | None \<Rightarrow> ot_entry_market t),
             un_exit_at = Some (case ot_exit_limit t of Some x \<Rightarrow> x | None \<Rightarrow> ot_exit_market t)\<rparr>) (order_times_of ns n))"

text \<open>The nights still ahead, up to the third that is traded; \<open>room\<close> is how many traded ones may follow.\<close>

fun upcoming_nights :: "night_spec \<Rightarrow> int \<Rightarrow> int list \<Rightarrow> nat \<Rightarrow> night list \<Rightarrow> night_error + upcoming_night list" where
  "upcoming_nights ns now past room [] = Inr []"
| "upcoming_nights ns now past room (n # rest) =
     (if us (n_exit_open n) \<le> now \<or> n_entry_date n \<in> set past then upcoming_nights ns now past room rest
      else (case upcoming_of ns n of
              Inl e \<Rightarrow> Inl e
            | Inr u \<Rightarrow>
                (let room1 = (if un_skip u = None then room - 1 else room)
                 in if room1 = 0 then Inr [u]
                    else map_sum id (Cons u) (upcoming_nights ns now past room1 rest))))"

record 'x status_view =
  sv_agent :: agent_view
  sv_kill :: bool
  sv_night :: "night_state option"
  sv_done :: nat
  sv_skipped :: nat
  sv_risk :: risk_state
  sv_upcoming :: "upcoming_night list"
  sv_events :: "(datetime \<times> ovn_event) list"
  sv_exchange :: "(exn + 'x) option"

text \<open>A missing state file reads as no night and no history; what the exchange raises is shown.\<close>

definition collect_status ::
    "night_spec \<Rightarrow> int \<Rightarrow> (night_state option \<times> history) option \<Rightarrow> risk_state option \<Rightarrow> bool \<Rightarrow> (datetime \<times> ovn_event) list
     \<Rightarrow> agent_view \<Rightarrow> (exn + 'x) option \<Rightarrow> night_error + 'x status_view" where
  "collect_status ns now runner_file risk kill events agent exchange =
     (let hist = (case runner_file of Some (_, h) \<Rightarrow> h | None \<Rightarrow> [])
      in case nights ns of
           Inl e \<Rightarrow> Inl e
         | Inr all \<Rightarrow>
             map_sum id (\<lambda>up. \<lparr>sv_agent = agent, sv_kill = kill,
                 sv_night = (case runner_file of Some (n, _) \<Rightarrow> n | None \<Rightarrow> None),
                 sv_done = length (filter (\<lambda>h. nt_phase (snd h) = Done) hist),
                 sv_skipped = length (filter (\<lambda>h. nt_phase (snd h) = Skipped) hist),
                 sv_risk = (case risk of Some r \<Rightarrow> r | None \<Rightarrow> fresh_risk),
                 sv_upcoming = up, sv_events = drop (length events - 5) events, sv_exchange = exchange\<rparr>)
               (upcoming_nights ns now (map fst hist) 3 all))"

subsection \<open>What is shown\<close>

text \<open>The list shows nights that are still ahead and not in the history, at most as many traded ones as
  there is room for, in the order of the calendar.\<close>

lemma upcoming_facts:
  "upcoming_nights ns now past room ns_list = Inr ups \<Longrightarrow> 0 < room \<Longrightarrow>
   list_all (\<lambda>u. \<exists>n\<in>set ns_list. upcoming_of ns n = Inr u \<and> now < us (n_exit_open n) \<and> n_entry_date n \<notin> set past) ups
   \<and> length (filter (\<lambda>u. un_skip u = None) ups) \<le> room"
proof (induction ns now past room ns_list arbitrary: ups rule: upcoming_nights.induct)
  case (2 ns now past room n rest)
  show ?case
  proof (cases "us (n_exit_open n) \<le> now \<or> n_entry_date n \<in> set past")
    case True
    then show ?thesis using "2.IH"(1) "2.prems" by (auto simp: list_all_iff)
  next
    case False
    then obtain u where u: "upcoming_of ns n = Inr u" using "2.prems" by (cases "upcoming_of ns n") auto
    let ?room = "if un_skip u = None then room - 1 else room"
    show ?thesis
    proof (cases "?room = 0")
      case True
      then have "ups = [u]" using "2.prems"(1) False u by (simp add: Let_def)
      then show ?thesis using False u "2.prems"(2) by auto
    next
      case more: False
      then obtain us' where r: "upcoming_nights ns now past ?room rest = Inr us'" "ups = u # us'"
        using "2.prems"(1) False u by (cases "upcoming_nights ns now past ?room rest") (auto simp: Let_def)
      have "list_all (\<lambda>u. \<exists>n\<in>set rest. upcoming_of ns n = Inr u \<and> now < us (n_exit_open n) \<and> n_entry_date n \<notin> set past) us'
          \<and> length (filter (\<lambda>u. un_skip u = None) us') \<le> ?room"
        using "2.IH"(2) [OF False u refl more r(1)] more by blast
      then show ?thesis using r(2) False u "2.prems"(2) more by (auto simp: list_all_iff not_le split: if_splits)
    qed
  qed
qed simp

end
