(* ===== verification/Collector_Start.thy ===== *)
theory Collector_Start
  imports Strategy_Spec
begin

text \<open>
  How the collector is put together, \<open>src/collect_orderbook.py\<close>, with the database helpers of
  \<open>src/storage/db.py\<close>: what is checked before anything is collected, which parts run for which
  arguments, and what is done at the end.  Whether the vault exists, the database answers and the clock
  can be measured are parameters.
\<close>

subsection \<open>The database\<close>

definition dsn_default :: string where
  "dsn_default = ''postgresql:///autocoin''"

definition get_dsn :: "string option \<Rightarrow> string option \<Rightarrow> string" where
  "get_dsn dsn var =
     (case dsn of
        Some d \<Rightarrow> if d \<noteq> [] then d else (case var of Some v \<Rightarrow> v | None \<Rightarrow> dsn_default)
      | None \<Rightarrow> (case var of Some v \<Rightarrow> v | None \<Rightarrow> dsn_default))"

text \<open>The answer to a connection; creating the database may fail too.\<close>

datatype db_answer = Connected_db | MissingDb | OtherDbError

definition ensure_database :: "db_answer \<Rightarrow> bool \<Rightarrow> db_answer + bool" where
  "ensure_database answer created =
     (case answer of
        Connected_db \<Rightarrow> Inr False
      | MissingDb \<Rightarrow> if created then Inr True else Inl OtherDbError
      | OtherDbError \<Rightarrow> Inl OtherDbError)"

definition last_book_ts :: "string \<Rightarrow> (string \<times> int) list \<Rightarrow> int option" where
  "last_book_ts sm rows =
     (let ts = map snd (filter (\<lambda>r. fst r = sm) rows) in if ts = [] then None else Some (Max (set ts)))"

subsection \<open>The start\<close>

datatype start_error = NoVault | DbNotReady | NoStore | ClockFailed | MonitorDb

datatype store_kind = DbStore string | FileStore string

record collector_args =
  ca_no_obsidian :: bool
  ca_no_db :: bool
  ca_dsn :: "string option"
  ca_raw_dir :: "string option"
  ca_symbols :: "string list"
  ca_no_notify :: bool
  ca_no_backfill :: bool
  ca_prevent_sleep :: bool

record outside =
  ow_vault :: bool
  ow_dsn_var :: "string option"
  ow_db_ready :: bool
  ow_clock_ms :: "real option"
  ow_telegram :: bool
  ow_last_book :: "string \<Rightarrow> (unit + int option)"

record collector_plan =
  pl_stores :: "store_kind list"
  pl_symbols :: "string list"
  pl_clock_ms :: real
  pl_monitor :: bool
  pl_last_depth :: "int option"
  pl_backfill :: "string list"
  pl_guard :: bool

text \<open>The stores: the database after its check, the raw files after it.\<close>

definition stores_of :: "collector_args \<Rightarrow> outside \<Rightarrow> start_error + store_kind list" where
  "stores_of a w =
     (if \<not> ca_no_db a \<and> \<not> ow_db_ready w then Inl DbNotReady
      else (let ss = (if ca_no_db a then [] else [DbStore (get_dsn (ca_dsn a) (ow_dsn_var w))])
                   @ (case ca_raw_dir a of Some d \<Rightarrow> if d = [] then [] else [FileStore d] | None \<Rightarrow> [])
            in if ss = [] then Inl NoStore else Inr ss))"

definition collector_start :: "collector_args \<Rightarrow> outside \<Rightarrow> start_error + collector_plan" where
  "collector_start a w =
     (if \<not> ca_no_obsidian a \<and> \<not> ow_vault w then Inl NoVault
      else case stores_of a w of
             Inl e \<Rightarrow> Inl e
           | Inr ss \<Rightarrow>
               (case ow_clock_ms w of
                  None \<Rightarrow> Inl ClockFailed
                | Some off \<Rightarrow>
                    (let symbols = map upper (ca_symbols a); mon = (\<not> ca_no_notify a \<and> ow_telegram w)
                     in case (if mon \<and> \<not> ca_no_db a then ow_last_book w (hd symbols) else Inr None) of
                          Inl _ \<Rightarrow> Inl MonitorDb
                        | Inr lb \<Rightarrow>
                            Inr \<lparr>pl_stores = ss, pl_symbols = symbols, pl_clock_ms = off, pl_monitor = mon, pl_last_depth = lb,
                                 pl_backfill = (if ca_no_db a \<or> ca_no_backfill a then [] else symbols),
                                 pl_guard = ca_prevent_sleep a\<rparr>)))"

subsection \<open>The end\<close>

datatype end_step = ReleaseGuard | CloseStores | FinalMessage

text \<open>The \<open>finally\<close> block, whatever ended the tasks.\<close>

definition collector_end :: "collector_plan \<Rightarrow> end_step list" where
  "collector_end p = (if pl_guard p then [ReleaseGuard] else []) @ [CloseStores] @ (if pl_monitor p then [FinalMessage] else [])"

text \<open>A collector that starts has somewhere to write, has checked the database it writes to, and repairs
  gaps only in the database it writes to.\<close>

theorem collector_start_sound:
  assumes "collector_start a w = Inr p"
  shows "pl_stores p \<noteq> [] \<and> ((\<exists>d. DbStore d \<in> set (pl_stores p)) \<longleftrightarrow> \<not> ca_no_db a)
    \<and> ((\<exists>d. DbStore d \<in> set (pl_stores p)) \<longrightarrow> ow_db_ready w)
    \<and> (pl_backfill p \<noteq> [] \<longrightarrow> pl_backfill p = pl_symbols p \<and> (\<exists>d. DbStore d \<in> set (pl_stores p)))
    \<and> pl_symbols p = map upper (ca_symbols a)"
proof -
  obtain ss where ss: "stores_of a w = Inr ss" and p: "pl_stores p = ss" "pl_symbols p = map upper (ca_symbols a)"
    "pl_backfill p = (if ca_no_db a \<or> ca_no_backfill a then [] else map upper (ca_symbols a))"
    using assms by (auto simp: collector_start_def Let_def split: if_splits sum.splits option.splits)
  have "ss \<noteq> []" "(\<exists>d. DbStore d \<in> set ss) \<longleftrightarrow> \<not> ca_no_db a" "\<not> ca_no_db a \<longrightarrow> ow_db_ready w"
    using ss by (auto simp: stores_of_def Let_def split: if_splits option.splits)
  then show ?thesis using p by (auto split: if_splits)
qed

end
